(* ===== verification/Prelude.thy ===== *)
theory Prelude
  imports Main "HOL-Library.Word"
begin

text \<open>
  The language and library layer the component theories share: results and errors, the
  fixed-width unsigned integers of Rust with their saturating operations, durations, and
  text. A Rust \<open>String\<close> is a sequence of UTF-8 bytes, so it is modelled as
  \<^typ>\<open>string\<close> with one \<^typ>\<open>char\<close> per byte; the operations that work on Unicode
  scalar values (\<open>trim\<close>, \<open>chars().any(char::is_control)\<close>, \<open>chars().count()\<close>) go through
  \<open>utf8_chars\<close>, which cuts a byte string into the encodings of its scalar values. Unsigned
  integers are words; the signed ones, which the program only uses inside small checked
  ranges, are \<^typ>\<open>int\<close> with the range written out where the code checks it.
\<close>

named_theorems text_defs \<open>definitions of the text operations, for evaluation on closed terms\<close>
named_theorems frame_simps \<open>which parts of a state an operation leaves alone\<close>
named_theorems inv_intros \<open>operations keep the invariant of their component\<close>

section \<open>Results\<close>

type_synonym ('a, 'e) result = "'e + 'a"

abbreviation Ok :: "'a \<Rightarrow> ('a, 'e) result" where "Ok \<equiv> Inr"
abbreviation Err :: "'e \<Rightarrow> ('a, 'e) result" where "Err \<equiv> Inl"

definition is_ok :: "('a, 'e) result \<Rightarrow> bool" where
  "is_ok r = (case r of Ok _ \<Rightarrow> True | Err _ \<Rightarrow> False)"

lemma is_ok_simps [simp]: "is_ok (Ok a)" "\<not> is_ok (Err e)"
  by (simp_all add: is_ok_def)

lemma is_ok_iff: "is_ok r \<longleftrightarrow> (\<exists>a. r = Ok a)"
  by (cases r) simp_all

text \<open>The question mark operator, and the two ways of applying a fallible function to what a container holds.\<close>

definition and_then :: "('a, 'e) result \<Rightarrow> ('a \<Rightarrow> ('b, 'e) result) \<Rightarrow> ('b, 'e) result" where
  "and_then r f = (case r of Err e \<Rightarrow> Err e | Ok a \<Rightarrow> f a)"

lemma and_then_simps [simp]: "and_then (Ok a) f = f a" "and_then (Err e) f = Err e"
  by (simp_all add: and_then_def)

text \<open>Each element in turn; the first that cannot be read is the answer.\<close>

fun traverse :: "('a \<Rightarrow> ('b, 'e) result) \<Rightarrow> 'a list \<Rightarrow> ('b list, 'e) result" where
  "traverse f [] = Ok []"
| "traverse f (x # xs) = and_then (f x) (\<lambda>y. and_then (traverse f xs) (\<lambda>ys. Ok (y # ys)))"

lemma traverse_all: "(\<And>x. x \<in> set xs \<Longrightarrow> f (g x) = Ok (h x)) \<Longrightarrow> traverse f (map g xs) = Ok (map h xs)"
  by (induction xs) simp_all

fun optional :: "('a \<Rightarrow> ('b, 'e) result) \<Rightarrow> 'a option \<Rightarrow> ('b option, 'e) result" where
  "optional f None = Ok None"
| "optional f (Some x) = and_then (f x) (\<lambda>y. Ok (Some y))"

lemma optional_back: "pred_option (\<lambda>a. f (g a) = Ok a) v \<Longrightarrow> optional f (map_option g v) = Ok v"
  by (cases v) simp_all

definition ok_or :: "'e \<Rightarrow> 'a option \<Rightarrow> ('a, 'e) result" where
  "ok_or e v = (case v of Some a \<Rightarrow> Ok a | None \<Rightarrow> Err e)"

section \<open>Unsigned machine integers\<close>

type_synonym u8 = "8 word"
type_synonym u16 = "16 word"
type_synonym u32 = "32 word"
type_synonym u64 = "64 word"

text \<open>\<open>usize::MAX\<close> on the 64-bit targets the program is built for.\<close>

definition USIZE_MAX :: nat where "USIZE_MAX = 2 ^ 64 - 1"

definition saturating_add :: "'a::len word \<Rightarrow> 'a word \<Rightarrow> 'a word" where
  "saturating_add a b = (if unat a + unat b < 2 ^ LENGTH('a) then a + b else - 1)"

definition saturating_sub :: "'a::len word \<Rightarrow> 'a word \<Rightarrow> 'a word" where
  "saturating_sub a b = (if b \<le> a then a - b else 0)"

lemma unat_bounded: "unat a < 2 ^ LENGTH('a)"
  for a :: "'a::len word"
  by simp

lemma unat_minus_one_max: "unat (- 1 :: 'a::len word) = 2 ^ LENGTH('a) - 1"
  by (simp add: unsigned_minus_1_eq_mask mask_eq_exp_minus_1)

lemma unat_saturating_add:
  "unat (saturating_add a b) = min (unat a + unat b) (2 ^ LENGTH('a) - 1)"
  for a b :: "'a::len word"
proof (cases "unat a + unat b < 2 ^ LENGTH('a)")
  case True
  then have "unat (a + b) = unat a + unat b"
    by (simp add: unat_word_ariths)
  with True show ?thesis by (simp add: saturating_add_def)
next
  case False
  then show ?thesis by (simp add: saturating_add_def unat_minus_one_max)
qed

lemma unat_saturating_sub: "unat (saturating_sub a b) = unat a - unat b"
  for a b :: "'a::len word"
  by (simp add: saturating_sub_def unat_sub word_le_nat_alt)

lemma saturating_add_ge: "a \<le> saturating_add a b"
  for a b :: "'a::len word"
proof -
  have "unat a \<le> 2 ^ LENGTH('a) - 1"
    using unat_bounded [of a] by linarith
  then show ?thesis by (simp add: word_le_nat_alt unat_saturating_add)
qed

lemma saturating_add_one_gt: "a \<noteq> - 1 \<Longrightarrow> a < saturating_add a 1"
  for a :: "'a::len word"
proof -
  assume "a \<noteq> - 1"
  then have "unat a \<noteq> 2 ^ LENGTH('a) - 1"
    by (metis unat_minus_one_max word_unat_eq_iff)
  with unat_bounded [of a] have "unat a + 1 < 2 ^ LENGTH('a)" by linarith
  then have "unat (saturating_add a 1) = unat a + 1"
    by (simp add: unat_saturating_add)
  then show ?thesis by (simp add: word_less_nat_alt)
qed

lemma saturating_sub_le: "saturating_sub a b \<le> a"
  for a b :: "'a::len word"
  by (simp add: word_le_nat_alt unat_saturating_sub)

section \<open>Durations and instants\<close>

text \<open>
  \<open>std::time::Duration\<close> counts nanoseconds, and so does the model. A \<open>tokio\<close> or
  \<open>std\<close> \<open>Instant\<close> is the number of nanoseconds since an arbitrary origin; subtracting a
  later instant from an earlier one saturates at zero, as \<open>duration_since\<close> does.
\<close>

type_synonym duration = nat
type_synonym instant = nat

definition from_secs :: "nat \<Rightarrow> duration" where "from_secs s = s * 1000000000"
definition from_millis_dur :: "nat \<Rightarrow> duration" where "from_millis_dur m = m * 1000000"
definition as_millis_dur :: "duration \<Rightarrow> nat" where "as_millis_dur d = d div 1000000"
definition duration_since :: "instant \<Rightarrow> instant \<Rightarrow> duration" where
  "duration_since later earlier = later - earlier"

lemma as_millis_from_secs [simp]: "as_millis_dur (from_secs s) = s * 1000"
proof -
  have "s * 1000000000 = (s * 1000) * 1000000" by simp
  then show ?thesis
    unfolding as_millis_dur_def from_secs_def by (metis nonzero_mult_div_cancel_right zero_neq_numeral)
qed

lemma as_millis_mono: "d \<le> e \<Longrightarrow> as_millis_dur d \<le> as_millis_dur e"
  by (simp add: as_millis_dur_def div_le_mono)

section \<open>Text\<close>

definition byte :: "char \<Rightarrow> nat" where
  [text_defs]: "byte c = of_char c"

fun is_cont :: "char \<Rightarrow> bool" where
  "is_cont (Char b0 b1 b2 b3 b4 b5 b6 b7) = (b7 \<and> \<not> b6)"

text \<open>The encodings of the scalar values of a string: a lead byte and its continuation bytes.\<close>

function utf8_chars :: "string \<Rightarrow> string list" where
  "utf8_chars [] = []"
| "utf8_chars (b # bs) = (b # takeWhile is_cont bs) # utf8_chars (dropWhile is_cont bs)"
  by pat_completeness auto
termination
  by (relation "measure length") (auto simp: less_Suc_eq_le length_dropWhile_le)

lemma concat_utf8_chars [simp]: "concat (utf8_chars s) = s"
  by (induction s rule: utf8_chars.induct) simp_all

lemma utf8_chars_nonempty: "seg \<in> set (utf8_chars s) \<Longrightarrow> seg \<noteq> []"
  by (induction s rule: utf8_chars.induct) auto

text \<open>\<open>char::is_control\<close>: the general category Cc, U+0000..U+001F and U+007F..U+009F.\<close>

definition is_control :: "string \<Rightarrow> bool" where
  [text_defs]: "is_control seg = (case seg of
       [c] \<Rightarrow> byte c < 32 \<or> byte c = 127
     | [c, d] \<Rightarrow> byte c = 194 \<and> byte d < 160
     | _ \<Rightarrow> False)"

text \<open>\<open>char::is_whitespace\<close>: the scalar values with the property White\_Space, encoded.\<close>

definition whitespace_encodings :: "string list" where
  [text_defs]: "whitespace_encodings =
     [[CHR 0x09], [CHR 0x0A], [CHR 0x0B], [CHR 0x0C], [CHR 0x0D], [CHR 0x20],
      [CHR 0xC2, CHR 0x85], [CHR 0xC2, CHR 0xA0], [CHR 0xE1, CHR 0x9A, CHR 0x80],
      [CHR 0xE2, CHR 0x80, CHR 0x80], [CHR 0xE2, CHR 0x80, CHR 0x81],
      [CHR 0xE2, CHR 0x80, CHR 0x82], [CHR 0xE2, CHR 0x80, CHR 0x83],
      [CHR 0xE2, CHR 0x80, CHR 0x84], [CHR 0xE2, CHR 0x80, CHR 0x85],
      [CHR 0xE2, CHR 0x80, CHR 0x86], [CHR 0xE2, CHR 0x80, CHR 0x87],
      [CHR 0xE2, CHR 0x80, CHR 0x88], [CHR 0xE2, CHR 0x80, CHR 0x89],
      [CHR 0xE2, CHR 0x80, CHR 0x8A], [CHR 0xE2, CHR 0x80, CHR 0xA8],
      [CHR 0xE2, CHR 0x80, CHR 0xA9], [CHR 0xE2, CHR 0x80, CHR 0xAF],
      [CHR 0xE2, CHR 0x81, CHR 0x9F], [CHR 0xE3, CHR 0x80, CHR 0x80]]"

definition is_whitespace :: "string \<Rightarrow> bool" where
  [text_defs]: "is_whitespace seg = List.member whitespace_encodings seg"

definition trim_end_chars :: "string list \<Rightarrow> string list" where
  [text_defs]: "trim_end_chars segs = rev (dropWhile is_whitespace (rev segs))"

definition trim_end :: "string \<Rightarrow> string" where
  [text_defs]: "trim_end s = concat (trim_end_chars (utf8_chars s))"

definition trim :: "string \<Rightarrow> string" where
  [text_defs]: "trim s = concat (trim_end_chars (dropWhile is_whitespace (utf8_chars s)))"

text \<open>\<open>value.trim().is_empty()\<close>\<close>

definition is_blank :: "string \<Rightarrow> bool" where
  [text_defs]: "is_blank s = (trim s = [])"

lemma is_blank_Nil [simp]: "is_blank []"
  by (simp add: is_blank_def trim_def trim_end_chars_def)

text \<open>\<open>value.chars().any(char::is_control)\<close>\<close>

definition has_control :: "string \<Rightarrow> bool" where
  [text_defs]: "has_control s = list_ex is_control (utf8_chars s)"

definition char_count :: "string \<Rightarrow> nat" where
  [text_defs]: "char_count s = length (utf8_chars s)"

definition is_ascii_digit :: "char \<Rightarrow> bool" where
  [text_defs]: "is_ascii_digit c = (48 \<le> byte c \<and> byte c \<le> 57)"

definition is_ascii_lowercase :: "char \<Rightarrow> bool" where
  [text_defs]: "is_ascii_lowercase c = (97 \<le> byte c \<and> byte c \<le> 122)"

definition is_ascii_uppercase :: "char \<Rightarrow> bool" where
  [text_defs]: "is_ascii_uppercase c = (65 \<le> byte c \<and> byte c \<le> 90)"

text \<open>ASCII case differs in bit five only.\<close>

fun set_case_bit :: "bool \<Rightarrow> char \<Rightarrow> char" where
  "set_case_bit b (Char b0 b1 b2 b3 b4 b5 b6 b7) = Char b0 b1 b2 b3 b4 b b6 b7"

definition to_ascii_uppercase :: "char \<Rightarrow> char" where
  [text_defs]: "to_ascii_uppercase c = (if is_ascii_lowercase c then set_case_bit False c else c)"

definition to_ascii_lowercase :: "char \<Rightarrow> char" where
  [text_defs]: "to_ascii_lowercase c = (if is_ascii_uppercase c then set_case_bit True c else c)"

definition eq_ignore_ascii_case :: "string \<Rightarrow> string \<Rightarrow> bool" where
  [text_defs]: "eq_ignore_ascii_case s t = (map to_ascii_lowercase s = map to_ascii_lowercase t)"

lemma eq_ignore_ascii_case_refl [simp]: "eq_ignore_ascii_case s s"
  by (simp add: eq_ignore_ascii_case_def)

lemma eq_ignore_ascii_case_sym: "eq_ignore_ascii_case s t \<Longrightarrow> eq_ignore_ascii_case t s"
  by (simp add: eq_ignore_ascii_case_def)

lemma eq_ignore_ascii_case_trans:
  "eq_ignore_ascii_case s t \<Longrightarrow> eq_ignore_ascii_case t u \<Longrightarrow> eq_ignore_ascii_case s u"
  by (simp add: eq_ignore_ascii_case_def)

fun starts_with :: "string \<Rightarrow> string \<Rightarrow> bool" where
  "starts_with s [] = True"
| "starts_with [] (p # ps) = False"
| "starts_with (c # cs) (p # ps) = (c = p \<and> starts_with cs ps)"

lemma starts_with_append [simp]: "starts_with (p @ s) p"
  by (induction p) simp_all

lemma starts_with_iff: "starts_with s p \<longleftrightarrow> (\<exists>r. s = p @ r)"
  by (induction s p rule: starts_with.induct) auto

definition strip_prefix :: "string \<Rightarrow> string \<Rightarrow> string option" where
  [text_defs]: "strip_prefix p s = (if starts_with s p then Some (drop (length p) s) else None)"

lemma strip_prefix_Some: "strip_prefix p s = Some r \<longleftrightarrow> s = p @ r"
  by (auto simp: strip_prefix_def starts_with_iff)

section \<open>Decimal numbers as text\<close>

definition digit_value :: "char \<Rightarrow> nat" where
  [text_defs]: "digit_value c = byte c - 48"

definition digit_char :: "nat \<Rightarrow> char" where
  [text_defs]: "digit_char n = ''0123456789'' ! (n mod 10)"

definition digits_value :: "string \<Rightarrow> nat" where
  [text_defs]: "digits_value s = foldl (\<lambda>n c. 10 * n + digit_value c) 0 s"

definition digits_only :: "string \<Rightarrow> bool" where
  [text_defs]: "digits_only s = (s \<noteq> [] \<and> list_all is_ascii_digit s)"

text \<open>
  \<open>str::parse\<close> for an unsigned type accepts one leading plus sign; for a signed type a plus
  or a minus sign. What is left must be digits, and the value must fit.
\<close>

definition parse_unsigned :: "nat \<Rightarrow> string \<Rightarrow> nat option" where
  [text_defs]: "parse_unsigned hi s =
     (let ds = (case s of [] \<Rightarrow> [] | c # cs \<Rightarrow> if c = CHR ''+'' then cs else s) in
      if digits_only ds \<and> digits_value ds \<le> hi then Some (digits_value ds) else None)"

definition parse_signed :: "int \<Rightarrow> int \<Rightarrow> string \<Rightarrow> int option" where
  [text_defs]: "parse_signed lo hi s =
     (let neg = (s \<noteq> [] \<and> hd s = CHR ''-'');
          ds = (case s of [] \<Rightarrow> [] | c # cs \<Rightarrow> if c = CHR ''+'' \<or> c = CHR ''-'' then cs else s);
          v = (if neg then - int (digits_value ds) else int (digits_value ds)) in
      if digits_only ds \<and> lo \<le> v \<and> v \<le> hi then Some v else None)"

abbreviation parse_i16 :: "string \<Rightarrow> int option" where
  "parse_i16 \<equiv> parse_signed (- 32768) 32767"

fun show_nat :: "nat \<Rightarrow> string" where
  "show_nat n = (if n < 10 then [digit_char n] else show_nat (n div 10) @ [digit_char n])"

declare show_nat.simps [simp del]

text \<open>\<open>{:02}\<close>: at least two digits, padded with zeros.\<close>

definition show_02 :: "nat \<Rightarrow> string" where
  [text_defs]: "show_02 n = (if n < 10 then [CHR ''0'', digit_char n] else show_nat n)"

text \<open>\<open>{:.1}\<close> of a number of halves: halves are exact in binary floating point.\<close>

definition show_halves :: "int \<Rightarrow> string" where
  [text_defs]: "show_halves h = (if h < 0 then ''-'' else []) @ show_nat (nat \<bar>h\<bar> div 2)
     @ (if even h then ''.0'' else ''.5'')"

lemma digit_cases: "m < 10 \<Longrightarrow> m \<in> {0, 1, 2, 3, 4, 5, 6, 7, 8, 9}"
  for m :: nat
  by simp arith

lemma is_ascii_digit_digit_char [simp]: "is_ascii_digit (digit_char n)"
proof -
  have "n mod 10 \<in> {0, 1, 2, 3, 4, 5, 6, 7, 8, 9}" by (rule digit_cases) simp
  then show ?thesis by (auto simp: digit_char_def is_ascii_digit_def byte_def)
qed

lemma digit_value_digit_char [simp]: "digit_value (digit_char n) = n mod 10"
proof -
  have "n mod 10 \<in> {0, 1, 2, 3, 4, 5, 6, 7, 8, 9}" by (rule digit_cases) simp
  then show ?thesis by (auto simp: digit_char_def digit_value_def byte_def)
qed

lemma digits_value_snoc: "digits_value (s @ [c]) = 10 * digits_value s + digit_value c"
  by (simp add: digits_value_def)

lemma digits_value_show_nat [simp]: "digits_value (show_nat n) = n"
proof (induction n rule: show_nat.induct)
  case (1 n)
  show ?case
  proof (cases "n < 10")
    case True
    then show ?thesis by (subst show_nat.simps) (simp add: digits_value_def)
  next
    case False
    with "1.IH" have "digits_value (show_nat (n div 10)) = n div 10" by simp
    with False show ?thesis by (subst show_nat.simps) (simp add: digits_value_snoc)
  qed
qed

lemma digits_only_show_nat [simp]: "digits_only (show_nat n)"
proof (induction n rule: show_nat.induct)
  case (1 n)
  show ?case
  proof (cases "n < 10")
    case True
    then show ?thesis by (subst show_nat.simps) (simp add: digits_only_def)
  next
    case False
    with "1.IH" have "digits_only (show_nat (n div 10))" by simp
    with False show ?thesis by (subst show_nat.simps) (simp add: digits_only_def)
  qed
qed

lemma digit_char_eq: "digit_char n = char_of (48 + n mod 10)"
proof -
  have "n mod 10 \<in> {0, 1, 2, 3, 4, 5, 6, 7, 8, 9}" by (rule digit_cases) simp
  then show ?thesis by (auto simp: digit_char_def char_of_def bit_Suc bit_0)
qed

lemma digit_char_digit_value: "is_ascii_digit c \<Longrightarrow> digit_char (digit_value c) = c"
proof -
  assume "is_ascii_digit c"
  then have *: "48 \<le> (of_char c :: nat)" "of_char c \<le> (57 :: nat)" by (simp_all add: is_ascii_digit_def byte_def)
  then have "48 + (of_char c - 48) mod 10 = (of_char c :: nat)" by simp
  then show ?thesis by (simp add: digit_char_eq digit_value_def byte_def)
qed

lemma digit_value_less: "is_ascii_digit c \<Longrightarrow> digit_value c < 10"
  by (auto simp: is_ascii_digit_def digit_value_def)

lemma is_ascii_digit_not_sign: "is_ascii_digit c \<Longrightarrow> c \<noteq> CHR ''+'' \<and> c \<noteq> CHR ''-''"
  by (auto simp: is_ascii_digit_def byte_def)

lemma show_02_two: "w < 100 \<Longrightarrow> show_02 w = [digit_char (w div 10), digit_char w]"
proof (cases "w < 10")
  case True
  then show ?thesis by (simp add: show_02_def digit_char_def)
next
  case False
  assume "w < 100"
  then have "w div 10 < 10" by (simp add: less_mult_imp_div_less)
  with False show ?thesis by (simp add: show_02_def show_nat.simps [of w] show_nat.simps [of "w div 10"])
qed

lemma parse_i16_two:
  "is_ascii_digit a \<Longrightarrow> is_ascii_digit b \<Longrightarrow>
   parse_i16 [a, b] = Some (int (10 * digit_value a + digit_value b))"
  using is_ascii_digit_not_sign [of a] digit_value_less [of a] digit_value_less [of b]
  by (simp add: parse_signed_def digits_only_def digits_value_def Let_def)

section \<open>Lists, options and maps\<close>

lemma find_filter_Nil: "List.find P xs = None \<longleftrightarrow> filter P xs = []"
  by (induction xs) auto

lemma find_SomeD: "List.find P xs = Some x \<Longrightarrow> x \<in> set xs \<and> P x"
  by (induction xs) (auto split: if_splits)

lemma find_NoneD: "List.find P xs = None \<Longrightarrow> x \<in> set xs \<Longrightarrow> \<not> P x"
  by (induction xs) (auto split: if_splits)

lemma map_option_eq_Some: "map_option f x = Some y \<longleftrightarrow> (\<exists>z. x = Some z \<and> f z = y)"
  by (cases x) auto

lemma find_Some_sorted:
  "sorted xs \<Longrightarrow> distinct xs \<Longrightarrow>
   List.find P xs = Some x \<longleftrightarrow> x \<in> set xs \<and> P x \<and> (\<forall>y \<in> set xs. y < x \<longrightarrow> \<not> P y)"
  by (induction xs) (auto simp: less_le)

text \<open>The newest \<open>n\<close> elements of a bounded log.\<close>

definition newest :: "nat \<Rightarrow> 'a list \<Rightarrow> 'a list" where
  "newest n xs = drop (length xs - n) xs"

lemma newest_rev: "newest n xs = rev (take n (rev xs))"
  by (simp add: newest_def rev_take)

lemma newest_append_newest: "newest n (newest n xs @ ys) = newest n (xs @ ys)"
  by (simp add: newest_rev take_append min_def)

lemma length_newest: "length (newest n xs) = min n (length xs)"
  by (simp add: newest_def)

lemma newest_id: "length xs \<le> n \<Longrightarrow> newest n xs = xs"
  by (simp add: newest_def)

section \<open>Visible text\<close>

text \<open>Text of visible ASCII characters is its own trimming, one scalar value for each byte.\<close>

definition visible :: "char \<Rightarrow> bool" where "visible c = (33 \<le> byte c \<and> byte c \<le> 126)"

lemma visible_not_cont: "visible c \<Longrightarrow> \<not> is_cont c"
  by (cases c) (auto simp: visible_def byte_def of_char_Char)

lemma utf8_chars_visible: "list_all visible s \<Longrightarrow> utf8_chars s = map (\<lambda>c. [c]) s"
proof (induction s)
  case (Cons c s)
  then have "takeWhile is_cont s = []" "dropWhile is_cont s = s"
    by (cases s; simp add: visible_not_cont)+
  with Cons show ?case by simp
qed simp

lemma visible_not_space: "visible c \<Longrightarrow> \<not> is_whitespace [c]"
  by (auto simp: visible_def is_whitespace_def whitespace_encodings_def byte_def)

lemma digit_visible: "is_ascii_digit c \<Longrightarrow> visible c"
  by (simp add: is_ascii_digit_def visible_def)

lemma trim_visible: "list_all visible t \<Longrightarrow> trim t = t"
proof -
  assume t: "list_all visible t"
  have keep: "dropWhile is_whitespace (map (\<lambda>c. [c]) u) = map (\<lambda>c. [c]) u" if "list_all visible u" for u
    using that by (cases u) (simp_all add: visible_not_space)
  have "trim_end_chars (map (\<lambda>c. [c]) t) = map (\<lambda>c. [c]) t"
    using keep [of "rev t"] t by (simp add: trim_end_chars_def rev_map list_all_iff)
  then show ?thesis using keep [OF t] t by (simp add: trim_def utf8_chars_visible)
qed

lemma parse_unsigned_digits:
  "t \<noteq> [] \<Longrightarrow> list_all is_ascii_digit t \<Longrightarrow> digits_value t \<le> hi \<Longrightarrow> parse_unsigned hi t = Some (digits_value t)"
  by (cases t) (auto simp: parse_unsigned_def digits_only_def Let_def dest: is_ascii_digit_not_sign)

end
