(* ===== verification/Domain_Values.thy ===== *)
theory Domain_Values
  imports Prelude
begin

text \<open>
  The value types of \<open>crates/domain\<close>: power and mute states, inputs and surround modes,
  the two volume scales (\<open>main_zone.rs\<close>), source ids and the source catalogue
  (\<open>source_catalog.rs\<close>), receiver ids and the exact master volume (\<open>receiver_state.rs\<close>),
  and wall-clock time (\<open>wall_time.rs\<close>). Constructors that several Rust enums share
  (\<open>On\<close>, \<open>Off\<close>) carry the name of their enum.
\<close>

section \<open>Main zone values\<close>

datatype power_state = PowerOn | PowerStandby
datatype mute_state = MuteOn | MuteOff

fun power_state_fmt :: "power_state \<Rightarrow> string" where
  "power_state_fmt PowerOn = ''on''"
| "power_state_fmt PowerStandby = ''standby''"

fun mute_state_fmt :: "mute_state \<Rightarrow> string" where
  "mute_state_fmt MuteOn = ''on''"
| "mute_state_fmt MuteOff = ''off''"

datatype input = Input (input_str: string)
datatype surround_mode = SurroundMode (surround_mode_str: string)

definition input_new :: "string \<Rightarrow> (input, string) result" where
  "input_new v = (if is_blank v then Err ''input must not be empty'' else Ok (Input v))"

definition surround_mode_new :: "string \<Rightarrow> (surround_mode, string) result" where
  "surround_mode_new v =
     (if is_blank v then Err ''surround mode must not be empty'' else Ok (SurroundMode v))"

datatype sound_mode_category = Movie | Music | Game | Pure

fun category_key :: "sound_mode_category \<Rightarrow> string" where
  "category_key Movie = ''movie''"
| "category_key Music = ''music''"
| "category_key Game = ''game''"
| "category_key Pure = ''pure''"

definition category_from_key :: "string \<Rightarrow> sound_mode_category option" where
  "category_from_key v =
     (if v = ''movie'' then Some Movie
      else if v = ''music'' then Some Music
      else if v = ''game'' then Some Game
      else if v = ''pure'' then Some Pure
      else None)"

lemma category_key_roundtrip: "category_from_key v = Some c \<longleftrightarrow> v = category_key c"
  by (cases c) (auto simp: category_from_key_def)

section \<open>Volume as a user interface level and as a receiver code\<close>

text \<open>
  \<open>Volume\<close> keeps the receiver's own code; \<open>VolumeLevel\<close> is a level in tenths that keeps
  the native code it came from. The \<open>u16\<close> values are natural numbers; the casts of the code
  are the explicit \<open>mod 65536\<close>.
\<close>

record volume =
  vol_code :: string
  vol_db_tenths :: int

record volume_level =
  vl_tenths :: nat
  vl_native_code :: "nat option"

definition volume_level_eq :: "volume_level \<Rightarrow> volume_level \<Rightarrow> bool" where
  "volume_level_eq a b = (vl_tenths a = vl_tenths b)"

definition volume_level_new :: "nat \<Rightarrow> (volume_level, string) result" where
  "volume_level_new tenths =
     (if tenths > 1000 \<or> tenths mod 5 \<noteq> 0
      then Err ''volume level must be between 0.0 and 100.0 in 0.5 steps''
      else Ok \<lparr>vl_tenths = tenths, vl_native_code = None\<rparr>)"

definition volume_level_from_native_code :: "nat \<Rightarrow> (volume_level, string) result" where
  "volume_level_from_native_code code =
     (if code > 985 \<or> code mod 5 \<noteq> 0
      then Err ''native volume code is outside the supported range''
      else let level = ((code * 1000 + 492) div 985) mod 65536
           in Ok \<lparr>vl_tenths = (level div 5) * 5, vl_native_code = Some code\<rparr>)"

definition volume_level_to_native_code :: "volume_level \<Rightarrow> nat" where
  "volume_level_to_native_code v =
     (case vl_native_code v of
        Some code \<Rightarrow> code
      | None \<Rightarrow> (let raw = (vl_tenths v * 985 + 500) div 1000
                 in (((raw + 2) div 5) * 5) mod 65536))"

definition volume_native_code :: "volume \<Rightarrow> nat" where
  "volume_native_code v =
     (let code = trim (vol_code v);
          parsed = (case parse_unsigned 65535 code of Some n \<Rightarrow> n | None \<Rightarrow> 0)
      in if length code = 2 then min (parsed * 10) 65535 else parsed)"

definition volume_level_of :: "volume \<Rightarrow> (volume_level, string) result" where
  "volume_level_of v = volume_level_from_native_code (volume_native_code v)"

text \<open>Every level a constructor returns is on the half-level grid of the scale.\<close>

definition volume_level_wf :: "volume_level \<Rightarrow> bool" where
  "volume_level_wf v =
     (vl_tenths v \<le> 1000 \<and> vl_tenths v mod 5 = 0 \<and>
      (case vl_native_code v of None \<Rightarrow> True | Some c \<Rightarrow> c \<le> 985 \<and> c mod 5 = 0))"

lemma volume_level_new_wf: "volume_level_new t = Ok v \<Longrightarrow> volume_level_wf v"
  by (auto simp: volume_level_new_def volume_level_wf_def split: if_splits)

lemma native_level_bound: "c \<le> 985 \<Longrightarrow> (c * 1000 + 492) div 985 \<le> (1000 :: nat)"
proof -
  assume "c \<le> 985"
  then have "(c * 1000 + 492) div 985 \<le> (985 * 1000 + 492) div (985 :: nat)"
    by (intro div_le_mono) simp
  then show ?thesis by simp
qed

lemma volume_level_from_native_code_wf:
  "volume_level_from_native_code c = Ok v \<Longrightarrow> volume_level_wf v"
proof -
  assume *: "volume_level_from_native_code c = Ok v"
  define l where "l = ((c * 1000 + 492) div 985) mod 65536"
  from * have c: "c \<le> 985" "c mod 5 = 0"
    and v: "v = \<lparr>vl_tenths = (l div 5) * 5, vl_native_code = Some c\<rparr>"
    by (auto simp: volume_level_from_native_code_def l_def Let_def split: if_splits)
  have "l \<le> 1000"
    using native_level_bound [OF c(1)] mod_less_eq_dividend le_trans unfolding l_def by blast
  moreover have "(l div 5) * 5 \<le> l" by simp
  ultimately have "(l div 5) * 5 \<le> 1000" by linarith
  with c v show ?thesis by (simp add: volume_level_wf_def)
qed

lemma volume_level_to_native_code_range:
  assumes "volume_level_wf v"
  shows "volume_level_to_native_code v \<le> 985 \<and> volume_level_to_native_code v mod 5 = 0"
proof (cases "vl_native_code v")
  case (Some c)
  with assms show ?thesis by (simp add: volume_level_wf_def volume_level_to_native_code_def)
next
  case None
  from assms have "vl_tenths v \<le> 1000" by (simp add: volume_level_wf_def)
  then have "(vl_tenths v * 985 + 500) div 1000 \<le> (1000 * 985 + 500) div 1000"
    by (intro div_le_mono) simp
  then have "(vl_tenths v * 985 + 500) div 1000 \<le> 985" by simp
  then have "((vl_tenths v * 985 + 500) div 1000 + 2) div 5 \<le> (985 + 2) div 5"
    by (intro div_le_mono) simp
  then have bound: "((vl_tenths v * 985 + 500) div 1000 + 2) div 5 \<le> 197" by simp
  then have "(((vl_tenths v * 985 + 500) div 1000 + 2) div 5) * 5 < 65536" by simp
  with None bound show ?thesis by (simp add: volume_level_to_native_code_def Let_def)
qed

section \<open>Sources\<close>

datatype source_id = SourceId (source_id_str: string)

definition source_id_new :: "string \<Rightarrow> (source_id, string) result" where
  "source_id_new v =
     (if is_blank v \<or> has_control v
      then Err ''source ID must be non-empty and contain no control characters''
      else Ok (SourceId v))"

datatype source_visibility = Shown | Hidden | VisibilityUnknown

record source_entry =
  se_id :: source_id
  se_display_name :: "string option"
  se_visibility :: source_visibility

definition display_name_or :: "source_entry \<Rightarrow> string \<Rightarrow> string" where
  "display_name_or e fallback =
     (case se_display_name e of
        Some label \<Rightarrow> if \<not> is_blank label then label else fallback
      | None \<Rightarrow> fallback)"

datatype freshness = FreshUnknown | Live | Partial | Invalidated

text \<open>\<open>SystemTime\<close> stamps are carried and never compared; they are numbers here.\<close>

record source_catalog =
  sc_entries :: "source_entry list"
  sc_freshness :: freshness
  sc_generation :: u64
  sc_observed_at :: "nat option"
  sc_error :: "string option"

definition source_catalog_default :: source_catalog where
  "source_catalog_default =
     \<lparr>sc_entries = [], sc_freshness = FreshUnknown, sc_generation = 0,
      sc_observed_at = None, sc_error = None\<rparr>"

definition source_catalog_invalidate :: "u64 \<Rightarrow> source_catalog \<Rightarrow> source_catalog" where
  "source_catalog_invalidate generation c =
     source_catalog_default\<lparr>sc_freshness := Invalidated, sc_generation := generation\<rparr>"

definition source_catalog_entry :: "source_catalog \<Rightarrow> string \<Rightarrow> source_entry option" where
  "source_catalog_entry c i =
     List.find (\<lambda>e. eq_ignore_ascii_case (source_id_str (se_id e)) i) (sc_entries c)"

definition selectable_entries :: "source_catalog \<Rightarrow> string list \<Rightarrow> source_entry list" where
  "selectable_entries c validated_inputs =
     filter (\<lambda>e. se_visibility e = Shown \<and>
                 list_ex (\<lambda>i. eq_ignore_ascii_case i (source_id_str (se_id e))) validated_inputs)
       (sc_entries c)"

section \<open>Receiver ids\<close>

datatype receiver_id = ReceiverId (receiver_id_str: string)

definition AD_HOC_PREFIX :: string where "AD_HOC_PREFIX = ''adhoc:''"

definition receiver_id_validate :: "string \<Rightarrow> (unit, string) result" where
  "receiver_id_validate v =
     (if is_blank v \<or> has_control v
      then Err ''receiver ID must be non-empty and contain no control characters''
      else Ok ())"

definition is_reserved_name :: "string \<Rightarrow> bool" where
  "is_reserved_name name = starts_with name AD_HOC_PREFIX"

definition receiver_id_new :: "string \<Rightarrow> (receiver_id, string) result" where
  "receiver_id_new v =
     (case receiver_id_validate v of
        Err e \<Rightarrow> Err e
      | Ok _ \<Rightarrow> if is_reserved_name v
          then Err ''receiver ID must not use the reserved ad hoc prefix''
          else Ok (ReceiverId v))"

definition receiver_id_ad_hoc :: "string \<Rightarrow> (receiver_id, string) result" where
  "receiver_id_ad_hoc host =
     (case receiver_id_validate host of
        Err e \<Rightarrow> Err e
      | Ok _ \<Rightarrow> Ok (ReceiverId (AD_HOC_PREFIX @ host)))"

definition is_ad_hoc :: "receiver_id \<Rightarrow> bool" where
  "is_ad_hoc r = is_reserved_name (receiver_id_str r)"

lemma receiver_id_new_not_ad_hoc: "receiver_id_new v = Ok r \<Longrightarrow> \<not> is_ad_hoc r"
  by (auto simp: receiver_id_new_def is_ad_hoc_def split: sum.splits if_splits)

lemma receiver_id_ad_hoc_is_ad_hoc: "receiver_id_ad_hoc h = Ok r \<Longrightarrow> is_ad_hoc r"
  by (auto simp: receiver_id_ad_hoc_def is_ad_hoc_def is_reserved_name_def split: sum.splits)

lemma receiver_id_new_str: "receiver_id_new v = Ok r \<Longrightarrow> receiver_id_str r = v"
  by (auto simp: receiver_id_new_def split: sum.splits if_splits)

lemma receiver_id_ad_hoc_str: "receiver_id_ad_hoc h = Ok r \<Longrightarrow> receiver_id_str r = AD_HOC_PREFIX @ h"
  by (auto simp: receiver_id_ad_hoc_def split: sum.splits)

section \<open>Power, exact master volume and sound modes\<close>

datatype system_power = SystemOn | SystemStandby
datatype zone_power = ZoneOn | ZoneOff

datatype master_volume = Minimum | DbHalfSteps int

definition LOWEST_HALF_STEP :: int where "LOWEST_HALF_STEP = - 159"
definition HIGHEST_HALF_STEP :: int where "HIGHEST_HALF_STEP = 36"

definition db_half_steps :: "int \<Rightarrow> (master_volume, string) result" where
  "db_half_steps v =
     (if \<not> (LOWEST_HALF_STEP \<le> v \<and> v \<le> HIGHEST_HALF_STEP)
      then Err ''X3800H volume must be Minimum or -79.5 through +18.0 dB''
      else Ok (DbHalfSteps v))"

fun master_volume_fmt :: "master_volume \<Rightarrow> string" where
  "master_volume_fmt Minimum = ''Min''"
| "master_volume_fmt (DbHalfSteps s) = show_halves s @ '' dB''"

fun master_volume_in_range :: "master_volume \<Rightarrow> bool" where
  "master_volume_in_range Minimum = True"
| "master_volume_in_range (DbHalfSteps v) = (LOWEST_HALF_STEP \<le> v \<and> v \<le> HIGHEST_HALF_STEP)"

lemma db_half_steps_Ok: "db_half_steps v = Ok m \<longleftrightarrow> m = DbHalfSteps v \<and> master_volume_in_range m"
  by (auto simp: db_half_steps_def)

record sound_mode_status =
  sms_id :: string
  sms_raw :: string

datatype sound_mode_intent =
    Auto | Direct | PureDirect | Stereo | RecallMovie | RecallMusic | RecallGame
  | Select string

section \<open>Wall-clock time\<close>

datatype wall_time = WallTime (wt_millis: u64)

instantiation wall_time :: linorder
begin

definition less_eq_wall_time :: "wall_time \<Rightarrow> wall_time \<Rightarrow> bool" where
  "less_eq_wall_time a b \<longleftrightarrow> wt_millis a \<le> wt_millis b"

definition less_wall_time :: "wall_time \<Rightarrow> wall_time \<Rightarrow> bool" where
  "less_wall_time a b \<longleftrightarrow> wt_millis a < wt_millis b"

instance
  by standard (auto simp: less_eq_wall_time_def less_wall_time_def wall_time.expand)

end

text \<open>\<open>u64::try_from(duration.as_millis()).unwrap_or(u64::MAX)\<close>\<close>

definition wt_duration_millis :: "duration \<Rightarrow> u64" where
  "wt_duration_millis d = (if as_millis_dur d < 2 ^ 64 then of_nat (as_millis_dur d) else - 1)"

definition wt_saturating_sub :: "wall_time \<Rightarrow> duration \<Rightarrow> wall_time" where
  "wt_saturating_sub t d = WallTime (saturating_sub (wt_millis t) (wt_duration_millis d))"

definition wt_saturating_add :: "wall_time \<Rightarrow> duration \<Rightarrow> wall_time" where
  "wt_saturating_add t d = WallTime (saturating_add (wt_millis t) (wt_duration_millis d))"

definition wt_since :: "wall_time \<Rightarrow> wall_time \<Rightarrow> duration" where
  "wt_since t earlier = from_millis_dur (unat (saturating_sub (wt_millis t) (wt_millis earlier)))"

lemma unat_wt_duration_millis: "unat (wt_duration_millis d) = min (as_millis_dur d) (2 ^ 64 - 1)"
proof (cases "as_millis_dur d < 2 ^ 64")
  case True
  then have "unat (of_nat (as_millis_dur d) :: u64) = as_millis_dur d"
    by (simp add: unat_of_nat)
  with True show ?thesis by (simp add: wt_duration_millis_def)
next
  case False
  then show ?thesis by (simp add: wt_duration_millis_def unat_minus_one_max)
qed

lemma wall_time_le_unat: "a \<le> b \<longleftrightarrow> unat (wt_millis a) \<le> unat (wt_millis b)"
  by (simp add: less_eq_wall_time_def word_le_nat_alt)

lemma wall_time_less_unat: "a < b \<longleftrightarrow> unat (wt_millis a) < unat (wt_millis b)"
  by (simp add: less_wall_time_def word_less_nat_alt)

lemmas wall_time_unat = wall_time_le_unat wall_time_less_unat

lemma unat_wt_saturating_sub:
  "unat (wt_millis (wt_saturating_sub t d)) = unat (wt_millis t) - min (as_millis_dur d) (2 ^ 64 - 1)"
  by (simp add: wt_saturating_sub_def unat_saturating_sub unat_wt_duration_millis)

lemma wt_saturating_sub_antimono: "d \<le> e \<Longrightarrow> wt_saturating_sub t e \<le> wt_saturating_sub t d"
proof -
  assume "d \<le> e"
  then have "min (as_millis_dur d) (2 ^ 64 - 1) \<le> min (as_millis_dur e) (2 ^ 64 - 1)"
    using as_millis_mono [of d e] by simp
  then show ?thesis
    by (simp only: wall_time_le_unat unat_wt_saturating_sub diff_le_mono2)
qed

lemma wt_saturating_sub_mono: "s \<le> t \<Longrightarrow> wt_saturating_sub s d \<le> wt_saturating_sub t d"
  by (simp only: wall_time_le_unat unat_wt_saturating_sub diff_le_mono)

lemma wt_saturating_sub_le: "wt_saturating_sub t d \<le> t"
  by (simp add: wall_time_le_unat unat_wt_saturating_sub)

end
