(* ===== verification/Receiver_State.thy ===== *)
theory Receiver_State
  imports Domain_Values
begin

text \<open>
  The canonical, receiver-evidenced core state of \<open>crates/domain/src/receiver_state.rs\<close>:
  observations with the connection (epoch) they came from, the validity of each field, and
  the pure reducer with the marks the session makes on it. A method that takes
  \<open>&mut self\<close> returns the new state; one that also returns a flag returns the pair.

  The evidence invariant \<open>rs_inv\<close> says that a field reads as current only on an
  observation of this receiver made on the connection in force.
\<close>

section \<open>Ids and observations\<close>

type_synonym epoch = u64
type_synonym frame_seq = u64
type_synonym state_revision = u64
type_synonym operation_id = u64
type_synonym sync_cycle_id = u64
type_synonym monotonic_millis = u64

datatype observation_origin = ReceiverFrame | ReceiverFrameInQueryWindow u64

record 'a observation =
  ob_receiver :: receiver_id
  ob_epoch :: epoch
  ob_frame_seq :: frame_seq
  ob_observed_at :: monotonic_millis
  ob_origin :: observation_origin
  ob_value :: 'a

datatype stale_reason = Disconnected | QueryFailed | Expired | ReceiverChanged
datatype receiver_evidence = UnavailableStatus string

datatype field_validity =
    ValidityUnknown
  | Current monotonic_millis
  | Stale stale_reason
  | Unavailable receiver_evidence

datatype sync_cause = Initial | LocalControl | ReceiverEvent | PeriodicSweep | ManualRefresh

datatype field_synchronization =
    NotStarted
  | Converging sync_cycle_id sync_cause monotonic_millis
  | Settled sync_cycle_id monotonic_millis
  | Suspended string

record 'a field_state =
  fs_last_good :: "'a observation option"
  fs_validity :: field_validity
  fs_synchronization :: field_synchronization
  fs_last_issue :: "string option"

definition field_state_default :: "'a field_state" where
  "field_state_default =
     \<lparr>fs_last_good = None, fs_validity = ValidityUnknown, fs_synchronization = NotStarted,
      fs_last_issue = None\<rparr>"

definition fs_observe :: "'a observation \<Rightarrow> monotonic_millis \<Rightarrow> 'a field_state \<Rightarrow> 'a field_state" where
  "fs_observe ob valid_until f =
     f\<lparr>fs_last_good := Some ob, fs_validity := Current valid_until, fs_last_issue := None\<rparr>"

definition fs_stale :: "stale_reason \<Rightarrow> string \<Rightarrow> 'a field_state \<Rightarrow> 'a field_state" where
  "fs_stale reason message f = f\<lparr>fs_validity := Stale reason, fs_last_issue := Some message\<rparr>"

definition fs_expire_if_due :: "monotonic_millis \<Rightarrow> 'a field_state \<Rightarrow> bool \<times> 'a field_state" where
  "fs_expire_if_due now f =
     (let due = (case fs_validity f of Current valid_until \<Rightarrow> now \<ge> valid_until | _ \<Rightarrow> False)
      in (due, if due then fs_stale Expired ''receiver observation validity expired'' f else f))"

definition stale_if_observed :: "'a field_state \<Rightarrow> 'a field_state" where
  "stale_if_observed f =
     (if fs_last_good f \<noteq> None then fs_stale Disconnected ''receiver session disconnected'' f else f)"

definition mark_failed :: "string \<Rightarrow> 'a field_state \<Rightarrow> 'a field_state" where
  "mark_failed message f =
     (if fs_last_good f \<noteq> None then fs_stale QueryFailed message f
      else f\<lparr>fs_last_issue := Some message\<rparr>)"

definition set_synchronization :: "field_synchronization \<Rightarrow> 'a field_state \<Rightarrow> 'a field_state" where
  "set_synchronization v f = f\<lparr>fs_synchronization := v\<rparr>"

lemmas field_state_defs =
  field_state_default_def fs_observe_def fs_stale_def fs_expire_if_due_def stale_if_observed_def
  mark_failed_def set_synchronization_def

section \<open>Fields, intents and frames\<close>

datatype core_field =
  FSystemPower | FMainZonePower | FZone2Power | FSource | FVolume | FMute | FSoundMode

text \<open>The order the derived \<open>Ord\<close> gives the fields: the order of declaration.\<close>

definition core_fields :: "core_field list" where
  "core_fields =
     [FSystemPower, FMainZonePower, FZone2Power, FSource, FVolume, FMute, FSoundMode]"

fun core_field_index :: "core_field \<Rightarrow> nat" where
  "core_field_index FSystemPower = 0"
| "core_field_index FMainZonePower = 1"
| "core_field_index FZone2Power = 2"
| "core_field_index FSource = 3"
| "core_field_index FVolume = 4"
| "core_field_index FMute = 5"
| "core_field_index FSoundMode = 6"

lemma core_field_index_inj: "core_field_index a = core_field_index b \<Longrightarrow> a = b"
  by (cases a; cases b) simp_all

instantiation core_field :: linorder
begin

definition less_eq_core_field :: "core_field \<Rightarrow> core_field \<Rightarrow> bool" where
  "less_eq_core_field a b \<longleftrightarrow> core_field_index a \<le> core_field_index b"

definition less_core_field :: "core_field \<Rightarrow> core_field \<Rightarrow> bool" where
  "less_core_field a b \<longleftrightarrow> core_field_index a < core_field_index b"

instance
  by standard (auto simp: less_eq_core_field_def less_core_field_def core_field_index_inj)

end

lemma set_core_fields [simp]: "set core_fields = UNIV"
  by (auto simp: core_fields_def intro: core_field.exhaust)

lemma core_fields_sorted: "sorted core_fields \<and> distinct core_fields"
  by (simp add: core_fields_def less_eq_core_field_def)

datatype receiver_intent =
    ISystemPower system_power
  | IMainZonePower zone_power
  | IZone2Power zone_power
  | ISource source_id
  | IVolume master_volume
  | IMute mute_state
  | ISoundMode sound_mode_intent

fun intent_field :: "receiver_intent \<Rightarrow> core_field" where
  "intent_field (ISystemPower _) = FSystemPower"
| "intent_field (IMainZonePower _) = FMainZonePower"
| "intent_field (IZone2Power _) = FZone2Power"
| "intent_field (ISource _) = FSource"
| "intent_field (IVolume _) = FVolume"
| "intent_field (IMute _) = FMute"
| "intent_field (ISoundMode _) = FSoundMode"

datatype core_frame =
    CSystemPower system_power
  | CMainZonePower zone_power
  | CZone2Power zone_power
  | CSource source_id
  | CVolume master_volume
  | CMute mute_state
  | CSoundMode sound_mode_status
  | CVolumeUnavailable string

fun frame_field :: "core_frame \<Rightarrow> core_field" where
  "frame_field (CSystemPower _) = FSystemPower"
| "frame_field (CMainZonePower _) = FMainZonePower"
| "frame_field (CZone2Power _) = FZone2Power"
| "frame_field (CSource _) = FSource"
| "frame_field (CVolume _) = FVolume"
| "frame_field (CVolumeUnavailable _) = FVolume"
| "frame_field (CMute _) = FMute"
| "frame_field (CSoundMode _) = FSoundMode"

section \<open>Outcomes of an operation\<close>

datatype dispatch_certainty = NotDispatched | PossiblyDispatched | CompleteWrite | UnknownDispatch

fun dispatch_certainty_str :: "dispatch_certainty \<Rightarrow> string" where
  "dispatch_certainty_str NotDispatched = ''not_dispatched''"
| "dispatch_certainty_str PossiblyDispatched = ''possibly_dispatched''"
| "dispatch_certainty_str CompleteWrite = ''complete_write''"
| "dispatch_certainty_str UnknownDispatch = ''unknown''"

datatype precondition_mismatch = MismatchEpoch | MismatchField core_field

datatype rejection_cause =
    UnsupportedIntent
  | ObservationFailed
  | PreconditionMismatch precondition_mismatch
  | CommandRefused
  | SessionStoppedCause

datatype operation_outcome =
    AlreadyObserved operation_id string
  | ObservedRequestedValue operation_id dispatch_certainty string
  | RejectedBeforeDispatch operation_id rejection_cause string
  | OutcomeCancelled operation_id
  | SupersededBeforeDispatch operation_id operation_id
  | Indeterminate operation_id dispatch_certainty string

fun outcome_operation :: "operation_outcome \<Rightarrow> operation_id" where
  "outcome_operation (AlreadyObserved op _) = op"
| "outcome_operation (ObservedRequestedValue op _ _) = op"
| "outcome_operation (RejectedBeforeDispatch op _ _) = op"
| "outcome_operation (OutcomeCancelled op) = op"
| "outcome_operation (SupersededBeforeDispatch op _) = op"
| "outcome_operation (Indeterminate op _ _) = op"

section \<open>The receiver state and its reducer\<close>

record main_zone_state =
  mz_power :: "zone_power field_state"
  mz_source :: "source_id field_state"
  mz_volume :: "master_volume field_state"
  mz_mute :: "mute_state field_state"
  mz_sound_mode :: "sound_mode_status field_state"

record receiver_state =
  rs_receiver :: receiver_id
  rs_revision :: state_revision
  rs_epoch :: "epoch option"
  rs_system_power :: "system_power field_state"
  rs_main_zone :: main_zone_state
  rs_zone2_power :: "zone_power field_state"
  rs_diagnostics :: "string list"

definition main_zone_default :: main_zone_state where
  "main_zone_default =
     \<lparr>mz_power = field_state_default, mz_source = field_state_default,
      mz_volume = field_state_default, mz_mute = field_state_default,
      mz_sound_mode = field_state_default\<rparr>"

definition receiver_state_new :: "receiver_id \<Rightarrow> receiver_state" where
  "receiver_state_new r =
     \<lparr>rs_receiver = r, rs_revision = 0, rs_epoch = None, rs_system_power = field_state_default,
      rs_main_zone = main_zone_default, rs_zone2_power = field_state_default,
      rs_diagnostics = []\<rparr>"

definition bump_revision :: "receiver_state \<Rightarrow> receiver_state" where
  "bump_revision s = s\<lparr>rs_revision := saturating_add (rs_revision s) 1\<rparr>"

definition MAX_DIAGNOSTICS :: nat where "MAX_DIAGNOSTICS = 32"

definition record_diagnostic :: "string \<Rightarrow> receiver_state \<Rightarrow> receiver_state" where
  "record_diagnostic frame s =
     (let pushed = rs_diagnostics s @ [frame];
          kept = (if length pushed > MAX_DIAGNOSTICS
                  then drop (length pushed - MAX_DIAGNOSTICS) pushed else pushed)
      in bump_revision (s\<lparr>rs_diagnostics := kept\<rparr>))"

definition mark_disconnected :: "receiver_state \<Rightarrow> receiver_state" where
  "mark_disconnected s =
     bump_revision (s\<lparr>
       rs_system_power := stale_if_observed (rs_system_power s),
       rs_main_zone := \<lparr>
         mz_power = stale_if_observed (mz_power (rs_main_zone s)),
         mz_source = stale_if_observed (mz_source (rs_main_zone s)),
         mz_volume = stale_if_observed (mz_volume (rs_main_zone s)),
         mz_mute = stale_if_observed (mz_mute (rs_main_zone s)),
         mz_sound_mode = stale_if_observed (mz_sound_mode (rs_main_zone s))\<rparr>,
       rs_zone2_power := stale_if_observed (rs_zone2_power s),
       rs_epoch := None\<rparr>)"

definition expire_fields :: "monotonic_millis \<Rightarrow> receiver_state \<Rightarrow> bool \<times> receiver_state" where
  "expire_fields now s =
     (let m = rs_main_zone s;
          (e1, sp) = fs_expire_if_due now (rs_system_power s);
          (e2, mp) = fs_expire_if_due now (mz_power m);
          (e3, so) = fs_expire_if_due now (mz_source m);
          (e4, vo) = fs_expire_if_due now (mz_volume m);
          (e5, mu) = fs_expire_if_due now (mz_mute m);
          (e6, sm) = fs_expire_if_due now (mz_sound_mode m);
          (e7, z2) = fs_expire_if_due now (rs_zone2_power s);
          expired = (e1 \<or> e2 \<or> e3 \<or> e4 \<or> e5 \<or> e6 \<or> e7);
          s' = s\<lparr>rs_system_power := sp,
                 rs_main_zone := \<lparr>mz_power = mp, mz_source = so, mz_volume = vo, mz_mute = mu,
                                  mz_sound_mode = sm\<rparr>,
                 rs_zone2_power := z2\<rparr>
      in (expired, if expired then bump_revision s' else s'))"

definition establish_epoch :: "epoch \<Rightarrow> receiver_state \<Rightarrow> bool \<times> receiver_state" where
  "establish_epoch e s =
     (if (case rs_epoch s of Some current \<Rightarrow> e \<le> current | None \<Rightarrow> False) then (False, s)
      else (True, bump_revision (s\<lparr>rs_epoch := Some e\<rparr>)))"

text \<open>\<open>field_mut(field).set_synchronization(value)\<close>\<close>

fun sync_field :: "core_field \<Rightarrow> field_synchronization \<Rightarrow> receiver_state \<Rightarrow> receiver_state" where
  "sync_field FSystemPower v s = s\<lparr>rs_system_power := set_synchronization v (rs_system_power s)\<rparr>"
| "sync_field FMainZonePower v s =
     s\<lparr>rs_main_zone := (rs_main_zone s)\<lparr>mz_power := set_synchronization v (mz_power (rs_main_zone s))\<rparr>\<rparr>"
| "sync_field FZone2Power v s = s\<lparr>rs_zone2_power := set_synchronization v (rs_zone2_power s)\<rparr>"
| "sync_field FSource v s =
     s\<lparr>rs_main_zone := (rs_main_zone s)\<lparr>mz_source := set_synchronization v (mz_source (rs_main_zone s))\<rparr>\<rparr>"
| "sync_field FVolume v s =
     s\<lparr>rs_main_zone := (rs_main_zone s)\<lparr>mz_volume := set_synchronization v (mz_volume (rs_main_zone s))\<rparr>\<rparr>"
| "sync_field FMute v s =
     s\<lparr>rs_main_zone := (rs_main_zone s)\<lparr>mz_mute := set_synchronization v (mz_mute (rs_main_zone s))\<rparr>\<rparr>"
| "sync_field FSoundMode v s =
     s\<lparr>rs_main_zone := (rs_main_zone s)\<lparr>mz_sound_mode := set_synchronization v (mz_sound_mode (rs_main_zone s))\<rparr>\<rparr>"

definition rs_mark_converging ::
  "core_field \<Rightarrow> sync_cycle_id \<Rightarrow> sync_cause \<Rightarrow> monotonic_millis \<Rightarrow> receiver_state \<Rightarrow> receiver_state" where
  "rs_mark_converging field cycle cause reconcile_by s =
     bump_revision (sync_field field (Converging cycle cause reconcile_by) s)"

definition rs_mark_settled ::
  "core_field \<Rightarrow> sync_cycle_id \<Rightarrow> monotonic_millis \<Rightarrow> receiver_state \<Rightarrow> receiver_state" where
  "rs_mark_settled field cycle at s = bump_revision (sync_field field (Settled cycle at) s)"

fun fail_field :: "core_field \<Rightarrow> string \<Rightarrow> receiver_state \<Rightarrow> receiver_state" where
  "fail_field FSystemPower m s = s\<lparr>rs_system_power := mark_failed m (rs_system_power s)\<rparr>"
| "fail_field FMainZonePower m s =
     s\<lparr>rs_main_zone := (rs_main_zone s)\<lparr>mz_power := mark_failed m (mz_power (rs_main_zone s))\<rparr>\<rparr>"
| "fail_field FZone2Power m s = s\<lparr>rs_zone2_power := mark_failed m (rs_zone2_power s)\<rparr>"
| "fail_field FSource m s =
     s\<lparr>rs_main_zone := (rs_main_zone s)\<lparr>mz_source := mark_failed m (mz_source (rs_main_zone s))\<rparr>\<rparr>"
| "fail_field FVolume m s =
     s\<lparr>rs_main_zone := (rs_main_zone s)\<lparr>mz_volume := mark_failed m (mz_volume (rs_main_zone s))\<rparr>\<rparr>"
| "fail_field FMute m s =
     s\<lparr>rs_main_zone := (rs_main_zone s)\<lparr>mz_mute := mark_failed m (mz_mute (rs_main_zone s))\<rparr>\<rparr>"
| "fail_field FSoundMode m s =
     s\<lparr>rs_main_zone := (rs_main_zone s)\<lparr>mz_sound_mode := mark_failed m (mz_sound_mode (rs_main_zone s))\<rparr>\<rparr>"

definition rs_mark_query_failed :: "core_field \<Rightarrow> string \<Rightarrow> receiver_state \<Rightarrow> receiver_state" where
  "rs_mark_query_failed field message s = bump_revision (fail_field field message s)"

text \<open>The \<open>match frame\<close> of \<open>reduce\<close>; \<open>ob v\<close> is the \<open>observed!\<close> macro.\<close>

record stamp =
  st_receiver :: receiver_id
  st_epoch :: epoch
  st_frame_seq :: frame_seq
  st_observed_at :: monotonic_millis
  st_valid_until :: monotonic_millis
  st_origin :: observation_origin

definition observed :: "stamp \<Rightarrow> 'a \<Rightarrow> 'a observation" where
  "observed st v =
     \<lparr>ob_receiver = st_receiver st, ob_epoch = st_epoch st, ob_frame_seq = st_frame_seq st,
      ob_observed_at = st_observed_at st, ob_origin = st_origin st, ob_value = v\<rparr>"

fun apply_frame :: "stamp \<Rightarrow> core_frame \<Rightarrow> receiver_state \<Rightarrow> receiver_state" where
  "apply_frame st (CSystemPower v) s =
     s\<lparr>rs_system_power := fs_observe (observed st v) (st_valid_until st) (rs_system_power s)\<rparr>"
| "apply_frame st (CMainZonePower v) s =
     s\<lparr>rs_main_zone := (rs_main_zone s)\<lparr>mz_power :=
        fs_observe (observed st v) (st_valid_until st) (mz_power (rs_main_zone s))\<rparr>\<rparr>"
| "apply_frame st (CZone2Power v) s =
     s\<lparr>rs_zone2_power := fs_observe (observed st v) (st_valid_until st) (rs_zone2_power s)\<rparr>"
| "apply_frame st (CSource v) s =
     s\<lparr>rs_main_zone := (rs_main_zone s)\<lparr>mz_source :=
        fs_observe (observed st v) (st_valid_until st) (mz_source (rs_main_zone s))\<rparr>\<rparr>"
| "apply_frame st (CVolume v) s =
     s\<lparr>rs_main_zone := (rs_main_zone s)\<lparr>mz_volume :=
        fs_observe (observed st v) (st_valid_until st) (mz_volume (rs_main_zone s))\<rparr>\<rparr>"
| "apply_frame st (CMute v) s =
     s\<lparr>rs_main_zone := (rs_main_zone s)\<lparr>mz_mute :=
        fs_observe (observed st v) (st_valid_until st) (mz_mute (rs_main_zone s))\<rparr>\<rparr>"
| "apply_frame st (CSoundMode v) s =
     s\<lparr>rs_main_zone := (rs_main_zone s)\<lparr>mz_sound_mode :=
        fs_observe (observed st v) (st_valid_until st) (mz_sound_mode (rs_main_zone s))\<rparr>\<rparr>"
| "apply_frame st (CVolumeUnavailable raw) s =
     s\<lparr>rs_main_zone := (rs_main_zone s)\<lparr>mz_volume :=
        (mz_volume (rs_main_zone s))\<lparr>fs_validity := Unavailable (UnavailableStatus raw)\<rparr>\<rparr>\<rparr>"

definition reduce :: "stamp \<Rightarrow> core_frame \<Rightarrow> receiver_state \<Rightarrow> bool \<times> receiver_state" where
  "reduce st frame s =
     (if rs_receiver s \<noteq> st_receiver st \<or> rs_epoch s \<noteq> Some (st_epoch st) then (False, s)
      else (True, bump_revision (apply_frame st frame s)))"

section \<open>The state as a map from fields to evidence\<close>

text \<open>
  Seven differently typed fields are awkward to reason about one by one. \<open>view\<close> erases the
  value types through \<open>FieldValue\<close> of \<open>precondition.rs\<close>, and every operation above is
  then a pointwise update of a map from \<^typ>\<open>core_field\<close>: the abstract state the session
  promises its clients.
\<close>

datatype field_value =
    VSystemPower system_power
  | VMainZonePower zone_power
  | VZone2Power zone_power
  | VSource source_id
  | VVolume master_volume
  | VMute mute_state
  | VSoundMode string

fun value_field :: "field_value \<Rightarrow> core_field" where
  "value_field (VSystemPower _) = FSystemPower"
| "value_field (VMainZonePower _) = FMainZonePower"
| "value_field (VZone2Power _) = FZone2Power"
| "value_field (VSource _) = FSource"
| "value_field (VVolume _) = FVolume"
| "value_field (VMute _) = FMute"
| "value_field (VSoundMode _) = FSoundMode"

definition erase_obs :: "('a \<Rightarrow> 'b) \<Rightarrow> 'a observation \<Rightarrow> 'b observation" where
  "erase_obs g ob =
     \<lparr>ob_receiver = ob_receiver ob, ob_epoch = ob_epoch ob, ob_frame_seq = ob_frame_seq ob,
      ob_observed_at = ob_observed_at ob, ob_origin = ob_origin ob, ob_value = g (ob_value ob)\<rparr>"

definition erase :: "('a \<Rightarrow> 'b) \<Rightarrow> 'a field_state \<Rightarrow> 'b field_state" where
  "erase g f =
     \<lparr>fs_last_good = map_option (erase_obs g) (fs_last_good f), fs_validity = fs_validity f,
      fs_synchronization = fs_synchronization f, fs_last_issue = fs_last_issue f\<rparr>"

type_synonym evidence_map = "core_field \<Rightarrow> field_value field_state"

fun view :: "receiver_state \<Rightarrow> evidence_map" where
  "view s FSystemPower = erase VSystemPower (rs_system_power s)"
| "view s FMainZonePower = erase VMainZonePower (mz_power (rs_main_zone s))"
| "view s FZone2Power = erase VZone2Power (rs_zone2_power s)"
| "view s FSource = erase VSource (mz_source (rs_main_zone s))"
| "view s FVolume = erase VVolume (mz_volume (rs_main_zone s))"
| "view s FMute = erase VMute (mz_mute (rs_main_zone s))"
| "view s FSoundMode = erase (VSoundMode \<circ> sms_id) (mz_sound_mode (rs_main_zone s))"

fun frame_value :: "core_frame \<Rightarrow> field_value option" where
  "frame_value (CSystemPower v) = Some (VSystemPower v)"
| "frame_value (CMainZonePower v) = Some (VMainZonePower v)"
| "frame_value (CZone2Power v) = Some (VZone2Power v)"
| "frame_value (CSource v) = Some (VSource v)"
| "frame_value (CVolume v) = Some (VVolume v)"
| "frame_value (CMute v) = Some (VMute v)"
| "frame_value (CSoundMode v) = Some (VSoundMode (sms_id v))"
| "frame_value (CVolumeUnavailable _) = None"

fun frame_raw :: "core_frame \<Rightarrow> string" where
  "frame_raw (CVolumeUnavailable raw) = raw"
| "frame_raw _ = []"

definition abs_apply :: "stamp \<Rightarrow> core_frame \<Rightarrow> evidence_map \<Rightarrow> evidence_map" where
  "abs_apply st frame m =
     m(frame_field frame :=
         (case frame_value frame of
            Some v \<Rightarrow> fs_observe (observed st v) (st_valid_until st) (m (frame_field frame))
          | None \<Rightarrow> (m (frame_field frame))
              \<lparr>fs_validity := Unavailable (UnavailableStatus (frame_raw frame))\<rparr>))"

lemma erase_commutes:
  "erase g (fs_observe ob vu f) = fs_observe (erase_obs g ob) vu (erase g f)"
  "erase g (fs_stale r m f) = fs_stale r m (erase g f)"
  "erase g (stale_if_observed f) = stale_if_observed (erase g f)"
  "erase g (mark_failed m f) = mark_failed m (erase g f)"
  "erase g (set_synchronization v f) = set_synchronization v (erase g f)"
  "erase g (field_state_default) = field_state_default"
  "erase g (f\<lparr>fs_validity := w\<rparr>) = (erase g f)\<lparr>fs_validity := w\<rparr>"
  by (simp_all add: erase_def field_state_defs)

lemma erase_obs_observed [simp]: "erase_obs g (observed st v) = observed st (g v)"
  by (simp add: erase_obs_def observed_def)

lemma erase_expire:
  "fst (fs_expire_if_due now (erase g f)) = fst (fs_expire_if_due now f)"
  "erase g (snd (fs_expire_if_due now f)) = snd (fs_expire_if_due now (erase g f))"
  by (simp_all add: erase_def fs_expire_if_due_def fs_stale_def Let_def)

lemma view_bump_revision [simp]: "view (bump_revision s) = view s"
proof
  fix f show "view (bump_revision s) f = view s f" by (cases f) (simp_all add: bump_revision_def)
qed

lemma bump_revision_frame [frame_simps, simp]:
  "rs_receiver (bump_revision s) = rs_receiver s"
  "rs_epoch (bump_revision s) = rs_epoch s"
  "rs_diagnostics (bump_revision s) = rs_diagnostics s"
  "rs_revision (bump_revision s) = saturating_add (rs_revision s) 1"
  by (simp_all add: bump_revision_def)

lemma view_new: "view (receiver_state_new r) = (\<lambda>_. field_state_default)"
proof
  fix f show "view (receiver_state_new r) f = field_state_default"
    by (cases f) (simp_all add: receiver_state_new_def main_zone_default_def erase_commutes)
qed

lemma view_record_diagnostic [simp]: "view (record_diagnostic d s) = view s"
proof
  fix f show "view (record_diagnostic d s) f = view s f"
    by (cases f) (simp_all add: record_diagnostic_def Let_def)
qed

lemma view_mark_disconnected: "view (mark_disconnected s) = (\<lambda>f. stale_if_observed (view s f))"
proof
  fix f show "view (mark_disconnected s) f = stale_if_observed (view s f)"
    by (cases f) (simp_all add: mark_disconnected_def erase_commutes)
qed

lemma view_expire_fields:
  "view (snd (expire_fields now s)) = (\<lambda>f. snd (fs_expire_if_due now (view s f)))"
proof
  fix f show "view (snd (expire_fields now s)) f = snd (fs_expire_if_due now (view s f))"
    by (cases f) (simp_all add: expire_fields_def Let_def split_beta erase_expire(2) bump_revision_def)
qed

lemma view_establish_epoch: "view (snd (establish_epoch e s)) = view s"
proof
  fix f show "view (snd (establish_epoch e s)) f = view s f"
    by (cases f) (simp_all add: establish_epoch_def bump_revision_def split: option.splits)
qed

lemma view_sync_field:
  "view (sync_field f v s) = (view s)(f := set_synchronization v (view s f))"
proof
  fix g show "view (sync_field f v s) g = ((view s)(f := set_synchronization v (view s f))) g"
    by (cases f; cases g) (simp_all add: erase_commutes)
qed

lemma view_fail_field: "view (fail_field f m s) = (view s)(f := mark_failed m (view s f))"
proof
  fix g show "view (fail_field f m s) g = ((view s)(f := mark_failed m (view s f))) g"
    by (cases f; cases g) (simp_all add: erase_commutes)
qed

lemma view_apply_frame: "view (apply_frame st fr s) = abs_apply st fr (view s)"
proof
  fix g show "view (apply_frame st fr s) g = abs_apply st fr (view s) g"
    by (cases fr; cases g) (simp_all add: abs_apply_def erase_commutes)
qed

lemma apply_frame_frame [frame_simps, simp]:
  "rs_receiver (apply_frame st fr s) = rs_receiver s"
  "rs_epoch (apply_frame st fr s) = rs_epoch s"
  "rs_revision (apply_frame st fr s) = rs_revision s"
  "rs_diagnostics (apply_frame st fr s) = rs_diagnostics s"
  by (cases fr; simp)+

lemma sync_field_frame [frame_simps, simp]:
  "rs_receiver (sync_field f v s) = rs_receiver s"
  "rs_epoch (sync_field f v s) = rs_epoch s"
  "rs_revision (sync_field f v s) = rs_revision s"
  "rs_diagnostics (sync_field f v s) = rs_diagnostics s"
  by (cases f; simp)+

lemma fail_field_frame [frame_simps, simp]:
  "rs_receiver (fail_field f m s) = rs_receiver s"
  "rs_epoch (fail_field f m s) = rs_epoch s"
  "rs_revision (fail_field f m s) = rs_revision s"
  "rs_diagnostics (fail_field f m s) = rs_diagnostics s"
  by (cases f; simp)+

lemma record_diagnostic_frame [frame_simps, simp]:
  "rs_receiver (record_diagnostic d s) = rs_receiver s"
  "rs_epoch (record_diagnostic d s) = rs_epoch s"
  by (simp_all add: record_diagnostic_def Let_def)

lemma mark_disconnected_frame [frame_simps, simp]:
  "rs_receiver (mark_disconnected s) = rs_receiver s"
  "rs_epoch (mark_disconnected s) = None"
  by (simp_all add: mark_disconnected_def)

lemma expire_fields_frame [frame_simps, simp]:
  "rs_receiver (snd (expire_fields now s)) = rs_receiver s"
  "rs_epoch (snd (expire_fields now s)) = rs_epoch s"
  by (simp_all add: expire_fields_def Let_def split_beta)

lemma establish_epoch_receiver [frame_simps, simp]:
  "rs_receiver (snd (establish_epoch e s)) = rs_receiver s"
  by (simp add: establish_epoch_def)

section \<open>Evidence stores\<close>

text \<open>
  The contract of a canonical state as its clients use it: what each operation does to the
  evidence, the receiver and the epoch. The lemmas of the locale are proved from the laws
  alone; \<open>rs\<close> below is its interpretation on the reducer of the source.
\<close>

definition current_evidence :: "receiver_id \<Rightarrow> epoch option \<Rightarrow> 'a field_state \<Rightarrow> bool" where
  "current_evidence r e f =
     (case fs_validity f of
        Current _ \<Rightarrow> (case fs_last_good f of
             None \<Rightarrow> False
           | Some ob \<Rightarrow> ob_receiver ob = r \<and> e = Some (ob_epoch ob))
      | _ \<Rightarrow> True)"

definition evidence_inv :: "receiver_id \<Rightarrow> epoch option \<Rightarrow> evidence_map \<Rightarrow> bool" where
  "evidence_inv r e m = list_all (\<lambda>f. current_evidence r e (m f)) core_fields"

lemma evidence_inv_iff: "evidence_inv r e m \<longleftrightarrow> (\<forall>f. current_evidence r e (m f))"
  by (simp add: evidence_inv_def list_all_iff)

lemma current_evidence_iff:
  "current_evidence r e f \<longleftrightarrow>
     (\<forall>t. fs_validity f = Current t \<longrightarrow>
        (\<exists>ob. fs_last_good f = Some ob \<and> ob_receiver ob = r \<and> e = Some (ob_epoch ob)))"
  by (auto simp: current_evidence_def split: field_validity.splits option.splits)

lemma current_evidence_unavailable [simp]:
  "current_evidence r e (f\<lparr>fs_validity := Unavailable ev\<rparr>)"
  by (simp add: current_evidence_def)

lemma current_evidence_no_epoch: "current_evidence r None f \<Longrightarrow> current_evidence r e f"
  by (simp add: current_evidence_iff)

lemma current_evidence_default [simp]: "current_evidence r e field_state_default"
  by (simp add: current_evidence_def field_state_default_def)

lemma current_evidence_stale [simp]: "current_evidence r e (fs_stale why m f)"
  by (simp add: current_evidence_def fs_stale_def)

lemma current_evidence_sync [simp]:
  "current_evidence r e (set_synchronization v f) = current_evidence r e f"
  by (cases "fs_validity f") (simp_all add: current_evidence_def set_synchronization_def)

lemma current_evidence_failed: "current_evidence r e f \<Longrightarrow> current_evidence r e (mark_failed m f)"
  by (cases "fs_last_good f")
    (auto simp: current_evidence_def mark_failed_def fs_stale_def split: field_validity.splits)

lemma current_evidence_expired:
  "current_evidence r e f \<Longrightarrow> current_evidence r e (snd (fs_expire_if_due now f))"
  by (simp add: fs_expire_if_due_def Let_def)

lemma current_evidence_disconnected:
  "current_evidence r e f \<Longrightarrow> current_evidence r e' (stale_if_observed f)"
  by (auto simp: current_evidence_def stale_if_observed_def fs_stale_def
        split: field_validity.splits option.splits)

lemma current_evidence_observe:
  "current_evidence (st_receiver st) (Some (st_epoch st)) (fs_observe (observed st v) vu f)"
  by (simp add: current_evidence_def fs_observe_def observed_def)

locale evidence_store =
  fixes vw :: "'s \<Rightarrow> evidence_map"
    and receiver :: "'s \<Rightarrow> receiver_id"
    and epoch_of :: "'s \<Rightarrow> epoch option"
    and red :: "stamp \<Rightarrow> core_frame \<Rightarrow> 's \<Rightarrow> bool \<times> 's"
    and disconnect :: "'s \<Rightarrow> 's"
    and establish :: "epoch \<Rightarrow> 's \<Rightarrow> bool \<times> 's"
  assumes red_refused:
      "receiver s \<noteq> st_receiver st \<or> epoch_of s \<noteq> Some (st_epoch st) \<Longrightarrow> red st fr s = (False, s)"
    and red_accepted:
      "receiver s = st_receiver st \<Longrightarrow> epoch_of s = Some (st_epoch st) \<Longrightarrow>
       fst (red st fr s) \<and> vw (snd (red st fr s)) = abs_apply st fr (vw s)"
    and red_frame: "receiver (snd (red st fr s)) = receiver s \<and> epoch_of (snd (red st fr s)) = epoch_of s"
    and disconnect_laws:
      "vw (disconnect s) = (\<lambda>f. stale_if_observed (vw s f)) \<and> receiver (disconnect s) = receiver s
       \<and> epoch_of (disconnect s) = None"
    and establish_fresh:
      "epoch_of s = None \<Longrightarrow> fst (establish e s) \<and> vw (snd (establish e s)) = vw s
         \<and> receiver (snd (establish e s)) = receiver s \<and> epoch_of (snd (establish e s)) = Some e"
begin

definition inv :: "'s \<Rightarrow> bool" where
  "inv s \<longleftrightarrow> evidence_inv (receiver s) (epoch_of s) (vw s)"

lemma inv_red: "inv s \<Longrightarrow> inv (snd (red st fr s))"
proof (cases "receiver s = st_receiver st \<and> epoch_of s = Some (st_epoch st)")
  case False
  then have "red st fr s = (False, s)" by (intro red_refused) auto
  moreover assume "inv s"
  ultimately show ?thesis by simp
next
  case True
  assume "inv s"
  with True red_accepted [of s st fr] red_frame [of st fr s]
    current_evidence_observe [of st] show ?thesis
    by (auto simp: inv_def evidence_inv_iff abs_apply_def split: option.splits)
qed

lemma inv_disconnect: "inv s \<Longrightarrow> inv (disconnect s)"
  by (auto simp: inv_def evidence_inv_iff disconnect_laws intro: current_evidence_disconnected)

text \<open>After a disconnect no field reads as current, whatever is observed of it later is new.\<close>

lemma disconnect_no_current: "inv s \<Longrightarrow> fs_validity (vw (disconnect s) f) \<noteq> Current t"
  by (auto simp: inv_def evidence_inv_iff disconnect_laws stale_if_observed_def fs_stale_def
        current_evidence_iff)

lemma inv_reconnect: "inv s \<Longrightarrow> inv (snd (establish e (disconnect s)))"
proof -
  assume "inv s"
  have "epoch_of (disconnect s) = None" by (simp add: disconnect_laws)
  from establish_fresh [OF this, of e] have
    "vw (snd (establish e (disconnect s))) = (\<lambda>f. stale_if_observed (vw s f))"
    "receiver (snd (establish e (disconnect s))) = receiver s"
    by (simp_all add: disconnect_laws)
  with \<open>inv s\<close> show ?thesis
    by (auto simp: inv_def evidence_inv_iff intro: current_evidence_disconnected)
qed

text \<open>A frame changes the evidence of its own field and of no other.\<close>

lemma red_other_fields: "f \<noteq> frame_field fr \<Longrightarrow> vw (snd (red st fr s)) f = vw s f"
proof (cases "receiver s = st_receiver st \<and> epoch_of s = Some (st_epoch st)")
  case False
  then have "red st fr s = (False, s)" by (intro red_refused) auto
  then show ?thesis by simp
next
  case True
  moreover assume "f \<noteq> frame_field fr"
  ultimately show ?thesis using red_accepted [of s st fr] by (simp add: abs_apply_def)
qed

end

lemma reduce_accepted_view:
  "rs_receiver s = st_receiver st \<Longrightarrow> rs_epoch s = Some (st_epoch st) \<Longrightarrow>
   fst (reduce st fr s) \<and> view (snd (reduce st fr s)) = abs_apply st fr (view s)"
  by (simp add: reduce_def view_apply_frame)

interpretation rs: evidence_store view rs_receiver rs_epoch reduce mark_disconnected establish_epoch
proof unfold_locales
  fix s st fr
  show "rs_receiver s \<noteq> st_receiver st \<or> rs_epoch s \<noteq> Some (st_epoch st) \<Longrightarrow> reduce st fr s = (False, s)"
    by (simp add: reduce_def)
  show "rs_receiver s = st_receiver st \<Longrightarrow> rs_epoch s = Some (st_epoch st) \<Longrightarrow>
     fst (reduce st fr s) \<and> view (snd (reduce st fr s)) = abs_apply st fr (view s)"
    by (rule reduce_accepted_view)
  show "rs_receiver (snd (reduce st fr s)) = rs_receiver s \<and> rs_epoch (snd (reduce st fr s)) = rs_epoch s"
    by (simp add: reduce_def)
  show "view (mark_disconnected s) = (\<lambda>f. stale_if_observed (view s f))
     \<and> rs_receiver (mark_disconnected s) = rs_receiver s \<and> rs_epoch (mark_disconnected s) = None"
    by (simp add: view_mark_disconnected)
next
  fix s e
  show "rs_epoch s = None \<Longrightarrow> fst (establish_epoch e s) \<and> view (snd (establish_epoch e s)) = view s
     \<and> rs_receiver (snd (establish_epoch e s)) = rs_receiver s
     \<and> rs_epoch (snd (establish_epoch e s)) = Some e"
    by (simp add: view_establish_epoch) (simp add: establish_epoch_def)
qed

definition rs_inv :: "receiver_state \<Rightarrow> bool" where
  "rs_inv s = evidence_inv (rs_receiver s) (rs_epoch s) (view s)"

lemma rs_inv_eq: "rs_inv s = rs.inv s"
  by (simp add: rs_inv_def rs.inv_def)

lemma rs_inv_new [inv_intros]: "rs_inv (receiver_state_new r)"
  by (simp add: rs_inv_def evidence_inv_iff view_new)

lemma rs_inv_reduce [inv_intros]: "rs_inv s \<Longrightarrow> rs_inv (snd (reduce st fr s))"
  unfolding rs_inv_eq by (rule rs.inv_red)

lemma rs_inv_mark_disconnected [inv_intros]: "rs_inv s \<Longrightarrow> rs_inv (mark_disconnected s)"
  unfolding rs_inv_eq by (rule rs.inv_disconnect)

lemma rs_inv_record_diagnostic [inv_intros]: "rs_inv s \<Longrightarrow> rs_inv (record_diagnostic d s)"
  by (simp add: rs_inv_def)

lemma rs_inv_establish_fresh [inv_intros]:
  "rs_inv s \<Longrightarrow> rs_epoch s = None \<Longrightarrow> rs_inv (snd (establish_epoch e s))"
  by (auto simp: rs_inv_def evidence_inv_iff view_establish_epoch intro: current_evidence_no_epoch)

lemma rs_inv_expire_fields [inv_intros]: "rs_inv s \<Longrightarrow> rs_inv (snd (expire_fields now s))"
  by (simp add: rs_inv_def evidence_inv_iff view_expire_fields current_evidence_expired)

lemma rs_inv_mark_converging [inv_intros]: "rs_inv s \<Longrightarrow> rs_inv (rs_mark_converging f c w t s)"
  by (simp add: rs_inv_def evidence_inv_iff rs_mark_converging_def view_sync_field)

lemma rs_inv_mark_settled [inv_intros]: "rs_inv s \<Longrightarrow> rs_inv (rs_mark_settled f c t s)"
  by (simp add: rs_inv_def evidence_inv_iff rs_mark_settled_def view_sync_field)

lemma rs_inv_mark_query_failed [inv_intros]: "rs_inv s \<Longrightarrow> rs_inv (rs_mark_query_failed f m s)"
  by (simp add: rs_inv_def evidence_inv_iff rs_mark_query_failed_def view_fail_field
        current_evidence_failed)

section \<open>Bounded diagnostics\<close>

lemma record_diagnostic_newest:
  "rs_diagnostics (record_diagnostic d s) = newest MAX_DIAGNOSTICS (rs_diagnostics s @ [d])"
  by (simp add: record_diagnostic_def newest_def Let_def)

lemma foldl_record_diagnostic:
  "length (rs_diagnostics s) \<le> MAX_DIAGNOSTICS \<Longrightarrow>
   rs_diagnostics (foldl (\<lambda>s d. record_diagnostic d s) s ds) =
     newest MAX_DIAGNOSTICS (rs_diagnostics s @ ds)"
proof (induction ds arbitrary: s)
  case Nil
  then show ?case by (simp add: newest_id)
next
  case (Cons d ds)
  let ?s = "record_diagnostic d s"
  have "length (rs_diagnostics ?s) \<le> MAX_DIAGNOSTICS"
    by (simp add: record_diagnostic_newest length_newest)
  from Cons.IH [OF this] show ?case
    by (simp add: record_diagnostic_newest newest_append_newest)
qed

end
