(* ===== verification/Precondition.thy ===== *)
theory Precondition
  imports Receiver_State
begin

text \<open>
  \<open>crates/domain/src/precondition.rs\<close>: what a decision saw about the receiver, checked again
  before a write. A \<open>BTreeMap\<close> keyed by \<open>CoreField\<close> is a partial map; its iteration order
  is the order of \<open>core_fields\<close>.
\<close>

datatype field_baseline = BaselineValue field_value | NoUsableValue core_field

fun baseline_field :: "field_baseline \<Rightarrow> core_field" where
  "baseline_field (BaselineValue v) = value_field v"
| "baseline_field (NoUsableValue f) = f"

definition usable :: "'a field_state \<Rightarrow> ('a \<Rightarrow> field_value) \<Rightarrow> field_value option" where
  "usable field value =
     (case (fs_validity field, fs_last_good field) of
        (Current _, Some ob) \<Rightarrow> Some (value (ob_value ob))
      | _ \<Rightarrow> None)"

fun usable_field :: "receiver_state \<Rightarrow> core_field \<Rightarrow> field_value option" where
  "usable_field s FSystemPower = usable (rs_system_power s) VSystemPower"
| "usable_field s FMainZonePower = usable (mz_power (rs_main_zone s)) VMainZonePower"
| "usable_field s FZone2Power = usable (rs_zone2_power s) VZone2Power"
| "usable_field s FSource = usable (mz_source (rs_main_zone s)) VSource"
| "usable_field s FVolume = usable (mz_volume (rs_main_zone s)) VVolume"
| "usable_field s FMute = usable (mz_mute (rs_main_zone s)) VMute"
| "usable_field s FSoundMode = usable (mz_sound_mode (rs_main_zone s)) (\<lambda>mode. VSoundMode (sms_id mode))"

definition baseline_capture :: "receiver_state \<Rightarrow> core_field \<Rightarrow> field_baseline" where
  "baseline_capture s f =
     (case usable_field s f of None \<Rightarrow> NoUsableValue f | Some v \<Rightarrow> BaselineValue v)"

definition holds_in :: "field_baseline \<Rightarrow> receiver_state \<Rightarrow> bool" where
  "holds_in b s = (b = baseline_capture s (baseline_field b))"

record precondition =
  pc_epoch :: epoch
  pc_fields :: "core_field \<rightharpoonup> field_baseline"

definition precondition_new :: "epoch \<Rightarrow> precondition" where
  "precondition_new e = \<lparr>pc_epoch = e, pc_fields = Map.empty\<rparr>"

definition precondition_with :: "precondition \<Rightarrow> field_baseline \<Rightarrow> precondition" where
  "precondition_with p b = p\<lparr>pc_fields := (pc_fields p)(baseline_field b \<mapsto> b)\<rparr>"

definition precondition_capture :: "receiver_state \<Rightarrow> core_field list \<Rightarrow> precondition option" where
  "precondition_capture s fs =
     (case rs_epoch s of
        None \<Rightarrow> None
      | Some e \<Rightarrow> Some (foldl (\<lambda>acc f. precondition_with acc (baseline_capture s f))
                          (precondition_new e) fs))"

definition precondition_fields :: "precondition \<Rightarrow> core_field list" where
  "precondition_fields p = filter (\<lambda>f. pc_fields p f \<noteq> None) core_fields"

definition precondition_baseline :: "precondition \<Rightarrow> core_field \<Rightarrow> field_baseline option" where
  "precondition_baseline p f = pc_fields p f"

definition baseline_broken :: "precondition \<Rightarrow> receiver_state \<Rightarrow> core_field \<Rightarrow> bool" where
  "baseline_broken p s f = (case pc_fields p f of Some b \<Rightarrow> \<not> holds_in b s | None \<Rightarrow> False)"

definition mismatch :: "precondition \<Rightarrow> receiver_state \<Rightarrow> precondition_mismatch option" where
  "mismatch p s =
     (if rs_epoch s \<noteq> Some (pc_epoch p) then Some MismatchEpoch
      else map_option MismatchField (List.find (baseline_broken p s) core_fields))"

section \<open>Baselines depend on the evidence of their field only\<close>

lemma usable_erase: "usable (erase g f) h = usable f (h \<circ> g)"
  by (cases "fs_last_good f"; cases "fs_validity f")
     (simp_all add: usable_def erase_def erase_obs_def)

lemma usable_field_view: "usable_field s f = usable (view s f) id"
  by (cases f) (simp_all add: usable_erase o_def)

lemma usable_cong_view: "view s f = view t f \<Longrightarrow> baseline_capture s f = baseline_capture t f"
  by (simp add: baseline_capture_def usable_field_view)

lemma usable_value_field: "usable_field s f = Some v \<Longrightarrow> value_field v = f"
  by (cases f) (auto simp: usable_def split: field_validity.splits option.splits)

lemma baseline_field_capture [simp]: "baseline_field (baseline_capture s f) = f"
  by (auto simp: baseline_capture_def split: option.splits dest: usable_value_field)

lemma capture_of_default: "view s f = field_state_default \<Longrightarrow> baseline_capture s f = NoUsableValue f"
  by (simp add: baseline_capture_def usable_field_view usable_def field_state_default_def)

lemma capture_no_value_iff:
  "baseline_capture s f = NoUsableValue f \<longleftrightarrow>
     \<not> (\<exists>t ob. fs_validity (view s f) = Current t \<and> fs_last_good (view s f) = Some ob)"
  by (auto simp: baseline_capture_def usable_field_view usable_def
        split: field_validity.splits option.splits)

text \<open>A captured value was observed on the connection in force.\<close>

lemma capture_value_evidence:
  assumes "rs_inv s" "baseline_capture s f = BaselineValue v"
  shows "\<exists>t ob. fs_validity (view s f) = Current t \<and> fs_last_good (view s f) = Some ob
           \<and> ob_value ob = v \<and> rs_epoch s = Some (ob_epoch ob) \<and> ob_receiver ob = rs_receiver s"
proof -
  from assms(2) obtain t ob where
    *: "fs_validity (view s f) = Current t" "fs_last_good (view s f) = Some ob" "ob_value ob = v"
    by (auto simp: baseline_capture_def usable_field_view usable_def
          split: field_validity.splits option.splits)
  from assms(1) have "current_evidence (rs_receiver s) (rs_epoch s) (view s f)"
    by (simp add: rs_inv_def evidence_inv_iff)
  with * show ?thesis by (auto simp: current_evidence_iff)
qed

section \<open>Preconditions\<close>

lemma foldl_precondition_with:
  "pc_epoch (foldl (\<lambda>acc f. precondition_with acc (baseline_capture s f)) p fs) = pc_epoch p"
  "pc_fields (foldl (\<lambda>acc f. precondition_with acc (baseline_capture s f)) p fs) f =
     (if f \<in> set fs then Some (baseline_capture s f) else pc_fields p f)"
  by (induction fs arbitrary: p) (simp_all add: precondition_with_def)

lemma precondition_capture_Some:
  "precondition_capture s fs = Some p \<longleftrightarrow>
     rs_epoch s = Some (pc_epoch p) \<and>
     pc_fields p = (\<lambda>f. if f \<in> set fs then Some (baseline_capture s f) else None)"
proof (cases "rs_epoch s")
  case None
  then show ?thesis by (simp add: precondition_capture_def)
next
  case (Some e)
  let ?q = "foldl (\<lambda>acc f. precondition_with acc (baseline_capture s f)) (precondition_new e) fs"
  have q: "pc_epoch ?q = e"
    "pc_fields ?q = (\<lambda>f. if f \<in> set fs then Some (baseline_capture s f) else None)"
    by (rule foldl_precondition_with(1) [THEN trans], simp add: precondition_new_def)
       (rule ext, simp add: foldl_precondition_with(2) precondition_new_def)
  have "?q = p \<longleftrightarrow> pc_epoch ?q = pc_epoch p \<and> pc_fields ?q = pc_fields p"
    by (cases ?q; cases p) simp
  with q Some show ?thesis by (auto simp: precondition_capture_def)
qed

lemma find_core_fields:
  "List.find P core_fields = Some f \<longleftrightarrow> P f \<and> (\<forall>g < f. \<not> P g)"
  using find_Some_sorted [of core_fields P f] core_fields_sorted by simp

lemma mismatch_None:
  "mismatch p s = None \<longleftrightarrow>
     rs_epoch s = Some (pc_epoch p) \<and> (\<forall>f b. pc_fields p f = Some b \<longrightarrow> holds_in b s)"
  by (auto simp: mismatch_def baseline_broken_def find_None_iff split: option.splits)

end
