(* ===== verification/State_Properties.thy ===== *)
theory State_Properties
  imports Precondition
begin

text \<open>
  What the canonical state of \<open>receiver_state.rs\<close> promises over a whole connection history,
  and what a precondition of \<open>precondition.rs\<close> checks: the operations as a step relation,
  with invariants by rule induction, and the exactness of the check before a write.
\<close>

section \<open>Histories of a state\<close>

text \<open>
  One step is one operation of the reducer. A new epoch is established after a disconnect,
  as every caller does.
\<close>

inductive rs_step :: "receiver_state \<Rightarrow> receiver_state \<Rightarrow> bool" where
  step_reduce: "rs_step s (snd (reduce st fr s))"
| step_disconnect: "rs_step s (mark_disconnected s)"
| step_establish: "rs_epoch s = None \<Longrightarrow> rs_step s (snd (establish_epoch e s))"
| step_expire: "rs_step s (snd (expire_fields now s))"
| step_converging: "rs_step s (rs_mark_converging f c w t s)"
| step_settled: "rs_step s (rs_mark_settled f c t s)"
| step_query_failed: "rs_step s (rs_mark_query_failed f m s)"
| step_diagnostic: "rs_step s (record_diagnostic d s)"

inductive_cases rs_stepE: "rs_step s t"

abbreviation rs_steps :: "receiver_state \<Rightarrow> receiver_state \<Rightarrow> bool" where
  "rs_steps \<equiv> rs_step\<^sup>*\<^sup>*"

lemma rs_inv_step: "rs_step s t \<Longrightarrow> rs_inv s \<Longrightarrow> rs_inv t"
  by (induction rule: rs_step.induct) (auto intro: inv_intros)

lemma rs_step_frame:
  assumes "rs_step s t"
  shows "rs_receiver t = rs_receiver s"
    and "length (rs_diagnostics s) \<le> MAX_DIAGNOSTICS \<Longrightarrow> length (rs_diagnostics t) \<le> MAX_DIAGNOSTICS"
    and "rs_revision s \<le> rs_revision t"
  using assms
  by (auto elim!: rs_stepE simp: reduce_def rs_mark_converging_def rs_mark_settled_def
      rs_mark_query_failed_def record_diagnostic_newest length_newest saturating_add_ge
      mark_disconnected_def establish_epoch_def expire_fields_def bump_revision_def record_diagnostic_def
      Let_def split_beta)

lemma rs_steps_frame:
  assumes "rs_steps (receiver_state_new r) s"
  shows "rs_inv s \<and> rs_receiver s = r \<and> length (rs_diagnostics s) \<le> MAX_DIAGNOSTICS"
  using assms
proof (induction rule: rtranclp_induct)
  case base
  then show ?case using rs_inv_new [of r] by (simp add: receiver_state_new_def)
next
  case (step s t)
  with rs_inv_step [OF step.hyps(2)] rs_step_frame [OF step.hyps(2)] show ?case by simp
qed

section \<open>Properties of the state\<close>

text \<open>
  On every state a connection history can reach, a field that reads as current was observed
  from this receiver on the connection in force, and at most 32 diagnostics are kept.
\<close>

theorem current_is_from_this_connection:
  assumes "rs_steps (receiver_state_new r) s" "fs_validity (view s f) = Current t"
  shows "(\<exists>ob. fs_last_good (view s f) = Some ob \<and> ob_receiver ob = r \<and> rs_epoch s = Some (ob_epoch ob))
    \<and> length (rs_diagnostics s) \<le> 32"
  using rs_steps_frame [OF assms(1)] assms(2)
  by (auto simp: rs_inv_def evidence_inv_iff current_evidence_iff MAX_DIAGNOSTICS_def)

definition example_stamp_1 :: stamp where
  "example_stamp_1 = \<lparr>st_receiver = ReceiverId ''den'', st_epoch = 1, st_frame_seq = 1,
     st_observed_at = 5, st_valid_until = 9, st_origin = ReceiverFrame\<rparr>"

definition example_fresh :: receiver_state where
  "example_fresh = snd (establish_epoch 1 (receiver_state_new (ReceiverId ''den'')))"

definition example_muted :: receiver_state where
  "example_muted = snd (reduce example_stamp_1 (CMute MuteOn) example_fresh)"

lemma example_muted_steps: "rs_steps (receiver_state_new (ReceiverId ''den'')) example_muted"
proof -
  have "rs_step (receiver_state_new (ReceiverId ''den'')) example_fresh"
    unfolding example_fresh_def by (rule step_establish) (simp add: receiver_state_new_def)
  moreover have "rs_step example_fresh example_muted" unfolding example_muted_def by (rule step_reduce)
  ultimately show ?thesis by (meson r_into_rtranclp rtranclp.rtrancl_into_rtrancl)
qed

lemma example_muted_view:
  "fs_validity (view example_muted FMute) = Current 9" "rs_epoch example_muted = Some 1"
  "usable_field example_muted FMute = Some (VMute MuteOn)" "usable_field example_muted FVolume = None"
  by (simp_all add: example_muted_def example_fresh_def reduce_def establish_epoch_def receiver_state_new_def
      bump_revision_def example_stamp_1_def fs_observe_def erase_def usable_def observed_def
      main_zone_default_def field_state_default_def)

theorem current_is_from_this_connection_witness:
  "\<exists>ob. fs_last_good (view example_muted FMute) = Some ob \<and> ob_receiver ob = ReceiverId ''den''
     \<and> rs_epoch example_muted = Some (ob_epoch ob)"
  using current_is_from_this_connection [OF example_muted_steps example_muted_view(1)] by blast

text \<open>
  After a disconnect nothing reads as current, whatever happened before, and no late frame
  of the old connection changes the state.
\<close>

theorem disconnect_forgets:
  assumes "rs_steps (receiver_state_new r) s"
  shows "fs_validity (view (mark_disconnected s) f) \<noteq> Current t
    \<and> reduce st fr (mark_disconnected s) = (False, mark_disconnected s)"
proof -
  have "rs.inv s" using rs_steps_frame [OF assms] by (simp add: rs_inv_eq)
  from rs.disconnect_no_current [OF this] show ?thesis by (simp add: reduce_def)
qed

theorem disconnect_forgets_witness:
  "fs_validity (view (mark_disconnected example_muted) FMute) \<noteq> Current 9
   \<and> fs_validity (view example_muted FMute) = Current 9"
  using disconnect_forgets [OF example_muted_steps] example_muted_view(1) by blast

text \<open>
  The reducer implements the abstract map from fields to evidence: a frame of this
  receiver and connection updates its own field as the map does and no other, moves the
  revision on and is accepted; any other frame is refused and changes nothing.
\<close>

theorem reduce_refines_evidence:
  "(let ours = (rs_receiver s = st_receiver st \<and> rs_epoch s = Some (st_epoch st)) in
      fst (reduce st fr s) = ours
      \<and> view (snd (reduce st fr s)) = (if ours then abs_apply st fr (view s) else view s)
      \<and> rs_revision (snd (reduce st fr s)) =
          (if ours then saturating_add (rs_revision s) 1 else rs_revision s)
      \<and> rs_diagnostics (snd (reduce st fr s)) = rs_diagnostics s)"
  by (auto simp: Let_def reduce_def view_apply_frame)

section \<open>Properties of preconditions\<close>

text \<open>
  A precondition is exact: checked on another state it holds just when the connection is
  the same and every field it captured reads the same, and when a field differs it names the
  first such field in the order of the fields, a changed connection coming before any field.
\<close>

theorem precondition_exact:
  assumes "precondition_capture s fs = Some p"
  shows "(mismatch p t = None \<longleftrightarrow>
           rs_epoch t = rs_epoch s \<and> (\<forall>f \<in> set fs. baseline_capture t f = baseline_capture s f))
    \<and> (mismatch p t = Some MismatchEpoch \<longleftrightarrow> rs_epoch t \<noteq> rs_epoch s)
    \<and> (mismatch p t = Some (MismatchField f) \<longleftrightarrow>
           rs_epoch t = rs_epoch s \<and> f \<in> set fs \<and> baseline_capture t f \<noteq> baseline_capture s f
           \<and> (\<forall>g \<in> set fs. g < f \<longrightarrow> baseline_capture t g = baseline_capture s g))"
proof -
  from assms have e: "rs_epoch s = Some (pc_epoch p)"
    and pf: "pc_fields p = (\<lambda>f. if f \<in> set fs then Some (baseline_capture s f) else None)"
    by (simp_all add: precondition_capture_Some)
  have broken: "baseline_broken p t f \<longleftrightarrow> f \<in> set fs \<and> baseline_capture t f \<noteq> baseline_capture s f" for f
    by (auto simp: baseline_broken_def holds_in_def pf)
  have "mismatch p t = None \<longleftrightarrow>
      rs_epoch t = rs_epoch s \<and> (\<forall>f \<in> set fs. baseline_capture t f = baseline_capture s f)"
    by (auto simp: mismatch_None e pf holds_in_def)
  moreover have "mismatch p t = Some (MismatchField f) \<longleftrightarrow>
      rs_epoch t = rs_epoch s \<and> baseline_broken p t f \<and> (\<forall>g < f. \<not> baseline_broken p t g)"
    by (simp add: mismatch_def e find_core_fields)
  ultimately show ?thesis by (auto simp: mismatch_def e broken)
qed

theorem precondition_exact_witness:
  "\<exists>p. precondition_capture example_muted [FMute, FVolume] = Some p
     \<and> mismatch p example_muted = None
     \<and> mismatch p (mark_disconnected example_muted) = Some MismatchEpoch"
proof -
  obtain p where p: "precondition_capture example_muted [FMute, FVolume] = Some p"
    using example_muted_view(2) by (auto simp: precondition_capture_def)
  from precondition_exact [OF p, of example_muted] precondition_exact [OF p, of "mark_disconnected example_muted"]
  show ?thesis using p example_muted_view(2) by simp
qed

text \<open>
  A captured value is evidence of the connection it was captured on: on every state a
  connection history can reach, a baseline with a value was current then, observed from this
  receiver on the epoch the precondition names.
\<close>

theorem captured_value_is_evidence:
  assumes "rs_steps (receiver_state_new r) s" "precondition_capture s fs = Some p"
    and "precondition_baseline p f = Some (BaselineValue v)"
  shows "\<exists>t ob. fs_validity (view s f) = Current t \<and> fs_last_good (view s f) = Some ob
     \<and> ob_value ob = v \<and> ob_epoch ob = pc_epoch p \<and> ob_receiver ob = r"
proof -
  from assms(2,3) have "rs_epoch s = Some (pc_epoch p)" "baseline_capture s f = BaselineValue v"
    by (auto simp: precondition_capture_Some precondition_baseline_def split: if_splits)
  with capture_value_evidence [of s f v] rs_steps_frame [OF assms(1)] show ?thesis by auto
qed

theorem captured_value_is_evidence_witness:
  "\<exists>t ob. fs_validity (view example_muted FMute) = Current t
     \<and> fs_last_good (view example_muted FMute) = Some ob \<and> ob_value ob = VMute MuteOn"
proof -
  obtain p where p: "precondition_capture example_muted [FMute] = Some p"
    using example_muted_view(2) by (auto simp: precondition_capture_def)
  then have "precondition_baseline p FMute = Some (BaselineValue (VMute MuteOn))"
    using example_muted_view(3) by (auto simp: precondition_capture_Some precondition_baseline_def baseline_capture_def)
  from captured_value_is_evidence [OF example_muted_steps p this] show ?thesis by blast
qed

end
