(* ===== verification/Timing.thy ===== *)
theory Timing
  imports Receiver_State
begin

text \<open>
  Pure timing bookkeeping of the domain crate: \<open>sync_debt.rs\<close>, the fields a receiver actor
  still has to reconcile and when, and \<open>transport_timing.rs\<close>, the spacing of transmitted
  commands. Times are \<open>u64\<close> milliseconds. The additions \<open>now.0 + 250\<close> are unchecked in
  the source (they wrap in a release build); the saturating ones are written as such.
\<close>

section \<open>Synchronization debt\<close>

record sync_debt =
  sd_cycle :: sync_cycle_id
  sd_receiver :: receiver_id
  sd_epoch :: epoch
  sd_fields :: "core_field set"
  sd_causes :: "sync_cause set"
  sd_activity_seq :: u64
  sd_quick_reconcile_at :: monotonic_millis
  sd_final_reconcile_at :: "monotonic_millis option"

definition sync_debt_new ::
  "receiver_id \<Rightarrow> epoch \<Rightarrow> sync_cycle_id \<Rightarrow> core_field \<Rightarrow> sync_cause \<Rightarrow> monotonic_millis \<Rightarrow> sync_debt" where
  "sync_debt_new receiver e cycle field cause now =
     \<lparr>sd_cycle = cycle, sd_receiver = receiver, sd_epoch = e, sd_fields = {field},
      sd_causes = {cause}, sd_activity_seq = 0, sd_quick_reconcile_at = now + 250,
      sd_final_reconcile_at = None\<rparr>"

definition sync_debt_merge :: "core_field list \<Rightarrow> sync_cause \<Rightarrow> sync_debt \<Rightarrow> sync_debt" where
  "sync_debt_merge fs cause d =
     d\<lparr>sd_fields := sd_fields d \<union> set fs, sd_causes := insert cause (sd_causes d)\<rparr>"

definition note_activity :: "monotonic_millis \<Rightarrow> sync_debt \<Rightarrow> sync_debt" where
  "note_activity now d =
     d\<lparr>sd_activity_seq := saturating_add (sd_activity_seq d) 1, sd_quick_reconcile_at := now + 250\<rparr>"

definition defer_final_until :: "monotonic_millis \<Rightarrow> sync_debt \<Rightarrow> sync_debt" where
  "defer_final_until at d =
     d\<lparr>sd_final_reconcile_at :=
        Some (case sd_final_reconcile_at d of None \<Rightarrow> at | Some current \<Rightarrow> max current at)\<rparr>"

definition defer_quick_until :: "monotonic_millis \<Rightarrow> sync_debt \<Rightarrow> sync_debt" where
  "defer_quick_until at d = d\<lparr>sd_quick_reconcile_at := at\<rparr>"

definition quick_due :: "monotonic_millis \<Rightarrow> sync_debt \<Rightarrow> bool" where
  "quick_due now d = (now \<ge> sd_quick_reconcile_at d)"

definition final_due :: "monotonic_millis \<Rightarrow> sync_debt \<Rightarrow> bool" where
  "final_due now d = (case sd_final_reconcile_at d of None \<Rightarrow> False | Some deadline \<Rightarrow> now \<ge> deadline)"

definition debt_is_for :: "receiver_id \<Rightarrow> epoch \<Rightarrow> sync_debt \<Rightarrow> bool" where
  "debt_is_for receiver e d = (sd_receiver d = receiver \<and> sd_epoch d = e)"

definition settle_field :: "core_field \<Rightarrow> sync_debt \<Rightarrow> sync_debt" where
  "settle_field field d = d\<lparr>sd_fields := sd_fields d - {field}\<rparr>"

definition debt_settled :: "sync_debt \<Rightarrow> bool" where
  "debt_settled d = (sd_fields d = {})"

section \<open>Transmission spacing\<close>

record transmission_schedule =
  ts_minimum_interval_ms :: u64
  ts_power_on_quiet_ms :: u64
  ts_last_transmission :: "monotonic_millis option"
  ts_quiet_until :: "monotonic_millis option"

definition schedule_default :: transmission_schedule where
  "schedule_default =
     \<lparr>ts_minimum_interval_ms = 50, ts_power_on_quiet_ms = 1000, ts_last_transmission = None,
      ts_quiet_until = None\<rparr>"

definition next_allowed_at :: "transmission_schedule \<Rightarrow> monotonic_millis \<Rightarrow> monotonic_millis" where
  "next_allowed_at s now =
     (let interval_due = (case ts_last_transmission s of
             Some prev \<Rightarrow> saturating_add prev (ts_minimum_interval_ms s) | None \<Rightarrow> now);
          quiet_due = (case ts_quiet_until s of Some u \<Rightarrow> u | None \<Rightarrow> now)
      in max interval_due quiet_due)"

definition schedule_record ::
  "string \<Rightarrow> monotonic_millis \<Rightarrow> transmission_schedule \<Rightarrow> transmission_schedule" where
  "schedule_record command sent_at s =
     (let s' = s\<lparr>ts_last_transmission := Some sent_at\<rparr> in
      if command = ''PWON''
      then s'\<lparr>ts_quiet_until := Some (saturating_add sent_at (ts_power_on_quiet_ms s))\<rparr>
      else if (case ts_quiet_until s of Some until \<Rightarrow> sent_at \<ge> until | None \<Rightarrow> False)
      then s'\<lparr>ts_quiet_until := None\<rparr>
      else s')"

text \<open>
  A driver that respects the schedule sends each command no earlier than
  \<open>next_allowed_at\<close> says, and records it.
\<close>

fun paced :: "transmission_schedule \<Rightarrow> (string \<times> monotonic_millis) list \<Rightarrow> bool" where
  "paced s [] = True"
| "paced s ((c, t) # rest) = (next_allowed_at s t \<le> t \<and> paced (schedule_record c t s) rest)"

lemma next_allowed_quiet: "ts_quiet_until s = Some u \<Longrightarrow> next_allowed_at s t \<le> t \<Longrightarrow> u \<le> t"
  by (simp add: next_allowed_at_def Let_def)

lemma next_allowed_interval:
  "ts_last_transmission s = Some l \<Longrightarrow> next_allowed_at s t \<le> t \<Longrightarrow>
   saturating_add l (ts_minimum_interval_ms s) \<le> t"
  by (simp add: next_allowed_at_def Let_def)

lemma schedule_record_frame [frame_simps, simp]:
  "ts_minimum_interval_ms (schedule_record c t s) = ts_minimum_interval_ms s"
  "ts_power_on_quiet_ms (schedule_record c t s) = ts_power_on_quiet_ms s"
  "ts_last_transmission (schedule_record c t s) = Some t"
  by (simp_all add: schedule_record_def Let_def)

text \<open>Every later transmission of a paced sequence keeps the interval after the last one.\<close>

lemma paced_after_last:
  "paced s sends \<Longrightarrow> ts_last_transmission s = Some l \<Longrightarrow> (c, t) \<in> set sends \<Longrightarrow>
   saturating_add l (ts_minimum_interval_ms s) \<le> t"
proof (induction sends arbitrary: s l)
  case (Cons x rest)
  obtain d u where x: "x = (d, u)" by (cases x)
  from Cons.prems x have now: "saturating_add l (ts_minimum_interval_ms s) \<le> u"
    by (auto intro: next_allowed_interval)
  show ?case
  proof (cases "(c, t) = x")
    case True
    with now x show ?thesis by simp
  next
    case False
    with Cons.prems have "(c, t) \<in> set rest" by simp
    with Cons.IH [of "schedule_record d u s" u] Cons.prems x
    have "saturating_add u (ts_minimum_interval_ms s) \<le> t" by simp
    with saturating_add_ge [of u "ts_minimum_interval_ms s"] now show ?thesis by simp
  qed
qed simp

lemma paced_quiet:
  "paced s sends \<Longrightarrow> ts_quiet_until s = Some q \<Longrightarrow> (c, t) \<in> set sends \<Longrightarrow> q \<le> t"
proof (cases sends)
  case (Cons x rest)
  obtain d u where x: "x = (d, u)" by (cases x)
  assume *: "paced s sends" "ts_quiet_until s = Some q" "(c, t) \<in> set sends"
  with Cons x have "q \<le> u" by (auto intro: next_allowed_quiet)
  moreover have "u \<le> t"
  proof (cases "(c, t) = x")
    case False
    with * Cons x paced_after_last [of "schedule_record d u s" rest u c t]
    have "saturating_add u (ts_minimum_interval_ms s) \<le> t" by auto
    with saturating_add_ge [of u "ts_minimum_interval_ms s"] show ?thesis by simp
  qed (use x in simp)
  ultimately show ?thesis by simp
qed simp

lemma paced_append:
  "paced s (xs @ ys) \<longleftrightarrow> paced s xs \<and> paced (foldl (\<lambda>s (c, t). schedule_record c t s) s xs) ys"
  by (induction s xs rule: paced.induct) auto

lemma foldl_schedule_record_frame:
  "ts_minimum_interval_ms (foldl (\<lambda>s (c, t). schedule_record c t s) s xs) = ts_minimum_interval_ms s"
  "ts_power_on_quiet_ms (foldl (\<lambda>s (c, t). schedule_record c t s) s xs) = ts_power_on_quiet_ms s"
  by (induction xs arbitrary: s) (simp_all add: split_beta)

text \<open>
  In a sequence of transmissions that respects the schedule, any two are at least the
  minimum interval apart, and nothing is sent inside the quiet period after a \<open>PWON\<close>.
\<close>

theorem paced_spacing:
  assumes "paced s (before @ (c, t) # between @ (d, u) # after)"
  shows "saturating_add t (ts_minimum_interval_ms s) \<le> u
       \<and> (c = ''PWON'' \<longrightarrow> saturating_add t (ts_power_on_quiet_ms s) \<le> u)"
proof -
  define p where "p = foldl (\<lambda>s (c, t). schedule_record c t s) s before"
  from assms have *: "paced (schedule_record c t p) (between @ (d, u) # after)"
    by (simp add: paced_append p_def)
  have frame: "ts_minimum_interval_ms p = ts_minimum_interval_ms s"
    "ts_power_on_quiet_ms p = ts_power_on_quiet_ms s"
    by (simp_all add: p_def foldl_schedule_record_frame)
  from paced_after_last [OF *, of t d u] have "saturating_add t (ts_minimum_interval_ms s) \<le> u"
    by (simp add: frame)
  moreover have "saturating_add t (ts_power_on_quiet_ms s) \<le> u" if "c = ''PWON''"
    using paced_quiet [OF *, of "saturating_add t (ts_power_on_quiet_ms s)" d u] that
    by (simp add: schedule_record_def Let_def frame)
  ultimately show ?thesis by simp
qed

theorem paced_spacing_witness:
  "paced schedule_default [(''PWON'', 0), (''MV?'', 1000), (''SI?'', 1050)]
   \<and> saturating_add 0 (ts_power_on_quiet_ms schedule_default) \<le> (1000 :: u64)"
proof -
  have *: "paced schedule_default [(''PWON'', 0), (''MV?'', 1000), (''SI?'', 1050)]"
    by (simp add: schedule_default_def schedule_record_def next_allowed_at_def saturating_add_def)
  then have "saturating_add 0 (ts_power_on_quiet_ms schedule_default) \<le> (1000 :: u64)"
    using paced_spacing [of schedule_default "[]" "''PWON''" 0 "[]" "''MV?''" 1000
      "[(''SI?'', 1050)]"] by simp
  with * show ?thesis by simp
qed

end
