(* ===== verification/Capabilities.thy ===== *)
theory Capabilities
  imports Domain_Values
begin

text \<open>
  \<open>crates/domain/src/capabilities.rs\<close>: what a receiver model can do. The \<open>&'static str\<close>
  tables are lists of strings; \<open>MainZoneControl\<close> of \<open>main_zone.rs\<close> is the request a
  capability is checked against.
\<close>

datatype model = AvrX3800h | UnknownModel

definition normalize_model :: "string \<Rightarrow> string" where
  "normalize_model v = filter (\<lambda>c. c \<noteq> CHR '' '' \<and> c \<noteq> CHR ''-'') (map to_ascii_uppercase v)"

fun contains_str :: "string \<Rightarrow> string \<Rightarrow> bool" where
  "contains_str [] p = (p = [])"
| "contains_str (c # cs) p = (starts_with (c # cs) p \<or> contains_str cs p)"

definition model_from_reported :: "string \<Rightarrow> model" where
  "model_from_reported v =
     (let normalized = normalize_model v in
      if contains_str normalized ''AVRX3800H'' \<or> contains_str normalized ''AVCX3800H''
      then AvrX3800h else UnknownModel)"

datatype main_zone_control =
    CtlPower power_state
  | CtlInput input
  | CtlVolume volume_level
  | CtlMute mute_state
  | CtlSurroundMode surround_mode
  | CtlSelectSoundMode sound_mode_category surround_mode
  | CtlRecallSoundModeCategory sound_mode_category

record model_capabilities =
  cap_model :: model
  cap_tcp_avr_port :: nat
  cap_heos_cli_port :: nat
  cap_supports_heos_secure_cli :: "bool option"
  cap_needs_live_validation :: bool
  cap_writable :: bool
  cap_native_volume_min :: nat
  cap_native_volume_max :: nat
  cap_inputs :: "string list"
  cap_surround_modes :: "string list"
  cap_quick_select_names :: bool
  cap_source_catalog_read :: bool
  cap_http_information_read :: bool
  cap_zone2_power :: bool

definition X3800H_INPUTS :: "string list" where
  "X3800H_INPUTS =
     [''PHONO'', ''CD'', ''TUNER'', ''DVD'', ''BD'', ''GAME'', ''MEDIA PLAYER'', ''TV AUDIO'',
      ''AUX1'', ''AUX2'', ''AUX3'', ''AUX4'', ''AUX5'', ''AUX6'', ''AUX7'']"

definition X3800H_SURROUND_MODES :: "string list" where
  "X3800H_SURROUND_MODES =
     [''DIRECT'', ''PURE DIRECT'', ''STEREO'', ''MULTI CH IN'', ''DOLBY SURROUND'', ''MCH STEREO'',
      ''MONO MOVIE'', ''ROCK ARENA'', ''JAZZ CLUB'', ''MATRIX'', ''VIDEO GAME'', ''DTS NEURAL:X'',
      ''DTS VIRTUAL:X'', ''AURO-3D'', ''VIRTUAL'', ''AUTO'']"

definition X3800H_MOVIE_MODES :: "string list" where
  "X3800H_MOVIE_MODES =
     [''DOLBY SURROUND'', ''DTS NEURAL:X'', ''DTS VIRTUAL:X'', ''AURO-3D'', ''MULTI CH IN'',
      ''MONO MOVIE'', ''VIRTUAL'']"

definition X3800H_MUSIC_MODES :: "string list" where
  "X3800H_MUSIC_MODES =
     [''STEREO'', ''DOLBY SURROUND'', ''DTS NEURAL:X'', ''DTS VIRTUAL:X'', ''AURO-3D'',
      ''MULTI CH IN'', ''MCH STEREO'', ''ROCK ARENA'', ''JAZZ CLUB'', ''MATRIX'']"

definition X3800H_GAME_MODES :: "string list" where
  "X3800H_GAME_MODES =
     [''DOLBY SURROUND'', ''DTS NEURAL:X'', ''DTS VIRTUAL:X'', ''AURO-3D'', ''MULTI CH IN'',
      ''MCH STEREO'', ''VIDEO GAME'']"

definition X3800H_PURE_MODES :: "string list" where
  "X3800H_PURE_MODES = [''AUTO'', ''DIRECT'', ''PURE DIRECT'', ''STEREO'']"

lemmas x3800h_tables =
  X3800H_INPUTS_def X3800H_SURROUND_MODES_def X3800H_MOVIE_MODES_def X3800H_MUSIC_MODES_def
  X3800H_GAME_MODES_def X3800H_PURE_MODES_def

definition supports_x3800h_source :: "string \<Rightarrow> bool" where
  "supports_x3800h_source v = list_ex (\<lambda>c. eq_ignore_ascii_case c v) X3800H_INPUTS"

definition canonical_x3800h_source :: "string \<Rightarrow> string option" where
  "canonical_x3800h_source v = List.find (\<lambda>c. eq_ignore_ascii_case c v) X3800H_INPUTS"

definition supports_x3800h_sound_mode :: "string \<Rightarrow> bool" where
  "supports_x3800h_sound_mode v =
     list_ex (\<lambda>c. eq_ignore_ascii_case c v)
       (concat [X3800H_MOVIE_MODES, X3800H_MUSIC_MODES, X3800H_GAME_MODES, X3800H_PURE_MODES])"

fun category_modes :: "sound_mode_category \<Rightarrow> string list" where
  "category_modes Movie = X3800H_MOVIE_MODES"
| "category_modes Music = X3800H_MUSIC_MODES"
| "category_modes Game = X3800H_GAME_MODES"
| "category_modes Pure = X3800H_PURE_MODES"

definition x3800h_sound_mode_in_category :: "string \<Rightarrow> sound_mode_category \<Rightarrow> bool" where
  "x3800h_sound_mode_in_category v category =
     list_ex (\<lambda>c. eq_ignore_ascii_case c v) (category_modes category)"

definition for_model :: "model \<Rightarrow> model_capabilities" where
  "for_model m =
     (let writable = (m = AvrX3800h) in
      \<lparr>cap_model = m, cap_tcp_avr_port = 23, cap_heos_cli_port = 1255,
       cap_supports_heos_secure_cli = None, cap_needs_live_validation = writable,
       cap_writable = writable, cap_native_volume_min = 0, cap_native_volume_max = 985,
       cap_inputs = (if writable then X3800H_INPUTS else []),
       cap_surround_modes = (if writable then X3800H_SURROUND_MODES else []),
       cap_quick_select_names = (m = AvrX3800h), cap_source_catalog_read = (m = AvrX3800h),
       cap_http_information_read = (m = AvrX3800h), cap_zone2_power = (m = AvrX3800h)\<rparr>)"

definition supports_control :: "model_capabilities \<Rightarrow> main_zone_control \<Rightarrow> bool" where
  "supports_control c control =
     (if \<not> cap_writable c \<and> \<not> (case control of CtlVolume _ \<Rightarrow> True | _ \<Rightarrow> False) then False
      else case control of
        CtlPower _ \<Rightarrow> True
      | CtlMute _ \<Rightarrow> True
      | CtlVolume level \<Rightarrow>
          (let code = volume_level_to_native_code level in
           code \<ge> cap_native_volume_min c \<and> code \<le> cap_native_volume_max c)
      | CtlInput v \<Rightarrow> List.member (cap_inputs c) (input_str v)
      | CtlSurroundMode v \<Rightarrow> List.member (cap_surround_modes c) (surround_mode_str v)
      | CtlSelectSoundMode _ mode \<Rightarrow> List.member (cap_surround_modes c) (surround_mode_str mode)
      | CtlRecallSoundModeCategory _ \<Rightarrow> cap_model c = AvrX3800h)"

definition sound_modes :: "model_capabilities \<Rightarrow> sound_mode_category \<Rightarrow> string list" where
  "sound_modes c category = (if \<not> cap_writable c then [] else category_modes category)"

definition volume_level_from_native :: "model_capabilities \<Rightarrow> nat \<Rightarrow> (volume_level, string) result" where
  "volume_level_from_native c code =
     (if code < cap_native_volume_min c \<or> code > cap_native_volume_max c
      then Err ''native volume code is outside model capability range''
      else volume_level_from_native_code code)"

definition capability_input :: "model_capabilities \<Rightarrow> string \<Rightarrow> (input, string) result" where
  "capability_input c v =
     (case input_new v of
        Err e \<Rightarrow> Err e
      | Ok i \<Rightarrow> if List.member (cap_inputs c) (input_str i) then Ok i
               else Err ''input is not supported by this receiver'')"

definition capability_surround_mode :: "model_capabilities \<Rightarrow> string \<Rightarrow> (surround_mode, string) result" where
  "capability_surround_mode c v =
     (case surround_mode_new v of
        Err e \<Rightarrow> Err e
      | Ok m \<Rightarrow> if List.member (cap_surround_modes c) (surround_mode_str m) then Ok m
               else Err ''surround mode is not supported by this receiver'')"

section \<open>The tables agree\<close>

lemma canonical_x3800h_source_Some:
  "canonical_x3800h_source v = Some c \<Longrightarrow> c \<in> set X3800H_INPUTS \<and> eq_ignore_ascii_case c v"
  by (auto simp: canonical_x3800h_source_def dest: find_SomeD)

lemma supports_source_iff_canonical:
  "supports_x3800h_source v \<longleftrightarrow> canonical_x3800h_source v \<noteq> None"
  by (auto simp: supports_x3800h_source_def canonical_x3800h_source_def find_None_iff list_ex_iff)

lemma category_modes_listed: "set (category_modes category) \<subseteq> set X3800H_SURROUND_MODES"
  by (cases category) (simp_all add: x3800h_tables)

lemma in_category_supported:
  "x3800h_sound_mode_in_category v category \<Longrightarrow> supports_x3800h_sound_mode v"
  by (cases category) (auto simp: x3800h_sound_mode_in_category_def supports_x3800h_sound_mode_def)

lemma supported_in_category:
  "supports_x3800h_sound_mode v \<Longrightarrow> \<exists>category. x3800h_sound_mode_in_category v category"
proof -
  assume "supports_x3800h_sound_mode v"
  then obtain category where "list_ex (\<lambda>c. eq_ignore_ascii_case c v) (category_modes category)"
    unfolding supports_x3800h_sound_mode_def
    by (auto simp: list_ex_iff) (metis category_modes.simps)+
  then show ?thesis by (auto simp: x3800h_sound_mode_in_category_def)
qed

lemma sound_modes_selectable:
  "mode \<in> set (sound_modes (for_model m) category) \<Longrightarrow>
   supports_control (for_model m) (CtlSelectSoundMode category (SurroundMode mode))"
  using category_modes_listed [of category]
  by (auto simp: sound_modes_def supports_control_def for_model_def Let_def split: if_splits)

text \<open>An unknown model takes nothing but a bounded Main Zone volume.\<close>

lemma unknown_model_controls:
  "supports_control (for_model UnknownModel) control \<longleftrightarrow>
     (\<exists>level. control = CtlVolume level \<and> volume_level_to_native_code level \<le> 985)"
  by (cases control) (simp_all add: supports_control_def for_model_def Let_def)

end
