(* ===== verification/Avr_Protocol.thy ===== *)
theory Avr_Protocol
  imports Receiver_State Capabilities
begin

text \<open>
  The AVR control protocol of \<open>crates/protocol\<close>: validated commands and their framing
  (\<open>avr/command.rs\<close>), the correlation of answers with queries (\<open>avr/response.rs\<close>), the
  strict X3800H profile that encodes intents and parses lines (\<open>avr/x3800h.rs\<close>), its
  conversion to core frames (\<open>x3800h_reducer.rs\<close> of the infrastructure crate), and the
  HEOS line framing (\<open>heos.rs\<close>).
\<close>

section \<open>Commands\<close>

datatype avr_protocol_error =
  InvalidCommand string | InvalidVolume string | MalformedResponse string

fun protocol_error_fmt :: "avr_protocol_error \<Rightarrow> string" where
  "protocol_error_fmt (InvalidCommand m) = m"
| "protocol_error_fmt (InvalidVolume m) = m"
| "protocol_error_fmt (MalformedResponse m) = m"

datatype avr_command = AvrCommand (avr_command_str: string)

definition CR :: char where [text_defs]: "CR = CHR 0x0D"
definition LF :: char where [text_defs]: "LF = CHR 0x0A"

definition avr_command_new :: "string \<Rightarrow> (avr_command, avr_protocol_error) result" where
  "avr_command_new command =
     (if command = [] then Err (InvalidCommand ''command is empty'')
      else if list_ex (\<lambda>c. c = CR \<or> c = LF) command
      then Err (InvalidCommand ''command contains a line break'')
      else Ok (AvrCommand command))"

definition avr_command_as_bytes :: "avr_command \<Rightarrow> string" where
  "avr_command_as_bytes c = avr_command_str c @ [CR]"

section \<open>Responses\<close>

definition get_command_family :: "string \<Rightarrow> string" where
  "get_command_family command = trim_end (takeWhile (\<lambda>c. c \<noteq> CHR ''?'') command)"

definition response_matches :: "string \<Rightarrow> string \<Rightarrow> bool" where
  "response_matches family response =
     (case strip_prefix family response of
        None \<Rightarrow> False
      | Some suffix \<Rightarrow> family \<noteq> ''MV'' \<or> suffix = ''---''
          \<or> (suffix \<noteq> [] \<and> list_all is_ascii_digit suffix))"

section \<open>The X3800H profile\<close>

datatype x3800h_frame =
    XSystemPower system_power
  | XMainZonePower zone_power
  | XZone2Power zone_power
  | XSource source_id
  | XVolume master_volume
  | XMute mute_state
  | XSoundMode sound_mode_status
  | XVolumeUnavailable
  | XVolumeLimit string
  | XUnknown string

fun query_text :: "receiver_intent \<Rightarrow> string" where
  "query_text (ISystemPower _) = ''PW?''"
| "query_text (IMainZonePower _) = ''ZM?''"
| "query_text (IZone2Power _) = ''Z2?''"
| "query_text (ISource _) = ''SI?''"
| "query_text (IVolume _) = ''MV?''"
| "query_text (IMute _) = ''MU?''"
| "query_text (ISoundMode _) = ''MS?''"

text \<open>\<open>query\<close> unwraps the validation; its \<open>expect\<close> panics on an error, which is \<open>None\<close> here.\<close>

definition query :: "receiver_intent \<Rightarrow> avr_command option" where
  "query intent = (case avr_command_new (query_text intent) of Ok c \<Rightarrow> Some c | Err _ \<Rightarrow> None)"

fun volume_command :: "master_volume \<Rightarrow> (string, avr_protocol_error) result" where
  "volume_command Minimum = Ok ''MVMIN''"
| "volume_command (DbHalfSteps step) =
     (if \<not> (LOWEST_HALF_STEP \<le> step \<and> step \<le> HIGHEST_HALF_STEP)
      then Err (InvalidVolume ''volume is outside X3800H range'')
      else let native = nat (step + 160);
               whole = native div 2
           in Ok (if native mod 2 = 0 then ''MV'' @ show_02 whole else ''MV'' @ show_02 whole @ ''5''))"

fun sound_mode_command :: "sound_mode_intent \<Rightarrow> (string, avr_protocol_error) result" where
  "sound_mode_command Auto = Ok ''MSAUTO''"
| "sound_mode_command Direct = Ok ''MSDIRECT''"
| "sound_mode_command PureDirect = Ok ''MSPURE DIRECT''"
| "sound_mode_command Stereo = Ok ''MSSTEREO''"
| "sound_mode_command RecallMovie = Ok ''MSMOVIE''"
| "sound_mode_command RecallMusic = Ok ''MSMUSIC''"
| "sound_mode_command RecallGame = Ok ''MSGAME''"
| "sound_mode_command (Select v) =
     (if \<not> is_blank v \<and> \<not> has_control v then Ok (''MS'' @ v)
      else Err (InvalidCommand ''sound mode is empty or contains controls''))"

fun command_text :: "receiver_intent \<Rightarrow> (string, avr_protocol_error) result" where
  "command_text (ISystemPower SystemOn) = Ok ''PWON''"
| "command_text (ISystemPower SystemStandby) = Ok ''PWSTANDBY''"
| "command_text (IMainZonePower ZoneOn) = Ok ''ZMON''"
| "command_text (IMainZonePower ZoneOff) = Ok ''ZMOFF''"
| "command_text (IZone2Power ZoneOn) = Ok ''Z2ON''"
| "command_text (IZone2Power ZoneOff) = Ok ''Z2OFF''"
| "command_text (ISource i) =
     (case canonical_x3800h_source (source_id_str i) of
        None \<Rightarrow> Err (InvalidCommand ''source is not supported by X3800H profile'')
      | Some c \<Rightarrow> Ok (''SI'' @ c))"
| "command_text (IVolume v) = volume_command v"
| "command_text (IMute MuteOn) = Ok ''MUON''"
| "command_text (IMute MuteOff) = Ok ''MUOFF''"
| "command_text (ISoundMode i) = sound_mode_command i"

definition encode :: "receiver_intent \<Rightarrow> (avr_command, avr_protocol_error) result" where
  "encode intent = (case command_text intent of Err e \<Rightarrow> Err e | Ok v \<Rightarrow> avr_command_new v)"

definition parse_volume :: "string \<Rightarrow> (master_volume, avr_protocol_error) result" where
  "parse_volume line =
     (if line = ''MVMIN'' then Ok Minimum
      else let code = drop 2 line;
               native = (if length code = 2 then map_option (\<lambda>w. w * 2) (parse_i16 code)
                         else if length code = 3 \<and> last code = CHR ''5''
                         then map_option (\<lambda>w. w * 2 + 1) (parse_i16 (take 2 code))
                         else None)
           in case native of
                None \<Rightarrow> Err (InvalidVolume ''invalid X3800H volume frame'')
              | Some n \<Rightarrow> (case db_half_steps (n - 160) of
                    Err e \<Rightarrow> Err (InvalidVolume e) | Ok v \<Rightarrow> Ok v))"

definition parse :: "string \<Rightarrow> (x3800h_frame, avr_protocol_error) result" where
  "parse line =
     (if line = ''PWON'' then Ok (XSystemPower SystemOn)
      else if line = ''PWSTANDBY'' then Ok (XSystemPower SystemStandby)
      else if line = ''ZMON'' then Ok (XMainZonePower ZoneOn)
      else if line = ''ZMOFF'' then Ok (XMainZonePower ZoneOff)
      else if line = ''Z2ON'' then Ok (XZone2Power ZoneOn)
      else if line = ''Z2OFF'' then Ok (XZone2Power ZoneOff)
      else if line = ''MUON'' then Ok (XMute MuteOn)
      else if line = ''MUOFF'' then Ok (XMute MuteOff)
      else if line = ''MV---'' then Ok XVolumeUnavailable
      else if starts_with line ''MVMAX '' then Ok (XVolumeLimit line)
      else if starts_with line ''MV'' then
        (case parse_volume line of Err e \<Rightarrow> Err e | Ok v \<Rightarrow> Ok (XVolume v))
      else if starts_with line ''SI'' then
        (case source_id_new (drop 2 line) of
           Err e \<Rightarrow> Err (MalformedResponse e) | Ok i \<Rightarrow> Ok (XSource i))
      else if starts_with line ''MS'' \<and> length line > 2 then
        Ok (XSoundMode \<lparr>sms_id = drop 2 line, sms_raw = drop 2 line\<rparr>)
      else Ok (XUnknown line))"

fun core_frame_of :: "x3800h_frame \<Rightarrow> core_frame option" where
  "core_frame_of (XSystemPower v) = Some (CSystemPower v)"
| "core_frame_of (XMainZonePower v) = Some (CMainZonePower v)"
| "core_frame_of (XZone2Power v) = Some (CZone2Power v)"
| "core_frame_of (XSource v) = Some (CSource v)"
| "core_frame_of (XVolume v) = Some (CVolume v)"
| "core_frame_of (XMute v) = Some (CMute v)"
| "core_frame_of (XSoundMode v) = Some (CSoundMode v)"
| "core_frame_of XVolumeUnavailable = Some (CVolumeUnavailable ''MV---'')"
| "core_frame_of (XVolumeLimit _) = None"
| "core_frame_of (XUnknown _) = None"

section \<open>Encoding and parsing\<close>

lemma avr_command_new_Ok:
  "avr_command_new v = Ok c \<longleftrightarrow> c = AvrCommand v \<and> v \<noteq> [] \<and> CR \<notin> set v \<and> LF \<notin> set v"
  by (auto simp: avr_command_new_def list_ex_iff)

lemma query_total: "query intent = Some (AvrCommand (query_text intent))"
proof -
  have "avr_command_new (query_text intent) = Ok (AvrCommand (query_text intent))"
    by (cases intent) (simp_all add: avr_command_new_Ok CR_def LF_def)
  then show ?thesis by (simp add: query_def)
qed

lemma encode_Ok:
  "encode intent = Ok c \<Longrightarrow>
   command_text intent = Ok (avr_command_str c) \<and> CR \<notin> set (avr_command_str c) \<and> LF \<notin> set (avr_command_str c)
   \<and> avr_command_str c \<noteq> []"
  by (auto simp: encode_def avr_command_new_Ok split: sum.splits)

definition native_steps :: "string \<Rightarrow> int option" where
  "native_steps code =
     (if length code = 2 then map_option (\<lambda>w. w * 2) (parse_i16 code)
      else if length code = 3 \<and> last code = CHR ''5''
      then map_option (\<lambda>w. w * 2 + 1) (parse_i16 (take 2 code))
      else None)"

lemma parse_volume_native:
  "parse_volume (CHR ''M'' # CHR ''V'' # code) =
     (if code = ''MIN'' then Ok Minimum
      else case native_steps code of
             None \<Rightarrow> Err (InvalidVolume ''invalid X3800H volume frame'')
           | Some n \<Rightarrow> (case db_half_steps (n - 160) of Err e \<Rightarrow> Err (InvalidVolume e) | Ok v \<Rightarrow> Ok v))"
  by (simp add: parse_volume_def native_steps_def)

lemma volume_command_code:
  assumes "volume_command (DbHalfSteps step) = Ok text"
  obtains code where "text = ''MV'' @ code" "native_steps code = Some (step + 160)" "hd code \<noteq> CHR ''M''"
    "hd code \<noteq> CHR ''-''"
proof -
  define native where "native = nat (step + 160)"
  define code where "code = show_02 (native div 2) @ (if native mod 2 = 0 then [] else ''5'')"
  from assms have range: "LOWEST_HALF_STEP \<le> step \<and> step \<le> HIGHEST_HALF_STEP"
    and shape: "text = ''MV'' @ code"
    by (auto simp: native_def code_def Let_def split: if_splits)
  from range have native: "int native = step + 160" and "native < 200"
    by (auto simp: native_def LOWEST_HALF_STEP_def HIGHEST_HALF_STEP_def)
  then have half: "native div 2 < 100" by (simp add: less_mult_imp_div_less)
  have two: "10 * (native div 2 div 10 mod 10) + native div 2 mod 10 = native div 2"
    using half by (simp add: less_mult_imp_div_less)
  have "int (native div 2) * 2 + (if native mod 2 = 0 then 0 else 1) = int native"
    by (simp add: zdiv_int zmod_int) presburger
  then have "native_steps code = Some (step + 160)"
    using native half two
    by (simp add: native_steps_def code_def show_02_two parse_i16_two) (auto simp: parse_i16_two)
  moreover have "is_ascii_digit (hd code)" using half by (simp add: code_def show_02_two)
  then have "hd code \<noteq> CHR ''M''" "hd code \<noteq> CHR ''-''"
    by (auto simp: is_ascii_digit_def byte_def)
  ultimately show thesis using that shape by blast
qed

lemma parse_MV:
  "rest \<noteq> ''---'' \<Longrightarrow> \<not> starts_with rest ''MAX '' \<Longrightarrow>
   parse (CHR ''M'' # CHR ''V'' # rest) =
     (case parse_volume (CHR ''M'' # CHR ''V'' # rest) of Err e \<Rightarrow> Err e | Ok v \<Rightarrow> Ok (XVolume v))"
  by (simp add: parse_def)

lemma parse_MS:
  "rest \<noteq> [] \<Longrightarrow>
   parse (CHR ''M'' # CHR ''S'' # rest) = Ok (XSoundMode \<lparr>sms_id = rest, sms_raw = rest\<rparr>)"
  by (simp add: parse_def)

lemma parse_SI:
  "parse (CHR ''S'' # CHR ''I'' # rest) =
     (case source_id_new rest of Err e \<Rightarrow> Err (MalformedResponse e) | Ok i \<Rightarrow> Ok (XSource i))"
  by (simp add: parse_def)

lemma volume_roundtrip: "volume_command v = Ok t \<Longrightarrow> parse t = Ok (XVolume v)"
proof (cases v)
  case Minimum
  assume "volume_command v = Ok t"
  with Minimum have "t = ''MV'' @ ''MIN''" by simp
  with Minimum show ?thesis using parse_MV [of "''MIN''"] by (simp add: parse_volume_def)
next
  case (DbHalfSteps step)
  assume *: "volume_command v = Ok t"
  with DbHalfSteps obtain code where code: "t = ''MV'' @ code" "native_steps code = Some (step + 160)"
    "hd code \<noteq> CHR ''M''" "hd code \<noteq> CHR ''-''"
    using volume_command_code [of step t] by blast
  from * DbHalfSteps have "db_half_steps step = Ok v"
    by (simp add: db_half_steps_Ok split: if_splits)
  moreover from code(3,4) have "code \<noteq> ''MIN''" "code \<noteq> ''---''" "\<not> starts_with code ''MAX ''"
    by (auto simp: starts_with_iff)
  ultimately show ?thesis
    using code(1,2) by (simp add: parse_MV parse_volume_native)
qed

lemma sound_mode_command_shape:
  "sound_mode_command m = Ok t \<Longrightarrow> t = CHR ''M'' # CHR ''S'' # drop 2 t \<and> drop 2 t \<noteq> []"
proof (cases m)
  case (Select v)
  assume "sound_mode_command m = Ok t"
  with Select have "\<not> is_blank v" "t = ''MS'' @ v" by (simp_all split: if_splits)
  then show ?thesis by (cases v) simp_all
qed (drule sym, simp)+

lemma sound_mode_roundtrip:
  "sound_mode_command m = Ok t \<Longrightarrow>
   parse t = Ok (XSoundMode \<lparr>sms_id = drop 2 t, sms_raw = drop 2 t\<rparr>)"
  using sound_mode_command_shape [of m t] parse_MS [of "drop 2 t"] by simp

lemma canonical_source_valid:
  "canonical_x3800h_source v = Some c \<Longrightarrow> source_id_new c = Ok (SourceId c)"
proof -
  assume "canonical_x3800h_source v = Some c"
  then have "c \<in> set X3800H_INPUTS" by (simp add: canonical_x3800h_source_Some)
  moreover have "list_all (\<lambda>c. source_id_new c = Ok (SourceId c)) X3800H_INPUTS" by code_simp
  ultimately show ?thesis by (simp add: list_all_iff)
qed

text \<open>The frame a receiver that applies the command reports, as the profile reads it.\<close>

fun confirming_frame :: "receiver_intent \<Rightarrow> string \<Rightarrow> x3800h_frame" where
  "confirming_frame (ISystemPower v) t = XSystemPower v"
| "confirming_frame (IMainZonePower v) t = XMainZonePower v"
| "confirming_frame (IZone2Power v) t = XZone2Power v"
| "confirming_frame (ISource _) t = XSource (SourceId (drop 2 t))"
| "confirming_frame (IVolume v) t = XVolume v"
| "confirming_frame (IMute v) t = XMute v"
| "confirming_frame (ISoundMode _) t = XSoundMode \<lparr>sms_id = drop 2 t, sms_raw = drop 2 t\<rparr>"

text \<open>
  Whatever \<open>encode\<close> accepts is one CR-terminated line with no line break inside, and a
  receiver that echoes it is read back as exactly the requested value (for a source, its
  canonical spelling; for a sound mode, the text after \<open>MS\<close>), in the field of the intent.
\<close>

theorem encode_parse_roundtrip:
  assumes "encode intent = Ok c"
  shows "parse (avr_command_str c) = Ok (confirming_frame intent (avr_command_str c))
       \<and> map_option frame_field (core_frame_of (confirming_frame intent (avr_command_str c)))
           = Some (intent_field intent)
       \<and> CR \<notin> set (avr_command_str c) \<and> LF \<notin> set (avr_command_str c)
       \<and> avr_command_as_bytes c = avr_command_str c @ [CR]"
proof -
  from encode_Ok [OF assms] have ct: "command_text intent = Ok (avr_command_str c)"
    and breaks: "CR \<notin> set (avr_command_str c)" "LF \<notin> set (avr_command_str c)" by simp_all
  have "parse (avr_command_str c) = Ok (confirming_frame intent (avr_command_str c))"
  proof (cases intent)
    case (ISystemPower p)
    with ct show ?thesis by (cases p) (auto simp: parse_def)
  next
    case (IMainZonePower p)
    with ct show ?thesis by (cases p) (auto simp: parse_def)
  next
    case (IZone2Power p)
    with ct show ?thesis by (cases p) (auto simp: parse_def)
  next
    case (ISource i)
    with ct obtain d where "canonical_x3800h_source (source_id_str i) = Some d"
      "avr_command_str c = ''SI'' @ d" by (auto split: option.splits)
    with ISource canonical_source_valid show ?thesis by (simp add: parse_SI)
  next
    case (IVolume v)
    with ct volume_roundtrip show ?thesis by simp
  next
    case (IMute m)
    with ct show ?thesis by (cases m) (auto simp: parse_def)
  next
    case (ISoundMode m)
    with ct sound_mode_roundtrip show ?thesis by simp
  qed
  moreover have "map_option frame_field (core_frame_of (confirming_frame intent (avr_command_str c)))
      = Some (intent_field intent)"
    by (cases intent) simp_all
  ultimately show ?thesis using breaks by (simp add: avr_command_as_bytes_def)
qed

theorem encode_parse_roundtrip_witness:
  "encode (IVolume (DbHalfSteps (- 159))) = Ok (AvrCommand ''MV005'')
   \<and> parse ''MV005'' = Ok (XVolume (DbHalfSteps (- 159)))"
proof -
  have "encode (IVolume (DbHalfSteps (- 159))) = Ok (AvrCommand ''MV005'')" by code_simp
  with encode_parse_roundtrip [OF this] show ?thesis by simp
qed

text \<open>
  The answer to a volume query that \<open>response_matches\<close> admits and the profile reads as a
  volume is the one canonical spelling of that volume: the command that would set it.
\<close>

theorem volume_answer_canonical:
  assumes "response_matches ''MV'' line" and "parse line = Ok (XVolume v)"
  shows "master_volume_in_range v \<and> volume_command v = Ok line"
proof -
  from assms obtain code where line: "line = ''MV'' @ code"
    and digits: "code = ''---'' \<or> (code \<noteq> [] \<and> list_all is_ascii_digit code)"
    by (auto simp: response_matches_def strip_prefix_def starts_with_iff split: if_splits)
  from assms(2) line have "code \<noteq> ''---''" by (auto simp: parse_def)
  with digits have d: "code \<noteq> []" "list_all is_ascii_digit code" by simp_all
  then have "code \<noteq> ''MIN''" "\<not> starts_with code ''MAX ''"
    by (auto simp: starts_with_iff is_ascii_digit_def byte_def)
  with assms(2) line \<open>code \<noteq> ''---''\<close> have "parse_volume line = Ok v"
    by (auto simp: parse_def split: sum.splits)
  with line \<open>code \<noteq> ''MIN''\<close> obtain n where n: "native_steps code = Some n" "db_half_steps (n - 160) = Ok v"
    by (auto simp: parse_volume_native  split: option.splits sum.splits)
  then have v: "v = DbHalfSteps (n - 160)" "master_volume_in_range v" by (auto simp: db_half_steps_Ok)
  from n(1) d obtain a b rest where code: "code = a # b # rest" "is_ascii_digit a" "is_ascii_digit b"
    "rest = [] \<or> rest = ''5''"
    by (auto simp: native_steps_def length_Suc_conv numeral_2_eq_2 numeral_3_eq_3 split: if_splits)
  define w where "w = 10 * digit_value a + digit_value b"
  have "digit_value a < 10" "digit_value b < 10" using code digit_value_less by auto
  then have w: "w < 100" "w div 10 = digit_value a" "w mod 10 = digit_value b" by (simp_all add: w_def)
  then have show_w: "show_02 w = [a, b]"
    using code(2,3) digit_char_digit_value [of a] digit_char_digit_value [of b]
    by (simp add: show_02_two digit_char_eq [of w] digit_char_eq [of "digit_value b"])
  from n(1) code have "n = 2 * int w + (if rest = [] then 0 else 1)"
    by (auto simp: native_steps_def parse_i16_two w_def)
  then have "n = int (2 * w + (if rest = [] then 0 else 1))" by simp
  then have "nat n = 2 * w + (if rest = [] then 0 else 1)" by (simp only: nat_int)
  then have "nat n div 2 = w" "nat n mod 2 = (if rest = [] then 0 else 1)" by simp_all
  with v line code show_w show ?thesis by (auto simp: Let_def)
qed

theorem volume_answer_canonical_witness:
  "response_matches ''MV'' ''MV805'' \<and> volume_command (DbHalfSteps 1) = Ok ''MV805''"
proof -
  have "response_matches ''MV'' ''MV805''" "parse ''MV805'' = Ok (XVolume (DbHalfSteps 1))"
    by code_simp+
  with volume_answer_canonical [OF this] show ?thesis by blast
qed

section \<open>HEOS lines\<close>

datatype heos_command = HeosCommand string
datatype heos_line = Json string | Raw string
datatype heos_protocol_error = HeosInvalidCommand | HeosInvalidUtf8 | HeosEmptyLine

definition heos_command_new :: "string \<Rightarrow> (heos_command, heos_protocol_error) result" where
  "heos_command_new command =
     (if command = [] \<or> list_ex (\<lambda>c. c = CR \<or> c = LF) command then Err HeosInvalidCommand
      else if \<not> starts_with command ''heos://'' then Err HeosInvalidCommand
      else Ok (HeosCommand command))"

fun heos_as_bytes :: "heos_command \<Rightarrow> string" where
  "heos_as_bytes (HeosCommand c) = c @ [CR, LF]"

text \<open>
  \<open>std::str::from_utf8\<close>: the well-formed byte sequences of the Unicode standard, without
  overlong forms, surrogates or values above U+10FFFF.
\<close>

definition in_byte_range :: "nat \<Rightarrow> nat \<Rightarrow> char \<Rightarrow> bool" where
  "in_byte_range lo hi c = (lo \<le> byte c \<and> byte c \<le> hi)"

fun utf8_tail :: "char \<Rightarrow> string \<Rightarrow> string option" where
  "utf8_tail a (b # c # d # rest) =
     (if byte a < 128 then Some (b # c # d # rest)
      else if in_byte_range 194 223 a then (if is_cont b then Some (c # d # rest) else None)
      else if in_byte_range 224 239 a then
        (if in_byte_range (if byte a = 224 then 160 else 128) (if byte a = 237 then 159 else 191) b
            \<and> is_cont c then Some (d # rest) else None)
      else if in_byte_range 240 244 a then
        (if in_byte_range (if byte a = 240 then 144 else 128) (if byte a = 244 then 143 else 191) b
            \<and> is_cont c \<and> is_cont d then Some rest else None)
      else None)"
| "utf8_tail a [b, c] =
     (if byte a < 128 then Some [b, c]
      else if in_byte_range 194 223 a then (if is_cont b then Some [c] else None)
      else if in_byte_range 224 239 a then
        (if in_byte_range (if byte a = 224 then 160 else 128) (if byte a = 237 then 159 else 191) b
            \<and> is_cont c then Some [] else None)
      else None)"
| "utf8_tail a [b] =
     (if byte a < 128 then Some [b]
      else if in_byte_range 194 223 a \<and> is_cont b then Some [] else None)"
| "utf8_tail a [] = (if byte a < 128 then Some [] else None)"

lemma utf8_tail_shorter: "utf8_tail a bs = Some rest \<Longrightarrow> length rest \<le> length bs"
  by (induction a bs rule: utf8_tail.induct) (auto split: if_splits)

function from_utf8_ok :: "string \<Rightarrow> bool" where
  "from_utf8_ok [] = True"
| "from_utf8_ok (a # bs) = (case utf8_tail a bs of None \<Rightarrow> False | Some rest \<Rightarrow> from_utf8_ok rest)"
  by pat_completeness auto
termination
  by (relation "measure length") (auto dest: utf8_tail_shorter simp: less_Suc_eq_le)

definition strip_crlf :: "string \<Rightarrow> string" where
  "strip_crlf t = (if length t \<ge> 2 \<and> drop (length t - 2) t = [CR, LF] then take (length t - 2) t else t)"

definition parse_heos_line :: "string \<Rightarrow> (heos_line, heos_protocol_error) result" where
  "parse_heos_line line =
     (if \<not> from_utf8_ok line then Err HeosInvalidUtf8
      else let t = strip_crlf line in
           if t = [] then Err HeosEmptyLine
           else if starts_with t ''{'' then Ok (Json t) else Ok (Raw t))"

end
