(* ===== verification/Receiver_Config.thy ===== *)
theory Receiver_Config
  imports Domain_Values Ordered_Map
begin

text \<open>
  \<open>crates/domain/src/receiver.rs\<close>: receiver identities, the configured receivers with their
  sound mode favourites, and what a configuration must satisfy to be used.
\<close>

type_synonym sound_mode_favorite = string

definition sound_mode_favorite_new :: "string \<Rightarrow> (sound_mode_favorite, string) result" where
  "sound_mode_favorite_new mode =
     (if is_blank mode then Err ''sound mode favorite must not be empty'' else Ok mode)"

record receiver_identity =
  ri_host :: string
  ri_model :: "string option"
  ri_friendly_name :: "string option"

definition identity_ad_hoc :: "string \<Rightarrow> receiver_identity" where
  "identity_ad_hoc host = \<lparr>ri_host = host, ri_model = None, ri_friendly_name = None\<rparr>"

record configured_receivers =
  cr_current :: "string option"
  cr_receivers :: "(string \<times> receiver_identity) list"
  cr_sound_mode_favorites :: "(string \<times> sound_mode_favorite set) list"

definition configured_current :: "configured_receivers \<Rightarrow> (string \<times> receiver_identity) option" where
  "configured_current c =
     (case cr_current c of
        None \<Rightarrow> None
      | Some name \<Rightarrow> map_option (\<lambda>i. (name, i)) (map_of (cr_receivers c) name))"

definition has_line_break :: "string \<Rightarrow> bool" where
  "has_line_break s = list_ex (\<lambda>c. c = CHR 0x0D \<or> c = CHR 0x0A) s"

definition receiver_entry_error :: "string \<times> receiver_identity \<Rightarrow> string option" where
  "receiver_entry_error = (\<lambda>(name, receiver).
     if is_blank name then Some ''receiver name must not be empty''
     else if is_blank (ri_host receiver) then Some (''receiver '' @ name @ '' has an empty host'')
     else if has_line_break name \<or> has_line_break (ri_host receiver)
     then Some (''receiver '' @ name @ '' contains a line break'')
     else if is_reserved_name name
     then Some (''receiver name '' @ name @ '' uses a prefix reserved for receivers chosen by address'')
     else None)"

fun first_error :: "('a \<Rightarrow> 'e option) \<Rightarrow> 'a list \<Rightarrow> 'e option" where
  "first_error f [] = None"
| "first_error f (x # xs) = (case f x of Some e \<Rightarrow> Some e | None \<Rightarrow> first_error f xs)"

definition configured_validate :: "configured_receivers \<Rightarrow> (unit, string) result" where
  "configured_validate c =
     (case first_error receiver_entry_error (cr_receivers c) of
        Some e \<Rightarrow> Err e
      | None \<Rightarrow>
     (case cr_current c of
        Some current \<Rightarrow>
          if \<not> bt_contains (cr_receivers c) current
          then Err (''current receiver '' @ current @ '' is not configured'')
          else (case List.find (\<lambda>n. \<not> bt_contains (cr_receivers c) n) (map fst (cr_sound_mode_favorites c)) of
                  Some name \<Rightarrow> Err (''sound mode favorites reference unknown receiver '' @ name)
                | None \<Rightarrow> Ok ())
      | None \<Rightarrow>
          (case List.find (\<lambda>n. \<not> bt_contains (cr_receivers c) n) (map fst (cr_sound_mode_favorites c)) of
             Some name \<Rightarrow> Err (''sound mode favorites reference unknown receiver '' @ name)
           | None \<Rightarrow> Ok ())))"

definition is_sound_mode_favorite :: "configured_receivers \<Rightarrow> string \<Rightarrow> bool" where
  "is_sound_mode_favorite c mode =
     (case cr_current c of
        None \<Rightarrow> False
      | Some name \<Rightarrow> (case map_of (cr_sound_mode_favorites c) name of
            None \<Rightarrow> False | Some favorites \<Rightarrow> mode \<in> favorites))"

text \<open>
  The entry is created before the mode is checked, so a refused toggle of a blank mode
  leaves an empty set behind when the receiver had none.
\<close>

definition toggle_current_sound_mode_favorite ::
  "string \<Rightarrow> configured_receivers \<Rightarrow> (bool, string) result \<times> configured_receivers" where
  "toggle_current_sound_mode_favorite mode c =
     (case cr_current c of
        None \<Rightarrow> (Err ''select and save a receiver before setting favorites'', c)
      | Some name \<Rightarrow>
          if \<not> bt_contains (cr_receivers c) name then (Err ''current receiver is not configured'', c)
          else
            let favorites = (case map_of (cr_sound_mode_favorites c) name of Some f \<Rightarrow> f | None \<Rightarrow> {});
                entered = bt_insert name favorites (cr_sound_mode_favorites c)
            in case sound_mode_favorite_new mode of
                 Err e \<Rightarrow> (Err e, c\<lparr>cr_sound_mode_favorites := entered\<rparr>)
               | Ok favorite \<Rightarrow>
                   let was = favorite \<in> favorites;
                       favorites' = (if was then favorites - {favorite} else insert favorite favorites);
                       m = (if favorites' = {} then bt_remove name entered
                            else bt_insert name favorites' entered)
                   in (Ok (\<not> was), c\<lparr>cr_sound_mode_favorites := m\<rparr>))"

record receiver_endpoint =
  re_host :: string
  re_port :: nat

record discovered_receiver =
  dr_address :: receiver_endpoint
  dr_location :: "string option"
  dr_server :: "string option"
  dr_model :: "string option"
  dr_search_target :: "string option"
  dr_unique_service_name :: "string option"

definition discovered_identity :: "discovered_receiver \<Rightarrow> receiver_identity" where
  "discovered_identity d =
     \<lparr>ri_host = re_host (dr_address d), ri_model = dr_model d, ri_friendly_name = None\<rparr>"

section \<open>Validation and favourites\<close>

lemma first_error_None: "first_error f xs = None \<longleftrightarrow> (\<forall>x \<in> set xs. f x = None)"
  by (induction xs) (auto split: option.splits)

definition favorites_known :: "configured_receivers \<Rightarrow> bool" where
  "favorites_known c =
     list_all (bt_contains (cr_receivers c)) (map fst (cr_sound_mode_favorites c))"

lemma favorites_known_iff:
  "favorites_known c \<longleftrightarrow> dom (map_of (cr_sound_mode_favorites c)) \<subseteq> dom (map_of (cr_receivers c))"
  by (auto simp: favorites_known_def list_all_iff bt_contains_def dom_map_of_conv_image_fst)

lemma configured_validate_Ok:
  "configured_validate c = Ok () \<longleftrightarrow>
     list_all (\<lambda>e. receiver_entry_error e = None) (cr_receivers c)
     \<and> (\<forall>current. cr_current c = Some current \<longrightarrow> bt_contains (cr_receivers c) current)
     \<and> favorites_known c"
  using first_error_None [of receiver_entry_error "cr_receivers c"]
  by (auto simp: configured_validate_def favorites_known_def list_all_iff
        find_None_iff find_Some_iff split: option.splits)

text \<open>No stored favourite set is empty and the map is ordered: what the constructors leave.\<close>

definition favorites_wf :: "configured_receivers \<Rightarrow> bool" where
  "favorites_wf c =
     (bt_wf (cr_sound_mode_favorites c) \<and> list_all (\<lambda>(_, f). f \<noteq> {}) (cr_sound_mode_favorites c))"

lemma favorites_wf_lookup: "favorites_wf c \<Longrightarrow> map_of (cr_sound_mode_favorites c) n \<noteq> Some {}"
  by (auto simp: favorites_wf_def list_all_iff dest: map_of_SomeD)

lemma toggle_Ok:
  assumes "cr_current c = Some name" "bt_contains (cr_receivers c) name" "\<not> is_blank mode"
  defines "favs \<equiv> (case map_of (cr_sound_mode_favorites c) name of Some f \<Rightarrow> f | None \<Rightarrow> {})"
  defines "favs' \<equiv> (if mode \<in> favs then favs - {mode} else insert mode favs)"
  shows "toggle_current_sound_mode_favorite mode c =
     (Ok (mode \<notin> favs),
      c\<lparr>cr_sound_mode_favorites :=
         (if favs' = {} then bt_remove name (bt_insert name favs (cr_sound_mode_favorites c))
          else bt_insert name favs' (cr_sound_mode_favorites c))\<rparr>)"
  using assms(1-3) unfolding favs'_def favs_def
  by (auto simp: toggle_current_sound_mode_favorite_def sound_mode_favorite_new_def Let_def bt_insert_insert)

lemma toggle_content:
  assumes "cr_current c = Some name" "bt_contains (cr_receivers c) name" "\<not> is_blank mode"
    and "bt_wf (cr_sound_mode_favorites c)"
  defines "favs \<equiv> (case map_of (cr_sound_mode_favorites c) name of Some f \<Rightarrow> f | None \<Rightarrow> {})"
  defines "favs' \<equiv> (if mode \<in> favs then favs - {mode} else insert mode favs)"
  defines "c' \<equiv> snd (toggle_current_sound_mode_favorite mode c)"
  shows "bt_wf (cr_sound_mode_favorites c')"
    and "map_of (cr_sound_mode_favorites c') =
      (map_of (cr_sound_mode_favorites c))(name := if favs' = {} then None else Some favs')"
    and "cr_current c' = cr_current c" and "cr_receivers c' = cr_receivers c"
  using assms(4) unfolding c'_def toggle_Ok [OF assms(1-3)] favs'_def favs_def
  by (auto simp: bt_wf_insert bt_wf_remove split: option.splits)

text \<open>
  Toggling a favourite of a valid configuration reports the new membership, is
  undone exactly by toggling again, and leaves the configuration valid.
\<close>

theorem toggle_favorite_involution:
  assumes "configured_validate c = Ok ()" "favorites_wf c"
    and "cr_current c = Some name" "\<not> is_blank mode"
  defines "c1 \<equiv> snd (toggle_current_sound_mode_favorite mode c)"
  shows "toggle_current_sound_mode_favorite mode c = (Ok (\<not> is_sound_mode_favorite c mode), c1)
       \<and> toggle_current_sound_mode_favorite mode c1 = (Ok (is_sound_mode_favorite c mode), c)
       \<and> is_sound_mode_favorite c1 mode = (\<not> is_sound_mode_favorite c mode)
       \<and> configured_validate c1 = Ok ()"
proof -
  let ?m = "cr_sound_mode_favorites c" and ?m1 = "cr_sound_mode_favorites c1"
  define favs where "favs = (case map_of ?m name of Some f \<Rightarrow> f | None \<Rightarrow> {})"
  define favs' where "favs' = (if mode \<in> favs then favs - {mode} else insert mode favs)"
  from assms have known: "bt_contains (cr_receivers c) name" by (auto simp: configured_validate_Ok)
  from assms(2) have wf: "bt_wf ?m" by (simp add: favorites_wf_def)
  note c1 = toggle_content [OF assms(3) known assms(4) wf, folded c1_def favs_def, folded favs'_def]
  have cur1: "cr_current c1 = Some name" and known1: "bt_contains (cr_receivers c1) name"
    using c1 assms(3) known by simp_all
  have favs1: "(case map_of ?m1 name of Some f \<Rightarrow> f | None \<Rightarrow> {}) = favs'"
    using c1(2) by simp
  have fav: "is_sound_mode_favorite c mode = (mode \<in> favs)" "is_sound_mode_favorite c1 mode = (mode \<in> favs')"
    using assms(3) cur1 c1(2) by (auto simp: is_sound_mode_favorite_def favs_def split: option.splits)
  have again: "(if mode \<in> favs' then favs' - {mode} else insert mode favs') = favs"
    by (auto simp: favs'_def)
  note c2 = toggle_content [OF cur1 known1 assms(4) c1(1), unfolded favs1 again]
  have "map_of (cr_sound_mode_favorites (snd (toggle_current_sound_mode_favorite mode c1))) = map_of ?m"
    using c2(2) c1(2) favorites_wf_lookup [OF assms(2), of name]
    by (auto simp: favs_def fun_eq_iff split: option.splits)
  then have "snd (toggle_current_sound_mode_favorite mode c1) = c"
    using bt_wf_ext [OF c2(1) wf] c2(3,4) c1(3,4) by (simp add: configured_receivers.equality)
  moreover have "fst (toggle_current_sound_mode_favorite mode c) = Ok (mode \<notin> favs)"
    "fst (toggle_current_sound_mode_favorite mode c1) = Ok (mode \<in> favs)"
    using toggle_Ok [OF assms(3) known assms(4)] toggle_Ok [OF cur1 known1 assms(4)]
    by (simp_all add: favs_def favs1) (simp add: favs'_def favs_def)
  moreover have "configured_validate c1 = Ok ()"
  proof -
    from assms(1) have "dom (map_of ?m) \<subseteq> dom (map_of (cr_receivers c))"
      by (simp add: configured_validate_Ok favorites_known_iff)
    moreover have "dom (map_of ?m1) \<subseteq> insert name (dom (map_of ?m))" by (auto simp: c1(2))
    ultimately have "favorites_known c1"
      using known c1(4) by (simp add: favorites_known_iff bt_contains_iff domIff [symmetric] del: domIff) blast
    with assms(1) c1(3,4) show ?thesis by (simp add: configured_validate_Ok)
  qed
  ultimately show ?thesis
    using fav by (auto simp: c1_def prod_eq_iff favs'_def)
qed

definition example_config :: configured_receivers where
  "example_config =
     \<lparr>cr_current = Some ''den'', cr_receivers = [(''den'', identity_ad_hoc ''192.0.2.10'')],
      cr_sound_mode_favorites = [(''den'', {''AUTO''})]\<rparr>"

theorem toggle_favorite_involution_witness:
  "configured_validate example_config = Ok ()
   \<and> toggle_current_sound_mode_favorite ''MATRIX''
       (snd (toggle_current_sound_mode_favorite ''MATRIX'' example_config)) = (Ok False, example_config)"
proof -
  have "configured_validate example_config = Ok ()" "favorites_wf example_config"
    "cr_current example_config = Some ''den''" "\<not> is_blank ''MATRIX''" by code_simp+
  moreover have "\<not> is_sound_mode_favorite example_config ''MATRIX''" by code_simp
  ultimately show ?thesis using toggle_favorite_involution [of example_config "''den''" "''MATRIX''"] by simp
qed

end
