(* ===== verification/Policy_Values.thy ===== *)
theory Policy_Values
  imports Complex_Main Precondition
begin

text \<open>
  The vocabulary of policy rules, \<open>crates/policy/src/level.rs\<close>, \<open>label.rs\<close> and
  \<open>intent.rs\<close>: volume levels and distances in half decibels, agent labels, and the kinds
  and values of intents. A \<open>Level\<close> is an \<open>i16\<close> and a \<open>Span\<close> a \<open>u16\<close>, both only built
  inside the receiver's scale, so they are \<^typ>\<open>int\<close> and \<^typ>\<open>nat\<close>.
\<close>

section \<open>Levels\<close>

type_synonym level = int
type_synonym span = nat

definition LOWEST :: level where "LOWEST = - 160"
definition HIGHEST :: level where "HIGHEST = 36"
definition WIDEST_SPAN :: span where "WIDEST_SPAN = nat (HIGHEST - LOWEST)"

datatype level_error = OffGrid | OutOfRange

fun level_error_fmt :: "level_error \<Rightarrow> string" where
  "level_error_fmt OffGrid = ''must be a multiple of 0.5 dB''"
| "level_error_fmt OutOfRange = ''is outside the receiver's volume scale''"

fun level_of :: "master_volume \<Rightarrow> level" where
  "level_of Minimum = LOWEST"
| "level_of (DbHalfSteps steps) = steps"

text \<open>
  An \<open>f64\<close> limit: not a number, infinite, or finite and then a rational number. Doubling a
  finite \<open>f64\<close> is exact, or overflows to an infinity that is out of range as the number is.
\<close>

datatype double = NaN | Infinite | Finite rat

definition grid :: "double \<Rightarrow> (int, level_error) result" where
  "grid db =
     (case db of
        Finite q \<Rightarrow>
          (let half = q * 2 in
           if \<bar>half\<bar> > 1000 then Err OutOfRange
           else if of_int \<lfloor>half\<rfloor> \<noteq> half then Err OffGrid
           else Ok \<lfloor>half\<rfloor>)
      | _ \<Rightarrow> Err OutOfRange)"

definition level_from_half_steps :: "int \<Rightarrow> (level, level_error) result" where
  "level_from_half_steps steps =
     (if LOWEST \<le> steps \<and> steps \<le> HIGHEST then Ok steps else Err OutOfRange)"

definition level_from_db :: "double \<Rightarrow> (level, level_error) result" where
  "level_from_db db = (case grid db of Err e \<Rightarrow> Err e | Ok h \<Rightarrow> level_from_half_steps h)"

definition above :: "level \<Rightarrow> level \<Rightarrow> int" where
  "above l flr = l - flr"

definition level_fmt :: "level \<Rightarrow> string" where
  "level_fmt l = show_halves l @ '' dB''"

definition span_from_half_steps :: "int \<Rightarrow> (span, level_error) result" where
  "span_from_half_steps steps =
     (if 0 \<le> steps \<and> steps \<le> int WIDEST_SPAN then Ok (nat steps) else Err OutOfRange)"

definition span_from_db :: "double \<Rightarrow> (span, level_error) result" where
  "span_from_db db = (case grid db of Err e \<Rightarrow> Err e | Ok h \<Rightarrow> span_from_half_steps h)"

definition span_fmt :: "span \<Rightarrow> string" where
  "span_fmt s = show_halves (int s) @ '' dB''"

lemma level_of_range: "master_volume_in_range v \<Longrightarrow> LOWEST \<le> level_of v \<and> level_of v \<le> HIGHEST"
  by (cases v) (simp_all add: LOWEST_def HIGHEST_def LOWEST_HALF_STEP_def HIGHEST_HALF_STEP_def)

lemma level_of_inj:
  "master_volume_in_range v \<Longrightarrow> master_volume_in_range w \<Longrightarrow> level_of v = level_of w \<Longrightarrow> v = w"
  by (cases v; cases w) (auto simp: LOWEST_def LOWEST_HALF_STEP_def)

lemma grid_Ok: "grid db = Ok h \<longleftrightarrow> (\<exists>q. db = Finite q \<and> q * 2 = of_int h \<and> \<bar>h\<bar> \<le> 1000)"
proof (cases db)
  case (Finite q)
  have "\<bar>q * 2\<bar> \<le> 1000 \<longleftrightarrow> \<bar>h\<bar> \<le> 1000" if "q * 2 = of_int h"
    unfolding that by (metis of_int_abs of_int_le_iff of_int_numeral)
  with Finite show ?thesis by (auto simp: grid_def Let_def not_less)
qed (simp_all add: grid_def)

text \<open>
  A decibel limit of a policy file is accepted exactly when it is a multiple of half a
  decibel on the receiver's scale, and then stands for that level.
\<close>

theorem level_from_db_exact:
  "level_from_db db = Ok l \<longleftrightarrow> (\<exists>q. db = Finite q \<and> q = of_int l / 2 \<and> LOWEST \<le> l \<and> l \<le> HIGHEST)"
proof -
  have "level_from_db db = Ok l \<longleftrightarrow> grid db = Ok l \<and> LOWEST \<le> l \<and> l \<le> HIGHEST"
    by (auto simp: level_from_db_def level_from_half_steps_def split: sum.splits)
  also have "\<dots> \<longleftrightarrow> (\<exists>q. db = Finite q \<and> q * 2 = of_int l \<and> LOWEST \<le> l \<and> l \<le> HIGHEST)"
    by (auto simp: grid_Ok LOWEST_def HIGHEST_def)
  also have "\<dots> \<longleftrightarrow> (\<exists>q. db = Finite q \<and> q = of_int l / 2 \<and> LOWEST \<le> l \<and> l \<le> HIGHEST)"
    by (simp add: eq_divide_eq)
  finally show ?thesis .
qed

section \<open>Agent labels\<close>

definition MAX_LABEL_LEN :: nat where "MAX_LABEL_LEN = 64"
definition RESERVED_LABEL :: string where "RESERVED_LABEL = ''unauthenticated''"

definition label_char :: "char \<Rightarrow> bool" where
  "label_char c = (is_ascii_lowercase c \<or> is_ascii_digit c \<or> c = CHR ''.'' \<or> c = CHR ''_'' \<or> c = CHR ''-'')"

definition label_is_well_formed :: "string \<Rightarrow> bool" where
  "label_is_well_formed label =
     (if label = [] \<or> length label > MAX_LABEL_LEN \<or> label = RESERVED_LABEL then False
      else (is_ascii_lowercase (hd label) \<or> is_ascii_digit (hd label)) \<and> list_all label_char label)"

section \<open>Kinds and values of intents\<close>

datatype intent_kind =
  KSystemPower | KMainZonePower | KZone2Power | KSource | KVolume | KMute | KSoundMode

definition intent_kinds :: "intent_kind list" where
  "intent_kinds =
     [KSystemPower, KMainZonePower, KZone2Power, KSource, KVolume, KMute, KSoundMode]"

fun kind_of :: "receiver_intent \<Rightarrow> intent_kind" where
  "kind_of (ISystemPower _) = KSystemPower"
| "kind_of (IMainZonePower _) = KMainZonePower"
| "kind_of (IZone2Power _) = KZone2Power"
| "kind_of (ISource _) = KSource"
| "kind_of (IVolume _) = KVolume"
| "kind_of (IMute _) = KMute"
| "kind_of (ISoundMode _) = KSoundMode"

fun kind_str :: "intent_kind \<Rightarrow> string" where
  "kind_str KSystemPower = ''system_power''"
| "kind_str KMainZonePower = ''main_zone_power''"
| "kind_str KZone2Power = ''zone2_power''"
| "kind_str KSource = ''source''"
| "kind_str KVolume = ''volume''"
| "kind_str KMute = ''mute''"
| "kind_str KSoundMode = ''sound_mode''"

definition kind_parse :: "string \<Rightarrow> intent_kind option" where
  "kind_parse name = List.find (\<lambda>k. kind_str k = name) intent_kinds"

datatype intent_value = ValueOn | ValueOff | ValueStandby

fun accepts :: "intent_kind \<Rightarrow> intent_value \<Rightarrow> bool" where
  "accepts KSystemPower v = (v = ValueOn \<or> v = ValueStandby)"
| "accepts KMainZonePower v = (v = ValueOn \<or> v = ValueOff)"
| "accepts KZone2Power v = (v = ValueOn \<or> v = ValueOff)"
| "accepts KMute v = (v = ValueOn \<or> v = ValueOff)"
| "accepts _ v = False"

fun value_of :: "receiver_intent \<Rightarrow> intent_value option" where
  "value_of (ISystemPower SystemOn) = Some ValueOn"
| "value_of (ISystemPower SystemStandby) = Some ValueStandby"
| "value_of (IMainZonePower p) = Some (case p of ZoneOn \<Rightarrow> ValueOn | ZoneOff \<Rightarrow> ValueOff)"
| "value_of (IZone2Power p) = Some (case p of ZoneOn \<Rightarrow> ValueOn | ZoneOff \<Rightarrow> ValueOff)"
| "value_of (IMute MuteOn) = Some ValueOn"
| "value_of (IMute MuteOff) = Some ValueOff"
| "value_of (ISource _) = None"
| "value_of (IVolume _) = None"
| "value_of (ISoundMode _) = None"

fun intent_value_str :: "intent_value \<Rightarrow> string" where
  "intent_value_str ValueOn = ''on''"
| "intent_value_str ValueOff = ''off''"
| "intent_value_str ValueStandby = ''standby''"

definition intent_value_parse :: "string \<Rightarrow> intent_value option" where
  "intent_value_parse name =
     List.find (\<lambda>v. intent_value_str v = name) [ValueOn, ValueOff, ValueStandby]"

lemma kind_parse_str: "kind_parse name = Some k \<longleftrightarrow> name = kind_str k"
  by (cases k) (auto simp: kind_parse_def intent_kinds_def)

lemma intent_value_parse_str: "intent_value_parse name = Some v \<longleftrightarrow> name = intent_value_str v"
  by (cases v) (auto simp: intent_value_parse_def)

lemma value_of_accepted: "value_of i = Some v \<Longrightarrow> accepts (kind_of i) v"
  by (cases i rule: value_of.cases) (auto split: zone_power.splits)

end
