(* ===== verification/Policy.thy ===== *)
theory Policy
  imports Policy_Values
begin

text \<open>
  The policy engine: rules and their validation (\<open>crates/policy/src/config.rs\<close>) and the
  decision (\<open>evaluate.rs\<close>). A \<open>BTreeSet<String>\<close> of a scope is a set of strings; the rules
  keep their order. The evaluation loop folds over the rules with the three accumulators of
  the source, the baseline, the classification and the matched rules.
\<close>

section \<open>Rules\<close>

datatype effect = EffectAllow | EffectRequireApproval | EffectDeny

fun severity :: "effect \<Rightarrow> nat" where
  "severity EffectAllow = 0"
| "severity EffectRequireApproval = 1"
| "severity EffectDeny = 2"

record scope =
  sc_agents :: "string set option"
  sc_receivers :: "string set option"

definition scope_matches :: "scope \<Rightarrow> string \<Rightarrow> string \<Rightarrow> bool" where
  "scope_matches s agent receiver =
     ((case sc_agents s of None \<Rightarrow> True | Some as \<Rightarrow> agent \<in> as)
      \<and> (case sc_receivers s of None \<Rightarrow> True | Some rs \<Rightarrow> receiver \<in> rs))"

record alternative =
  alt_kind :: intent_kind
  alt_value :: "intent_value option"

definition covers :: "alternative \<Rightarrow> intent_kind \<Rightarrow> intent_value option \<Rightarrow> bool" where
  "covers a kind value =
     (alt_kind a = kind \<and> (case alt_value a of None \<Rightarrow> True | Some named \<Rightarrow> Some named = value))"

record budget =
  bg_rise :: span
  bg_window_minutes :: nat

definition budget_window :: "budget \<Rightarrow> duration" where
  "budget_window b = from_secs (bg_window_minutes b * 60)"

record conditions =
  cd_target_above :: "level option"
  cd_increase_over_baseline :: "span option"
  cd_budget :: "budget option"
  cd_baseline_volume_above :: "level option"

definition conditions_default :: conditions where
  "conditions_default =
     \<lparr>cd_target_above = None, cd_increase_over_baseline = None, cd_budget = None,
      cd_baseline_volume_above = None\<rparr>"

definition conditions_is_empty :: "conditions \<Rightarrow> bool" where
  "conditions_is_empty c = (c = conditions_default)"

definition about_a_volume_target :: "conditions \<Rightarrow> bool" where
  "about_a_volume_target c =
     (cd_target_above c \<noteq> None \<or> cd_increase_over_baseline c \<noteq> None \<or> cd_budget c \<noteq> None)"

definition reads_volume :: "conditions \<Rightarrow> bool" where
  "reads_volume c =
     (cd_increase_over_baseline c \<noteq> None \<or> cd_budget c \<noteq> None \<or> cd_baseline_volume_above c \<noteq> None)"

record rule_filter =
  ft_alternatives :: "alternative list"
  ft_conditions :: conditions

record rule =
  ru_id :: string
  ru_scope :: scope
  ru_filter :: rule_filter
  ru_effect :: effect

definition rule_new :: "string \<Rightarrow> effect \<Rightarrow> rule" where
  "rule_new i e =
     \<lparr>ru_id = i, ru_scope = \<lparr>sc_agents = None, sc_receivers = None\<rparr>,
      ru_filter = \<lparr>ft_alternatives = [], ft_conditions = conditions_default\<rparr>, ru_effect = e\<rparr>"

datatype policy_error =
    EmptyRuleId
  | DuplicateRuleId string
  | EmptyScopeList string
  | ValueNotValidForIntent string intent_kind intent_value
  | AllowWithCondition string
  | AllowNamesNoIntent string
  | VolumeConditionOnOtherIntent string
  | WindowOutOfRange string
  | AgentLabelNotWellFormed string

definition MAX_WINDOW_MINUTES :: nat where "MAX_WINDOW_MINUTES = 1440"

definition invalid_value :: "alternative \<Rightarrow> intent_value option" where
  "invalid_value a =
     (case alt_value a of
        None \<Rightarrow> None
      | Some v \<Rightarrow> if \<not> accepts (alt_kind a) v then Some v else None)"

fun check_alternatives :: "string \<Rightarrow> alternative list \<Rightarrow> policy_error option" where
  "check_alternatives i [] = None"
| "check_alternatives i (a # as) =
     (case invalid_value a of
        Some v \<Rightarrow> Some (ValueNotValidForIntent i (alt_kind a) v)
      | None \<Rightarrow> check_alternatives i as)"

definition only_volume :: "alternative list \<Rightarrow> bool" where
  "only_volume as = (as \<noteq> [] \<and> list_all (\<lambda>a. alt_kind a = KVolume) as)"

definition validate_rule :: "rule \<Rightarrow> (unit, policy_error) result" where
  "validate_rule r =
     (let i = ru_id r; c = ft_conditions (ru_filter r); as = ft_alternatives (ru_filter r) in
      if is_blank i then Err EmptyRuleId
      else if sc_agents (ru_scope r) = Some {} \<or> sc_receivers (ru_scope r) = Some {}
      then Err (EmptyScopeList i)
      else if (case sc_agents (ru_scope r) of
                 Some agents \<Rightarrow> \<not> (\<forall>label \<in> agents. label_is_well_formed label) | None \<Rightarrow> False)
      then Err (AgentLabelNotWellFormed i)
      else case check_alternatives i as of
        Some e \<Rightarrow> Err e
      | None \<Rightarrow>
          if ru_effect r = EffectAllow \<and> \<not> conditions_is_empty c then Err (AllowWithCondition i)
          else if ru_effect r = EffectAllow \<and> as = [] then Err (AllowNamesNoIntent i)
          else if about_a_volume_target c \<and> \<not> only_volume as
          then Err (VolumeConditionOnOtherIntent i)
          else if (case cd_budget c of
                     Some b \<Rightarrow> \<not> (1 \<le> bg_window_minutes b \<and> bg_window_minutes b \<le> MAX_WINDOW_MINUTES)
                   | None \<Rightarrow> False)
          then Err (WindowOutOfRange i)
          else Ok ())"

record policy_config =
  pol_rules :: "rule list"
  pol_approval_lifetime :: duration

fun check_rules :: "string set \<Rightarrow> rule list \<Rightarrow> (unit, policy_error) result" where
  "check_rules seen [] = Ok ()"
| "check_rules seen (r # rs) =
     (case validate_rule r of
        Err e \<Rightarrow> Err e
      | Ok _ \<Rightarrow> if ru_id r \<in> seen then Err (DuplicateRuleId (ru_id r))
               else check_rules (insert (ru_id r) seen) rs)"

definition policy_config_new :: "rule list \<Rightarrow> duration \<Rightarrow> (policy_config, policy_error) result" where
  "policy_config_new rules lifetime =
     (case check_rules {} rules of
        Err e \<Rightarrow> Err e
      | Ok _ \<Rightarrow> Ok \<lparr>pol_rules = rules, pol_approval_lifetime = lifetime\<rparr>)"

definition budgets :: "policy_config \<Rightarrow> budget list" where
  "budgets cfg = List.map_filter (\<lambda>r. cd_budget (ft_conditions (ru_filter r))) (pol_rules cfg)"

definition longest_window :: "policy_config \<Rightarrow> duration" where
  "longest_window cfg = foldr max (map budget_window (budgets cfg)) 0"

section \<open>Decisions\<close>

record recent_change =
  rc_at :: wall_time
  rc_before :: "level option"
  rc_target :: level

record policy_input =
  pi_agent :: string
  pi_receiver :: receiver_id
  pi_intent :: receiver_intent
  pi_state :: receiver_state
  pi_recent :: "recent_change list"
  pi_now :: wall_time

type_synonym baseline = "core_field set"

datatype reason =
    TargetAbove level level
  | IncreaseOver level "level option" span
  | BudgetExceeded level "level option" "level option" span nat
  | BaselineLoudOrUnknown "level option" level
  | IntentRestricted
  | Unclassified

fun reason_fmt :: "reason \<Rightarrow> string" where
  "reason_fmt (TargetAbove target limit) =
     ''the volume target '' @ level_fmt target @ '' is above the limit '' @ level_fmt limit"
| "reason_fmt (IncreaseOver target (Some obs) limit) =
     ''raising the volume from '' @ level_fmt obs @ '' to '' @ level_fmt target
       @ '' is more than the '' @ span_fmt limit @ '' step''"
| "reason_fmt (IncreaseOver target None limit) =
     ''the volume is unknown or stale, so a rise to '' @ level_fmt target
       @ '' cannot be checked against the '' @ span_fmt limit @ '' step''"
| "reason_fmt (BudgetExceeded target obs (Some floor_level) limit minutes) =
     ''raising the volume to '' @ level_fmt target @ '' is '' @ show_halves (above target floor_level)
       @ '' dB above the lowest level, '' @ level_fmt floor_level @ '', in the last ''
       @ show_nat minutes @ '' minutes; the budget is '' @ span_fmt limit"
| "reason_fmt (BudgetExceeded target obs None limit minutes) =
     ''the volume is unknown or stale, so the '' @ span_fmt limit @ '' budget over ''
       @ show_nat minutes @ '' minutes cannot be checked''"
| "reason_fmt (BaselineLoudOrUnknown (Some obs) limit) =
     ''the volume is '' @ level_fmt obs @ '', above the limit '' @ level_fmt limit"
| "reason_fmt (BaselineLoudOrUnknown None limit) =
     ''the volume is unknown or stale; the limit is '' @ level_fmt limit"
| "reason_fmt IntentRestricted = ''this kind of change is restricted''"
| "reason_fmt Unclassified = ''no rule covers this change''"

datatype decision =
    Allow baseline
  | RequireApproval "reason list" "string list" baseline
  | Deny "reason list" "string list"

fun decision_effect :: "decision \<Rightarrow> effect" where
  "decision_effect (Allow _) = EffectAllow"
| "decision_effect (RequireApproval _ _ _) = EffectRequireApproval"
| "decision_effect (Deny _ _) = EffectDeny"

fun decision_rules :: "decision \<Rightarrow> string list" where
  "decision_rules (Allow _) = []"
| "decision_rules (RequireApproval _ rules _) = rules"
| "decision_rules (Deny _ rules) = rules"

fun decision_reasons :: "decision \<Rightarrow> reason list" where
  "decision_reasons (Allow _) = []"
| "decision_reasons (RequireApproval reasons _ _) = reasons"
| "decision_reasons (Deny reasons _) = reasons"

fun decision_baseline :: "decision \<Rightarrow> baseline option" where
  "decision_baseline (Allow b) = Some b"
| "decision_baseline (RequireApproval _ _ b) = Some b"
| "decision_baseline (Deny _ _) = None"

definition observed_volume :: "receiver_state \<Rightarrow> level option" where
  "observed_volume s =
     (case baseline_capture s FVolume of
        BaselineValue (VVolume v) \<Rightarrow> Some (level_of v)
      | _ \<Rightarrow> None)"

definition floor_in_window :: "level \<Rightarrow> recent_change list \<Rightarrow> wall_time \<Rightarrow> duration \<Rightarrow> level" where
  "floor_in_window obs recent now window =
     (let since = wt_saturating_sub now window;
          inside = filter (\<lambda>c. rc_at c > since) recent;
          levels = concat (map (\<lambda>c. (case rc_before c of Some b \<Rightarrow> [b] | None \<Rightarrow> []) @ [rc_target c]) inside)
      in foldl min obs levels)"

text \<open>
  \<open>test\<close> walks the conditions in order; each either returns \<open>None\<close> from the whole function
  or contributes at most one reason.
\<close>

definition test_target_above :: "conditions \<Rightarrow> level option \<Rightarrow> reason list option" where
  "test_target_above c target =
     (case cd_target_above c of
        None \<Rightarrow> Some []
      | Some limit \<Rightarrow> (case target of
            None \<Rightarrow> None
          | Some t \<Rightarrow> if t \<le> limit then None else Some [TargetAbove t limit]))"

definition test_increase :: "conditions \<Rightarrow> level option \<Rightarrow> level option \<Rightarrow> reason list option" where
  "test_increase c obs target =
     (case cd_increase_over_baseline c of
        None \<Rightarrow> Some []
      | Some limit \<Rightarrow> (case target of
            None \<Rightarrow> None
          | Some t \<Rightarrow>
              if (case obs of Some ob \<Rightarrow> above t ob \<le> int limit | None \<Rightarrow> False) then None
              else Some [IncreaseOver t obs limit]))"

definition test_budget ::
  "conditions \<Rightarrow> recent_change list \<Rightarrow> wall_time \<Rightarrow> level option \<Rightarrow> level option \<Rightarrow> reason list option" where
  "test_budget c recent now obs target =
     (case cd_budget c of
        None \<Rightarrow> Some []
      | Some b \<Rightarrow> (case target of
            None \<Rightarrow> None
          | Some t \<Rightarrow> (case obs of
                Some ob \<Rightarrow>
                  if t \<le> ob then None
                  else let flr = floor_in_window ob recent now (budget_window b) in
                       if above t flr \<le> int (bg_rise b) then None
                       else Some [BudgetExceeded t obs (Some flr) (bg_rise b) (bg_window_minutes b)]
              | None \<Rightarrow> Some [BudgetExceeded t obs None (bg_rise b) (bg_window_minutes b)])))"

definition test_baseline_volume :: "conditions \<Rightarrow> level option \<Rightarrow> reason list option" where
  "test_baseline_volume c obs =
     (case cd_baseline_volume_above c of
        None \<Rightarrow> Some []
      | Some limit \<Rightarrow>
          if (case obs of Some ob \<Rightarrow> ob \<le> limit | None \<Rightarrow> False) then None
          else Some [BaselineLoudOrUnknown obs limit])"

definition test :: "rule \<Rightarrow> policy_input \<Rightarrow> level option \<Rightarrow> level option \<Rightarrow> reason list option" where
  "test r inp obs target =
     (let c = ft_conditions (ru_filter r) in
      case test_target_above c target of None \<Rightarrow> None | Some r1 \<Rightarrow>
     (case test_increase c obs target of None \<Rightarrow> None | Some r2 \<Rightarrow>
     (case test_budget c (pi_recent inp) (pi_now inp) obs target of None \<Rightarrow> None | Some r3 \<Rightarrow>
     (case test_baseline_volume c obs of None \<Rightarrow> None | Some r4 \<Rightarrow>
        Some (r1 @ r2 @ r3 @ r4 @ (if conditions_is_empty c then [IntentRestricted] else []))))))"

record evaluation =
  ev_baseline :: baseline
  ev_classified :: bool
  ev_matched :: "(rule \<times> reason list) list"

definition intent_target :: "receiver_intent \<Rightarrow> level option" where
  "intent_target i = (case i of IVolume v \<Rightarrow> Some (level_of v) | _ \<Rightarrow> None)"

definition evaluate_rule :: "policy_input \<Rightarrow> evaluation \<Rightarrow> rule \<Rightarrow> evaluation" where
  "evaluate_rule inp ev r =
     (if \<not> scope_matches (ru_scope r) (pi_agent inp) (receiver_id_str (pi_receiver inp)) then ev
      else
        let alternatives = ft_alternatives (ru_filter r);
            names_it = list_ex (\<lambda>a. covers a (kind_of (pi_intent inp)) (value_of (pi_intent inp))) alternatives;
            ev1 = ev\<lparr>ev_classified := ev_classified ev \<or> names_it\<rparr>
        in if alternatives \<noteq> [] \<and> \<not> names_it then ev1
           else
             let ev2 = (if reads_volume (ft_conditions (ru_filter r))
                        then ev1\<lparr>ev_baseline := insert FVolume (ev_baseline ev1)\<rparr> else ev1)
             in if ru_effect r = EffectAllow then ev2
                else case test r inp (observed_volume (pi_state inp)) (intent_target (pi_intent inp)) of
                       Some reasons \<Rightarrow> ev2\<lparr>ev_matched := ev_matched ev2 @ [(r, reasons)]\<rparr>
                     | None \<Rightarrow> ev2)"

definition evaluation_start :: evaluation where
  "evaluation_start = \<lparr>ev_baseline = {}, ev_classified = False, ev_matched = []\<rparr>"

definition conclude :: "evaluation \<Rightarrow> decision" where
  "conclude ev =
     (let rules = map (\<lambda>(r, _). ru_id r) (ev_matched ev);
          reasons = concat (map snd (ev_matched ev))
      in if list_ex (\<lambda>(r, _). ru_effect r = EffectDeny) (ev_matched ev) then Deny reasons rules
         else if ev_matched ev \<noteq> [] then RequireApproval reasons rules (ev_baseline ev)
         else if \<not> ev_classified ev then RequireApproval [Unclassified] rules (ev_baseline ev)
         else Allow (ev_baseline ev))"

definition evaluate :: "policy_input \<Rightarrow> policy_config \<Rightarrow> decision" where
  "evaluate inp cfg = conclude (foldl (evaluate_rule inp) evaluation_start (pol_rules cfg))"

section \<open>What the loop computes\<close>

definition rule_applies :: "policy_input \<Rightarrow> rule \<Rightarrow> bool" where
  "rule_applies inp r = scope_matches (ru_scope r) (pi_agent inp) (receiver_id_str (pi_receiver inp))"

definition rule_names :: "policy_input \<Rightarrow> rule \<Rightarrow> bool" where
  "rule_names inp r =
     list_ex (\<lambda>a. covers a (kind_of (pi_intent inp)) (value_of (pi_intent inp)))
       (ft_alternatives (ru_filter r))"

definition rule_covers :: "policy_input \<Rightarrow> rule \<Rightarrow> bool" where
  "rule_covers inp r \<longleftrightarrow> rule_applies inp r \<and> (ft_alternatives (ru_filter r) = [] \<or> rule_names inp r)"

definition rule_reasons :: "policy_input \<Rightarrow> rule \<Rightarrow> reason list option" where
  "rule_reasons inp r =
     (if rule_covers inp r \<and> ru_effect r \<noteq> EffectAllow
      then test r inp (observed_volume (pi_state inp)) (intent_target (pi_intent inp)) else None)"

definition rule_reads :: "policy_input \<Rightarrow> rule \<Rightarrow> bool" where
  "rule_reads inp r \<longleftrightarrow> rule_covers inp r \<and> reads_volume (ft_conditions (ru_filter r))"

lemmas rule_spec_defs =
  rule_applies_def rule_names_def rule_covers_def rule_reasons_def rule_reads_def

lemma evaluate_rule_effect:
  "ev_classified (evaluate_rule inp ev r) = (ev_classified ev \<or> rule_applies inp r \<and> rule_names inp r)"
  "ev_matched (evaluate_rule inp ev r) =
     ev_matched ev @ (case rule_reasons inp r of Some x \<Rightarrow> [(r, x)] | None \<Rightarrow> [])"
  "ev_baseline (evaluate_rule inp ev r) =
     ev_baseline ev \<union> (if rule_reads inp r then {FVolume} else {})"
  by (auto simp: evaluate_rule_def rule_spec_defs Let_def split: option.splits)

definition matched_rules :: "policy_input \<Rightarrow> rule list \<Rightarrow> (rule \<times> reason list) list" where
  "matched_rules inp rs =
     concat (map (\<lambda>r. case rule_reasons inp r of Some x \<Rightarrow> [(r, x)] | None \<Rightarrow> []) rs)"

lemma foldl_evaluate_rule:
  "ev_classified (foldl (evaluate_rule inp) ev rs) =
     (ev_classified ev \<or> (\<exists>r \<in> set rs. rule_applies inp r \<and> rule_names inp r))"
  "ev_matched (foldl (evaluate_rule inp) ev rs) = ev_matched ev @ matched_rules inp rs"
  "ev_baseline (foldl (evaluate_rule inp) ev rs) =
     ev_baseline ev \<union> (if \<exists>r \<in> set rs. rule_reads inp r then {FVolume} else {})"
  by (induction rs arbitrary: ev) (auto simp: evaluate_rule_effect matched_rules_def)

lemma matched_rules_iff: "(r, x) \<in> set (matched_rules inp rs) \<longleftrightarrow> r \<in> set rs \<and> rule_reasons inp r = Some x"
  by (auto simp: matched_rules_def split: option.splits)

lemma matched_rules_Nil: "matched_rules inp rs = [] \<longleftrightarrow> (\<forall>r \<in> set rs. rule_reasons inp r = None)"
  by (auto simp: matched_rules_def split: option.splits)

definition rules_read :: "policy_input \<Rightarrow> policy_config \<Rightarrow> baseline" where
  "rules_read inp cfg = (if \<exists>r \<in> set (pol_rules cfg). rule_reads inp r then {FVolume} else {})"

lemma evaluate_unfold:
  "evaluate inp cfg =
     (let m = matched_rules inp (pol_rules cfg);
          rules = map (\<lambda>(r, _). ru_id r) m;
          reasons = concat (map snd m)
      in if \<exists>(r, _) \<in> set m. ru_effect r = EffectDeny then Deny reasons rules
         else if m \<noteq> [] then RequireApproval reasons rules (rules_read inp cfg)
         else if \<exists>r \<in> set (pol_rules cfg). rule_applies inp r \<and> rule_names inp r
         then Allow (rules_read inp cfg)
         else RequireApproval [Unclassified] [] (rules_read inp cfg))"
  by (simp add: evaluate_def conclude_def foldl_evaluate_rule evaluation_start_def rules_read_def
        list_ex_iff Let_def) blast

lemma evaluate_baseline: "decision_baseline (evaluate inp cfg) = Some b \<Longrightarrow> b = rules_read inp cfg"
  by (auto simp: evaluate_unfold Let_def split: if_splits)

text \<open>
  C11: the decision is the most restrictive verdict of the rules that cover the request. It is
  a denial exactly when a covering deny rule matches, an allowance exactly when some rule
  that applies names the intent and no covering restricting rule matches, and an approval
  otherwise; the rule ids it reports are those of the matching rules, in file order.
\<close>

theorem evaluate_most_restrictive:
  "(decision_effect (evaluate inp cfg) = EffectDeny \<longleftrightarrow>
      (\<exists>r \<in> set (pol_rules cfg). ru_effect r = EffectDeny \<and> rule_reasons inp r \<noteq> None))
   \<and> (decision_effect (evaluate inp cfg) = EffectAllow \<longleftrightarrow>
      (\<exists>r \<in> set (pol_rules cfg). rule_applies inp r \<and> rule_names inp r)
      \<and> (\<forall>r \<in> set (pol_rules cfg). rule_reasons inp r = None))
   \<and> decision_rules (evaluate inp cfg)
       = map ru_id (filter (\<lambda>r. rule_reasons inp r \<noteq> None) (pol_rules cfg))"
proof -
  let ?m = "matched_rules inp (pol_rules cfg)"
  have deny: "(\<exists>(r, _) \<in> set ?m. ru_effect r = EffectDeny) \<longleftrightarrow>
      (\<exists>r \<in> set (pol_rules cfg). ru_effect r = EffectDeny \<and> rule_reasons inp r \<noteq> None)"
    by (force simp: matched_rules_iff)
  have ids: "map (\<lambda>(r, _). ru_id r) (matched_rules inp rs)
      = map ru_id (filter (\<lambda>r. rule_reasons inp r \<noteq> None) rs)" for rs
    by (induction rs) (auto simp: matched_rules_def split: option.splits)
  have none: "filter (\<lambda>r. rule_reasons inp r \<noteq> None) (pol_rules cfg) = []" if "?m = []"
    using that by (auto simp: matched_rules_Nil filter_empty_conv)
  show ?thesis
    unfolding evaluate_unfold Let_def deny ids
    using none matched_rules_Nil [of inp "pol_rules cfg"] by auto
qed

definition example_rules :: "rule list" where
  "example_rules =
     [(rule_new ''never-loud'' EffectDeny)
        \<lparr>ru_filter := \<lparr>ft_alternatives = [\<lparr>alt_kind = KVolume, alt_value = None\<rparr>],
                       ft_conditions = conditions_default\<lparr>cd_target_above := Some (- 40)\<rparr>\<rparr>\<rparr>,
      (rule_new ''slowly'' EffectRequireApproval)
        \<lparr>ru_filter := \<lparr>ft_alternatives = [\<lparr>alt_kind = KVolume, alt_value = None\<rparr>],
                       ft_conditions = conditions_default\<lparr>cd_budget := Some \<lparr>bg_rise = 12, bg_window_minutes = 10\<rparr>\<rparr>\<rparr>\<rparr>]"

definition example_policy :: policy_config where
  "example_policy = \<lparr>pol_rules = example_rules, pol_approval_lifetime = from_secs 60\<rparr>"

definition example_stamp :: stamp where
  "example_stamp =
     \<lparr>st_receiver = ReceiverId ''den'', st_epoch = 1, st_frame_seq = 1, st_observed_at = 0,
      st_valid_until = 10000, st_origin = ReceiverFrame\<rparr>"

definition example_state :: "int \<Rightarrow> receiver_state" where
  "example_state steps =
     snd (reduce example_stamp (CVolume (DbHalfSteps steps))
       (snd (establish_epoch 1 (receiver_state_new (ReceiverId ''den'')))))"

definition example_input :: "int \<Rightarrow> int \<Rightarrow> policy_input" where
  "example_input from_level to_level =
     \<lparr>pi_agent = ''claude'', pi_receiver = ReceiverId ''den'', pi_intent = IVolume (DbHalfSteps to_level),
      pi_state = example_state from_level,
      pi_recent = [\<lparr>rc_at = WallTime 100000, rc_before = Some (- 100), rc_target = - 96\<rparr>],
      pi_now = WallTime 200000\<rparr>"

lemma example_state_facts [simp]:
  "rs_epoch (example_state steps) = Some 1"
  "observed_volume (example_state steps) = Some steps"
proof -
  have "rs_receiver (snd (establish_epoch 1 (receiver_state_new (ReceiverId ''den'')))) = ReceiverId ''den''"
    "rs_epoch (snd (establish_epoch 1 (receiver_state_new (ReceiverId ''den'')))) = Some 1"
    by (simp_all add: receiver_state_new_def establish_epoch_def)
  then show "rs_epoch (example_state steps) = Some 1"
    "observed_volume (example_state steps) = Some steps"
    by (simp_all add: example_state_def example_stamp_def reduce_def observed_volume_def
          baseline_capture_def bump_revision_def usable_def fs_observe_def observed_def)
qed

lemmas example_eval =
  rule_spec_defs example_policy_def example_rules_def example_input_def rule_new_def
  scope_matches_def covers_def intent_target_def test_def test_target_above_def test_increase_def
  test_budget_def test_baseline_volume_def conditions_default_def conditions_is_empty_def above_def
  floor_in_window_def budget_window_def wall_time_less_unat unat_wt_saturating_sub

theorem evaluate_most_restrictive_witness:
  "decision_effect (evaluate (example_input (- 96) (- 20)) example_policy) = EffectDeny
   \<and> decision_effect (evaluate (example_input (- 96) (- 90)) example_policy) = EffectAllow
   \<and> decision_rules (evaluate (example_input (- 96) (- 50)) example_policy) = [''slowly'']"
proof -
  have a: "\<exists>r \<in> set (pol_rules example_policy).
      ru_effect r = EffectDeny \<and> rule_reasons (example_input (- 96) (- 20)) r \<noteq> None"
    by (simp add: example_eval)
  have b: "(\<exists>r \<in> set (pol_rules example_policy). rule_applies (example_input (- 96) (- 90)) r
      \<and> rule_names (example_input (- 96) (- 90)) r)
    \<and> (\<forall>r \<in> set (pol_rules example_policy). rule_reasons (example_input (- 96) (- 90)) r = None)"
    by (simp add: example_eval)
  have c: "map ru_id (filter (\<lambda>r. rule_reasons (example_input (- 96) (- 50)) r \<noteq> None)
      (pol_rules example_policy)) = [''slowly'']"
    by (simp add: example_eval)
  note spec = evaluate_most_restrictive [of _ example_policy]
  from a spec [of "example_input (- 96) (- 20)"]
  have "decision_effect (evaluate (example_input (- 96) (- 20)) example_policy) = EffectDeny" by blast
  moreover from b spec [of "example_input (- 96) (- 90)"]
  have "decision_effect (evaluate (example_input (- 96) (- 90)) example_policy) = EffectAllow" by blast
  moreover from spec [of "example_input (- 96) (- 50)"]
  have "decision_rules (evaluate (example_input (- 96) (- 50)) example_policy) = [''slowly'']"
    unfolding c by blast
  ultimately show ?thesis by blast
qed

section \<open>What a decision rests on\<close>

lemma observed_volume_cong:
  "baseline_capture s FVolume = baseline_capture t FVolume \<Longrightarrow> observed_volume s = observed_volume t"
  by (simp add: observed_volume_def)

text \<open>A rule that reads no volume tests the same in every state.\<close>

lemma test_not_reading:
  "\<not> reads_volume (ft_conditions (ru_filter r)) \<Longrightarrow> test r inp o1 target = test r inp o2 target"
  by (simp add: test_def test_increase_def test_budget_def test_baseline_volume_def reads_volume_def
        Let_def cong: option.case_cong)

lemma test_state_independent: "test r (inp\<lparr>pi_state := s\<rparr>) obs target = test r inp obs target"
  by (simp add: test_def Let_def cong: option.case_cong)

lemma rule_spec_state:
  "rule_applies (inp\<lparr>pi_state := s\<rparr>) r = rule_applies inp r"
  "rule_names (inp\<lparr>pi_state := s\<rparr>) r = rule_names inp r"
  "rule_covers (inp\<lparr>pi_state := s\<rparr>) r = rule_covers inp r"
  "rule_reads (inp\<lparr>pi_state := s\<rparr>) r = rule_reads inp r"
  by (simp_all add: rule_spec_defs)

lemma rule_reasons_state:
  assumes "rule_reads inp r \<Longrightarrow> observed_volume s = observed_volume (pi_state inp)"
  shows "rule_reasons (inp\<lparr>pi_state := s\<rparr>) r = rule_reasons inp r"
proof (cases "rule_reads inp r")
  case True
  with assms show ?thesis by (simp add: rule_reasons_def rule_spec_state test_state_independent)
next
  case False
  then have "test r inp (observed_volume s) t = test r inp (observed_volume (pi_state inp)) t"
    if "rule_covers inp r" for t
    using that test_not_reading by (auto simp: rule_reads_def)
  then show ?thesis by (simp add: rule_reasons_def rule_spec_state test_state_independent)
qed

lemma evaluate_state_cong:
  assumes "\<And>f. f \<in> rules_read inp cfg \<Longrightarrow> baseline_capture s f = baseline_capture (pi_state inp) f"
  shows "evaluate (inp\<lparr>pi_state := s\<rparr>) cfg = evaluate inp cfg"
proof -
  have "rule_reasons (inp\<lparr>pi_state := s\<rparr>) r = rule_reasons inp r" if "r \<in> set (pol_rules cfg)" for r
  proof (rule rule_reasons_state)
    assume "rule_reads inp r"
    with that have "FVolume \<in> rules_read inp cfg" by (auto simp: rules_read_def)
    from observed_volume_cong [OF assms [OF this]]
    show "observed_volume s = observed_volume (pi_state inp)" .
  qed
  then have "matched_rules (inp\<lparr>pi_state := s\<rparr>) (pol_rules cfg) = matched_rules inp (pol_rules cfg)"
    unfolding matched_rules_def by (metis (mono_tags, lifting) map_cong)
  moreover have "rules_read (inp\<lparr>pi_state := s\<rparr>) cfg = rules_read inp cfg"
    by (simp add: rules_read_def rule_spec_state)
  ultimately show ?thesis unfolding evaluate_unfold rule_spec_state by (simp only:)
qed

lemma precondition_stable:
  assumes "decision_baseline (evaluate inp cfg) = Some b" "set fs = b"
    and "precondition_capture (pi_state inp) fs = Some p" "mismatch p later = None"
  shows "evaluate (inp\<lparr>pi_state := later\<rparr>) cfg = evaluate inp cfg"
proof (rule evaluate_state_cong)
  fix f
  assume "f \<in> rules_read inp cfg"
  with assms(1,2) have "f \<in> set fs" by (auto dest: evaluate_baseline)
  with assms(3) have "pc_fields p f = Some (baseline_capture (pi_state inp) f)"
    by (simp add: precondition_capture_Some)
  with assms(4) have "holds_in (baseline_capture (pi_state inp) f) later"
    by (simp add: mismatch_None)
  then show "baseline_capture later f = baseline_capture (pi_state inp) f" by (simp add: holds_in_def)
qed

text \<open>
  C7: a decision that reports a baseline is bound to it. If the precondition captured from
  the decided state over the baseline's fields holds in a later state, evaluating the same
  request there gives the same decision.
\<close>

theorem decision_stable_under_precondition:
  assumes "decision_baseline (evaluate inp cfg) = Some b" "set fs = b"
    and "precondition_capture (pi_state inp) fs = Some p" "mismatch p later = None"
  shows "evaluate (inp\<lparr>pi_state := later\<rparr>) cfg = evaluate inp cfg"
  using assms by (rule precondition_stable)

theorem decision_stable_under_precondition_witness:
  "evaluate ((example_input (- 96) (- 90))\<lparr>pi_state := record_diagnostic ''ZZ'' (example_state (- 96))\<rparr>)
     example_policy = evaluate (example_input (- 96) (- 90)) example_policy"
proof -
  let ?p = "\<lparr>pc_epoch = 1, pc_fields = (\<lambda>f. if f \<in> set [FVolume]
     then Some (baseline_capture (example_state (- 96)) f) else None)\<rparr>"
  have e: "rs_epoch (example_state (- 96)) = Some 1" by simp
  have "decision_baseline (evaluate (example_input (- 96) (- 90)) example_policy) = Some {FVolume}"
    by (simp add: evaluate_unfold matched_rules_def rules_read_def reads_volume_def example_eval)
  moreover have st: "pi_state (example_input (- 96) (- 90)) = example_state (- 96)"
    by (simp add: example_input_def)
  moreover have "precondition_capture (example_state (- 96)) [FVolume] = Some ?p"
    using e by (simp add: precondition_capture_Some)
  moreover have "baseline_capture (record_diagnostic ''ZZ'' (example_state (- 96))) f
      = baseline_capture (example_state (- 96)) f" for f
    by (rule usable_cong_view) simp
  then have "mismatch ?p (record_diagnostic ''ZZ'' (example_state (- 96))) = None"
    using e by (simp add: mismatch_None holds_in_def)
  ultimately show ?thesis
    using decision_stable_under_precondition
      [of "example_input (- 96) (- 90)" example_policy "{FVolume}" "[FVolume]" ?p] by simp
qed

section \<open>The volume budget\<close>

lemma foldl_min_le: "foldl min (a :: level) ls \<le> a \<and> (\<forall>l \<in> set ls. foldl min a ls \<le> l)"
proof (induction ls arbitrary: a)
  case (Cons l ls)
  have "foldl min (min a l) ls \<le> min a l" "\<forall>x \<in> set ls. foldl min (min a l) ls \<le> x"
    using Cons.IH [of "min a l"] by simp_all
  then show ?case by auto
qed simp

lemma foldl_min_in: "foldl min (a :: level) ls \<in> insert a (set ls)"
proof (induction ls arbitrary: a)
  case (Cons l ls)
  from Cons.IH [of "min a l"] show ?case by (auto simp: min_def split: if_splits)
qed simp

definition change_levels :: "recent_change \<Rightarrow> level set" where
  "change_levels c = insert (rc_target c) (set_option (rc_before c))"

lemma floor_in_window_le:
  "floor_in_window ob recent now w \<le> ob"
  "c \<in> set recent \<Longrightarrow> rc_at c > wt_saturating_sub now w \<Longrightarrow> l \<in> change_levels c \<Longrightarrow>
   floor_in_window ob recent now w \<le> l"
proof -
  show "floor_in_window ob recent now w \<le> ob"
    by (simp add: floor_in_window_def Let_def foldl_min_le)
  assume "c \<in> set recent" "rc_at c > wt_saturating_sub now w" "l \<in> change_levels c"
  then show "floor_in_window ob recent now w \<le> l"
    unfolding floor_in_window_def Let_def
    by (intro foldl_min_le [THEN conjunct2, rule_format])
       (auto simp: change_levels_def split: option.splits)
qed

text \<open>A budget rule on its own: its only condition is the budget.\<close>

definition pure_budget_rule :: "rule \<Rightarrow> budget \<Rightarrow> bool" where
  "pure_budget_rule r b \<longleftrightarrow>
     ft_conditions (ru_filter r) = conditions_default\<lparr>cd_budget := Some b\<rparr> \<and> ru_effect r \<noteq> EffectAllow"

lemma test_pure_budget_None:
  assumes "pure_budget_rule r b" "test r inp obs (Some t) = None"
  shows "\<exists>ob. obs = Some ob \<and>
    (t \<le> ob \<or> t - floor_in_window ob (pi_recent inp) (pi_now inp) (budget_window b) \<le> int (bg_rise b))"
  using assms
  by (auto simp: pure_budget_rule_def test_def test_target_above_def test_increase_def test_budget_def
        test_baseline_volume_def conditions_default_def above_def Let_def split: option.splits if_splits)

lemma allowed_volume_bound:
  assumes "decision_effect (evaluate inp cfg) = EffectAllow" "pi_intent inp = IVolume v"
    and "r \<in> set (pol_rules cfg)" "pure_budget_rule r b" "rule_covers inp r"
  shows "\<exists>ob. observed_volume (pi_state inp) = Some ob \<and>
      (level_of v \<le> ob \<or>
       level_of v \<le> ob + int (bg_rise b) \<and>
       (\<forall>c \<in> set (pi_recent inp). rc_at c > wt_saturating_sub (pi_now inp) (budget_window b) \<longrightarrow>
          (\<forall>l \<in> change_levels c. level_of v \<le> l + int (bg_rise b))))"
proof -
  let ?floor = "\<lambda>ob. floor_in_window ob (pi_recent inp) (pi_now inp) (budget_window b)"
  have "rule_reasons inp r = None"
    using assms(1,3) by (auto simp: evaluate_unfold Let_def matched_rules_Nil split: if_splits)
  with assms have "test r inp (observed_volume (pi_state inp)) (Some (level_of v)) = None"
    by (simp add: rule_reasons_def pure_budget_rule_def intent_target_def)
  from test_pure_budget_None [OF assms(4) this] obtain ob
    where ob: "observed_volume (pi_state inp) = Some ob"
      and le: "level_of v \<le> ob \<or> level_of v - ?floor ob \<le> int (bg_rise b)" by blast
  show ?thesis
  proof (cases "level_of v \<le> ob")
    case True
    with ob show ?thesis by blast
  next
    case False
    with le have "level_of v \<le> ?floor ob + int (bg_rise b)" by simp
    moreover have "?floor ob \<le> ob" by (rule floor_in_window_le)
    moreover have "?floor ob \<le> l" if "c \<in> set (pi_recent inp)" "l \<in> change_levels c"
      "rc_at c > wt_saturating_sub (pi_now inp) (budget_window b)" for c l
      using that by (intro floor_in_window_le(2))
    ultimately show ?thesis using ob by (meson add_right_mono order_trans)
  qed
qed



section \<open>Ledger entries older than every window\<close>

lemma foldr_max_ge: "x \<in> set xs \<Longrightarrow> x \<le> foldr max xs (d :: nat)"
  by (induction xs) (auto simp: le_max_iff_disj)

lemma foldr_max_le: "\<forall>x \<in> set xs. x \<le> m \<Longrightarrow> foldr max xs 0 \<le> (m :: nat)"
  by (induction xs) simp_all

lemma budget_window_le_longest:
  "r \<in> set (pol_rules cfg) \<Longrightarrow> cd_budget (ft_conditions (ru_filter r)) = Some b \<Longrightarrow>
   budget_window b \<le> longest_window cfg"
  unfolding longest_window_def
  by (intro foldr_max_ge) (force simp: budgets_def List.map_filter_def)

lemma floor_in_window_filter:
  assumes "w \<le> d"
  shows "floor_in_window ob (filter (\<lambda>c. rc_at c > wt_saturating_sub now d) recent) now w
       = floor_in_window ob recent now w"
proof -
  have "wt_saturating_sub now d \<le> wt_saturating_sub now w" using assms by (rule wt_saturating_sub_antimono)
  then have "filter (\<lambda>c. rc_at c > wt_saturating_sub now w)
        (filter (\<lambda>c. rc_at c > wt_saturating_sub now d) recent)
      = filter (\<lambda>c. rc_at c > wt_saturating_sub now w) recent"
    by (auto simp: filter_filter intro: filter_cong)
  then show ?thesis by (simp add: floor_in_window_def)
qed

lemma rule_spec_recent:
  "rule_applies (inp\<lparr>pi_recent := q\<rparr>) r = rule_applies inp r"
  "rule_names (inp\<lparr>pi_recent := q\<rparr>) r = rule_names inp r"
  "rule_covers (inp\<lparr>pi_recent := q\<rparr>) r = rule_covers inp r"
  "rule_reads (inp\<lparr>pi_recent := q\<rparr>) r = rule_reads inp r"
  by (simp_all add: rule_spec_defs)

text \<open>
  C31: \<open>longest_window\<close> is enough. Forgetting every recent change at or before the start of
  the widest budget window of the policy never changes a decision.
\<close>

theorem longest_window_sufficient:
  "evaluate (inp\<lparr>pi_recent := filter (\<lambda>c. rc_at c > wt_saturating_sub (pi_now inp) (longest_window cfg))
       (pi_recent inp)\<rparr>) cfg = evaluate inp cfg"
proof -
  let ?q = "filter (\<lambda>c. rc_at c > wt_saturating_sub (pi_now inp) (longest_window cfg)) (pi_recent inp)"
  have "test_budget (ft_conditions (ru_filter r)) ?q (pi_now inp) obs t
      = test_budget (ft_conditions (ru_filter r)) (pi_recent inp) (pi_now inp) obs t"
    if "r \<in> set (pol_rules cfg)" for r obs t
    using budget_window_le_longest [OF that]
    by (auto simp: test_budget_def floor_in_window_filter split: option.splits)
  then have "rule_reasons (inp\<lparr>pi_recent := ?q\<rparr>) r = rule_reasons inp r" if "r \<in> set (pol_rules cfg)" for r
    using that by (simp add: rule_reasons_def rule_spec_recent test_def Let_def cong: option.case_cong)
  then have "matched_rules (inp\<lparr>pi_recent := ?q\<rparr>) (pol_rules cfg) = matched_rules inp (pol_rules cfg)"
    unfolding matched_rules_def by (metis (mono_tags, lifting) map_cong)
  moreover have "rules_read (inp\<lparr>pi_recent := ?q\<rparr>) cfg = rules_read inp cfg"
    by (simp add: rules_read_def rule_spec_recent)
  ultimately show ?thesis unfolding evaluate_unfold rule_spec_recent by (simp only:)
qed

section \<open>Validated policies\<close>

definition rule_valid :: "rule \<Rightarrow> bool" where
  "rule_valid r \<longleftrightarrow> validate_rule r = Ok ()"

lemma check_rules_Ok:
  "check_rules seen rs = Ok () \<longleftrightarrow>
     (\<forall>r \<in> set rs. rule_valid r) \<and> distinct (map ru_id rs) \<and> set (map ru_id rs) \<inter> seen = {}"
  by (induction seen rs rule: check_rules.induct) (auto simp: rule_valid_def split: sum.splits)

lemma validate_rule_Ok:
  assumes "validate_rule r = Ok ()"
  shows "ru_effect r = EffectAllow \<Longrightarrow>
           conditions_is_empty (ft_conditions (ru_filter r)) \<and> ft_alternatives (ru_filter r) \<noteq> []"
    and "about_a_volume_target (ft_conditions (ru_filter r)) \<Longrightarrow> only_volume (ft_alternatives (ru_filter r))"
    and "cd_budget (ft_conditions (ru_filter r)) = Some b \<Longrightarrow> budget_window b \<le> from_secs (24 * 3600)"
  using assms by (auto simp: validate_rule_def Let_def budget_window_def from_secs_def MAX_WINDOW_MINUTES_def
        split: if_splits option.splits)

text \<open>
  What validation buys the engine. Under a policy \<open>PolicyConfig::new\<close> accepts, rule
  ids are distinct, no budget window exceeds a day, and when the current volume is not known
  no covering rule whose conditions all read it can fail to match: an unusable volume is
  never a way around a limit.
\<close>

theorem validated_policy_fails_closed:
  assumes "policy_config_new rules lifetime = Ok cfg"
  shows "distinct (map ru_id (pol_rules cfg))
       \<and> longest_window cfg \<le> from_secs (24 * 3600)
       \<and> (observed_volume (pi_state inp) = None \<longrightarrow> r \<in> set (pol_rules cfg) \<longrightarrow> rule_covers inp r
          \<longrightarrow> reads_volume (ft_conditions (ru_filter r)) \<longrightarrow> cd_target_above (ft_conditions (ru_filter r)) = None
          \<longrightarrow> decision_effect (evaluate inp cfg) \<noteq> EffectAllow \<and> rule_reasons inp r \<noteq> None)"
proof -
  from assms have rules: "pol_rules cfg = rules" and ok: "check_rules {} rules = Ok ()"
    by (auto simp: policy_config_new_def split: sum.splits)
  then have valid: "\<forall>r \<in> set rules. validate_rule r = Ok ()" and ids: "distinct (map ru_id rules)"
    by (simp_all add: check_rules_Ok rule_valid_def)
  have window: "longest_window cfg \<le> from_secs (24 * 3600)"
    unfolding longest_window_def using valid validate_rule_Ok(3)
    by (intro foldr_max_le) (auto simp: budgets_def List.map_filter_def rules)
  have "rule_reasons inp r \<noteq> None \<and> decision_effect (evaluate inp cfg) \<noteq> EffectAllow"
    if unknown: "observed_volume (pi_state inp) = None" and r: "r \<in> set (pol_rules cfg)" "rule_covers inp r"
      and reads: "reads_volume (ft_conditions (ru_filter r))"
      and no_cap: "cd_target_above (ft_conditions (ru_filter r)) = None"
  proof -
    let ?c = "ft_conditions (ru_filter r)"
    from valid r rules have v: "validate_rule r = Ok ()" by simp
    have eff: "ru_effect r \<noteq> EffectAllow"
      using validate_rule_Ok(1) [OF v] reads
      by (auto simp: conditions_is_empty_def conditions_default_def reads_volume_def)
    have target: "intent_target (pi_intent inp) \<noteq> None" if "about_a_volume_target ?c"
    proof -
      from validate_rule_Ok(2) [OF v that] have "only_volume (ft_alternatives (ru_filter r))" .
      with r(2) have "kind_of (pi_intent inp) = KVolume"
        by (auto simp: only_volume_def rule_covers_def rule_names_def covers_def list_ex_iff list_all_iff)
      then show ?thesis by (cases "pi_intent inp") (simp_all add: intent_target_def)
    qed
    have "rule_reasons inp r \<noteq> None"
      using r eff unknown no_cap target
      by (cases "about_a_volume_target ?c")
         (auto simp: rule_reasons_def test_def test_target_above_def test_increase_def test_budget_def
            test_baseline_volume_def about_a_volume_target_def Let_def split: option.splits)
    moreover from this r(1) have "matched_rules inp (pol_rules cfg) \<noteq> []"
      by (auto simp: matched_rules_Nil)
    ultimately show ?thesis by (auto simp: evaluate_unfold Let_def)
  qed
  with ids rules window show ?thesis by blast
qed

theorem validated_policy_fails_closed_witness:
  "policy_config_new example_rules (from_secs 60) = Ok example_policy
   \<and> distinct (map ru_id (pol_rules example_policy))"
proof -
  have "policy_config_new example_rules (from_secs 60) = Ok example_policy"
    by (simp add: policy_config_new_def validate_rule_def example_rules_def example_policy_def rule_new_def
          invalid_value_def about_a_volume_target_def conditions_default_def only_volume_def
          MAX_WINDOW_MINUTES_def text_defs)
  with validated_policy_fails_closed [OF this] show ?thesis by blast
qed

end
