(* ===== verification/Control.thy ===== *)
theory Control
  imports Policy Ordered_Map
begin

text \<open>
  The values of the control-service port, \<open>crates/application/src/control.rs\<close>, with the
  policy digest of \<open>policy_source.rs\<close>, the token identifiers of \<open>tokens.rs\<close> and the errors
  of \<open>ports.rs\<close>. The traits of the port have no state of their own; their implementation
  is the service.
\<close>

section \<open>Principals and keys\<close>

definition MAX_KEY_LEN :: nat where "MAX_KEY_LEN = 128"

definition validate_text :: "string \<Rightarrow> nat \<Rightarrow> string \<Rightarrow> (unit, string) result" where
  "validate_text v mx what =
     (if is_blank v \<or> has_control v \<or> length v > mx then Err what else Ok ())"

datatype agent_label = AgentLabel (agent_label_str: string)

definition agent_label_new :: "string \<Rightarrow> (agent_label, string) result" where
  "agent_label_new v =
     (case validate_text v MAX_LABEL_LEN
        ''agent label must be 1 to 64 characters with no control characters'' of
        Err e \<Rightarrow> Err e | Ok _ \<Rightarrow> Ok (AgentLabel v))"

datatype principal = Operator | Agent agent_label

datatype idempotency_key = IdempotencyKey string

definition idempotency_key_new :: "string \<Rightarrow> (idempotency_key, string) result" where
  "idempotency_key_new v =
     (case validate_text v MAX_KEY_LEN
        ''idempotency key must be 1 to 128 characters with no control characters'' of
        Err e \<Rightarrow> Err e | Ok _ \<Rightarrow> Ok (IdempotencyKey v))"

record operation_submission =
  os_intent :: receiver_intent
  os_idempotency_key :: "idempotency_key option"

section \<open>Operations as callers see them\<close>

datatype operation_status =
    Submitted | Allowed | AwaitingApproval | Approved | InSession
  | Denied | ApprovalUnavailable | ApprovalRejected | StatusExpired | Cancelled
  | Completed | AlreadyInState | Rejected | Superseded operation_id | IndeterminateStatus

fun is_terminal :: "operation_status \<Rightarrow> bool" where
  "is_terminal Submitted = False"
| "is_terminal Allowed = False"
| "is_terminal AwaitingApproval = False"
| "is_terminal Approved = False"
| "is_terminal InSession = False"
| "is_terminal _ = True"

fun status_str :: "operation_status \<Rightarrow> string" where
  "status_str Submitted = ''submitted''"
| "status_str Allowed = ''allowed''"
| "status_str AwaitingApproval = ''awaiting_approval''"
| "status_str Approved = ''approved''"
| "status_str InSession = ''in_session''"
| "status_str Denied = ''denied''"
| "status_str ApprovalUnavailable = ''approval_unavailable''"
| "status_str ApprovalRejected = ''approval_rejected''"
| "status_str StatusExpired = ''expired''"
| "status_str Cancelled = ''cancelled''"
| "status_str Completed = ''completed''"
| "status_str AlreadyInState = ''already_in_state''"
| "status_str Rejected = ''rejected''"
| "status_str (Superseded _) = ''superseded''"
| "status_str IndeterminateStatus = ''indeterminate''"

record operation_snapshot =
  sn_id :: operation_id
  sn_receiver :: receiver_id
  sn_intent :: receiver_intent
  sn_status :: operation_status
  sn_dispatch :: dispatch_certainty
  sn_confirmed :: bool
  sn_reason :: "string option"
  sn_observation :: "string option"

datatype operation_error_kind =
    ErrConfiguration | ErrDiscovery | ErrInvalidSelection | ErrConnection | ErrTimeout
  | ErrDisconnected | ErrMalformed | ErrUnavailable | ErrUnsupported | ErrStopped | ErrConflict

record operation_error =
  oe_kind :: operation_error_kind
  oe_context :: string
  oe_message :: string

definition operation_error_fmt :: "operation_error \<Rightarrow> string" where
  "operation_error_fmt e = oe_context e @ '': '' @ oe_message e"

datatype control_error =
    NotFound string
  | Forbidden
  | InvalidRequest string
  | UnavailableError string
  | TooLate operation_snapshot
  | RateLimited "duration option"
  | ReceiverError operation_error

fun control_error_fmt :: "control_error \<Rightarrow> string" where
  "control_error_fmt (NotFound what) = what @ '' not found''"
| "control_error_fmt Forbidden = ''not permitted''"
| "control_error_fmt (InvalidRequest m) = ''invalid request: '' @ m"
| "control_error_fmt (UnavailableError m) = ''service unavailable: '' @ m"
| "control_error_fmt (TooLate sn) = ''too late to cancel: operation is '' @ status_str (sn_status sn)"
| "control_error_fmt (RateLimited _) = ''rate limited''"
| "control_error_fmt (ReceiverError e) = operation_error_fmt e"

section \<open>Capabilities as an agent sees them\<close>

datatype policy_health = PolicyNotConfigured | PolicyActive | PolicyUnavailable
datatype audit_health = AuditNotConfigured | AuditOk | AuditFailing
datatype approval_health = ApprovalPathUnavailable

record service_health =
  sh_policy :: policy_health
  sh_audit :: audit_health
  sh_ledger_ready :: bool
  sh_approval :: approval_health

section \<open>The digest of a policy file\<close>

text \<open>
  \<open>PolicyDigest\<close> is an array of 32 bytes; each byte is a number below 256. The two nibbles of
  \<open>hex_digit(a)? << 4 | hex_digit(b)?\<close> do not overlap, so the byte is \<open>16 * a + b\<close>.
\<close>

datatype policy_digest = PolicyDigest (digest_bytes: "nat list")

definition hex_digit :: "char \<Rightarrow> nat option" where
  "hex_digit c =
     (if is_ascii_digit c then Some (byte c - 48)
      else if 97 \<le> byte c \<and> byte c \<le> 102 then Some (byte c - 97 + 10)
      else None)"

fun hex_bytes :: "string \<Rightarrow> nat list option" where
  "hex_bytes [] = Some []"
| "hex_bytes [_] = None"
| "hex_bytes (a # b # rest) =
     (case (hex_digit a, hex_digit b) of
        (Some x, Some y) \<Rightarrow> map_option ((#) (x * 16 + y)) (hex_bytes rest)
      | _ \<Rightarrow> None)"

definition digest_from_hex :: "string \<Rightarrow> policy_digest option" where
  "digest_from_hex t = (if length t \<noteq> 64 then None else map_option PolicyDigest (hex_bytes t))"

definition hex_char :: "nat \<Rightarrow> char" where
  "hex_char n = ''0123456789abcdef'' ! (n mod 16)"

definition digest_fmt :: "policy_digest \<Rightarrow> string" where
  "digest_fmt d = concat (map (\<lambda>b. [hex_char (b div 16), hex_char b]) (digest_bytes d))"

definition digest_wf :: "policy_digest \<Rightarrow> bool" where
  "digest_wf d = (length (digest_bytes d) = 32 \<and> list_all (\<lambda>b. b < 256) (digest_bytes d))"

lemma hex_digit_hex_char: "hex_digit (hex_char n) = Some (n mod 16)"
proof -
  have "list_all (\<lambda>n. hex_digit (''0123456789abcdef'' ! n) = Some n) [0..<16]"
    by (simp add: upt_rec hex_digit_def is_ascii_digit_def byte_def)
  then show ?thesis by (simp add: list_all_iff hex_char_def)
qed

lemma hex_bytes_fmt:
  "list_all (\<lambda>b. b < 256) bs \<Longrightarrow>
   hex_bytes (concat (map (\<lambda>b. [hex_char (b div 16), hex_char b]) bs)) = Some bs"
  by (induction bs) (auto simp: hex_digit_hex_char less_mult_imp_div_less)

lemma length_digest_fmt: "length (digest_fmt d) = 2 * length (digest_bytes d)"
  by (simp add: digest_fmt_def length_concat o_def sum_list_triv)

text \<open>
  A policy digest prints as 64 hexadecimal digits that read back as the same digest, so
  the digest an audit record names is the digest of the policy that decided.
\<close>

theorem digest_roundtrip:
  assumes "digest_wf d"
  shows "length (digest_fmt d) = 64 \<and> digest_from_hex (digest_fmt d) = Some d"
proof -
  have "length (digest_fmt d) = 64" using assms by (simp add: length_digest_fmt digest_wf_def)
  moreover have "hex_bytes (digest_fmt d) = Some (digest_bytes d)"
    using assms unfolding digest_fmt_def digest_wf_def by (intro hex_bytes_fmt) simp
  ultimately show ?thesis by (simp add: digest_from_hex_def)
qed

theorem digest_roundtrip_witness:
  "digest_from_hex (digest_fmt (PolicyDigest (171 # replicate 31 7))) = Some (PolicyDigest (171 # replicate 31 7))"
proof -
  have "digest_wf (PolicyDigest (171 # replicate 31 7))" by (simp add: digest_wf_def list_all_iff)
  from digest_roundtrip [OF this] show ?thesis by blast
qed

section \<open>Token identifiers\<close>

datatype token_id = TokenId (token_id_str: string)

definition ID_PREFIX :: string where "ID_PREFIX = ''t-''"
definition ID_DIGITS :: nat where "ID_DIGITS = 8"

definition token_id_new :: "string \<Rightarrow> (token_id, string) result" where
  "token_id_new v =
     (let digits = (case strip_prefix ID_PREFIX v of Some d \<Rightarrow> d | None \<Rightarrow> []) in
      if length digits \<noteq> ID_DIGITS \<or> \<not> list_all (\<lambda>c. hex_digit c \<noteq> None) digits
      then Err ''a token id is \"t-\" and eight lowercase hexadecimal digits''
      else Ok (TokenId v))"

end
