(* ===== verification/Audit_Records.thy ===== *)
theory Audit_Records
  imports Control
begin

text \<open>
  \<open>crates/application/src/audit.rs\<close>: what the audit log records, the names records use, and
  the text of an intent. The log itself is a port; the service theory takes its appends as a
  parameter.
\<close>

definition AUDIT_SCHEMA :: nat where "AUDIT_SCHEMA = 1"
definition MAX_PAGE :: nat where "MAX_PAGE = 500"
definition MAX_INTENT_TEXT :: nat where "MAX_INTENT_TEXT = 128"
definition MAX_REASON_TEXT :: nat where "MAX_REASON_TEXT = 512"

datatype audit_decision = AuditAllow | AuditRequireApproval | AuditDeny

datatype endpoint_kind = OperatorEndpoint | AgentEndpoint

fun endpoint_str :: "endpoint_kind \<Rightarrow> string" where
  "endpoint_str OperatorEndpoint = ''operator''"
| "endpoint_str AgentEndpoint = ''agent''"

definition endpoint_parse :: "string \<Rightarrow> endpoint_kind option" where
  "endpoint_parse name = List.find (\<lambda>k. endpoint_str k = name) [OperatorEndpoint, AgentEndpoint]"

datatype refusal_reason =
    PeerNotAdmitted | NoCredential | UnknownCredential | OperatorTokenOnAgentEndpoint
  | AgentTokenOnOperatorEndpoint | ResourceNotServed

definition refusal_reasons :: "refusal_reason list" where
  "refusal_reasons =
     [PeerNotAdmitted, NoCredential, UnknownCredential, OperatorTokenOnAgentEndpoint,
      AgentTokenOnOperatorEndpoint, ResourceNotServed]"

fun refusal_str :: "refusal_reason \<Rightarrow> string" where
  "refusal_str PeerNotAdmitted = ''peer_not_admitted''"
| "refusal_str NoCredential = ''no_credential''"
| "refusal_str UnknownCredential = ''unknown_credential''"
| "refusal_str OperatorTokenOnAgentEndpoint = ''operator_token_on_agent_endpoint''"
| "refusal_str AgentTokenOnOperatorEndpoint = ''agent_token_on_operator_endpoint''"
| "refusal_str ResourceNotServed = ''resource_not_served''"

definition refusal_parse :: "string \<Rightarrow> refusal_reason option" where
  "refusal_parse name = List.find (\<lambda>r. refusal_str r = name) refusal_reasons"

datatype audit_event =
    Decided string audit_decision "string list" "string list" "core_field list" "policy_digest option"
  | Dispatching string "int option" "int option" "core_field list"
  | Finished string dispatch_certainty bool "string option"
  | PolicyLoaded policy_digest
  | PolicyLoadFailed string
  | AccessRefused endpoint_kind refusal_reason "nat option" "string option" nat
  | TokenIssued token_id agent_label
  | TokenRevoked token_id agent_label

record audit_record =
  ar_schema :: nat
  ar_run :: wall_time
  ar_at :: wall_time
  ar_operation :: "operation_id option"
  ar_principal :: "principal option"
  ar_receiver :: "receiver_id option"
  ar_event :: audit_event

record access_refusal =
  af_endpoint :: endpoint_kind
  af_reason :: refusal_reason
  af_principal :: "principal option"
  af_peer_uid :: "nat option"
  af_resource :: "string option"

record audit_query =
  aq_limit :: nat
  aq_cursor :: "u64 option"

definition audit_query_new :: "nat \<Rightarrow> audit_query" where
  "audit_query_new limit = \<lparr>aq_limit = max 1 (min limit MAX_PAGE), aq_cursor = None\<rparr>"

definition audit_query_after :: "u64 \<Rightarrow> audit_query \<Rightarrow> audit_query" where
  "audit_query_after cursor q = q\<lparr>aq_cursor := Some cursor\<rparr>"

datatype durability = Flushed | Synced

definition bounded :: "string \<Rightarrow> nat \<Rightarrow> string" where
  "bounded t mx = concat (take mx (utf8_chars t))"

fun zone_power_text :: "zone_power \<Rightarrow> string" where
  "zone_power_text ZoneOn = ''on''"
| "zone_power_text ZoneOff = ''off''"

fun sound_mode_text :: "sound_mode_intent \<Rightarrow> string" where
  "sound_mode_text Auto = ''auto''"
| "sound_mode_text Direct = ''direct''"
| "sound_mode_text PureDirect = ''pure_direct''"
| "sound_mode_text Stereo = ''stereo''"
| "sound_mode_text RecallMovie = ''recall_movie''"
| "sound_mode_text RecallMusic = ''recall_music''"
| "sound_mode_text RecallGame = ''recall_game''"
| "sound_mode_text (Select name) = name"

fun intent_name_value :: "receiver_intent \<Rightarrow> string \<times> string" where
  "intent_name_value (ISystemPower SystemOn) = (''system_power'', ''on'')"
| "intent_name_value (ISystemPower SystemStandby) = (''system_power'', ''standby'')"
| "intent_name_value (IMainZonePower p) = (''main_zone_power'', zone_power_text p)"
| "intent_name_value (IZone2Power p) = (''zone2_power'', zone_power_text p)"
| "intent_name_value (ISource i) = (''source'', source_id_str i)"
| "intent_name_value (IVolume Minimum) = (''volume'', ''minimum'')"
| "intent_name_value (IVolume (DbHalfSteps steps)) = (''volume'', show_halves steps @ '' dB'')"
| "intent_name_value (IMute MuteOn) = (''mute'', ''on'')"
| "intent_name_value (IMute MuteOff) = (''mute'', ''off'')"
| "intent_name_value (ISoundMode m) = (''sound_mode'', sound_mode_text m)"

definition blank_controls :: "string \<Rightarrow> string" where
  "blank_controls t = concat (map (\<lambda>c. if is_control c then '' '' else c) (utf8_chars t))"

definition intent_text :: "receiver_intent \<Rightarrow> string" where
  "intent_text i =
     (case intent_name_value i of (name, v) \<Rightarrow>
        bounded (blank_controls (name @ '' '' @ v)) MAX_INTENT_TEXT)"

fun core_field_name :: "core_field \<Rightarrow> string" where
  "core_field_name FSystemPower = ''system_power''"
| "core_field_name FMainZonePower = ''main_zone_power''"
| "core_field_name FZone2Power = ''zone2_power''"
| "core_field_name FSource = ''source''"
| "core_field_name FVolume = ''volume''"
| "core_field_name FMute = ''mute''"
| "core_field_name FSoundMode = ''sound_mode''"

definition parse_core_field :: "string \<Rightarrow> core_field option" where
  "parse_core_field name = List.find (\<lambda>f. core_field_name f = name) core_fields"

section \<open>Names read back\<close>

lemma endpoint_parse_str: "endpoint_parse n = Some k \<longleftrightarrow> n = endpoint_str k"
  by (cases k) (auto simp: endpoint_parse_def)

lemma refusal_parse_str: "refusal_parse n = Some r \<longleftrightarrow> n = refusal_str r"
  by (cases r) (auto simp: refusal_parse_def refusal_reasons_def)

lemma parse_core_field_name: "parse_core_field n = Some f \<longleftrightarrow> n = core_field_name f"
  by (cases f) (auto simp: parse_core_field_def core_fields_def)

lemma audit_query_new_bounds: "1 \<le> aq_limit (audit_query_new n) \<and> aq_limit (audit_query_new n) \<le> MAX_PAGE"
  by (simp add: audit_query_new_def MAX_PAGE_def)

section \<open>The text of an intent is one short line\<close>

text \<open>Cutting a string into scalar values and joining well-formed pieces are inverse.\<close>

definition segment :: "string \<Rightarrow> bool" where
  "segment s = (s \<noteq> [] \<and> list_all is_cont (tl s))"

definition starts_char :: "string \<Rightarrow> bool" where
  "starts_char s = (s \<noteq> [] \<and> \<not> is_cont (hd s))"

lemma takeWhile_cont_concat:
  "list_all starts_char segs \<Longrightarrow> list_all is_cont s \<Longrightarrow>
   takeWhile is_cont (s @ concat segs) = s \<and> dropWhile is_cont (s @ concat segs) = concat segs"
proof -
  assume segs: "list_all starts_char segs" and s: "list_all is_cont s"
  have "takeWhile is_cont (concat segs) = [] \<and> dropWhile is_cont (concat segs) = concat segs"
    using segs by (cases segs) (auto simp: starts_char_def neq_Nil_conv)
  with s show ?thesis by (simp add: takeWhile_append2 dropWhile_append2 list_all_iff)
qed

lemma utf8_chars_concat:
  "list_all segment segs \<Longrightarrow> list_all starts_char (tl segs) \<Longrightarrow> utf8_chars (concat segs) = segs"
proof (induction segs)
  case (Cons s segs)
  then obtain c cs where s: "s = c # cs" "list_all is_cont cs"
    by (auto simp: segment_def neq_Nil_conv)
  have "list_all starts_char segs" using Cons.prems by simp
  then have "list_all starts_char (tl segs)" by (cases segs) simp_all
  with Cons have "utf8_chars (concat segs) = segs" by simp
  with takeWhile_cont_concat [OF \<open>list_all starts_char segs\<close> s(2)] s show ?case by simp
qed simp

lemma utf8_chars_segments: "list_all segment (utf8_chars s) \<and> list_all starts_char (tl (utf8_chars s))"
proof (induction s rule: utf8_chars.induct)
  case (2 b bs)
  have "list_all is_cont (takeWhile is_cont bs)"
    unfolding list_all_iff by (meson set_takeWhileD)
  moreover have "list_all starts_char (utf8_chars (dropWhile is_cont bs))"
  proof (cases "dropWhile is_cont bs")
    case (Cons d ds)
    then have "\<not> is_cont d" using hd_dropWhile [of is_cont bs] by simp
    then have "starts_char (d # takeWhile is_cont ds)" by (simp add: starts_char_def)
    with 2 Cons show ?thesis by simp
  next
    case Nil
    show ?thesis unfolding Nil by simp
  qed
  ultimately show ?case using 2 by (simp add: segment_def)
qed simp

lemma utf8_chars_bounded: "utf8_chars (bounded t n) = take n (utf8_chars t)"
proof -
  have "list_all segment (take n (utf8_chars t))" "list_all starts_char (tl (take n (utf8_chars t)))"
    using utf8_chars_segments [of t] by (auto simp: list_all_iff tl_take dest: in_set_takeD)
  then show ?thesis by (simp add: bounded_def utf8_chars_concat)
qed

lemma utf8_chars_blank_controls:
  "utf8_chars (blank_controls t) = map (\<lambda>c. if is_control c then '' '' else c) (utf8_chars t)"
proof -
  let ?m = "\<lambda>c. if is_control c then '' '' else c"
  have "list_all segment (map ?m (utf8_chars t))" "list_all starts_char (tl (map ?m (utf8_chars t)))"
    using utf8_chars_segments [of t]
    by (auto simp: list_all_iff map_tl [symmetric] segment_def starts_char_def)
  then show ?thesis by (simp add: blank_controls_def utf8_chars_concat)
qed

lemma not_control_space [simp]: "\<not> is_control '' ''"
  by (simp add: is_control_def byte_def)

text \<open>
  Whatever source or mode name an agent sends, the intent text an audit record carries
  has at most 128 characters and no control character, so a record stays one line.
\<close>

theorem intent_text_one_line:
  "char_count (intent_text i) \<le> MAX_INTENT_TEXT \<and> \<not> has_control (intent_text i)"
proof -
  obtain name v where nv: "intent_name_value i = (name, v)" by fastforce
  let ?t = "name @ '' '' @ v"
  define m where "m = map (\<lambda>c. if is_control c then '' '' else c) (utf8_chars ?t)"
  have "utf8_chars (intent_text i) = take MAX_INTENT_TEXT m"
    unfolding intent_text_def nv prod.case utf8_chars_bounded utf8_chars_blank_controls m_def ..
  moreover have "\<not> is_control x" if "x \<in> set m" for x
    using that by (auto simp: m_def)
  ultimately show ?thesis
    by (simp add: char_count_def has_control_def list_ex_iff) (meson in_set_takeD)
qed

end
