(* ===== verification/Ledger.thy ===== *)
theory Ledger
  imports Audit_Records
begin

text \<open>
  \<open>crates/application/src/ledger.rs\<close>: the volume changes the policy budget is measured over,
  by receiver, and their reconstruction from the audit log. The \<open>HashMap\<close> is a partial map
  from receivers to the entries pushed for them.
\<close>

definition RETENTION :: duration where "RETENTION = from_secs (24 * 60 * 60)"

record op_key =
  ok_run :: wall_time
  ok_operation :: operation_id

definition op_key_new :: "wall_time \<Rightarrow> operation_id \<Rightarrow> op_key" where
  "op_key_new run op = \<lparr>ok_run = run, ok_operation = op\<rparr>"

type_synonym entry = "op_key \<times> recent_change"
type_synonym ledger = "receiver_id \<rightharpoonup> entry list"

definition ledger_new :: ledger where "ledger_new = Map.empty"

definition entries_of :: "ledger \<Rightarrow> receiver_id \<Rightarrow> entry list" where
  "entries_of l r = (case l r of Some es \<Rightarrow> es | None \<Rightarrow> [])"

definition ledger_reserve :: "receiver_id \<Rightarrow> op_key \<Rightarrow> recent_change \<Rightarrow> ledger \<Rightarrow> ledger" where
  "ledger_reserve r k c l = l(r \<mapsto> entries_of l r @ [(k, c)])"

definition ledger_settle :: "receiver_id \<Rightarrow> op_key \<Rightarrow> bool \<Rightarrow> ledger \<Rightarrow> ledger" where
  "ledger_settle r k dispatched l =
     (if dispatched then l
      else case l r of
             None \<Rightarrow> l
           | Some es \<Rightarrow> l(r \<mapsto> filter (\<lambda>e. fst e \<noteq> k) es))"

definition add_missing :: "entry list \<Rightarrow> entry \<Rightarrow> entry list" where
  "add_missing held e = (if list_ex (\<lambda>x. fst x = fst e) held then held else held @ [e])"

definition ledger_merge :: "ledger \<Rightarrow> ledger \<Rightarrow> ledger" where
  "ledger_merge other l =
     (\<lambda>r. case other r of None \<Rightarrow> l r | Some es \<Rightarrow> Some (foldl add_missing (entries_of l r) es))"

definition ledger_recent :: "ledger \<Rightarrow> receiver_id \<Rightarrow> wall_time \<Rightarrow> duration \<Rightarrow> recent_change list" where
  "ledger_recent l r now w =
     (let since = wt_saturating_sub now w in
      sort_key rc_at (filter (\<lambda>c. rc_at c > since) (map snd (entries_of l r))))"

definition ledger_prune :: "wall_time \<Rightarrow> ledger \<Rightarrow> ledger" where
  "ledger_prune now l =
     (let cutoff = wt_saturating_sub now RETENTION in
      (\<lambda>r. case l r of
             None \<Rightarrow> None
           | Some es \<Rightarrow> (let kept = filter (\<lambda>e. rc_at (snd e) \<ge> cutoff) es in
                        if kept = [] then None else Some kept)))"

definition level_or_lowest :: "int \<Rightarrow> level" where
  "level_or_lowest h = (case level_from_half_steps h of Ok l \<Rightarrow> l | Err _ \<Rightarrow> LOWEST)"

definition not_dispatched_key :: "audit_record \<Rightarrow> op_key option" where
  "not_dispatched_key rec =
     (case (ar_operation rec, ar_event rec) of
        (Some op, Finished _ NotDispatched _ _) \<Rightarrow> Some (op_key_new (ar_run rec) op)
      | _ \<Rightarrow> None)"

definition rebuild_record :: "op_key list \<Rightarrow> ledger \<Rightarrow> audit_record \<Rightarrow> ledger" where
  "rebuild_record not_dispatched l rec =
     (case ar_event rec of
        Dispatching _ before (Some target) _ \<Rightarrow>
          (case ar_receiver rec of
             Some receiver \<Rightarrow>
               let key = map_option (op_key_new (ar_run rec)) (ar_operation rec) in
               if (case key of Some k \<Rightarrow> List.member not_dispatched k | None \<Rightarrow> False) then l
               else ledger_reserve receiver
                      (case key of Some k \<Rightarrow> k | None \<Rightarrow> op_key_new (ar_run rec) 0)
                      \<lparr>rc_at = ar_at rec, rc_before = map_option level_or_lowest before,
                       rc_target = level_or_lowest target\<rparr> l
           | None \<Rightarrow> l)
      | _ \<Rightarrow> l)"

definition ledger_rebuild :: "audit_record list \<Rightarrow> wall_time \<Rightarrow> ledger" where
  "ledger_rebuild records now =
     ledger_prune now
       (foldl (rebuild_record (List.map_filter not_dispatched_key records)) ledger_new records)"

section \<open>What the ledger holds\<close>

definition held :: "ledger \<Rightarrow> receiver_id \<Rightarrow> entry set" where
  "held l r = set (entries_of l r)"

lemma held_new [simp]: "held ledger_new r = {}"
  by (simp add: held_def entries_of_def ledger_new_def)

lemma held_reserve: "held (ledger_reserve r k c l) r' = (if r' = r then insert (k, c) (held l r') else held l r')"
  by (auto simp: held_def entries_of_def ledger_reserve_def)

lemma held_settle:
  "held (ledger_settle r k d l) r' =
     (if r' = r \<and> \<not> d then {e \<in> held l r'. fst e \<noteq> k} else held l r')"
  by (auto simp: held_def entries_of_def ledger_settle_def split: option.splits)

lemma held_prune:
  "held (ledger_prune now l) r = {e \<in> held l r. rc_at (snd e) \<ge> wt_saturating_sub now RETENTION}"
  by (auto simp: held_def entries_of_def ledger_prune_def Let_def filter_empty_conv split: option.splits)

lemma recent_held:
  "set (ledger_recent l r now w) = snd ` {e \<in> held l r. rc_at (snd e) > wt_saturating_sub now w}"
  by (auto simp: ledger_recent_def held_def Let_def)

lemma foldl_add_missing:
  "set held0 \<subseteq> set (foldl add_missing held0 es)
   \<and> fst ` set (foldl add_missing held0 es) = fst ` set held0 \<union> fst ` set es
   \<and> set (foldl add_missing held0 es) \<subseteq> set held0 \<union> set es"
proof (induction es arbitrary: held0)
  case (Cons e es)
  have "set held0 \<subseteq> set (add_missing held0 e)"
    "fst ` set (add_missing held0 e) = insert (fst e) (fst ` set held0)"
    "set (add_missing held0 e) \<subseteq> insert e (set held0)"
    by (auto simp: add_missing_def list_ex_iff) (metis fst_conv image_eqI)
  with Cons.IH [of "add_missing held0 e"] show ?case by auto
qed simp

lemma held_merge:
  "held l r \<subseteq> held (ledger_merge other l) r"
  "fst ` held (ledger_merge other l) r = fst ` held l r \<union> fst ` held other r"
  "held (ledger_merge other l) r \<subseteq> held l r \<union> held other r"
proof -
  have "held l r \<subseteq> held (ledger_merge other l) r
    \<and> fst ` held (ledger_merge other l) r = fst ` held l r \<union> fst ` held other r
    \<and> held (ledger_merge other l) r \<subseteq> held l r \<union> held other r"
  proof (cases "other r")
    case None
    then show ?thesis by (simp add: held_def entries_of_def ledger_merge_def)
  next
    case (Some es)
    then show ?thesis
      using foldl_add_missing [of "entries_of l r" es]
      by (simp add: held_def entries_of_def ledger_merge_def)
  qed
  then show "held l r \<subseteq> held (ledger_merge other l) r"
    "fst ` held (ledger_merge other l) r = fst ` held l r \<union> fst ` held other r"
    "held (ledger_merge other l) r \<subseteq> held l r \<union> held other r" by simp_all
qed

section \<open>Change histories\<close>

text \<open>
  The contract the gate relies on, with its one client law: a change that was reserved and
  never settled as not dispatched is in the history the policy reads, however the ledger was
  pruned at times not after the reading.
\<close>

datatype history_op =
    Reserve receiver_id op_key recent_change
  | Settle receiver_id op_key bool
  | Prune wall_time

locale change_history =
  fixes hold :: "'l \<Rightarrow> receiver_id \<Rightarrow> entry set"
    and reserve :: "receiver_id \<Rightarrow> op_key \<Rightarrow> recent_change \<Rightarrow> 'l \<Rightarrow> 'l"
    and settle :: "receiver_id \<Rightarrow> op_key \<Rightarrow> bool \<Rightarrow> 'l \<Rightarrow> 'l"
    and prune :: "wall_time \<Rightarrow> 'l \<Rightarrow> 'l"
    and recent :: "'l \<Rightarrow> receiver_id \<Rightarrow> wall_time \<Rightarrow> duration \<Rightarrow> recent_change list"
  assumes hold_reserve: "hold (reserve r k c l) r' = (if r' = r then insert (k, c) (hold l r') else hold l r')"
    and hold_settle:
      "hold (settle r k d l) r' = (if r' = r \<and> \<not> d then {e \<in> hold l r'. fst e \<noteq> k} else hold l r')"
    and hold_prune:
      "hold (prune now l) r = {e \<in> hold l r. rc_at (snd e) \<ge> wt_saturating_sub now RETENTION}"
    and recent_hold:
      "set (recent l r now w) = snd ` {e \<in> hold l r. rc_at (snd e) > wt_saturating_sub now w}"
begin

fun apply_op :: "history_op \<Rightarrow> 'l \<Rightarrow> 'l" where
  "apply_op (Reserve r k c) l = reserve r k c l"
| "apply_op (Settle r k d) l = settle r k d l"
| "apply_op (Prune t) l = prune t l"

fun harmless :: "receiver_id \<Rightarrow> op_key \<Rightarrow> recent_change \<Rightarrow> wall_time \<Rightarrow> history_op \<Rightarrow> bool" where
  "harmless r k c now (Reserve _ _ _) = True"
| "harmless r k c now (Settle r' k' d) = (d \<or> r' \<noteq> r \<or> k' \<noteq> k)"
| "harmless r k c now (Prune t) = (t \<le> now)"

lemma apply_op_keeps:
  assumes "harmless r k c now op" "(k, c) \<in> hold l r" "rc_at c > wt_saturating_sub now w" "w \<le> RETENTION"
  shows "(k, c) \<in> hold (apply_op op l) r"
proof (cases op)
  case (Prune t)
  with assms(1) have "wt_saturating_sub t RETENTION \<le> wt_saturating_sub now RETENTION"
    by (simp add: wt_saturating_sub_mono)
  also have "\<dots> \<le> wt_saturating_sub now w" using assms(4) by (rule wt_saturating_sub_antimono)
  also have "\<dots> \<le> rc_at c" using assms(3) by simp
  finally show ?thesis using assms(2) Prune by (simp add: hold_prune)
qed (use assms in \<open>auto simp: hold_reserve hold_settle\<close>)

lemma history_keeps:
  "list_all (harmless r k c now) ops \<Longrightarrow> (k, c) \<in> hold l r \<Longrightarrow> rc_at c > wt_saturating_sub now w \<Longrightarrow>
   w \<le> RETENTION \<Longrightarrow> c \<in> set (recent (fold apply_op ops l) r now w)"
proof (induction ops arbitrary: l)
  case Nil
  then show ?case by (force simp: recent_hold)
next
  case (Cons op ops)
  then have "(k, c) \<in> hold (apply_op op l) r" using apply_op_keeps [of r k c now op l w] by simp
  with Cons show ?case by simp
qed

text \<open>Nothing enters the history of a receiver but what was reserved for it.\<close>

lemma history_only_reserved:
  "(k, c) \<in> hold (fold apply_op ops l) r \<Longrightarrow> (k, c) \<in> hold l r \<or> Reserve r k c \<in> set ops"
proof (induction ops arbitrary: l)
  case (Cons op ops)
  then have "(k, c) \<in> hold (apply_op op l) r \<or> Reserve r k c \<in> set ops" by simp
  moreover have "(k, c) \<in> hold (apply_op op l) r \<Longrightarrow> (k, c) \<in> hold l r \<or> op = Reserve r k c"
    by (cases op) (auto simp: hold_reserve hold_settle hold_prune split: if_splits)
  ultimately show ?case by auto
qed simp

end

interpretation lh: change_history held ledger_reserve ledger_settle ledger_prune ledger_recent
  by unfold_locales (rule held_reserve held_settle held_prune recent_held)+

fun ledger_step :: "history_op \<Rightarrow> ledger \<Rightarrow> ledger" where
  "ledger_step (Reserve r k c) l = ledger_reserve r k c l"
| "ledger_step (Settle r k d) l = ledger_settle r k d l"
| "ledger_step (Prune t) l = ledger_prune t l"

fun keeps_change :: "receiver_id \<Rightarrow> op_key \<Rightarrow> wall_time \<Rightarrow> history_op \<Rightarrow> bool" where
  "keeps_change r k now (Reserve _ _ _) = True"
| "keeps_change r k now (Settle r' k' d) = (d \<or> r' \<noteq> r \<or> k' \<noteq> k)"
| "keeps_change r k now (Prune t) = (t \<le> now)"

lemma ledger_step_eq: "ledger_step = lh.apply_op"
proof (rule ext, rule ext)
  fix x l show "ledger_step x l = lh.apply_op x l" by (cases x) simp_all
qed

lemma keeps_change_eq: "keeps_change r k now op = lh.harmless r k c now op"
  by (cases op) simp_all

text \<open>
  The budget never forgets a write that may have happened. A change reserved for a
  receiver stays in the history of every later reading whose window reaches back to it, through
  any sequence of reservations, prunings at earlier times and settlements, unless that very
  operation was settled as certainly not dispatched; and nothing else ever enters the history.
\<close>

theorem reserved_change_counts:
  assumes "list_all (keeps_change r k now) ops" "rc_at c > wt_saturating_sub now w" "w \<le> RETENTION"
  shows "c \<in> set (ledger_recent (fold ledger_step ops (ledger_reserve r k c l)) r now w)
       \<and> (\<forall>k' c'. (k', c') \<in> held (fold ledger_step ops l) r \<longrightarrow>
            (k', c') \<in> held l r \<or> Reserve r k' c' \<in> set ops)"
proof -
  have "list_all (lh.harmless r k c now) ops"
    using assms(1) keeps_change_eq [of r k now _ c] by (simp add: list_all_iff)
  moreover have "(k, c) \<in> held (ledger_reserve r k c l) r" by (simp add: held_reserve)
  ultimately show ?thesis
    unfolding ledger_step_eq using lh.history_keeps lh.history_only_reserved assms(2,3) by blast
qed

definition example_change :: recent_change where
  "example_change = \<lparr>rc_at = WallTime 5000, rc_before = None, rc_target = - 60\<rparr>"

theorem reserved_change_counts_witness:
  "example_change \<in> set (ledger_recent
     (fold ledger_step [Prune (WallTime 6000), Settle (ReceiverId ''den'') (op_key_new (WallTime 1) 2) False]
        (ledger_reserve (ReceiverId ''den'') (op_key_new (WallTime 1) 1) example_change ledger_new))
     (ReceiverId ''den'') (WallTime 7000) (from_secs 600))"
proof -
  let ?ops = "[Prune (WallTime 6000), Settle (ReceiverId ''den'') (op_key_new (WallTime 1) 2) False]"
  have "list_all (keeps_change (ReceiverId ''den'') (op_key_new (WallTime 1) 1) (WallTime 7000)) ?ops"
    by (simp add: op_key_new_def less_eq_wall_time_def)
  moreover have "wt_saturating_sub (WallTime 7000) (from_secs 600) < rc_at example_change"
    by (simp add: wall_time_less_unat unat_wt_saturating_sub example_change_def)
  moreover have "from_secs 600 \<le> RETENTION" by (simp add: from_secs_def RETENTION_def)
  ultimately show ?thesis using reserved_change_counts by blast
qed

section \<open>Rebuilding from the audit log\<close>

definition counted_change :: "audit_record list \<Rightarrow> audit_record \<Rightarrow> (receiver_id \<times> entry) option" where
  "counted_change records rec =
     (case (ar_event rec, ar_receiver rec) of
        (Dispatching _ before (Some target) _, Some receiver) \<Rightarrow>
          (let key = map_option (op_key_new (ar_run rec)) (ar_operation rec) in
           if (case key of Some k \<Rightarrow> k \<in> set (List.map_filter not_dispatched_key records) | None \<Rightarrow> False)
           then None
           else Some (receiver, (case key of Some k \<Rightarrow> k | None \<Rightarrow> op_key_new (ar_run rec) 0),
                  \<lparr>rc_at = ar_at rec, rc_before = map_option level_or_lowest before,
                   rc_target = level_or_lowest target\<rparr>))
      | _ \<Rightarrow> None)"

lemma rebuild_record_counted:
  "rebuild_record (List.map_filter not_dispatched_key records) l rec =
     (case counted_change records rec of None \<Rightarrow> l | Some (r, k, c) \<Rightarrow> ledger_reserve r k c l)"
  by (simp add: rebuild_record_def counted_change_def Let_def split: audit_event.splits option.splits)

lemma held_foldl_rebuild:
  "held (foldl (rebuild_record (List.map_filter not_dispatched_key records)) l recs) r =
     held l r \<union> {e. \<exists>rec \<in> set recs. counted_change records rec = Some (r, e)}"
proof (induction recs arbitrary: l)
  case (Cons rec recs)
  have "held (rebuild_record (List.map_filter not_dispatched_key records) l rec) r =
      held l r \<union> {e. counted_change records rec = Some (r, e)}"
    by (auto simp: rebuild_record_counted held_reserve split: option.splits)
  with Cons show ?case by auto
qed simp

lemma held_rebuild:
  "held (ledger_rebuild records now) r =
     {e. (\<exists>rec \<in> set records. counted_change records rec = Some (r, e))
         \<and> rc_at (snd e) \<ge> wt_saturating_sub now RETENTION}"
  by (auto simp: ledger_rebuild_def held_prune held_foldl_rebuild)

lemma counted_change_at: "counted_change records rec = Some (r, k, c) \<Longrightarrow> rc_at c = ar_at rec"
  by (auto simp: counted_change_def Let_def split: audit_event.splits option.splits if_splits)

text \<open>
  A restart does not refresh the budget. For every window the policy may use, the
  rebuilt ledger reads back exactly the logged volume dispatches inside the window whose
  operation has no record of having ended without a dispatch; one the crash left without any
  end counts, and a level that is off the scale counts as the lowest.
\<close>

theorem rebuild_counts_possible_writes:
  assumes "w \<le> RETENTION"
  shows "set (ledger_recent (ledger_rebuild records now) r now w) =
     {c. \<exists>rec \<in> set records. \<exists>k. counted_change records rec = Some (r, k, c)
           \<and> ar_at rec > wt_saturating_sub now w}"
proof -
  have le: "wt_saturating_sub now RETENTION \<le> wt_saturating_sub now w"
    using assms by (rule wt_saturating_sub_antimono)
  show ?thesis
    unfolding recent_held held_rebuild using le
    by (force dest: counted_change_at)
qed

definition example_dispatch :: audit_record where
  "example_dispatch =
     \<lparr>ar_schema = 1, ar_run = WallTime 1, ar_at = WallTime 5000, ar_operation = Some 1,
      ar_principal = Some Operator, ar_receiver = Some (ReceiverId ''den''),
      ar_event = Dispatching ''volume -30.0 dB'' None (Some (- 60)) []\<rparr>"

theorem rebuild_counts_possible_writes_witness:
  "example_change \<in> set (ledger_recent (ledger_rebuild [example_dispatch] (WallTime 7000))
     (ReceiverId ''den'') (WallTime 7000) (from_secs 600))"
proof -
  have "from_secs 600 \<le> RETENTION" by (simp add: from_secs_def RETENTION_def)
  note eq = rebuild_counts_possible_writes [OF this]
  have "counted_change [example_dispatch] example_dispatch
      = Some (ReceiverId ''den'', op_key_new (WallTime 1) 1, example_change)"
    by (simp add: counted_change_def example_dispatch_def not_dispatched_key_def List.map_filter_def
          example_change_def level_or_lowest_def level_from_half_steps_def LOWEST_def HIGHEST_def)
  moreover have "ar_at example_dispatch > wt_saturating_sub (WallTime 7000) (from_secs 600)"
    by (simp add: wall_time_less_unat unat_wt_saturating_sub example_dispatch_def)
  ultimately show ?thesis unfolding eq by auto
qed

end
