(* ===== verification/Operations.thy ===== *)
theory Operations
  imports Ledger "HOL-Library.AList"
begin

text \<open>
  The table of operations of the gate, \<open>crates/application/src/service/operations.rs\<close>, with the
  write caps an agent's admission is counted against (\<open>service/agent/budget.rs\<close>) and the end
  of an operation's task (\<open>OperationTask\<close> of \<open>service.rs\<close>). Every method runs under the
  operations lock, so each is one step. The \<open>HashMap\<close> of entries is an association list,
  whose order stands for the unspecified iteration order; \<open>entries[id]\<close> panics on a missing
  id, which is the value \<open>AdmitPanic\<close>.
\<close>

section \<open>Entries and the table\<close>

record op_entry =
  en_owner :: principal
  en_key :: "idempotency_key option"
  en_snapshot :: operation_snapshot

record operations =
  ops_next_id :: u64
  ops_closed :: bool
  ops_entries :: "(operation_id \<times> op_entry) list"
  ops_order :: "operation_id list"
  ops_keys :: "principal \<times> idempotency_key \<rightharpoonup> operation_id"

definition operations_default :: operations where
  "operations_default =
     \<lparr>ops_next_id = 0, ops_closed = False, ops_entries = [], ops_order = [], ops_keys = Map.empty\<rparr>"

abbreviation op_lookup :: "operations \<Rightarrow> operation_id \<rightharpoonup> op_entry" where
  "op_lookup ops \<equiv> map_of (ops_entries ops)"

definition entry_running :: "op_entry \<Rightarrow> bool" where
  "entry_running e = (\<not> is_terminal (sn_status (en_snapshot e)))"

datatype admission = New operation_snapshot | Existing operation_snapshot

record resolution =
  rn_status :: operation_status
  rn_dispatch :: dispatch_certainty
  rn_confirmed :: bool
  rn_reason :: "string option"
  rn_observation :: "string option"

definition not_dispatched :: "operation_status \<Rightarrow> string \<Rightarrow> resolution" where
  "not_dispatched st why =
     \<lparr>rn_status = st, rn_dispatch = NotDispatched, rn_confirmed = False, rn_reason = Some why,
      rn_observation = None\<rparr>"

fun resolve :: "operation_outcome \<Rightarrow> resolution" where
  "resolve (ObservedRequestedValue _ dispatch obs) =
     \<lparr>rn_status = Completed, rn_dispatch = dispatch, rn_confirmed = True, rn_reason = None,
      rn_observation = Some obs\<rparr>"
| "resolve (AlreadyObserved _ obs) =
     \<lparr>rn_status = AlreadyInState, rn_dispatch = NotDispatched, rn_confirmed = True, rn_reason = None,
      rn_observation = Some obs\<rparr>"
| "resolve (RejectedBeforeDispatch _ _ why) = not_dispatched Rejected why"
| "resolve (OutcomeCancelled _) =
     \<lparr>rn_status = Cancelled, rn_dispatch = NotDispatched, rn_confirmed = False, rn_reason = None,
      rn_observation = None\<rparr>"
| "resolve (SupersededBeforeDispatch _ by_op) =
     \<lparr>rn_status = Superseded by_op, rn_dispatch = NotDispatched, rn_confirmed = False, rn_reason = None,
      rn_observation = None\<rparr>"
| "resolve (Indeterminate _ dispatch why) =
     \<lparr>rn_status = IndeterminateStatus, rn_dispatch = dispatch, rn_confirmed = False,
      rn_reason = Some why, rn_observation = None\<rparr>"

fun is_cancellable :: "operation_status \<Rightarrow> bool" where
  "is_cancellable Submitted = True"
| "is_cancellable Allowed = True"
| "is_cancellable AwaitingApproval = True"
| "is_cancellable Approved = True"
| "is_cancellable _ = False"

section \<open>Write caps\<close>

record agent_limits =
  al_writes_per_minute :: nat
  al_unfinished_operations :: nat

definition agent_limits_default :: agent_limits where
  "agent_limits_default = \<lparr>al_writes_per_minute = 30, al_unfinished_operations = 8\<rparr>"

definition SWEEP_LABELS_ABOVE :: nat where "SWEEP_LABELS_ABOVE = 64"
definition WRITE_WINDOW :: duration where "WRITE_WINDOW = from_secs 60"

text \<open>The write times of each label, oldest first.\<close>

type_synonym write_book = "(agent_label \<times> instant list) list"

definition sweep_labels :: "instant \<Rightarrow> write_book \<Rightarrow> write_book" where
  "sweep_labels now writes =
     (if length writes > SWEEP_LABELS_ABOVE
      then filter (\<lambda>(_, recent). recent \<noteq> [] \<and> duration_since now (last recent) < WRITE_WINDOW) writes
      else writes)"

definition charge_write ::
  "agent_limits \<Rightarrow> instant \<Rightarrow> agent_label \<Rightarrow> write_book \<Rightarrow> (unit, control_error) result \<times> write_book" where
  "charge_write limits now label writes =
     (let swept = sweep_labels now writes;
          recent = dropWhile (\<lambda>t. duration_since now t \<ge> WRITE_WINDOW)
                     (case map_of swept label of Some r \<Rightarrow> r | None \<Rightarrow> [])
      in if length recent \<ge> al_writes_per_minute limits
         then (Err (RateLimited (Some (case recent of
                  [] \<Rightarrow> WRITE_WINDOW | oldest # _ \<Rightarrow> WRITE_WINDOW - duration_since now oldest))),
               AList.update label recent swept)
         else (Ok (), AList.update label (recent @ [now]) swept))"

definition unfinished_of :: "principal \<Rightarrow> operations \<Rightarrow> nat" where
  "unfinished_of owner ops =
     length (filter (\<lambda>(_, e). en_owner e = owner \<and> entry_running e) (ops_entries ops))"

definition admit_write ::
  "agent_limits \<Rightarrow> instant \<Rightarrow> agent_label \<Rightarrow> operations \<Rightarrow> write_book
     \<Rightarrow> (unit, control_error) result \<times> write_book" where
  "admit_write limits now label ops writes =
     (if unfinished_of (Agent label) ops \<ge> al_unfinished_operations limits
      then (Err (RateLimited None), writes)
      else charge_write limits now label writes)"

section \<open>Admission and eviction\<close>

fun evict_loop :: "nat \<Rightarrow> operation_id list \<Rightarrow> operations \<Rightarrow> operations \<times> operation_id list" where
  "evict_loop excess [] ops = (ops, [])"
| "evict_loop excess (i # rest) ops =
     (let finished = (case op_lookup ops i of Some e \<Rightarrow> \<not> entry_running e | None \<Rightarrow> False) in
      if excess > 0 \<and> finished then
        (case op_lookup ops i of
           Some e \<Rightarrow>
             evict_loop (excess - 1) rest
               (ops\<lparr>ops_entries := filter (\<lambda>(j, _). j \<noteq> i) (ops_entries ops),
                    ops_keys := (case en_key e of
                       Some k \<Rightarrow> (ops_keys ops)((en_owner e, k) := None) | None \<Rightarrow> ops_keys ops)\<rparr>)
         | None \<Rightarrow> evict_loop (excess - 1) rest ops)
      else (case evict_loop excess rest ops of (ops', kept) \<Rightarrow> (ops', i # kept)))"

definition evict_finished :: "nat \<Rightarrow> operations \<Rightarrow> operations" where
  "evict_finished retained ops =
     (let excess = length (ops_entries ops) - (retained - 1) in
      if excess = 0 then ops
      else case evict_loop excess (ops_order ops) ops of (ops', kept) \<Rightarrow> ops'\<lparr>ops_order := kept\<rparr>)"

definition SHUT_DOWN :: string where "SHUT_DOWN = ''the control service has shut down''"

definition new_snapshot :: "operation_id \<Rightarrow> receiver_id \<Rightarrow> receiver_intent \<Rightarrow> operation_status \<Rightarrow> operation_snapshot" where
  "new_snapshot i receiver intent st =
     \<lparr>sn_id = i, sn_receiver = receiver, sn_intent = intent, sn_status = st, sn_dispatch = NotDispatched,
      sn_confirmed = False, sn_reason = None, sn_observation = None\<rparr>"

definition insert_operation ::
  "nat \<Rightarrow> principal \<Rightarrow> receiver_id \<Rightarrow> operation_submission \<Rightarrow> operation_status \<Rightarrow> operations
     \<Rightarrow> operation_snapshot \<times> operations" where
  "insert_operation retained owner receiver sub st ops =
     (let ops1 = evict_finished retained ops;
          i = ops_next_id ops1 + 1;
          sn = new_snapshot i receiver (os_intent sub) st
      in (sn, ops1\<lparr>ops_next_id := i,
                   ops_keys := (case os_idempotency_key sub of
                      Some k \<Rightarrow> (ops_keys ops1)((owner, k) \<mapsto> i) | None \<Rightarrow> ops_keys ops1),
                   ops_entries := ops_entries ops1 @
                      [(i, \<lparr>en_owner = owner, en_key = os_idempotency_key sub, en_snapshot = sn\<rparr>)],
                   ops_order := ops_order ops1 @ [i]\<rparr>))"

definition running_duplicate :: "principal \<Rightarrow> receiver_id \<Rightarrow> receiver_intent \<Rightarrow> op_entry \<Rightarrow> bool" where
  "running_duplicate owner receiver intent e =
     (en_owner e = owner \<and> entry_running e \<and> sn_receiver (en_snapshot e) = receiver
      \<and> sn_intent (en_snapshot e) = intent)"

datatype admit_result = AdmitPanic | Admit "(admission, control_error) result"

text \<open>
  \<open>caps\<close> is \<open>None\<close> on a service without an agent path; otherwise the limits, the time and the
  write times so far.
\<close>

type_synonym caps = "(agent_limits \<times> instant \<times> write_book) option"

definition admit ::
  "nat \<Rightarrow> caps \<Rightarrow> principal \<Rightarrow> receiver_id \<Rightarrow> operation_submission \<Rightarrow> operations
     \<Rightarrow> admit_result \<times> operations \<times> caps" where
  "admit retained caps owner receiver sub ops =
     (if ops_closed ops then (Admit (Err (UnavailableError SHUT_DOWN)), ops, caps)
      else case Option.bind (os_idempotency_key sub) (\<lambda>k. ops_keys ops (owner, k)) of
        Some i \<Rightarrow>
          (case op_lookup ops i of
             None \<Rightarrow> (AdmitPanic, ops, caps)
           | Some e \<Rightarrow>
               let existing = en_snapshot e in
               if sn_receiver existing \<noteq> receiver \<or> sn_intent existing \<noteq> os_intent sub
               then (Admit (Err (InvalidRequest
                       ''the idempotency key was already used for a different request'')), ops, caps)
               else (Admit (Ok (Existing existing)), ops, caps))
      | None \<Rightarrow>
          (case List.find (\<lambda>(_, e). running_duplicate owner receiver (os_intent sub) e) (ops_entries ops) of
             Some (_, e) \<Rightarrow> (Admit (Ok (Existing (en_snapshot e))), ops, caps)
           | None \<Rightarrow>
               (case owner of
                  Operator \<Rightarrow>
                    (case insert_operation retained owner receiver sub Allowed ops of
                       (sn, ops') \<Rightarrow> (Admit (Ok (New sn)), ops', caps))
                | Agent label \<Rightarrow>
                    (case caps of
                       None \<Rightarrow> (Admit (Err Forbidden), ops, caps)
                     | Some (limits, now, writes) \<Rightarrow>
                         (case admit_write limits now label ops writes of
                            (Err e, writes') \<Rightarrow> (Admit (Err e), ops, Some (limits, now, writes'))
                          | (Ok _, writes') \<Rightarrow>
                              (case insert_operation retained owner receiver sub Submitted ops of
                                 (sn, ops') \<Rightarrow>
                                   (Admit (Ok (New sn)), ops', Some (limits, now, writes')))))))) "

section \<open>Transitions\<close>

definition transition ::
  "(operation_snapshot \<Rightarrow> operation_snapshot option) \<Rightarrow> operation_id \<Rightarrow> operations
     \<Rightarrow> operation_snapshot option \<times> operations" where
  "transition change i ops =
     (case op_lookup ops i of
        None \<Rightarrow> (None, ops)
      | Some e \<Rightarrow>
          (case change (en_snapshot e) of
             None \<Rightarrow> (None, ops)
           | Some sn \<Rightarrow>
               (Some sn, ops\<lparr>ops_entries :=
                  map (\<lambda>(j, e'). (j, if j = i then e'\<lparr>en_snapshot := sn\<rparr> else e')) (ops_entries ops)\<rparr>)))"

definition change_allow :: "operation_snapshot \<Rightarrow> operation_snapshot option" where
  "change_allow sn = (if sn_status sn = Submitted then Some (sn\<lparr>sn_status := Allowed\<rparr>) else None)"

definition change_begin :: "operation_snapshot \<Rightarrow> operation_snapshot option" where
  "change_begin sn = (if sn_status sn = Allowed then Some (sn\<lparr>sn_status := InSession\<rparr>) else None)"

definition change_finish :: "resolution \<Rightarrow> operation_snapshot \<Rightarrow> operation_snapshot option" where
  "change_finish rn sn =
     (if is_terminal (sn_status sn) then None
      else Some (sn\<lparr>sn_status := rn_status rn, sn_dispatch := rn_dispatch rn,
                    sn_confirmed := rn_confirmed rn, sn_reason := rn_reason rn,
                    sn_observation := rn_observation rn\<rparr>))"

definition change_cancel :: "operation_snapshot \<Rightarrow> operation_snapshot option" where
  "change_cancel sn =
     (if is_cancellable (sn_status sn) then Some (sn\<lparr>sn_status := Cancelled\<rparr>) else None)"

definition change_drop :: "operation_snapshot \<Rightarrow> operation_snapshot option" where
  "change_drop sn =
     (if is_terminal (sn_status sn) then None
      else let in_session = (sn_status sn = InSession) in
           Some (sn\<lparr>sn_status := (if in_session then IndeterminateStatus else Rejected),
                    sn_dispatch := (if in_session then UnknownDispatch else NotDispatched),
                    sn_confirmed := False,
                    sn_reason := Some ''the operation task ended unexpectedly''\<rparr>))"

definition begin_session :: "operation_id \<Rightarrow> operations \<Rightarrow> bool \<times> operations" where
  "begin_session i ops = (case transition change_begin i ops of (r, ops') \<Rightarrow> (r \<noteq> None, ops'))"

definition finish :: "operation_id \<Rightarrow> resolution \<Rightarrow> operations \<Rightarrow> bool \<times> operations" where
  "finish i rn ops = (case transition (change_finish rn) i ops of (r, ops') \<Rightarrow> (r \<noteq> None, ops'))"

definition drop_task :: "operation_id \<Rightarrow> operations \<Rightarrow> operations" where
  "drop_task i ops = snd (transition change_drop i ops)"

definition ended_as :: "operation_id \<Rightarrow> operations \<Rightarrow> resolution option" where
  "ended_as i ops =
     (case op_lookup ops i of
        None \<Rightarrow> None
      | Some e \<Rightarrow> (let sn = en_snapshot e in
          if is_terminal (sn_status sn)
          then Some \<lparr>rn_status = sn_status sn, rn_dispatch = sn_dispatch sn, rn_confirmed = sn_confirmed sn,
                     rn_reason = sn_reason sn, rn_observation = sn_observation sn\<rparr>
          else None))"

definition status_of :: "operation_id \<Rightarrow> operations \<Rightarrow> operation_status option" where
  "status_of i ops = map_option (\<lambda>e. sn_status (en_snapshot e)) (op_lookup ops i)"

definition watch_operation :: "principal \<Rightarrow> operation_id \<Rightarrow> operations \<Rightarrow> (operation_snapshot, control_error) result" where
  "watch_operation viewer i ops =
     (case op_lookup ops i of
        Some e \<Rightarrow> if viewer = Operator \<or> en_owner e = viewer then Ok (en_snapshot e)
                 else Err (NotFound ''operation'')
      | None \<Rightarrow> Err (NotFound ''operation''))"

text \<open>
  \<open>cancel\<close> reads, then changes: two steps under the lock. \<open>between\<close> is what other tasks did to
  the table in between; with none it is the identity.
\<close>

definition cancel ::
  "(operations \<Rightarrow> operations) \<Rightarrow> principal \<Rightarrow> operation_id \<Rightarrow> operations
     \<Rightarrow> (operation_snapshot, control_error) result \<times> operations" where
  "cancel between viewer i ops =
     (case watch_operation viewer i ops of
        Err e \<Rightarrow> (Err e, ops)
      | Ok current \<Rightarrow>
          if \<not> is_cancellable (sn_status current) then (Err (TooLate current), ops)
          else case transition change_cancel i (between ops) of
                 (Some sn, ops') \<Rightarrow> (Ok sn, ops')
               | (None, ops') \<Rightarrow>
                   (case watch_operation viewer i ops' of
                      Err e \<Rightarrow> (Err e, ops')
                    | Ok actual \<Rightarrow> (Err (TooLate actual), ops')))"

section \<open>Transitions, entry by entry\<close>

text \<open>Every change the gate makes keeps what was asked for and acts on a running operation only.\<close>

definition lawful :: "(operation_snapshot \<Rightarrow> operation_snapshot option) \<Rightarrow> bool" where
  "lawful change \<longleftrightarrow>
     (\<forall>sn sn'. change sn = Some sn' \<longrightarrow>
        sn_id sn' = sn_id sn \<and> sn_receiver sn' = sn_receiver sn \<and> sn_intent sn' = sn_intent sn
        \<and> \<not> is_terminal (sn_status sn))"

lemma cancellable_running: "is_cancellable st \<Longrightarrow> \<not> is_terminal st"
  by (cases st) simp_all

lemma lawful_changes [simp]:
  "lawful change_allow" "lawful change_begin" "lawful (change_finish rn)" "lawful change_cancel"
  "lawful change_drop"
  by (auto simp: lawful_def change_allow_def change_begin_def change_finish_def change_cancel_def
        change_drop_def Let_def cancellable_running split: if_splits)

lemma map_of_map_snapshot:
  "map_of (map (\<lambda>(j, e). (j, if j = i then f e else e)) xs) j =
     map_option (\<lambda>e. if j = i then f e else e) (map_of xs j)"
  by (induction xs) auto

lemma transition_cases:
  assumes "transition change i ops = (r, ops')"
  obtains (refused) "r = None" "ops' = ops"
  | (applied) e sn where "op_lookup ops i = Some e" "change (en_snapshot e) = Some sn" "r = Some sn"
      "ops_next_id ops' = ops_next_id ops" "ops_closed ops' = ops_closed ops"
      "ops_order ops' = ops_order ops" "ops_keys ops' = ops_keys ops"
      "map fst (ops_entries ops') = map fst (ops_entries ops)"
      "op_lookup ops' = (op_lookup ops)(i \<mapsto> e\<lparr>en_snapshot := sn\<rparr>)"
proof (cases "op_lookup ops i")
  case None
  with assms refused show ?thesis by (simp add: transition_def)
next
  case (Some e)
  show ?thesis
  proof (cases "change (en_snapshot e)")
    case None
    with Some assms refused show ?thesis by (simp add: transition_def)
  next
    case (Some sn)
    with \<open>op_lookup ops i = Some e\<close> assms have
      r: "r = Some sn" and ops': "ops' = ops\<lparr>ops_entries :=
        map (\<lambda>(j, e'). (j, if j = i then e'\<lparr>en_snapshot := sn\<rparr> else e')) (ops_entries ops)\<rparr>"
      by (simp_all add: transition_def)
    have look: "op_lookup ops' = (op_lookup ops)(i \<mapsto> e\<lparr>en_snapshot := sn\<rparr>)"
      using \<open>op_lookup ops i = Some e\<close> by (auto simp: ops' map_of_map_snapshot fun_eq_iff option.map_ident)
    have fsts: "map fst (ops_entries ops') = map fst (ops_entries ops)"
      by (simp add: ops' split_beta comp_def)
    show ?thesis
      by (rule applied [OF \<open>op_lookup ops i = Some e\<close> Some r _ _ _ _ fsts look]) (simp_all add: ops')
  qed
qed

section \<open>The table invariant\<close>

definition ops_inv :: "operations \<Rightarrow> bool" where
  "ops_inv ops \<longleftrightarrow>
     distinct (map fst (ops_entries ops)) \<and> distinct (ops_order ops)
     \<and> set (ops_order ops) = dom (op_lookup ops)
     \<and> (\<forall>i e. op_lookup ops i = Some e \<longrightarrow>
          sn_id (en_snapshot e) = i \<and> i \<le> ops_next_id ops
          \<and> (\<forall>k. en_key e = Some k \<longrightarrow> ops_keys ops (en_owner e, k) = Some i))
     \<and> (\<forall>p k i. ops_keys ops (p, k) = Some i \<longrightarrow>
          (\<exists>e. op_lookup ops i = Some e \<and> en_owner e = p \<and> en_key e = Some k))
     \<and> (\<forall>i j e f. op_lookup ops i = Some e \<longrightarrow> op_lookup ops j = Some f \<longrightarrow> entry_running e \<longrightarrow>
          running_duplicate (en_owner e) (sn_receiver (en_snapshot e)) (sn_intent (en_snapshot e)) f
          \<longrightarrow> i = j)"

lemma ops_inv_default [inv_intros]: "ops_inv operations_default"
  by (simp add: ops_inv_def operations_default_def)

lemma ops_inv_close [simp]: "ops_inv (ops\<lparr>ops_closed := b\<rparr>) = ops_inv ops"
  by (simp add: ops_inv_def)

lemma ops_invD:
  assumes "ops_inv ops"
  shows "distinct (map fst (ops_entries ops))" "distinct (ops_order ops)"
    "set (ops_order ops) = dom (op_lookup ops)"
    "op_lookup ops i = Some e \<Longrightarrow> sn_id (en_snapshot e) = i"
    "op_lookup ops i = Some e \<Longrightarrow> i \<le> ops_next_id ops"
    "op_lookup ops i = Some e \<Longrightarrow> en_key e = Some k \<Longrightarrow> ops_keys ops (en_owner e, k) = Some i"
    "ops_keys ops (p, k) = Some i \<Longrightarrow> \<exists>e. op_lookup ops i = Some e \<and> en_owner e = p \<and> en_key e = Some k"
    "op_lookup ops i = Some e \<Longrightarrow> op_lookup ops j = Some f \<Longrightarrow> entry_running e \<Longrightarrow>
       running_duplicate (en_owner e) (sn_receiver (en_snapshot e)) (sn_intent (en_snapshot e)) f \<Longrightarrow> i = j"
  using assms unfolding ops_inv_def by blast+

lemma ops_invI:
  assumes "distinct (map fst (ops_entries ops))" "distinct (ops_order ops)"
    "set (ops_order ops) = dom (op_lookup ops)"
    "\<And>i e. op_lookup ops i = Some e \<Longrightarrow>
       sn_id (en_snapshot e) = i \<and> i \<le> ops_next_id ops
       \<and> (\<forall>k. en_key e = Some k \<longrightarrow> ops_keys ops (en_owner e, k) = Some i)"
    "\<And>p k i. ops_keys ops (p, k) = Some i \<Longrightarrow>
       \<exists>e. op_lookup ops i = Some e \<and> en_owner e = p \<and> en_key e = Some k"
    "\<And>i e j f. op_lookup ops i = Some e \<Longrightarrow> op_lookup ops j = Some f \<Longrightarrow> entry_running e \<Longrightarrow>
       running_duplicate (en_owner e) (sn_receiver (en_snapshot e)) (sn_intent (en_snapshot e)) f
       \<Longrightarrow> i = j"
  shows "ops_inv ops"
  using assms unfolding ops_inv_def by blast

lemma ops_inv_transition [inv_intros]:
  assumes "ops_inv ops" "lawful change" "transition change i ops = (r, ops')"
  shows "ops_inv ops'"
  using assms(3)
proof (cases rule: transition_cases)
  case refused
  with assms(1) show ?thesis by simp
next
  case (applied e sn)
  have law: "sn_id sn = sn_id (en_snapshot e)" "sn_receiver sn = sn_receiver (en_snapshot e)"
    "sn_intent sn = sn_intent (en_snapshot e)" "entry_running e"
    using assms(2) applied(2) by (auto simp: lawful_def entry_running_def)
  note inv = ops_invD [OF assms(1)]
  have old: "\<exists>f. op_lookup ops j = Some f \<and> en_owner f = en_owner g \<and> en_key f = en_key g
      \<and> sn_id (en_snapshot f) = sn_id (en_snapshot g)
      \<and> sn_receiver (en_snapshot f) = sn_receiver (en_snapshot g)
      \<and> sn_intent (en_snapshot f) = sn_intent (en_snapshot g) \<and> (entry_running g \<longrightarrow> entry_running f)"
    if "op_lookup ops' j = Some g" for j g
    using that applied(1,9) law by (auto split: if_splits)
  have "dom (op_lookup ops') = dom (op_lookup ops)" using applied(1,9) by (auto split: if_splits)
  moreover have "sn_id (en_snapshot g) = j \<and> j \<le> ops_next_id ops' \<and>
      (\<forall>k. en_key g = Some k \<longrightarrow> ops_keys ops' (en_owner g, k) = Some j)"
    if "op_lookup ops' j = Some g" for j g
    using old [OF that] inv(4-6) applied(4,7) by metis
  moreover have "\<exists>g. op_lookup ops' j = Some g \<and> en_owner g = p \<and> en_key g = Some k"
    if "ops_keys ops' (p, k) = Some j" for p k j
    using inv(7) [of p k j] that applied(1,7,9) by (cases "j = i") auto
  moreover have "j = j'" if "op_lookup ops' j = Some g" "op_lookup ops' j' = Some h" "entry_running g"
      "running_duplicate (en_owner g) (sn_receiver (en_snapshot g)) (sn_intent (en_snapshot g)) h"
    for j j' g h
    using old [OF that(1)] old [OF that(2)] that(3,4) inv(8)
    unfolding running_duplicate_def by metis
  ultimately show ?thesis
    by (intro ops_invI) (use inv(1-3) applied(6,8) in \<open>simp_all\<close>)
qed

section \<open>Eviction\<close>

definition evicted :: "operation_id set \<Rightarrow> operations \<Rightarrow> operations" where
  "evicted gone ops =
     ops\<lparr>ops_entries := filter (\<lambda>(j, _). j \<notin> gone) (ops_entries ops),
         ops_keys := (\<lambda>pk. if \<exists>i \<in> gone. \<exists>e. op_lookup ops i = Some e \<and> en_owner e = fst pk
                          \<and> en_key e = Some (snd pk) then None else ops_keys ops pk)\<rparr>"

lemma evicted_empty [simp]: "evicted {} ops = ops"
  by (simp add: evicted_def filter_True split_beta)

lemma map_of_filter_fst:
  "map_of (filter (\<lambda>(j, _). j \<notin> gone) xs) = (\<lambda>j. if j \<in> gone then None else map_of xs j)"
  by (induction xs) (auto simp: fun_eq_iff)

lemma op_lookup_evicted: "op_lookup (evicted gone ops) j = (if j \<in> gone then None else op_lookup ops j)"
  by (simp add: evicted_def map_of_filter_fst)

lemma evicted_insert:
  assumes "op_lookup ops i = Some e" "i \<notin> gone"
  shows "evicted gone (ops\<lparr>ops_entries := filter (\<lambda>(j, _). j \<noteq> i) (ops_entries ops),
           ops_keys := (case en_key e of
              Some k \<Rightarrow> (ops_keys ops)((en_owner e, k) := None) | None \<Rightarrow> ops_keys ops)\<rparr>)
       = evicted (insert i gone) ops"
proof -
  have "filter (\<lambda>(j, _). j \<noteq> i) xs = filter (\<lambda>(j, _). j \<notin> {i}) xs" for xs :: "(operation_id \<times> op_entry) list"
    by simp
  then have look: "map_of (filter (\<lambda>(j, _). j \<noteq> i) (ops_entries ops)) =
      (\<lambda>j. if j = i then None else op_lookup ops j)"
    by (simp only: map_of_filter_fst) (simp add: fun_eq_iff)
  let ?ops = "ops\<lparr>ops_entries := filter (\<lambda>(j, _). j \<noteq> i) (ops_entries ops),
     ops_keys := (case en_key e of
        Some k \<Rightarrow> (ops_keys ops)((en_owner e, k) := None) | None \<Rightarrow> ops_keys ops)\<rparr>"
  have "ops_entries (evicted gone ?ops) = ops_entries (evicted (insert i gone) ops)"
    by (simp add: evicted_def) (rule filter_cong, auto)
  moreover have "ops_keys (evicted gone ?ops) pk = ops_keys (evicted (insert i gone) ops) pk" for pk
    using assms by (cases pk) (auto simp: evicted_def look split: option.splits)
  ultimately show ?thesis
    by (intro operations.equality ext) (simp_all add: evicted_def cong: if_cong)
qed

text \<open>
  The loop removes finished operations only, oldest first, and no more than the excess.
\<close>

lemma evict_loop_spec:
  assumes "distinct ids"
  shows "\<exists>gone. evict_loop excess ids ops = (evicted gone ops, filter (\<lambda>i. i \<notin> gone) ids)
    \<and> gone \<subseteq> set ids \<and> card gone \<le> excess
    \<and> (\<forall>i \<in> gone. \<exists>e. op_lookup ops i = Some e \<and> \<not> entry_running e)
    \<and> (card gone < excess \<longrightarrow> (\<forall>i \<in> set ids - gone. \<forall>e. op_lookup ops i = Some e \<longrightarrow> entry_running e))"
  using assms
proof (induction excess ids ops rule: evict_loop.induct)
  case (1 excess ops)
  show ?case by (rule exI [of _ "{}"]) simp
next
  case (2 excess i rest ops)
  show ?case
  proof (cases "excess > 0 \<and> (\<exists>e. op_lookup ops i = Some e \<and> \<not> entry_running e)")
    case True
    then obtain e where e: "op_lookup ops i = Some e" "\<not> entry_running e" by blast
    define ops1 where "ops1 = ops\<lparr>ops_entries := filter (\<lambda>(j, _). j \<noteq> i) (ops_entries ops),
           ops_keys := (case en_key e of
              Some k \<Rightarrow> (ops_keys ops)((en_owner e, k) := None) | None \<Rightarrow> ops_keys ops)\<rparr>"
    have step: "evict_loop excess (i # rest) ops = evict_loop (excess - 1) rest ops1"
      using True e by (simp add: ops1_def)
    have look: "op_lookup ops1 j = op_lookup ops j" if "j \<noteq> i" for j
      using map_of_filter_fst [of "{i}" "ops_entries ops"] that by (simp add: ops1_def fun_eq_iff)
    have "\<exists>gone. evict_loop (excess - 1) rest ops1 = (evicted gone ops1, filter (\<lambda>i. i \<notin> gone) rest)
      \<and> gone \<subseteq> set rest \<and> card gone \<le> excess - 1
      \<and> (\<forall>i \<in> gone. \<exists>e. op_lookup ops1 i = Some e \<and> \<not> entry_running e)
      \<and> (card gone < excess - 1 \<longrightarrow> (\<forall>i \<in> set rest - gone. \<forall>e. op_lookup ops1 i = Some e \<longrightarrow> entry_running e))"
      using 2(2) [OF refl _ e(1)] True e 2(4) unfolding ops1_def by simp
    then obtain gone where g: "evict_loop (excess - 1) rest ops1 = (evicted gone ops1, filter (\<lambda>i. i \<notin> gone) rest)"
      "gone \<subseteq> set rest" "card gone \<le> excess - 1"
      "\<forall>i \<in> gone. \<exists>e. op_lookup ops1 i = Some e \<and> \<not> entry_running e"
      "card gone < excess - 1 \<longrightarrow> (\<forall>i \<in> set rest - gone. \<forall>e. op_lookup ops1 i = Some e \<longrightarrow> entry_running e)"
      by blast
    have i: "i \<notin> gone" "i \<notin> set rest" using g(2) 2(4) by auto
    have "finite gone" using g(2) finite_subset by blast
    then have card: "card (insert i gone) = Suc (card gone)" using i by simp
    have "evicted gone ops1 = evicted (insert i gone) ops"
      using evicted_insert [OF e(1) i(1)] by (simp add: ops1_def)
    then have "evict_loop excess (i # rest) ops
        = (evicted (insert i gone) ops, filter (\<lambda>j. j \<notin> insert i gone) (i # rest))"
      using step g(1) i by (auto intro: filter_cong)
    moreover have "\<forall>j \<in> insert i gone. \<exists>e. op_lookup ops j = Some e \<and> \<not> entry_running e"
      using g(4) e look i by (metis insert_iff)
    moreover have "\<forall>j \<in> set (i # rest) - insert i gone. \<forall>f. op_lookup ops j = Some f \<longrightarrow> entry_running f"
      if "card (insert i gone) < excess"
      using g(5) that card look by auto
    ultimately show ?thesis using g(2,3) True card by (intro exI [of _ "insert i gone"]) auto
  next
    case False
    then have cont: "evict_loop excess (i # rest) ops
        = (case evict_loop excess rest ops of (ops', kept) \<Rightarrow> (ops', i # kept))"
      by (auto split: option.splits)
    have cond: "\<not> (0 < excess \<and> (case op_lookup ops i of None \<Rightarrow> False | Some e \<Rightarrow> \<not> entry_running e))"
      using False by (auto split: option.splits)
    from 2(3) [OF refl cond] 2(4) obtain gone where g:
      "evict_loop excess rest ops = (evicted gone ops, filter (\<lambda>i. i \<notin> gone) rest)"
      "gone \<subseteq> set rest" "card gone \<le> excess"
      "\<forall>i \<in> gone. \<exists>e. op_lookup ops i = Some e \<and> \<not> entry_running e"
      "card gone < excess \<longrightarrow> (\<forall>i \<in> set rest - gone. \<forall>e. op_lookup ops i = Some e \<longrightarrow> entry_running e)"
      by auto
    have "i \<notin> gone" using g(2) 2(4) by auto
    moreover have "entry_running e" if "card gone < excess" "op_lookup ops i = Some e" for e
      using False that by auto
    ultimately show ?thesis
      using g cont by (intro exI [of _ gone]) auto
  qed
qed

lemma ops_inv_evicted:
  assumes "ops_inv ops"
  shows "ops_inv ((evicted gone ops)\<lparr>ops_order := filter (\<lambda>i. i \<notin> gone) (ops_order ops)\<rparr>)"
    (is "ops_inv ?ops")
proof (rule ops_invI)
  note inv = ops_invD [OF assms]
  show "distinct (map fst (ops_entries ?ops))"
    using inv(1) by (simp add: evicted_def distinct_map_filter)
  show "distinct (ops_order ?ops)" using inv(2) by simp
  show "set (ops_order ?ops) = dom (op_lookup ?ops)"
    using inv(3) by (auto simp: op_lookup_evicted split: if_splits)
  show "sn_id (en_snapshot e) = i \<and> i \<le> ops_next_id ?ops \<and>
      (\<forall>k. en_key e = Some k \<longrightarrow> ops_keys ?ops (en_owner e, k) = Some i)"
    if "op_lookup ?ops i = Some e" for i e
  proof -
    from that have e: "op_lookup ops i = Some e" "i \<notin> gone" by (auto simp: op_lookup_evicted split: if_splits)
    have "ops_keys ?ops (en_owner e, k) = Some i" if k: "en_key e = Some k" for k
    proof -
      have "ops_keys ops (en_owner e, k) = Some i" using inv(6) [OF e(1) k] .
      moreover have "j = i" if "op_lookup ops j = Some f" "en_owner f = en_owner e" "en_key f = Some k" for j f
        using inv(6) [OF that(1,3)] that(2) \<open>ops_keys ops (en_owner e, k) = Some i\<close> by simp
      ultimately show ?thesis using e(2) by (auto simp: evicted_def)
    qed
    with inv(4,5) [OF e(1)] show ?thesis by (simp add: evicted_def)
  qed
  show "\<exists>e. op_lookup ?ops i = Some e \<and> en_owner e = p \<and> en_key e = Some k"
    if "ops_keys ?ops (p, k) = Some i" for p k i
  proof -
    from that have "ops_keys ops (p, k) = Some i"
      and keep: "\<not> (\<exists>i \<in> gone. \<exists>e. op_lookup ops i = Some e \<and> en_owner e = p \<and> en_key e = Some k)"
      by (auto simp: evicted_def split: if_splits)
    from inv(7) [OF this(1)] keep show ?thesis by (auto simp: op_lookup_evicted)
  qed
  show "i = j" if "op_lookup ?ops i = Some e" "op_lookup ?ops j = Some f" "entry_running e"
      "running_duplicate (en_owner e) (sn_receiver (en_snapshot e)) (sn_intent (en_snapshot e)) f" for i e j f
    using that inv(8) by (auto simp: op_lookup_evicted split: if_splits)
qed

lemma evict_finished_spec:
  assumes "ops_inv ops"
  obtains gone where
    "evict_finished retained ops = (evicted gone ops)\<lparr>ops_order := filter (\<lambda>i. i \<notin> gone) (ops_order ops)\<rparr>"
    "\<forall>i \<in> gone. \<exists>e. op_lookup ops i = Some e \<and> \<not> entry_running e"
    "length (ops_entries (evict_finished retained ops)) < max 1 retained
     \<or> (\<forall>i e. op_lookup (evict_finished retained ops) i = Some e \<longrightarrow> entry_running e)"
proof (cases "length (ops_entries ops) - (retained - 1) = 0")
  case True
  then have "evict_finished retained ops = ops" by (simp add: evict_finished_def)
  with True that [of "{}"] show ?thesis by (simp add: evicted_empty) linarith
next
  case False
  define excess where "excess = length (ops_entries ops) - (retained - 1)"
  note inv = ops_invD [OF assms]
  from evict_loop_spec [OF inv(2), of excess ops] obtain gone where
    g: "evict_loop excess (ops_order ops) ops = (evicted gone ops, filter (\<lambda>i. i \<notin> gone) (ops_order ops))"
      "gone \<subseteq> set (ops_order ops)" "card gone \<le> excess"
      "\<forall>i \<in> gone. \<exists>e. op_lookup ops i = Some e \<and> \<not> entry_running e"
      "card gone < excess \<longrightarrow> (\<forall>i \<in> set (ops_order ops) - gone. \<forall>e. op_lookup ops i = Some e \<longrightarrow> entry_running e)"
    by blast
  have ev: "evict_finished retained ops
      = (evicted gone ops)\<lparr>ops_order := filter (\<lambda>i. i \<notin> gone) (ops_order ops)\<rparr>"
    using False g(1) by (simp add: evict_finished_def excess_def)
  have len: "length (ops_entries (evicted gone ops)) = length (ops_entries ops) - card gone"
  proof -
    have dist: "distinct (map fst (filter (\<lambda>(j, _). j \<notin> gone) (ops_entries ops)))"
      using inv(1) by (rule distinct_map_filter)
    have "fst ` set (filter (\<lambda>(j, _). j \<notin> gone) (ops_entries ops)) = fst ` set (ops_entries ops) - gone"
      by force
    moreover have "gone \<subseteq> fst ` set (ops_entries ops)"
      using g(2) inv(3) by (simp add: dom_map_of_conv_image_fst)
    ultimately have "card (fst ` set (filter (\<lambda>(j, _). j \<notin> gone) (ops_entries ops)))
        = card (fst ` set (ops_entries ops)) - card gone"
      by (simp add: card_Diff_subset finite_subset)
    with distinct_card [OF dist] distinct_card [OF inv(1)] show ?thesis by (simp add: evicted_def)
  qed
  have "length (ops_entries (evicted gone ops)) < max 1 retained" if "card gone = excess"
    using len that False by (auto simp: excess_def)
  moreover have "entry_running e" if "card gone < excess" "op_lookup (evicted gone ops) i = Some e" for i e
    using g(5) that inv(3) by (auto simp: op_lookup_evicted split: if_splits)
  ultimately have "length (ops_entries (evicted gone ops)) < max 1 retained
     \<or> (\<forall>i e. op_lookup (evicted gone ops) i = Some e \<longrightarrow> entry_running e)"
    using g(3) by (metis le_neq_implies_less)
  with that [of gone] ev g(4) show ?thesis by simp
qed

lemma evict_finished_frame [simp]:
  "ops_inv ops \<Longrightarrow> ops_next_id (evict_finished retained ops) = ops_next_id ops"
  "ops_inv ops \<Longrightarrow> ops_closed (evict_finished retained ops) = ops_closed ops"
  by (erule evict_finished_spec [of _ retained]; simp add: evicted_def)+

lemma ops_inv_evict_finished: "ops_inv ops \<Longrightarrow> ops_inv (evict_finished retained ops)"
  by (metis evict_finished_spec ops_inv_evicted)

lemma evict_lookup:
  assumes "ops_inv ops"
  shows "op_lookup (evict_finished retained ops) i = op_lookup ops i
       \<or> (op_lookup (evict_finished retained ops) i = None
          \<and> (\<exists>e. op_lookup ops i = Some e \<and> \<not> entry_running e))"
  using assms by (rule evict_finished_spec [of ops retained]) (auto simp: op_lookup_evicted)

lemma word_succ_gt: "n \<noteq> - 1 \<Longrightarrow> n < n + 1" for n :: u64
proof -
  assume "n \<noteq> - 1"
  then have "n < saturating_add n 1" by (rule saturating_add_one_gt)
  moreover have "unat n + unat (1 :: u64) < 2 ^ LENGTH(64)"
  proof (rule ccontr)
    assume "\<not> ?thesis"
    then have "unat n = 2 ^ LENGTH(64) - 1" using unat_bounded [of n] by simp
    then have "unat n = unat (- 1 :: u64)" by (simp only: unat_minus_one_max)
    with \<open>n \<noteq> - 1\<close> show False by (simp only: word_unat_eq_iff)
  qed
  ultimately show ?thesis by (simp only: saturating_add_def if_True)
qed

lemma insert_operation_spec:
  assumes "ops_inv ops" "ops_next_id ops \<noteq> - 1"
    and "insert_operation retained owner receiver sub st ops = (sn, ops')"
  defines "i \<equiv> ops_next_id ops + 1"
  shows "sn = new_snapshot i receiver (os_intent sub) st" "ops_next_id ops' = i"
    "ops_closed ops' = ops_closed ops"
    "op_lookup ops' = (op_lookup (evict_finished retained ops))
       (i \<mapsto> \<lparr>en_owner = owner, en_key = os_idempotency_key sub, en_snapshot = sn\<rparr>)"
    "map fst (ops_entries ops') = map fst (ops_entries (evict_finished retained ops)) @ [i]"
    "ops_order ops' = ops_order (evict_finished retained ops) @ [i]"
    "ops_keys ops' = (case os_idempotency_key sub of
        Some k \<Rightarrow> (ops_keys (evict_finished retained ops))((owner, k) \<mapsto> i)
      | None \<Rightarrow> ops_keys (evict_finished retained ops))"
    "op_lookup (evict_finished retained ops) i = None"
proof -
  have inv: "ops_inv (evict_finished retained ops)" using assms(1) by (rule ops_inv_evict_finished)
  show fresh: "op_lookup (evict_finished retained ops) i = None"
  proof (rule ccontr)
    assume "op_lookup (evict_finished retained ops) i \<noteq> None"
    with ops_invD(5) [OF inv] assms(1) have "i \<le> ops_next_id ops" by fastforce
    with word_succ_gt [OF assms(2)] show False by (simp add: i_def)
  qed
  then have "map_of (ops_entries (evict_finished retained ops) @ [(i, e)])
      = (op_lookup (evict_finished retained ops))(i \<mapsto> e)" for e
    by (auto simp: map_add_def fun_eq_iff split: option.splits)
  with assms(1,3) show "sn = new_snapshot i receiver (os_intent sub) st" "ops_next_id ops' = i"
    "ops_closed ops' = ops_closed ops"
    "op_lookup ops' = (op_lookup (evict_finished retained ops))
       (i \<mapsto> \<lparr>en_owner = owner, en_key = os_idempotency_key sub, en_snapshot = sn\<rparr>)"
    "map fst (ops_entries ops') = map fst (ops_entries (evict_finished retained ops)) @ [i]"
    "ops_order ops' = ops_order (evict_finished retained ops) @ [i]"
    "ops_keys ops' = (case os_idempotency_key sub of
        Some k \<Rightarrow> (ops_keys (evict_finished retained ops))((owner, k) \<mapsto> i)
      | None \<Rightarrow> ops_keys (evict_finished retained ops))"
    by (auto simp: insert_operation_def Let_def i_def cong: option.case_cong)
qed

text \<open>What \<open>admit\<close> has established when it inserts.\<close>

definition admissible :: "principal \<Rightarrow> receiver_id \<Rightarrow> operation_submission \<Rightarrow> operations \<Rightarrow> bool" where
  "admissible owner receiver sub ops \<longleftrightarrow>
     (\<forall>k. os_idempotency_key sub = Some k \<longrightarrow> ops_keys ops (owner, k) = None)
     \<and> (\<forall>i e. op_lookup ops i = Some e \<longrightarrow> \<not> running_duplicate owner receiver (os_intent sub) e)"

lemma evict_keys:
  assumes "ops_inv ops" "ops_keys ops pk = None"
  shows "ops_keys (evict_finished retained ops) pk = None"
  using assms(1) by (rule evict_finished_spec [of ops retained]) (use assms(2) in \<open>auto simp: evicted_def\<close>)

lemma ops_inv_insert:
  assumes "ops_inv ops" "ops_next_id ops \<noteq> - 1" "admissible owner receiver sub ops"
    and "insert_operation retained owner receiver sub st ops = (sn, ops')"
  shows "ops_inv ops'"
proof (rule ops_invI)
  let ?ev = "evict_finished retained ops" and ?i = "ops_next_id ops + 1"
  note spec = insert_operation_spec [OF assms(1,2,4)]
  have inv': "ops_inv ?ev" using assms(1) by (rule ops_inv_evict_finished)
  note inv = ops_invD [OF inv']
  have free: "ops_keys ?ev (owner, k) = None" if "os_idempotency_key sub = Some k" for k
    using evict_keys [OF assms(1)] that assms(3) by (simp add: admissible_def)
  have nodup: "\<not> running_duplicate owner receiver (os_intent sub) e" if "op_lookup ?ev j = Some e" for j e
    using evict_lookup [OF assms(1), of retained j] that assms(3) by (auto simp: admissible_def)
  have next_gt: "j < ?i" if "j \<le> ops_next_id ops" for j
    using that word_succ_gt [OF assms(2)] by simp
  have notin: "?i \<notin> set (map fst (ops_entries ?ev))"
    using spec(8) by (simp add: map_of_eq_None_iff)
  show "distinct (map fst (ops_entries ops'))" using inv(1) notin spec(5) by simp
  show "distinct (ops_order ops')" using inv(2,3) spec(6,8) by auto
  show "set (ops_order ops') = dom (op_lookup ops')" using inv(3) spec(4,6) by simp
  show "sn_id (en_snapshot e) = j \<and> j \<le> ops_next_id ops' \<and>
      (\<forall>k. en_key e = Some k \<longrightarrow> ops_keys ops' (en_owner e, k) = Some j)"
    if "op_lookup ops' j = Some e" for j e
  proof (cases "j = ?i")
    case True
    with that show ?thesis using spec by (auto simp: new_snapshot_def)
  next
    case False
    with that spec(4) have e: "op_lookup ?ev j = Some e" by simp
    have "ops_keys ops' (en_owner e, k) = Some j" if "en_key e = Some k" for k
      using inv(6) [OF e that] free spec(7) by (auto split: option.splits)
    with inv(4,5) [OF e] assms(1) next_gt [of j] spec(2) show ?thesis by auto
  qed
  show "\<exists>e. op_lookup ops' j = Some e \<and> en_owner e = p \<and> en_key e = Some k"
    if "ops_keys ops' (p, k) = Some j" for p k j
  proof (cases "p = owner \<and> os_idempotency_key sub = Some k")
    case True
    with that spec(4,7) show ?thesis by auto
  next
    case False
    with that spec(7) have "ops_keys ?ev (p, k) = Some j" by (auto split: option.splits if_splits)
    from inv(7) [OF this] spec(4,8) show ?thesis by auto
  qed
  show "j = j'" if "op_lookup ops' j = Some e" "op_lookup ops' j' = Some f" "entry_running e"
      "running_duplicate (en_owner e) (sn_receiver (en_snapshot e)) (sn_intent (en_snapshot e)) f" for j e j' f
  proof -
    have sym: "running_duplicate (en_owner f) (sn_receiver (en_snapshot f)) (sn_intent (en_snapshot f)) e"
      using that(3,4) by (simp add: running_duplicate_def)
    have new: "en_owner g = owner \<and> sn_receiver (en_snapshot g) = receiver \<and> sn_intent (en_snapshot g) = os_intent sub"
      if "op_lookup ops' ?i = Some g" for g
      using that spec(1,4) by (auto simp: new_snapshot_def)
    show ?thesis
      using that sym new nodup inv(8) spec(4) by (cases "j = ?i"; cases "j' = ?i") auto
  qed
qed

lemma admit_spec:
  assumes "ops_inv ops" "admit retained caps owner receiver sub ops = (res, ops', caps')"
  shows "res \<noteq> AdmitPanic \<and>
    (ops' = ops \<and> (\<forall>sn. res \<noteq> Admit (Ok (New sn))) \<or>
     (\<exists>sn st. res = Admit (Ok (New sn)) \<and> \<not> is_terminal st \<and> \<not> ops_closed ops
        \<and> admissible owner receiver sub ops
        \<and> insert_operation retained owner receiver sub st ops = (sn, ops')))"
proof (cases "ops_closed ops")
  case True
  with assms(2) show ?thesis by (auto simp: admit_def)
next
  case False
  show ?thesis
  proof (cases "Option.bind (os_idempotency_key sub) (\<lambda>k. ops_keys ops (owner, k))")
    case (Some i)
    then obtain k where "ops_keys ops (owner, k) = Some i" by (auto simp: bind_eq_Some_conv)
    from ops_invD(7) [OF assms(1) this] assms(2) False Some show ?thesis
      by (auto simp: admit_def Let_def split: if_splits)
  next
    case None
    show ?thesis
    proof (cases "List.find (\<lambda>(_, e). running_duplicate owner receiver (os_intent sub) e) (ops_entries ops)")
      case (Some x)
      with assms(2) False \<open>Option.bind _ _ = None\<close> show ?thesis
        by (cases x) (auto simp: admit_def)
    next
      case none: None
      then have "admissible owner receiver sub ops"
        using None by (auto simp: admissible_def find_None_iff bind_eq_None_conv dest: map_of_SomeD)
      note adm = this
      have ins: "(ops' = ops \<and> (\<forall>sn. res \<noteq> Admit (Ok (New sn))) \<and> res \<noteq> AdmitPanic) \<or>
         (\<exists>sn st. st \<in> {Allowed, Submitted} \<and> res = Admit (Ok (New sn))
            \<and> insert_operation retained owner receiver sub st ops = (sn, ops'))"
        using assms(2) False None none
        by (cases owner) (auto simp: admit_def split: option.splits prod.splits sum.splits)
      have "\<not> is_terminal st" if "st \<in> {Allowed, Submitted}" for st
        using that by auto
      with ins adm False show ?thesis by blast
    qed
  qed
qed

lemma ops_inv_admit [inv_intros]:
  "ops_inv ops \<Longrightarrow> ops_next_id ops \<noteq> - 1 \<Longrightarrow>
   admit retained caps owner receiver sub ops = (res, ops', caps') \<Longrightarrow> ops_inv ops'"
  using admit_spec ops_inv_insert by metis

lemma ops_inv_cancel [inv_intros]:
  "ops_inv ops \<Longrightarrow> cancel id viewer i ops = (res, ops') \<Longrightarrow> ops_inv ops'"
  by (auto simp: cancel_def split: sum.splits if_splits prod.splits option.splits
        dest: ops_inv_transition [OF _ lawful_changes(4)])

end
