(* ===== verification/Gate_Lifecycle.thy ===== *)
theory Gate_Lifecycle
  imports Operations
begin

text \<open>
  What the gate's table promises over every sequence of calls: the step relation over the
  methods of \<open>operations.rs\<close> (each runs under the operations lock), the lifecycle contract of an
  operation as a locale, its interpretation on the table, and the properties of admission,
  retention, cancellation and the write cap that follow.
\<close>

section \<open>The gate's steps\<close>

text \<open>
  One step is one call under the operations lock. The counter of ids is 64 bits wide and a
  step that would wrap it is left out: it takes \<open>2 ^ 64\<close> admissions.
\<close>

inductive op_step :: "operations \<Rightarrow> operations \<Rightarrow> bool" where
  step_admit: "ops_next_id ops \<noteq> - 1 \<Longrightarrow>
     admit retained caps owner receiver sub ops = (res, ops', caps') \<Longrightarrow> op_step ops ops'"
| step_allow: "transition change_allow i ops = (res, ops') \<Longrightarrow> op_step ops ops'"
| step_begin: "begin_session i ops = (res, ops') \<Longrightarrow> op_step ops ops'"
| step_finish: "is_terminal (rn_status rn) \<Longrightarrow> finish i rn ops = (res, ops') \<Longrightarrow> op_step ops ops'"
| step_cancel: "cancel id viewer i ops = (res, ops') \<Longrightarrow> op_step ops ops'"
| step_drop: "op_step ops (drop_task i ops)"
| step_close: "op_step ops (ops\<lparr>ops_closed := True\<rparr>)"

inductive_cases op_stepE: "op_step ops ops'"

abbreviation op_steps :: "operations \<Rightarrow> operations \<Rightarrow> bool" where
  "op_steps \<equiv> op_step\<^sup>*\<^sup>*"

text \<open>Every step is an admission, a closing, or a transition by one of the gate's changes.\<close>

definition gate_change :: "(operation_snapshot \<Rightarrow> operation_snapshot option) \<Rightarrow> bool" where
  "gate_change change \<longleftrightarrow>
     change \<in> {change_allow, change_begin, change_cancel, change_drop}
     \<or> (\<exists>rn. is_terminal (rn_status rn) \<and> change = change_finish rn)"

lemma gate_change_lawful: "gate_change change \<Longrightarrow> lawful change"
  by (auto simp: gate_change_def)

lemma cancel_is_transition:
  "cancel id viewer i ops = (res, ops') \<Longrightarrow> ops' = ops \<or> (\<exists>r. transition change_cancel i ops = (r, ops'))"
  by (auto simp: cancel_def split: sum.splits if_splits prod.splits option.splits)

lemma op_step_cases:
  assumes "op_step ops ops'" "ops_inv ops"
  obtains (same) "ops' = ops"
  | (closed) "ops' = ops\<lparr>ops_closed := True\<rparr>"
  | (changed) change i r where "gate_change change" "transition change i ops = (r, ops')"
  | (inserted) retained owner receiver sub sn st where "ops_next_id ops \<noteq> - 1"
      "\<not> is_terminal st" "admissible owner receiver sub ops"
      "insert_operation retained owner receiver sub st ops = (sn, ops')"
  using assms(1)
proof (cases rule: op_step.cases)
  case (step_admit retained caps owner receiver sub res caps')
  with admit_spec [OF assms(2) step_admit(2)] same inserted show ?thesis by blast
next
  case (step_allow i res)
  with changed [of change_allow i res] show ?thesis by (simp add: gate_change_def)
next
  case (step_begin i res)
  then obtain r where "transition change_begin i ops = (r, ops')"
    by (auto simp: begin_session_def split: prod.splits)
  with changed [of change_begin i r] show ?thesis by (simp add: gate_change_def)
next
  case (step_finish rn i res)
  then obtain r where "transition (change_finish rn) i ops = (r, ops')"
    by (auto simp: finish_def split: prod.splits)
  with changed step_finish(1) show ?thesis by (auto simp: gate_change_def)
next
  case (step_cancel viewer i res)
  with cancel_is_transition same changed show ?thesis by (metis gate_change_def insertCI)
next
  case (step_drop i)
  obtain r t where "transition change_drop i ops = (r, t)" by fastforce
  with step_drop changed [of change_drop i r] show ?thesis by (simp add: drop_task_def gate_change_def)
next
  case step_close
  with closed show ?thesis by simp
qed

lemma ops_inv_step: "ops_inv ops \<Longrightarrow> op_step ops ops' \<Longrightarrow> ops_inv ops'"
proof -
  assume inv: "ops_inv ops" and step: "op_step ops ops'"
  from step inv show ?thesis
  proof (cases rule: op_step_cases)
    case closed
    with inv show ?thesis by simp
  next
    case (changed change i r)
    with inv show ?thesis using ops_inv_transition gate_change_lawful by blast
  next
    case (inserted retained owner receiver sub sn st)
    with inv show ?thesis using ops_inv_insert by blast
  qed (use inv in simp)
qed

lemma ops_inv_steps: "op_steps ops ops' \<Longrightarrow> ops_inv ops \<Longrightarrow> ops_inv ops'"
  by (induction rule: rtranclp_induct) (auto intro: ops_inv_step)

section \<open>Lifecycles\<close>

text \<open>
  How far an operation has come. The contract of a table of operations is that what was asked,
  by whom and under which key is fixed once admitted, the stage never goes back, the entry is
  final at the last stage, and an id is never used twice; what follows from that alone is
  proved in the locale.
\<close>

fun stage :: "operation_status \<Rightarrow> nat" where
  "stage Submitted = 0"
| "stage Allowed = 1"
| "stage AwaitingApproval = 1"
| "stage Approved = 1"
| "stage InSession = 2"
| "stage _ = 3"

lemma stage_terminal: "is_terminal st \<longleftrightarrow> stage st = 3"
  by (cases st) simp_all

lemma stage_le: "stage st \<le> 3"
  by (cases st) simp_all

lemma stage_cancellable: "is_cancellable st \<longleftrightarrow> stage st < 2"
  by (cases st) simp_all

abbreviation entry_stage :: "op_entry \<Rightarrow> nat" where
  "entry_stage e \<equiv> stage (sn_status (en_snapshot e))"

lemma entry_stage_running: "entry_running e \<longleftrightarrow> entry_stage e < 3"
  using stage_le [of "sn_status (en_snapshot e)"] by (auto simp: entry_running_def stage_terminal)

definition same_request :: "op_entry \<Rightarrow> op_entry \<Rightarrow> bool" where
  "same_request e f \<longleftrightarrow> en_owner f = en_owner e \<and> en_key f = en_key e
     \<and> sn_receiver (en_snapshot f) = sn_receiver (en_snapshot e)
     \<and> sn_intent (en_snapshot f) = sn_intent (en_snapshot e)"

lemma same_request_refl [simp]: "same_request e e"
  by (simp add: same_request_def)

lemma same_request_trans: "same_request e f \<Longrightarrow> same_request f g \<Longrightarrow> same_request e g"
  by (simp add: same_request_def)

locale lifecycle =
  fixes step :: "'s \<Rightarrow> 's \<Rightarrow> bool"
    and inv :: "'s \<Rightarrow> bool"
    and get :: "'s \<Rightarrow> operation_id \<rightharpoonup> op_entry"
    and used :: "'s \<Rightarrow> operation_id \<Rightarrow> bool"
  assumes inv_step: "inv s \<Longrightarrow> step s t \<Longrightarrow> inv t"
    and get_used: "inv s \<Longrightarrow> get s i \<noteq> None \<Longrightarrow> used s i"
    and used_step: "inv s \<Longrightarrow> step s t \<Longrightarrow> used s i \<Longrightarrow> used t i"
    and no_reuse: "inv s \<Longrightarrow> step s t \<Longrightarrow> used s i \<Longrightarrow> get s i = None \<Longrightarrow> get t i = None"
    and forward: "inv s \<Longrightarrow> step s t \<Longrightarrow> get s i = Some a \<Longrightarrow> get t i = Some b \<Longrightarrow>
      a = b \<or> (entry_stage a < entry_stage b \<and> same_request a b)"
begin

lemma inv_used_run: "step\<^sup>*\<^sup>* s t \<Longrightarrow> inv s \<Longrightarrow> used s i \<Longrightarrow> inv t \<and> used t i"
  by (induction rule: rtranclp_induct) (use inv_step used_step in blast)+

lemma gone_run: "step\<^sup>*\<^sup>* s t \<Longrightarrow> inv s \<Longrightarrow> used s i \<Longrightarrow> get s i = None \<Longrightarrow> get t i = None"
  by (induction rule: rtranclp_induct) (use no_reuse inv_used_run in blast)+

lemma forward_run:
  assumes "step\<^sup>*\<^sup>* s t" "inv s" "get s i = Some a" "get t i = Some b"
  shows "a = b \<or> (entry_stage a < entry_stage b \<and> same_request a b)"
  using assms
proof (induction arbitrary: b rule: rtranclp_induct)
  case base
  then show ?case by simp
next
  case (step t u)
  have t: "inv t" "used t i" using inv_used_run [OF step.hyps(1)] step.prems get_used by blast+
  with no_reuse [OF t(1) step.hyps(2) t(2)] step.prems(3) obtain c where c: "get t i = Some c" by fastforce
  from step.IH [OF step.prems(1,2) c] forward [OF t(1) step.hyps(2) c step.prems(3)]
  show ?case using same_request_trans by fastforce
qed

lemma terminal_final:
  assumes "step\<^sup>*\<^sup>* s t" "inv s" "get s i = Some a" "\<not> entry_running a" "get t i = Some b"
  shows "b = a"
  using forward_run [OF assms(1-3,5)] assms(4) stage_le [of "sn_status (en_snapshot b)"]
  by (auto simp: entry_stage_running)

end

lemma gate_change_forward:
  "gate_change change \<Longrightarrow> change a = Some b \<Longrightarrow>
   stage (sn_status a) < stage (sn_status b) \<and> sn_receiver a = sn_receiver b \<and> sn_intent a = sn_intent b"
  by (cases "sn_status a")
     (auto simp: gate_change_def change_allow_def change_begin_def change_finish_def change_cancel_def
        change_drop_def Let_def stage_terminal split: if_splits)

lemma op_step_entry:
  assumes "ops_inv ops" "op_step ops ops'"
  shows "(op_lookup ops' i = op_lookup ops i \<or> op_lookup ops' i = None \<or>
    (\<exists>a b. op_lookup ops i = Some a \<and> op_lookup ops' i = Some b
       \<and> entry_stage a < entry_stage b \<and> same_request a b)
    \<or> (op_lookup ops i = None \<and> \<not> i \<le> ops_next_id ops)) \<and> ops_next_id ops \<le> ops_next_id ops'"
  using assms(2,1)
proof (cases rule: op_step_cases)
  case (changed change j r)
  from changed(2) show ?thesis
  proof (cases rule: transition_cases)
    case (applied e sn)
    with gate_change_forward [OF changed(1) applied(2)] show ?thesis
      by (cases "i = j") (auto simp: same_request_def)
  qed simp
next
  case (inserted retained owner receiver sub sn st)
  note spec = insert_operation_spec [OF assms(1) inserted(1,4)]
  have gt: "ops_next_id ops < ops_next_id ops + 1" using word_succ_gt [OF inserted(1)] .
  show ?thesis
  proof (cases "i = ops_next_id ops + 1")
    case True
    have "op_lookup ops i = None"
    proof (rule ccontr)
      assume "op_lookup ops i \<noteq> None"
      with ops_invD(5) [OF assms(1)] have "i \<le> ops_next_id ops" by fastforce
      with True gt show False by simp
    qed
    with True gt spec(2) show ?thesis by (simp add: not_le)
  next
    case False
    then have "op_lookup ops' i = op_lookup (evict_finished retained ops) i" using spec(4) by simp
    with evict_lookup [OF assms(1), of retained i] gt spec(2) show ?thesis by auto
  qed
qed simp_all

interpretation gate: lifecycle op_step ops_inv op_lookup "\<lambda>ops i. i \<le> ops_next_id ops"
proof unfold_locales
  fix s t i a b
  show "ops_inv s \<Longrightarrow> op_step s t \<Longrightarrow> ops_inv t" by (rule ops_inv_step)
  show "ops_inv s \<Longrightarrow> op_lookup s i \<noteq> None \<Longrightarrow> i \<le> ops_next_id s"
    using ops_invD(5) by fastforce
  show "ops_inv s \<Longrightarrow> op_step s t \<Longrightarrow> i \<le> ops_next_id s \<Longrightarrow> i \<le> ops_next_id t"
    using op_step_entry [of s t i] by (meson order_trans)
  show "ops_inv s \<Longrightarrow> op_step s t \<Longrightarrow> i \<le> ops_next_id s \<Longrightarrow> op_lookup s i = None \<Longrightarrow> op_lookup t i = None"
    using op_step_entry [of s t i] by auto
  show "ops_inv s \<Longrightarrow> op_step s t \<Longrightarrow> op_lookup s i = Some a \<Longrightarrow> op_lookup t i = Some b \<Longrightarrow>
      a = b \<or> (entry_stage a < entry_stage b \<and> same_request a b)"
    using op_step_entry [of s t i] by auto
qed

section \<open>What callers rely on\<close>

lemma op_steps_inv: "op_steps operations_default ops \<Longrightarrow> ops_inv ops"
  using ops_inv_steps ops_inv_default by blast

lemma resolve_terminal: "is_terminal (rn_status (resolve oc))"
  by (cases oc) (simp_all add: not_dispatched_def)

lemma lookup_after_transition:
  assumes "transition change i ops = (Some sn, ops')"
  shows "\<exists>e. op_lookup ops i = Some e \<and> change (en_snapshot e) = Some sn
    \<and> op_lookup ops' i = Some (e\<lparr>en_snapshot := sn\<rparr>)"
  using assms by (cases rule: transition_cases) auto

lemma transition_refused: "op_lookup ops i = Some e \<Longrightarrow> change (en_snapshot e) = None \<Longrightarrow>
    transition change i ops = (None, ops)"
  by (simp add: transition_def)

lemma begin_session_lookup:
  assumes "begin_session i ops = (True, ops')"
  shows "\<exists>e. op_lookup ops' i = Some e \<and> entry_stage e = 2"
proof -
  obtain sn where "transition change_begin i ops = (Some sn, ops')"
    using assms by (auto simp: begin_session_def split: prod.splits)
  from lookup_after_transition [OF this] show ?thesis
    by (auto simp: change_begin_def split: if_splits)
qed

lemma begin_session_past:
  assumes "\<And>e. op_lookup ops i = Some e \<Longrightarrow> entry_stage e \<ge> 2"
  shows "begin_session i ops = (False, ops)"
proof (cases "op_lookup ops i")
  case None
  then show ?thesis by (simp add: begin_session_def transition_def)
next
  case (Some e)
  have "change_begin (en_snapshot e) = None" using assms [OF Some] by (auto simp: change_begin_def)
  with Some show ?thesis by (simp add: begin_session_def transition_refused)
qed

lemma cancel_Ok:
  assumes "cancel between viewer i ops = (Ok sn, ops')"
  shows "transition change_cancel i (between ops) = (Some sn, ops')"
  using assms by (auto simp: cancel_def split: sum.splits if_splits prod.splits option.splits)

lemma stage_kept:
  assumes "ops_inv s" "op_steps s t" "op_lookup s i = Some e" "op_lookup t i = Some f"
  shows "entry_stage e \<le> entry_stage f"
  using gate.forward_run [OF assms(2,1,3,4)] by auto

lemma past_run:
  assumes "ops_inv s" "op_steps s t" "op_lookup s i = Some e" "entry_stage e \<ge> 2"
  shows "begin_session i t = (False, t)"
    and "op_steps t (between t) \<Longrightarrow> fst (cancel between viewer i t) \<noteq> Ok sn"
proof -
  have late: "entry_stage f \<ge> 2" if "op_steps s u" "op_lookup u i = Some f" for u f
    using stage_kept [OF assms(1) that(1) assms(3) that(2)] assms(4) by simp
  show "begin_session i t = (False, t)"
    using late [OF assms(2)] by (rule begin_session_past)
  assume between: "op_steps t (between t)"
  show "fst (cancel between viewer i t) \<noteq> Ok sn"
  proof
    assume "fst (cancel between viewer i t) = Ok sn"
    then obtain u where "cancel between viewer i t = (Ok sn, u)" by (metis prod.collapse)
    from lookup_after_transition [OF cancel_Ok [OF this]] obtain f where
      f: "op_lookup (between t) i = Some f" "change_cancel (en_snapshot f) = Some sn" by blast
    have "op_steps s (between t)" using assms(2) between by (rule rtranclp_trans)
    from late [OF this f(1)] f(2) show False
      by (auto simp: change_cancel_def stage_cancellable split: if_splits)
  qed
qed

section \<open>Properties\<close>

definition example_submission :: operation_submission where
  "example_submission =
     \<lparr>os_intent = IMute MuteOn, os_idempotency_key = Some (IdempotencyKey ''k'')\<rparr>"

definition example_table :: operations where
  "example_table =
     \<lparr>ops_next_id = 1, ops_closed = False,
      ops_entries = [(1, \<lparr>en_owner = Operator, en_key = Some (IdempotencyKey ''k''),
         en_snapshot = new_snapshot 1 (ReceiverId ''den'') (IMute MuteOn) Allowed\<rparr>)],
      ops_order = [1], ops_keys = [(Operator, IdempotencyKey ''k'') \<mapsto> 1]\<rparr>"

lemma example_admit:
  "admit 4 None Operator (ReceiverId ''den'') example_submission operations_default
     = (Admit (Ok (New (new_snapshot 1 (ReceiverId ''den'') (IMute MuteOn) Allowed))), example_table, None)"
  by (simp add: admit_def example_submission_def operations_default_def,
      simp add: insert_operation_def evict_finished_def, simp add: Let_def example_table_def)

lemma example_table_steps: "op_steps operations_default example_table"
  using step_admit [OF _ example_admit] by (simp add: operations_default_def)

text \<open>
  On every table the gate can reach, admission never panics (the key index never names an
  operation that is gone), and no owner has two running operations with the same receiver and
  intent.
\<close>

theorem gate_table_sound:
  assumes "op_steps operations_default ops"
  shows "fst (admit retained caps owner receiver sub ops) \<noteq> AdmitPanic
    \<and> (\<forall>i j e f. op_lookup ops i = Some e \<longrightarrow> op_lookup ops j = Some f \<longrightarrow> entry_running e \<longrightarrow>
         running_duplicate (en_owner e) (sn_receiver (en_snapshot e)) (sn_intent (en_snapshot e)) f
         \<longrightarrow> i = j)"
proof -
  have inv: "ops_inv ops" using assms by (rule op_steps_inv)
  obtain res ops' caps' where "admit retained caps owner receiver sub ops = (res, ops', caps')"
    by (metis surj_pair)
  with admit_spec [OF inv this] ops_invD(8) [OF inv] show ?thesis by auto
qed

theorem gate_table_sound_witness:
  "op_steps operations_default example_table
   \<and> fst (admit 4 None Operator (ReceiverId ''den'') example_submission example_table) \<noteq> AdmitPanic"
  using gate_table_sound [OF example_table_steps] example_table_steps by blast

text \<open>
  A finished operation is final: whatever the gate does afterwards, its entry is either
  the same or evicted, and beginning, finishing or dropping it again changes nothing.
\<close>

theorem terminal_snapshot_final:
  assumes "op_steps operations_default s" "op_lookup s i = Some e" "is_terminal (sn_status (en_snapshot e))"
    and "op_steps s t"
  shows "(op_lookup t i = Some e \<or> op_lookup t i = None)
    \<and> begin_session i t = (False, t) \<and> finish i rn t = (False, t) \<and> drop_task i t = t"
proof -
  have inv: "ops_inv s" using assms(1) by (rule op_steps_inv)
  have same: "op_lookup t i = Some e \<or> op_lookup t i = None"
    using gate.terminal_final [OF assms(4) inv assms(2)] assms(3)
    by (cases "op_lookup t i") (auto simp: entry_running_def)
  have "begin_session i t = (False, t)"
    using same assms(3) by (intro begin_session_past) (auto simp: stage_terminal)
  moreover have "transition (change_finish rn) i t = (None, t)" "transition change_drop i t = (None, t)"
    using same assms(3) by (auto simp: transition_def change_finish_def change_drop_def)
  ultimately show ?thesis using same by (simp add: finish_def drop_task_def)
qed

definition example_finished :: operations where
  "example_finished = drop_task 1 example_table"

lemma example_finished_steps: "op_steps operations_default example_finished"
  using example_table_steps step_drop [of example_table 1]
  by (simp add: example_finished_def rtranclp.rtrancl_into_rtrancl)

lemma example_finished_entry:
  "\<exists>e. op_lookup example_finished 1 = Some e \<and> sn_status (en_snapshot e) = Rejected"
  by (simp add: example_finished_def drop_task_def transition_def example_table_def new_snapshot_def
      change_drop_def Let_def)

theorem terminal_snapshot_final_witness:
  "begin_session 1 example_finished = (False, example_finished)
   \<and> finish 1 (not_dispatched Denied ''x'') example_finished = (False, example_finished)"
proof -
  from example_finished_entry obtain e where
    e: "op_lookup example_finished 1 = Some e" "sn_status (en_snapshot e) = Rejected" by blast
  show ?thesis
    using terminal_snapshot_final [OF example_finished_steps e(1) _ rtranclp.rtrancl_refl] e(2) by simp
qed

text \<open>
  C4. A cancel and the move into the session exclude each other, however the two reads of the
  cancel interleave with other calls: once an operation was moved into the session it is never
  moved again and no cancel of it succeeds, and once a cancel succeeded it is never moved.
\<close>

theorem session_or_cancel:
  assumes "op_steps operations_default s" "op_steps s (between s)"
  shows "(begin_session i s = (True, s1) \<and> op_steps s1 t \<and> op_steps t (between' t) \<longrightarrow>
           begin_session i t = (False, t) \<and> fst (cancel between' viewer i t) \<noteq> Ok sn)
    \<and> (cancel between viewer i s = (Ok sn', s2) \<and> op_steps s2 t \<longrightarrow> begin_session i t = (False, t))"
proof (intro conjI impI; elim conjE)
  have inv: "ops_inv s" "ops_inv (between s)"
    using assms op_steps_inv rtranclp_trans by metis+
  {
    assume b: "begin_session i s = (True, s1)" and run: "op_steps s1 t" "op_steps t (between' t)"
    have inv1: "ops_inv s1" using ops_inv_step [OF inv(1) step_begin [OF b]] .
    obtain e where e: "op_lookup s1 i = Some e" "2 \<le> entry_stage e"
      using begin_session_lookup [OF b] by auto
    show "begin_session i t = (False, t)" by (rule past_run(1) [OF inv1 run(1) e])
    show "fst (cancel between' viewer i t) \<noteq> Ok sn" 
      using past_run(2) [OF inv1 run(1) e] run(2) by blast
  next
    assume c: "cancel between viewer i s = (Ok sn', s2)" and run: "op_steps s2 t"
    note tr = cancel_Ok [OF c]
    have "ops_inv s2" using ops_inv_transition [OF inv(2) lawful_changes(4) tr] .
    moreover obtain e where "op_lookup s2 i = Some e" "entry_stage e \<ge> 2"
      using lookup_after_transition [OF tr] by (auto simp: change_cancel_def split: if_splits)
    ultimately show "begin_session i t = (False, t)" using past_run(1) run by blast
  }
qed

definition example_in_session :: operations where
  "example_in_session = snd (begin_session 1 example_table)"

lemma example_begins: "begin_session 1 example_table = (True, example_in_session)"
  by (simp add: example_in_session_def begin_session_def transition_def example_table_def new_snapshot_def
      change_begin_def)

theorem session_or_cancel_witness:
  "begin_session 1 example_table = (True, example_in_session)
   \<and> begin_session 1 example_in_session = (False, example_in_session)
   \<and> fst (cancel id Operator 1 example_in_session) \<noteq> Ok (new_snapshot 1 (ReceiverId ''den'') (IMute MuteOn) Cancelled)"
  using session_or_cancel [OF example_table_steps, of id 1 example_in_session example_in_session id Operator
      "new_snapshot 1 (ReceiverId ''den'') (IMute MuteOn) Cancelled"] example_begins
  by auto

text \<open>
  Admission never loses a running operation: after a new operation every operation that
  was running is still there unchanged, and the table holds at most as many operations as are
  retained, unless everything in it is still running.
\<close>

theorem retention_keeps_running:
  assumes "op_steps operations_default ops" "ops_next_id ops \<noteq> - 1"
    and "admit retained caps owner receiver sub ops = (Admit (Ok (New sn)), ops', caps')"
  shows "(\<forall>i e. op_lookup ops i = Some e \<and> entry_running e \<longrightarrow> op_lookup ops' i = Some e)
    \<and> (length (ops_entries ops') \<le> max 1 retained
        \<or> (\<forall>i e. op_lookup ops' i = Some e \<longrightarrow> entry_running e))
    \<and> op_lookup ops (sn_id sn) = None \<and> (\<exists>e. op_lookup ops' (sn_id sn) = Some e \<and> en_snapshot e = sn)"
proof -
  have inv: "ops_inv ops" using assms(1) by (rule op_steps_inv)
  let ?ev = "evict_finished retained ops" and ?i = "ops_next_id ops + 1"
  obtain st where st: "\<not> is_terminal st" "insert_operation retained owner receiver sub st ops = (sn, ops')"
    using admit_spec [OF inv assms(3)] by auto
  note spec = insert_operation_spec [OF inv assms(2) st(2)]
  have fresh: "op_lookup ops ?i = None"
  proof (rule ccontr)
    assume "op_lookup ops ?i \<noteq> None"
    then have "?i \<le> ops_next_id ops" using ops_invD(5) [OF inv] by fastforce
    with word_succ_gt [OF assms(2)] show False by simp
  qed
  have running: "op_lookup ops' i = Some e" if "op_lookup ops i = Some e" "entry_running e" for i e
  proof -
    have "i \<noteq> ?i" using that(1) fresh by auto
    moreover have "op_lookup ?ev i = Some e" using evict_lookup [OF inv, of retained i] that by auto
    ultimately show ?thesis using spec(4) by simp
  qed
  have new: "en_snapshot e = sn \<and> sn_status sn = st" if "op_lookup ops' ?i = Some e" for e
    using that spec(1,4) by (auto simp: new_snapshot_def)
  have len: "length (ops_entries ops') = length (ops_entries ?ev) + 1"
    using arg_cong [OF spec(5), of length] by simp
  have size: "length (ops_entries ops') \<le> max 1 retained
      \<or> (\<forall>i e. op_lookup ops' i = Some e \<longrightarrow> entry_running e)"
  proof (rule evict_finished_spec [OF inv, of retained])
    assume "length (ops_entries ?ev) < max 1 retained \<or> (\<forall>i e. op_lookup ?ev i = Some e \<longrightarrow> entry_running e)"
    then show ?thesis
    proof
      assume "length (ops_entries ?ev) < max 1 retained"
      with len show ?thesis by simp
    next
      assume all: "\<forall>i e. op_lookup ?ev i = Some e \<longrightarrow> entry_running e"
      have "entry_running e" if "op_lookup ops' i = Some e" for i e
        using that all spec(4) new st(1) by (cases "i = ?i") (auto simp: entry_running_def)
      then show ?thesis by blast
    qed
  qed
  have "sn_id sn = ?i" using spec(1) by (simp add: new_snapshot_def)
  with running size fresh spec(4) show ?thesis by auto
qed

theorem retention_keeps_running_witness:
  "op_lookup operations_default 1 = None
   \<and> (\<exists>e. op_lookup example_table 1 = Some e \<and> sn_status (en_snapshot e) = Allowed)"
proof -
  have "ops_next_id operations_default \<noteq> - 1" by (simp add: operations_default_def)
  from retention_keeps_running [OF rtranclp.rtrancl_refl this example_admit, THEN conjunct2, THEN conjunct2]
  show ?thesis by (auto simp: new_snapshot_def)
qed

text \<open>
  A retry under an idempotency key never starts a second operation: while the operation of
  the first call is in the table and the gate is open, the same owner asking for the same
  receiver and intent under the same key gets that operation back, whatever happened in
  between, and neither the table nor the caps change; another request under the key is refused.
\<close>

theorem retry_returns_existing:
  assumes "op_steps operations_default ops" "op_lookup ops i = Some e" "en_key e = Some k"
    and "op_steps ops t" "op_lookup t i = Some f" "\<not> ops_closed t"
    and "os_idempotency_key sub = Some k"
  shows "admit retained caps (en_owner e) receiver sub t =
    (Admit (if receiver = sn_receiver (en_snapshot e) \<and> os_intent sub = sn_intent (en_snapshot e)
            then Ok (Existing (en_snapshot f))
            else Err (InvalidRequest ''the idempotency key was already used for a different request'')),
     t, caps)"
proof -
  have inv: "ops_inv ops" "ops_inv t"
    using assms(1,4) op_steps_inv rtranclp_trans by metis+
  have same: "same_request e f"
    using gate.forward_run [OF assms(4) inv(1) assms(2,5)] by auto
  then have "ops_keys t (en_owner e, k) = Some i"
    using ops_invD(6) [OF inv(2) assms(5), of k] assms(3) by (simp add: same_request_def)
  with assms(5-7) same show ?thesis
    by (auto simp: admit_def Let_def same_request_def)
qed

definition example_entry :: "operation_status \<Rightarrow> op_entry" where
  "example_entry st = \<lparr>en_owner = Operator, en_key = Some (IdempotencyKey ''k''),
     en_snapshot = new_snapshot 1 (ReceiverId ''den'') (IMute MuteOn) st\<rparr>"

lemma example_lookups:
  "op_lookup example_table 1 = Some (example_entry Allowed)"
  "op_lookup example_in_session 1 = Some (example_entry InSession)"
  "\<not> ops_closed example_in_session"
  by (simp_all add: example_in_session_def begin_session_def transition_def example_table_def new_snapshot_def
        change_begin_def example_entry_def)

theorem retry_returns_existing_witness:
  "admit 4 None Operator (ReceiverId ''den'') example_submission example_in_session
   = (Admit (Ok (Existing (new_snapshot 1 (ReceiverId ''den'') (IMute MuteOn) InSession))), example_in_session, None)"
proof -
  have run: "op_steps example_table example_in_session"
    using step_begin [OF example_begins] by simp
  have "en_key (example_entry Allowed) = Some (IdempotencyKey ''k'')"
    "os_idempotency_key example_submission = Some (IdempotencyKey ''k'')"
    by (simp_all add: example_entry_def example_submission_def)
  from retry_returns_existing [OF example_table_steps example_lookups(1) this(1) run example_lookups(2,3) this(2),
      of 4 None "ReceiverId ''den''"]
  show ?thesis by (simp add: example_entry_def example_submission_def new_snapshot_def)
qed

end
