(* ===== verification/Write_Caps.thy ===== *)
theory Write_Caps
  imports Operations
begin

text \<open>
  The write cap of \<open>service/agent/budget.rs\<close> over time: however the calls of several agents
  interleave and whenever quiet labels are swept, no label is granted more writes in any
  window of a minute than its limit. The calls come in the order of the monotonic clock.
\<close>

section \<open>Runs of charges\<close>

definition recent_of :: "agent_label \<Rightarrow> write_book \<Rightarrow> instant list" where
  "recent_of label wb = (case map_of wb label of Some r \<Rightarrow> r | None \<Rightarrow> [])"

text \<open>The times at which \<open>label\<close> was granted a write in a run of charges.\<close>

fun grants :: "agent_limits \<Rightarrow> agent_label \<Rightarrow> (instant \<times> agent_label) list \<Rightarrow> write_book \<Rightarrow> instant list" where
  "grants limits label [] wb = []"
| "grants limits label ((now, l) # calls) wb =
     (case charge_write limits now l wb of
        (r, wb') \<Rightarrow> (if r = Ok () \<and> l = label then [now] else []) @ grants limits label calls wb')"

definition in_window :: "instant \<Rightarrow> instant list \<Rightarrow> instant list" where
  "in_window t = filter (\<lambda>g. g \<le> t \<and> t - g < WRITE_WINDOW)"

lemma in_window_append [simp]: "in_window t (xs @ ys) = in_window t xs @ in_window t ys"
  by (simp add: in_window_def)

lemma in_window_old: "\<forall>g \<in> set xs. m - g \<ge> WRITE_WINDOW \<Longrightarrow> m \<le> t \<Longrightarrow> in_window t xs = []"
  by (fastforce simp: in_window_def filter_empty_conv)

lemma length_in_window: "length (in_window t xs) \<le> length xs"
  by (simp add: in_window_def)

text \<open>
  The book of a label is the end of its grants, what it forgot is out of the window, and the
  cap holds so far.
\<close>

definition cap_inv :: "agent_limits \<Rightarrow> agent_label \<Rightarrow> instant \<Rightarrow> instant list \<Rightarrow> write_book \<Rightarrow> bool" where
  "cap_inv limits label now past wb \<longleftrightarrow>
     distinct (map fst wb) \<and> sorted past \<and> (\<forall>g \<in> set past. g \<le> now)
     \<and> (\<exists>old. past = old @ recent_of label wb \<and> (\<forall>g \<in> set old. now - g \<ge> WRITE_WINDOW))
     \<and> (\<forall>t. length (in_window t past) \<le> al_writes_per_minute limits)"

lemma cap_inv_later: "cap_inv limits label now past wb \<Longrightarrow> now \<le> m \<Longrightarrow> cap_inv limits label m past wb"
  unfolding cap_inv_def by (elim conjE exE, intro conjI exI) (auto intro: order_trans diff_le_mono)

lemma map_of_filter_distinct:
  "distinct (map fst xs) \<Longrightarrow>
   map_of (filter P xs) k = (case map_of xs k of Some v \<Rightarrow> if P (k, v) then Some v else None | None \<Rightarrow> None)"
  by (induction xs) (auto simp: map_of_eq_None_iff split: option.splits)

lemma cap_inv_sweep:
  assumes "cap_inv limits label now past wb"
  shows "cap_inv limits label now past (sweep_labels now wb)"
proof (cases "recent_of label (sweep_labels now wb) = recent_of label wb")
  case True
  with assms show ?thesis by (auto simp: cap_inv_def sweep_labels_def distinct_map_filter)
next
  case False
  from assms obtain old where inv: "distinct (map fst wb)" "sorted past" "past = old @ recent_of label wb"
    "\<forall>g \<in> set old. now - g \<ge> WRITE_WINDOW" by (auto simp: cap_inv_def)
  from False obtain r where r: "map_of wb label = Some r"
    by (cases "map_of wb label")
       (auto simp: recent_of_def sweep_labels_def map_of_filter_distinct [OF inv(1)] split: if_splits)
  with False have gone: "recent_of label (sweep_labels now wb) = []" "recent_of label wb = r" "r \<noteq> []"
    "now - last r \<ge> WRITE_WINDOW"
    by (auto simp: recent_of_def sweep_labels_def map_of_filter_distinct [OF inv(1)] duration_since_def
        simp del: map_of_eq_Some_iff split: if_splits)
  have "now - g \<ge> WRITE_WINDOW" if g: "g \<in> set (recent_of label wb)" for g
  proof -
    have "sorted r" using inv(2,3) gone(2) by (simp add: sorted_append)
    then have "g \<le> last r"
      using g gone(2) by (cases r rule: rev_cases) (auto simp: sorted_append)
    with gone(4) show ?thesis by linarith
  qed
  with inv(4) have "\<forall>g \<in> set past. now - g \<ge> WRITE_WINDOW" by (auto simp: inv(3))
  with assms gone(1) show ?thesis
    by (auto simp: cap_inv_def sweep_labels_def distinct_map_filter intro: exI [of _ past])
qed

lemma cap_inv_charge:
  assumes "cap_inv limits label now past wb" "now \<le> m" "charge_write limits m l wb = (r, wb')"
  shows "cap_inv limits label m (past @ (if r = Ok () \<and> l = label then [m] else [])) wb'"
proof -
  let ?sw = "sweep_labels m wb"
  have inv: "cap_inv limits label m past ?sw"
    using cap_inv_sweep cap_inv_later assms(1,2) by blast
  define kept where "kept = dropWhile (\<lambda>t. duration_since m t \<ge> WRITE_WINDOW) (recent_of l ?sw)"
  from assms(3) consider
      (refused) "r \<noteq> Ok ()" "wb' = AList.update l kept ?sw"
    | (granted) "r = Ok ()" "wb' = AList.update l (kept @ [m]) ?sw" "length kept < al_writes_per_minute limits"
    by (auto simp: charge_write_def Let_def kept_def recent_of_def split: if_splits)
  note cases = this
  have look: "recent_of label (AList.update l x ?sw) = (if l = label then x else recent_of label ?sw)" for x
    by (simp add: recent_of_def update_conv')
  have dist: "distinct (map fst (AList.update l x ?sw))" for x
    using inv by (simp add: cap_inv_def distinct_update)
  from inv obtain old where old: "past = old @ recent_of label ?sw" "\<forall>g \<in> set old. m - g \<ge> WRITE_WINDOW"
    by (auto simp: cap_inv_def)
  define old' where "old' = old @ takeWhile (\<lambda>t. duration_since m t \<ge> WRITE_WINDOW) (recent_of label ?sw)"
  have old': "past = old' @ kept" "\<forall>g \<in> set old'. m - g \<ge> WRITE_WINDOW" if "l = label"
    using old that by (auto simp: old'_def kept_def duration_since_def dest: set_takeWhileD)
  show ?thesis
  proof (cases "l = label")
    case other: False
    from cases show ?thesis
      by cases (use inv other look dist in \<open>auto simp: cap_inv_def\<close>)
  next
    case True
    note old' = old' [OF True]
    from cases show ?thesis
    proof cases
      case refused
      with inv True look dist old' show ?thesis by (auto simp: cap_inv_def)
    next
      case granted
      have "length (in_window t (past @ [m])) \<le> al_writes_per_minute limits" for t
      proof (cases "m \<le> t")
        case True
        then have "length (in_window t past) \<le> length kept"
          using old' in_window_old length_in_window by simp
        with granted(3) show ?thesis by (simp add: in_window_def)
      next
        case False
        with inv show ?thesis by (simp add: in_window_def cap_inv_def)
      qed
      with granted inv True look dist old' show ?thesis by (auto simp: cap_inv_def sorted_append)
    qed
  qed
qed

lemma cap_inv_run:
  assumes "cap_inv limits label now past wb" "sorted (map fst calls)" "\<forall>c \<in> set calls. now \<le> fst c"
  shows "length (in_window t (past @ grants limits label calls wb)) \<le> al_writes_per_minute limits"
  using assms
proof (induction calls arbitrary: now past wb)
  case Nil
  then show ?case by (simp add: cap_inv_def)
next
  case (Cons c calls)
  obtain m l where c: "c = (m, l)" by (cases c)
  obtain r wb' where ch: "charge_write limits m l wb = (r, wb')" by fastforce
  have "cap_inv limits label m (past @ (if r = Ok () \<and> l = label then [m] else [])) wb'"
    using cap_inv_charge [OF Cons.prems(1) _ ch] Cons.prems(3) c by simp
  from Cons.IH [OF this] Cons.prems(2) c ch show ?case by simp
qed

section \<open>The property\<close>

text \<open>
  Over any run of charges in clock order, of any mix of labels and with the sweeping of
  quiet ones, the writes granted to a label in any window of 60 seconds are at most its limit.
\<close>

theorem write_cap:
  assumes "sorted (map fst calls)"
  shows "length (in_window t (grants limits label calls [])) \<le> al_writes_per_minute limits"
  using cap_inv_run [of limits label 0 "[]" "[]" calls t] assms
  by (simp add: cap_inv_def recent_of_def in_window_def)

definition example_limits :: agent_limits where
  "example_limits = \<lparr>al_writes_per_minute = 1, al_unfinished_operations = 8\<rparr>"

theorem write_cap_witness:
  "grants example_limits (AgentLabel ''a'') [(0, AgentLabel ''a''), (5, AgentLabel ''a'')] [] = [0]
   \<and> length (in_window 6 (grants example_limits (AgentLabel ''a'')
        [(0, AgentLabel ''a''), (5, AgentLabel ''a'')] [])) \<le> 1"
  using write_cap [of "[(0, AgentLabel ''a''), (5, AgentLabel ''a'')]" 6 example_limits "AgentLabel ''a''"]
  by (simp add: charge_write_def sweep_labels_def SWEEP_LABELS_ABOVE_def WRITE_WINDOW_def from_secs_def
      duration_since_def example_limits_def)

end
