(* ===== verification/Agent_State.thy ===== *)
theory Agent_State
  imports Operations State_Properties
begin

text \<open>
  The state of the agent path, \<open>crates/application/src/service/agent.rs\<close>, with the bounded
  appends and records of \<open>agent/audit.rs\<close> and the rebuilding of the ledger of
  \<open>agent/budget.rs\<close>. The clock, the policy source and the audit log are collaborators: what
  they answer is an argument of the operation that asks. \<open>ag_log\<close> is the part of the audit
  log the model can rely on, the records whose append was acknowledged in time, with the
  durability asked for; the code has no such field.
\<close>

section \<open>The policy in force\<close>

record loaded_policy =
  lp_config :: policy_config
  lp_digest :: policy_digest
  lp_text :: string

datatype policy_load_error = PolicyMissing | PolicyUnreadable string | PolicyInvalid string

fun policy_load_error_fmt :: "policy_load_error \<Rightarrow> string" where
  "policy_load_error_fmt PolicyMissing = ''there is no policy file''"
| "policy_load_error_fmt (PolicyUnreadable why) = ''the policy file cannot be read: '' @ why"
| "policy_load_error_fmt (PolicyInvalid why) = ''the policy file is invalid: '' @ why"

record active_policy =
  ap_loaded :: loaded_policy
  ap_loaded_at :: wall_time

abbreviation ap_config :: "active_policy \<Rightarrow> policy_config" where
  "ap_config p \<equiv> lp_config (ap_loaded p)"

datatype policy_state = PolicyInForce active_policy | NoPolicy string

record policy_view =
  pv_digest :: "policy_digest option"
  pv_loaded_at :: "wall_time option"
  pv_text :: "string option"
  pv_error :: "string option"

section \<open>The agent state\<close>

record books =
  bk_ledger :: ledger
  bk_ready :: bool

definition books_default :: books where
  "books_default = \<lparr>bk_ledger = ledger_new, bk_ready = False\<rparr>"

record agent_state =
  ag_limits :: agent_limits
  ag_run :: wall_time
  ag_policy :: policy_state
  ag_books :: books
  ag_audit_ok :: bool
  ag_refusals :: "instant option \<times> u32"
  ag_writes :: write_book
  ag_log :: "(audit_record \<times> durability) list"

definition POLICY_UNAVAILABLE :: string where "POLICY_UNAVAILABLE = ''policy unavailable''"
definition LEDGER_UNAVAILABLE :: string where
  "LEDGER_UNAVAILABLE = ''the budget history is not available''"

section \<open>Records and appends\<close>

text \<open>\<open>record\<close> stamps the record with the run, the time and the schema.\<close>

definition record_as ::
  "agent_state \<Rightarrow> wall_time \<Rightarrow> operation_id option \<Rightarrow> principal option \<Rightarrow> receiver_id option \<Rightarrow> audit_event
     \<Rightarrow> audit_record" where
  "record_as ag now op who r event =
     \<lparr>ar_schema = AUDIT_SCHEMA, ar_run = ag_run ag, ar_at = now, ar_operation = op, ar_principal = who,
      ar_receiver = r, ar_event = event\<rparr>"

text \<open>
  \<open>append_within\<close>: \<open>answered\<close> is whether the log acknowledged the record within the limit.
\<close>

definition append_within :: "bool \<Rightarrow> audit_record \<Rightarrow> durability \<Rightarrow> agent_state \<Rightarrow> bool \<times> agent_state" where
  "append_within answered rec durability ag =
     (answered,
      ag\<lparr>ag_audit_ok := answered,
         ag_log := (if answered then ag_log ag @ [(rec, durability)] else ag_log ag)\<rparr>)"

definition record_finished ::
  "wall_time \<Rightarrow> bool \<Rightarrow> operation_id \<Rightarrow> principal \<Rightarrow> receiver_id \<Rightarrow> resolution \<Rightarrow> agent_state \<Rightarrow> agent_state" where
  "record_finished now answered i owner r rn ag =
     snd (append_within answered
       (record_as ag now (Some i) (Some owner) (Some r)
          (Finished (status_str (rn_status rn)) (rn_dispatch rn) (rn_confirmed rn) (rn_reason rn)))
       Flushed ag)"

definition record_token_event :: "wall_time \<Rightarrow> bool \<Rightarrow> audit_event \<Rightarrow> agent_state \<Rightarrow> agent_state" where
  "record_token_event now answered event ag =
     snd (append_within answered (record_as ag now None (Some Operator) None event) Flushed ag)"

definition REFUSAL_LOG_EVERY :: duration where "REFUSAL_LOG_EVERY = from_secs 60"

text \<open>A refusal made before any decision is written once a minute, with the count of the others.\<close>

definition record_refused ::
  "instant \<Rightarrow> wall_time \<Rightarrow> bool \<Rightarrow> operation_id \<Rightarrow> principal \<Rightarrow> receiver_id \<Rightarrow> resolution
     \<Rightarrow> agent_state \<Rightarrow> agent_state" where
  "record_refused tick now answered i owner r rn ag =
     (case ag_refusals ag of (last_written, skipped) \<Rightarrow>
        if (case last_written of None \<Rightarrow> True | Some t \<Rightarrow> duration_since tick t \<ge> REFUSAL_LOG_EVERY)
        then record_finished now answered i owner r
               (if skipped > 0
                then rn\<lparr>rn_reason := Some ((case rn_reason rn of Some t \<Rightarrow> t | None \<Rightarrow> '''')
                       @ '' ('' @ show_nat (unat skipped) @ '' more refused since the last record)'')\<rparr>
                else rn)
               (ag\<lparr>ag_refusals := (Some tick, 0)\<rparr>)
        else ag\<lparr>ag_refusals := (last_written, skipped + 1)\<rparr>)"

definition dispatching :: "receiver_intent \<Rightarrow> receiver_state \<Rightarrow> core_field list \<Rightarrow> audit_event" where
  "dispatching intent st bound =
     (case intent of
        IVolume target \<Rightarrow> Dispatching (intent_text intent) (observed_volume st) (Some (level_of target)) bound
      | _ \<Rightarrow> Dispatching (intent_text intent) None None bound)"

definition reasons_of :: "decision \<Rightarrow> string list" where
  "reasons_of d = map reason_fmt (decision_reasons d)"

fun join_with :: "string \<Rightarrow> string list \<Rightarrow> string" where
  "join_with sep [] = []"
| "join_with sep [x] = x"
| "join_with sep (x # xs) = x @ sep @ join_with sep xs"

definition reason_text :: "decision \<Rightarrow> string" where
  "reason_text d =
     (let reasons = reasons_of d in
      if reasons = [] then ''the policy does not allow this'' else join_with ''; '' reasons)"

fun audit_decision_of :: "effect \<Rightarrow> audit_decision" where
  "audit_decision_of EffectAllow = AuditAllow"
| "audit_decision_of EffectRequireApproval = AuditRequireApproval"
| "audit_decision_of EffectDeny = AuditDeny"

text \<open>The fields of a baseline, in the order of the \<open>BTreeSet\<close>.\<close>

definition baseline_fields :: "baseline \<Rightarrow> core_field list" where
  "baseline_fields b = filter (\<lambda>f. f \<in> b) core_fields"

definition decided :: "receiver_intent \<Rightarrow> decision \<Rightarrow> policy_digest \<Rightarrow> audit_event" where
  "decided intent d digest =
     Decided (intent_text intent) (audit_decision_of (decision_effect d)) (reasons_of d) (decision_rules d)
       (case decision_baseline d of Some b \<Rightarrow> baseline_fields b | None \<Rightarrow> []) (Some digest)"

section \<open>Loading the policy, rebuilding the ledger, health\<close>

definition load_policy ::
  "wall_time \<Rightarrow> (loaded_policy, policy_load_error) result \<Rightarrow> wall_time \<Rightarrow> bool \<Rightarrow> agent_state
     \<Rightarrow> policy_view \<times> agent_state" where
  "load_policy now read recorded_at answered ag =
     (let (event, view, in_force) =
        (case read of
           Ok loaded \<Rightarrow>
             (PolicyLoaded (lp_digest loaded),
              \<lparr>pv_digest = Some (lp_digest loaded), pv_loaded_at = Some now, pv_text = Some (lp_text loaded),
               pv_error = None\<rparr>,
              PolicyInForce \<lparr>ap_loaded = loaded, ap_loaded_at = now\<rparr>)
         | Err e \<Rightarrow>
             (PolicyLoadFailed (policy_load_error_fmt e),
              \<lparr>pv_digest = None, pv_loaded_at = None, pv_text = None, pv_error = Some (policy_load_error_fmt e)\<rparr>,
              NoPolicy (policy_load_error_fmt e)));
          ag1 = ag\<lparr>ag_policy := in_force\<rparr>
      in (view, snd (append_within answered
                       (record_as ag1 recorded_at None (Some Operator) None event) Flushed ag1)))"

definition policy_view_of :: "agent_state \<Rightarrow> policy_view" where
  "policy_view_of ag =
     (case ag_policy ag of
        PolicyInForce p \<Rightarrow>
          \<lparr>pv_digest = Some (lp_digest (ap_loaded p)), pv_loaded_at = Some (ap_loaded_at p),
           pv_text = Some (lp_text (ap_loaded p)), pv_error = None\<rparr>
      | NoPolicy e \<Rightarrow> \<lparr>pv_digest = None, pv_loaded_at = None, pv_text = None, pv_error = Some e\<rparr>)"

definition active_policy_of :: "agent_state \<Rightarrow> active_policy option" where
  "active_policy_of ag = (case ag_policy ag of PolicyInForce p \<Rightarrow> Some p | NoPolicy _ \<Rightarrow> None)"

definition policy_digest_of :: "agent_state \<Rightarrow> policy_digest option" where
  "policy_digest_of ag =
     (case ag_policy ag of PolicyInForce p \<Rightarrow> Some (lp_digest (ap_loaded p)) | NoPolicy _ \<Rightarrow> None)"

text \<open>
  \<open>history\<close> is what reading a day of the log answered: its records, or nothing when it failed
  or timed out.
\<close>

definition ensure_ledger :: "wall_time \<Rightarrow> audit_record list option \<Rightarrow> agent_state \<Rightarrow> bool \<times> agent_state" where
  "ensure_ledger now history ag =
     (if bk_ready (ag_books ag) then (True, ag)
      else case history of
        None \<Rightarrow> (False, ag)
      | Some records \<Rightarrow>
          (True, ag\<lparr>ag_books :=
             \<lparr>bk_ledger = ledger_merge (bk_ledger (ag_books ag)) (ledger_rebuild records now), bk_ready = True\<rparr>\<rparr>))"

definition health :: "agent_state \<Rightarrow> service_health" where
  "health ag =
     \<lparr>sh_policy = (case ag_policy ag of PolicyInForce _ \<Rightarrow> PolicyActive | NoPolicy _ \<Rightarrow> PolicyUnavailable),
      sh_audit = (if ag_audit_ok ag then AuditOk else AuditFailing),
      sh_ledger_ready = bk_ready (ag_books ag), sh_approval = ApprovalPathUnavailable\<rparr>"

definition precheck ::
  "wall_time \<Rightarrow> audit_record list option \<Rightarrow> agent_state \<Rightarrow> (unit, string) result \<times> agent_state" where
  "precheck now history ag =
     (if active_policy_of ag = None then (Err POLICY_UNAVAILABLE, ag)
      else case ensure_ledger now history ag of
             (True, ag') \<Rightarrow> (Ok (), ag')
           | (False, ag') \<Rightarrow> (Err LEDGER_UNAVAILABLE, ag'))"

definition agent_start ::
  "agent_limits \<Rightarrow> wall_time \<Rightarrow> wall_time \<Rightarrow> (loaded_policy, policy_load_error) result \<Rightarrow> wall_time \<Rightarrow> bool
     \<Rightarrow> wall_time \<Rightarrow> audit_record list option \<Rightarrow> agent_state" where
  "agent_start limits run loaded_at read recorded_at answered rebuilt_at history =
     (let ag = \<lparr>ag_limits = limits, ag_run = run, ag_policy = NoPolicy ''the policy has not been loaded'',
                ag_books = books_default, ag_audit_ok = True, ag_refusals = (None, 0), ag_writes = [],
                ag_log = []\<rparr>;
          (_, ag1) = load_policy loaded_at read recorded_at answered ag
      in snd (ensure_ledger rebuilt_at history ag1))"

section \<open>What the operations leave alone\<close>

named_theorems agent_frame

lemma append_within_frame [agent_frame, simp]:
  "ag_run (snd (append_within a rec d ag)) = ag_run ag"
  "ag_limits (snd (append_within a rec d ag)) = ag_limits ag"
  "ag_policy (snd (append_within a rec d ag)) = ag_policy ag"
  "ag_books (snd (append_within a rec d ag)) = ag_books ag"
  "ag_writes (snd (append_within a rec d ag)) = ag_writes ag"
  "fst (append_within a rec d ag) = a"
  by (simp_all add: append_within_def)

lemma set_append_within [simp]:
  "set (ag_log (snd (append_within a rec d ag))) = (if a then insert (rec, d) (set (ag_log ag)) else set (ag_log ag))"
  by (simp add: append_within_def)

lemma record_finished_frame [agent_frame, simp]:
  "ag_run (record_finished n a i ow r rn ag) = ag_run ag"
  "ag_limits (record_finished n a i ow r rn ag) = ag_limits ag"
  "ag_policy (record_finished n a i ow r rn ag) = ag_policy ag"
  "ag_books (record_finished n a i ow r rn ag) = ag_books ag"
  "ag_writes (record_finished n a i ow r rn ag) = ag_writes ag"
  "set (ag_log ag) \<subseteq> set (ag_log (record_finished n a i ow r rn ag))"
  by (auto simp: record_finished_def)

lemma record_refused_frame [agent_frame, simp]:
  "ag_run (record_refused t n a i ow r rn ag) = ag_run ag"
  "ag_limits (record_refused t n a i ow r rn ag) = ag_limits ag"
  "ag_policy (record_refused t n a i ow r rn ag) = ag_policy ag"
  "ag_books (record_refused t n a i ow r rn ag) = ag_books ag"
  "ag_writes (record_refused t n a i ow r rn ag) = ag_writes ag"
  "set (ag_log ag) \<subseteq> set (ag_log (record_refused t n a i ow r rn ag))"
  by (auto simp: record_refused_def record_finished_def split: prod.splits)

lemma load_policy_frame [agent_frame, simp]:
  "ag_run (snd (load_policy n rd n2 a ag)) = ag_run ag"
  "ag_limits (snd (load_policy n rd n2 a ag)) = ag_limits ag"
  "ag_books (snd (load_policy n rd n2 a ag)) = ag_books ag"
  "ag_writes (snd (load_policy n rd n2 a ag)) = ag_writes ag"
  "set (ag_log ag) \<subseteq> set (ag_log (snd (load_policy n rd n2 a ag)))"
  by (auto simp: load_policy_def Let_def split: sum.splits)

lemma load_policy_state:
  "active_policy_of (snd (load_policy n rd n2 a ag)) =
     (case rd of Ok loaded \<Rightarrow> Some \<lparr>ap_loaded = loaded, ap_loaded_at = n\<rparr> | Err _ \<Rightarrow> None)"
  by (auto simp: load_policy_def active_policy_of_def Let_def split: sum.splits)

lemma ensure_ledger_frame [agent_frame, simp]:
  "ag_run (snd (ensure_ledger n h ag)) = ag_run ag"
  "ag_limits (snd (ensure_ledger n h ag)) = ag_limits ag"
  "ag_policy (snd (ensure_ledger n h ag)) = ag_policy ag"
  "ag_writes (snd (ensure_ledger n h ag)) = ag_writes ag"
  "ag_log (snd (ensure_ledger n h ag)) = ag_log ag"
  by (auto simp: ensure_ledger_def split: option.splits)

lemma precheck_frame [agent_frame, simp]:
  "ag_run (snd (precheck n h ag)) = ag_run ag"
  "ag_limits (snd (precheck n h ag)) = ag_limits ag"
  "ag_policy (snd (precheck n h ag)) = ag_policy ag"
  "ag_writes (snd (precheck n h ag)) = ag_writes ag"
  "ag_log (snd (precheck n h ag)) = ag_log ag"
  using ensure_ledger_frame [of n h ag] unfolding precheck_def
  by (cases "ensure_ledger n h ag"; simp split: bool.split)+

lemma set_baseline_fields [simp]: "set (baseline_fields b) = b"
  by (auto simp: baseline_fields_def)

end
