(* ===== verification/Judgement.thy ===== *)
theory Judgement
  imports Agent_State
begin

text \<open>
  The atomic step of the agent path, \<open>evaluate_in\<close>, \<open>judge\<close>, \<open>reserve\<close> and \<open>settle\<close> of
  \<open>crates/application/src/service/agent/budget.rs\<close>: under the ledger lock it reads the ledger,
  evaluates, binds an allow to the state it read and reserves the change, so two requests that
  are each within a budget cannot together exceed it.
\<close>

record settlement =
  se_receiver :: receiver_id
  se_key :: "op_key option"

datatype judged =
    Refused decision
  | NoEpoch decision
  | JudgedAllowed decision precondition settlement

definition policy_input_of ::
  "books \<Rightarrow> wall_time \<Rightarrow> active_policy \<Rightarrow> string \<Rightarrow> receiver_id \<Rightarrow> receiver_intent \<Rightarrow> receiver_state
     \<Rightarrow> policy_input" where
  "policy_input_of bk now policy agent r intent st =
     \<lparr>pi_agent = agent, pi_receiver = r, pi_intent = intent, pi_state = st,
      pi_recent = ledger_recent (bk_ledger bk) r now (longest_window (ap_config policy)), pi_now = now\<rparr>"

definition evaluate_in ::
  "books \<Rightarrow> wall_time \<Rightarrow> active_policy \<Rightarrow> string \<Rightarrow> receiver_id \<Rightarrow> receiver_intent \<Rightarrow> receiver_state \<Rightarrow> decision" where
  "evaluate_in bk now policy agent r intent st =
     evaluate (policy_input_of bk now policy agent r intent st) (ap_config policy)"

definition evaluate_now ::
  "wall_time \<Rightarrow> active_policy \<Rightarrow> string \<Rightarrow> receiver_id \<Rightarrow> receiver_intent \<Rightarrow> receiver_state \<Rightarrow> agent_state \<Rightarrow> decision" where
  "evaluate_now now policy agent r intent st ag = evaluate_in (ag_books ag) now policy agent r intent st"

definition reserve ::
  "wall_time \<Rightarrow> receiver_id \<Rightarrow> receiver_intent \<Rightarrow> receiver_state \<Rightarrow> operation_id \<Rightarrow> agent_state
     \<Rightarrow> settlement \<times> agent_state" where
  "reserve now r intent st i ag =
     (let pruned = ledger_prune now (bk_ledger (ag_books ag)) in
      case intent of
        IVolume target \<Rightarrow>
          (let key = op_key_new (ag_run ag) i in
           (\<lparr>se_receiver = r, se_key = Some key\<rparr>,
            ag\<lparr>ag_books := (ag_books ag)\<lparr>bk_ledger := ledger_reserve r key
                 \<lparr>rc_at = now, rc_before = observed_volume st, rc_target = level_of target\<rparr> pruned\<rparr>\<rparr>))
      | _ \<Rightarrow> (\<lparr>se_receiver = r, se_key = None\<rparr>, ag\<lparr>ag_books := (ag_books ag)\<lparr>bk_ledger := pruned\<rparr>\<rparr>))"

definition judge ::
  "wall_time \<Rightarrow> active_policy \<Rightarrow> agent_label \<Rightarrow> receiver_id \<Rightarrow> receiver_intent \<Rightarrow> receiver_state \<Rightarrow> operation_id
     \<Rightarrow> agent_state \<Rightarrow> judged \<times> agent_state" where
  "judge now policy label r intent st i ag =
     (let d = evaluate_in (ag_books ag) now policy (agent_label_str label) r intent st in
      case d of
        Allow baseline \<Rightarrow>
          (case precondition_capture st (baseline_fields baseline) of
             None \<Rightarrow> (NoEpoch d, ag)
           | Some p \<Rightarrow>
               (case reserve now r intent st i ag of
                  (settlement, ag') \<Rightarrow> (JudgedAllowed d p settlement, ag')))
      | _ \<Rightarrow> (Refused d, ag))"

definition settle :: "settlement \<Rightarrow> bool \<Rightarrow> agent_state \<Rightarrow> agent_state" where
  "settle se dispatched ag =
     (case se_key se of
        None \<Rightarrow> ag
      | Some key \<Rightarrow>
          ag\<lparr>ag_books := (ag_books ag)\<lparr>bk_ledger :=
               ledger_settle (se_receiver se) key dispatched (bk_ledger (ag_books ag))\<rparr>\<rparr>)"

section \<open>Frames\<close>

lemma reserve_frame [agent_frame, simp]:
  "ag_run (snd (reserve n r it st i ag)) = ag_run ag"
  "ag_limits (snd (reserve n r it st i ag)) = ag_limits ag"
  "ag_policy (snd (reserve n r it st i ag)) = ag_policy ag"
  "ag_writes (snd (reserve n r it st i ag)) = ag_writes ag"
  "ag_log (snd (reserve n r it st i ag)) = ag_log ag"
  "ag_audit_ok (snd (reserve n r it st i ag)) = ag_audit_ok ag"
  by (simp_all add: reserve_def Let_def split: receiver_intent.splits)

lemma settle_frame [agent_frame, simp]:
  "ag_run (settle se d ag) = ag_run ag"
  "ag_limits (settle se d ag) = ag_limits ag"
  "ag_policy (settle se d ag) = ag_policy ag"
  "ag_writes (settle se d ag) = ag_writes ag"
  "ag_log (settle se d ag) = ag_log ag"
  "ag_audit_ok (settle se d ag) = ag_audit_ok ag"
  by (simp_all add: settle_def split: option.splits)

lemma judge_frame [agent_frame, simp]:
  "ag_run (snd (judge n p l r it st i ag)) = ag_run ag"
  "ag_limits (snd (judge n p l r it st i ag)) = ag_limits ag"
  "ag_policy (snd (judge n p l r it st i ag)) = ag_policy ag"
  "ag_writes (snd (judge n p l r it st i ag)) = ag_writes ag"
  "ag_log (snd (judge n p l r it st i ag)) = ag_log ag"
  "ag_audit_ok (snd (judge n p l r it st i ag)) = ag_audit_ok ag"
  using reserve_frame [of n r it st i ag] unfolding judge_def Let_def
  by (cases "evaluate_in (ag_books ag) n p (agent_label_str l) r it st"; cases "reserve n r it st i ag";
      simp split: option.split)+

section \<open>What an allow establishes\<close>

lemma judge_allowed:
  assumes "judge now policy label r intent st i ag = (JudgedAllowed d p se, ag')"
  shows "d = evaluate_in (ag_books ag) now policy (agent_label_str label) r intent st"
    "decision_effect d = EffectAllow"
    "\<exists>b. decision_baseline d = Some b \<and> precondition_capture st (baseline_fields b) = Some p"
    "reserve now r intent st i ag = (se, ag')"
  using assms unfolding judge_def Let_def
  by (cases "evaluate_in (ag_books ag) now policy (agent_label_str label) r intent st";
      auto split: option.splits prod.splits)+

lemma reserve_held:
  assumes "reserve now r (IVolume v) st i ag = (se, ag')"
  shows "se = \<lparr>se_receiver = r, se_key = Some (op_key_new (ag_run ag) i)\<rparr>"
    "bk_ledger (ag_books ag') = ledger_reserve r (op_key_new (ag_run ag) i)
       \<lparr>rc_at = now, rc_before = observed_volume st, rc_target = level_of v\<rparr>
       (ledger_prune now (bk_ledger (ag_books ag)))"
  using assms by (auto simp: reserve_def Let_def)

lemma reserve_key:
  "se_receiver (fst (reserve now r intent st i ag)) = r"
  "se_key (fst (reserve now r intent st i ag)) =
     (case intent of IVolume _ \<Rightarrow> Some (op_key_new (ag_run ag) i) | _ \<Rightarrow> None)"
  by (simp_all add: reserve_def Let_def split: receiver_intent.splits)

text \<open>
  The atomic step allows only what the policy allows: the decision it hands back is the
  evaluation of the request against the state and the ledger it read, the precondition captures
  from that state every field the decision rests on, and with the precondition still holding on
  a later state the policy would allow the same request again.
\<close>

theorem judged_allow_is_bound:
  assumes "judge now policy label r intent st i ag = (JudgedAllowed d p se, ag')"
  shows "decision_effect (evaluate_in (ag_books ag) now policy (agent_label_str label) r intent st) = EffectAllow
    \<and> rs_epoch st = Some (pc_epoch p)
    \<and> (\<forall>later. mismatch p later = None \<longrightarrow>
         evaluate_in (ag_books ag) now policy (agent_label_str label) r intent later = d)"
proof -
  note j = judge_allowed [OF assms]
  from j(3) obtain b where b: "decision_baseline d = Some b" "precondition_capture st (baseline_fields b) = Some p"
    by blast
  define inp where "inp = policy_input_of (ag_books ag) now policy (agent_label_str label) r intent st"
  have d: "d = evaluate inp (ap_config policy)" using j(1) by (simp add: evaluate_in_def inp_def)
  have "evaluate (inp\<lparr>pi_state := later\<rparr>) (ap_config policy) = d" if "mismatch p later = None" for later
    using precondition_stable [of inp "ap_config policy" b "baseline_fields b" p later] b d that
    by (simp add: inp_def policy_input_of_def)
  then have "evaluate_in (ag_books ag) now policy (agent_label_str label) r intent later = d"
    if "mismatch p later = None" for later
    using that by (simp add: evaluate_in_def inp_def policy_input_of_def)
  with j(1,2) b(2) show ?thesis by (auto simp: precondition_capture_Some)
qed

definition example_active :: active_policy where
  "example_active = \<lparr>ap_loaded = \<lparr>lp_config = example_policy, lp_digest = PolicyDigest [], lp_text = ''''\<rparr>,
     ap_loaded_at = WallTime 1\<rparr>"

definition example_agent :: agent_state where
  "example_agent = \<lparr>ag_limits = agent_limits_default, ag_run = WallTime 1, ag_policy = PolicyInForce example_active,
     ag_books = \<lparr>bk_ledger = ledger_new, bk_ready = True\<rparr>, ag_audit_ok = True, ag_refusals = (None, 0),
     ag_writes = [], ag_log = []\<rparr>"

lemma example_judged:
  "\<exists>d p. judge (WallTime 200000) example_active (AgentLabel ''claude'') (ReceiverId ''den'')
      (IVolume (DbHalfSteps (- 90))) (example_state (- 96)) 1 example_agent
    = (JudgedAllowed d p \<lparr>se_receiver = ReceiverId ''den'', se_key = Some (op_key_new (WallTime 1) 1)\<rparr>,
       example_agent\<lparr>ag_books := \<lparr>bk_ledger = ledger_reserve (ReceiverId ''den'') (op_key_new (WallTime 1) 1)
           \<lparr>rc_at = WallTime 200000, rc_before = Some (- 96), rc_target = - 90\<rparr>
           (ledger_prune (WallTime 200000) ledger_new), bk_ready = True\<rparr>\<rparr>)"
proof -
  let ?i = "policy_input_of (ag_books example_agent) (WallTime 200000) example_active ''claude'' (ReceiverId ''den'')
      (IVolume (DbHalfSteps (- 90))) (example_state (- 96))"
  have "evaluate ?i example_policy = Allow {FVolume}"
    by (simp add: evaluate_unfold matched_rules_def rules_read_def reads_volume_def policy_input_of_def
        ledger_recent_def entries_of_def ledger_new_def example_agent_def floor_in_window_def example_eval)
  moreover obtain p where "precondition_capture (example_state (- 96)) (baseline_fields {FVolume}) = Some p"
    by (simp add: precondition_capture_def)
  ultimately show ?thesis
    by (simp add: judge_def evaluate_in_def example_active_def Let_def reserve_def) (simp add: example_agent_def)
qed

theorem judged_allow_is_bound_witness:
  "decision_effect (evaluate_in (ag_books example_agent) (WallTime 200000) example_active ''claude''
      (ReceiverId ''den'') (IVolume (DbHalfSteps (- 90))) (example_state (- 96))) = EffectAllow"
proof -
  from example_judged obtain d p se ag' where "judge (WallTime 200000) example_active (AgentLabel ''claude'')
      (ReceiverId ''den'') (IVolume (DbHalfSteps (- 90))) (example_state (- 96)) 1 example_agent
    = (JudgedAllowed d p se, ag')" by blast
  from judged_allow_is_bound [OF this] show ?thesis by simp
qed

text \<open>
  C8. Two requests cannot together exceed a budget that either alone is within. When a volume
  change was allowed on a receiver and has not been settled as not dispatched, whatever else
  was reserved, settled and pruned since, a later volume change that is allowed inside the
  window of a budget is at most the rise of the budget above the level observed before the
  first change and above the level it asked for, unless it does not raise the volume at all.
\<close>

theorem judged_allows_share_budget:
  assumes "judge now1 pol1 l1 r (IVolume v1) st1 i1 ag = (JudgedAllowed d1 p1 se1, ag1)"
    and "bk_ledger (ag_books ag2) = fold ledger_step ops (bk_ledger (ag_books ag1))"
    and "list_all (keeps_change r (op_key_new (ag_run ag) i1) now2) ops"
    and "judge now2 pol2 l2 r (IVolume v2) st2 i2 ag2 = (JudgedAllowed d2 p2 se2, ag3)"
    and "rule \<in> set (pol_rules (ap_config pol2))" "pure_budget_rule rule b"
    and "rule_covers (policy_input_of (ag_books ag2) now2 pol2 (agent_label_str l2) r (IVolume v2) st2) rule"
    and "longest_window (ap_config pol2) \<le> RETENTION"
    and "wt_saturating_sub now2 (budget_window b) < now1"
  shows "\<exists>ob2. observed_volume st2 = Some ob2 \<and>
      (level_of v2 \<le> ob2 \<or>
       level_of v2 \<le> level_of v1 + int (bg_rise b) \<and>
       (\<forall>ob1. observed_volume st1 = Some ob1 \<longrightarrow> level_of v2 \<le> ob1 + int (bg_rise b)))"
proof -
  let ?inp = "policy_input_of (ag_books ag2) now2 pol2 (agent_label_str l2) r (IVolume v2) st2"
  let ?k = "op_key_new (ag_run ag) i1"
  define c where "c = \<lparr>rc_at = now1, rc_before = observed_volume st1, rc_target = level_of v1\<rparr>"
  have "bk_ledger (ag_books ag1) = ledger_reserve r ?k c (ledger_prune now1 (bk_ledger (ag_books ag)))"
    using reserve_held(2) [OF judge_allowed(4) [OF assms(1)]] by (simp add: c_def)
  then have held: "(?k, c) \<in> held (bk_ledger (ag_books ag1)) r" by (simp add: held_reserve)
  have "budget_window b \<le> longest_window (ap_config pol2)"
    using budget_window_le_longest [OF assms(5)] assms(6) by (simp add: pure_budget_rule_def)
  then have "wt_saturating_sub now2 (longest_window (ap_config pol2)) < rc_at c"
    using le_less_trans [OF wt_saturating_sub_antimono assms(9)] by (simp add: c_def)
  moreover have "list_all (lh.harmless r ?k c now2) ops"
    using assms(3) keeps_change_eq [of r ?k now2 _ c] by (simp add: list_all_iff)
  ultimately have recent: "c \<in> set (pi_recent ?inp)"
    using lh.history_keeps held assms(2,8) by (simp add: policy_input_of_def ledger_step_eq)
  have allow: "decision_effect (evaluate ?inp (ap_config pol2)) = EffectAllow"
    using judge_allowed(1,2) [OF assms(4)] by (simp add: evaluate_in_def)
  from allowed_volume_bound [OF allow _ assms(5-7)] recent assms(9)
  show ?thesis by (fastforce simp: policy_input_of_def change_levels_def c_def)
qed

theorem judged_allows_share_budget_witness:
  "\<exists>d2 p2 se2 ag3 ag2.
     bk_ledger (ag_books ag2) = ledger_reserve (ReceiverId ''den'') (op_key_new (WallTime 1) 1)
         \<lparr>rc_at = WallTime 200000, rc_before = Some (- 96), rc_target = - 90\<rparr>
         (ledger_prune (WallTime 200000) ledger_new)
     \<and> judge (WallTime 201000) example_active (AgentLabel ''claude'') (ReceiverId ''den'')
         (IVolume (DbHalfSteps (- 88))) (example_state (- 92)) 2 ag2 = (JudgedAllowed d2 p2 se2, ag3)
     \<and> (- 88 :: int) \<le> - 96 + 12"
proof -
  define l1 where "l1 = ledger_reserve (ReceiverId ''den'') (op_key_new (WallTime 1) 1)
      \<lparr>rc_at = WallTime 200000, rc_before = Some (- 96), rc_target = - 90\<rparr> (ledger_prune (WallTime 200000) ledger_new)"
  define ag2 where "ag2 = example_agent\<lparr>ag_books := \<lparr>bk_ledger = l1, bk_ready = True\<rparr>\<rparr>"
  let ?i = "policy_input_of (ag_books ag2) (WallTime 201000) example_active ''claude'' (ReceiverId ''den'')
      (IVolume (DbHalfSteps (- 88))) (example_state (- 92))"
  have win: "longest_window example_policy = from_secs 600"
    by (simp add: longest_window_def budgets_def example_policy_def example_rules_def rule_new_def
        conditions_default_def List.map_filter_def budget_window_def)
  have since: "wt_saturating_sub (WallTime 201000) (from_secs 600) < WallTime 200000"
    by (simp add: wall_time_less_unat unat_wt_saturating_sub)
  have "entries_of l1 (ReceiverId ''den'') =
      [(op_key_new (WallTime 1) 1, \<lparr>rc_at = WallTime 200000, rc_before = Some (- 96), rc_target = - 90\<rparr>)]"
    by (simp add: l1_def entries_of_def ledger_reserve_def ledger_prune_def ledger_new_def)
  then have rec: "ledger_recent l1 (ReceiverId ''den'') (WallTime 201000) (from_secs 600)
      = [\<lparr>rc_at = WallTime 200000, rc_before = Some (- 96), rc_target = - 90\<rparr>]"
    using since by (simp add: ledger_recent_def)
  have ev: "evaluate ?i example_policy = Allow {FVolume}"
    using rec win since
    by (simp add: evaluate_unfold matched_rules_def rules_read_def reads_volume_def policy_input_of_def
        ag2_def example_active_def floor_in_window_def budget_window_def example_eval)
  obtain p2 where "precondition_capture (example_state (- 92)) (baseline_fields {FVolume}) = Some p2"
    by (simp add: precondition_capture_def)
  with ev obtain se2 ag3 where j2: "judge (WallTime 201000) example_active (AgentLabel ''claude'') (ReceiverId ''den'')
      (IVolume (DbHalfSteps (- 88))) (example_state (- 92)) 2 ag2 = (JudgedAllowed (Allow {FVolume}) p2 se2, ag3)"
    by (cases "reserve (WallTime 201000) (ReceiverId ''den'') (IVolume (DbHalfSteps (- 88))) (example_state (- 92)) 2 ag2")
       (simp add: judge_def evaluate_in_def example_active_def)
  from example_judged obtain d1 p1 where j1: "judge (WallTime 200000) example_active (AgentLabel ''claude'')
      (ReceiverId ''den'') (IVolume (DbHalfSteps (- 90))) (example_state (- 96)) 1 example_agent
    = (JudgedAllowed d1 p1 \<lparr>se_receiver = ReceiverId ''den'', se_key = Some (op_key_new (WallTime 1) 1)\<rparr>,
       example_agent\<lparr>ag_books := \<lparr>bk_ledger = l1, bk_ready = True\<rparr>\<rparr>)"
    unfolding l1_def by blast
  have rule: "example_rules ! 1 \<in> set (pol_rules (ap_config example_active))"
    "pure_budget_rule (example_rules ! 1) \<lparr>bg_rise = 12, bg_window_minutes = 10\<rparr>"
    by (simp_all add: pure_budget_rule_def example_active_def example_eval)
  have cov: "rule_covers (policy_input_of (ag_books ag2) (WallTime 201000) example_active
      (agent_label_str (AgentLabel ''claude'')) (ReceiverId ''den'') (IVolume (DbHalfSteps (- 88)))
      (example_state (- 92))) (example_rules ! 1)"
    by (simp add: policy_input_of_def example_eval)
  have "longest_window (ap_config example_active) \<le> RETENTION"
    "wt_saturating_sub (WallTime 201000) (budget_window \<lparr>bg_rise = 12, bg_window_minutes = 10\<rparr>) < WallTime 200000"
    using win since by (simp_all add: example_active_def budget_window_def RETENTION_def from_secs_def)
  from judged_allows_share_budget [OF j1 _ _ j2 rule cov this, of "[]"] j2
  show ?thesis by (intro exI [of _ "Allow {FVolume}"] exI [of _ p2] exI [of _ se2] exI [of _ ag3] exI [of _ ag2])
      (simp add: ag2_def l1_def)
qed

end
