(* ===== verification/Service.thy ===== *)
theory Service
  imports Judgement Gate_Lifecycle
begin

text \<open>
  The control service, \<open>crates/application/src/service.rs\<close> and \<open>service/ports.rs\<close>, with the
  decision procedure of \<open>service/agent/decision.rs\<close>. \<open>run_operation\<close> is one task per operation;
  it may be interrupted wherever it takes a lock or awaits, so it is a machine whose steps are
  the stretches in between, and the service is the interleaving of its tasks with
  submissions, cancels, reloads and the closing. What the clock, the audit log, the policy
  source, the connection and the session answer is an argument of the step that asks.
  \<open>sv_calls\<close>, \<open>sv_outcomes\<close> and \<open>sv_clock\<close> are history variables: the calls of \<open>operate\<close>, what they
  answered, and the latest time the ledger was asked about.
\<close>

section \<open>Texts agents are told\<close>

definition AUDIT_UNAVAILABLE :: string where "AUDIT_UNAVAILABLE = ''audit log unavailable''"
definition NO_EPOCH :: string where "NO_EPOCH = ''the receiver's state is not established''"
definition RECEIVER_UNREACHABLE :: string where "RECEIVER_UNREACHABLE = ''the receiver could not be reached''"

fun fixed_reason :: "operation_outcome \<Rightarrow> string option" where
  "fixed_reason (RejectedBeforeDispatch _ cause _) = Some (case cause of
       UnsupportedIntent \<Rightarrow> ''the receiver does not support this change''
     | ObservationFailed \<Rightarrow> ''the receiver's state could not be read''
     | PreconditionMismatch _ \<Rightarrow> ''the receiver changed since the request was judged''
     | CommandRefused \<Rightarrow> ''the receiver refused the command''
     | SessionStoppedCause \<Rightarrow> ''the receiver connection closed'')"
| "fixed_reason (Indeterminate _ _ _) = Some ''the outcome could not be established''"
| "fixed_reason _ = None"

definition refusal :: "string \<Rightarrow> resolution" where "refusal why = not_dispatched Rejected why"

definition cancelled :: resolution where
  "cancelled = \<lparr>rn_status = Cancelled, rn_dispatch = NotDispatched, rn_confirmed = False, rn_reason = None,
     rn_observation = None\<rparr>"

section \<open>Dry runs\<close>

datatype dry_run_decision =
    DryAllow
  | DryRequireApproval "string list" "string list"
  | DryDeny "string list" "string list"
  | DryUnavailable string

record dry_run =
  dr_decision :: dry_run_decision
  dr_policy :: "policy_digest option"

text \<open>\<open>latest\<close> is the state of the leased session, or the error of the lease.\<close>

definition dry_run_of ::
  "wall_time \<Rightarrow> audit_record list option \<Rightarrow> (receiver_state, control_error) result \<Rightarrow> wall_time \<Rightarrow> string
     \<Rightarrow> receiver_id \<Rightarrow> receiver_intent \<Rightarrow> bool \<Rightarrow> agent_state \<Rightarrow> (dry_run, control_error) result \<times> agent_state" where
  "dry_run_of now history latest judged_at label r intent show_rules ag =
     (let unavailable = (\<lambda>ag reason. Ok \<lparr>dr_decision = DryUnavailable reason, dr_policy = policy_digest_of ag\<rparr>) in
      case precheck now history ag of
        (Err reason, ag1) \<Rightarrow> (unavailable ag1 reason, ag1)
      | (Ok _, ag1) \<Rightarrow>
          (case latest of
             Err e \<Rightarrow> (Err e, ag1)
           | Ok st \<Rightarrow>
               (case active_policy_of ag1 of
                  None \<Rightarrow> (unavailable ag1 POLICY_UNAVAILABLE, ag1)
                | Some policy \<Rightarrow>
                    (let d = evaluate_now judged_at policy label r intent st ag1;
                         rules = (if show_rules then decision_rules d else [])
                     in (Ok \<lparr>dr_decision = (case decision_effect d of
                               EffectAllow \<Rightarrow> DryAllow
                             | EffectRequireApproval \<Rightarrow> DryRequireApproval (reasons_of d) rules
                             | EffectDeny \<Rightarrow> DryDeny (reasons_of d) rules),
                             dr_policy = Some (lp_digest (ap_loaded policy))\<rparr>, ag1)))))"

section \<open>The points of a task\<close>

datatype point =
    AtStart
  | AtRefuse resolution
  | AtRecordRefused resolution
  | AtLease
  | AtDecide
  | AtJudge active_policy receiver_state
  | AtRefusedRecord decision policy_digest resolution
  | AtMove decision policy_digest precondition settlement receiver_state
  | AtDecidedRecord decision policy_digest precondition settlement receiver_state
  | AtCheckAllowed precondition settlement receiver_state
  | AtDispatchRecord precondition settlement receiver_state
  | AtOperatorWrite
  | AtOperatorDecided settlement receiver_state
  | AtOperatorDispatch settlement receiver_state
  | AtBegin "precondition option" "settlement option"
  | AtWithdrawn "settlement option"
  | AtOperate "settlement option"
  | AtSettle settlement resolution "string option"
  | AtFinish resolution "string option"
  | AtEndedAs resolution
  | AtRecordFinished resolution
  | AtFinishPlain resolution
  | AtEnd
  | Ended

record op_task =
  tk_receiver :: receiver_id
  tk_intent :: receiver_intent
  tk_owner :: principal
  tk_at :: point

record answer =
  an_now :: wall_time
  an_tick :: instant
  an_answered :: bool
  an_history :: "audit_record list option"
  an_lease :: "(unit, control_error) result"
  an_state :: receiver_state
  an_outcome :: operation_outcome

type_synonym call = "operation_id \<times> receiver_id \<times> receiver_intent \<times> precondition option"

record service =
  sv_ops :: operations
  sv_agent :: "agent_state option"
  sv_tasks :: "operation_id \<rightharpoonup> op_task"
  sv_in_flight :: nat
  sv_calls :: "call list"
  sv_outcomes :: "(operation_id \<times> operation_outcome) list"
  sv_clock :: wall_time

section \<open>Deciding an agent's request\<close>

text \<open>
  \<open>decide\<close>, cut at its locks and awaits. \<open>judge_step\<close> is the atomic step and what the gate does
  with its three results; each of the others is one record or one look at the table.
\<close>

definition judge_step ::
  "answer \<Rightarrow> operation_id \<Rightarrow> agent_label \<Rightarrow> op_task \<Rightarrow> active_policy \<Rightarrow> receiver_state \<Rightarrow> agent_state
     \<Rightarrow> point \<times> agent_state" where
  "judge_step an i label tk policy st ag =
     (let digest = lp_digest (ap_loaded policy) in
      case judge (an_now an) policy label (tk_receiver tk) (tk_intent tk) st i ag of
        (Refused d, ag') \<Rightarrow>
          (AtRefusedRecord d digest (not_dispatched
             (case decision_effect d of EffectDeny \<Rightarrow> Denied | _ \<Rightarrow> ApprovalUnavailable) (reason_text d)), ag')
      | (NoEpoch d, ag') \<Rightarrow> (AtRefusedRecord d digest (refusal NO_EPOCH), ag')
      | (JudgedAllowed d p se, ag') \<Rightarrow> (AtMove d digest p se st, ag'))"

definition decided_record :: "answer \<Rightarrow> operation_id \<Rightarrow> op_task \<Rightarrow> decision \<Rightarrow> policy_digest \<Rightarrow> agent_state \<Rightarrow> audit_record" where
  "decided_record an i tk d digest ag =
     record_as ag (an_now an) (Some i) (Some (tk_owner tk)) (Some (tk_receiver tk)) (decided (tk_intent tk) d digest)"

definition dispatching_record ::
  "answer \<Rightarrow> operation_id \<Rightarrow> op_task \<Rightarrow> receiver_state \<Rightarrow> core_field list \<Rightarrow> agent_state \<Rightarrow> audit_record" where
  "dispatching_record an i tk st bound ag =
     record_as ag (an_now an) (Some i) (Some (tk_owner tk)) (Some (tk_receiver tk))
       (dispatching (tk_intent tk) st bound)"

definition append_decided ::
  "answer \<Rightarrow> operation_id \<Rightarrow> op_task \<Rightarrow> decision \<Rightarrow> policy_digest \<Rightarrow> precondition \<Rightarrow> settlement \<Rightarrow> receiver_state
     \<Rightarrow> agent_state \<Rightarrow> point \<times> agent_state" where
  "append_decided an i tk d digest p se st ag =
     (case append_within (an_answered an) (decided_record an i tk d digest ag) Flushed ag of
        (True, ag') \<Rightarrow> (AtCheckAllowed p se st, ag')
      | (False, ag') \<Rightarrow> (AtFinish (refusal AUDIT_UNAVAILABLE) None, settle se False ag'))"

definition append_dispatching ::
  "answer \<Rightarrow> operation_id \<Rightarrow> op_task \<Rightarrow> precondition \<Rightarrow> settlement \<Rightarrow> receiver_state \<Rightarrow> agent_state
     \<Rightarrow> point \<times> agent_state" where
  "append_dispatching an i tk p se st ag =
     (case append_within (an_answered an) (dispatching_record an i tk st (precondition_fields p) ag) Synced ag of
        (True, ag') \<Rightarrow> (AtBegin (Some p) (Some se), ag')
      | (False, ag') \<Rightarrow> (AtFinish (refusal AUDIT_UNAVAILABLE) None, settle se False ag'))"

text \<open>\<open>begin_operator_write\<close>: counted and recorded, never limited.\<close>

definition operator_write :: "answer \<Rightarrow> operation_id \<Rightarrow> op_task \<Rightarrow> agent_state \<Rightarrow> point \<times> agent_state" where
  "operator_write an i tk ag =
     (case reserve (an_now an) (tk_receiver tk) (tk_intent tk) (an_state an) i ag of
        (se, ag') \<Rightarrow> (if ag_audit_ok ag' then AtOperatorDecided se (an_state an) else AtBegin None (Some se), ag'))"

definition operator_decided_record :: "answer \<Rightarrow> operation_id \<Rightarrow> op_task \<Rightarrow> agent_state \<Rightarrow> audit_record" where
  "operator_decided_record an i tk ag =
     record_as ag (an_now an) (Some i) (Some Operator) (Some (tk_receiver tk))
       (Decided (intent_text (tk_intent tk)) AuditAllow [] [] [] None)"

definition operator_decided ::
  "answer \<Rightarrow> operation_id \<Rightarrow> op_task \<Rightarrow> settlement \<Rightarrow> receiver_state \<Rightarrow> agent_state \<Rightarrow> point \<times> agent_state" where
  "operator_decided an i tk se st ag =
     (case append_within (an_answered an) (operator_decided_record an i tk ag) Flushed ag of
        (True, ag') \<Rightarrow> (AtOperatorDispatch se st, ag')
      | (False, ag') \<Rightarrow> (AtBegin None (Some se), ag'))"

section \<open>One step of a task\<close>

text \<open>A step that needs the agent path; without one it does nothing.\<close>

definition with_agent :: "(agent_state \<Rightarrow> point \<times> agent_state) \<Rightarrow> service \<Rightarrow> point \<times> service" where
  "with_agent f sv =
     (case sv_agent sv of
        None \<Rightarrow> (AtEnd, sv)
      | Some ag \<Rightarrow> (case f ag of (pt, ag') \<Rightarrow> (pt, sv\<lparr>sv_agent := Some ag'\<rparr>)))"

definition is_agent :: "principal \<Rightarrow> service \<Rightarrow> bool" where
  "is_agent owner sv = ((case owner of Agent _ \<Rightarrow> True | Operator \<Rightarrow> False) \<and> sv_agent sv \<noteq> None)"

definition label_of :: "principal \<Rightarrow> agent_label" where
  "label_of owner = (case owner of Agent l \<Rightarrow> l | Operator \<Rightarrow> AgentLabel '''')"

definition start_step :: "answer \<Rightarrow> op_task \<Rightarrow> service \<Rightarrow> point \<times> service" where
  "start_step an tk sv =
     (if is_agent (tk_owner tk) sv
      then with_agent (\<lambda>ag. case precheck (an_now an) (an_history an) ag of
             (Err reason, ag') \<Rightarrow> (AtRefuse (refusal reason), ag')
           | (Ok _, ag') \<Rightarrow> (AtLease, ag')) sv
      else (AtLease, sv))"

definition lease_step :: "answer \<Rightarrow> op_task \<Rightarrow> service \<Rightarrow> point \<times> service" where
  "lease_step an tk sv =
     (case an_lease an of
        Err e \<Rightarrow>
          ((if is_agent (tk_owner tk) sv then AtFinish (refusal RECEIVER_UNREACHABLE) None
            else AtFinishPlain (not_dispatched Rejected (control_error_fmt e))), sv)
      | Ok _ \<Rightarrow>
          ((if is_agent (tk_owner tk) sv then AtDecide
            else if sv_agent sv \<noteq> None then AtOperatorWrite
            else AtBegin None None), sv))"

definition begin_step :: "operation_id \<Rightarrow> op_task \<Rightarrow> precondition option \<Rightarrow> settlement option \<Rightarrow> service \<Rightarrow> point \<times> service" where
  "begin_step i tk pre se sv =
     (case begin_session i (sv_ops sv) of
        (False, ops') \<Rightarrow> (AtWithdrawn se, sv\<lparr>sv_ops := ops'\<rparr>)
      | (True, ops') \<Rightarrow>
          (AtOperate se, sv\<lparr>sv_ops := ops', sv_calls := sv_calls sv @ [(i, tk_receiver tk, tk_intent tk, pre)]\<rparr>))"

definition operate_step :: "answer \<Rightarrow> operation_id \<Rightarrow> op_task \<Rightarrow> settlement option \<Rightarrow> service \<Rightarrow> point \<times> service" where
  "operate_step an i tk se sv =
     (let shown = (case tk_owner tk of Agent _ \<Rightarrow> fixed_reason (an_outcome an) | Operator \<Rightarrow> None);
          rn = resolve (an_outcome an)
      in ((case (sv_agent sv, se) of
             (Some _, Some settlement) \<Rightarrow> AtSettle settlement rn shown
           | _ \<Rightarrow> AtFinishPlain rn),
          sv\<lparr>sv_outcomes := sv_outcomes sv @ [(i, an_outcome an)]\<rparr>))"

definition show_as :: "string option \<Rightarrow> resolution \<Rightarrow> resolution" where
  "show_as shown rn = (case shown of Some t \<Rightarrow> rn\<lparr>rn_reason := Some t\<rparr> | None \<Rightarrow> rn)"

fun task_step :: "answer \<Rightarrow> operation_id \<Rightarrow> op_task \<Rightarrow> point \<Rightarrow> service \<Rightarrow> point \<times> service" where
  "task_step an i tk AtStart sv = start_step an tk sv"
| "task_step an i tk (AtRefuse rn) sv = (AtRecordRefused rn, sv\<lparr>sv_ops := snd (finish i rn (sv_ops sv))\<rparr>)"
| "task_step an i tk (AtRecordRefused rn) sv =
     with_agent (\<lambda>ag. (AtEnd, record_refused (an_tick an) (an_now an) (an_answered an) i (tk_owner tk) (tk_receiver tk) rn ag)) sv"
| "task_step an i tk AtLease sv = lease_step an tk sv"
| "task_step an i tk AtDecide sv =
     with_agent (\<lambda>ag. case active_policy_of ag of
         None \<Rightarrow> (AtFinish (refusal POLICY_UNAVAILABLE) None, ag)
       | Some policy \<Rightarrow> (AtJudge policy (an_state an), ag)) sv"
| "task_step an i tk (AtJudge policy st) sv = with_agent (judge_step an i (label_of (tk_owner tk)) tk policy st) sv"
| "task_step an i tk (AtRefusedRecord d digest rn) sv =
     with_agent (\<lambda>ag. (AtFinish rn None,
        snd (append_within (an_answered an) (decided_record an i tk d digest ag) Flushed ag))) sv"
| "task_step an i tk (AtMove d digest p se st) sv =
     (case transition change_allow i (sv_ops sv) of
        (None, ops') \<Rightarrow> with_agent (\<lambda>ag. (AtFinish cancelled None, settle se False ag)) (sv\<lparr>sv_ops := ops'\<rparr>)
      | (Some _, ops') \<Rightarrow> (AtDecidedRecord d digest p se st, sv\<lparr>sv_ops := ops'\<rparr>))"
| "task_step an i tk (AtDecidedRecord d digest p se st) sv = with_agent (append_decided an i tk d digest p se st) sv"
| "task_step an i tk (AtCheckAllowed p se st) sv =
     (if status_of i (sv_ops sv) \<noteq> Some Allowed
      then with_agent (\<lambda>ag. (AtFinish cancelled None, settle se False ag)) sv
      else (AtDispatchRecord p se st, sv))"
| "task_step an i tk (AtDispatchRecord p se st) sv = with_agent (append_dispatching an i tk p se st) sv"
| "task_step an i tk AtOperatorWrite sv = with_agent (operator_write an i tk) sv"
| "task_step an i tk (AtOperatorDecided se st) sv = with_agent (operator_decided an i tk se st) sv"
| "task_step an i tk (AtOperatorDispatch se st) sv =
     with_agent (\<lambda>ag. (AtBegin None (Some se),
        snd (append_within (an_answered an) (dispatching_record an i tk st [] ag) Synced ag))) sv"
| "task_step an i tk (AtBegin pre se) sv = begin_step i tk pre se sv"
| "task_step an i tk (AtWithdrawn se) sv =
     (case se of
        None \<Rightarrow> (AtEnd, sv)
      | Some settlement \<Rightarrow> with_agent (\<lambda>ag. (AtRecordFinished cancelled, settle settlement False ag)) sv)"
| "task_step an i tk (AtOperate se) sv = operate_step an i tk se sv"
| "task_step an i tk (AtSettle se rn shown) sv =
     with_agent (\<lambda>ag. (AtFinish rn shown, settle se (rn_dispatch rn \<noteq> NotDispatched) ag)) sv"
| "task_step an i tk (AtFinish rn shown) sv =
     (case finish i (show_as shown rn) (sv_ops sv) of
        (True, ops') \<Rightarrow> (AtRecordFinished rn, sv\<lparr>sv_ops := ops'\<rparr>)
      | (False, ops') \<Rightarrow> (AtEndedAs rn, sv\<lparr>sv_ops := ops'\<rparr>))"
| "task_step an i tk (AtEndedAs rn) sv =
     (AtRecordFinished (case ended_as i (sv_ops sv) of Some recorded \<Rightarrow> recorded | None \<Rightarrow> rn), sv)"
| "task_step an i tk (AtRecordFinished rn) sv =
     with_agent (\<lambda>ag. (AtEnd, record_finished (an_now an) (an_answered an) i (tk_owner tk) (tk_receiver tk) rn ag)) sv"
| "task_step an i tk (AtFinishPlain rn) sv = (AtEnd, sv\<lparr>sv_ops := snd (finish i rn (sv_ops sv))\<rparr>)"
| "task_step an i tk AtEnd sv =
     (Ended, sv\<lparr>sv_ops := drop_task i (sv_ops sv), sv_in_flight := sv_in_flight sv - 1\<rparr>)"
| "task_step an i tk Ended sv = (Ended, sv)"

definition run_task :: "answer \<Rightarrow> operation_id \<Rightarrow> service \<Rightarrow> service" where
  "run_task an i sv =
     (case sv_tasks sv i of
        None \<Rightarrow> sv
      | Some tk \<Rightarrow>
          (case task_step an i tk (tk_at tk) (sv\<lparr>sv_clock := max (sv_clock sv) (an_now an)\<rparr>) of
             (pt, sv') \<Rightarrow> sv'\<lparr>sv_tasks := (sv_tasks sv')(i \<mapsto> tk\<lparr>tk_at := pt\<rparr>)\<rparr>))"

section \<open>Calls of the service\<close>

text \<open>\<open>submit\<close>, once the receiver is known to exist: an admitted operation gets its task.\<close>

definition submit ::
  "nat \<Rightarrow> instant \<Rightarrow> principal \<Rightarrow> receiver_id \<Rightarrow> operation_submission \<Rightarrow> service \<Rightarrow> admit_result \<times> service" where
  "submit retained tick owner r sub sv =
     (let caps = map_option (\<lambda>ag. (ag_limits ag, tick, ag_writes ag)) (sv_agent sv) in
      case admit retained caps owner r sub (sv_ops sv) of
        (res, ops', caps') \<Rightarrow>
          (let agent' = (case (sv_agent sv, caps') of
                           (Some ag, Some (_, _, writes')) \<Rightarrow> Some (ag\<lparr>ag_writes := writes'\<rparr>)
                         | (agent, _) \<Rightarrow> agent);
               sv1 = sv\<lparr>sv_ops := ops', sv_agent := agent'\<rparr>
           in (res, (case res of
                 Admit (Ok (New sn)) \<Rightarrow>
                   sv1\<lparr>sv_in_flight := sv_in_flight sv + 1,
                       sv_tasks := (sv_tasks sv)(sn_id sn \<mapsto>
                         \<lparr>tk_receiver = sn_receiver sn, tk_intent = sn_intent sn, tk_owner = owner, tk_at = AtStart\<rparr>)\<rparr>
               | _ \<Rightarrow> sv1))))"

definition service_cancel ::
  "principal \<Rightarrow> operation_id \<Rightarrow> service \<Rightarrow> (operation_snapshot, control_error) result \<times> service" where
  "service_cancel viewer i sv =
     (case cancel id viewer i (sv_ops sv) of (res, ops') \<Rightarrow> (res, sv\<lparr>sv_ops := ops'\<rparr>))"

definition reload_policy ::
  "wall_time \<Rightarrow> (loaded_policy, policy_load_error) result \<Rightarrow> wall_time \<Rightarrow> bool \<Rightarrow> service \<Rightarrow> service" where
  "reload_policy now read recorded_at answered sv =
     (case sv_agent sv of
        None \<Rightarrow> sv
      | Some ag \<Rightarrow> sv\<lparr>sv_agent := Some (snd (load_policy now read recorded_at answered ag))\<rparr>)"

definition charge_dry_run :: "instant \<Rightarrow> agent_label \<Rightarrow> service \<Rightarrow> (unit, control_error) result \<times> service" where
  "charge_dry_run tick label sv =
     (case sv_agent sv of
        None \<Rightarrow> (Err Forbidden, sv)
      | Some ag \<Rightarrow>
          (case charge_write (ag_limits ag) tick label (ag_writes ag) of
             (res, writes') \<Rightarrow> (res, sv\<lparr>sv_agent := Some (ag\<lparr>ag_writes := writes'\<rparr>)\<rparr>)))"

definition close_service :: "service \<Rightarrow> service" where
  "close_service sv = sv\<lparr>sv_ops := (sv_ops sv)\<lparr>ops_closed := True\<rparr>\<rparr>"

text \<open>A task that panics is dropped where it is.\<close>

definition panic_task :: "operation_id \<Rightarrow> service \<Rightarrow> service" where
  "panic_task i sv =
     (case sv_tasks sv i of
        None \<Rightarrow> sv
      | Some tk \<Rightarrow> if tk_at tk = Ended then sv else sv\<lparr>sv_tasks := (sv_tasks sv)(i \<mapsto> tk\<lparr>tk_at := AtEnd\<rparr>)\<rparr>)"

definition service_new :: "agent_state option \<Rightarrow> service" where
  "service_new agent =
     \<lparr>sv_ops = operations_default, sv_agent = agent, sv_tasks = Map.empty, sv_in_flight = 0, sv_calls = [],
      sv_outcomes = [], sv_clock = WallTime 0\<rparr>"

inductive sv_step :: "service \<Rightarrow> service \<Rightarrow> bool" where
  sv_submit: "ops_next_id (sv_ops sv) \<noteq> - 1 \<Longrightarrow> sv_step sv (snd (submit retained tick owner r sub sv))"
| sv_run: "sv_step sv (run_task an i sv)"
| sv_cancel: "sv_step sv (snd (service_cancel viewer i sv))"
| sv_reload: "sv_step sv (reload_policy now read recorded_at answered sv)"
| sv_dry_run: "sv_step sv (snd (charge_dry_run tick label sv))"
| sv_close: "sv_step sv (close_service sv)"
| sv_panic: "sv_step sv (panic_task i sv)"

inductive_cases sv_stepE: "sv_step sv sv'"

abbreviation sv_steps :: "service \<Rightarrow> service \<Rightarrow> bool" where
  "sv_steps \<equiv> sv_step\<^sup>*\<^sup>*"

end
