(* ===== verification/Service_Safety.thy ===== *)
theory Service_Safety
  imports Service
begin

text \<open>
  What the service promises over every interleaving: an agent's write reaches the session only
  with an allow of a policy that was in force, the precondition that allow rests on and a
  durable record made first; no operation is written twice; and a volume write stays counted
  until the session says it was not dispatched.
\<close>

section \<open>What no step takes back\<close>

text \<open>
  \<open>ag_le J clock\<close>: the log only grows, a ready ledger stays ready, and it keeps the changes of
  the operations in \<open>J\<close> until they are older than the retention at \<open>clock\<close>.
\<close>

definition ag_le :: "operation_id set \<Rightarrow> wall_time \<Rightarrow> agent_state \<Rightarrow> agent_state \<Rightarrow> bool" where
  "ag_le J clock ag ag' \<longleftrightarrow>
     ag_run ag' = ag_run ag \<and> set (ag_log ag) \<subseteq> set (ag_log ag')
     \<and> (bk_ready (ag_books ag) \<longrightarrow>
          bk_ready (ag_books ag') \<and>
          (\<forall>j \<in> J. \<forall>r c. (op_key_new (ag_run ag) j, c) \<in> held (bk_ledger (ag_books ag)) r \<longrightarrow>
             (op_key_new (ag_run ag) j, c) \<in> held (bk_ledger (ag_books ag')) r
             \<or> rc_at c < wt_saturating_sub clock RETENTION))"

lemma ag_le_refl [simp]: "ag_le J clock ag ag"
  by (simp add: ag_le_def)

lemma ag_le_trans: "ag_le J clock ag ag1 \<Longrightarrow> ag_le J clock ag1 ag2 \<Longrightarrow> ag_le J clock ag ag2"
  unfolding ag_le_def by (metis subset_trans)

lemma ag_le_same_books:
  "ag_run ag' = ag_run ag \<Longrightarrow> set (ag_log ag) \<subseteq> set (ag_log ag') \<Longrightarrow> ag_books ag' = ag_books ag \<Longrightarrow> ag_le J clock ag ag'"
  by (simp add: ag_le_def)

lemma ag_le_append [simp]: "ag_le J clock ag (snd (append_within a rec d ag))"
  by (rule ag_le_same_books) auto

lemma ag_le_finished [simp]: "ag_le J clock ag (record_finished n a i ow r rn ag)"
  by (rule ag_le_same_books) simp_all

lemma ag_le_refused [simp]: "ag_le J clock ag (record_refused t n a i ow r rn ag)"
  by (rule ag_le_same_books) simp_all

lemma ag_le_load [simp]: "ag_le J clock ag (snd (load_policy n rd n2 a ag))"
  by (rule ag_le_same_books) simp_all

lemma ag_le_writes [simp]: "ag_le J clock ag (ag\<lparr>ag_writes := w\<rparr>)"
  by (rule ag_le_same_books) simp_all

lemma precheck_ready: "bk_ready (ag_books ag) \<Longrightarrow> ag_books (snd (precheck n h ag)) = ag_books ag"
  by (simp add: precheck_def ensure_ledger_def)

lemma ag_le_precheck [simp]: "ag_le J clock ag (snd (precheck n h ag))"
  by (simp add: ag_le_def precheck_ready)

lemma precheck_Ok_ready: "precheck n h ag = (Ok u, ag') \<Longrightarrow> bk_ready (ag_books ag')"
  by (auto simp: precheck_def ensure_ledger_def split: if_splits option.splits)

lemma ag_le_reserve [simp]: "n \<le> clock \<Longrightarrow> ag_le J clock ag (snd (reserve n r it st i ag))"
proof -
  assume le: "n \<le> clock"
  have cut: "rc_at c < wt_saturating_sub clock RETENTION" if "\<not> wt_saturating_sub n RETENTION \<le> rc_at c" for c
    using that wt_saturating_sub_mono [OF le] by (metis not_le order_less_le_trans)
  have "bk_ready (ag_books (snd (reserve n r it st i ag))) = bk_ready (ag_books ag)"
    by (simp add: reserve_def Let_def split: receiver_intent.splits)
  moreover have "held (ledger_prune n (bk_ledger (ag_books ag))) r' \<subseteq> held (bk_ledger (ag_books (snd (reserve n r it st i ag)))) r'" for r'
    by (auto simp: reserve_def Let_def held_reserve split: receiver_intent.splits)
  ultimately show ?thesis
    unfolding ag_le_def using cut by (fastforce simp: held_prune)
qed

lemma ag_le_judge [simp]: "n \<le> clock \<Longrightarrow> ag_le J clock ag (snd (judge n p l r it st i ag))"
  using ag_le_reserve [of n clock J ag r it st i] unfolding judge_def Let_def
  by (cases "evaluate_in (ag_books ag) n p (agent_label_str l) r it st"; cases "reserve n r it st i ag")
     (auto split: option.splits)

lemma ag_le_settle:
  assumes "dispatched \<or> (\<forall>k. se_key se = Some k \<longrightarrow> (\<forall>j \<in> J. k \<noteq> op_key_new (ag_run ag) j))"
  shows "ag_le J clock ag (settle se dispatched ag)"
  using assms by (cases "se_key se") (auto simp: settle_def ag_le_def held_settle)

definition sv_le :: "operation_id set \<Rightarrow> service \<Rightarrow> service \<Rightarrow> bool" where
  "sv_le J sv sv' \<longleftrightarrow>
     sv_clock sv \<le> sv_clock sv' \<and> set (sv_calls sv) \<subseteq> set (sv_calls sv')
     \<and> set (sv_outcomes sv) \<subseteq> set (sv_outcomes sv')
     \<and> (case sv_agent sv of
          None \<Rightarrow> sv_agent sv' = None
        | Some ag \<Rightarrow> \<exists>ag'. sv_agent sv' = Some ag' \<and> ag_le J (sv_clock sv') ag ag')"

lemma sv_le_refl [simp]: "sv_le J sv sv"
  by (simp add: sv_le_def split: option.splits)

lemma ag_le_clock: "ag_le J c ag ag' \<Longrightarrow> c \<le> c' \<Longrightarrow> ag_le J c' ag ag'"
  unfolding ag_le_def by (meson order_less_le_trans wt_saturating_sub_mono)

lemma sv_le_trans: "sv_le J sv sv1 \<Longrightarrow> sv_le J sv1 sv2 \<Longrightarrow> sv_le J sv sv2"
  unfolding sv_le_def
  by (cases "sv_agent sv"; auto)
     (meson ag_le_clock ag_le_trans order_trans | fastforce dest: ag_le_clock intro: ag_le_trans)+

lemma sv_le_with_agent:
  assumes "with_agent f sv = (pt, sv')" "\<And>ag. sv_agent sv = Some ag \<Longrightarrow> ag_le J (sv_clock sv) ag (snd (f ag))"
  shows "sv_le J sv sv'"
  using assms by (auto simp: with_agent_def sv_le_def split: option.splits prod.splits)

section \<open>Facts about an operation\<close>

definition ready :: "service \<Rightarrow> bool" where
  "ready sv \<longleftrightarrow> (\<exists>ag. sv_agent sv = Some ag \<and> bk_ready (ag_books ag))"

definition in_force_before :: "service \<Rightarrow> service \<Rightarrow> active_policy \<Rightarrow> bool" where
  "in_force_before sv0 sv policy \<longleftrightarrow>
     (\<exists>sv1 ag. sv_steps sv0 sv1 \<and> sv_steps sv1 sv \<and> sv_agent sv1 = Some ag \<and> active_policy_of ag = Some policy)"

definition authorised ::
  "service \<Rightarrow> service \<Rightarrow> operation_id \<Rightarrow> agent_label \<Rightarrow> receiver_id \<Rightarrow> receiver_intent \<Rightarrow> precondition \<Rightarrow> bool" where
  "authorised sv0 sv i label r intent p \<longleftrightarrow>
     (\<exists>sv1 ag policy now st d se ag'. sv_steps sv0 sv1 \<and> sv_steps sv1 sv \<and> sv_agent sv1 = Some ag
        \<and> in_force_before sv0 sv1 policy
        \<and> judge now policy label r intent st i ag = (JudgedAllowed d p se, ag'))"

definition dispatch_recorded ::
  "service \<Rightarrow> operation_id \<Rightarrow> principal \<Rightarrow> receiver_id \<Rightarrow> receiver_intent \<Rightarrow> precondition \<Rightarrow> bool" where
  "dispatch_recorded sv i owner r intent p \<longleftrightarrow>
     (\<exists>ag rec st. sv_agent sv = Some ag \<and> (rec, Synced) \<in> set (ag_log ag)
        \<and> ar_run rec = ag_run ag \<and> ar_operation rec = Some i \<and> ar_principal rec = Some owner
        \<and> ar_receiver rec = Some r \<and> ar_event rec = dispatching intent st (precondition_fields p))"

definition counted :: "service \<Rightarrow> operation_id \<Rightarrow> receiver_id \<Rightarrow> receiver_intent \<Rightarrow> bool" where
  "counted sv i r intent \<longleftrightarrow>
     (case intent of
        IVolume v \<Rightarrow> (\<exists>ag c. sv_agent sv = Some ag \<and> rc_target c = level_of v
          \<and> ((op_key_new (ag_run ag) i, c) \<in> held (bk_ledger (ag_books ag)) r
             \<or> rc_at c < wt_saturating_sub (sv_clock sv) RETENTION))
      | _ \<Rightarrow> True)"

definition own_settlement :: "service \<Rightarrow> operation_id \<Rightarrow> op_task \<Rightarrow> settlement \<Rightarrow> bool" where
  "own_settlement sv i tk se \<longleftrightarrow>
     (\<forall>k. se_key se = Some k \<longrightarrow> (\<forall>ag. sv_agent sv = Some ag \<longrightarrow> k = op_key_new (ag_run ag) i))"

definition undone :: "service \<Rightarrow> operation_id \<Rightarrow> bool" where
  "undone sv i \<longleftrightarrow> (\<exists>oc. (i, oc) \<in> set (sv_outcomes sv) \<and> rn_dispatch (resolve oc) = NotDispatched)"

lemma in_force_step: "in_force_before sv0 sv p \<Longrightarrow> sv_step sv sv' \<Longrightarrow> in_force_before sv0 sv' p"
  unfolding in_force_before_def by (meson rtranclp.rtrancl_into_rtrancl)

lemma authorised_step: "authorised sv0 sv i l r it p \<Longrightarrow> sv_step sv sv' \<Longrightarrow> authorised sv0 sv' i l r it p"
  unfolding authorised_def by (meson rtranclp.rtrancl_into_rtrancl)

lemma ready_le: "sv_le J sv sv' \<Longrightarrow> ready sv \<Longrightarrow> ready sv'"
  by (auto simp: sv_le_def ready_def ag_le_def)

lemma recorded_le: "sv_le J sv sv' \<Longrightarrow> dispatch_recorded sv i ow r it p \<Longrightarrow> dispatch_recorded sv' i ow r it p"
  unfolding sv_le_def dispatch_recorded_def ag_le_def by (auto; metis subsetD)

lemma counted_le:
  assumes "sv_le J sv sv'" "i \<in> J" "ready sv" "counted sv i r it"
  shows "counted sv' i r it"
proof (cases it)
  case (IVolume v)
  with assms(4) obtain ag c where c: "sv_agent sv = Some ag" "rc_target c = level_of v"
    "(op_key_new (ag_run ag) i, c) \<in> held (bk_ledger (ag_books ag)) r
       \<or> rc_at c < wt_saturating_sub (sv_clock sv) RETENTION" by (auto simp: counted_def)
  with assms(1) obtain ag' where ag': "sv_agent sv' = Some ag'" "ag_le J (sv_clock sv') ag ag'"
    and clock: "sv_clock sv \<le> sv_clock sv'" by (auto simp: sv_le_def)
  have "bk_ready (ag_books ag)" using assms(3) c(1) by (auto simp: ready_def)
  with ag'(2) c(3) assms(2) have "(op_key_new (ag_run ag') i, c) \<in> held (bk_ledger (ag_books ag')) r
       \<or> rc_at c < wt_saturating_sub (sv_clock sv') RETENTION"
    using wt_saturating_sub_mono [OF clock, of RETENTION] unfolding ag_le_def by (metis order_less_le_trans)
  with ag'(1) c(2) IVolume show ?thesis by (auto simp: counted_def)
qed (simp_all add: counted_def)

lemma own_le: "sv_le J sv sv' \<Longrightarrow> own_settlement sv i tk se \<Longrightarrow> sv_agent sv \<noteq> None \<Longrightarrow> own_settlement sv' i tk se"
  by (auto simp: sv_le_def own_settlement_def ag_le_def)

lemma undone_le: "sv_le J sv sv' \<Longrightarrow> undone sv i \<Longrightarrow> undone sv' i"
  by (auto simp: sv_le_def undone_def)

section \<open>Every step respects them\<close>

lemma own_settle_le:
  assumes "own_settlement sv i tk se" "sv_agent sv = Some ag"
  shows "ag_le (- {i}) clock ag (settle se d ag)"
  by (rule ag_le_settle) (use assms in \<open>auto simp: own_settlement_def op_key_new_def\<close>)

lemma ag_le_operator_write [simp]:
  "an_now an \<le> clock \<Longrightarrow> ag_le J clock ag (snd (operator_write an i tk ag))"
  using ag_le_reserve [of "an_now an" clock J ag "tk_receiver tk" "tk_intent tk" "an_state an" i]
  by (cases "reserve (an_now an) (tk_receiver tk) (tk_intent tk) (an_state an) i ag") (simp add: operator_write_def)

lemma ag_le_judge_step [simp]: "an_now an \<le> clock \<Longrightarrow> ag_le J clock ag (snd (judge_step an i l tk p st ag))"
  using ag_le_judge [of "an_now an" clock J ag p l "tk_receiver tk" "tk_intent tk" st i]
  by (cases "judge (an_now an) p l (tk_receiver tk) (tk_intent tk) st i ag")
     (simp add: judge_step_def Let_def split: judged.split)

lemma ag_le_operator_decided [simp]: "ag_le J clock ag (snd (operator_decided an i tk se st ag))"
  using ag_le_append [of J clock ag "an_answered an" "operator_decided_record an i tk ag" Flushed]
  by (cases "append_within (an_answered an) (operator_decided_record an i tk ag) Flushed ag")
     (simp add: operator_decided_def split: bool.split)

lemma own_settlement_run: "own_settlement sv i tk se \<Longrightarrow> sv_agent sv = Some ag \<Longrightarrow> ag_run ag' = ag_run ag \<Longrightarrow>
    own_settlement (sv\<lparr>sv_agent := Some ag'\<rparr>) i tk se"
  by (auto simp: own_settlement_def)

lemma ag_le_append_decided:
  assumes "own_settlement sv i tk se" "sv_agent sv = Some ag"
  shows "ag_le (- {i}) clock ag (snd (append_decided an i tk d dg p se st ag))"
proof -
  obtain a ag1 where ap: "append_within (an_answered an) (decided_record an i tk d dg ag) Flushed ag = (a, ag1)"
    by fastforce
  have le: "ag_le (- {i}) clock ag ag1" using ag_le_append [of "- {i}" clock ag] ap by (metis snd_conv)
  have "ag_run ag1 = ag_run ag" using append_within_frame(1) ap by (metis snd_conv)
  with ag_le_settle [of False se "- {i}" ag1 clock] assms have "ag_le (- {i}) clock ag1 (settle se False ag1)"
    by (auto simp: own_settlement_def op_key_new_def)
  with le ap show ?thesis by (auto simp: append_decided_def intro: ag_le_trans split: bool.split)
qed

lemma ag_le_append_dispatching:
  assumes "own_settlement sv i tk se" "sv_agent sv = Some ag"
  shows "ag_le (- {i}) clock ag (snd (append_dispatching an i tk p se st ag))"
proof -
  obtain a ag1 where ap: "append_within (an_answered an)
      (dispatching_record an i tk st (precondition_fields p) ag) Synced ag = (a, ag1)"
    by fastforce
  have le: "ag_le (- {i}) clock ag ag1" using ag_le_append [of "- {i}" clock ag] ap by (metis snd_conv)
  have "ag_run ag1 = ag_run ag" using append_within_frame(1) ap by (metis snd_conv)
  with ag_le_settle [of False se "- {i}" ag1 clock] assms have "ag_le (- {i}) clock ag1 (settle se False ag1)"
    by (auto simp: own_settlement_def op_key_new_def)
  with le ap show ?thesis by (auto simp: append_dispatching_def intro: ag_le_trans split: bool.split)
qed

text \<open>The settlement a point carries, and the points before the call of the session.\<close>

fun carried :: "point \<Rightarrow> settlement option" where
  "carried (AtMove d dg p se st) = Some se"
| "carried (AtDecidedRecord d dg p se st) = Some se"
| "carried (AtCheckAllowed p se st) = Some se"
| "carried (AtDispatchRecord p se st) = Some se"
| "carried (AtOperatorDecided se st) = Some se"
| "carried (AtOperatorDispatch se st) = Some se"
| "carried (AtBegin pre se) = se"
| "carried (AtWithdrawn se) = se"
| "carried (AtOperate se) = se"
| "carried (AtSettle se rn shown) = Some se"
| "carried _ = None"

fun unbegun :: "point \<Rightarrow> bool" where
  "unbegun (AtOperate _) = False"
| "unbegun (AtSettle _ _ _) = False"
| "unbegun (AtFinish _ _) = False"
| "unbegun (AtEndedAs _) = False"
| "unbegun (AtRecordFinished _) = False"
| "unbegun (AtFinishPlain _) = False"
| "unbegun AtEnd = False"
| "unbegun Ended = False"
| "unbegun _ = True"

definition carries_own :: "service \<Rightarrow> operation_id \<Rightarrow> op_task \<Rightarrow> point \<Rightarrow> bool" where
  "carries_own sv i tk pt \<longleftrightarrow> (\<forall>se. carried pt = Some se \<longrightarrow> own_settlement sv i tk se)"

lemmas step_defs = with_agent_def start_step_def lease_step_def begin_step_def operate_step_def Let_def
lemmas step_splits = option.splits prod.splits sum.splits if_splits bool.splits

lemma task_step_frame:
  assumes "task_step an i tk pt sv = (pt', sv')"
  shows "sv_tasks sv' = sv_tasks sv" "sv_clock sv' = sv_clock sv"
    "sv_agent sv = None \<longleftrightarrow> sv_agent sv' = None"
  using assms by (cases pt; auto simp: step_defs split: step_splits)+

lemma task_step_ops:
  assumes "task_step an i tk pt sv = (pt', sv')"
  shows "sv_ops sv' = sv_ops sv \<or> (\<exists>change r. lawful change \<and> transition change i (sv_ops sv) = (r, sv_ops sv'))"
proof -
  have fin: "\<exists>change r. lawful change \<and> transition change i (sv_ops sv) = (r, ops')"
    if "finish i rn (sv_ops sv) = (b, ops')" for rn b ops'
    using that by (auto simp: finish_def split: prod.splits intro!: exI [of _ "change_finish rn"])
  have beg: "\<exists>change r. lawful change \<and> transition change i (sv_ops sv) = (r, ops')"
    if "begin_session i (sv_ops sv) = (b, ops')" for b ops'
    using that by (auto simp: begin_session_def split: prod.splits intro!: exI [of _ change_begin])
  have drop: "\<exists>change r. lawful change \<and> transition change i (sv_ops sv) = (r, drop_task i (sv_ops sv))"
    by (intro exI [of _ change_drop] exI [of _ "fst (transition change_drop i (sv_ops sv))"]) (simp add: drop_task_def)
  have fin': "\<exists>change r. lawful change \<and> transition change i (sv_ops sv) = (r, snd (finish i rn (sv_ops sv)))" for rn
    using fin [of rn] by (metis prod.collapse)
  have allow: "\<exists>change r. lawful change \<and> transition change i (sv_ops sv) = (r, ops')"
    if "transition change_allow i (sv_ops sv) = (b, ops')" for b ops'
    using that by (auto intro!: exI [of _ change_allow])
  show ?thesis
  proof (cases pt)
    case (AtMove d dg p se st)
    with assms allow show ?thesis by (auto simp: with_agent_def split: prod.splits option.splits)
  next
    case (AtBegin pre se)
    with assms beg show ?thesis by (auto simp: begin_step_def split: prod.splits bool.splits)
  next
    case (AtFinish rn shown)
    with assms fin show ?thesis by (auto split: prod.splits bool.splits)
  qed (use assms fin' drop in \<open>auto simp: step_defs split: step_splits\<close>)
qed

lemma task_step_calls:
  assumes "task_step an i tk pt sv = (pt', sv')"
  shows "sv_calls sv' = sv_calls sv \<or>
    (\<exists>pre se. pt = AtBegin pre se \<and> pt' = AtOperate se \<and> sv_calls sv' = sv_calls sv @ [(i, tk_receiver tk, tk_intent tk, pre)])"
  using assms by (cases pt; auto simp: step_defs split: step_splits)

lemma task_step_unbegun:
  "task_step an i tk pt sv = (pt', sv') \<Longrightarrow> unbegun pt' \<Longrightarrow> unbegun pt \<and> sv_calls sv' = sv_calls sv"
  by (cases pt; auto simp: step_defs split: step_splits)

lemma sv_le_other:
  "sv_agent sv' = sv_agent sv \<Longrightarrow> sv_clock sv' = sv_clock sv \<Longrightarrow> set (sv_calls sv) \<subseteq> set (sv_calls sv') \<Longrightarrow>
   set (sv_outcomes sv) \<subseteq> set (sv_outcomes sv') \<Longrightarrow> sv_le J sv sv'"
  by (simp add: sv_le_def split: option.splits)

text \<open>The points whose step does not touch the agent path.\<close>

fun apart :: "point \<Rightarrow> bool" where
  "apart (AtRefuse _) = True"
| "apart AtLease = True"
| "apart (AtBegin _ _) = True"
| "apart (AtOperate _) = True"
| "apart (AtFinish _ _) = True"
| "apart (AtEndedAs _) = True"
| "apart (AtFinishPlain _) = True"
| "apart AtEnd = True"
| "apart Ended = True"
| "apart _ = False"

lemma apart_le:
  assumes "task_step an i tk pt sv = (pt', sv')" "apart pt"
  shows "sv_le J sv sv'"
  by (rule sv_le_other) (use assms in \<open>cases pt; auto simp: step_defs split: step_splits\<close>)+

lemma task_step_le:
  assumes "task_step an i tk pt sv = (pt', sv')" "an_now an \<le> sv_clock sv" "carries_own sv i tk pt"
  shows "sv_le (- {i}) sv sv'"
proof (cases "apart pt")
  case True
  with assms(1) show ?thesis by (rule apart_le)
next
  case False
  have wa: "sv_le (- {i}) sv sv'" if "with_agent f (sv\<lparr>sv_ops := ops\<rparr>) = (pt', sv')"
    "\<And>ag. sv_agent sv = Some ag \<Longrightarrow> ag_le (- {i}) (sv_clock sv) ag (snd (f ag))" for f ops
    using that by (auto simp: with_agent_def sv_le_def split: option.splits prod.splits)
  have wa0: "sv_le (- {i}) sv sv'" if "with_agent f sv = (pt', sv')"
    "\<And>ag. sv_agent sv = Some ag \<Longrightarrow> ag_le (- {i}) (sv_clock sv) ag (snd (f ag))" for f
    using sv_le_with_agent that by blast
  have own: "ag_le (- {i}) (sv_clock sv) ag (settle se d ag)" if "carried pt = Some se" "sv_agent sv = Some ag" for se ag d
    using own_settle_le that assms(3) unfolding carries_own_def by blast
  show ?thesis
  proof (cases pt)
    case AtStart
    have pre: "ag_le (- {i}) (sv_clock sv) ag (snd (case precheck (an_now an) (an_history an) ag of
        (Err reason, ag') \<Rightarrow> (AtRefuse (refusal reason), ag') | (Ok _, ag') \<Rightarrow> (AtLease, ag')))" for ag
      using ag_le_precheck [of "- {i}" "sv_clock sv" ag "an_now an" "an_history an"] by (cases "precheck (an_now an) (an_history an) ag") (auto split: sum.split)
    with AtStart assms(1) show ?thesis
      by (auto simp: start_step_def split: if_splits intro!: wa0)
  next
    case (AtMove d dg p se st)
    obtain r ops' where tr: "transition change_allow i (sv_ops sv) = (r, ops')" by fastforce
    show ?thesis
    proof (cases r)
      case None
      with AtMove assms(1) tr own [of se] show ?thesis by (auto intro!: wa [of _ ops'])
    next
      case (Some sn)
      with AtMove assms(1) tr show ?thesis by (auto intro!: sv_le_other)
    qed
  next
    case (AtDecidedRecord d dg p se st)
    with assms show ?thesis by (auto simp: carries_own_def intro!: wa0 ag_le_append_decided)
  next
    case (AtDispatchRecord p se st)
    with assms show ?thesis by (auto simp: carries_own_def intro!: wa0 ag_le_append_dispatching)
  next
    case (AtCheckAllowed p se st)
    with assms(1) own [of se] show ?thesis by (cases "status_of i (sv_ops sv) = Some Allowed") (auto intro!: wa0)
  next
    case (AtWithdrawn se)
    with assms(1) own show ?thesis by (cases se) (auto intro!: wa0)
  next
    case (AtSettle se rn shown)
    with assms(1) own [of se] show ?thesis by (auto intro!: wa0)
  next
    case AtDecide
    with assms(1) show ?thesis by (auto intro!: wa0 split: option.split)
  qed (use assms(1,2) False in \<open>auto intro!: wa0\<close>)
qed

text \<open>After the call of the session only a settlement that releases can take the own change back.\<close>

lemma task_step_le_called:
  assumes "task_step an i tk pt sv = (pt', sv')" "an_now an \<le> sv_clock sv" "\<not> unbegun pt"
    and "\<And>se rn shown. pt = AtSettle se rn shown \<Longrightarrow> rn_dispatch rn \<noteq> NotDispatched"
  shows "sv_le J sv sv'"
proof (cases "apart pt")
  case True
  with assms(1) show ?thesis by (rule apart_le)
next
  case False
  have wa0: "sv_le J sv sv'" if "with_agent f sv = (pt', sv')"
    "\<And>ag. sv_agent sv = Some ag \<Longrightarrow> ag_le J (sv_clock sv) ag (snd (f ag))" for f
    using sv_le_with_agent that by blast
  show ?thesis
  proof (cases pt)
    case (AtSettle se rn shown)
    with assms show ?thesis by (auto intro!: wa0 ag_le_settle)
  qed (use assms(1-3) False in \<open>auto intro!: wa0\<close>)
qed

section \<open>The invariant\<close>

text \<open>What holds of an agent's task at each point.\<close>

fun agent_ok :: "service \<Rightarrow> service \<Rightarrow> operation_id \<Rightarrow> op_task \<Rightarrow> point \<Rightarrow> bool" where
  "agent_ok sv0 sv i tk AtLease = ready sv"
| "agent_ok sv0 sv i tk AtDecide = ready sv"
| "agent_ok sv0 sv i tk (AtJudge policy st) = (ready sv \<and> in_force_before sv0 sv policy)"
| "agent_ok sv0 sv i tk (AtMove d dg p se st) =
     (ready sv \<and> authorised sv0 sv i (label_of (tk_owner tk)) (tk_receiver tk) (tk_intent tk) p
      \<and> counted sv i (tk_receiver tk) (tk_intent tk))"
| "agent_ok sv0 sv i tk (AtDecidedRecord d dg p se st) =
     (ready sv \<and> authorised sv0 sv i (label_of (tk_owner tk)) (tk_receiver tk) (tk_intent tk) p
      \<and> counted sv i (tk_receiver tk) (tk_intent tk))"
| "agent_ok sv0 sv i tk (AtCheckAllowed p se st) =
     (ready sv \<and> authorised sv0 sv i (label_of (tk_owner tk)) (tk_receiver tk) (tk_intent tk) p
      \<and> counted sv i (tk_receiver tk) (tk_intent tk))"
| "agent_ok sv0 sv i tk (AtDispatchRecord p se st) =
     (ready sv \<and> authorised sv0 sv i (label_of (tk_owner tk)) (tk_receiver tk) (tk_intent tk) p
      \<and> counted sv i (tk_receiver tk) (tk_intent tk))"
| "agent_ok sv0 sv i tk AtOperatorWrite = False"
| "agent_ok sv0 sv i tk (AtOperatorDecided se st) = False"
| "agent_ok sv0 sv i tk (AtOperatorDispatch se st) = False"
| "agent_ok sv0 sv i tk (AtBegin pre se) =
     (ready sv \<and> counted sv i (tk_receiver tk) (tk_intent tk)
      \<and> (\<exists>p. pre = Some p \<and> authorised sv0 sv i (label_of (tk_owner tk)) (tk_receiver tk) (tk_intent tk) p
           \<and> dispatch_recorded sv i (tk_owner tk) (tk_receiver tk) (tk_intent tk) p))"
| "agent_ok sv0 sv i tk (AtSettle se rn shown) = (rn_dispatch rn = NotDispatched \<longrightarrow> undone sv i)"
| "agent_ok sv0 sv i tk _ = True"

lemma agent_ok_step:
  assumes "agent_ok sv0 sv i tk pt" "sv_step sv sv'" "sv_le J sv sv'" "i \<in> J"
  shows "agent_ok sv0 sv' i tk pt"
proof -
  note r = ready_le [OF assms(3)] and u = undone_le [OF assms(3)] and d = recorded_le [OF assms(3)]
    and a = authorised_step [OF _ assms(2)] and f = in_force_step [OF _ assms(2)]
    and c = counted_le [OF assms(3,4)]
  show ?thesis by (cases pt) (use assms(1) in \<open>auto intro: r u d a f c\<close>)
qed

definition task_ok :: "service \<Rightarrow> service \<Rightarrow> operation_id \<Rightarrow> op_task \<Rightarrow> bool" where
  "task_ok sv0 sv i tk \<longleftrightarrow>
     carries_own sv i tk (tk_at tk) \<and> (unbegun (tk_at tk) \<longrightarrow> i \<notin> fst ` set (sv_calls sv))
     \<and> (\<forall>l. tk_owner tk = Agent l \<longrightarrow> sv_agent sv \<noteq> None \<and> agent_ok sv0 sv i tk (tk_at tk))"

definition call_ok :: "service \<Rightarrow> service \<Rightarrow> call \<Rightarrow> bool" where
  "call_ok sv0 sv call \<longleftrightarrow>
     (case call of (i, r, intent, pre) \<Rightarrow>
        \<exists>tk. sv_tasks sv i = Some tk \<and> tk_receiver tk = r \<and> tk_intent tk = intent
          \<and> (\<forall>l. tk_owner tk = Agent l \<longrightarrow>
               (\<exists>p. pre = Some p \<and> authorised sv0 sv i l r intent p \<and> dispatch_recorded sv i (Agent l) r intent p)
               \<and> ready sv \<and> (undone sv i \<or> counted sv i r intent)))"

definition svc_inv :: "service \<Rightarrow> service \<Rightarrow> bool" where
  "svc_inv sv0 sv \<longleftrightarrow>
     sv_steps sv0 sv \<and> ops_inv (sv_ops sv)
     \<and> (\<forall>i tk. sv_tasks sv i = Some tk \<longrightarrow> i \<le> ops_next_id (sv_ops sv) \<and> task_ok sv0 sv i tk)
     \<and> (\<forall>call \<in> set (sv_calls sv). call_ok sv0 sv call) \<and> distinct (map fst (sv_calls sv))"

lemma svc_inv_new: "svc_inv (service_new agent) (service_new agent)"
  by (simp add: svc_inv_def service_new_def ops_inv_default)

text \<open>Tasks and calls that a step leaves alone stay as they should be.\<close>

lemma own_kept:
  assumes "sv_le J sv sv'" "own_settlement sv j tk se"
  shows "own_settlement sv' j tk se"
proof (cases "sv_agent sv")
  case None
  with assms(1) show ?thesis by (simp add: own_settlement_def sv_le_def)
next
  case (Some ag)
  then show ?thesis by (intro own_le [OF assms]) simp
qed

lemma agent_none_le: "sv_le J sv sv' \<Longrightarrow> sv_agent sv' = None \<longleftrightarrow> sv_agent sv = None"
  by (auto simp: sv_le_def split: option.splits)

lemma task_ok_kept:
  assumes "task_ok sv0 sv j tk" "sv_step sv sv'" "sv_le J sv sv'" "j \<in> J"
    and "j \<in> fst ` set (sv_calls sv') \<longleftrightarrow> j \<in> fst ` set (sv_calls sv)"
  shows "task_ok sv0 sv' j tk"
  using assms(1,5) agent_ok_step [OF _ assms(2-4)] own_kept [OF assms(3)] agent_none_le [OF assms(3)]
  unfolding task_ok_def carries_own_def by simp

lemma call_ok_kept:
  assumes "call_ok sv0 sv c" "sv_step sv sv'" "sv_le UNIV sv sv'"
    and "\<And>tk. sv_tasks sv (fst c) = Some tk \<Longrightarrow>
      \<exists>tk'. sv_tasks sv' (fst c) = Some tk' \<and> tk_receiver tk' = tk_receiver tk \<and> tk_intent tk' = tk_intent tk
        \<and> tk_owner tk' = tk_owner tk"
  shows "call_ok sv0 sv' c"
proof (cases c)
  case (fields j rc it pre)
  note r = ready_le [OF assms(3)] and u = undone_le [OF assms(3)] and d = recorded_le [OF assms(3)]
    and a = authorised_step [OF _ assms(2)] and k = counted_le [OF assms(3) UNIV_I]
  have agent: "(\<exists>p. pre = Some p \<and> authorised sv0 sv' j l rc it p \<and> dispatch_recorded sv' j (Agent l) rc it p)
      \<and> ready sv' \<and> (undone sv' j \<or> counted sv' j rc it)"
    if "(\<exists>p. pre = Some p \<and> authorised sv0 sv j l rc it p \<and> dispatch_recorded sv j (Agent l) rc it p)
      \<and> ready sv \<and> (undone sv j \<or> counted sv j rc it)" for l
    using that a d r u k by metis
  from assms(1) fields obtain tk where tk: "sv_tasks sv j = Some tk" "tk_receiver tk = rc" "tk_intent tk = it"
    "\<And>l. tk_owner tk = Agent l \<Longrightarrow>
       (\<exists>p. pre = Some p \<and> authorised sv0 sv j l rc it p \<and> dispatch_recorded sv j (Agent l) rc it p)
       \<and> ready sv \<and> (undone sv j \<or> counted sv j rc it)" by (auto simp: call_ok_def)
  from assms(4) tk(1) fields obtain tk' where tk': "sv_tasks sv' j = Some tk'" "tk_receiver tk' = tk_receiver tk"
    "tk_intent tk' = tk_intent tk" "tk_owner tk' = tk_owner tk" by auto
  have "(\<exists>p. pre = Some p \<and> authorised sv0 sv' j l rc it p \<and> dispatch_recorded sv' j (Agent l) rc it p)
      \<and> ready sv' \<and> (undone sv' j \<or> counted sv' j rc it)" if "tk_owner tk' = Agent l" for l
    using agent [OF tk(4)] that tk'(4) by simp
  with tk tk'(1-3) fields show ?thesis unfolding call_ok_def by fastforce
qed

text \<open>A step that touches no task and takes nothing back.\<close>

lemma svc_inv_quiet:
  assumes "svc_inv sv0 sv" "sv_step sv sv'" "sv_le UNIV sv sv'" "ops_inv (sv_ops sv')"
    and "sv_tasks sv' = sv_tasks sv" "sv_calls sv' = sv_calls sv" "ops_next_id (sv_ops sv') = ops_next_id (sv_ops sv)"
  shows "svc_inv sv0 sv'"
proof -
  note inv = assms(1) [unfolded svc_inv_def]
  have step: "sv_steps sv0 sv'" using inv assms(2) by (meson rtranclp.rtrancl_into_rtrancl)
  have "task_ok sv0 sv' i tk" if "task_ok sv0 sv i tk" for i tk
    using task_ok_kept [OF that assms(2,3) UNIV_I] assms(6) by simp
  moreover have "call_ok sv0 sv' c" if "call_ok sv0 sv c" for c
    using call_ok_kept [OF that assms(2,3)] assms(5) by simp
  ultimately show ?thesis using inv assms(4-7) step unfolding svc_inv_def by simp
qed

end
