(* ===== verification/Service_Invariant.thy ===== *)
theory Service_Invariant
  imports Service_Safety
begin

text \<open>
  The invariant of \<open>Service_Safety\<close> is kept by every step of a task and every call of the
  service, and what follows from it: the writes of agents are authorised, recorded and counted,
  and no operation reaches the session twice.
\<close>

section \<open>The invariant is kept by every step of a task\<close>

fun holds_place :: "point \<Rightarrow> bool" where
  "holds_place (AtDecidedRecord _ _ _ _ _) = True"
| "holds_place (AtCheckAllowed _ _ _) = True"
| "holds_place (AtDispatchRecord _ _ _) = True"
| "holds_place (AtBegin _ _) = True"
| "holds_place _ = False"

lemma append_decided_kept:
  assumes "append_decided an i tk d dg p se st ag = (pt', ag')" "holds_place pt'"
  shows "pt' = AtCheckAllowed p se st \<and> ag_le J clock ag ag'"
proof -
  obtain a ag1 where ap: "append_within (an_answered an) (decided_record an i tk d dg ag) Flushed ag = (a, ag1)"
    by fastforce
  have "ag_le J clock ag ag1" using ag_le_append [of J clock ag] ap by (metis snd_conv)
  with assms ap show ?thesis by (auto simp: append_decided_def split: bool.splits)
qed

lemma append_dispatching_kept:
  assumes "append_dispatching an i tk p se st ag = (pt', ag')" "holds_place pt'"
  shows "pt' = AtBegin (Some p) (Some se) \<and> ag_le J clock ag ag'
    \<and> (dispatching_record an i tk st (precondition_fields p) ag, Synced) \<in> set (ag_log ag')"
proof -
  obtain a ag1 where ap: "append_within (an_answered an)
      (dispatching_record an i tk st (precondition_fields p) ag) Synced ag = (a, ag1)"
    by fastforce
  have "ag_le J clock ag ag1" using ag_le_append [of J clock ag] ap by (metis snd_conv)
  moreover have "a \<Longrightarrow> (dispatching_record an i tk st (precondition_fields p) ag, Synced) \<in> set (ag_log ag1)"
    using ap by (auto simp: append_within_def)
  ultimately show ?thesis using assms ap by (auto simp: append_dispatching_def split: bool.splits)
qed

lemma task_step_le_kept:
  assumes "task_step an i tk pt sv = (pt', sv')" "an_now an \<le> sv_clock sv" "holds_place pt'"
  shows "sv_le J sv sv'"
proof (cases "apart pt")
  case True
  with assms(1) show ?thesis by (rule apart_le)
next
  case False
  have wa0: "sv_le J sv sv'" if "with_agent f sv = (pt', sv')"
    "\<And>ag ag'. sv_agent sv = Some ag \<Longrightarrow> f ag = (pt', ag') \<Longrightarrow> ag_le J (sv_clock sv) ag ag'" for f
    using that by (auto simp: with_agent_def sv_le_def split: option.splits prod.splits)
  show ?thesis
  proof (cases pt)
    case (AtMove d dg p se st)
    with assms(1,3) show ?thesis by (auto simp: with_agent_def intro!: sv_le_other split: step_splits)
  next
    case (AtCheckAllowed p se st)
    with assms(1,3) show ?thesis by (auto simp: with_agent_def intro!: sv_le_other split: step_splits)
  next
    case (AtDecidedRecord d dg p se st)
    with assms(1,3) append_decided_kept show ?thesis by (auto intro!: wa0)
  next
    case (AtDispatchRecord p se st)
    with assms(1,3) append_dispatching_kept show ?thesis by (auto intro!: wa0)
  next
    case AtOperatorWrite
    have "ag_le J (sv_clock sv) ag ag'" if "operator_write an i tk ag = (pt', ag')" for ag ag'
      using ag_le_operator_write [OF assms(2)] that by (metis snd_conv)
    with AtOperatorWrite assms(1) show ?thesis by (auto intro!: wa0)
  next
    case (AtOperatorDecided se st)
    have "ag_le J (sv_clock sv) ag ag'" if "operator_decided an i tk se st ag = (pt', ag')" for ag ag'
      using ag_le_operator_decided that by (metis snd_conv)
    with AtOperatorDecided assms(1) show ?thesis by (auto intro!: wa0)
  next
    case (AtOperatorDispatch se st)
    with assms(1) show ?thesis by (auto intro!: wa0)
  qed (use assms(1,3) False in \<open>auto simp: step_defs judge_step_def split: step_splits judged.splits\<close>)
qed

lemma judge_carries:
  assumes "judge_step an i l tk p st ag = (pt', ag')" "carried pt' = Some se"
  shows "se_key se = (case tk_intent tk of IVolume _ \<Rightarrow> Some (op_key_new (ag_run ag) i) | _ \<Rightarrow> None)"
proof -
  obtain j ag1 where jd: "judge (an_now an) p l (tk_receiver tk) (tk_intent tk) st i ag = (j, ag1)" by fastforce
  with assms obtain d q where "j = JudgedAllowed d q se"
    by (auto simp: judge_step_def Let_def split: judged.splits)
  with jd have "judge (an_now an) p l (tk_receiver tk) (tk_intent tk) st i ag = (JudgedAllowed d q se, ag1)" by simp
  from judge_allowed(4) [OF this]
  have "se = fst (reserve (an_now an) (tk_receiver tk) (tk_intent tk) st i ag)" by simp
  then show ?thesis by (simp add: reserve_key)
qed

lemma operator_write_carries:
  assumes "operator_write an i tk ag = (pt', ag')" "carried pt' = Some se"
  shows "se_key se = (case tk_intent tk of IVolume _ \<Rightarrow> Some (op_key_new (ag_run ag) i) | _ \<Rightarrow> None)"
proof -
  obtain se1 ag1 where rs: "reserve (an_now an) (tk_receiver tk) (tk_intent tk) (an_state an) i ag = (se1, ag1)" by fastforce
  with assms have "se1 = se" by (auto simp: operator_write_def split: if_splits)
  with rs have "se = fst (reserve (an_now an) (tk_receiver tk) (tk_intent tk) (an_state an) i ag)" by simp
  then show ?thesis by (simp add: reserve_key)
qed

lemma task_step_carried:
  assumes "task_step an i tk pt sv = (pt', sv')" "carried pt' = Some se"
  shows "carried pt = Some se \<or>
    (\<exists>ag. sv_agent sv = Some ag \<and>
       se_key se = (case tk_intent tk of IVolume _ \<Rightarrow> Some (op_key_new (ag_run ag) i) | _ \<Rightarrow> None))"
proof (cases pt)
  case (AtJudge policy st)
  with assms judge_carries show ?thesis by (fastforce simp: with_agent_def split: step_splits)
next
  case AtOperatorWrite
  with assms operator_write_carries show ?thesis by (fastforce simp: with_agent_def split: step_splits)
next
  case (AtDecidedRecord d dg p se0 st)
  with assms show ?thesis by (auto simp: with_agent_def append_decided_def split: step_splits)
next
  case (AtDispatchRecord p se0 st)
  with assms show ?thesis by (auto simp: with_agent_def append_dispatching_def split: step_splits)
next
  case (AtOperatorDecided se0 st)
  with assms show ?thesis by (auto simp: with_agent_def operator_decided_def split: step_splits)
qed (use assms in \<open>auto simp: step_defs split: step_splits\<close>)

lemma task_step_carries:
  assumes "task_step an i tk pt sv = (pt', sv')" "carries_own sv i tk pt" "an_now an \<le> sv_clock sv"
  shows "carries_own sv' i tk pt'"
proof -
  have le: "sv_le (- {i}) sv sv'" using task_step_le [OF assms(1,3,2)] .
  have run: "ag_run ag' = ag_run ag" if "sv_agent sv = Some ag" "sv_agent sv' = Some ag'" for ag ag'
    using le that by (auto simp: sv_le_def ag_le_def)
  have "own_settlement sv' i tk se" if c: "carried pt' = Some se" for se
    using task_step_carried [OF assms(1) c]
  proof
    assume "carried pt = Some se"
    with assms(2) have own: "own_settlement sv i tk se" by (simp add: carries_own_def)
    show ?thesis
      unfolding own_settlement_def
    proof (intro allI impI)
      fix key ag'
      assume k: "se_key se = Some key" and ag': "sv_agent sv' = Some ag'"
      then obtain ag where ag: "sv_agent sv = Some ag" using task_step_frame(3) [OF assms(1)] by auto
      with own k have "key = op_key_new (ag_run ag) i" by (simp add: own_settlement_def)
      with run [OF ag ag'] show "key = op_key_new (ag_run ag') i" by simp
    qed
  next
    assume "\<exists>ag. sv_agent sv = Some ag \<and>
       se_key se = (case tk_intent tk of IVolume _ \<Rightarrow> Some (op_key_new (ag_run ag) i) | _ \<Rightarrow> None)"
    then obtain ag where ag: "sv_agent sv = Some ag"
      "\<And>key. se_key se = Some key \<Longrightarrow> key = op_key_new (ag_run ag) i" by (cases "tk_intent tk") auto
    with run [OF ag(1)] show ?thesis by (simp add: own_settlement_def)
  qed
  then show ?thesis by (simp add: carries_own_def)
qed

text \<open>
  What a step of an agent's task establishes for its next point. \<open>sv\<close> is the service before the
  step, \<open>sv1\<close> the same with the clock moved on, \<open>sv'\<close> the service after.
\<close>

lemma task_step_agent:
  assumes "task_step an i tk (tk_at tk) sv1 = (pt', sv2)" "tk_owner tk = Agent l"
    and "sv1 = sv\<lparr>sv_clock := max (sv_clock sv) (an_now an)\<rparr>" "sv_agent sv = Some ag"
    and "agent_ok sv0 sv i tk (tk_at tk)" "sv_steps sv0 sv" "sv_step sv sv'"
    and "sv_agent sv' = sv_agent sv2" "sv_clock sv' = sv_clock sv2" "sv_outcomes sv' = sv_outcomes sv2"
    and "sv_le (- {i}) sv sv'" "holds_place pt' \<Longrightarrow> sv_le UNIV sv sv'"
  shows "agent_ok sv0 sv' i tk pt'"
proof -
  have ag1: "sv_agent sv1 = Some ag" using assms(3,4) by simp
  have agent: "is_agent (tk_owner tk) sv1" using assms(2) ag1 by (simp add: is_agent_def)
  have lab: "label_of (tk_owner tk) = l" using assms(2) by (simp add: label_of_def)
  note r = ready_le [OF assms(11)] and f = in_force_step [OF _ assms(7)] and a = authorised_step [OF _ assms(7)]
  have k: "counted sv' i rc it" if "holds_place pt'" "ready sv" "counted sv i rc it" for rc it
    using counted_le [OF assms(12) [OF that(1)] UNIV_I that(2,3)] .
  show ?thesis
  proof (cases "tk_at tk")
    case AtStart
    obtain res ag2 where p: "precheck (an_now an) (an_history an) ag = (res, ag2)" by fastforce
    show ?thesis
    proof (cases res)
      case (Inl e)
      with AtStart p assms(1) agent ag1 show ?thesis by (auto simp: start_step_def with_agent_def)
    next
      case (Inr u)
      with AtStart p assms(1,8) agent ag1 precheck_Ok_ready [of _ _ ag u ag2] show ?thesis
        by (auto simp: start_step_def with_agent_def ready_def)
    qed
  next
    case AtLease
    with assms(1,5) agent r show ?thesis by (auto simp: lease_step_def split: sum.splits)
  next
    case AtDecide
    have "in_force_before sv0 sv p" if "active_policy_of ag = Some p" for p
      using assms(4,6) that unfolding in_force_before_def by blast
    with AtDecide assms(1,5) ag1 r f show ?thesis by (auto simp: with_agent_def split: option.splits)
  next
    case (AtJudge policy st)
    obtain j ag2 where jd: "judge (an_now an) policy l (tk_receiver tk) (tk_intent tk) st i ag = (j, ag2)" by fastforce
    show ?thesis
    proof (cases j)
      case (JudgedAllowed d p se)
      note jd' = jd [unfolded JudgedAllowed]
      have pt': "pt' = AtMove d (lp_digest (ap_loaded policy)) p se st" "sv_agent sv2 = Some ag2"
        using AtJudge assms(1) ag1 lab jd' by (auto simp: with_agent_def judge_step_def Let_def)
      have "authorised sv0 sv i l (tk_receiver tk) (tk_intent tk) p"
        unfolding authorised_def
        by (intro exI [of _ sv] exI [of _ ag] exI [of _ policy] exI [of _ "an_now an"] exI [of _ st] exI [of _ d]
            exI [of _ se] exI [of _ ag2]) (use jd' assms(4-6) AtJudge in simp)
      moreover have "counted sv' i (tk_receiver tk) (tk_intent tk)"
      proof (cases "tk_intent tk")
        case (IVolume v)
        with judge_allowed(4) [OF jd'] have
          rs: "reserve (an_now an) (tk_receiver tk) (IVolume v) st i ag = (se, ag2)" by simp
        from reserve_held(2) [OF rs] have "(op_key_new (ag_run ag) i,
            \<lparr>rc_at = an_now an, rc_before = observed_volume st, rc_target = level_of v\<rparr>)
            \<in> held (bk_ledger (ag_books ag2)) (tk_receiver tk)" by (simp add: held_reserve)
        moreover have "ag_run ag2 = ag_run ag"
          using judge_frame(1) [of "an_now an" policy l "tk_receiver tk" "tk_intent tk" st i ag] jd by simp
        ultimately show ?thesis using IVolume pt'(2) assms(8) by (force simp: counted_def)
      qed (simp_all add: counted_def)
      ultimately show ?thesis using pt'(1) AtJudge assms(5) r a lab by auto
    qed (use AtJudge assms(1) ag1 lab jd in \<open>auto simp: with_agent_def judge_step_def Let_def\<close>)
  next
    case (AtMove d dg p se st)
    with assms(1,5) r a k show ?thesis by (auto simp: with_agent_def split: step_splits)
  next
    case (AtDecidedRecord d dg p se st)
    with assms(1,5) ag1 r a k show ?thesis by (auto simp: with_agent_def append_decided_def split: step_splits)
  next
    case (AtCheckAllowed p se st)
    with assms(1,5) ag1 r a k show ?thesis by (auto simp: with_agent_def split: step_splits)
  next
    case (AtDispatchRecord p se st)
    obtain ag2 where ap: "append_dispatching an i tk p se st ag = (pt', ag2)" "sv_agent sv2 = Some ag2"
      using AtDispatchRecord assms(1) ag1 by (auto simp: with_agent_def split: prod.splits)
    show ?thesis
    proof (cases "holds_place pt'")
      case True
      note kept = append_dispatching_kept [OF ap(1) True, of UNIV "sv_clock sv"]
      then have "ag_run ag2 = ag_run ag" by (auto simp: ag_le_def)
      then have "dispatch_recorded sv' i (tk_owner tk) (tk_receiver tk) (tk_intent tk) p"
        unfolding dispatch_recorded_def using kept ap(2) assms(8)
        by (intro exI [of _ ag2] exI [of _ "dispatching_record an i tk st (precondition_fields p) ag"] exI [of _ st])
           (simp add: dispatching_record_def record_as_def)
      with kept True AtDispatchRecord assms(5) r a k show ?thesis by auto
    next
      case False
      with ap(1) show ?thesis by (auto simp: append_dispatching_def split: step_splits)
    qed
  next
    case (AtBegin pre se)
    with assms(1) show ?thesis by (auto simp: begin_step_def split: step_splits)
  next
    case (AtOperate se)
    with assms(1,10) show ?thesis
      by (auto simp: operate_step_def Let_def undone_def split: step_splits)
  qed (use assms(1,5) in \<open>auto simp: with_agent_def split: step_splits\<close>)
qed

lemma svc_inv_run:
  assumes "svc_inv sv0 sv"
  shows "svc_inv sv0 (run_task an i sv)"
proof (cases "sv_tasks sv i")
  case None
  with assms show ?thesis by (simp add: run_task_def)
next
  case (Some tk)
  note inv = assms [unfolded svc_inv_def]
  define sv1 where "sv1 = sv\<lparr>sv_clock := max (sv_clock sv) (an_now an)\<rparr>"
  obtain pt' sv2 where st: "task_step an i tk (tk_at tk) sv1 = (pt', sv2)" by fastforce
  define sv' where "sv' = sv2\<lparr>sv_tasks := (sv_tasks sv2)(i \<mapsto> tk\<lparr>tk_at := pt'\<rparr>)\<rparr>"
  have run: "run_task an i sv = sv'" using Some st by (simp add: run_task_def sv1_def sv'_def)
  then have step: "sv_step sv sv'" using sv_run [of sv an i] by simp
  have now: "an_now an \<le> sv_clock sv1" by (simp add: sv1_def)
  have tk: "task_ok sv0 sv i tk" "i \<le> ops_next_id (sv_ops sv)" using inv Some by blast+
  have own1: "carries_own sv1 i tk (tk_at tk)" using tk(1) by (simp add: task_ok_def carries_own_def own_settlement_def sv1_def)
  have le1: "sv_le J sv sv1" for J by (simp add: sv_le_def sv1_def split: option.splits)
  have le2: "sv_le J sv2 sv'" for J by (simp add: sv_le_def sv'_def split: option.splits)
  have le: "sv_le J sv sv'" if "sv_le J sv1 sv2" for J using sv_le_trans [OF sv_le_trans [OF le1 that] le2] .
  have others: "sv_le (- {i}) sv sv'" using le task_step_le [OF st now own1] by blast
  have kept: "sv_le UNIV sv sv'" if "holds_place pt'" using le task_step_le_kept [OF st now that] by blast
  have steps: "sv_steps sv0 sv'" using inv step by (meson rtranclp.rtrancl_into_rtrancl)
  have tasks: "sv_tasks sv' = (sv_tasks sv)(i \<mapsto> tk\<lparr>tk_at := pt'\<rparr>)"
    using task_step_frame(1) [OF st] by (simp add: sv'_def sv1_def)
  have calls: "sv_calls sv' = sv_calls sv \<or> (\<exists>pre se. tk_at tk = AtBegin pre se \<and> pt' = AtOperate se
      \<and> sv_calls sv' = sv_calls sv @ [(i, tk_receiver tk, tk_intent tk, pre)])"
    using task_step_calls [OF st] by (simp add: sv'_def sv1_def)
  have none: "sv_agent sv' = None \<longleftrightarrow> sv_agent sv = None"
    using task_step_frame(3) [OF st] by (simp add: sv'_def sv1_def)
  have ops: "ops_inv (sv_ops sv') \<and> ops_next_id (sv_ops sv') = ops_next_id (sv_ops sv)"
  proof -
    have "sv_ops sv' = sv_ops sv \<or> (\<exists>change r. lawful change \<and> transition change i (sv_ops sv) = (r, sv_ops sv'))"
      using task_step_ops [OF st] by (simp add: sv'_def sv1_def)
    then show ?thesis
    proof
      assume "\<exists>change r. lawful change \<and> transition change i (sv_ops sv) = (r, sv_ops sv')"
      then obtain change r where tr: "lawful change" "transition change i (sv_ops sv) = (r, sv_ops sv')" by blast
      from tr(2) have "ops_next_id (sv_ops sv') = ops_next_id (sv_ops sv)" by (cases rule: transition_cases) simp_all
      with ops_inv_transition [OF _ tr] inv show ?thesis by simp
    qed (use inv in simp)
  qed
  have task_j: "task_ok sv0 sv' j tkj" if "task_ok sv0 sv j tkj" "j \<noteq> i" for j tkj
  proof (rule task_ok_kept [OF that(1) step others])
    show "j \<in> - {i}" using that(2) by simp
    show "j \<in> fst ` set (sv_calls sv') \<longleftrightarrow> j \<in> fst ` set (sv_calls sv)" using calls that(2) by auto
  qed
  have task_i: "task_ok sv0 sv' i (tk\<lparr>tk_at := pt'\<rparr>)"
  proof -
    have "carries_own sv2 i tk pt'" using task_step_carries [OF st own1 now] .
    then have "carries_own sv' i (tk\<lparr>tk_at := pt'\<rparr>) pt'"
      by (simp add: carries_own_def own_settlement_def sv'_def)
    moreover have "i \<notin> fst ` set (sv_calls sv')" if "unbegun pt'"
      using task_step_unbegun [OF st that] tk(1) by (auto simp: task_ok_def sv'_def sv1_def)
    moreover have "sv_agent sv' \<noteq> None \<and> agent_ok sv0 sv' i (tk\<lparr>tk_at := pt'\<rparr>) pt'" if "tk_owner tk = Agent l" for l
    proof -
      from tk(1) that obtain ag where ag: "sv_agent sv = Some ag" "agent_ok sv0 sv i tk (tk_at tk)"
        by (auto simp: task_ok_def)
      have "agent_ok sv0 sv' i tk pt'"
        using task_step_agent [OF st that sv1_def ag _ step _ _ _ others kept] inv
        by (simp add: sv'_def)
      moreover have "agent_ok sv0 sv' i (tk\<lparr>tk_at := pt'\<rparr>) pt' = agent_ok sv0 sv' i tk pt'"
        by (cases pt') simp_all
      ultimately show ?thesis using none ag(1) by simp
    qed
    ultimately show ?thesis by (simp add: task_ok_def)
  qed
  note r = ready_le [OF others] and u = undone_le [OF others] and d = recorded_le [OF others]
    and a = authorised_step [OF _ step] and k = counted_le [OF others]
  have call_j: "call_ok sv0 sv' (j, rc, it, pre)" if c: "call_ok sv0 sv (j, rc, it, pre)" and mem: "(j, rc, it, pre) \<in> set (sv_calls sv)" for j rc it pre
  proof -
    from c obtain tkj where tkj: "sv_tasks sv j = Some tkj" "tk_receiver tkj = rc" "tk_intent tkj = it"
      and ag: "\<And>l. tk_owner tkj = Agent l \<Longrightarrow>
        (\<exists>p. pre = Some p \<and> authorised sv0 sv j l rc it p \<and> dispatch_recorded sv j (Agent l) rc it p)
        \<and> ready sv \<and> (undone sv j \<or> counted sv j rc it)" by (auto simp: call_ok_def)
    have cnt: "undone sv' j \<or> counted sv' j rc it" if "ready sv" "undone sv j \<or> counted sv j rc it" "tk_owner tkj = Agent l" for l
    proof (cases "j = i")
      case False
      with that u k [of j] show ?thesis by auto
    next
      case True
      then have same: "tkj = tk" using tkj(1) Some by simp
      have called: "\<not> unbegun (tk_at tk)" using tk(1) mem True unfolding task_ok_def by force
      show ?thesis
      proof (cases "\<exists>se rn shown. tk_at tk = AtSettle se rn shown \<and> rn_dispatch rn = NotDispatched")
        case rel: True
        with tk(1) that(3) same have "undone sv i" by (auto simp: task_ok_def)
        with u True show ?thesis by simp
      next
        case False
        then have "sv_le UNIV sv sv'" using le task_step_le_called [OF st now called] by blast
        with that(1,2) counted_le [OF this UNIV_I] u show ?thesis by blast
      qed
    qed
    obtain tk' where tk': "sv_tasks sv' j = Some tk'" "tk_receiver tk' = rc" "tk_intent tk' = it" "tk_owner tk' = tk_owner tkj"
      using tkj Some by (cases "j = i") (auto simp: tasks)
    have "(\<exists>p. pre = Some p \<and> authorised sv0 sv' j l rc it p \<and> dispatch_recorded sv' j (Agent l) rc it p)
        \<and> ready sv' \<and> (undone sv' j \<or> counted sv' j rc it)" if l: "tk_owner tkj = Agent l" for l
      using ag [OF l] cnt [OF _ _ l] a d r by blast
    with tk' show ?thesis by (auto simp: call_ok_def)
  qed
  have call_new: "call_ok sv0 sv' (i, tk_receiver tk, tk_intent tk, pre)" if "tk_at tk = AtBegin pre se" "pt' = AtOperate se" for pre se
  proof -
    have keep: "sv_le UNIV sv sv'" using le apart_le [OF st] that(1) by simp
    have ag: "(\<exists>p. pre = Some p \<and> authorised sv0 sv' i l (tk_receiver tk) (tk_intent tk) p
          \<and> dispatch_recorded sv' i (Agent l) (tk_receiver tk) (tk_intent tk) p)
        \<and> ready sv' \<and> (undone sv' i \<or> counted sv' i (tk_receiver tk) (tk_intent tk))" if l: "tk_owner tk = Agent l" for l
    proof -
      have "agent_ok sv0 sv i tk (AtBegin pre se)" using tk(1) l that(1) \<open>tk_at tk = AtBegin pre se\<close> by (simp add: task_ok_def)
      with l show ?thesis
        using a d r counted_le [OF keep UNIV_I] by (auto simp: label_of_def)
    qed
    then show ?thesis unfolding call_ok_def tasks by simp
  qed
  have "call_ok sv0 sv' c" if "c \<in> set (sv_calls sv')" for c
  proof -
    obtain j rc it pre where c: "c = (j, rc, it, pre)" by (metis prod_cases4)
    show ?thesis
    proof (cases "c \<in> set (sv_calls sv)")
      case True
      with inv c call_j show ?thesis by blast
    next
      case False
      with that calls call_new show ?thesis by auto
    qed
  qed
  moreover have "distinct (map fst (sv_calls sv'))"
    using calls inv tk(1) by (auto simp: task_ok_def)
  moreover have "j \<le> ops_next_id (sv_ops sv') \<and> task_ok sv0 sv' j tkj" if "sv_tasks sv' j = Some tkj" for j tkj
    using that task_i task_j inv tk(2) ops by (cases "j = i") (auto simp: tasks)
  ultimately show ?thesis using steps ops unfolding run svc_inv_def by blast
qed

section \<open>The invariant is kept by every call\<close>

lemma submit_agent:
  assumes "submit retained tick owner r sub sv = (res, sv')"
  shows "(case sv_agent sv of None \<Rightarrow> sv_agent sv' = None
     | Some ag \<Rightarrow> (\<exists>w. sv_agent sv' = Some (ag\<lparr>ag_writes := w\<rparr>)))"
    "sv_clock sv' = sv_clock sv" "sv_calls sv' = sv_calls sv" "sv_outcomes sv' = sv_outcomes sv"
proof -
  have same: "ag\<lparr>ag_writes := ag_writes ag\<rparr> = ag" for ag :: agent_state by simp
  show "(case sv_agent sv of None \<Rightarrow> sv_agent sv' = None
     | Some ag \<Rightarrow> (\<exists>w. sv_agent sv' = Some (ag\<lparr>ag_writes := w\<rparr>)))"
    "sv_clock sv' = sv_clock sv" "sv_calls sv' = sv_calls sv" "sv_outcomes sv' = sv_outcomes sv"
    using assms same
    by (auto simp: submit_def Let_def split: prod.splits option.splits admit_result.splits sum.splits admission.splits;
        metis)+
qed

lemma submit_le: "sv_le J sv (snd (submit retained tick owner r sub sv))"
proof -
  obtain res sv' where s: "submit retained tick owner r sub sv = (res, sv')" by fastforce
  from submit_agent [OF s] s show ?thesis
    by (auto simp: sv_le_def split: option.splits)
qed

lemma admit_agent_needs_path:
  "admit retained None (Agent l) r sub ops = (res, ops', caps') \<Longrightarrow> res \<noteq> Admit (Ok (New sn))"
  by (auto simp: admit_def Let_def split: option.splits if_splits prod.splits)

lemma svc_inv_submit:
  assumes "svc_inv sv0 sv" "ops_next_id (sv_ops sv) \<noteq> - 1"
  shows "svc_inv sv0 (snd (submit retained tick owner r sub sv))"
proof -
  note inv = assms(1) [unfolded svc_inv_def]
  obtain res sv' where s: "submit retained tick owner r sub sv = (res, sv')" by fastforce
  have step: "sv_step sv sv'" using sv_submit [OF assms(2), of retained tick owner r sub] s by simp
  have le: "sv_le J sv sv'" for J using submit_le s by (metis snd_conv)
  define caps where "caps = map_option (\<lambda>ag. (ag_limits ag, tick, ag_writes ag)) (sv_agent sv)"
  obtain ops' caps' where ad: "admit retained caps owner r sub (sv_ops sv) = (res, ops', caps')"
    and ops: "sv_ops sv' = ops'"
    using s by (auto simp: submit_def caps_def Let_def
      split: prod.splits admit_result.splits sum.splits admission.splits)
  have ops_inv': "ops_inv ops'" using ops_inv_admit [OF _ assms(2) ad] inv by blast
  have same: "svc_inv sv0 sv'" if "sv_tasks sv' = sv_tasks sv" "ops' = sv_ops sv"
    using svc_inv_quiet [OF assms(1) step le] that ops ops_inv' submit_agent(3) [OF s] by simp
  have "svc_inv sv0 sv'"
  proof (cases "\<exists>sn. res = Admit (Ok (New sn))")
    case False
    then have "sv_tasks sv' = sv_tasks sv"
      using s by (auto simp: submit_def Let_def split: prod.splits admit_result.splits sum.splits admission.splits)
    moreover have "ops' = sv_ops sv" using admit_spec [OF _ ad] inv False by auto
    ultimately show ?thesis by (rule same)
  next
    case True
    then obtain sn st where res: "res = Admit (Ok (New sn))"
      and ins: "insert_operation retained owner r sub st (sv_ops sv) = (sn, ops')"
      using admit_spec [OF _ ad] inv by auto
    note spec = insert_operation_spec [OF _ assms(2) ins]
    have i: "sn_id sn = ops_next_id (sv_ops sv) + 1" "ops_next_id ops' = ops_next_id (sv_ops sv) + 1"
      using spec(1,2) inv by (simp_all add: new_snapshot_def)
    have lt: "ops_next_id (sv_ops sv) < ops_next_id (sv_ops sv) + 1" using word_succ_gt [OF assms(2)] .
    define tk where "tk = \<lparr>tk_receiver = sn_receiver sn, tk_intent = sn_intent sn, tk_owner = owner, tk_at = AtStart\<rparr>"
    have tasks: "sv_tasks sv' = (sv_tasks sv)(sn_id sn \<mapsto> tk)"
      using s ad res by (auto simp: submit_def caps_def Let_def tk_def split: prod.splits)
    have fresh: "sv_tasks sv (sn_id sn) = None"
    proof (rule ccontr)
      assume "sv_tasks sv (sn_id sn) \<noteq> None"
      with inv have "sn_id sn \<le> ops_next_id (sv_ops sv)" by blast
      with i(1) lt show False by simp
    qed
    have called: "c \<in> set (sv_calls sv) \<Longrightarrow> fst c \<noteq> sn_id sn" for c
      using inv fresh unfolding call_ok_def by fastforce
    have none: "sv_agent sv' = None \<longleftrightarrow> sv_agent sv = None"
      using submit_agent(1) [OF s] by (auto split: option.splits)
    have old: "task_ok sv0 sv' j tkj" if "task_ok sv0 sv j tkj" for j tkj
      using task_ok_kept [OF that step le UNIV_I] submit_agent(3) [OF s] by simp
    have agent: "sv_agent sv' \<noteq> None" if "owner = Agent l" for l
      using admit_agent_needs_path [of retained l r sub "sv_ops sv" res ops' caps' sn] ad res that none
      by (auto simp: caps_def)
    have new: "task_ok sv0 sv' (sn_id sn) tk"
      using called agent submit_agent(3) [OF s] by (fastforce simp: task_ok_def tk_def carries_own_def)
    have calls: "call_ok sv0 sv' c" if "c \<in> set (sv_calls sv)" for c
      using call_ok_kept [OF _ step le, of sv0 c] called [OF that] that inv by (simp add: tasks)
    have "sv_steps sv0 sv'" using inv step by (meson rtranclp.rtrancl_into_rtrancl)
    moreover have "j \<le> ops_next_id (sv_ops sv') \<and> task_ok sv0 sv' j tkj" if "sv_tasks sv' j = Some tkj" for j tkj
    proof (cases "j = sn_id sn")
      case True
      with that new i ops show ?thesis by (simp add: tasks)
    next
      case False
      with that inv have "j \<le> ops_next_id (sv_ops sv)" "task_ok sv0 sv j tkj" by (auto simp: tasks)
      with old lt i(2) ops show ?thesis by (metis order.trans less_imp_le)
    qed
    ultimately show ?thesis
      using ops ops_inv' calls inv submit_agent(3) [OF s] unfolding svc_inv_def by simp
  qed
  with s show ?thesis by simp
qed

lemma svc_inv_step:
  assumes "svc_inv sv0 sv" "sv_step sv sv'"
  shows "svc_inv sv0 sv'"
  using assms(2)
proof (cases rule: sv_step.cases)
  case (sv_submit retained tick owner r sub)
  with svc_inv_submit [OF assms(1)] show ?thesis by simp
next
  case (sv_run an i)
  with svc_inv_run [OF assms(1)] show ?thesis by simp
next
  case (sv_cancel viewer i)
  obtain res ops' where c: "cancel id viewer i (sv_ops sv) = (res, ops')" by fastforce
  have inv: "ops_inv (sv_ops sv)" using assms(1) by (simp add: svc_inv_def)
  have "ops_next_id ops' = ops_next_id (sv_ops sv)"
    using cancel_is_transition [OF c] by (auto elim: transition_cases)
  with sv_cancel c ops_inv_cancel [OF inv c] show ?thesis
    by (intro svc_inv_quiet [OF assms]) (auto simp: service_cancel_def intro: sv_le_other)
next
  case (sv_reload now read recorded_at answered)
  with assms(1) show ?thesis
    by (intro svc_inv_quiet [OF assms])
       (auto simp: reload_policy_def svc_inv_def sv_le_def split: option.splits)
next
  case (sv_dry_run tick label)
  with assms(1) show ?thesis
    by (intro svc_inv_quiet [OF assms])
       (auto simp: charge_dry_run_def svc_inv_def sv_le_def split: option.splits prod.splits)
next
  case sv_close
  with assms(1) show ?thesis
    by (intro svc_inv_quiet [OF assms]) (auto simp: close_service_def svc_inv_def intro: sv_le_other)
next
  case (sv_panic i)
  show ?thesis
  proof (cases "sv_tasks sv i")
    case None
    with sv_panic assms(1) show ?thesis by (simp add: panic_task_def)
  next
    case (Some tk)
    note inv = assms(1) [unfolded svc_inv_def]
    have le: "sv_le UNIV sv sv'" using sv_panic by (auto simp: panic_task_def intro: sv_le_other split: option.splits)
    have calls: "sv_calls sv' = sv_calls sv" "sv_ops sv' = sv_ops sv"
      using sv_panic by (auto simp: panic_task_def split: option.splits)
    have "sv_tasks sv' i = Some tk \<or> sv_tasks sv' i = Some (tk\<lparr>tk_at := AtEnd\<rparr>)"
      and other: "j \<noteq> i \<Longrightarrow> sv_tasks sv' j = sv_tasks sv j" for j
      using sv_panic Some by (auto simp: panic_task_def)
    moreover have "task_ok sv0 sv' i (tk\<lparr>tk_at := AtEnd\<rparr>)"
      using inv Some agent_none_le [OF le] by (auto simp: task_ok_def carries_own_def)
    moreover have kept: "task_ok sv0 sv' j tkj" if "task_ok sv0 sv j tkj" for j tkj
      using task_ok_kept [OF that assms(2) le UNIV_I] calls by simp
    ultimately have tasks: "j \<le> ops_next_id (sv_ops sv') \<and> task_ok sv0 sv' j tkj" if "sv_tasks sv' j = Some tkj" for j tkj
      using that inv Some calls(2) by (cases "j = i") auto
    have "call_ok sv0 sv' c" if c: "c \<in> set (sv_calls sv)" for c
    proof (rule call_ok_kept [OF _ assms(2) le])
      show "call_ok sv0 sv c" using inv c by blast
      fix tk0 assume "sv_tasks sv (fst c) = Some tk0"
      with sv_panic Some show "\<exists>tk1. sv_tasks sv' (fst c) = Some tk1 \<and> tk_receiver tk1 = tk_receiver tk0
          \<and> tk_intent tk1 = tk_intent tk0 \<and> tk_owner tk1 = tk_owner tk0"
        by (cases "fst c = i") (auto simp: panic_task_def)
    qed
    moreover have "sv_steps sv0 sv'" using inv assms(2) by (meson rtranclp.rtrancl_into_rtrancl)
    ultimately show ?thesis using tasks inv calls unfolding svc_inv_def by simp
  qed
qed

end
