(* ===== verification/Service_Tasks.thy ===== *)
theory Service_Tasks
  imports Service_Invariant
begin

text \<open>
  The tasks of the service against its table: every running operation has a task that will end
  it, the count of operations in flight is the count of tasks that have not ended, a task ends
  after a bounded number of its own steps, and what an operation that reached the session
  finally reports is what the session answered.
\<close>

section \<open>The shape of a step\<close>

lemma cancel_entry:
  assumes "service_cancel viewer i sv = (res, sv')"
  shows "sv' = sv\<lparr>sv_ops := sv_ops sv'\<rparr> \<and>
    (\<forall>j. op_lookup (sv_ops sv') j = op_lookup (sv_ops sv) j \<or>
       (\<exists>e sn. op_lookup (sv_ops sv) j = Some e \<and> change_cancel (en_snapshot e) = Some sn
          \<and> op_lookup (sv_ops sv') j = Some (e\<lparr>en_snapshot := sn\<rparr>)))"
proof -
  obtain ops' where c: "cancel id viewer i (sv_ops sv) = (res, ops')" "sv' = sv\<lparr>sv_ops := ops'\<rparr>"
    using assms by (auto simp: service_cancel_def split: prod.splits)
  from cancel_is_transition [OF c(1)] have "ops' = sv_ops sv \<or> (\<exists>r. transition change_cancel i (sv_ops sv) = (r, ops'))" by blast
  then show ?thesis
  proof
    assume "\<exists>r. transition change_cancel i (sv_ops sv) = (r, ops')"
    then obtain r where "transition change_cancel i (sv_ops sv) = (r, ops')" ..
    then show ?thesis using c(2) by (cases rule: transition_cases) auto
  qed (use c(2) in auto)
qed

lemma submit_shape:
  assumes "svc_inv sv0 sv" "ops_next_id (sv_ops sv) \<noteq> - 1" "submit retained tick owner r sub sv = (res, sv')"
  shows "sv_calls sv' = sv_calls sv \<and> sv_outcomes sv' = sv_outcomes sv \<and>
    (sv_ops sv' = sv_ops sv \<and> sv_tasks sv' = sv_tasks sv \<and> sv_in_flight sv' = sv_in_flight sv \<or>
     (\<exists>i tk e. sv_tasks sv i = None \<and> op_lookup (sv_ops sv') i = Some e \<and> sv_tasks sv' = (sv_tasks sv)(i \<mapsto> tk)
        \<and> tk_at tk = AtStart \<and> tk_owner tk = en_owner e \<and> sv_in_flight sv' = sv_in_flight sv + 1
        \<and> (\<forall>j. j \<noteq> i \<longrightarrow> op_lookup (sv_ops sv') j = op_lookup (sv_ops sv) j \<or> op_lookup (sv_ops sv') j = None)))"
proof -
  note inv = assms(1) [unfolded svc_inv_def]
  define caps where "caps = map_option (\<lambda>ag. (ag_limits ag, tick, ag_writes ag)) (sv_agent sv)"
  obtain ops' caps' where ad: "admit retained caps owner r sub (sv_ops sv) = (res, ops', caps')" "sv_ops sv' = ops'"
    using assms(3) by (auto simp: submit_def caps_def Let_def
      split: prod.splits admit_result.splits sum.splits admission.splits)
  have ops_inv: "ops_inv (sv_ops sv)" using inv by blast
  have "sv_ops sv' = sv_ops sv \<and> sv_tasks sv' = sv_tasks sv \<and> sv_in_flight sv' = sv_in_flight sv \<or>
     (\<exists>i tk e. sv_tasks sv i = None \<and> op_lookup (sv_ops sv') i = Some e \<and> sv_tasks sv' = (sv_tasks sv)(i \<mapsto> tk)
        \<and> tk_at tk = AtStart \<and> tk_owner tk = en_owner e \<and> sv_in_flight sv' = sv_in_flight sv + 1
        \<and> (\<forall>j. j \<noteq> i \<longrightarrow> op_lookup (sv_ops sv') j = op_lookup (sv_ops sv) j \<or> op_lookup (sv_ops sv') j = None))"
  proof (cases "\<exists>sn. res = Admit (Ok (New sn))")
    case False
    then have "sv_tasks sv' = sv_tasks sv \<and> sv_in_flight sv' = sv_in_flight sv"
      using assms(3) by (auto simp: submit_def Let_def split: prod.splits admit_result.splits sum.splits admission.splits)
    with admit_spec [OF ops_inv ad(1)] ad(2) False show ?thesis by blast
  next
    case True
    then obtain sn st where res: "res = Admit (Ok (New sn))"
      and ins: "insert_operation retained owner r sub st (sv_ops sv) = (sn, ops')"
      using admit_spec [OF ops_inv ad(1)] by auto
    note spec = insert_operation_spec [OF ops_inv assms(2) ins]
    have id: "sn_id sn = ops_next_id (sv_ops sv) + 1" using spec(1) by (simp add: new_snapshot_def)
    have tasks: "sv_tasks sv' = (sv_tasks sv)(sn_id sn \<mapsto>
        \<lparr>tk_receiver = sn_receiver sn, tk_intent = sn_intent sn, tk_owner = owner, tk_at = AtStart\<rparr>)"
      "sv_in_flight sv' = sv_in_flight sv + 1"
      using assms(3) ad(1) res by (auto simp: submit_def caps_def Let_def split: prod.splits)
    have "sv_tasks sv (sn_id sn) = None"
      using inv word_succ_gt [OF assms(2)] id by (metis leD not_None_eq)
    moreover have "op_lookup ops' j = op_lookup (sv_ops sv) j \<or> op_lookup ops' j = None" if "j \<noteq> sn_id sn" for j
      using spec(4) id evict_lookup [OF ops_inv, of retained j] that by auto
    ultimately show ?thesis using spec(4) id tasks ad(2)
      by (intro disjI2 exI [of _ "sn_id sn"]
          exI [of _ "\<lparr>tk_receiver = sn_receiver sn, tk_intent = sn_intent sn, tk_owner = owner, tk_at = AtStart\<rparr>"]
          exI [of _ "\<lparr>en_owner = owner, en_key = os_idempotency_key sub, en_snapshot = sn\<rparr>"]) simp
  qed
  with submit_agent(3,4) [OF assms(3)] show ?thesis by simp
qed

text \<open>A step of the service is one of these.\<close>

lemma sv_step_shape:
  assumes "svc_inv sv0 sv" "sv_step sv sv'"
  obtains (quiet) "sv_tasks sv' = sv_tasks sv" "sv_in_flight sv' = sv_in_flight sv" "sv_calls sv' = sv_calls sv"
      "sv_outcomes sv' = sv_outcomes sv"
      "\<forall>j. op_lookup (sv_ops sv') j = op_lookup (sv_ops sv) j \<or>
         (\<exists>e sn. op_lookup (sv_ops sv) j = Some e \<and> change_cancel (en_snapshot e) = Some sn
            \<and> op_lookup (sv_ops sv') j = Some (e\<lparr>en_snapshot := sn\<rparr>))"
  | (admitted) i tk e where "sv_tasks sv i = None" "op_lookup (sv_ops sv') i = Some e"
      "sv_tasks sv' = (sv_tasks sv)(i \<mapsto> tk)" "tk_at tk = AtStart" "tk_owner tk = en_owner e"
      "sv_in_flight sv' = sv_in_flight sv + 1" "sv_calls sv' = sv_calls sv" "sv_outcomes sv' = sv_outcomes sv"
      "\<forall>j. j \<noteq> i \<longrightarrow> op_lookup (sv_ops sv') j = op_lookup (sv_ops sv) j \<or> op_lookup (sv_ops sv') j = None"
  | (ran) an i tk pt sv2 where "sv_tasks sv i = Some tk"
      "task_step an i tk (tk_at tk) (sv\<lparr>sv_clock := max (sv_clock sv) (an_now an)\<rparr>) = (pt, sv2)"
      "sv' = sv2\<lparr>sv_tasks := (sv_tasks sv)(i \<mapsto> tk\<lparr>tk_at := pt\<rparr>)\<rparr>"
  | (panicked) i tk where "sv_tasks sv i = Some tk" "tk_at tk \<noteq> Ended"
      "sv' = sv\<lparr>sv_tasks := (sv_tasks sv)(i \<mapsto> tk\<lparr>tk_at := AtEnd\<rparr>)\<rparr>"
  using assms(2)
proof (cases rule: sv_step.cases)
  case (sv_submit retained tick owner r sub)
  obtain res where "submit retained tick owner r sub sv = (res, sv')" using sv_submit by (metis prod.collapse)
  from submit_shape [OF assms(1) sv_submit(2) this] show ?thesis
    using quiet admitted by metis
next
  case (sv_run an i)
  show ?thesis
  proof (cases "sv_tasks sv i")
    case None
    with sv_run quiet show ?thesis by (simp add: run_task_def)
  next
    case (Some tk)
    obtain pt sv2 where st: "task_step an i tk (tk_at tk) (sv\<lparr>sv_clock := max (sv_clock sv) (an_now an)\<rparr>) = (pt, sv2)"
      by fastforce
    with task_step_frame(1) [OF st] sv_run Some ran show ?thesis by (simp add: run_task_def)
  qed
next
  case (sv_cancel viewer i)
  obtain res where c: "service_cancel viewer i sv = (res, sv')" using sv_cancel by (metis prod.collapse)
  from cancel_entry [OF this] have "sv' = sv\<lparr>sv_ops := sv_ops sv'\<rparr>" by simp
  then have "sv_tasks sv' = sv_tasks sv" "sv_in_flight sv' = sv_in_flight sv" "sv_calls sv' = sv_calls sv"
    "sv_outcomes sv' = sv_outcomes sv" by (metis service.select_convs service.surjective service.update_convs(1))+
  with cancel_entry [OF c] quiet show ?thesis by simp
next
  case (sv_reload now read recorded_at answered)
  then show ?thesis by (intro quiet) (auto simp: reload_policy_def split: option.splits)
next
  case (sv_dry_run tick label)
  then show ?thesis by (intro quiet) (auto simp: charge_dry_run_def split: option.splits prod.splits)
next
  case sv_close
  then show ?thesis by (intro quiet) (auto simp: close_service_def)
next
  case (sv_panic i)
  then show ?thesis
    using quiet panicked by (cases "sv_tasks sv i") (auto simp: panic_task_def split: if_splits)
qed

section \<open>What a step of a task does to the table\<close>

lemma task_step_entry:
  assumes "task_step an i tk pt sv = (pt', sv')" "op_lookup (sv_ops sv') j = Some e'"
  shows "\<exists>e. op_lookup (sv_ops sv) j = Some e \<and> en_owner e' = en_owner e \<and>
    (e' = e \<or> i = j \<and> \<not> is_terminal (sn_status (en_snapshot e)) \<and>
      ((\<exists>rn shown. pt = AtFinish rn shown \<and> change_finish (show_as shown rn) (en_snapshot e) = Some (en_snapshot e'))
       \<or> (\<exists>rn. pt = AtFinishPlain rn \<and> change_finish rn (en_snapshot e) = Some (en_snapshot e'))
       \<or> pt = AtEnd \<and> change_drop (en_snapshot e) = Some (en_snapshot e')
       \<or> (\<exists>pre se. pt = AtBegin pre se) \<and> change_begin (en_snapshot e) = Some (en_snapshot e')
       \<or> unbegun pt \<and> sv_calls sv' = sv_calls sv))"
proof -
  have tr: "\<exists>e. op_lookup (sv_ops sv) j = Some e \<and> en_owner e' = en_owner e \<and>
      (e' = e \<or> i = j \<and> \<not> is_terminal (sn_status (en_snapshot e)) \<and> change (en_snapshot e) = Some (en_snapshot e'))"
    if t: "transition change i (sv_ops sv) = (r, sv_ops sv')" and l: "lawful change" for change r
    using t
  proof (cases rule: transition_cases)
    case (applied e sn)
    with assms(2) l show ?thesis by (auto simp: lawful_def split: if_splits)
  qed (use assms(2) in auto)
  have drop: "transition change_drop i (sv_ops sv) = (fst (transition change_drop i (sv_ops sv)), drop_task i (sv_ops sv))"
    by (simp add: drop_task_def)
  have fin: "transition (change_finish rn) i (sv_ops sv)
      = (fst (transition (change_finish rn) i (sv_ops sv)), snd (finish i rn (sv_ops sv)))" for rn
    by (cases "transition (change_finish rn) i (sv_ops sv)") (simp add: finish_def)
  show ?thesis
  proof (cases pt)
    case (AtRefuse rn)
    with assms(1) fin [of rn] tr [of "change_finish rn"] show ?thesis by fastforce
  next
    case (AtMove d dg p se st)
    obtain r ops' where t: "transition change_allow i (sv_ops sv) = (r, ops')" by fastforce
    with AtMove assms(1) have "sv_ops sv' = ops'" "sv_calls sv' = sv_calls sv"
      by (auto simp: with_agent_def split: step_splits)
    with t tr [of change_allow] AtMove show ?thesis by fastforce
  next
    case (AtBegin pre se)
    obtain r ops' where t: "transition change_begin i (sv_ops sv) = (r, ops')" by fastforce
    with AtBegin assms(1) have "sv_ops sv' = ops'" by (auto simp: begin_step_def begin_session_def split: step_splits)
    with t tr [of change_begin] AtBegin show ?thesis by fastforce
  next
    case (AtFinish rn shown)
    with assms(1) have "sv_ops sv' = snd (finish i (show_as shown rn) (sv_ops sv))" by (auto split: step_splits)
    with AtFinish fin [of "show_as shown rn"] tr [of "change_finish (show_as shown rn)"] show ?thesis by fastforce
  next
    case (AtFinishPlain rn)
    with assms(1) have "sv_ops sv' = snd (finish i rn (sv_ops sv))" by auto
    with AtFinishPlain fin [of rn] tr [of "change_finish rn"] show ?thesis by fastforce
  next
    case AtEnd
    with assms(1) have "sv_ops sv' = drop_task i (sv_ops sv)" by auto
    with AtEnd drop tr [of change_drop] show ?thesis by fastforce
  qed (use assms in \<open>auto simp: step_defs split: step_splits\<close>)
qed

lemma task_step_ended:
  assumes "task_step an i tk pt sv = (pt', sv')"
  shows "pt' = Ended \<longleftrightarrow> pt = AtEnd \<or> pt = Ended"
    "sv_in_flight sv' = (if pt = AtEnd then sv_in_flight sv - 1 else sv_in_flight sv)"
  using assms by (cases pt; auto simp: step_defs operator_write_def judge_step_def append_decided_def
    append_dispatching_def operator_decided_def split: step_splits judged.splits)+

section \<open>Every running operation has a task\<close>

definition attended :: "service \<Rightarrow> bool" where
  "attended sv \<longleftrightarrow> (\<forall>i e. op_lookup (sv_ops sv) i = Some e \<longrightarrow>
     (\<exists>tk. sv_tasks sv i = Some tk \<and> tk_owner tk = en_owner e \<and> (entry_running e \<longrightarrow> tk_at tk \<noteq> Ended)))"

lemma change_cancel_running: "change_cancel sn = Some sn' \<Longrightarrow> is_cancellable (sn_status sn) \<and> \<not> is_terminal (sn_status sn)"
  by (auto simp: change_cancel_def cancellable_running split: if_splits)

lemma change_drop_ends: "change_drop sn = Some sn' \<Longrightarrow> is_terminal (sn_status sn')"
  by (auto simp: change_drop_def Let_def split: if_splits)

lemma drop_entry_ended:
  assumes "task_step an i tk AtEnd sv = (pt', sv')" "op_lookup (sv_ops sv') i = Some e"
  shows "\<not> entry_running e"
proof -
  have ops: "sv_ops sv' = drop_task i (sv_ops sv)" using assms(1) by auto
  obtain r ops' where t: "transition change_drop i (sv_ops sv) = (r, ops')" by fastforce
  then have "sv_ops sv' = ops'" using ops by (simp add: drop_task_def)
  with t assms(2) show ?thesis
    by (auto simp: transition_def entry_running_def change_drop_def Let_def map_of_map_snapshot split: option.splits if_splits)
qed

lemma attended_step:
  assumes "svc_inv sv0 sv" "sv_step sv sv'" "attended sv"
  shows "attended sv'"
  using assms(1,2)
proof (cases rule: sv_step_shape)
  case quiet
  show ?thesis
    unfolding attended_def
  proof (intro allI impI)
    fix i e assume e: "op_lookup (sv_ops sv') i = Some e"
    with quiet(5) consider "op_lookup (sv_ops sv) i = Some e"
      | e0 sn where "op_lookup (sv_ops sv) i = Some e0" "change_cancel (en_snapshot e0) = Some sn" "e = e0\<lparr>en_snapshot := sn\<rparr>"
      by (metis option.inject)
    then obtain e0 where "op_lookup (sv_ops sv) i = Some e0" "en_owner e = en_owner e0"
      "entry_running e \<longrightarrow> entry_running e0"
      by cases (auto simp: entry_running_def dest: change_cancel_running)
    with assms(3) quiet(1) show "\<exists>tk. sv_tasks sv' i = Some tk \<and> tk_owner tk = en_owner e
        \<and> (entry_running e \<longrightarrow> tk_at tk \<noteq> Ended)" by (auto simp: attended_def)
  qed
next
  case (admitted i tk e)
  with assms(3) show ?thesis by (auto simp: attended_def)
next
  case (ran an i tk pt sv2)
  show ?thesis
    unfolding attended_def
  proof (intro allI impI)
    fix j e assume e: "op_lookup (sv_ops sv') j = Some e"
    with ran(3) have e2: "op_lookup (sv_ops sv2) j = Some e" by simp
    from task_step_entry [OF ran(2) this] obtain e0 where e0: "op_lookup (sv_ops sv) j = Some e0"
      "en_owner e = en_owner e0" "entry_running e \<longrightarrow> entry_running e0" by (auto simp: entry_running_def)
    with assms(3) obtain tkj where tkj: "sv_tasks sv j = Some tkj" "tk_owner tkj = en_owner e"
      "entry_running e \<longrightarrow> tk_at tkj \<noteq> Ended" by (fastforce simp: attended_def)
    have "pt \<noteq> Ended" if "j = i" "entry_running e"
    proof
      assume "pt = Ended"
      with task_step_ended(1) [OF ran(2)] tkj that ran(1) have "tk_at tk = AtEnd" by auto
      with drop_entry_ended ran(2) e2 that show False by auto
    qed
    with tkj ran show "\<exists>tk. sv_tasks sv' j = Some tk \<and> tk_owner tk = en_owner e \<and> (entry_running e \<longrightarrow> tk_at tk \<noteq> Ended)"
      by (cases "j = i") auto
  qed
next
  case (panicked i tk)
  with assms(3) show ?thesis by (fastforce simp: attended_def)
qed

section \<open>The count of operations in flight\<close>

definition unended :: "service \<Rightarrow> operation_id set" where
  "unended sv = {i. \<exists>tk. sv_tasks sv i = Some tk \<and> tk_at tk \<noteq> Ended}"

definition in_flight_ok :: "service \<Rightarrow> bool" where
  "in_flight_ok sv \<longleftrightarrow> finite (dom (sv_tasks sv)) \<and> sv_in_flight sv = card (unended sv)"

lemma finite_unended: "finite (dom (sv_tasks sv)) \<Longrightarrow> finite (unended sv)"
  by (rule finite_subset [of _ "dom (sv_tasks sv)"]) (auto simp: unended_def)

lemma in_flight_step:
  assumes "svc_inv sv0 sv" "sv_step sv sv'" "in_flight_ok sv"
  shows "in_flight_ok sv'"
proof -
  have fin: "finite (unended sv)" using assms(3) finite_unended by (simp add: in_flight_ok_def)
  show ?thesis
    using assms(1,2)
  proof (cases rule: sv_step_shape)
    case quiet
    with assms(3) show ?thesis by (simp add: in_flight_ok_def unended_def)
  next
    case (admitted i tk e)
    then have "unended sv' = insert i (unended sv)" "i \<notin> unended sv" by (auto simp: unended_def)
    with admitted(3,6) fin assms(3) show ?thesis by (simp add: in_flight_ok_def)
  next
    case (ran an i tk pt sv2)
    note ended = task_step_ended [OF ran(2)]
    show ?thesis
    proof (cases "tk_at tk = AtEnd")
      case True
      then have "unended sv' = unended sv - {i}" "i \<in> unended sv" using ran ended by (auto simp: unended_def)
      with True fin assms(3) ran(3) ended(2) show ?thesis by (simp add: in_flight_ok_def)
    next
      case False
      then have "unended sv' = unended sv" using ran ended(1) by (auto simp: unended_def)
      with False assms(3) ran(3) ended(2) show ?thesis by (simp add: in_flight_ok_def)
    qed
  next
    case (panicked i tk)
    then have "unended sv' = unended sv" by (auto simp: unended_def)
    with assms(3) panicked(3) show ?thesis by (simp add: in_flight_ok_def)
  qed
qed

section \<open>A task ends\<close>

fun rank :: "point \<Rightarrow> nat" where
  "rank AtStart = 15"
| "rank AtLease = 14"
| "rank AtDecide = 13"
| "rank (AtJudge _ _) = 12"
| "rank (AtMove _ _ _ _ _) = 11"
| "rank (AtDecidedRecord _ _ _ _ _) = 10"
| "rank AtOperatorWrite = 10"
| "rank (AtCheckAllowed _ _ _) = 9"
| "rank (AtOperatorDecided _ _) = 9"
| "rank (AtDispatchRecord _ _ _) = 8"
| "rank (AtOperatorDispatch _ _) = 8"
| "rank (AtBegin _ _) = 7"
| "rank (AtOperate _) = 6"
| "rank (AtSettle _ _ _) = 5"
| "rank (AtRefusedRecord _ _ _) = 5"
| "rank (AtFinish _ _) = 4"
| "rank (AtEndedAs _) = 3"
| "rank (AtWithdrawn _) = 3"
| "rank (AtRefuse _) = 3"
| "rank (AtRecordFinished _) = 2"
| "rank (AtRecordRefused _) = 2"
| "rank (AtFinishPlain _) = 2"
| "rank AtEnd = 1"
| "rank Ended = 0"

lemma rank_0 [simp]: "rank pt = 0 \<longleftrightarrow> pt = Ended"
  by (cases pt) simp_all

lemma rank_le: "rank pt \<le> 15"
  by (cases pt) simp_all

lemma task_step_rank:
  assumes "task_step an i tk pt sv = (pt', sv')"
  shows "rank pt' \<le> rank pt - 1"
  using assms by (cases pt; auto simp: step_defs operator_write_def judge_step_def append_decided_def
    append_dispatching_def operator_decided_def split: step_splits judged.splits)

lemma run_task_rank:
  assumes "sv_tasks sv i = Some tk"
  shows "\<exists>tk'. sv_tasks (run_task an i sv) i = Some tk' \<and> rank (tk_at tk') \<le> rank (tk_at tk) - 1"
proof -
  obtain pt sv2 where st: "task_step an i tk (tk_at tk) (sv\<lparr>sv_clock := max (sv_clock sv) (an_now an)\<rparr>) = (pt, sv2)"
    by fastforce
  with assms task_step_rank [OF st] show ?thesis by (simp add: run_task_def)
qed

lemma run_tasks_rank:
  "sv_tasks sv i = Some tk \<Longrightarrow>
   \<exists>tk'. sv_tasks (fold (\<lambda>an. run_task an i) ans sv) i = Some tk' \<and> rank (tk_at tk') \<le> rank (tk_at tk) - length ans"
proof (induction ans arbitrary: sv tk)
  case (Cons an ans)
  obtain tk1 where tk1: "sv_tasks (run_task an i sv) i = Some tk1" "rank (tk_at tk1) \<le> rank (tk_at tk) - 1"
    using run_task_rank [OF Cons.prems] by blast
  from Cons.IH [OF tk1(1)] tk1(2) show ?case by (auto intro: le_trans)
qed simp

section \<open>What is reported of an operation that reached the session\<close>

definition TASK_ENDED :: string where "TASK_ENDED = ''the operation task ended unexpectedly''"

text \<open>The reasons an agent may be given for an operation that reached the session.\<close>

definition fixed_text :: "string option \<Rightarrow> bool" where
  "fixed_text why \<longleftrightarrow> why = None \<or> why = Some TASK_ENDED \<or> (\<exists>oc. why = fixed_reason oc)"

definition called :: "service \<Rightarrow> operation_id \<Rightarrow> bool" where
  "called sv i \<longleftrightarrow> i \<in> fst ` set (sv_calls sv)"

definition honest_verdict :: "service \<Rightarrow> operation_id \<Rightarrow> principal \<Rightarrow> resolution \<Rightarrow> bool" where
  "honest_verdict sv i owner rn \<longleftrightarrow>
     is_terminal (rn_status rn) \<and> (rn_dispatch rn = NotDispatched \<longrightarrow> undone sv i)
     \<and> (owner \<noteq> Operator \<longrightarrow> fixed_text (rn_reason rn))"

fun reports :: "service \<Rightarrow> operation_id \<Rightarrow> principal \<Rightarrow> point \<Rightarrow> bool" where
  "reports sv i owner (AtBegin pre se) = (owner \<noteq> Operator \<longrightarrow> se \<noteq> None)"
| "reports sv i owner (AtOperate se) = (owner \<noteq> Operator \<longrightarrow> se \<noteq> None)"
| "reports sv i owner (AtSettle se rn shown) = honest_verdict sv i owner (show_as shown rn)"
| "reports sv i owner (AtFinish rn shown) = (called sv i \<longrightarrow> honest_verdict sv i owner (show_as shown rn))"
| "reports sv i owner (AtFinishPlain rn) = (called sv i \<longrightarrow> honest_verdict sv i owner rn)"
| "reports sv i owner _ = True"

definition entry_honest :: "service \<Rightarrow> operation_id \<Rightarrow> op_entry \<Rightarrow> bool" where
  "entry_honest sv i e \<longleftrightarrow>
     (called sv i \<longrightarrow> sn_status (en_snapshot e) = InSession \<or>
        (is_terminal (sn_status (en_snapshot e)) \<and> (sn_dispatch (en_snapshot e) = NotDispatched \<longrightarrow> undone sv i)
         \<and> (en_owner e \<noteq> Operator \<longrightarrow> fixed_text (sn_reason (en_snapshot e)))))"

definition honest :: "service \<Rightarrow> bool" where
  "honest sv \<longleftrightarrow>
     (\<forall>i tk. sv_tasks sv i = Some tk \<longrightarrow> reports sv i (tk_owner tk) (tk_at tk))
     \<and> (\<forall>i e. op_lookup (sv_ops sv) i = Some e \<longrightarrow> entry_honest sv i e)"

lemma honest_resolve:
  assumes "(i, oc) \<in> set (sv_outcomes sv)" "owner \<noteq> Operator \<longrightarrow> shown = fixed_reason oc"
  shows "honest_verdict sv i owner (show_as shown (resolve oc))"
proof -
  have "is_terminal (rn_status (show_as shown (resolve oc)))"
    using resolve_terminal [of oc] by (simp add: show_as_def split: option.split)
  moreover have "undone sv i" if "rn_dispatch (show_as shown (resolve oc)) = NotDispatched"
    using assms(1) that by (auto simp: undone_def show_as_def split: option.splits)
  moreover have "fixed_text (rn_reason (show_as shown (resolve oc)))" if "owner \<noteq> Operator"
  proof -
    have "rn_reason (show_as (fixed_reason oc) (resolve oc)) = fixed_reason oc"
      by (cases oc) (simp_all add: show_as_def not_dispatched_def)
    with assms(2) that show ?thesis unfolding fixed_text_def by auto
  qed
  ultimately show ?thesis by (simp add: honest_verdict_def)
qed

lemma honest_verdict_mono:
  "honest_verdict sv i owner rn \<Longrightarrow> set (sv_outcomes sv) \<subseteq> set (sv_outcomes sv') \<Longrightarrow> honest_verdict sv' i owner rn"
  by (auto simp: honest_verdict_def undone_def)

lemma reports_kept:
  assumes "reports sv i owner pt" "set (sv_outcomes sv) \<subseteq> set (sv_outcomes sv')" "called sv' i \<longleftrightarrow> called sv i"
  shows "reports sv' i owner pt"
  using assms honest_verdict_mono [OF _ assms(2)] by (cases pt) auto

lemma entry_honest_kept:
  assumes "entry_honest sv i e" "set (sv_outcomes sv) \<subseteq> set (sv_outcomes sv')" "called sv' i \<longleftrightarrow> called sv i"
  shows "entry_honest sv' i e"
  using assms by (auto simp: entry_honest_def undone_def)

lemma task_step_outcomes:
  "task_step an i tk pt sv = (pt', sv') \<Longrightarrow> set (sv_outcomes sv) \<subseteq> set (sv_outcomes sv')"
  by (cases pt) (auto simp: step_defs split: step_splits)

lemma task_step_called:
  assumes "task_step an i tk pt sv = (pt', sv')"
  shows "j \<noteq> i \<Longrightarrow> called sv' j \<longleftrightarrow> called sv j"
    "\<forall>pre se. pt \<noteq> AtBegin pre se \<Longrightarrow> called sv' j \<longleftrightarrow> called sv j"
  using task_step_calls [OF assms] by (auto simp: called_def)

lemma unbegun_next:
  assumes "task_step an i tk pt sv = (pt', sv')" "unbegun pt" "\<forall>pre se. pt \<noteq> AtBegin pre se"
  shows "(\<forall>se. pt' \<noteq> AtOperate se) \<and> (\<forall>se rn shown. pt' \<noteq> AtSettle se rn shown)
    \<and> (\<forall>pre. pt' = AtBegin pre None \<longrightarrow> pt = AtLease \<and> \<not> is_agent (tk_owner tk) sv)"
  using assms by (cases pt; auto simp: step_defs operator_write_def judge_step_def append_decided_def
    append_dispatching_def operator_decided_def split: step_splits judged.splits)

lemma task_step_reports:
  assumes "task_step an i tk pt sv = (pt', sv')" "reports sv i (tk_owner tk) pt"
    and "unbegun pt \<longrightarrow> \<not> called sv i" "tk_owner tk \<noteq> Operator \<longrightarrow> sv_agent sv \<noteq> None"
  shows "reports sv' i (tk_owner tk) pt'"
proof (cases "\<exists>pre se. pt = AtBegin pre se")
  case True
  with assms(1,2) show ?thesis
    by (auto simp: begin_step_def split: step_splits)
next
  case False
  then have call: "called sv' i \<longleftrightarrow> called sv i" using task_step_called(2) [OF assms(1)] by blast
  note mono = honest_verdict_mono [OF _ task_step_outcomes [OF assms(1)]]
  show ?thesis
  proof (cases "unbegun pt")
    case True
    note u = unbegun_next [OF assms(1) True]
    have "is_agent (tk_owner tk) sv" if "tk_owner tk \<noteq> Operator"
      using assms(4) that by (cases "tk_owner tk") (simp_all add: is_agent_def)
    with u False call assms(3) True show ?thesis by (cases pt') auto
  next
    case begun: False
    show ?thesis
    proof (cases pt)
      case (AtOperate se)
      define shown where "shown = (case tk_owner tk of Agent _ \<Rightarrow> fixed_reason (an_outcome an) | Operator \<Rightarrow> None)"
      have out: "(i, an_outcome an) \<in> set (sv_outcomes sv')"
        using AtOperate assms(1) by (auto simp: operate_step_def Let_def)
      have verdict: "honest_verdict sv' i (tk_owner tk) (show_as shown (resolve (an_outcome an)))"
        by (rule honest_resolve [OF out]) (simp add: shown_def split: principal.split)
      have pt': "pt' = (case (sv_agent sv, se) of
               (Some _, Some settlement) \<Rightarrow> AtSettle settlement (resolve (an_outcome an)) shown
             | _ \<Rightarrow> AtFinishPlain (resolve (an_outcome an)))"
        using AtOperate assms(1) by (auto simp: operate_step_def Let_def shown_def split: option.split)
      show ?thesis
      proof (cases "sv_agent sv = None \<or> se = None")
        case True
        with AtOperate assms(2,4) have op: "tk_owner tk = Operator" by auto
        have "pt' = AtFinishPlain (resolve (an_outcome an))" using True pt' by (auto split: option.split)
        with verdict op show ?thesis by (simp add: show_as_def shown_def)
      next
        case False
        with pt' verdict show ?thesis by auto
      qed
    next
      case (AtSettle se rn shown)
      with assms(1,2) mono show ?thesis by (auto simp: with_agent_def split: option.splits)
    next
      case (AtFinish rn shown)
      with assms(1) show ?thesis by (auto split: step_splits)
    next
      case (AtRecordFinished rn)
      with assms(1) show ?thesis by (auto simp: with_agent_def split: option.splits)
    qed (use assms(1) begun in auto)
  qed
qed

lemma finish_honest:
  assumes "change_finish rn sn = Some sn'" "honest_verdict sv i owner rn"
  shows "is_terminal (sn_status sn') \<and> (sn_dispatch sn' = NotDispatched \<longrightarrow> undone sv i)
    \<and> (owner \<noteq> Operator \<longrightarrow> fixed_text (sn_reason sn'))"
  using assms by (auto simp: change_finish_def honest_verdict_def split: if_splits)

lemma task_step_honest:
  assumes "task_step an i tk pt sv = (pt', sv')" "op_lookup (sv_ops sv') j = Some e'"
    and "\<And>e. op_lookup (sv_ops sv) j = Some e \<Longrightarrow> entry_honest sv j e"
    and "j = i \<Longrightarrow> reports sv i (tk_owner tk) pt" "j = i \<Longrightarrow> unbegun pt \<longrightarrow> \<not> called sv i"
    and "\<And>e. j = i \<Longrightarrow> op_lookup (sv_ops sv) i = Some e \<Longrightarrow> en_owner e = tk_owner tk"
    and "\<And>pre se. j = i \<Longrightarrow> pt = AtBegin pre se \<Longrightarrow> called sv' i \<Longrightarrow> sn_status (en_snapshot e') = InSession"
  shows "entry_honest sv' j e'"
proof -
  from task_step_entry [OF assms(1,2)] obtain e where e: "op_lookup (sv_ops sv) j = Some e" "en_owner e' = en_owner e"
    and alt: "e' = e \<or> i = j \<and> \<not> is_terminal (sn_status (en_snapshot e)) \<and>
      ((\<exists>rn shown. pt = AtFinish rn shown \<and> change_finish (show_as shown rn) (en_snapshot e) = Some (en_snapshot e'))
       \<or> (\<exists>rn. pt = AtFinishPlain rn \<and> change_finish rn (en_snapshot e) = Some (en_snapshot e'))
       \<or> pt = AtEnd \<and> change_drop (en_snapshot e) = Some (en_snapshot e')
       \<or> (\<exists>pre se. pt = AtBegin pre se) \<and> change_begin (en_snapshot e) = Some (en_snapshot e')
       \<or> unbegun pt \<and> sv_calls sv' = sv_calls sv)" by blast
  note out = task_step_outcomes [OF assms(1)]
  show ?thesis
  proof (cases "j = i \<and> (\<exists>pre se. pt = AtBegin pre se)")
    case True
    with assms(7) show ?thesis by (auto simp: entry_honest_def)
  next
    case False
    then have call: "called sv' j \<longleftrightarrow> called sv j" using task_step_called [OF assms(1)] by blast
    show ?thesis
    proof (cases "e' = e \<or> \<not> called sv j")
      case True
      with entry_honest_kept [OF assms(3) [OF e(1)] out call] call show ?thesis by (auto simp: entry_honest_def)
    next
      case changed: False
      with alt False assms(5) have i: "i = j" and
        how: "(\<exists>rn shown. pt = AtFinish rn shown \<and> change_finish (show_as shown rn) (en_snapshot e) = Some (en_snapshot e'))
         \<or> (\<exists>rn. pt = AtFinishPlain rn \<and> change_finish rn (en_snapshot e) = Some (en_snapshot e'))
         \<or> pt = AtEnd \<and> change_drop (en_snapshot e) = Some (en_snapshot e')"
        and running: "\<not> is_terminal (sn_status (en_snapshot e))" by blast+
      have own: "en_owner e' = tk_owner tk" using assms(6) e i by simp
      have in_session: "sn_status (en_snapshot e) = InSession"
        using assms(3) [OF e(1)] changed running by (auto simp: entry_honest_def)
      from how have "is_terminal (sn_status (en_snapshot e')) \<and> (sn_dispatch (en_snapshot e') = NotDispatched \<longrightarrow> undone sv i)
        \<and> (tk_owner tk \<noteq> Operator \<longrightarrow> fixed_text (sn_reason (en_snapshot e')))"
      proof (elim disjE exE conjE)
        fix rn shown assume "pt = AtFinish rn shown" "change_finish (show_as shown rn) (en_snapshot e) = Some (en_snapshot e')"
        with finish_honest assms(4) changed i show ?thesis by auto
      next
        fix rn assume "pt = AtFinishPlain rn" "change_finish rn (en_snapshot e) = Some (en_snapshot e')"
        with finish_honest assms(4) changed i show ?thesis by auto
      next
        assume "change_drop (en_snapshot e) = Some (en_snapshot e')"
        with in_session have "en_snapshot e' = (en_snapshot e)\<lparr>sn_status := IndeterminateStatus,
            sn_dispatch := UnknownDispatch, sn_confirmed := False, sn_reason := Some TASK_ENDED\<rparr>"
          by (simp add: change_drop_def Let_def TASK_ENDED_def)
        then show ?thesis by (simp add: fixed_text_def)
      qed
      with out i own show ?thesis by (auto simp: entry_honest_def undone_def)
    qed
  qed
qed

lemma begin_called:
  assumes "task_step an i tk (AtBegin pre se) sv = (pt', sv')" "called sv' i" "\<not> called sv i"
    and "op_lookup (sv_ops sv') i = Some e"
  shows "sn_status (en_snapshot e) = InSession"
proof -
  obtain b ops' where b: "begin_session i (sv_ops sv) = (b, ops')" by fastforce
  with assms have "b" "sv_ops sv' = ops'" by (auto simp: begin_step_def called_def split: bool.splits)
  with begin_session_lookup [of i "sv_ops sv" ops'] b assms(4) have "\<exists>sn. transition change_begin i (sv_ops sv) = (Some sn, ops')"
    by (auto simp: begin_session_def split: prod.splits)
  then obtain sn where "transition change_begin i (sv_ops sv) = (Some sn, ops')" ..
  from lookup_after_transition [OF this] assms(4) \<open>sv_ops sv' = ops'\<close> show ?thesis
    by (auto simp: change_begin_def split: if_splits)
qed

lemma honest_step:
  assumes "svc_inv sv0 sv" "sv_step sv sv'" "attended sv" "honest sv"
  shows "honest sv'"
  using assms(1,2)
proof (cases rule: sv_step_shape)
  case quiet
  have same: "called sv' i \<longleftrightarrow> called sv i" "set (sv_outcomes sv) \<subseteq> set (sv_outcomes sv')" for i
    using quiet by (simp_all add: called_def)
  have "entry_honest sv' i e" if "op_lookup (sv_ops sv') i = Some e" for i e
  proof -
    from quiet(5) that consider "op_lookup (sv_ops sv) i = Some e"
      | e0 sn where "op_lookup (sv_ops sv) i = Some e0" "change_cancel (en_snapshot e0) = Some sn" "e = e0\<lparr>en_snapshot := sn\<rparr>"
      by (metis option.inject)
    then show ?thesis
    proof cases
      case 1
      with assms(4) show ?thesis by (intro entry_honest_kept [OF _ same(2,1)]) (simp add: honest_def)
    next
      case 2
      have "entry_honest sv i e0" using assms(4) 2(1) by (simp add: honest_def)
      with change_cancel_running [OF 2(2)] same show ?thesis by (auto simp: entry_honest_def)
    qed
  qed
  moreover have "reports sv' i (tk_owner tk) (tk_at tk)" if "sv_tasks sv' i = Some tk" for i tk
    using assms(4) that quiet(1) by (intro reports_kept [OF _ same(2,1)]) (simp add: honest_def)
  ultimately show ?thesis by (simp add: honest_def)
next
  case (admitted i tk e)
  have same: "called sv' j \<longleftrightarrow> called sv j" "set (sv_outcomes sv) \<subseteq> set (sv_outcomes sv')" for j
    using admitted by (simp_all add: called_def)
  have "\<not> called sv i"
    using assms(1) admitted(1) unfolding svc_inv_def called_def call_ok_def by fastforce
  then have "entry_honest sv' i e" using same by (simp add: entry_honest_def)
  moreover have "entry_honest sv' j f" if "op_lookup (sv_ops sv') j = Some f" "j \<noteq> i" for j f
    using assms(4) that admitted(9) by (intro entry_honest_kept [OF _ same(2,1)]) (auto simp: honest_def)
  ultimately have "\<forall>j f. op_lookup (sv_ops sv') j = Some f \<longrightarrow> entry_honest sv' j f"
    using admitted(2) by (metis option.inject)
  moreover have "reports sv' j (tk_owner tkj) (tk_at tkj)" if "sv_tasks sv' j = Some tkj" for j tkj
    using assms(4) that admitted(3,4) reports_kept [OF _ same(2,1)] by (auto simp: honest_def split: if_splits)
  ultimately show ?thesis by (simp add: honest_def)
next
  case (ran an i tk pt sv2)
  define sv1 where "sv1 = sv\<lparr>sv_clock := max (sv_clock sv) (an_now an)\<rparr>"
  note st = ran(2) [folded sv1_def]
  have task: "task_ok sv0 sv i tk" using assms(1) ran(1) by (simp add: svc_inv_def)
  have lift: "called sv1 j \<longleftrightarrow> called sv j" "reports sv1 j ow p \<longleftrightarrow> reports sv j ow p" "entry_honest sv1 j f \<longleftrightarrow> entry_honest sv j f"
    for j ow p f by (cases p; simp add: sv1_def called_def entry_honest_def undone_def honest_verdict_def)+
  have drop: "called sv' j \<longleftrightarrow> called sv2 j" "reports sv' j ow p \<longleftrightarrow> reports sv2 j ow p" "entry_honest sv' j f \<longleftrightarrow> entry_honest sv2 j f"
    for j ow p f by (cases p; simp add: ran(3) called_def entry_honest_def undone_def honest_verdict_def)+
  have un: "unbegun (tk_at tk) \<longrightarrow> \<not> called sv1 i" using task by (simp add: task_ok_def called_def sv1_def)
  have rep: "reports sv1 i (tk_owner tk) (tk_at tk)" using assms(4) ran(1) lift by (simp add: honest_def)
  have "tk_owner tk \<noteq> Operator \<longrightarrow> sv_agent sv1 \<noteq> None"
    using task by (cases "tk_owner tk") (simp_all add: task_ok_def sv1_def)
  note new = task_step_reports [OF st rep un this]
  have "reports sv' j (tk_owner tkj) (tk_at tkj)" if "sv_tasks sv' j = Some tkj" for j tkj
  proof (cases "j = i")
    case True
    with that ran(3) new drop show ?thesis by auto
  next
    case False
    with that ran(3) assms(4) have "reports sv1 j (tk_owner tkj) (tk_at tkj)" using lift by (simp add: honest_def)
    from reports_kept [OF this task_step_outcomes [OF st]] task_step_called(1) [OF st False] drop show ?thesis by simp
  qed
  moreover have "entry_honest sv' j f" if f: "op_lookup (sv_ops sv') j = Some f" for j f
    unfolding drop
  proof (rule task_step_honest [OF st])
    show f2: "op_lookup (sv_ops sv2) j = Some f" using f ran(3) by simp
    show "entry_honest sv1 j e" if "op_lookup (sv_ops sv1) j = Some e" for e
      using assms(4) that lift by (simp add: honest_def sv1_def)
    show "reports sv1 i (tk_owner tk) (tk_at tk)" by (rule rep)
    show "unbegun (tk_at tk) \<longrightarrow> \<not> called sv1 i" by (rule un)
    show "en_owner e = tk_owner tk" if "op_lookup (sv_ops sv1) i = Some e" for e
      using assms(3) that ran(1) by (fastforce simp: attended_def sv1_def)
    show "sn_status (en_snapshot f) = InSession" if "j = i" "tk_at tk = AtBegin pre se" "called sv2 i" for pre se
      using begin_called [of an i tk pre se sv1 pt sv2 f] st that un f2 by simp
  qed
  ultimately show ?thesis by (simp add: honest_def)
next
  case (panicked i tk)
  have same: "called sv' j \<longleftrightarrow> called sv j" "set (sv_outcomes sv) \<subseteq> set (sv_outcomes sv')" for j
    using panicked by (simp_all add: called_def)
  have "entry_honest sv' j f" if "op_lookup (sv_ops sv') j = Some f" for j f
    using assms(4) that panicked(3) by (intro entry_honest_kept [OF _ same(2,1)]) (simp add: honest_def)
  moreover have "reports sv' j (tk_owner tkj) (tk_at tkj)" if "sv_tasks sv' j = Some tkj" for j tkj
    using assms(4) that panicked(3) reports_kept [OF _ same(2,1)] by (auto simp: honest_def split: if_splits)
  ultimately show ?thesis by (simp add: honest_def)
qed

section \<open>All of it, on every run\<close>

lemma service_run:
  assumes "sv_steps (service_new agent) sv"
  shows "svc_inv (service_new agent) sv \<and> attended sv \<and> in_flight_ok sv \<and> honest sv"
  using assms
proof (induction rule: rtranclp_induct)
  case base
  show ?case using svc_inv_new
    by (simp add: attended_def in_flight_ok_def unended_def honest_def) (simp add: service_new_def operations_default_def)
next
  case (step sv1 sv2)
  with svc_inv_step attended_step in_flight_step honest_step show ?case by metis
qed

end
