(* ===== verification/Service_Properties.thy ===== *)
theory Service_Properties
  imports Service_Tasks
begin

text \<open>
  The promises of the control service, over every interleaving of its tasks with submissions,
  cancels, reloads, dry runs, panics and the closing, and a run of an agent's volume change that
  they are applied to.
\<close>

section \<open>An agent's write, start to finish\<close>

definition example_answer :: answer where
  "example_answer = \<lparr>an_now = WallTime 200000, an_tick = 0, an_answered = True, an_history = None, an_lease = Ok (),
     an_state = example_state (- 96), an_outcome = ObservedRequestedValue 1 CompleteWrite ''-45.0 dB''\<rparr>"

definition example_write :: operation_submission where
  "example_write = \<lparr>os_intent = IVolume (DbHalfSteps (- 90)), os_idempotency_key = None\<rparr>"

abbreviation example_claude :: principal where "example_claude \<equiv> Agent (AgentLabel ''claude'')"

definition example_service :: "point \<Rightarrow> operation_status \<Rightarrow> agent_state \<Rightarrow> wall_time \<Rightarrow> call list \<Rightarrow> service" where
  "example_service pt st ag clock calls =
     \<lparr>sv_ops = \<lparr>ops_next_id = 1, ops_closed = False,
        ops_entries = [(1, \<lparr>en_owner = example_claude, en_key = None,
           en_snapshot = new_snapshot 1 (ReceiverId ''den'') (IVolume (DbHalfSteps (- 90))) st\<rparr>)],
        ops_order = [1], ops_keys = Map.empty\<rparr>,
      sv_agent = Some ag,
      sv_tasks = [1 \<mapsto> \<lparr>tk_receiver = ReceiverId ''den'', tk_intent = IVolume (DbHalfSteps (- 90)),
         tk_owner = example_claude, tk_at = pt\<rparr>],
      sv_in_flight = 1, sv_calls = calls, sv_outcomes = [], sv_clock = clock\<rparr>"

definition example_written :: agent_state where
  "example_written = example_agent\<lparr>ag_writes := [(AgentLabel ''claude'', [0])]\<rparr>"

lemma example_submitted:
  "submit 4 0 example_claude (ReceiverId ''den'') example_write (service_new (Some example_agent))
   = (Admit (Ok (New (new_snapshot 1 (ReceiverId ''den'') (IVolume (DbHalfSteps (- 90))) Submitted))),
      example_service AtStart Submitted example_written (WallTime 0) [])"
  by (simp add: submit_def service_new_def admit_def operations_default_def example_write_def example_agent_def
        agent_limits_default_def admit_write_def unfinished_of_def charge_write_def sweep_labels_def Let_def,
      simp add: insert_operation_def evict_finished_def Let_def example_service_def new_snapshot_def
        example_written_def example_agent_def agent_limits_default_def)

lemma sv_steps_run: "sv_steps sv0 sv \<Longrightarrow> run_task an i sv = sv' \<Longrightarrow> sv_steps sv0 sv'"
  using sv_run [of sv an i] by (metis rtranclp.rtrancl_into_rtrancl)

lemma example_run_to:
  assumes "task_step example_answer 1 \<lparr>tk_receiver = ReceiverId ''den'', tk_intent = IVolume (DbHalfSteps (- 90)),
         tk_owner = example_claude, tk_at = pt\<rparr> pt (example_service pt st ag (max clock (WallTime 200000)) calls)
       = (pt', example_service pt st' ag' (max clock (WallTime 200000)) calls')"
  shows "run_task example_answer 1 (example_service pt st ag clock calls)
       = example_service pt' st' ag' (max clock (WallTime 200000)) calls'"
proof -
  have "(example_service pt st ag clock calls)\<lparr>sv_clock := max clock (WallTime 200000)\<rparr>
      = example_service pt st ag (max clock (WallTime 200000)) calls" by (simp add: example_service_def)
  moreover have "sv_tasks (example_service pt st ag clock calls) 1 =
      Some \<lparr>tk_receiver = ReceiverId ''den'', tk_intent = IVolume (DbHalfSteps (- 90)),
         tk_owner = example_claude, tk_at = pt\<rparr>" by (simp add: example_service_def)
  ultimately show ?thesis using assms
    by (simp add: run_task_def) (simp add: example_answer_def example_service_def)
qed

lemma example_agent_run:
  obtains p se ag where "sv_steps (service_new (Some example_agent))
    (example_service (AtOperate (Some se)) InSession ag (max (WallTime 0) (WallTime 200000))
       [(1, ReceiverId ''den'', IVolume (DbHalfSteps (- 90)), Some p)])"
proof -
  let ?sv0 = "service_new (Some example_agent)" and ?r = "ReceiverId ''den''" and ?v = "IVolume (DbHalfSteps (- 90))"
  obtain d p se ag2 where jd: "judge (WallTime 200000) example_active (AgentLabel ''claude'') ?r ?v (example_state (- 96)) 1
      example_agent = (JudgedAllowed d p se, ag2)" using example_judged by blast
  obtain j ag3 where jd3: "judge (WallTime 200000) example_active (AgentLabel ''claude'') ?r ?v (example_state (- 96)) 1
      example_written = (j, ag3)" by fastforce
  have j: "j = JudgedAllowed d p se"
    using jd jd3 by (auto simp: judge_def Let_def example_written_def reserve_def split: option.splits decision.splits prod.splits)
  have pol: "active_policy_of ag = Some example_active" if "ag_policy ag = ag_policy example_agent" for ag
    using that by (simp add: active_policy_of_def example_agent_def)
  have "sv_steps ?sv0 (example_service AtStart Submitted example_written (WallTime 0) [])"
    using sv_submit [of ?sv0 4 0 example_claude ?r example_write]
    by (simp add: example_submitted) (simp add: service_new_def operations_default_def r_into_rtranclp)
  then have s1: "sv_steps ?sv0 (example_service AtLease Submitted example_written (max (WallTime 0) (WallTime 200000)) [])"
    by (rule sv_steps_run [OF _ example_run_to])
       (simp add: start_step_def is_agent_def with_agent_def example_service_def precheck_def ensure_ledger_def pol
          example_written_def, simp add: example_agent_def)
  define c where "c = max (WallTime 0) (WallTime 200000)"
  have c: "max c (WallTime 200000) = c" by (simp add: c_def max_def)
  note run = sv_steps_run [OF _ example_run_to [where clock = c, unfolded c]]
  have "sv_steps ?sv0 (example_service AtDecide Submitted example_written c [])"
    by (rule run, rule s1 [folded c_def]) (simp add: lease_step_def is_agent_def example_service_def example_answer_def)
  then have "sv_steps ?sv0 (example_service (AtJudge example_active (example_state (- 96))) Submitted example_written c [])"
    by (rule run) (simp add: with_agent_def example_service_def example_answer_def pol example_written_def)
  then have "sv_steps ?sv0 (example_service (AtMove d (PolicyDigest []) p se (example_state (- 96))) Submitted ag3 c [])"
    by (rule run) (simp add: with_agent_def example_service_def example_answer_def judge_step_def label_of_def jd3 j,
      simp add: example_active_def)
  then have "sv_steps ?sv0 (example_service (AtDecidedRecord d (PolicyDigest []) p se (example_state (- 96))) Allowed ag3 c [])"
    by (rule run) (simp add: with_agent_def example_service_def transition_def change_allow_def new_snapshot_def)
  then have "\<exists>ag4. sv_steps ?sv0 (example_service (AtCheckAllowed p se (example_state (- 96))) Allowed ag4 c [])"
    by (intro exI, elim run) (simp add: with_agent_def example_service_def append_decided_def append_within_def example_answer_def)
  then obtain ag4 where "sv_steps ?sv0 (example_service (AtCheckAllowed p se (example_state (- 96))) Allowed ag4 c [])" ..
  then have "sv_steps ?sv0 (example_service (AtDispatchRecord p se (example_state (- 96))) Allowed ag4 c [])"
    by (rule run) (simp add: status_of_def example_service_def new_snapshot_def)
  then have "\<exists>ag5. sv_steps ?sv0 (example_service (AtBegin (Some p) (Some se)) Allowed ag5 c [])"
    by (intro exI, elim run) (simp add: with_agent_def example_service_def append_dispatching_def append_within_def example_answer_def)
  then obtain ag5 where "sv_steps ?sv0 (example_service (AtBegin (Some p) (Some se)) Allowed ag5 c [])" ..
  then have "sv_steps ?sv0 (example_service (AtOperate (Some se)) InSession ag5 c [(1, ?r, ?v, Some p)])"
    by (rule run) (simp add: begin_step_def begin_session_def transition_def change_begin_def example_service_def new_snapshot_def)
  then show ?thesis unfolding c_def by (rule that)
qed

section \<open>Properties\<close>

text \<open>
  C1. Nothing an agent asks for reaches a session unauthorised: whatever the interleaving, a
  call of the session for an agent's operation carries a precondition, that precondition comes
  from an allow of the atomic step under a policy that was in force, and the audit log holds the
  operation's dispatch record, synced, naming the fields that precondition binds.
\<close>

theorem agent_write_authorised:
  assumes "sv_steps (service_new agent) sv" "(i, r, intent, pre) \<in> set (sv_calls sv)"
  shows "\<exists>tk. sv_tasks sv i = Some tk \<and> tk_receiver tk = r \<and> tk_intent tk = intent
    \<and> (\<forall>l. tk_owner tk = Agent l \<longrightarrow>
         (\<exists>p. pre = Some p \<and> authorised (service_new agent) sv i l r intent p
            \<and> dispatch_recorded sv i (Agent l) r intent p))"
proof -
  have "call_ok (service_new agent) sv (i, r, intent, pre)"
    using service_run [OF assms(1)] assms(2) by (auto simp: svc_inv_def)
  then show ?thesis unfolding call_ok_def by fastforce
qed

theorem agent_write_authorised_witness:
  "\<exists>sv p. sv_steps (service_new (Some example_agent)) sv
     \<and> dispatch_recorded sv 1 (Agent (AgentLabel ''claude'')) (ReceiverId ''den'') (IVolume (DbHalfSteps (- 90))) p"
proof -
  obtain p se ag where run: "sv_steps (service_new (Some example_agent))
    (example_service (AtOperate (Some se)) InSession ag (max (WallTime 0) (WallTime 200000))
       [(1, ReceiverId ''den'', IVolume (DbHalfSteps (- 90)), Some p)])" (is "sv_steps _ ?sv")
    by (rule example_agent_run)
  have "(1, ReceiverId ''den'', IVolume (DbHalfSteps (- 90)), Some p) \<in> set (sv_calls ?sv)"
    by (simp add: example_service_def)
  from agent_write_authorised [OF run this] have "dispatch_recorded ?sv 1 example_claude (ReceiverId ''den'')
      (IVolume (DbHalfSteps (- 90))) p"
    by (auto simp: example_service_def)
  with run show ?thesis by blast
qed

text \<open>
  C2. Every operation reaches the session at most once, whatever is retried, cancelled, or
  interleaved with it.
\<close>

theorem operate_at_most_once:
  assumes "sv_steps (service_new agent) sv"
  shows "distinct (map fst (sv_calls sv))"
  using service_run [OF assms] by (simp add: svc_inv_def)

theorem operate_at_most_once_witness:
  "\<exists>sv. sv_steps (service_new (Some example_agent)) sv \<and> sv_calls sv \<noteq> [] \<and> distinct (map fst (sv_calls sv))"
proof -
  obtain p se ag where run: "sv_steps (service_new (Some example_agent))
    (example_service (AtOperate (Some se)) InSession ag (max (WallTime 0) (WallTime 200000))
       [(1, ReceiverId ''den'', IVolume (DbHalfSteps (- 90)), Some p)])"
    by (rule example_agent_run)
  from operate_at_most_once [OF this] run show ?thesis by (force simp: example_service_def)
qed




lemma example_panicked:
  obtains p se ag where "sv_steps (service_new (Some example_agent))
      (run_task example_answer 1 (panic_task 1 (example_service (AtOperate (Some se)) InSession ag
        (max (WallTime 0) (WallTime 200000)) [(1, ReceiverId ''den'', IVolume (DbHalfSteps (- 90)), Some p)])))"
proof -
  obtain p se ag where run: "sv_steps (service_new (Some example_agent))
    (example_service (AtOperate (Some se)) InSession ag (max (WallTime 0) (WallTime 200000))
       [(1, ReceiverId ''den'', IVolume (DbHalfSteps (- 90)), Some p)])" (is "sv_steps _ ?sv")
    by (rule example_agent_run)
  from rtranclp.rtrancl_into_rtrancl [OF this sv_panic [of _ 1]]
  have "sv_steps (service_new (Some example_agent)) (run_task example_answer 1 (panic_task 1 ?sv))"
    by (rule sv_steps_run) (rule refl)
  then show ?thesis by (rule that)
qed


text \<open>
  Nothing is left running behind the count that a shutdown waits for: the count of
  operations in flight is the number of tasks that have not ended, every operation that is
  running has one, and so at zero no operation is running.
\<close>

theorem in_flight_covers_running:
  assumes "sv_steps (service_new agent) sv"
  shows "sv_in_flight sv = card {i. \<exists>tk. sv_tasks sv i = Some tk \<and> tk_at tk \<noteq> Ended}
    \<and> (\<forall>i e. op_lookup (sv_ops sv) i = Some e \<longrightarrow> entry_running e \<longrightarrow>
         (\<exists>tk. sv_tasks sv i = Some tk \<and> tk_owner tk = en_owner e \<and> tk_at tk \<noteq> Ended))
    \<and> (sv_in_flight sv = 0 \<longrightarrow> (\<forall>i e. op_lookup (sv_ops sv) i = Some e \<longrightarrow> \<not> entry_running e))"
proof -
  have inv: "attended sv" "in_flight_ok sv" using service_run [OF assms] by auto
  have card: "sv_in_flight sv = card (unended sv)" "finite (unended sv)"
    using inv(2) finite_unended by (auto simp: in_flight_ok_def)
  have running: "\<exists>tk. sv_tasks sv i = Some tk \<and> tk_owner tk = en_owner e \<and> tk_at tk \<noteq> Ended"
    if "op_lookup (sv_ops sv) i = Some e" "entry_running e" for i e
    using inv(1) that unfolding attended_def by blast
  then have "\<not> entry_running e" if "sv_in_flight sv = 0" "op_lookup (sv_ops sv) i = Some e" for i e
    using that card by (auto simp: unended_def)
  with running card(1) show ?thesis unfolding unended_def by blast
qed

theorem in_flight_covers_running_witness:
  "\<exists>sv e. sv_steps (service_new (Some example_agent)) sv \<and> sv_in_flight sv = 1
    \<and> op_lookup (sv_ops sv) 1 = Some e \<and> entry_running e"
proof -
  obtain p se ag where run: "sv_steps (service_new (Some example_agent))
    (example_service (AtOperate (Some se)) InSession ag (max (WallTime 0) (WallTime 200000))
       [(1, ReceiverId ''den'', IVolume (DbHalfSteps (- 90)), Some p)])" (is "sv_steps _ ?sv")
    by (rule example_agent_run)
  have one: "{i. \<exists>tk. sv_tasks ?sv i = Some tk \<and> tk_at tk \<noteq> Ended} = {1}"
    by (auto simp: example_service_def)
  have "sv_in_flight ?sv = 1" using in_flight_covers_running [OF run] unfolding one by simp
  with run show ?thesis
    by (intro exI [of _ ?sv] exI [of _ "the (op_lookup (sv_ops ?sv) 1)"])
       (simp add: example_service_def entry_running_def new_snapshot_def)
qed

text \<open>
  C28. Every task ends and ends its operation: from any state the service can reach, a task that
  takes fifteen more steps of its own has ended, whatever the clock, the log, the lease and the
  session answer to each, and its operation is then finished or has been evicted.
\<close>

theorem task_ends:
  assumes "sv_steps (service_new agent) sv" "sv_tasks sv i = Some tk" "length answers \<ge> 15"
  shows "\<exists>tk'. sv_tasks (fold (\<lambda>an. run_task an i) answers sv) i = Some tk' \<and> tk_at tk' = Ended
    \<and> (\<forall>e. op_lookup (sv_ops (fold (\<lambda>an. run_task an i) answers sv)) i = Some e \<longrightarrow> \<not> entry_running e)"
proof -
  let ?stop = "fold (\<lambda>an. run_task an i) answers sv"
  have "sv_steps s (fold (\<lambda>an. run_task an i) ans s)" for ans s
    by (induction ans arbitrary: s) (auto intro: converse_rtranclp_into_rtranclp sv_run)
  then have "attended ?stop" using service_run assms(1) by (meson rtranclp_trans)
  moreover obtain tk' where tk': "sv_tasks ?stop i = Some tk'" "rank (tk_at tk') \<le> rank (tk_at tk) - length answers"
    using run_tasks_rank [OF assms(2)] by blast
  then have "tk_at tk' = Ended" using rank_le [of "tk_at tk"] assms(3) by simp
  ultimately show ?thesis using tk'(1) unfolding attended_def by (metis option.inject)
qed

theorem task_ends_witness:
  "\<exists>sv tk'. sv_steps (service_new (Some example_agent)) sv
    \<and> sv_tasks (fold (\<lambda>an. run_task an 1) (replicate 15 example_answer) sv) 1 = Some tk' \<and> tk_at tk' = Ended"
proof -
  obtain p se ag where run: "sv_steps (service_new (Some example_agent))
    (example_service (AtOperate (Some se)) InSession ag (max (WallTime 0) (WallTime 200000))
       [(1, ReceiverId ''den'', IVolume (DbHalfSteps (- 90)), Some p)])" (is "sv_steps _ ?sv")
    by (rule example_agent_run)
  have "sv_tasks ?sv 1 = Some \<lparr>tk_receiver = ReceiverId ''den'', tk_intent = IVolume (DbHalfSteps (- 90)),
       tk_owner = example_claude, tk_at = AtOperate (Some se)\<rparr>"
    by (simp add: example_service_def)
  from task_ends [OF run this, of "replicate 15 example_answer"] run show ?thesis
    unfolding length_replicate by blast
qed

end
