(* ===== verification/Access_Book.thy ===== *)
theory Access_Book
  imports Agent_State Write_Caps
begin

text \<open>
  Callers refused at an endpoint, \<open>crates/application/src/service/agent/access.rs\<close>: who a
  refusal counts against, and the book that writes refusals to the audit log at a bounded rate.
  The \<open>HashMap\<close> of callers is an association list, whose order stands for its iteration order.
\<close>

definition ACCESS_LOG_EVERY :: duration where "ACCESS_LOG_EVERY = from_secs 60"
definition ACCESS_KEYS :: nat where "ACCESS_KEYS = 256"
definition ACCESS_RECORDS_PER_WINDOW :: nat where "ACCESS_RECORDS_PER_WINDOW = 30"

datatype subject = SubjectLabel agent_label | SubjectUid nat | SubjectNobody

record access_key =
  ak_endpoint :: endpoint_kind
  ak_reason :: refusal_reason
  ak_who :: subject

record access_entry =
  ae_last :: instant
  ae_suppressed :: u32

record access_book =
  ab_keys :: "(access_key \<times> access_entry) list"
  ab_written :: "instant list"
  ab_unwritten :: u32

definition access_book_default :: access_book where
  "access_book_default = \<lparr>ab_keys = [], ab_written = [], ab_unwritten = 0\<rparr>"

text \<open>The first caller, in iteration order, with the smallest time.\<close>

fun oldest_key :: "(access_key \<times> access_entry) list \<Rightarrow> access_key option" where
  "oldest_key [] = None"
| "oldest_key ((k, e) # rest) =
     (case oldest_key rest of
        None \<Rightarrow> Some k
      | Some k' \<Rightarrow>
          (case map_of rest k' of
             Some e' \<Rightarrow> if ae_last e \<le> ae_last e' then Some k else Some k'
           | None \<Rightarrow> Some k))"

definition suppress :: "access_entry \<Rightarrow> access_entry" where
  "suppress e = e\<lparr>ae_suppressed := saturating_add (ae_suppressed e) 1\<rparr>"

definition make_room :: "access_key \<Rightarrow> (access_key \<times> access_entry) list \<Rightarrow> (access_key \<times> access_entry) list" where
  "make_room key keys =
     (if map_of keys key = None \<and> length keys \<ge> ACCESS_KEYS
      then (case oldest_key keys of Some k \<Rightarrow> AList.delete k keys | None \<Rightarrow> keys)
      else keys)"

definition admit_refusal :: "access_key \<Rightarrow> instant \<Rightarrow> access_book \<Rightarrow> u32 option \<times> access_book" where
  "admit_refusal key now book =
     (let written = filter (\<lambda>t. duration_since now t < ACCESS_LOG_EVERY) (ab_written book);
          book1 = book\<lparr>ab_written := written\<rparr>;
          entry = map_of (ab_keys book) key
      in
      if (case entry of Some e \<Rightarrow> duration_since now (ae_last e) < ACCESS_LOG_EVERY | None \<Rightarrow> False)
      then (None, book1\<lparr>ab_keys := AList.update key (suppress (the entry)) (ab_keys book)\<rparr>)
      else if length written \<ge> ACCESS_RECORDS_PER_WINDOW
      then (None, (case entry of
              Some e \<Rightarrow> book1\<lparr>ab_keys := AList.update key (suppress e) (ab_keys book)\<rparr>
            | None \<Rightarrow> book1\<lparr>ab_unwritten := saturating_add (ab_unwritten book) 1\<rparr>))
      else
        (let keys = make_room key (ab_keys book);
             suppressed = saturating_add (case map_of keys key of Some e \<Rightarrow> ae_suppressed e | None \<Rightarrow> 0)
                            (ab_unwritten book)
         in (Some suppressed,
             \<lparr>ab_keys = AList.update key \<lparr>ae_last = now, ae_suppressed = 0\<rparr> keys,
              ab_written = written @ [now], ab_unwritten = 0\<rparr>)))"

definition subject_of :: "access_refusal \<Rightarrow> subject" where
  "subject_of refusal =
     (case af_principal refusal of
        Some (Agent label) \<Rightarrow> SubjectLabel label
      | _ \<Rightarrow> (case af_peer_uid refusal of Some uid \<Rightarrow> SubjectUid uid | None \<Rightarrow> SubjectNobody))"

text \<open>
  \<open>record_access_refusal\<close>: an append that fails leaves the audit health as it was, so only the
  acknowledged record is kept.
\<close>

definition record_access_refusal ::
  "instant \<Rightarrow> wall_time \<Rightarrow> bool \<Rightarrow> access_refusal \<Rightarrow> agent_state \<Rightarrow> access_book \<Rightarrow> agent_state \<times> access_book" where
  "record_access_refusal tick now answered refusal ag book =
     (let key = \<lparr>ak_endpoint = af_endpoint refusal, ak_reason = af_reason refusal, ak_who = subject_of refusal\<rparr> in
      case admit_refusal key tick book of
        (None, book') \<Rightarrow> (ag, book')
      | (Some suppressed, book') \<Rightarrow>
          (let resource = map_option (\<lambda>route. bounded (blank_controls route) MAX_INTENT_TEXT) (af_resource refusal);
               rec = record_as ag now None (af_principal refusal) None
                       (AccessRefused (af_endpoint refusal) (af_reason refusal) (af_peer_uid refusal) resource
                          (unat suppressed))
           in (ag\<lparr>ag_log := (if answered then ag_log ag @ [(rec, Flushed)] else ag_log ag)\<rparr>, book')))"

section \<open>Runs of refusals\<close>

text \<open>The records a run of refusals writes: when, and how many others each stands for.\<close>

fun refusal_records :: "(instant \<times> access_key) list \<Rightarrow> access_book \<Rightarrow> (instant \<times> u32) list \<times> access_book" where
  "refusal_records [] book = ([], book)"
| "refusal_records ((now, key) # calls) book =
     (case admit_refusal key now book of
        (r, book') \<Rightarrow>
          (case refusal_records calls book' of
             (rs, end_book) \<Rightarrow> ((case r of Some n \<Rightarrow> [(now, n)] | None \<Rightarrow> []) @ rs, end_book)))"

lemma access_window: "ACCESS_LOG_EVERY = WRITE_WINDOW"
  by (simp add: ACCESS_LOG_EVERY_def WRITE_WINDOW_def)

lemma length_alist_update:
  "length (AList.update k v xs) = (if map_of xs k = None then Suc (length xs) else length xs)"
  by (induction xs) auto

lemma oldest_key_in: "xs \<noteq> [] \<Longrightarrow> \<exists>k. oldest_key xs = Some k \<and> k \<in> fst ` set xs"
proof (induction xs)
  case (Cons x xs)
  obtain k e where x: "x = (k, e)" by (cases x)
  show ?case
  proof (cases "xs = []")
    case False
    with Cons.IH obtain k' where k': "oldest_key xs = Some k'" "k' \<in> fst ` set xs" by blast
    then show ?thesis by (auto simp: x split: option.splits)
  qed (simp add: x)
qed simp

lemma make_room_bound:
  assumes "distinct (map fst keys)" "length keys \<le> ACCESS_KEYS"
  shows "length (AList.update k v (make_room k keys)) \<le> ACCESS_KEYS" "distinct (map fst (make_room k keys))"
    "k \<notin> fst ` set keys \<Longrightarrow> k \<notin> fst ` set (make_room k keys)"
proof -
  have drop: "length (AList.delete k' keys) < length keys" if "k' \<in> fst ` set keys" for k'
    using that length_filter_less [of _ keys "\<lambda>(j, _). k' \<noteq> j"] by (auto simp: AList.delete_eq)
  have room: "length (make_room k keys) < ACCESS_KEYS" if "map_of (make_room k keys) k = None"
  proof (cases "map_of keys k = None \<and> length keys \<ge> ACCESS_KEYS")
    case True
    then have "keys \<noteq> []" by (auto simp: ACCESS_KEYS_def)
    with oldest_key_in obtain k' where "oldest_key keys = Some k'" "k' \<in> fst ` set keys" by blast
    with True drop assms(2) show ?thesis by (fastforce simp: make_room_def)
  next
    case False
    with that assms(2) show ?thesis by (auto simp: make_room_def split: if_splits)
  qed
  have "length (make_room k keys) \<le> ACCESS_KEYS"
    using assms(2) by (auto simp: make_room_def AList.delete_eq intro: order_trans [OF length_filter_le] split: option.split)
  with room show "length (AList.update k v (make_room k keys)) \<le> ACCESS_KEYS"
    by (auto simp: length_alist_update Suc_le_eq)
  show "distinct (map fst (make_room k keys))"
    using assms(1) by (auto simp: make_room_def distinct_delete split: option.split)
  show "k \<notin> fst ` set keys \<Longrightarrow> k \<notin> fst ` set (make_room k keys)"
    by (auto simp: make_room_def AList.delete_eq split: option.splits)
qed

definition access_inv :: "instant \<Rightarrow> instant list \<Rightarrow> access_book \<Rightarrow> bool" where
  "access_inv now past book \<longleftrightarrow>
     distinct (map fst (ab_keys book)) \<and> length (ab_keys book) \<le> ACCESS_KEYS
     \<and> (\<forall>g \<in> set past. g \<le> now)
     \<and> (\<forall>t \<ge> now. in_window t past = in_window t (ab_written book))
     \<and> (\<forall>t. length (in_window t past) \<le> ACCESS_RECORDS_PER_WINDOW)"

lemma access_inv_later: "access_inv now past book \<Longrightarrow> now \<le> m \<Longrightarrow> access_inv m past book"
  by (auto simp: access_inv_def intro: order_trans)

lemma in_window_retained:
  assumes "m \<le> t"
  shows "in_window t (filter (\<lambda>t. duration_since m t < ACCESS_LOG_EVERY) xs) = in_window t xs"
  using assms by (auto simp: in_window_def duration_since_def access_window intro!: filter_cong)

lemma access_inv_admit:
  assumes "access_inv now past book" "now \<le> m" "admit_refusal key m book = (r, book')"
  shows "access_inv m (past @ (case r of Some _ \<Rightarrow> [m] | None \<Rightarrow> [])) book'"
proof -
  define written where "written = filter (\<lambda>t. duration_since m t < ACCESS_LOG_EVERY) (ab_written book)"
  have inv: "access_inv m past book" using access_inv_later assms(1,2) .
  have win: "in_window t past = in_window t written" if "m \<le> t" for t
    using inv that in_window_retained by (simp add: access_inv_def written_def)
  have dist: "distinct (map fst (AList.update key v (ab_keys book)))" for v
    using inv by (simp add: access_inv_def distinct_update)
  have len: "length (AList.update key v (ab_keys book)) \<le> ACCESS_KEYS" if "map_of (ab_keys book) key = Some e" for v e
    using inv that by (simp add: access_inv_def length_alist_update)
  show ?thesis
  proof (cases r)
    case None
    with assms(3) have "ab_written book' = written" "ab_keys book' = ab_keys book
        \<or> (\<exists>v e. map_of (ab_keys book) key = Some e \<and> ab_keys book' = AList.update key v (ab_keys book))"
      by (auto simp: admit_refusal_def Let_def written_def split: option.splits if_splits)
    with None inv win dist len show ?thesis by (auto simp: access_inv_def)
  next
    case (Some n)
    with assms(3) have room: "length written < ACCESS_RECORDS_PER_WINDOW" and book': "ab_written book' = written @ [m]"
      "ab_keys book' = AList.update key \<lparr>ae_last = m, ae_suppressed = 0\<rparr> (make_room key (ab_keys book))"
      by (auto simp: admit_refusal_def Let_def written_def split: option.splits if_splits)
    have "length (in_window t (past @ [m])) \<le> ACCESS_RECORDS_PER_WINDOW" for t
    proof (cases "m \<le> t")
      case True
      then have "length (in_window t past) \<le> length written" using win length_in_window by simp
      with room show ?thesis by (simp add: in_window_def)
    next
      case False
      with inv show ?thesis by (simp add: in_window_def access_inv_def)
    qed
    moreover note bounds = make_room_bound [of "ab_keys book" key]
    moreover have "in_window t (past @ [m]) = in_window t (written @ [m])" if "m \<le> t" for t
      using win [OF that] by simp
    ultimately show ?thesis
      using Some inv book' by (auto simp: access_inv_def distinct_update)
  qed
qed

lemma access_inv_run:
  assumes "access_inv now past book" "sorted (map fst calls)" "\<forall>c \<in> set calls. now \<le> fst c"
    and "refusal_records calls book = (rs, book')"
  shows "\<exists>later. access_inv later (past @ map fst rs) book'"
  using assms
proof (induction calls arbitrary: now past book rs)
  case Nil
  then show ?case by auto
next
  case (Cons c calls)
  obtain m key where c: "c = (m, key)" by (cases c)
  obtain r book1 where ad: "admit_refusal key m book = (r, book1)" by fastforce
  obtain rs1 where rs1: "refusal_records calls book1 = (rs1, book')"
    and rs: "rs = (case r of Some n \<Rightarrow> [(m, n)] | None \<Rightarrow> []) @ rs1"
    using Cons.prems(4) c ad by (auto split: prod.splits)
  have "access_inv m (past @ (case r of Some _ \<Rightarrow> [m] | None \<Rightarrow> [])) book1"
    using access_inv_admit [OF Cons.prems(1) _ ad] Cons.prems(3) c by simp
  from Cons.IH [OF this _ _ rs1] Cons.prems(2) c rs show ?case by (cases r) auto
qed

section \<open>Nothing refused goes uncounted\<close>

definition pending :: "access_book \<Rightarrow> nat" where
  "pending book = sum_list (map (\<lambda>(_, e). unat (ae_suppressed e)) (ab_keys book)) + unat (ab_unwritten book)"

lemma sum_update:
  assumes "distinct (map fst xs)"
  shows "sum_list (map (\<lambda>(_, e). f e) (AList.update k v xs)) + (case map_of xs k of Some e \<Rightarrow> f e | None \<Rightarrow> 0)
       = sum_list (map (\<lambda>(_, e). f e) xs) + (f v :: nat)"
  using assms
proof (induction xs)
  case (Cons x xs)
  obtain j e where x: "x = (j, e)" by (cases x)
  show ?case
  proof (cases "j = k")
    case True
    with Cons.prems x have "map_of xs k = None" by (simp add: map_of_eq_None_iff)
    with Cons x True show ?thesis by simp
  next
    case False
    with Cons x show ?thesis by (simp add: add.assoc)
  qed
qed simp

lemma sum_lookup: "map_of xs k = Some e \<Longrightarrow> f e \<le> sum_list (map (\<lambda>(_, e). f e :: nat) xs)"
  by (induction xs) (auto split: if_splits)

lemma unat_sat_inc: "unat n + 1 < 2 ^ 32 \<Longrightarrow> unat (saturating_add n 1 :: u32) = unat n + 1"
  by (simp add: unat_saturating_add)

lemma pending_admit:
  assumes "distinct (map fst (ab_keys book))" "map_of (ab_keys book) key \<noteq> None \<or> length (ab_keys book) < ACCESS_KEYS"
    and "pending book + 1 < 2 ^ 32" "admit_refusal key now book = (r, book')"
  shows "pending book' + (case r of Some n \<Rightarrow> unat n + 1 | None \<Rightarrow> 0) = pending book + 1"
proof -
  let ?f = "\<lambda>e. unat (ae_suppressed e)"
  have room: "make_room key (ab_keys book) = ab_keys book" using assms(2) by (auto simp: make_room_def)
  note upd = sum_update [OF assms(1), of ?f key]
  note low = sum_lookup [of "ab_keys book" key _ ?f]
  show ?thesis
  proof (cases "map_of (ab_keys book) key")
    case None
    show ?thesis
    proof (cases r)
      case none: None
      with assms(4) None have "book' = book\<lparr>ab_written := ab_written book', ab_unwritten := saturating_add (ab_unwritten book) 1\<rparr>"
        by (auto simp: admit_refusal_def Let_def split: if_splits)
      then have "ab_keys book' = ab_keys book" "ab_unwritten book' = saturating_add (ab_unwritten book) 1"
        by (metis access_book.select_convs(1,3) access_book.surjective access_book.update_convs(2,3))+
      with none assms(3) show ?thesis by (simp add: pending_def unat_sat_inc)
    next
      case (Some n)
      with assms(4) None room have "n = saturating_add 0 (ab_unwritten book)" "ab_unwritten book' = 0"
        "ab_keys book' = AList.update key \<lparr>ae_last = now, ae_suppressed = 0\<rparr> (ab_keys book)"
        by (auto simp: admit_refusal_def Let_def split: if_splits)
      with Some None upd [of "\<lparr>ae_last = now, ae_suppressed = 0\<rparr>"] assms(3) show ?thesis
        by (simp add: pending_def unat_saturating_add)
    qed
  next
    case (Some e)
    note low = low [OF Some]
    show ?thesis
    proof (cases r)
      case None
      with assms(4) Some have "ab_keys book' = AList.update key (suppress e) (ab_keys book)" "ab_unwritten book' = ab_unwritten book"
        by (auto simp: admit_refusal_def Let_def split: if_splits)
      with None Some upd [of "suppress e"] low assms(3) show ?thesis
        by (simp add: pending_def suppress_def unat_sat_inc)
    next
      case some: (Some n)
      with assms(4) Some room have "n = saturating_add (ae_suppressed e) (ab_unwritten book)" "ab_unwritten book' = 0"
        "ab_keys book' = AList.update key \<lparr>ae_last = now, ae_suppressed = 0\<rparr> (ab_keys book)"
        by (auto simp: admit_refusal_def Let_def split: if_splits)
      with some Some upd [of "\<lparr>ae_last = now, ae_suppressed = 0\<rparr>"] low assms(3) show ?thesis
        by (simp add: pending_def unat_saturating_add)
    qed
  qed
qed

lemma pending_run:
  assumes "distinct (map fst (ab_keys book))" "fst ` set (ab_keys book) \<union> snd ` set calls \<subseteq> keys"
    and "finite keys" "card keys \<le> ACCESS_KEYS" "pending book + length calls < 2 ^ 32"
    and "refusal_records calls book = (rs, book')"
  shows "sum_list (map (\<lambda>(_, n). unat n + 1) rs) + pending book' = pending book + length calls"
  using assms(1,2,5,6)
proof (induction calls arbitrary: book rs)
  case (Cons c calls)
  obtain m key where c: "c = (m, key)" by (cases c)
  obtain r book1 where ad: "admit_refusal key m book = (r, book1)" by fastforce
  obtain rs1 where rs1: "refusal_records calls book1 = (rs1, book')"
    and rs: "rs = (case r of Some n \<Rightarrow> [(m, n)] | None \<Rightarrow> []) @ rs1"
    using Cons.prems(4) c ad by (auto split: prod.splits)
  have room: "map_of (ab_keys book) key \<noteq> None \<or> length (ab_keys book) < ACCESS_KEYS"
  proof (cases "map_of (ab_keys book) key")
    case None
    then have "key \<notin> fst ` set (ab_keys book)" by (simp add: map_of_eq_None_iff)
    then have "fst ` set (ab_keys book) \<subset> keys" using Cons.prems(2) c by auto
    then have "card (fst ` set (ab_keys book)) < card keys" by (rule psubset_card_mono [OF assms(3)])
    moreover have "card (fst ` set (ab_keys book)) = length (ab_keys book)"
      using distinct_card [OF Cons.prems(1)] by simp
    ultimately show ?thesis using assms(4) by simp
  qed simp
  have step: "pending book1 + (case r of Some n \<Rightarrow> unat n + 1 | None \<Rightarrow> 0) = pending book + 1"
    using pending_admit [OF Cons.prems(1) room _ ad] Cons.prems(3) by simp
  have same: "make_room key (ab_keys book) = ab_keys book" using room by (auto simp: make_room_def)
  then have "ab_keys book1 = ab_keys book \<or> (\<exists>v. ab_keys book1 = AList.update key v (ab_keys book))"
    using ad by (auto simp: admit_refusal_def Let_def split: option.splits if_splits)
  moreover have "set (map fst (AList.update key v (ab_keys book))) \<subseteq> insert key (set (map fst (ab_keys book)))" for v
    by (auto simp: update_keys)
  ultimately have sub: "set (map fst (ab_keys book1)) \<subseteq> insert key (set (map fst (ab_keys book)))"
    and dist: "distinct (map fst (ab_keys book1))"
    using Cons.prems(1) by (metis subset_insertI, metis distinct_update)
  have "insert key (set (map fst (ab_keys book))) \<subseteq> keys" using Cons.prems(2) c by auto
  with sub Cons.prems(2) have "fst ` set (ab_keys book1) \<union> snd ` set calls \<subseteq> keys" by auto
  note keys = dist this
  from Cons.IH [OF keys _ rs1] step Cons.prems(3) rs show ?case by (cases r) auto
qed simp

section \<open>Properties\<close>

text \<open>
  However many callers are refused, and however often, at most 30 refusals are written to the
  audit log in any minute and at most 256 callers are tracked.
\<close>

theorem access_rate:
  assumes "sorted (map fst calls)" "refusal_records calls access_book_default = (rs, book)"
  shows "length (in_window t (map fst rs)) \<le> 30 \<and> length (ab_keys book) \<le> 256"
proof -
  have "access_inv 0 [] access_book_default"
    by (simp add: access_inv_def access_book_default_def in_window_def ACCESS_KEYS_def)
  from access_inv_run [OF this assms(1) _ assms(2)] show ?thesis
    by (auto simp: access_inv_def ACCESS_KEYS_def ACCESS_RECORDS_PER_WINDOW_def)
qed

definition example_caller :: access_key where
  "example_caller = \<lparr>ak_endpoint = AgentEndpoint, ak_reason = NoCredential, ak_who = SubjectUid 501\<rparr>"

lemma example_refusals:
  "refusal_records [(0, example_caller), (5, example_caller), (from_secs 61, example_caller)] access_book_default
     = ([(0, 0), (from_secs 61, 1)],
        \<lparr>ab_keys = [(example_caller, \<lparr>ae_last = from_secs 61, ae_suppressed = 0\<rparr>)], ab_written = [from_secs 61],
         ab_unwritten = 0\<rparr>)"
  by (simp add: admit_refusal_def access_book_default_def make_room_def suppress_def saturating_add_def
      ACCESS_LOG_EVERY_def ACCESS_RECORDS_PER_WINDOW_def ACCESS_KEYS_def from_secs_def duration_since_def)

theorem access_rate_witness:
  "length (in_window (from_secs 61) [0, from_secs 61]) \<le> 30"
proof -
  have "sorted (map fst [(0 :: instant, example_caller), (5, example_caller), (from_secs 61, example_caller)])"
    by (simp add: from_secs_def)
  from access_rate [OF this example_refusals, of "from_secs 61"] show ?thesis by simp
qed

text \<open>
  No refusal goes uncounted: while at most 256 different callers are refused, every refusal
  is written, or is in the count a written record carries, or is still waiting to be counted.
\<close>

theorem refusals_accounted:
  assumes "card (snd ` set calls) \<le> 256" "length calls < 2 ^ 32"
    and "refusal_records calls access_book_default = (rs, book)"
  shows "sum_list (map (\<lambda>(_, n). unat n + 1) rs) + sum_list (map (\<lambda>(_, e). unat (ae_suppressed e)) (ab_keys book))
    + unat (ab_unwritten book) = length calls"
  using pending_run [of access_book_default calls "snd ` set calls" rs book] assms
  by (simp add: access_book_default_def pending_def ACCESS_KEYS_def)

theorem refusals_accounted_witness:
  "sum_list (map (\<lambda>(_, n :: u32). unat n + 1) [(0 :: instant, 0), (from_secs 61, 1)]) = 3"
proof -
  have "card (snd ` set [(0 :: instant, example_caller), (5, example_caller), (from_secs 61, example_caller)]) \<le> 256"
    by simp
  from refusals_accounted [OF this _ example_refusals] show ?thesis by simp
qed

end
