(* ===== verification/Transport.thy ===== *)
theory Transport
  imports Avr_Protocol Control
begin

text \<open>
  The interface of the AVR transport, \<open>crates/infrastructure/src/avr_session.rs\<close>: its errors,
  events and settings, and the framing of the byte stream it reads. A byte is a \<^typ>\<open>char\<close>;
  the socket is the list of bytes it will deliver and how it ends.
\<close>

section \<open>Errors and events\<close>

datatype avr_session_error =
    AvrInvalidCommand string
  | AvrConnection string
  | AvrTimeout string
  | AvrDisconnected string
  | AvrMalformedFrame string
  | AvrUnexpectedResponse string
  | AvrReceiverError string
  | AvrSessionStopped

fun avr_session_error_fmt :: "avr_session_error \<Rightarrow> string" where
  "avr_session_error_fmt (AvrInvalidCommand m) = ''invalid AVR command: '' @ m"
| "avr_session_error_fmt (AvrConnection m) = ''AVR connection failed: '' @ m"
| "avr_session_error_fmt (AvrTimeout m) = ''AVR session timed out: '' @ m"
| "avr_session_error_fmt (AvrDisconnected m) = ''AVR disconnected: '' @ m"
| "avr_session_error_fmt (AvrMalformedFrame m) = ''malformed AVR frame: '' @ m"
| "avr_session_error_fmt (AvrUnexpectedResponse m) = ''unexpected AVR response: '' @ m"
| "avr_session_error_fmt (AvrReceiverError m) = ''receiver reported an error: '' @ m"
| "avr_session_error_fmt AvrSessionStopped = ''AVR session stopped''"

fun avr_error_kind :: "avr_session_error \<Rightarrow> operation_error_kind" where
  "avr_error_kind (AvrInvalidCommand _) = ErrMalformed"
| "avr_error_kind (AvrUnexpectedResponse _) = ErrMalformed"
| "avr_error_kind (AvrConnection _) = ErrConnection"
| "avr_error_kind (AvrTimeout _) = ErrTimeout"
| "avr_error_kind (AvrDisconnected _) = ErrDisconnected"
| "avr_error_kind (AvrMalformedFrame _) = ErrMalformed"
| "avr_error_kind (AvrReceiverError _) = ErrUnsupported"
| "avr_error_kind AvrSessionStopped = ErrStopped"

definition operation_error_of :: "avr_session_error \<Rightarrow> operation_error" where
  "operation_error_of e =
     \<lparr>oe_kind = avr_error_kind e, oe_context = ''using AVR session'', oe_message = avr_session_error_fmt e\<rparr>"

datatype avr_event =
    EvConnected
  | EvReconnected
  | EvLine string
  | EvDisconnected u64 string

record avr_session_config =
  ac_connect_timeout :: duration
  ac_write_timeout :: duration
  ac_response_timeout :: duration
  ac_reconnect_attempts :: nat
  ac_reconnect_delay :: duration
  ac_reconnect_indefinitely :: bool
  ac_transmission_interval :: duration
  ac_max_line_length :: nat
  ac_app_command_port :: nat

definition DEFAULT_MAX_LINE_LENGTH :: nat where "DEFAULT_MAX_LINE_LENGTH = 135"

definition avr_session_config_default :: avr_session_config where
  "avr_session_config_default =
     \<lparr>ac_connect_timeout = from_secs 2, ac_write_timeout = from_secs 1, ac_response_timeout = from_secs 1,
      ac_reconnect_attempts = 3, ac_reconnect_delay = from_millis_dur 250, ac_reconnect_indefinitely = False,
      ac_transmission_interval = from_millis_dur 50, ac_max_line_length = DEFAULT_MAX_LINE_LENGTH,
      ac_app_command_port = 8080\<rparr>"

end
