(* ===== verification/Session.thy ===== *)
theory Session
  imports Transport State_Properties Timing Operations
begin

text \<open>
  The X3800H session, \<open>crates/infrastructure/src/x3800h_session.rs\<close> with \<open>reduce.rs\<close>,
  \<open>operate.rs\<close> and \<open>actor.rs\<close>: one actor owns the connection, folds what it hears into the
  canonical state and performs operations. What the transport answers, the socket generation it
  reports and the clock are arguments of the step that asks. \<open>fd_asked\<close> and \<open>ss_written\<close> are
  history variables: the queries sent, and every command handed to the transport with the state
  in force at that moment.
\<close>

section \<open>The feed\<close>

record feed =
  fd_state :: receiver_state
  fd_epoch :: epoch
  fd_seq :: frame_seq
  fd_asked :: "string list"

record query_answer =
  qa_generation_before :: u64
  qa_line :: "(string, avr_session_error) result"
  qa_generation_after :: u64
  qa_now :: monotonic_millis

definition reduce_line :: "monotonic_millis \<Rightarrow> string \<Rightarrow> bool \<Rightarrow> feed \<Rightarrow> core_field option \<times> feed" where
  "reduce_line now line in_query fd =
     (let n = saturating_add (fd_seq fd) 1;
          fd1 = fd\<lparr>fd_seq := n\<rparr> in
      case parse line of
        Err _ \<Rightarrow> (None, fd1\<lparr>fd_state := record_diagnostic (''malformed: '' @ line) (fd_state fd)\<rparr>)
      | Ok (XVolumeLimit _) \<Rightarrow> (None, fd1)
      | Ok parsed \<Rightarrow>
          (case core_frame_of parsed of
             None \<Rightarrow> (None, fd1\<lparr>fd_state := record_diagnostic line (fd_state fd)\<rparr>)
           | Some frame \<Rightarrow>
               (let field = frame_field frame;
                    st = \<lparr>st_receiver = rs_receiver (fd_state fd), st_epoch = fd_epoch fd, st_frame_seq = n,
                          st_observed_at = now, st_valid_until = now + 10000,
                          st_origin = (if in_query then ReceiverFrameInQueryWindow n else ReceiverFrame)\<rparr>;
                    reduced = snd (reduce st frame (fd_state fd));
                    marked = (if in_query then reduced
                              else rs_mark_converging field n ReceiverEvent (now + 250) reduced)
                in (Some field, fd1\<lparr>fd_state := marked\<rparr>))))"

definition synchronize_generation :: "u64 \<Rightarrow> feed \<Rightarrow> feed" where
  "synchronize_generation generation fd =
     (let observed = saturating_add generation 1 in
      if observed = fd_epoch fd then fd
      else (let st = (if rs_epoch (fd_state fd) \<noteq> None then mark_disconnected (fd_state fd) else fd_state fd)
            in fd\<lparr>fd_state := snd (establish_epoch observed st), fd_epoch := observed\<rparr>))"

definition query_and_reduce ::
  "query_answer \<Rightarrow> receiver_intent \<Rightarrow> feed \<Rightarrow> (unit, operation_error) result \<times> feed" where
  "query_and_reduce qa intent fd =
     (let fd1 = (synchronize_generation (qa_generation_before qa) fd)\<lparr>fd_asked := fd_asked fd @ [query_text intent]\<rparr> in
      case qa_line qa of
        Err e \<Rightarrow> (Err (operation_error_of e), fd1)
      | Ok line \<Rightarrow>
          (Ok (), snd (reduce_line (qa_now qa) line True (synchronize_generation (qa_generation_after qa) fd1))))"

fun apply_event :: "monotonic_millis \<Rightarrow> avr_event \<Rightarrow> feed \<Rightarrow> core_field option \<times> feed" where
  "apply_event now (EvLine line) fd = reduce_line now line False fd"
| "apply_event now (EvDisconnected generation message) fd =
     (if saturating_add generation 1 < fd_epoch fd then (None, fd)
      else (None, fd\<lparr>fd_state := mark_disconnected (fd_state fd)\<rparr>))"
| "apply_event now EvConnected fd = (None, fd)"
| "apply_event now EvReconnected fd =
     (let e = saturating_add (fd_epoch fd) 1 in
      (None, fd\<lparr>fd_epoch := e, fd_state := snd (establish_epoch e (mark_disconnected (fd_state fd)))\<rparr>))"

definition feed_converging :: "monotonic_millis \<Rightarrow> core_field \<Rightarrow> sync_cause \<Rightarrow> sync_cycle_id \<Rightarrow> feed \<Rightarrow> feed" where
  "feed_converging now field cause cycle fd =
     fd\<lparr>fd_state := rs_mark_converging field cycle cause (now + 250) (fd_state fd)\<rparr>"

definition feed_settled :: "monotonic_millis \<Rightarrow> core_field \<Rightarrow> sync_cycle_id \<Rightarrow> feed \<Rightarrow> feed" where
  "feed_settled now field cycle fd = fd\<lparr>fd_state := rs_mark_settled field cycle now (fd_state fd)\<rparr>"

definition feed_failed :: "core_field \<Rightarrow> string \<Rightarrow> feed \<Rightarrow> feed" where
  "feed_failed field message fd = fd\<lparr>fd_state := rs_mark_query_failed field message (fd_state fd)\<rparr>"

definition feed_expire :: "monotonic_millis \<Rightarrow> feed \<Rightarrow> feed" where
  "feed_expire now fd = (case expire_fields now (fd_state fd) of
       (True, st) \<Rightarrow> fd\<lparr>fd_state := st\<rparr> | (False, _) \<Rightarrow> fd)"

definition merge_debt ::
  "monotonic_millis \<Rightarrow> core_field \<Rightarrow> sync_cause \<Rightarrow> sync_cycle_id \<Rightarrow> feed \<Rightarrow> sync_debt option \<Rightarrow> sync_debt option" where
  "merge_debt now field cause cycle fd debt =
     (case rs_epoch (fd_state fd) of
        None \<Rightarrow> debt
      | Some e \<Rightarrow>
          (let receiver = rs_receiver (fd_state fd);
               fresh = Some (sync_debt_new receiver e cycle field cause now) in
           case debt of
             None \<Rightarrow> fresh
           | Some d \<Rightarrow>
               if debt_is_for receiver e d then Some (note_activity now (sync_debt_merge [field] cause d)) else fresh))"

record readiness =
  rd_ready :: bool
  rd_degraded :: bool
  rd_detail :: string

definition clear_settled_debt ::
  "monotonic_millis \<Rightarrow> (readiness, operation_error) result \<Rightarrow> sync_debt option \<Rightarrow> sync_debt option" where
  "clear_settled_debt now readiness debt =
     (if \<not> (case readiness of Ok r \<Rightarrow> rd_ready r | Err _ \<Rightarrow> False) then debt
      else if (case debt of None \<Rightarrow> True | Some d \<Rightarrow> final_due now d \<or> sd_final_reconcile_at d = None) then None
      else debt)"

section \<open>Operating\<close>

record operation_request =
  rq_id :: operation_id
  rq_intent :: receiver_intent
  rq_precondition :: "precondition option"

fun core_field_debug :: "core_field \<Rightarrow> string" where
  "core_field_debug FSystemPower = ''SystemPower''"
| "core_field_debug FMainZonePower = ''MainZonePower''"
| "core_field_debug FZone2Power = ''Zone2Power''"
| "core_field_debug FSource = ''Source''"
| "core_field_debug FVolume = ''Volume''"
| "core_field_debug FMute = ''Mute''"
| "core_field_debug FSoundMode = ''SoundMode''"

fun intent_for_field :: "core_field \<Rightarrow> receiver_intent" where
  "intent_for_field FSystemPower = ISystemPower SystemOn"
| "intent_for_field FMainZonePower = IMainZonePower ZoneOn"
| "intent_for_field FZone2Power = IZone2Power ZoneOn"
| "intent_for_field FSource = ISource (SourceId ''CD'')"
| "intent_for_field FVolume = IVolume Minimum"
| "intent_for_field FMute = IMute MuteOff"
| "intent_for_field FSoundMode = ISoundMode Auto"

definition core_intents :: "receiver_intent list" where
  "core_intents =
     [ISystemPower SystemOn, IMainZonePower ZoneOn, IZone2Power ZoneOn, ISource (SourceId ''CD''), IVolume Minimum,
      IMute MuteOff, ISoundMode Auto]"

fun dependency_fields :: "core_field \<Rightarrow> core_field list" where
  "dependency_fields FSystemPower =
     [FSystemPower, FMainZonePower, FSource, FVolume, FMute, FSoundMode, FZone2Power]"
| "dependency_fields FMainZonePower = [FMainZonePower, FSource, FVolume, FMute, FSoundMode]"
| "dependency_fields FSource = [FSource, FSoundMode]"
| "dependency_fields FVolume = [FVolume]"
| "dependency_fields FMute = [FMute]"
| "dependency_fields FSoundMode = [FSoundMode]"
| "dependency_fields FZone2Power = [FZone2Power]"

fun admit_intent :: "receiver_intent \<Rightarrow> (unit, string) result" where
  "admit_intent (ISource i) =
     (if supports_x3800h_source (source_id_str i) then Ok ()
      else Err ''source is not supported by the X3800H profile'')"
| "admit_intent (ISoundMode (Select mode)) =
     (if supports_x3800h_sound_mode mode then Ok ()
      else Err ''sound mode is not supported by the X3800H profile'')"
| "admit_intent _ = Ok ()"

definition current_matches :: "'a field_state \<Rightarrow> ('a \<Rightarrow> bool) \<Rightarrow> bool" where
  "current_matches field predicate =
     ((case fs_validity field of Current _ \<Rightarrow> True | _ \<Rightarrow> False)
      \<and> (case fs_last_good field of Some ob \<Rightarrow> predicate (ob_value ob) | None \<Rightarrow> False))"

fun sound_mode_matches :: "string \<Rightarrow> sound_mode_intent \<Rightarrow> bool" where
  "sound_mode_matches i Auto = eq_ignore_ascii_case i ''AUTO''"
| "sound_mode_matches i Direct = eq_ignore_ascii_case i ''DIRECT''"
| "sound_mode_matches i PureDirect = eq_ignore_ascii_case i ''PURE DIRECT''"
| "sound_mode_matches i Stereo = eq_ignore_ascii_case i ''STEREO''"
| "sound_mode_matches i RecallMovie = x3800h_sound_mode_in_category i Movie"
| "sound_mode_matches i RecallMusic = x3800h_sound_mode_in_category i Music"
| "sound_mode_matches i RecallGame = x3800h_sound_mode_in_category i Game"
| "sound_mode_matches i (Select v) = eq_ignore_ascii_case i v"

fun state_matches :: "receiver_state \<Rightarrow> receiver_intent \<Rightarrow> bool" where
  "state_matches s (ISystemPower v) = current_matches (rs_system_power s) (\<lambda>x. x = v)"
| "state_matches s (IMainZonePower v) = current_matches (mz_power (rs_main_zone s)) (\<lambda>x. x = v)"
| "state_matches s (IZone2Power v) = current_matches (rs_zone2_power s) (\<lambda>x. x = v)"
| "state_matches s (ISource v) = current_matches (mz_source (rs_main_zone s)) (\<lambda>x. x = v)"
| "state_matches s (IVolume v) = current_matches (mz_volume (rs_main_zone s)) (\<lambda>x. x = v)"
| "state_matches s (IMute v) = current_matches (mz_mute (rs_main_zone s)) (\<lambda>x. x = v)"
| "state_matches s (ISoundMode mode) =
     current_matches (mz_sound_mode (rs_main_zone s)) (\<lambda>x. sound_mode_matches (sms_id x) mode)"

fun describe_mismatch :: "precondition_mismatch \<Rightarrow> string" where
  "describe_mismatch MismatchEpoch = ''the receiver connection changed since the request was evaluated''"
| "describe_mismatch (MismatchField f) =
     core_field_debug f @ '' no longer shows what the request was evaluated against''"

text \<open>\<open>verify_precondition\<close>: the answers are those to the queries it makes, by field.\<close>

fun reobserve ::
  "(core_field \<Rightarrow> query_answer) \<Rightarrow> operation_id \<Rightarrow> core_field list \<Rightarrow> feed \<Rightarrow> operation_outcome option \<times> feed" where
  "reobserve answers operation [] fd = (None, fd)"
| "reobserve answers operation (f # fs) fd =
     (case query_and_reduce (answers f) (intent_for_field f) fd of
        (Err e, fd1) \<Rightarrow>
          (Some (RejectedBeforeDispatch operation ObservationFailed
             (''could not re-observe '' @ core_field_debug f @ '' before writing: '' @ operation_error_fmt e)),
           feed_failed f (operation_error_fmt e) fd1)
      | (Ok _, fd1) \<Rightarrow> reobserve answers operation fs fd1)"

definition verify_precondition ::
  "(core_field \<Rightarrow> query_answer) \<Rightarrow> precondition \<Rightarrow> core_field \<Rightarrow> operation_id \<Rightarrow> feed
     \<Rightarrow> operation_outcome option \<times> feed" where
  "verify_precondition answers p target operation fd =
     (case reobserve answers operation (filter (\<lambda>f. f \<noteq> target) (precondition_fields p)) fd of
        (Some outcome, fd1) \<Rightarrow> (Some outcome, fd1)
      | (None, fd1) \<Rightarrow>
          (case mismatch p (fd_state fd1) of
             None \<Rightarrow> (None, fd1)
           | Some m \<Rightarrow> (Some (RejectedBeforeDispatch operation (PreconditionMismatch m) (describe_mismatch m)), fd1)))"

text \<open>
  The confirmation window. A round is one pass of the loop; the rounds run out only when the
  clock never reaches the deadline.
\<close>

datatype pause = Slept | Heard avr_event monotonic_millis | TransportEnded

record confirmation_round =
  cr_answer :: query_answer
  cr_before_deadline :: bool
  cr_pause :: pause

fun confirm :: "confirmation_round list \<Rightarrow> operation_id \<Rightarrow> receiver_intent \<Rightarrow> feed \<Rightarrow> operation_outcome option \<times> feed" where
  "confirm [] operation intent fd = (None, fd)"
| "confirm (r # rounds) operation intent fd =
     (case query_and_reduce (cr_answer r) intent fd of
        (Ok _, fd1) \<Rightarrow>
          (if state_matches (fd_state fd1) intent
           then (Some (ObservedRequestedValue operation CompleteWrite ''post-dispatch receiver observation''), fd1)
           else if cr_before_deadline r
           then (case cr_pause r of
                   Slept \<Rightarrow> confirm rounds operation intent fd1
                 | Heard event now \<Rightarrow> confirm rounds operation intent (snd (apply_event now event fd1))
                 | TransportEnded \<Rightarrow>
                     (Some (Indeterminate operation CompleteWrite
                        ''receiver session stopped during confirmation window''), fd1))
           else (Some (Indeterminate operation CompleteWrite
                   ''requested value was not observed within the confirmation window''), fd1))
      | (Err e, fd1) \<Rightarrow>
          (Some (Indeterminate operation CompleteWrite (''post-dispatch observation failed: '' @ operation_error_fmt e)),
           feed_failed (intent_field intent) (operation_error_fmt e) fd1))"

record session =
  ss_feed :: feed
  ss_debt :: "sync_debt option"
  ss_cycle :: sync_cycle_id
  ss_actions :: u8
  ss_written :: "(operation_id \<times> string \<times> receiver_state) list"

record script =
  sc_closed :: bool
  sc_marked_at :: "core_field \<Rightarrow> monotonic_millis"
  sc_preflight :: query_answer
  sc_reobserved :: "core_field \<Rightarrow> query_answer"
  sc_settled_at :: "core_field \<Rightarrow> monotonic_millis"
  sc_withdrawn :: bool
  sc_dispatch :: "(unit, avr_session_error) result"
  sc_after :: query_answer
  sc_written_at :: monotonic_millis
  sc_rounds :: "confirmation_round list"

text \<open>The checks before the write: an outcome that ends the operation, or none to go on.\<close>

definition preflight ::
  "script \<Rightarrow> operation_request \<Rightarrow> sync_cycle_id \<Rightarrow> feed \<Rightarrow> operation_outcome option \<times> feed" where
  "preflight sc rq cycle fd =
     (let operation = rq_id rq; intent = rq_intent rq; field = intent_field intent in
      if sc_closed sc then (Some (OutcomeCancelled operation), fd)
      else case admit_intent intent of
        Err reason \<Rightarrow> (Some (RejectedBeforeDispatch operation UnsupportedIntent reason), fd)
      | Ok _ \<Rightarrow>
          (let fd1 = fold (\<lambda>f. feed_converging (sc_marked_at sc f) f LocalControl cycle) (dependency_fields field) fd in
           case query_and_reduce (sc_preflight sc) intent fd1 of
             (Err e, fd2) \<Rightarrow>
               (Some (RejectedBeforeDispatch operation ObservationFailed (''preflight failed: '' @ operation_error_fmt e)),
                feed_failed field (operation_error_fmt e) fd2)
           | (Ok _, fd2) \<Rightarrow>
               (case (case rq_precondition rq of
                        None \<Rightarrow> (None, fd2)
                      | Some p \<Rightarrow> verify_precondition (sc_reobserved sc) p field operation fd2) of
                  (Some outcome, fd3) \<Rightarrow> (Some outcome, fd3)
                | (None, fd3) \<Rightarrow>
                    if state_matches (fd_state fd3) intent
                    then (Some (AlreadyObserved operation ''targeted preflight observation''),
                          fold (\<lambda>f. feed_settled (sc_settled_at sc f) f cycle) (dependency_fields field) fd3)
                    else if sc_withdrawn sc then (Some (OutcomeCancelled operation), fd3)
                    else (None, fd3))))"

text \<open>What follows a write the transport could not complete.\<close>

definition failed_write ::
  "script \<Rightarrow> operation_request \<Rightarrow> avr_session_error \<Rightarrow> feed \<Rightarrow> operation_outcome \<times> feed" where
  "failed_write sc rq error fd =
     (let operation = rq_id rq; intent = rq_intent rq in
      case error of
        AvrInvalidCommand m \<Rightarrow>
          (RejectedBeforeDispatch operation CommandRefused (''command was not dispatched: '' @ m), fd)
      | AvrSessionStopped \<Rightarrow>
          (RejectedBeforeDispatch operation SessionStoppedCause ''session stopped before command dispatch'', fd)
      | _ \<Rightarrow>
          (case query_and_reduce (sc_after sc) intent fd of
             (Ok _, fd1) \<Rightarrow>
               ((if state_matches (fd_state fd1) intent
                 then ObservedRequestedValue operation UnknownDispatch ''receiver observation after ambiguous write''
                 else Indeterminate operation UnknownDispatch
                        (''write began but delivery is ambiguous: '' @ avr_session_error_fmt error)), fd1)
           | (Err e, fd1) \<Rightarrow>
               (Indeterminate operation UnknownDispatch
                  (''write began but delivery is ambiguous ('' @ avr_session_error_fmt error
                   @ ''); confirmation failed: '' @ operation_error_fmt e), fd1)))"

definition operate :: "script \<Rightarrow> operation_request \<Rightarrow> session \<Rightarrow> operation_outcome option \<times> session" where
  "operate sc rq ss =
     (case preflight sc rq (ss_cycle ss) (ss_feed ss) of
        (Some outcome, fd) \<Rightarrow> (Some outcome, ss\<lparr>ss_feed := fd\<rparr>)
      | (None, fd) \<Rightarrow>
          (case encode (rq_intent rq) of
             Err e \<Rightarrow> (Some (RejectedBeforeDispatch (rq_id rq) CommandRefused (protocol_error_fmt e)), ss\<lparr>ss_feed := fd\<rparr>)
           | Ok command \<Rightarrow>
               (let ss1 = ss\<lparr>ss_written := ss_written ss @ [(rq_id rq, avr_command_str command, fd_state fd)]\<rparr> in
                case sc_dispatch sc of
                  Err error \<Rightarrow> (case failed_write sc rq error fd of (outcome, fd1) \<Rightarrow> (Some outcome, ss1\<lparr>ss_feed := fd1\<rparr>))
                | Ok _ \<Rightarrow>
                    (let debt = map_option (defer_final_until (sc_written_at sc + 5000)) (ss_debt ss) in
                     case confirm (sc_rounds sc) (rq_id rq) (rq_intent rq) fd of
                       (outcome, fd1) \<Rightarrow> (outcome, ss1\<lparr>ss_feed := fd1, ss_debt := debt\<rparr>)))))"

section \<open>The actor\<close>

text \<open>One pass over some fields: each is queried, then marked settled or failed.\<close>

record pass =
  pa_answers :: "core_field \<Rightarrow> query_answer"
  pa_marked_at :: "core_field \<Rightarrow> monotonic_millis"
  pa_settled_at :: "core_field \<Rightarrow> monotonic_millis"

fun service_fields :: "pass \<Rightarrow> sync_cycle_id \<Rightarrow> bool \<Rightarrow> core_field list \<Rightarrow> feed \<times> sync_debt \<Rightarrow> bool \<times> feed \<times> sync_debt" where
  "service_fields pa cycle final_pass [] (fd, debt) = (True, fd, debt)"
| "service_fields pa cycle final_pass (f # fs) (fd, debt) =
     (case query_and_reduce (pa_answers pa f) (intent_for_field f) fd of
        (Ok _, fd1) \<Rightarrow>
          service_fields pa cycle final_pass fs
            (feed_settled (pa_settled_at pa f) f cycle fd1, if final_pass then settle_field f debt else debt)
      | (Err e, fd1) \<Rightarrow>
          (case service_fields pa cycle final_pass fs (feed_failed f (operation_error_fmt e) fd1, debt) of
             (_, rest) \<Rightarrow> (False, rest)))"

definition service_debt :: "monotonic_millis \<Rightarrow> pass \<Rightarrow> session \<Rightarrow> session" where
  "service_debt now pa ss =
     (case ss_debt ss of
        None \<Rightarrow> ss
      | Some current \<Rightarrow>
          (let final_pass = final_due now current;
               fields = filter (\<lambda>f. f \<in> sd_fields current) core_fields in
           if \<not> final_pass \<and> \<not> quick_due now current then ss
           else if fields = [] then (if final_pass then ss\<lparr>ss_debt := None\<rparr> else ss)
           else (case service_fields pa (ss_cycle ss) final_pass fields (ss_feed ss, current) of
                   (all_succeeded, fd, debt) \<Rightarrow>
                     ss\<lparr>ss_feed := fd,
                        ss_debt :=
                          (if \<not> debt_is_for (sd_receiver current) (sd_epoch current) debt then Some debt
                           else if all_succeeded \<and> (sd_final_reconcile_at debt = None \<or> (final_pass \<and> debt_settled debt))
                           then None
                           else if \<not> final_pass
                           then Some (defer_quick_until
                                  (case sd_final_reconcile_at debt of
                                     Some t \<Rightarrow> t | None \<Rightarrow> saturating_add now 5000) debt)
                           else Some debt)\<rparr>)))"

definition MAX_USER_ACTIONS_BEFORE_DEBT :: u8 where "MAX_USER_ACTIONS_BEFORE_DEBT = 8"
definition MAX_USER_WORK_WINDOW :: duration where "MAX_USER_WORK_WINDOW = from_millis_dur 500"

definition fairness_budget_due :: "sync_debt option \<Rightarrow> monotonic_millis \<Rightarrow> duration \<Rightarrow> u8 \<Rightarrow> bool" where
  "fairness_budget_due debt now user_work actions =
     ((case debt of Some d \<Rightarrow> quick_due now d \<or> final_due now d | None \<Rightarrow> False)
      \<and> (actions \<ge> MAX_USER_ACTIONS_BEFORE_DEBT \<or> user_work \<ge> MAX_USER_WORK_WINDOW))"

fun synchronize_fields :: "pass \<Rightarrow> sync_cycle_id \<Rightarrow> receiver_intent list \<Rightarrow> feed \<Rightarrow> bool \<times> feed" where
  "synchronize_fields pa cycle [] fd = (False, fd)"
| "synchronize_fields pa cycle (intent # intents) fd =
     (let f = intent_field intent;
          fd1 = feed_converging (pa_marked_at pa f) f ManualRefresh cycle fd in
      case query_and_reduce (pa_answers pa f) intent fd1 of
        (Ok _, fd2) \<Rightarrow> synchronize_fields pa cycle intents (feed_settled (pa_settled_at pa f) f cycle fd2)
      | (Err e, fd2) \<Rightarrow>
          (case synchronize_fields pa cycle intents (feed_failed f (operation_error_fmt e) fd2) of
             (_, fd3) \<Rightarrow> (True, fd3)))"

definition synchronize :: "pass \<Rightarrow> sync_cycle_id \<Rightarrow> feed \<Rightarrow> readiness \<times> feed" where
  "synchronize pa cycle fd =
     (case synchronize_fields pa cycle core_intents fd of
        (degraded, fd') \<Rightarrow>
          (\<lparr>rd_ready = \<not> degraded, rd_degraded = degraded,
            rd_detail = (if degraded then ''one or more core fields could not be observed''
                         else ''core receiver state synchronized'')\<rparr>, fd'))"

text \<open>A new cycle, a pass over every field, and the debt it clears.\<close>

definition refresh_all :: "pass \<Rightarrow> monotonic_millis \<Rightarrow> session \<Rightarrow> readiness \<times> session" where
  "refresh_all pa now ss =
     (let cycle = saturating_add (ss_cycle ss) 1 in
      case synchronize pa cycle (ss_feed ss) of
        (readiness, fd) \<Rightarrow>
          (readiness, ss\<lparr>ss_feed := fd, ss_cycle := cycle,
                         ss_debt := clear_settled_debt now (Ok readiness) (ss_debt ss)\<rparr>))"

definition session_connect :: "receiver_id \<Rightarrow> session" where
  "session_connect receiver =
     \<lparr>ss_feed = \<lparr>fd_state = snd (establish_epoch 1 (receiver_state_new receiver)), fd_epoch = 1, fd_seq = 0,
        fd_asked = []\<rparr>,
      ss_debt = None, ss_cycle = 0, ss_actions = 0, ss_written = []\<rparr>"

definition hear_event ::
  "avr_event \<Rightarrow> monotonic_millis \<Rightarrow> monotonic_millis \<Rightarrow> pass \<Rightarrow> monotonic_millis \<Rightarrow> session \<Rightarrow> session" where
  "hear_event event heard_at merged_at pa cleared_at ss =
     (case apply_event heard_at event (ss_feed ss) of
        (changed, fd) \<Rightarrow>
          (let ss1 = ss\<lparr>ss_feed := fd,
                 ss_debt := (case changed of
                    Some field \<Rightarrow> merge_debt merged_at field ReceiverEvent (ss_cycle ss) fd (ss_debt ss)
                  | None \<Rightarrow> ss_debt ss)\<rparr>
           in if event = EvReconnected then snd (refresh_all pa cleared_at ss1) else ss1))"

definition count_action :: "session \<Rightarrow> session" where
  "count_action ss = ss\<lparr>ss_actions := saturating_add (ss_actions ss) 1\<rparr>"

definition observe_field ::
  "core_field \<Rightarrow> query_answer \<Rightarrow> monotonic_millis \<Rightarrow> monotonic_millis \<Rightarrow> session
     \<Rightarrow> (unit, operation_error) result \<times> session" where
  "observe_field field qa marked_at settled_at ss =
     (let ss1 = count_action ss;
          cycle = saturating_add (ss_cycle ss) 1;
          fd1 = feed_converging marked_at field ManualRefresh cycle (ss_feed ss1) in
      case query_and_reduce qa (intent_for_field field) fd1 of
        (Ok u, fd2) \<Rightarrow> (Ok u, ss1\<lparr>ss_cycle := cycle, ss_feed := feed_settled settled_at field cycle fd2\<rparr>)
      | (Err e, fd2) \<Rightarrow>
          (Err e, ss1\<lparr>ss_cycle := cycle, ss_feed := feed_failed field (operation_error_fmt e) fd2\<rparr>))"

definition perform ::
  "script \<Rightarrow> bool \<Rightarrow> (core_field \<Rightarrow> monotonic_millis) \<Rightarrow> operation_request \<Rightarrow> session
     \<Rightarrow> operation_outcome option \<times> session" where
  "perform sc abandoned merged_at rq ss =
     (let cycle = saturating_add (ss_cycle ss) 1;
          ss1 = (count_action ss)\<lparr>ss_cycle := cycle\<rparr>;
          ss2 = (if abandoned then ss1
                 else ss1\<lparr>ss_debt := fold (\<lambda>f. merge_debt (merged_at f) f LocalControl cycle (ss_feed ss1))
                            (dependency_fields (intent_field (rq_intent rq))) (ss_debt ss1)\<rparr>)
      in operate sc rq ss2)"

text \<open>
  What the actor does between two passes of its loop. It ends when the transport or its last
  handle is gone, which no step follows.
\<close>

inductive session_step :: "session \<Rightarrow> session \<Rightarrow> bool" where
  at_start: "session_step ss (snd (refresh_all pa now ss))"
| at_fairness: "fairness_budget_due (ss_debt ss) now user_work (ss_actions ss) \<Longrightarrow>
     session_step ss ((service_debt later pa ss)\<lparr>ss_actions := 0\<rparr>)"
| at_debt_tick: "session_step ss (service_debt now pa ss)"
| at_sweep: "session_step ss (snd (refresh_all pa cleared_at (ss\<lparr>ss_feed := feed_expire now (ss_feed ss)\<rparr>)))"
| at_event: "session_step ss (hear_event event heard_at merged_at pa cleared_at ss)"
| at_observe: "session_step ss (snd (observe_field field qa marked_at settled_at ss))"
| at_synchronize: "session_step ss (snd (refresh_all pa now (count_action ss)))"
| at_operate: "perform sc abandoned merged_at rq ss = (Some outcome, ss') \<Longrightarrow> session_step ss ss'"

inductive_cases session_stepE: "session_step ss ss'"

abbreviation session_steps :: "session \<Rightarrow> session \<Rightarrow> bool" where
  "session_steps \<equiv> session_step\<^sup>*\<^sup>*"

end
