(* ===== verification/Session_Contract.thy ===== *)
theory Session_Contract
  imports Session
begin

text \<open>
  What a session does to its feed is built from a few primitive operations. \<open>feed_relation\<close> is
  the contract of a relation those operations respect; its lemmas carry the relation over
  queries, operations and every step of the actor. It is interpreted on the histories of the
  canonical state, and on what was asked and counted.
\<close>

locale feed_relation =
  fixes rel :: "feed \<Rightarrow> feed \<Rightarrow> bool"
  assumes rel_refl: "rel fd fd"
    and rel_trans: "rel fd fd1 \<Longrightarrow> rel fd1 fd2 \<Longrightarrow> rel fd fd2"
    and rel_line: "rel fd (snd (reduce_line now line in_query fd))"
    and rel_generation: "rel fd (synchronize_generation g fd)"
    and rel_ask: "rel fd (fd\<lparr>fd_asked := fd_asked fd @ [query_text intent]\<rparr>)"
    and rel_event: "rel fd (snd (apply_event now ev fd))"
    and rel_converging: "rel fd (feed_converging now f cause cycle fd)"
    and rel_settled: "rel fd (feed_settled now f cycle fd)"
    and rel_failed: "rel fd (feed_failed f m fd)"
    and rel_expire: "rel fd (feed_expire now fd)"
begin

lemma rel_query: "rel fd (snd (query_and_reduce qa intent fd))"
proof -
  define fd1 where "fd1 = (synchronize_generation (qa_generation_before qa) fd)\<lparr>fd_asked := fd_asked fd @ [query_text intent]\<rparr>"
  have "fd_asked (synchronize_generation g fd) = fd_asked fd" for g
    by (simp add: synchronize_generation_def Let_def)
  then have asked: "rel fd fd1"
    using rel_trans [OF rel_generation rel_ask, of fd "qa_generation_before qa" intent] by (simp add: fd1_def)
  note rel_trans [OF asked rel_trans [OF rel_generation rel_line]]
  with asked show ?thesis by (simp add: query_and_reduce_def fd1_def Let_def split: sum.split)
qed

lemma rel_query': "query_and_reduce qa intent fd = (res, fd') \<Longrightarrow> rel fd fd'"
  using rel_query by (metis snd_conv)

lemma rel_fold: "(\<And>f fd. rel fd (step f fd)) \<Longrightarrow> rel fd (fold step fs fd)"
proof (induction fs arbitrary: fd)
  case (Cons f fs)
  from rel_trans [OF Cons.prems Cons.IH [OF Cons.prems]] show ?case by simp
qed (simp add: rel_refl)

lemma rel_reobserve: "reobserve answers operation fs fd = (res, fd') \<Longrightarrow> rel fd fd'"
proof (induction fs arbitrary: fd)
  case (Cons f fs)
  obtain r fd1 where q: "query_and_reduce (answers f) (intent_for_field f) fd = (r, fd1)" by fastforce
  note q' = rel_query' [OF q]
  show ?case
  proof (cases r)
    case (Inl e)
    with Cons.prems q rel_failed rel_trans [OF q'] show ?thesis by auto
  next
    case (Inr u)
    with Cons q rel_trans [OF q'] show ?thesis by auto
  qed
qed (simp add: rel_refl)

lemma rel_verify: "verify_precondition answers p target operation fd = (res, fd') \<Longrightarrow> rel fd fd'"
  by (auto simp: verify_precondition_def split: prod.splits option.splits dest: rel_reobserve)

lemma rel_preflight: "preflight sc rq cycle fd = (res, fd') \<Longrightarrow> rel fd fd'"
proof -
  assume p: "preflight sc rq cycle fd = (res, fd')"
  define fd1 where "fd1 = fold (\<lambda>f. feed_converging (sc_marked_at sc f) f LocalControl cycle)
      (dependency_fields (intent_field (rq_intent rq))) fd"
  have r1: "rel fd fd1" unfolding fd1_def by (rule rel_fold) (rule rel_converging)
  obtain r2 fd2 where q: "query_and_reduce (sc_preflight sc) (rq_intent rq) fd1 = (r2, fd2)" by fastforce
  have r2: "rel fd fd2" using rel_trans [OF r1 rel_query' [OF q]] .
  obtain r3 fd3 where v: "(case rq_precondition rq of None \<Rightarrow> (None, fd2)
      | Some pc \<Rightarrow> verify_precondition (sc_reobserved sc) pc (intent_field (rq_intent rq)) (rq_id rq) fd2) = (r3, fd3)"
    by fastforce
  then have r3: "rel fd fd3"
    using r2 rel_trans [OF r2] by (cases "rq_precondition rq") (auto dest: rel_verify)
  have r4: "rel fd (fold (\<lambda>f. feed_settled (sc_settled_at sc f) f cycle) (dependency_fields (intent_field (rq_intent rq))) fd3)"
    by (rule rel_trans [OF r3], rule rel_fold) (rule rel_settled)
  show ?thesis
  proof (cases "sc_closed sc \<or> (\<exists>e. admit_intent (rq_intent rq) = Err e)")
    case True
    with p rel_refl show ?thesis by (auto simp: preflight_def Let_def split: sum.splits if_splits)
  next
    case False
    then obtain u where "admit_intent (rq_intent rq) = Ok u" by (cases "admit_intent (rq_intent rq)") auto
    with p q v False r2 rel_failed rel_trans [OF r2] r3 r4 show ?thesis
      by (auto simp: preflight_def Let_def fd1_def [symmetric] split: sum.splits option.splits if_splits)
  qed
qed

lemma rel_confirm: "confirm rounds operation intent fd = (res, fd') \<Longrightarrow> rel fd fd'"
proof (induction rounds arbitrary: fd)
  case (Cons r rounds)
  obtain a fd1 where q: "query_and_reduce (cr_answer r) intent fd = (a, fd1)" by fastforce
  note q' = rel_query' [OF q]
  show ?case
  proof (cases a)
    case (Inl e)
    with Cons.prems q rel_failed rel_trans [OF q'] show ?thesis by auto
  next
    case (Inr u)
    have ev: "rel fd (snd (apply_event now ev fd1))" for now ev using rel_trans [OF q' rel_event] .
    note heard = rel_trans [OF ev Cons.IH] and slept = rel_trans [OF q' Cons.IH]
    from Cons.prems q Inr q' heard slept show ?thesis
      by (simp split: if_splits pause.splits)
  qed
qed (simp add: rel_refl)

lemma rel_failed_write: "failed_write sc rq error fd = (oc, fd') \<Longrightarrow> rel fd fd'"
proof -
  assume f: "failed_write sc rq error fd = (oc, fd')"
  obtain a fd1 where q: "query_and_reduce (sc_after sc) (rq_intent rq) fd = (a, fd1)" by fastforce
  from f q rel_query' [OF q] rel_refl show ?thesis
    by (cases error; cases a) (auto simp: failed_write_def Let_def)
qed

lemma rel_operate: "operate sc rq ss = (res, ss') \<Longrightarrow> rel (ss_feed ss) (ss_feed ss')"
proof -
  assume o: "operate sc rq ss = (res, ss')"
  obtain r fd where p: "preflight sc rq (ss_cycle ss) (ss_feed ss) = (r, fd)" by fastforce
  note p' = rel_preflight [OF p]
  show ?thesis
  proof (cases r)
    case (Some oc)
    with o p p' show ?thesis by (auto simp: operate_def)
  next
    case None
    have c: "rel (ss_feed ss) fd'" if "confirm rounds operation intent fd = (oc, fd')" for rounds operation intent oc fd'
      using rel_trans [OF p' rel_confirm [OF that]] .
    have w: "rel (ss_feed ss) fd'" if "failed_write sc rq e fd = (oc, fd')" for e oc fd'
      using rel_trans [OF p' rel_failed_write [OF that]] .
    from o p None p' c w show ?thesis
      by (auto simp: operate_def Let_def split: sum.splits prod.splits)
  qed
qed

lemma rel_service_fields:
  "service_fields pa cycle final fs (fd, debt) = (all, fd', debt') \<Longrightarrow> rel fd fd'"
proof (induction fs arbitrary: fd debt all)
  case (Cons f fs)
  obtain a fd1 where q: "query_and_reduce (pa_answers pa f) (intent_for_field f) fd = (a, fd1)" by fastforce
  note q' = rel_query' [OF q]
  show ?case
  proof (cases a)
    case (Inl e)
    obtain all1 where "service_fields pa cycle final fs (feed_failed f (operation_error_fmt e) fd1, debt) = (all1, fd', debt')"
      using Cons.prems q Inl by (auto split: prod.splits)
    from rel_trans [OF q' rel_trans [OF rel_failed Cons.IH [OF this]]] show ?thesis .
  next
    case (Inr u)
    with Cons.prems q have
      "service_fields pa cycle final fs (feed_settled (pa_settled_at pa f) f cycle fd1, if final then settle_field f debt else debt)
        = (all, fd', debt')" by simp
    from rel_trans [OF q' rel_trans [OF rel_settled Cons.IH [OF this]]] show ?thesis .
  qed
qed (simp add: rel_refl)

lemma rel_service_debt: "rel (ss_feed ss) (ss_feed (service_debt now pa ss))"
proof (cases "ss_debt ss")
  case (Some d)
  obtain all fd debt where "service_fields pa (ss_cycle ss) (final_due now d)
      (filter (\<lambda>f. f \<in> sd_fields d) core_fields) (ss_feed ss, d) = (all, fd, debt)" by (metis prod_cases3)
  with rel_service_fields [OF this] Some rel_refl show ?thesis by (auto simp: service_debt_def Let_def)
qed (simp add: service_debt_def rel_refl)

lemma rel_synchronize_fields: "synchronize_fields pa cycle intents fd = (deg, fd') \<Longrightarrow> rel fd fd'"
proof (induction intents arbitrary: fd deg)
  case (Cons intent intents)
  let ?f = "intent_field intent"
  let ?fd = "feed_converging (pa_marked_at pa ?f) ?f ManualRefresh cycle fd"
  obtain a fd1 where q: "query_and_reduce (pa_answers pa ?f) intent ?fd = (a, fd1)" by fastforce
  have q': "rel fd fd1" using rel_trans [OF rel_converging rel_query' [OF q]] .
  show ?case
  proof (cases a)
    case (Inl e)
    obtain deg1 where "synchronize_fields pa cycle intents (feed_failed ?f (operation_error_fmt e) fd1) = (deg1, fd')"
      using Cons.prems q Inl by (auto simp: Let_def split: prod.splits)
    from rel_trans [OF q' rel_trans [OF rel_failed Cons.IH [OF this]]] show ?thesis .
  next
    case (Inr u)
    with Cons.prems q have "synchronize_fields pa cycle intents (feed_settled (pa_settled_at pa ?f) ?f cycle fd1) = (deg, fd')"
      by (simp add: Let_def)
    from rel_trans [OF q' rel_trans [OF rel_settled Cons.IH [OF this]]] show ?thesis .
  qed
qed (simp add: rel_refl)

lemma rel_refresh: "rel (ss_feed ss) (ss_feed (snd (refresh_all pa now ss)))"
  using rel_synchronize_fields
  by (auto simp: refresh_all_def synchronize_def Let_def split: prod.splits)

lemma rel_refresh': "ss_feed s1 = fd \<Longrightarrow> rel fd (ss_feed (snd (refresh_all pa now s1)))"
  using rel_refresh by blast

lemma rel_hear: "rel (ss_feed ss) (ss_feed (hear_event ev t1 t2 pa t3 ss))"
proof -
  obtain changed fd where e: "apply_event t1 ev (ss_feed ss) = (changed, fd)" by fastforce
  then have r: "rel (ss_feed ss) fd" using rel_event by (metis snd_conv)
  show ?thesis
    using e r rel_trans [OF r rel_refresh'] by (simp add: hear_event_def Let_def)
qed

lemma rel_observe: "rel (ss_feed ss) (ss_feed (snd (observe_field f qa t1 t2 ss)))"
proof -
  let ?fd = "feed_converging t1 f ManualRefresh (saturating_add (ss_cycle ss) 1) (ss_feed ss)"
  obtain a fd1 where q: "query_and_reduce qa (intent_for_field f) ?fd = (a, fd1)" by fastforce
  have q': "rel (ss_feed ss) fd1" using rel_trans [OF rel_converging rel_query' [OF q]] .
  from q rel_trans [OF q' rel_settled] rel_trans [OF q' rel_failed] show ?thesis
    by (cases a) (auto simp: observe_field_def count_action_def Let_def)
qed

lemma rel_step: "session_step ss ss' \<Longrightarrow> rel (ss_feed ss) (ss_feed ss')"
proof (erule session_step.cases, goal_cases)
  case (4 ss pa cleared_at now)
  have "rel (ss_feed ss) (ss_feed (snd (refresh_all pa cleared_at (ss\<lparr>ss_feed := feed_expire now (ss_feed ss)\<rparr>))))"
    by (rule rel_trans [OF rel_expire rel_refresh']) simp
  with 4 show ?case by simp
next
  case (7 ss pa now)
  then show ?case using rel_refresh [of "count_action ss"] by (simp add: count_action_def)
next
  case (8 sc abandoned merged_at rq ss outcome ss')
  have same: "ss_feed (if abandoned then s1 else s1\<lparr>ss_debt := x\<rparr>) = ss_feed s1" for s1 x by simp
  from 8 show ?case
    using rel_operate [of sc rq _ "Some outcome" ss'] unfolding perform_def Let_def
    by (fastforce simp: count_action_def split: if_splits)
qed (use rel_refresh rel_service_debt rel_hear rel_observe in auto)

lemma rel_steps: "session_steps ss ss' \<Longrightarrow> rel (ss_feed ss) (ss_feed ss')"
  by (induction rule: rtranclp_induct) (auto intro: rel_refl rel_trans rel_step)

end

section \<open>Histories of the canonical state\<close>

definition agrees :: "feed \<Rightarrow> bool" where
  "agrees fd \<longleftrightarrow> rs_epoch (fd_state fd) \<in> {None, Some (fd_epoch fd)}"

definition evolves :: "feed \<Rightarrow> feed \<Rightarrow> bool" where
  "evolves fd fd' \<longleftrightarrow> rs_steps (fd_state fd) (fd_state fd') \<and> (agrees fd \<longrightarrow> agrees fd')"

lemma evolves_trans: "evolves fd fd1 \<Longrightarrow> evolves fd1 fd2 \<Longrightarrow> evolves fd fd2"
  unfolding evolves_def by (meson rtranclp_trans)

lemma evolves_frame: "fd_state fd' = fd_state fd \<Longrightarrow> fd_epoch fd' = fd_epoch fd \<Longrightarrow> evolves fd fd'"
  by (simp add: evolves_def agrees_def)

lemma evolves_one:
  "rs_step (fd_state fd) (fd_state fd') \<Longrightarrow> rs_epoch (fd_state fd') \<in> {None, rs_epoch (fd_state fd)} \<Longrightarrow>
   fd_epoch fd' = fd_epoch fd \<Longrightarrow> evolves fd fd'"
  by (auto simp: evolves_def agrees_def)

lemma state_epoch [simp]:
  "rs_epoch (record_diagnostic d s) = rs_epoch s" "rs_epoch (rs_mark_converging f c w t s) = rs_epoch s"
  "rs_epoch (rs_mark_settled f c t s) = rs_epoch s" "rs_epoch (rs_mark_query_failed f m s) = rs_epoch s"
  "rs_epoch (snd (reduce st fr s)) = rs_epoch s" "rs_epoch (mark_disconnected s) = None"
  "rs_epoch (snd (expire_fields now s)) = rs_epoch s"
  by (simp_all add: record_diagnostic_def bump_revision_def rs_mark_converging_def rs_mark_settled_def
      rs_mark_query_failed_def reduce_def mark_disconnected_def expire_fields_def Let_def split_beta)

lemma evolves_reestablished:
  assumes "st = fd_state fd \<or> st = mark_disconnected (fd_state fd)" "rs_epoch st = None"
  shows "evolves fd (fd\<lparr>fd_state := snd (establish_epoch e st), fd_epoch := e\<rparr>)"
proof -
  have "rs_steps (fd_state fd) st" using assms(1) step_disconnect by blast
  with step_establish [OF assms(2), of e] have "rs_steps (fd_state fd) (snd (establish_epoch e st))"
    by (meson rtranclp.rtrancl_into_rtrancl)
  moreover have "rs_epoch (snd (establish_epoch e st)) = Some e" using assms(2) by (simp add: establish_epoch_def bump_revision_def)
  ultimately show ?thesis by (simp add: evolves_def agrees_def)
qed

lemma evolves_line: "evolves fd (snd (reduce_line now line in_query fd))"
proof -
  have seq: "evolves fd (fd\<lparr>fd_seq := n\<rparr>)" for n by (rule evolves_frame) simp_all
  have diag: "evolves fd (fd\<lparr>fd_seq := n, fd_state := record_diagnostic d (fd_state fd)\<rparr>)" for n d
    by (rule evolves_one) (simp_all add: step_diagnostic)
  have red: "evolves fd (fd\<lparr>fd_seq := n, fd_state := snd (reduce st fr (fd_state fd))\<rparr>)" for n st fr
    by (rule evolves_one) (simp_all add: step_reduce)
  have mark: "evolves fd (fd\<lparr>fd_seq := n, fd_state := rs_mark_converging f c w t (snd (reduce st fr (fd_state fd)))\<rparr>)"
    for n st fr f c w t
  proof -
    have "evolves (fd\<lparr>fd_seq := n, fd_state := snd (reduce st fr (fd_state fd))\<rparr>)
        (fd\<lparr>fd_seq := n, fd_state := rs_mark_converging f c w t (snd (reduce st fr (fd_state fd)))\<rparr>)"
      by (rule evolves_one) (simp_all add: step_converging)
    with red show ?thesis by (rule evolves_trans)
  qed
  show ?thesis
    using seq diag red mark
    by (auto simp: reduce_line_def Let_def split: sum.split x3800h_frame.split option.split)
qed

interpretation ev: feed_relation evolves
proof (unfold_locales, goal_cases)
  case (1 fd) show ?case by (simp add: evolves_frame)
next
  case (2 fd fd1 fd2) then show ?case by (rule evolves_trans)
next
  case (3 fd now line in_query) show ?case by (rule evolves_line)
next
  case (4 fd g)
  show ?case
    using evolves_reestablished [of _ fd "saturating_add g 1"] evolves_frame [of fd fd]
    by (auto simp: synchronize_generation_def Let_def)
next
  case (5 fd intent) show ?case by (rule evolves_frame) simp_all
next
  case (6 fd now ev)
  show ?case
  proof (cases ev)
    case EvReconnected
    have swap: "fd\<lparr>fd_epoch := e, fd_state := st\<rparr> = fd\<lparr>fd_state := st, fd_epoch := e\<rparr>" for e st by simp
    have "evolves fd (fd\<lparr>fd_state := snd (establish_epoch e (mark_disconnected (fd_state fd))), fd_epoch := e\<rparr>)" for e
      by (rule evolves_reestablished) simp_all
    with EvReconnected show ?thesis by (simp only: apply_event.simps Let_def snd_conv swap)
  next
    case (EvLine line)
    then show ?thesis by (simp add: evolves_line)
  next
    case (EvDisconnected g m)
    have "evolves fd (fd\<lparr>fd_state := mark_disconnected (fd_state fd)\<rparr>)"
      by (rule evolves_one) (simp_all add: step_disconnect)
    with EvDisconnected show ?thesis by (simp add: evolves_frame)
  qed (simp add: evolves_frame)
next
  case (7 fd now f cause cycle)
  show ?case unfolding feed_converging_def by (rule evolves_one) (simp_all add: step_converging)
next
  case (8 fd now f cycle)
  show ?case unfolding feed_settled_def by (rule evolves_one) (simp_all add: step_settled)
next
  case (9 fd f m)
  show ?case unfolding feed_failed_def by (rule evolves_one) (simp_all add: step_query_failed)
next
  case (10 fd now)
  have "evolves fd (fd\<lparr>fd_state := snd (expire_fields now (fd_state fd))\<rparr>)"
    by (rule evolves_one) (simp_all add: step_expire)
  then show ?case unfolding feed_expire_def by (auto simp: evolves_frame split: prod.splits bool.splits)
qed

section \<open>What is asked and counted\<close>

definition advances :: "feed \<Rightarrow> feed \<Rightarrow> bool" where
  "advances fd fd' \<longleftrightarrow> fd_seq fd \<le> fd_seq fd'
     \<and> (\<exists>asked. fd_asked fd' = fd_asked fd @ asked \<and> (\<forall>q \<in> set asked. \<exists>intent. q = query_text intent))"

lemma advances_frame: "fd_seq fd' = fd_seq fd \<Longrightarrow> fd_asked fd' = fd_asked fd \<Longrightarrow> advances fd fd'"
  by (simp add: advances_def)

lemma advances_trans:
  assumes "advances fd fd1" "advances fd1 fd2"
  shows "advances fd fd2"
proof -
  from assms obtain xs ys where "fd_asked fd1 = fd_asked fd @ xs" "\<forall>q \<in> set xs. \<exists>intent. q = query_text intent"
    "fd_asked fd2 = fd_asked fd1 @ ys" "\<forall>q \<in> set ys. \<exists>intent. q = query_text intent"
    unfolding advances_def by blast
  with assms show ?thesis unfolding advances_def by (intro conjI exI [of _ "xs @ ys"]) (auto intro: order.trans)
qed

lemma line_frame:
  "fd_seq (snd (reduce_line now line in_query fd)) = saturating_add (fd_seq fd) 1"
  "fd_asked (snd (reduce_line now line in_query fd)) = fd_asked fd"
  "fd_epoch (snd (reduce_line now line in_query fd)) = fd_epoch fd"
  by (simp_all add: reduce_line_def Let_def split: sum.split x3800h_frame.split option.split)

interpretation hist: feed_relation advances
proof (unfold_locales, goal_cases)
  case (3 fd now line in_query)
  then show ?case by (simp add: advances_def line_frame saturating_add_ge)
next
  case (6 fd now ev)
  show ?case
    by (cases ev) (auto simp: advances_def line_frame saturating_add_ge Let_def)
next
  case (2 fd fd1 fd2) then show ?case by (rule advances_trans)
qed (auto simp: advances_def synchronize_generation_def feed_converging_def feed_settled_def feed_failed_def
    feed_expire_def Let_def split: prod.split bool.split)

end
