(* ===== verification/Session_Properties.thy ===== *)
theory Session_Properties
  imports Session_Contract
begin

text \<open>
  What the X3800H session promises its callers: a write only after the checks it names, outcomes
  that say what was and was not dispatched, and a state whose current fields all come from the
  connection in force.
\<close>

section \<open>The checks before a write\<close>

lemma query_asked:
  "query_and_reduce qa intent fd = (res, fd') \<Longrightarrow> fd_asked fd' = fd_asked fd @ [query_text intent]"
  by (auto simp: query_and_reduce_def Let_def synchronize_generation_def line_frame split: sum.splits if_splits)

lemma reobserve_asked:
  "reobserve answers operation fs fd = (None, fd') \<Longrightarrow>
   fd_asked fd' = fd_asked fd @ map (\<lambda>f. query_text (intent_for_field f)) fs"
proof (induction fs arbitrary: fd)
  case (Cons f fs)
  obtain a fd1 where q: "query_and_reduce (answers f) (intent_for_field f) fd = (a, fd1)" by fastforce
  with Cons.prems query_asked [OF q] Cons.IH [of fd1] show ?case by (cases a) auto
qed simp

lemma reobserve_rejects:
  "reobserve answers operation fs fd = (Some oc, fd') \<Longrightarrow> \<exists>cause why. oc = RejectedBeforeDispatch operation cause why"
proof (induction fs arbitrary: fd)
  case (Cons f fs)
  obtain a fd1 where "query_and_reduce (answers f) (intent_for_field f) fd = (a, fd1)" by fastforce
  with Cons show ?case by (cases a) auto
qed simp

lemma verify_cases:
  assumes "verify_precondition answers p target operation fd = (res, fd')"
  shows "res = None \<Longrightarrow> mismatch p (fd_state fd') = None \<and> fd_asked fd' = fd_asked fd @
      map (\<lambda>f. query_text (intent_for_field f)) (filter (\<lambda>f. f \<noteq> target) (precondition_fields p))"
    and "res = Some oc \<Longrightarrow> \<exists>cause why. oc = RejectedBeforeDispatch operation cause why"
proof -
  obtain r fd1 where ro: "reobserve answers operation (filter (\<lambda>f. f \<noteq> target) (precondition_fields p)) fd = (r, fd1)"
    by fastforce
  show "res = None \<Longrightarrow> mismatch p (fd_state fd') = None \<and> fd_asked fd' = fd_asked fd @
      map (\<lambda>f. query_text (intent_for_field f)) (filter (\<lambda>f. f \<noteq> target) (precondition_fields p))"
    using assms ro by (auto simp: verify_precondition_def reobserve_asked split: option.splits)
  show "res = Some oc \<Longrightarrow> \<exists>cause why. oc = RejectedBeforeDispatch operation cause why"
    using assms ro reobserve_rejects by (cases r) (auto simp: verify_precondition_def split: option.splits)
qed

lemma fold_asked [simp]:
  "fd_asked (fold (\<lambda>f. feed_converging (t f) f cause cycle) fs fd) = fd_asked fd"
  by (induction fs arbitrary: fd) (simp_all add: feed_converging_def)

definition checks_of :: "operation_request \<Rightarrow> string list" where
  "checks_of rq = query_text (rq_intent rq) #
     (case rq_precondition rq of
        None \<Rightarrow> []
      | Some p \<Rightarrow> map (\<lambda>f. query_text (intent_for_field f))
                    (filter (\<lambda>f. f \<noteq> intent_field (rq_intent rq)) (precondition_fields p)))"

lemma preflight_cases:
  assumes "preflight sc rq cycle fd = (res, fd')"
  obtains (go) "res = None" "admit_intent (rq_intent rq) = Ok ()" "\<not> state_matches (fd_state fd') (rq_intent rq)"
      "\<forall>p. rq_precondition rq = Some p \<longrightarrow> mismatch p (fd_state fd') = None"
      "fd_asked fd' = fd_asked fd @ checks_of rq"
  | (stop) oc where "res = Some oc" "oc = OutcomeCancelled (rq_id rq)
      \<or> (\<exists>cause why. oc = RejectedBeforeDispatch (rq_id rq) cause why) \<or> (\<exists>what. oc = AlreadyObserved (rq_id rq) what)"
proof -
  define fd1 where "fd1 = fold (\<lambda>f. feed_converging (sc_marked_at sc f) f LocalControl cycle)
      (dependency_fields (intent_field (rq_intent rq))) fd"
  obtain a fd2 where q: "query_and_reduce (sc_preflight sc) (rq_intent rq) fd1 = (a, fd2)" by fastforce
  obtain r3 fd3 where v: "(case rq_precondition rq of None \<Rightarrow> (None, fd2)
      | Some pc \<Rightarrow> verify_precondition (sc_reobserved sc) pc (intent_field (rq_intent rq)) (rq_id rq) fd2) = (r3, fd3)"
    by fastforce
  have asked2: "fd_asked fd2 = fd_asked fd @ [query_text (rq_intent rq)]" using query_asked [OF q] by (simp add: fd1_def)
  show ?thesis
  proof (cases "sc_closed sc")
    case True
    with assms stop show ?thesis by (auto simp: preflight_def Let_def)
  next
    case opened: False
    show ?thesis
    proof (cases "admit_intent (rq_intent rq)")
      case (Inl reason)
      with assms opened stop show ?thesis by (auto simp: preflight_def Let_def)
    next
      case admitted: (Inr u)
      show ?thesis
      proof (cases a)
        case (Inl e)
        with assms opened admitted q stop show ?thesis by (auto simp: preflight_def Let_def fd1_def)
      next
        case (Inr u')
        have run: "preflight sc rq cycle fd = (case (r3, fd3) of
            (Some outcome, fd3) \<Rightarrow> (Some outcome, fd3)
          | (None, fd3) \<Rightarrow>
              if state_matches (fd_state fd3) (rq_intent rq)
              then (Some (AlreadyObserved (rq_id rq) ''targeted preflight observation''),
                    fold (\<lambda>f. feed_settled (sc_settled_at sc f) f cycle) (dependency_fields (intent_field (rq_intent rq))) fd3)
              else if sc_withdrawn sc then (Some (OutcomeCancelled (rq_id rq)), fd3) else (None, fd3))"
          using opened admitted q Inr v by (simp add: preflight_def Let_def fd1_def)
        show ?thesis
        proof (cases r3)
          case (Some oc)
          with v have "\<exists>cause why. oc = RejectedBeforeDispatch (rq_id rq) cause why"
            by (cases "rq_precondition rq") (auto dest: verify_cases(2))
          with Some run assms stop show ?thesis by simp
        next
          case None
          have checked: "fd_asked fd3 = fd_asked fd @ checks_of rq"
            "\<forall>p. rq_precondition rq = Some p \<longrightarrow> mismatch p (fd_state fd3) = None"
            using v None asked2 by (cases "rq_precondition rq"; auto simp: checks_of_def dest: verify_cases(1))+
          show ?thesis
          proof (cases "state_matches (fd_state fd3) (rq_intent rq) \<or> sc_withdrawn sc")
            case True
            with None run assms stop show ?thesis by (auto split: if_splits)
          next
            case False
            with None run assms have "res = None" "fd' = fd3" by simp_all
            with go checked False admitted show ?thesis by simp
          qed
        qed
      qed
    qed
  qed
qed

section \<open>What an operation writes and says\<close>

lemma confirm_outcomes:
  assumes "confirm rounds operation intent fd = (Some oc, fd')"
  shows "(\<exists>what. oc = ObservedRequestedValue operation CompleteWrite what) \<and> state_matches (fd_state fd') intent
    \<or> (\<exists>why. oc = Indeterminate operation CompleteWrite why)"
  using assms
proof (induction rounds arbitrary: fd)
  case (Cons r rounds)
  obtain a fd1 where "query_and_reduce (cr_answer r) intent fd = (a, fd1)" by fastforce
  with Cons show ?case by (cases a) (auto split: if_splits pause.splits)
qed simp

text \<open>The errors that say the transport never began the write.\<close>

fun never_began :: "avr_session_error \<Rightarrow> bool" where
  "never_began (AvrInvalidCommand _) = True"
| "never_began AvrSessionStopped = True"
| "never_began _ = False"

lemma failed_write_outcomes:
  assumes "failed_write sc rq error fd = (oc, fd')"
  shows "never_began error \<and> (\<exists>cause why. oc = RejectedBeforeDispatch (rq_id rq) cause why)
    \<or> \<not> never_began error \<and>
      ((\<exists>what. oc = ObservedRequestedValue (rq_id rq) UnknownDispatch what) \<and> state_matches (fd_state fd') (rq_intent rq)
       \<or> (\<exists>why. oc = Indeterminate (rq_id rq) UnknownDispatch why))"
proof -
  obtain a fd1 where "query_and_reduce (sc_after sc) (rq_intent rq) fd = (a, fd1)" by fastforce
  with assms show ?thesis
    by (cases error; cases a) (auto simp: failed_write_def Let_def split: if_splits)
qed

lemma operate_cases:
  assumes "operate sc rq ss = (res, ss')"
  obtains (unwritten) oc where "res = Some oc" "ss_written ss' = ss_written ss"
      "oc = OutcomeCancelled (rq_id rq) \<or> (\<exists>cause why. oc = RejectedBeforeDispatch (rq_id rq) cause why)
        \<or> (\<exists>what. oc = AlreadyObserved (rq_id rq) what)"
  | (written) c fd where "admit_intent (rq_intent rq) = Ok ()" "encode (rq_intent rq) = Ok c"
      "\<not> state_matches (fd_state fd) (rq_intent rq)"
      "\<forall>p. rq_precondition rq = Some p \<longrightarrow> mismatch p (fd_state fd) = None"
      "fd_asked fd = fd_asked (ss_feed ss) @ checks_of rq"
      "ss_written ss' = ss_written ss @ [(rq_id rq, avr_command_str c, fd_state fd)]"
      "case sc_dispatch sc of Err e \<Rightarrow> (\<exists>oc. res = Some oc \<and> failed_write sc rq e fd = (oc, ss_feed ss'))
         | Ok _ \<Rightarrow> confirm (sc_rounds sc) (rq_id rq) (rq_intent rq) fd = (res, ss_feed ss')"
proof -
  obtain r fd where p: "preflight sc rq (ss_cycle ss) (ss_feed ss) = (r, fd)" by fastforce
  from p show ?thesis
  proof (cases rule: preflight_cases)
    case (stop oc)
    with assms p unwritten show ?thesis by (auto simp: operate_def)
  next
    case go
    show ?thesis
    proof (cases "encode (rq_intent rq)")
      case (Inl e)
      with assms p go unwritten show ?thesis by (auto simp: operate_def)
    next
      case (Inr c)
      show ?thesis
      proof (rule written [OF go(2) Inr go(3-5)])
        show "ss_written ss' = ss_written ss @ [(rq_id rq, avr_command_str c, fd_state fd)]"
          using assms p go(1) Inr by (auto simp: operate_def Let_def split: sum.splits prod.splits)
        show "case sc_dispatch sc of Err e \<Rightarrow> (\<exists>oc. res = Some oc \<and> failed_write sc rq e fd = (oc, ss_feed ss'))
         | Ok _ \<Rightarrow> confirm (sc_rounds sc) (rq_id rq) (rq_intent rq) fd = (res, ss_feed ss')"
          using assms p go(1) Inr by (auto simp: operate_def Let_def split: sum.splits prod.splits)
      qed
    qed
  qed
qed

lemma confirm_ends:
  "\<exists>r \<in> set rounds. \<not> cr_before_deadline r \<Longrightarrow> \<exists>oc fd'. confirm rounds operation intent fd = (Some oc, fd')"
proof (induction rounds arbitrary: fd)
  case (Cons r rounds)
  obtain a fd1 where q: "query_and_reduce (cr_answer r) intent fd = (a, fd1)" by fastforce
  show ?case
  proof (cases "cr_before_deadline r")
    case True
    with Cons.prems have "\<exists>r \<in> set rounds. \<not> cr_before_deadline r" by simp
    with Cons.IH q show ?thesis by (cases a) (auto split: pause.split)
  next
    case False
    with q show ?thesis by (cases a) auto
  qed
qed simp

section \<open>One session step\<close>

lemma written_frame:
  "ss_written (snd (refresh_all pa now ss)) = ss_written ss" "ss_written (service_debt now pa ss) = ss_written ss"
  "ss_written (snd (observe_field f qa t1 t2 ss)) = ss_written ss" "ss_written (count_action ss) = ss_written ss"
  by (simp_all add: refresh_all_def service_debt_def observe_field_def count_action_def Let_def
      split: prod.split option.split sum.split)

lemma hear_written: "ss_written (hear_event ev t1 t2 pa t3 ss) = ss_written ss"
  by (simp add: hear_event_def Let_def written_frame split: prod.split)

section \<open>An example session\<close>

definition example_answered :: "string \<Rightarrow> query_answer" where
  "example_answered line = \<lparr>qa_generation_before = 0, qa_line = Ok line, qa_generation_after = 0, qa_now = 5\<rparr>"

definition example_script :: script where
  "example_script = \<lparr>sc_closed = False, sc_marked_at = (\<lambda>_. 1), sc_preflight = example_answered ''MUOFF'',
     sc_reobserved = (\<lambda>_. example_answered ''MUOFF''), sc_settled_at = (\<lambda>_. 2), sc_withdrawn = False, sc_dispatch = Ok (),
     sc_after = example_answered ''MUOFF'', sc_written_at = 3,
     sc_rounds = [\<lparr>cr_answer = example_answered ''MUON'', cr_before_deadline = False, cr_pause = Slept\<rparr>]\<rparr>"

definition example_request :: operation_request where
  "example_request = \<lparr>rq_id = 7, rq_intent = IMute MuteOn, rq_precondition = None\<rparr>"

lemmas example_run_simps =
  perform_def operate_def preflight_def query_and_reduce_def reduce_line_def synchronize_generation_def
  feed_converging_def count_action_def merge_debt_def session_connect_def example_answered_def example_script_def
  example_request_def encode_def avr_command_new_def parse_def reduce_def rs_mark_converging_def establish_epoch_def
  receiver_state_new_def main_zone_default_def field_state_default_def fs_observe_def observed_def bump_revision_def
  set_synchronization_def current_matches_def saturating_add_def Let_def

lemma example_operated:
  "\<exists>ss'. perform example_script False (\<lambda>_. 0) example_request (session_connect (ReceiverId ''den''))
      = (Some (ObservedRequestedValue 7 CompleteWrite ''post-dispatch receiver observation''), ss')
    \<and> map (\<lambda>(i, c, _). (i, c)) (ss_written ss') = [(7, ''MUON'')]
    \<and> fs_validity (view (fd_state (ss_feed ss')) FMute) = Current 10005"
  by (simp add: example_run_simps CR_def LF_def erase_def)

lemma example_run:
  obtains ss' where "perform example_script False (\<lambda>_. 0) example_request (session_connect (ReceiverId ''den''))
      = (Some (ObservedRequestedValue 7 CompleteWrite ''post-dispatch receiver observation''), ss')"
    "map (\<lambda>(i, c, _). (i, c)) (ss_written ss') = [(7, ''MUON'')]"
    "fs_validity (view (fd_state (ss_feed ss')) FMute) = Current 10005"
  using example_operated by (elim exE conjE) (rule that)

lemma session_evidence:
  assumes "session_steps (session_connect r) ss"
  shows "rs_inv (fd_state (ss_feed ss)) \<and> rs_receiver (fd_state (ss_feed ss)) = r \<and> agrees (ss_feed ss)"
proof -
  have start: "rs_steps (receiver_state_new r) (fd_state (ss_feed (session_connect r)))"
    using step_establish [of "receiver_state_new r" 1] by (simp add: session_connect_def receiver_state_new_def r_into_rtranclp)
  have "agrees (ss_feed (session_connect r))"
    by (simp add: agrees_def session_connect_def establish_epoch_def receiver_state_new_def bump_revision_def)
  with ev.rel_steps [OF assms] have run: "rs_steps (fd_state (ss_feed (session_connect r))) (fd_state (ss_feed ss))"
    "agrees (ss_feed ss)" by (simp_all add: evolves_def)
  from rs_steps_frame [OF rtranclp_trans [OF start run(1)]] run(2) show ?thesis by simp
qed

lemma matches_current:
  "state_matches s intent \<Longrightarrow> \<exists>t. fs_validity (view s (intent_field intent)) = Current t"
  by (cases intent) (auto simp: current_matches_def erase_def split: field_validity.splits)

lemma settled_matches: "state_matches (rs_mark_settled f c t s) intent = state_matches s intent"
  by (cases intent; cases f) (simp_all add: rs_mark_settled_def bump_revision_def current_matches_def set_synchronization_def)

lemma fold_settled_matches:
  "state_matches (fd_state (fold (\<lambda>f. feed_settled (t f) f cycle) fs fd)) intent = state_matches (fd_state fd) intent"
  by (induction fs arbitrary: fd) (simp_all add: feed_settled_def settled_matches)

lemma preflight_already:
  assumes "preflight sc rq cycle fd = (Some (AlreadyObserved i what), fd')"
  shows "state_matches (fd_state fd') (rq_intent rq)"
  using assms
  by (auto simp: preflight_def Let_def fold_settled_matches split: if_splits sum.splits prod.splits option.splits
      dest: verify_cases(2))

lemma operate_success:
  assumes "operate sc rq ss = (Some oc, ss')"
    and "(\<exists>d what. oc = ObservedRequestedValue (rq_id rq) d what) \<or> (\<exists>what. oc = AlreadyObserved (rq_id rq) what)"
  shows "state_matches (fd_state (ss_feed ss')) (rq_intent rq)"
  using assms(1)
proof (cases rule: operate_cases)
  case (unwritten oc')
  obtain r fd where p: "preflight sc rq (ss_cycle ss) (ss_feed ss) = (r, fd)" by fastforce
  from unwritten assms(2) obtain what where oc: "oc = AlreadyObserved (rq_id rq) what" by auto
  have "r = Some oc \<and> ss_feed ss' = fd"
    using assms(1) p oc
    by (cases r) (auto simp: operate_def Let_def split: sum.splits prod.splits dest: confirm_outcomes failed_write_outcomes)
  with p oc preflight_already show ?thesis by blast
next
  case (written c fd)
  show ?thesis
  proof (cases "sc_dispatch sc")
    case (Inl e)
    with written(7) have "failed_write sc rq e fd = (oc, ss_feed ss')" by auto
    from failed_write_outcomes [OF this] assms(2) show ?thesis by auto
  next
    case (Inr u)
    with written(7) have "confirm (sc_rounds sc) (rq_id rq) (rq_intent rq) fd = (Some oc, ss_feed ss')" by simp
    from confirm_outcomes [OF this] assms(2) show ?thesis by auto
  qed
qed

lemma perform_operate:
  assumes "perform sc abandoned merged_at rq ss = (res, ss')"
  obtains ss1 where "operate sc rq ss1 = (res, ss')" "ss_written ss1 = ss_written ss" "ss_feed ss1 = ss_feed ss"
proof
  define ss1 where "ss1 = (count_action ss)\<lparr>ss_cycle := saturating_add (ss_cycle ss) 1\<rparr>"
  define ss2 where "ss2 = (if abandoned then ss1
     else ss1\<lparr>ss_debt := fold (\<lambda>f. merge_debt (merged_at f) f LocalControl (saturating_add (ss_cycle ss) 1) (ss_feed ss1))
                (dependency_fields (intent_field (rq_intent rq))) (ss_debt ss1)\<rparr>)"
  show "operate sc rq ss2 = (res, ss')" using assms unfolding perform_def Let_def ss1_def ss2_def .
  show "ss_written ss2 = ss_written ss" "ss_feed ss2 = ss_feed ss" by (simp_all add: ss2_def ss1_def count_action_def)
qed

lemma session_step_written:
  assumes "session_step ss ss'"
  shows "ss_written ss' = ss_written ss
    \<or> (\<exists>sc abandoned merged_at rq outcome c st. perform sc abandoned merged_at rq ss = (Some outcome, ss')
         \<and> encode (rq_intent rq) = Ok c \<and> ss_written ss' = ss_written ss @ [(rq_id rq, avr_command_str c, st)])"
  using assms
proof (cases rule: session_step.cases)
  case (at_operate sc abandoned merged_at rq outcome)
  from at_operate(1) obtain ss1 where op: "operate sc rq ss1 = (Some outcome, ss')" and same: "ss_written ss1 = ss_written ss"
    by (rule perform_operate)
  from op show ?thesis
  proof (cases rule: operate_cases)
    case (written c fd)
    with at_operate(1) same have "perform sc abandoned merged_at rq ss = (Some outcome, ss') \<and> encode (rq_intent rq) = Ok c
        \<and> ss_written ss' = ss_written ss @ [(rq_id rq, avr_command_str c, fd_state fd)]" by presburger
    then show ?thesis by blast
  qed (use same in simp)
qed (simp_all add: written_frame hear_written)

lemma example_operate:
  obtains ss ss' where "operate example_script example_request ss
      = (Some (ObservedRequestedValue 7 CompleteWrite ''post-dispatch receiver observation''), ss')"
    "ss_written ss' \<noteq> ss_written ss"
proof -
  obtain ss' where op: "perform example_script False (\<lambda>_. 0) example_request (session_connect (ReceiverId ''den''))
      = (Some (ObservedRequestedValue 7 CompleteWrite ''post-dispatch receiver observation''), ss')"
    "map (\<lambda>(i, c, _). (i, c)) (ss_written ss') = [(7, ''MUON'')]" by (rule example_run)
  from op(1) obtain ss1 where ss1: "operate example_script example_request ss1
      = (Some (ObservedRequestedValue 7 CompleteWrite ''post-dispatch receiver observation''), ss')"
    "ss_written ss1 = ss_written (session_connect (ReceiverId ''den''))"
    by (rule perform_operate)
  have "ss_written ss' \<noteq> ss_written ss1" using op(2) unfolding ss1(2) by (auto simp: session_connect_def)
  with ss1(1) show ?thesis by (rule that)
qed

section \<open>Properties\<close>

text \<open>
  C25. On every state a session can reach, whatever the receiver sends and however often the
  socket is replaced, a field that reads as current was observed from the session's receiver on
  the connection in force, the one the session stamps its next observation with.
\<close>

theorem session_state_is_evidence:
  assumes "session_steps (session_connect r) ss" "fs_validity (view (fd_state (ss_feed ss)) f) = Current t"
  shows "\<exists>ob. fs_last_good (view (fd_state (ss_feed ss)) f) = Some ob \<and> ob_receiver ob = r
    \<and> ob_epoch ob = fd_epoch (ss_feed ss)"
  using session_evidence [OF assms(1)] assms(2)
  by (auto simp: rs_inv_def evidence_inv_iff current_evidence_iff agrees_def)

theorem session_state_is_evidence_witness:
  "\<exists>ss ob. session_steps (session_connect (ReceiverId ''den'')) ss
     \<and> fs_last_good (view (fd_state (ss_feed ss)) FMute) = Some ob \<and> ob_epoch ob = fd_epoch (ss_feed ss)"
proof -
  obtain ss' where op: "perform example_script False (\<lambda>_. 0) example_request (session_connect (ReceiverId ''den''))
      = (Some (ObservedRequestedValue 7 CompleteWrite ''post-dispatch receiver observation''), ss')"
    "fs_validity (view (fd_state (ss_feed ss')) FMute) = Current 10005" by (rule example_run)
  have "session_steps (session_connect (ReceiverId ''den'')) ss'" using at_operate [OF op(1)] by (rule r_into_rtranclp)
  from session_state_is_evidence [OF this op(2)] this show ?thesis by blast
qed



text \<open>
  C10. The outcome says what was sent. One that reports nothing dispatched comes from an operation
  that handed nothing to the transport, or whose command the transport refused to begin; a
  complete write was written and acknowledged; an unknown one was begun and not acknowledged.
\<close>

theorem outcome_says_what_was_sent:
  assumes "operate sc rq ss = (Some oc, ss')"
  shows "case rn_dispatch (resolve oc) of
      NotDispatched \<Rightarrow> ss_written ss' = ss_written ss \<or> (\<exists>e. sc_dispatch sc = Err e \<and> never_began e)
    | PossiblyDispatched \<Rightarrow> False
    | CompleteWrite \<Rightarrow> ss_written ss' \<noteq> ss_written ss \<and> sc_dispatch sc = Ok ()
    | UnknownDispatch \<Rightarrow> ss_written ss' \<noteq> ss_written ss \<and> (\<exists>e. sc_dispatch sc = Err e \<and> \<not> never_began e)"
  using assms
proof (cases rule: operate_cases)
  case (unwritten oc')
  then show ?thesis by (auto simp: not_dispatched_def)
next
  case (written c fd)
  show ?thesis
  proof (cases "sc_dispatch sc")
    case (Inl e)
    with written(7) have "failed_write sc rq e fd = (oc, ss_feed ss')" by auto
    from failed_write_outcomes [OF this] Inl written(6) show ?thesis by (auto simp: not_dispatched_def)
  next
    case (Inr u)
    with written(7) have "confirm (sc_rounds sc) (rq_id rq) (rq_intent rq) fd = (Some oc, ss_feed ss')" by simp
    from confirm_outcomes [OF this] Inr written(6) show ?thesis by auto
  qed
qed

theorem outcome_says_what_was_sent_witness:
  "\<exists>ss ss'. operate example_script example_request ss
      = (Some (ObservedRequestedValue 7 CompleteWrite ''post-dispatch receiver observation''), ss')
    \<and> ss_written ss' \<noteq> ss_written ss \<and> sc_dispatch example_script = Ok ()"
proof -
  obtain ss ss' where op: "operate example_script example_request ss
      = (Some (ObservedRequestedValue 7 CompleteWrite ''post-dispatch receiver observation''), ss')"
    by (rule example_operate)
  from outcome_says_what_was_sent [OF this] op show ?thesis by auto
qed

text \<open>
  C12. A success is evidence: an operation that ends as observed, or as already in state, leaves a
  state in which the field it asked about is current, observed from this receiver on the
  connection in force, with the requested value.
\<close>

theorem success_is_evidence:
  assumes "session_steps (session_connect r) ss" "perform sc abandoned merged_at rq ss = (Some oc, ss')"
    and "(\<exists>d what. oc = ObservedRequestedValue (rq_id rq) d what) \<or> (\<exists>what. oc = AlreadyObserved (rq_id rq) what)"
  shows "state_matches (fd_state (ss_feed ss')) (rq_intent rq)
    \<and> (\<exists>t ob. fs_validity (view (fd_state (ss_feed ss')) (intent_field (rq_intent rq))) = Current t
         \<and> fs_last_good (view (fd_state (ss_feed ss')) (intent_field (rq_intent rq))) = Some ob
         \<and> ob_receiver ob = r \<and> ob_epoch ob = fd_epoch (ss_feed ss'))"
proof -
  from assms(2) obtain ss1 where op: "operate sc rq ss1 = (Some oc, ss')" by (rule perform_operate)
  have m: "state_matches (fd_state (ss_feed ss')) (rq_intent rq)" using operate_success [OF op assms(3)] .
  have "session_steps (session_connect r) ss'"
    using assms(1) at_operate [OF assms(2)] by (rule rtranclp.rtrancl_into_rtrancl)
  from session_evidence [OF this] matches_current [OF m] m show ?thesis
    by (auto simp: rs_inv_def evidence_inv_iff current_evidence_iff agrees_def)
qed

theorem success_is_evidence_witness:
  "\<exists>ss' t. perform example_script False (\<lambda>_. 0) example_request (session_connect (ReceiverId ''den''))
      = (Some (ObservedRequestedValue 7 CompleteWrite ''post-dispatch receiver observation''), ss')
    \<and> state_matches (fd_state (ss_feed ss')) (IMute MuteOn)
    \<and> fs_validity (view (fd_state (ss_feed ss')) FMute) = Current t"
proof -
  obtain ss' where op: "perform example_script False (\<lambda>_. 0) example_request (session_connect (ReceiverId ''den''))
      = (Some (ObservedRequestedValue 7 CompleteWrite ''post-dispatch receiver observation''), ss')"
    by (rule example_run)
  have "(\<exists>d what. ObservedRequestedValue 7 CompleteWrite ''post-dispatch receiver observation''
      = ObservedRequestedValue (rq_id example_request) d what)
    \<or> (\<exists>what. ObservedRequestedValue 7 CompleteWrite ''post-dispatch receiver observation'' = AlreadyObserved (rq_id example_request) what)"
    by (simp add: example_request_def)
  from success_is_evidence [OF rtranclp.rtrancl_refl op this] op show ?thesis by (auto simp: example_request_def)
qed

text \<open>
  The session writes nothing of its own: a step of the actor hands the transport at most one
  command, only for an operation, and everything else it sends is the query of some field.
\<close>

theorem session_step_writes:
  assumes "session_step ss ss'"
  shows "(\<exists>asked. fd_asked (ss_feed ss') = fd_asked (ss_feed ss) @ asked
        \<and> (\<forall>q \<in> set asked. \<exists>f. q = query_text (intent_for_field f)))
    \<and> (ss_written ss' = ss_written ss
       \<or> (\<exists>sc abandoned merged_at rq outcome c st. perform sc abandoned merged_at rq ss = (Some outcome, ss')
            \<and> encode (rq_intent rq) = Ok c \<and> ss_written ss' = ss_written ss @ [(rq_id rq, avr_command_str c, st)]))"
proof -
  have "query_text intent = query_text (intent_for_field (intent_field intent))" for intent
    by (cases intent) simp_all
  moreover obtain asked where "fd_asked (ss_feed ss') = fd_asked (ss_feed ss) @ asked"
    "\<forall>q \<in> set asked. \<exists>intent. q = query_text intent"
    using hist.rel_step [OF assms] by (auto simp: advances_def)
  ultimately have "\<exists>asked. fd_asked (ss_feed ss') = fd_asked (ss_feed ss) @ asked
        \<and> (\<forall>q \<in> set asked. \<exists>f. q = query_text (intent_for_field f))" by metis
  with session_step_written [OF assms] show ?thesis by blast
qed

theorem session_step_writes_witness:
  "\<exists>ss'. session_step (session_connect (ReceiverId ''den'')) ss'
     \<and> (\<exists>c st. ss_written ss' = [(7, avr_command_str c, st)] \<and> encode (IMute MuteOn) = Ok c)"
proof -
  obtain ss' where op: "perform example_script False (\<lambda>_. 0) example_request (session_connect (ReceiverId ''den''))
      = (Some (ObservedRequestedValue 7 CompleteWrite ''post-dispatch receiver observation''), ss')"
    "map (\<lambda>(i, c, _). (i, c)) (ss_written ss') = [(7, ''MUON'')]"
    by (rule example_run)
  have step: "session_step (session_connect (ReceiverId ''den'')) ss'" using at_operate [OF op(1)] .
  have "encode (IMute MuteOn) = Ok (AvrCommand ''MUON'')" by (simp add: encode_def avr_command_new_def CR_def LF_def)
  moreover have "\<exists>st. ss_written ss' = [(7, ''MUON'', st)]"
  proof -
    have "ss_written (session_connect (ReceiverId ''den'')) = []" by (simp add: session_connect_def)
    moreover from op(2) have "ss_written ss' \<noteq> []" by auto
    ultimately have "\<exists>i c st. ss_written ss' = [(i, c, st)]"
      using conjunct2 [OF session_step_writes [OF step]] by auto
    with op(2) show ?thesis by auto
  qed
  ultimately show ?thesis using step by auto
qed

text \<open>
  An operation ends: once the confirmation window has a round past its deadline, the
  operation has an outcome, whatever the receiver and the transport answer.
\<close>

theorem operate_ends:
  assumes "\<exists>r \<in> set (sc_rounds sc). \<not> cr_before_deadline r"
  shows "\<exists>oc ss'. operate sc rq ss = (Some oc, ss') \<and> outcome_operation oc = rq_id rq"
proof -
  obtain res ss' where op: "operate sc rq ss = (res, ss')" by fastforce
  then show ?thesis
  proof (cases rule: operate_cases)
    case (unwritten oc)
    with op show ?thesis by auto
  next
    case (written c fd)
    show ?thesis
    proof (cases "sc_dispatch sc")
      case (Inl e)
      with written(7) obtain oc where oc: "res = Some oc" "failed_write sc rq e fd = (oc, ss_feed ss')" by auto
      from failed_write_outcomes [OF oc(2)] oc(1) op show ?thesis by auto
    next
      case (Inr u)
      obtain oc fd' where c: "confirm (sc_rounds sc) (rq_id rq) (rq_intent rq) fd = (Some oc, fd')"
        using confirm_ends [OF assms] by blast
      with Inr written(7) have "res = Some oc" by simp
      with confirm_outcomes [OF c] op show ?thesis by auto
    qed
  qed
qed

theorem operate_ends_witness:
  "\<exists>oc ss'. operate example_script example_request (session_connect (ReceiverId ''den'')) = (Some oc, ss')
     \<and> outcome_operation oc = 7"
proof -
  have "\<exists>r \<in> set (sc_rounds example_script). \<not> cr_before_deadline r" by (simp add: example_script_def)
  from operate_ends [OF this, of example_request] show ?thesis by (simp add: example_request_def)
qed

end
