(* ===== verification/Connections.thy ===== *)
theory Connections
  imports Operations Receiver_Config
begin

text \<open>
  The connection pool of the control service, \<open>crates/application/src/service/connections.rs\<close>,
  with the part of \<open>service.rs\<close> that closes it. A slot's async lock serializes connecting, using
  and releasing; \<open>sl_holder\<close> says which stretch of code holds it. Each definition is what runs
  between two awaits of the source, the pool is their interleaving, and what the repository, the
  connector and a session answer is an argument. A future may be dropped at any await.
  \<open>sl_alive\<close>, \<open>sl_open\<close>, \<open>sl_abandoned\<close> and \<open>cp_next\<close> are history variables: the leases handed
  out, the sessions open and owned by the pool, those whose owner was dropped before it closed
  them, and a supply of session names.
\<close>

section \<open>Slots\<close>

datatype connection_status = Released | Connecting | Connected

datatype user = Reader | ByOperation operation_id

datatype drop_phase = Using | Uncounted | Bumped

record lease =
  le_session :: nat
  le_user :: user
  le_phase :: drop_phase

record held_session =
  hd_session :: nat
  hd_identity :: receiver_identity

datatype closer = Retirement nat | IdleTimer | ShuttingDown

datatype holder =
    Resolving user
  | Joining user receiver_identity
  | Synchronizing user receiver_identity nat
  | Undoing nat
  | Retiring nat
  | Closing nat closer

record slot =
  sl_held :: "held_session option"
  sl_holder :: "holder option"
  sl_leases :: nat
  sl_operations :: nat
  sl_activity :: u64
  sl_status :: connection_status
  sl_arming :: nat
  sl_timers :: "u64 list"
  sl_alive :: "lease list"
  sl_open :: "nat set"
  sl_abandoned :: "nat set"

definition slot_new :: slot where
  "slot_new = \<lparr>sl_held = None, sl_holder = None, sl_leases = 0, sl_operations = 0, sl_activity = 0,
     sl_status = Released, sl_arming = 0, sl_timers = [], sl_alive = [], sl_open = {}, sl_abandoned = {}\<rparr>"

definition unavailable :: "operation_error \<Rightarrow> control_error" where
  "unavailable e = UnavailableError (operation_error_fmt e)"

section \<open>Taking a lease\<close>

datatype lease_progress = Waiting | Leased nat | Refused control_error

definition is_operation :: "user \<Rightarrow> bool" where
  "is_operation u = (case u of ByOperation _ \<Rightarrow> True | Reader \<Rightarrow> False)"

definition count_lease :: "user \<Rightarrow> nat \<Rightarrow> slot \<Rightarrow> slot" where
  "count_lease u s sl =
     sl\<lparr>sl_leases := sl_leases sl + 1,
        sl_operations := (if is_operation u then sl_operations sl + 1 else sl_operations sl),
        sl_activity := sl_activity sl + 1,
        sl_alive := \<lparr>le_session = s, le_user = u, le_phase = Using\<rparr> # sl_alive sl\<rparr>"

text \<open>\<open>lease_as\<close> with the slot lock just taken; starting an attempt shows the slot as connecting.\<close>

definition begin_lease :: "bool \<Rightarrow> user \<Rightarrow> slot \<Rightarrow> lease_progress \<times> slot" where
  "begin_lease pool_closed u sl =
     (if pool_closed then (Refused (UnavailableError SHUT_DOWN), sl)
      else case sl_held sl of
        Some h \<Rightarrow> (Leased (hd_session h), count_lease u (hd_session h) sl)
      | None \<Rightarrow> (Waiting, sl\<lparr>sl_holder := Some (Resolving u), sl_status := Connecting\<rparr>))"

text \<open>An attempt that ends without a session, finished or dropped, shows the slot as released.\<close>

definition attempt_over :: "slot \<Rightarrow> slot" where
  "attempt_over sl = sl\<lparr>sl_holder := None, sl_status := Released\<rparr>"

definition resolved :: "(receiver_identity, control_error) result \<Rightarrow> slot \<Rightarrow> lease_progress \<times> slot" where
  "resolved answer sl =
     (case sl_holder sl of
        Some (Resolving u) \<Rightarrow>
          (case answer of
             Err e \<Rightarrow> (Refused e, attempt_over sl)
           | Ok identity \<Rightarrow> (Waiting, sl\<lparr>sl_holder := Some (Joining u identity)\<rparr>))
      | _ \<Rightarrow> (Waiting, sl))"

definition joined :: "nat \<Rightarrow> (unit, operation_error) result \<Rightarrow> slot \<Rightarrow> lease_progress \<times> slot" where
  "joined s answer sl =
     (case sl_holder sl of
        Some (Joining u identity) \<Rightarrow>
          (case answer of
             Err e \<Rightarrow> (Refused (unavailable e), attempt_over sl)
           | Ok _ \<Rightarrow> (Waiting, sl\<lparr>sl_holder := Some (Synchronizing u identity s), sl_open := insert s (sl_open sl)\<rparr>))
      | _ \<Rightarrow> (Waiting, sl))"

definition session_synchronized :: "(unit, operation_error) result \<Rightarrow> slot \<Rightarrow> lease_progress \<times> slot" where
  "session_synchronized answer sl =
     (case sl_holder sl of
        Some (Synchronizing u identity s) \<Rightarrow>
          (case answer of
             Err e \<Rightarrow> (Refused (unavailable e), sl\<lparr>sl_holder := Some (Undoing s)\<rparr>)
           | Ok _ \<Rightarrow>
               (Leased s, count_lease u s
                  (sl\<lparr>sl_holder := None, sl_status := Connected,
                      sl_held := Some \<lparr>hd_session = s, hd_identity = identity\<rparr>\<rparr>)))
      | _ \<Rightarrow> (Waiting, sl))"

definition undone_session :: "slot \<Rightarrow> slot" where
  "undone_session sl =
     (case sl_holder sl of
        Some (Undoing s) \<Rightarrow> attempt_over (sl\<lparr>sl_open := sl_open sl - {s}\<rparr>)
      | _ \<Rightarrow> sl)"

fun in_hand :: "holder \<Rightarrow> nat set" where
  "in_hand (Synchronizing _ _ s) = {s}"
| "in_hand (Undoing s) = {s}"
| "in_hand (Closing s _) = {s}"
| "in_hand _ = {}"

fun is_attempt :: "holder \<Rightarrow> bool" where
  "is_attempt (Resolving _) = True"
| "is_attempt (Joining _ _) = True"
| "is_attempt (Synchronizing _ _ _) = True"
| "is_attempt (Undoing _) = True"
| "is_attempt _ = False"

definition drop_attempt :: "slot \<Rightarrow> slot" where
  "drop_attempt sl =
     (case sl_holder sl of
        Some h \<Rightarrow>
          (if is_attempt h
           then attempt_over (sl\<lparr>sl_open := sl_open sl - in_hand h, sl_abandoned := sl_abandoned sl \<union> in_hand h\<rparr>)
           else sl)
      | None \<Rightarrow> sl)"

section \<open>Dropping a lease\<close>

text \<open>\<open>Lease::drop\<close> takes no lock, so other code runs between its atomic updates.\<close>

definition give_back :: "lease \<Rightarrow> slot \<Rightarrow> slot" where
  "give_back l sl =
     (if l \<in> set (sl_alive sl) \<and> le_phase l = Using
      then sl\<lparr>sl_operations := (if is_operation (le_user l) then sl_operations sl - 1 else sl_operations sl),
              sl_alive := l\<lparr>le_phase := Uncounted\<rparr> # remove1 l (sl_alive sl)\<rparr>
      else sl)"

definition bump :: "lease \<Rightarrow> slot \<Rightarrow> slot" where
  "bump l sl =
     (if l \<in> set (sl_alive sl) \<and> le_phase l = Uncounted
      then sl\<lparr>sl_activity := sl_activity sl + 1,
              sl_alive := l\<lparr>le_phase := Bumped\<rparr> # remove1 l (sl_alive sl)\<rparr>
      else sl)"

definition uncount :: "lease \<Rightarrow> slot \<Rightarrow> slot" where
  "uncount l sl =
     (if l \<in> set (sl_alive sl) \<and> le_phase l = Bumped
      then sl\<lparr>sl_leases := sl_leases sl - 1, sl_alive := remove1 l (sl_alive sl),
              sl_arming := (if sl_leases sl = 1 then sl_arming sl + 1 else sl_arming sl)\<rparr>
      else sl)"

definition arm_idle_timer :: "slot \<Rightarrow> slot" where
  "arm_idle_timer sl =
     (if sl_arming sl = 0 then sl
      else sl\<lparr>sl_arming := sl_arming sl - 1, sl_timers := sl_activity sl # sl_timers sl\<rparr>)"

section \<open>Closing a session\<close>

text \<open>\<open>close_held\<close> takes the session out of the slot; the lock is kept until the close answers.\<close>

definition take_held :: "closer \<Rightarrow> slot \<Rightarrow> slot" where
  "take_held w sl =
     (case sl_held sl of
        None \<Rightarrow> sl
      | Some h \<Rightarrow> sl\<lparr>sl_held := None, sl_holder := Some (Closing (hd_session h) w)\<rparr>)"

definition closed_session :: "slot \<Rightarrow> slot" where
  "closed_session sl =
     (case sl_holder sl of
        Some (Closing s w) \<Rightarrow> sl\<lparr>sl_holder := None, sl_status := Released, sl_open := sl_open sl - {s}\<rparr>
      | _ \<Rightarrow> sl)"

definition release_if_idle :: "u64 \<Rightarrow> slot \<Rightarrow> slot" where
  "release_if_idle armed_at sl =
     (let sl1 = sl\<lparr>sl_timers := remove1 armed_at (sl_timers sl)\<rparr> in
      if sl_leases sl \<noteq> 0 \<or> sl_activity sl \<noteq> armed_at then sl1 else take_held IdleTimer sl1)"

definition reaches :: "configured_receivers \<Rightarrow> receiver_id \<Rightarrow> receiver_identity \<Rightarrow> bool" where
  "reaches saved r identity =
     (case map_of (cr_receivers saved) (receiver_id_str r) of
        Some entry \<Rightarrow> ri_host entry = ri_host identity
      | None \<Rightarrow> False)"

definition retire_unchanged :: "configured_receivers \<Rightarrow> receiver_id \<Rightarrow> slot \<Rightarrow> bool" where
  "retire_unchanged saved r sl = (case sl_held sl of None \<Rightarrow> True | Some h \<Rightarrow> reaches saved r (hd_identity h))"

text \<open>A retirement or a shutdown that is dropped while it holds the lock.\<close>

definition drop_closer :: "slot \<Rightarrow> slot" where
  "drop_closer sl =
     (case sl_holder sl of
        Some (Retiring p) \<Rightarrow> sl\<lparr>sl_holder := None\<rparr>
      | Some (Closing s w) \<Rightarrow>
          sl\<lparr>sl_holder := None, sl_open := sl_open sl - {s}, sl_abandoned := insert s (sl_abandoned sl)\<rparr>
      | _ \<Rightarrow> sl)"

section \<open>The pool\<close>

text \<open>
  One pass of \<open>retire_changed\<close>: the configuration it was given and, once it has listed the slots,
  those it has yet to visit. A shutdown walks the slots in the same way.
\<close>

record retirement =
  rt_saved :: configured_receivers
  rt_todo :: "receiver_id list option"

record pool =
  cp_slots :: "receiver_id \<rightharpoonup> slot"
  cp_ad_hoc :: "receiver_id \<rightharpoonup> receiver_identity"
  cp_file :: configured_receivers
  cp_closed :: bool
  cp_in_flight :: "operation_id set"
  cp_passes :: "nat \<rightharpoonup> retirement"
  cp_latest :: nat
  cp_shutdown :: "receiver_id list option"
  cp_next :: nat

definition pool_new :: "configured_receivers \<Rightarrow> pool" where
  "pool_new file = \<lparr>cp_slots = Map.empty, cp_ad_hoc = Map.empty, cp_file = file, cp_closed = False,
     cp_in_flight = {}, cp_passes = Map.empty, cp_latest = 0, cp_shutdown = None, cp_next = 0\<rparr>"

definition receiver_identity_of ::
  "receiver_id \<Rightarrow> (configured_receivers, operation_error) result \<Rightarrow> pool \<Rightarrow> (receiver_identity, control_error) result" where
  "receiver_identity_of r loaded pl =
     (if is_ad_hoc r
      then (case cp_ad_hoc pl r of Some i \<Rightarrow> Ok i | None \<Rightarrow> Err (NotFound ''receiver''))
      else case loaded of
        Err e \<Rightarrow> Err (ReceiverError e)
      | Ok c \<Rightarrow> (case map_of (cr_receivers c) (receiver_id_str r) of
            Some i \<Rightarrow> Ok i | None \<Rightarrow> Err (NotFound ''receiver'')))"

definition put_slot :: "receiver_id \<Rightarrow> slot \<Rightarrow> pool \<Rightarrow> pool" where
  "put_slot r sl pl = pl\<lparr>cp_slots := (cp_slots pl)(r \<mapsto> sl)\<rparr>"

text \<open>The first part of \<open>lease_as\<close>: only receivers that exist get a slot.\<close>

definition find_slot ::
  "receiver_id \<Rightarrow> (configured_receivers, operation_error) result \<Rightarrow> pool \<Rightarrow> (unit, control_error) result \<times> pool" where
  "find_slot r loaded pl =
     (if cp_closed pl then (Err (UnavailableError SHUT_DOWN), pl)
      else case cp_slots pl r of
        Some _ \<Rightarrow> (Ok (), pl)
      | None \<Rightarrow> (case receiver_identity_of r loaded pl of
            Err e \<Rightarrow> (Err e, pl)
          | Ok _ \<Rightarrow> (Ok (), put_slot r slot_new pl)))"

definition save_configuration ::
  "configured_receivers \<Rightarrow> (unit, operation_error) result \<Rightarrow> pool \<Rightarrow> (unit, control_error) result \<times> pool" where
  "save_configuration c answer pl =
     (case configured_validate c of
        Err e \<Rightarrow> (Err (InvalidRequest e), pl)
      | Ok _ \<Rightarrow> (case answer of
            Err e \<Rightarrow> (Err (ReceiverError e), pl)
          | Ok _ \<Rightarrow>
              (Ok (), pl\<lparr>cp_file := c, cp_latest := cp_latest pl + 1,
                 cp_passes := (cp_passes pl)(cp_latest pl + 1 \<mapsto> \<lparr>rt_saved = c, rt_todo = None\<rparr>)\<rparr>)))"

definition set_todo :: "nat \<Rightarrow> receiver_id list \<Rightarrow> pool \<Rightarrow> pool" where
  "set_todo p todo pl =
     (case cp_passes pl p of
        None \<Rightarrow> pl
      | Some rt \<Rightarrow> pl\<lparr>cp_passes := (cp_passes pl)(p \<mapsto> rt\<lparr>rt_todo := Some todo\<rparr>)\<rparr>)"

text \<open>A pass with the slot lock just taken: it goes on, or keeps the lock.\<close>

definition retire_visit :: "nat \<Rightarrow> retirement \<Rightarrow> receiver_id \<Rightarrow> receiver_id list \<Rightarrow> slot \<Rightarrow> pool \<Rightarrow> pool" where
  "retire_visit p rt r rs sl pl =
     (if is_ad_hoc r \<or> retire_unchanged (rt_saved rt) r sl then set_todo p rs pl
      else put_slot r (sl\<lparr>sl_holder := Some (Retiring p)\<rparr>) pl)"

text \<open>What comes after a close: the slot is released and whoever closed it goes on.\<close>

definition after_close :: "receiver_id \<Rightarrow> closer \<Rightarrow> slot \<Rightarrow> pool \<Rightarrow> pool" where
  "after_close r w sl pl =
     (let pl1 = put_slot r (closed_session sl) pl in
      case w of
        IdleTimer \<Rightarrow> pl1
      | Retirement p \<Rightarrow>
          (case cp_passes pl p of
             Some rt \<Rightarrow> (case rt_todo rt of Some (_ # rs) \<Rightarrow> set_todo p rs pl1 | _ \<Rightarrow> pl1)
           | None \<Rightarrow> pl1)
      | ShuttingDown \<Rightarrow>
          (case cp_shutdown pl of Some (_ # rs) \<Rightarrow> pl1\<lparr>cp_shutdown := Some rs\<rparr> | _ \<Rightarrow> pl1))"

definition shutdown_visit :: "receiver_id \<Rightarrow> receiver_id list \<Rightarrow> slot \<Rightarrow> pool \<Rightarrow> pool" where
  "shutdown_visit r rs sl pl =
     (if sl_held sl = None then pl\<lparr>cp_shutdown := Some rs\<rparr>
      else put_slot r (take_held ShuttingDown sl) pl)"

text \<open>Whether an operation still has a lease, or an attempt at one.\<close>

fun attempt_user :: "holder \<Rightarrow> user option" where
  "attempt_user (Resolving u) = Some u"
| "attempt_user (Joining u _) = Some u"
| "attempt_user (Synchronizing u _ _) = Some u"
| "attempt_user _ = None"

definition occupies :: "operation_id \<Rightarrow> slot \<Rightarrow> bool" where
  "occupies i sl =
     ((\<exists>l \<in> set (sl_alive sl). le_user l = ByOperation i)
      \<or> (\<exists>h. sl_holder sl = Some h \<and> attempt_user h = Some (ByOperation i)))"

definition retired_by :: "nat \<Rightarrow> slot \<Rightarrow> bool" where
  "retired_by p sl =
     (case sl_holder sl of
        Some (Retiring q) \<Rightarrow> q = p
      | Some (Closing _ (Retirement q)) \<Rightarrow> q = p
      | _ \<Rightarrow> False)"

text \<open>
  The interleaving. Shutdowns are taken one after the other, and the file changes only through
  the service.
\<close>

inductive pool_step :: "pool \<Rightarrow> pool \<Rightarrow> bool" where
  op_begins: "\<not> cp_closed pl \<Longrightarrow> pool_step pl (pl\<lparr>cp_in_flight := insert i (cp_in_flight pl)\<rparr>)"
| op_ends: "(\<And>r sl. cp_slots pl r = Some sl \<Longrightarrow> \<not> occupies i sl) \<Longrightarrow>
     pool_step pl (pl\<lparr>cp_in_flight := cp_in_flight pl - {i}\<rparr>)"
| registers: "pool_step pl (pl\<lparr>cp_ad_hoc := (cp_ad_hoc pl)(r \<mapsto> identity)\<rparr>)"
| finds_slot: "loaded = Ok (cp_file pl) \<or> loaded = Err e \<Longrightarrow> pool_step pl (snd (find_slot r loaded pl))"
| takes_lease: "cp_slots pl r = Some sl \<Longrightarrow> sl_holder sl = None \<Longrightarrow>
     (\<And>i. u = ByOperation i \<Longrightarrow> i \<in> cp_in_flight pl) \<Longrightarrow>
     pool_step pl (put_slot r (snd (begin_lease (cp_closed pl) u sl)) pl)"
| resolves: "cp_slots pl r = Some sl \<Longrightarrow> loaded = Ok (cp_file pl) \<or> loaded = Err e \<Longrightarrow>
     pool_step pl (put_slot r (snd (resolved (receiver_identity_of r loaded pl) sl)) pl)"
| joins: "cp_slots pl r = Some sl \<Longrightarrow>
     pool_step pl ((put_slot r (snd (joined (cp_next pl) answer sl)) pl)\<lparr>cp_next := cp_next pl + 1\<rparr>)"
| synchronizes: "cp_slots pl r = Some sl \<Longrightarrow> pool_step pl (put_slot r (snd (session_synchronized answer sl)) pl)"
| undoes: "cp_slots pl r = Some sl \<Longrightarrow> pool_step pl (put_slot r (undone_session sl) pl)"
| drops_attempt: "cp_slots pl r = Some sl \<Longrightarrow> pool_step pl (put_slot r (drop_attempt sl) pl)"
| gives_back: "cp_slots pl r = Some sl \<Longrightarrow> pool_step pl (put_slot r (give_back l sl) pl)"
| bumps: "cp_slots pl r = Some sl \<Longrightarrow> pool_step pl (put_slot r (bump l sl) pl)"
| uncounts: "cp_slots pl r = Some sl \<Longrightarrow> pool_step pl (put_slot r (uncount l sl) pl)"
| arms: "cp_slots pl r = Some sl \<Longrightarrow> pool_step pl (put_slot r (arm_idle_timer sl) pl)"
| timer_fires: "cp_slots pl r = Some sl \<Longrightarrow> sl_holder sl = None \<Longrightarrow> t \<in> set (sl_timers sl) \<Longrightarrow>
     pool_step pl (put_slot r (release_if_idle t sl) pl)"
| saves: "pool_step pl (snd (save_configuration c answer pl))"
| lists_slots: "cp_passes pl p = Some rt \<Longrightarrow> rt_todo rt = None \<Longrightarrow> set todo = dom (cp_slots pl) \<Longrightarrow>
     pool_step pl (set_todo p todo pl)"
| visits: "cp_passes pl p = Some rt \<Longrightarrow> rt_todo rt = Some (r # rs) \<Longrightarrow> cp_slots pl r = Some sl \<Longrightarrow>
     sl_holder sl = None \<Longrightarrow> pool_step pl (retire_visit p rt r rs sl pl)"
| retires: "cp_slots pl r = Some sl \<Longrightarrow> sl_holder sl = Some (Retiring p) \<Longrightarrow> sl_operations sl = 0 \<Longrightarrow>
     pool_step pl (put_slot r (take_held (Retirement p) sl) pl)"
| closes: "cp_slots pl r = Some sl \<Longrightarrow> sl_holder sl = Some (Closing s w) \<Longrightarrow> pool_step pl (after_close r w sl pl)"
| drops_pass: "cp_slots pl r = Some sl \<Longrightarrow> retired_by p sl \<Longrightarrow>
     pool_step pl ((put_slot r (drop_closer sl) pl)\<lparr>cp_passes := (cp_passes pl)(p := None)\<rparr>)"
| shuts: "pool_step pl (pl\<lparr>cp_closed := True\<rparr>)"
| abandons_pass: "(\<And>r sl. cp_slots pl r = Some sl \<Longrightarrow> \<not> retired_by p sl) \<Longrightarrow>
     pool_step pl (pl\<lparr>cp_passes := (cp_passes pl)(p := None)\<rparr>)"
| lists_all: "cp_closed pl \<Longrightarrow> cp_in_flight pl = {} \<Longrightarrow> cp_shutdown pl \<in> {None, Some []} \<Longrightarrow> set todo = dom (cp_slots pl) \<Longrightarrow>
     pool_step pl (pl\<lparr>cp_shutdown := Some todo\<rparr>)"
| shuts_slot: "cp_shutdown pl = Some (r # rs) \<Longrightarrow> cp_slots pl r = Some sl \<Longrightarrow> sl_holder sl = None \<Longrightarrow>
     pool_step pl (shutdown_visit r rs sl pl)"
| drops_shutdown: "cp_slots pl r = Some sl \<Longrightarrow> sl_holder sl = Some (Closing s ShuttingDown) \<Longrightarrow>
     pool_step pl ((put_slot r (drop_closer sl) pl)\<lparr>cp_shutdown := None\<rparr>)"

abbreviation pool_steps :: "pool \<Rightarrow> pool \<Rightarrow> bool" where
  "pool_steps \<equiv> pool_step\<^sup>*\<^sup>*"

end
