(* ===== verification/Pool_Safety.thy ===== *)
theory Pool_Safety
  imports Connections
begin

text \<open>
  What the connection pool keeps under every interleaving: the counters of a slot, the one session
  it owns, the lease of an operation on an open session, the timer that will release an unused
  one, and what a retirement and a shutdown leave behind.
\<close>

section \<open>A slot\<close>

definition counted :: "lease \<Rightarrow> bool" where
  "counted l = (is_operation (le_user l) \<and> le_phase l = Using)"

definition owned :: "slot \<Rightarrow> nat set" where
  "owned sl = (case sl_held sl of Some h \<Rightarrow> {hd_session h} | None \<Rightarrow> {})
     \<union> (case sl_holder sl of Some h \<Rightarrow> in_hand h | None \<Rightarrow> {})"

definition slot_ok :: "nat \<Rightarrow> slot \<Rightarrow> bool" where
  "slot_ok n sl =
     (sl_leases sl = length (sl_alive sl) \<and> sl_operations sl = length (filter counted (sl_alive sl))
      \<and> sl_open sl = owned sl \<and> (\<forall>s \<in> owned sl. s < n)
      \<and> (\<forall>h. sl_holder sl = Some h \<longrightarrow> is_attempt h \<or> in_hand h \<noteq> {} \<longrightarrow> sl_held sl = None)
      \<and> (\<forall>l \<in> set (sl_alive sl). counted l \<longrightarrow> (\<exists>h. sl_held sl = Some h \<and> hd_session h = le_session l))
      \<and> (sl_held sl \<noteq> None \<longrightarrow> sl_leases sl = 0 \<longrightarrow> sl_arming sl > 0 \<or> sl_activity sl \<in> set (sl_timers sl))
      \<and> (sl_held sl \<noteq> None \<longrightarrow> sl_status sl = Connected)
      \<and> (sl_status sl = Connecting \<longleftrightarrow> (\<exists>h. sl_holder sl = Some h \<and> is_attempt h)))"

lemma slot_okD:
  assumes "slot_ok n sl"
  shows "sl_leases sl = length (sl_alive sl)" "sl_operations sl = length (filter counted (sl_alive sl))"
    "sl_open sl = owned sl" "\<forall>s \<in> owned sl. s < n"
    "\<forall>h. sl_holder sl = Some h \<longrightarrow> is_attempt h \<or> in_hand h \<noteq> {} \<longrightarrow> sl_held sl = None"
    "\<forall>l \<in> set (sl_alive sl). counted l \<longrightarrow> (\<exists>h. sl_held sl = Some h \<and> hd_session h = le_session l)"
    "sl_held sl \<noteq> None \<longrightarrow> sl_leases sl = 0 \<longrightarrow> sl_arming sl > 0 \<or> sl_activity sl \<in> set (sl_timers sl)"
    "sl_held sl \<noteq> None \<longrightarrow> sl_status sl = Connected"
    "sl_status sl = Connecting \<longleftrightarrow> (\<exists>h. sl_holder sl = Some h \<and> is_attempt h)"
  using assms by (simp_all add: slot_ok_def)

lemma slot_ok_new: "slot_ok n slot_new"
  by (simp add: slot_ok_def slot_new_def owned_def)

lemma slot_ok_more: "slot_ok n sl \<Longrightarrow> n \<le> m \<Longrightarrow> slot_ok m sl"
  by (force simp: slot_ok_def)

lemma in_hand_disj: "in_hand h = {} \<or> (\<exists>s. in_hand h = {s})"
  by (cases h) auto

lemma slot_ok_count:
  assumes "slot_ok n sl" "sl_held sl = Some h"
  shows "slot_ok n (count_lease u (hd_session h) sl)"
  using assms by (auto simp: slot_ok_def count_lease_def owned_def counted_def)

lemma slot_ok_begin: "slot_ok n sl \<Longrightarrow> sl_holder sl = None \<Longrightarrow> slot_ok n (snd (begin_lease c u sl))"
  by (auto simp: begin_lease_def slot_ok_count split: option.split) (simp add: slot_ok_def owned_def)

lemma slot_ok_resolved: "slot_ok n sl \<Longrightarrow> slot_ok n (snd (resolved answer sl))"
  by (cases "sl_holder sl"; cases "the (sl_holder sl)")
     (auto simp: resolved_def attempt_over_def slot_ok_def owned_def split: sum.split)

lemma slot_ok_joined: "slot_ok n sl \<Longrightarrow> slot_ok (n + 1) (snd (joined n answer sl))"
  by (cases "sl_holder sl"; cases "the (sl_holder sl)")
     (auto simp: joined_def attempt_over_def slot_ok_def owned_def less_SucI split: sum.split)

lemma slot_ok_synchronized: "slot_ok n sl \<Longrightarrow> slot_ok n (snd (session_synchronized answer sl))"
  by (cases "sl_holder sl"; cases "the (sl_holder sl)")
     (auto simp: session_synchronized_def count_lease_def slot_ok_def owned_def counted_def split: sum.split)

lemma slot_ok_undone: "slot_ok n sl \<Longrightarrow> slot_ok n (undone_session sl)"
  by (cases "sl_holder sl"; cases "the (sl_holder sl)")
     (auto simp: undone_session_def attempt_over_def slot_ok_def owned_def)

lemma slot_ok_drop_attempt: "slot_ok n sl \<Longrightarrow> slot_ok n (drop_attempt sl)"
  by (cases "sl_holder sl"; cases "the (sl_holder sl)")
     (auto simp: drop_attempt_def attempt_over_def slot_ok_def owned_def)

lemma filter_remove1_length:
  "x \<in> set xs \<Longrightarrow> length (filter P (remove1 x xs)) = length (filter P xs) - (if P x then 1 else 0)"
  by (simp add: filter_remove1 length_remove1)

lemma slot_ok_swap:
  assumes "slot_ok n sl" "l \<in> set (sl_alive sl)" "counted l' \<Longrightarrow> counted l" "le_session l' = le_session l"
  shows "slot_ok n (sl\<lparr>sl_operations := sl_operations sl - (if counted l \<and> \<not> counted l' then 1 else 0),
       sl_alive := l' # remove1 l (sl_alive sl)\<rparr>)"
proof -
  have "length (sl_alive sl) > 0" using assms(2) by auto
  moreover have "counted l \<Longrightarrow> length (filter counted (sl_alive sl)) > 0" using assms(2) by (auto simp: filter_empty_conv)
  moreover have "set (remove1 l (sl_alive sl)) \<subseteq> set (sl_alive sl)" by (rule set_remove1_subset)
  ultimately show ?thesis using assms
    by (auto simp: slot_ok_def owned_def length_remove1 filter_remove1_length)
qed

lemma slot_ok_activity: "slot_ok n sl \<Longrightarrow> sl_leases sl > 0 \<Longrightarrow> slot_ok n (sl\<lparr>sl_activity := a\<rparr>)"
  by (auto simp: slot_ok_def owned_def)

lemma slot_ok_give_back: "slot_ok n sl \<Longrightarrow> slot_ok n (give_back l sl)"
  using slot_ok_swap [of n sl l "l\<lparr>le_phase := Uncounted\<rparr>"]
  by (auto simp: give_back_def counted_def)

lemma slot_ok_bump: 
  assumes "slot_ok n sl"
  shows "slot_ok n (bump l sl)"
proof (cases "l \<in> set (sl_alive sl) \<and> le_phase l = Uncounted")
  case True
  with assms have "slot_ok n (sl\<lparr>sl_operations := sl_operations sl, sl_alive := l\<lparr>le_phase := Bumped\<rparr> # remove1 l (sl_alive sl)\<rparr>)"
    using slot_ok_swap [of n sl l "l\<lparr>le_phase := Bumped\<rparr>"] by (auto simp: counted_def)
  then have "slot_ok n ((sl\<lparr>sl_operations := sl_operations sl,
      sl_alive := l\<lparr>le_phase := Bumped\<rparr> # remove1 l (sl_alive sl)\<rparr>)\<lparr>sl_activity := sl_activity sl + 1\<rparr>)"
    by (rule slot_ok_activity) (use True slot_okD(1) [OF assms] in auto)
  moreover have "sl\<lparr>sl_alive := v, sl_activity := a\<rparr> = sl\<lparr>sl_activity := a, sl_alive := v\<rparr>" for v a by simp
  ultimately show ?thesis using True by (simp only: bump_def if_True HOL.simp_thms slot.surjective) simp
qed (use assms in \<open>auto simp: bump_def\<close>)

lemma slot_ok_uncount:
  assumes "slot_ok n sl"
  shows "slot_ok n (uncount l sl)"
proof (cases "l \<in> set (sl_alive sl) \<and> le_phase l = Bumped")
  case True
  have "length (filter counted (remove1 l (sl_alive sl))) = length (filter counted (sl_alive sl))"
    using True by (simp add: filter_remove1_length counted_def)
  moreover have "length (remove1 l (sl_alive sl)) = length (sl_alive sl) - 1" using True by (simp add: length_remove1)
  moreover have "\<forall>k \<in> set (remove1 l (sl_alive sl)). counted k \<longrightarrow> (\<exists>h. sl_held sl = Some h \<and> hd_session h = le_session k)"
    using slot_okD(6) [OF assms] set_remove1_subset by fastforce
  moreover have "length (sl_alive sl) > 0" using True by auto
  moreover from this have "length (sl_alive sl) \<le> Suc 0 \<longleftrightarrow> length (sl_alive sl) = Suc 0" by arith
  ultimately show ?thesis using slot_okD(1-5,7-9) [OF assms] True
    by (simp add: slot_ok_def uncount_def owned_def) 
qed (use assms in \<open>auto simp: uncount_def\<close>)

lemma slot_ok_arm: "slot_ok n sl \<Longrightarrow> slot_ok n (arm_idle_timer sl)"
  by (auto simp: arm_idle_timer_def slot_ok_def owned_def)

lemma slot_ok_take_held:
  assumes "slot_ok n sl" "sl_holder sl = None \<or> sl_holder sl = Some (Retiring p)" "\<forall>l \<in> set (sl_alive sl). \<not> counted l"
  shows "slot_ok n (take_held w sl)"
  using assms by (auto simp: take_held_def slot_ok_def owned_def split: option.split)

lemma slot_ok_idle:
  assumes "slot_ok n sl" "sl_holder sl = None"
  shows "slot_ok n (release_if_idle t sl)"
proof (cases "sl_leases sl \<noteq> 0 \<or> sl_activity sl \<noteq> t")
  case True
  with assms show ?thesis
    by (auto simp: release_if_idle_def Let_def slot_ok_def owned_def in_set_remove1)
next
  case False
  with assms have "slot_ok n (take_held IdleTimer sl)" by (intro slot_ok_take_held) (auto simp: slot_ok_def)
  moreover have "take_held IdleTimer (sl\<lparr>sl_timers := ts\<rparr>) = (take_held IdleTimer sl)\<lparr>sl_timers := ts\<rparr>" for ts
    by (simp add: take_held_def split: option.split)
  moreover have "sl_held (take_held IdleTimer sl) = None" by (simp add: take_held_def split: option.split)
  ultimately show ?thesis using False
    by (auto simp: release_if_idle_def Let_def slot_ok_def owned_def)
qed

lemma slot_ok_closed: "slot_ok n sl \<Longrightarrow> slot_ok n (closed_session sl)"
  by (cases "sl_holder sl"; cases "the (sl_holder sl)") (auto simp: closed_session_def slot_ok_def owned_def)

lemma slot_ok_drop_closer: "slot_ok n sl \<Longrightarrow> slot_ok n (drop_closer sl)"
  by (cases "sl_holder sl"; cases "the (sl_holder sl)") (auto simp: drop_closer_def slot_ok_def owned_def)

lemma slot_ok_retiring: "slot_ok n sl \<Longrightarrow> sl_holder sl = None \<Longrightarrow> slot_ok n (sl\<lparr>sl_holder := Some (Retiring p)\<rparr>)"
  by (auto simp: slot_ok_def owned_def)

section \<open>The pool\<close>

text \<open>
  What the rest of the pool asks of a slot: whoever is in it is an operation in flight, a pass or
  a shutdown that holds its lock is waiting at it, and once a pass or a shutdown has been past it
  nothing is left there for them.
\<close>

definition past :: "pool \<Rightarrow> receiver_id \<Rightarrow> bool" where
  "past pl r = (\<exists>rt todo. cp_passes pl (cp_latest pl) = Some rt \<and> rt_todo rt = Some todo \<and> r \<notin> set todo \<and> \<not> is_ad_hoc r)"

definition shut_past :: "pool \<Rightarrow> receiver_id \<Rightarrow> bool" where
  "shut_past pl r = (\<exists>todo. cp_shutdown pl = Some todo \<and> r \<notin> set todo)"

fun attempt_identity :: "holder \<Rightarrow> receiver_identity option" where
  "attempt_identity (Joining _ i) = Some i"
| "attempt_identity (Synchronizing _ i _) = Some i"
| "attempt_identity _ = None"

definition up_to_date :: "configured_receivers \<Rightarrow> receiver_id \<Rightarrow> slot \<Rightarrow> bool" where
  "up_to_date file r sl =
     ((\<forall>h. sl_held sl = Some h \<longrightarrow> reaches file r (hd_identity h))
      \<and> (\<forall>h i. sl_holder sl = Some h \<longrightarrow> attempt_identity h = Some i \<longrightarrow> reaches file r i))"

definition vacant :: "slot \<Rightarrow> bool" where
  "vacant sl = (sl_held sl = None \<and> (\<forall>h. sl_holder sl = Some h \<longrightarrow> \<not> is_attempt h \<and> in_hand h = {}))"

definition waits_at :: "pool \<Rightarrow> receiver_id \<Rightarrow> nat \<Rightarrow> bool" where
  "waits_at pl r p = (\<exists>rt rs. cp_passes pl p = Some rt \<and> rt_todo rt = Some (r # rs))"

definition place_ok :: "pool \<Rightarrow> receiver_id \<Rightarrow> slot \<Rightarrow> bool" where
  "place_ok pl r sl =
     ((\<forall>i. occupies i sl \<longrightarrow> i \<in> cp_in_flight pl)
      \<and> (\<forall>p. retired_by p sl \<longrightarrow> waits_at pl r p)
      \<and> ((\<exists>s. sl_holder sl = Some (Closing s ShuttingDown)) \<longrightarrow> (\<exists>rs. cp_shutdown pl = Some (r # rs)))
      \<and> (past pl r \<longrightarrow> up_to_date (cp_file pl) r sl)
      \<and> (shut_past pl r \<longrightarrow> vacant sl))"

definition pool_ok :: "pool \<Rightarrow> bool" where
  "pool_ok pl =
     ((\<forall>r sl. cp_slots pl r = Some sl \<longrightarrow> slot_ok (cp_next pl) sl \<and> place_ok pl r sl)
      \<and> (\<forall>rt. cp_passes pl (cp_latest pl) = Some rt \<longrightarrow> rt_saved rt = cp_file pl)
      \<and> (\<forall>p. cp_passes pl p \<noteq> None \<longrightarrow> p \<le> cp_latest pl)
      \<and> (cp_shutdown pl \<noteq> None \<longrightarrow> cp_closed pl \<and> cp_in_flight pl = {}))"

lemma pool_okD:
  assumes "pool_ok pl"
  shows "\<And>r sl. cp_slots pl r = Some sl \<Longrightarrow> slot_ok (cp_next pl) sl"
    "\<And>r sl. cp_slots pl r = Some sl \<Longrightarrow> place_ok pl r sl"
    "\<And>rt. cp_passes pl (cp_latest pl) = Some rt \<Longrightarrow> rt_saved rt = cp_file pl"
    "\<And>p. cp_passes pl p \<noteq> None \<Longrightarrow> p \<le> cp_latest pl"
    "cp_shutdown pl \<noteq> None \<Longrightarrow> cp_closed pl \<and> cp_in_flight pl = {}"
  using assms by (simp_all add: pool_ok_def)

lemma put_slot_simps [simp]:
  "cp_slots (put_slot r sl pl) = (cp_slots pl)(r \<mapsto> sl)" "cp_ad_hoc (put_slot r sl pl) = cp_ad_hoc pl"
  "cp_file (put_slot r sl pl) = cp_file pl" "cp_closed (put_slot r sl pl) = cp_closed pl"
  "cp_in_flight (put_slot r sl pl) = cp_in_flight pl" "cp_passes (put_slot r sl pl) = cp_passes pl"
  "cp_latest (put_slot r sl pl) = cp_latest pl" "cp_shutdown (put_slot r sl pl) = cp_shutdown pl"
  "cp_next (put_slot r sl pl) = cp_next pl"
  by (simp_all add: put_slot_def)

lemma place_ok_cong:
  assumes "cp_in_flight pl' = cp_in_flight pl" "cp_passes pl' = cp_passes pl" "cp_latest pl' = cp_latest pl"
    "cp_file pl' = cp_file pl" "cp_shutdown pl' = cp_shutdown pl"
  shows "place_ok pl' r sl = place_ok pl r sl"
  by (simp add: place_ok_def past_def shut_past_def waits_at_def assms)

lemma place_ok_put [simp]: "place_ok (put_slot r sl pl) = place_ok pl"
  by (intro ext place_ok_cong) simp_all

lemma pool_ok_put:
  assumes "pool_ok pl" "slot_ok (cp_next pl) sl" "place_ok pl r sl"
  shows "pool_ok (put_slot r sl pl)"
  using assms by (simp add: pool_ok_def)

lemma pool_ok_next:
  assumes "pool_ok pl" "cp_next pl \<le> n"
  shows "pool_ok (pl\<lparr>cp_next := n\<rparr>)"
proof -
  have "place_ok (pl\<lparr>cp_next := n\<rparr>) = place_ok pl" by (intro ext place_ok_cong) simp_all
  moreover have "cp_slots pl r = Some sl \<Longrightarrow> slot_ok n sl" for r sl
    using pool_okD(1) [OF assms(1)] slot_ok_more assms(2) by blast
  ultimately show ?thesis using assms(1) by (simp add: pool_ok_def)
qed

text \<open>A step that leaves the held session, the lock and the users as they are, or frees the lock.\<close>

lemma place_ok_same:
  assumes "place_ok pl r sl" "sl_held sl' = sl_held sl" "sl_holder sl' = sl_holder sl"
    "le_user ` set (sl_alive sl') \<subseteq> le_user ` set (sl_alive sl)"
  shows "place_ok pl r sl'"
proof -
  have "occupies i sl' \<Longrightarrow> occupies i sl" for i using assms(3,4) by (fastforce simp: occupies_def)
  with assms(1-3) show ?thesis by (simp add: place_ok_def up_to_date_def vacant_def retired_by_def)
qed

lemma place_ok_freed:
  assumes "place_ok pl r sl" "sl_held sl' = sl_held sl" "sl_holder sl' = None" "sl_alive sl' = sl_alive sl"
  shows "place_ok pl r sl'"
  using assms by (simp add: place_ok_def up_to_date_def vacant_def retired_by_def occupies_def)

lemma place_ok_begin:
  assumes "place_ok pl r sl" "sl_holder sl = None" "\<And>i. u = ByOperation i \<Longrightarrow> i \<in> cp_in_flight pl"
    "shut_past pl r \<Longrightarrow> cp_closed pl"
  shows "place_ok pl r (snd (begin_lease (cp_closed pl) u sl))"
proof (cases "cp_closed pl")
  case False
  with assms(4) have "\<not> shut_past pl r" by blast
  with False assms(1-3) show ?thesis
    by (auto simp: begin_lease_def count_lease_def place_ok_def up_to_date_def retired_by_def occupies_def split: option.splits)
qed (use assms in \<open>simp add: begin_lease_def\<close>)

lemma identity_reaches:
  assumes "receiver_identity_of r loaded pl = Ok i" "loaded = Ok (cp_file pl) \<or> loaded = Err e" "\<not> is_ad_hoc r"
  shows "reaches (cp_file pl) r i"
  using assms by (auto simp: receiver_identity_of_def reaches_def split: sum.splits option.splits)

lemma place_ok_resolved:
  assumes "place_ok pl r sl" "loaded = Ok (cp_file pl) \<or> loaded = Err e"
  shows "place_ok pl r (snd (resolved (receiver_identity_of r loaded pl) sl))"
proof (cases "\<exists>u. sl_holder sl = Some (Resolving u)")
  case True
  then obtain u where u: "sl_holder sl = Some (Resolving u)" by blast
  show ?thesis
  proof (cases "receiver_identity_of r loaded pl")
    case (Inl e')
    with u assms(1) show ?thesis
      by (simp add: resolved_def attempt_over_def) (rule place_ok_freed, simp_all)
  next
    case (Inr i)
    with identity_reaches assms(2) have "past pl r \<Longrightarrow> reaches (cp_file pl) r i" by (auto simp: past_def)
    with u Inr assms(1) show ?thesis
      by (auto simp: resolved_def place_ok_def up_to_date_def vacant_def retired_by_def occupies_def)
  qed
next
  case False
  then have "resolved a sl = (Waiting, sl)" for a by (auto simp: resolved_def split: option.split holder.split)
  with assms(1) show ?thesis by simp
qed

lemma place_ok_joined: "place_ok pl r sl \<Longrightarrow> place_ok pl r (snd (joined s answer sl))"
  by (cases "sl_holder sl"; cases "the (sl_holder sl)")
     (auto simp: joined_def attempt_over_def place_ok_def up_to_date_def vacant_def retired_by_def occupies_def split: sum.split)

lemma place_ok_synchronized: "place_ok pl r sl \<Longrightarrow> place_ok pl r (snd (session_synchronized answer sl))"
  by (cases "sl_holder sl"; cases "the (sl_holder sl)")
     (auto simp: session_synchronized_def count_lease_def place_ok_def up_to_date_def vacant_def retired_by_def
       occupies_def split: sum.split)

lemma place_ok_undone: "place_ok pl r sl \<Longrightarrow> place_ok pl r (undone_session sl)"
  by (cases "sl_holder sl"; cases "the (sl_holder sl)")
     (auto simp: undone_session_def attempt_over_def intro: place_ok_freed)

lemma place_ok_drop_attempt: "place_ok pl r sl \<Longrightarrow> place_ok pl r (drop_attempt sl)"
  by (auto simp: drop_attempt_def attempt_over_def split: option.split intro: place_ok_freed)

lemma swapped_users:
  "l \<in> set xs \<Longrightarrow> le_user l' = le_user l \<Longrightarrow> le_user ` set (l' # remove1 l xs) \<subseteq> le_user ` set xs"
  using set_remove1_subset [of l xs] by auto

lemma place_ok_drops:
  assumes "place_ok pl r sl"
  shows "place_ok pl r (give_back l sl)" "place_ok pl r (bump l sl)" "place_ok pl r (uncount l sl)"
    "place_ok pl r (arm_idle_timer sl)"
proof -
  have "l \<in> set (sl_alive sl) \<Longrightarrow> le_user ` set (l\<lparr>le_phase := ph\<rparr> # remove1 l (sl_alive sl)) \<subseteq> le_user ` set (sl_alive sl)" for ph
    by (rule swapped_users) simp_all
  then show "place_ok pl r (give_back l sl)" "place_ok pl r (bump l sl)"
    using assms place_ok_same [OF assms] by (auto simp: give_back_def bump_def)
  have "le_user ` set (remove1 l (sl_alive sl)) \<subseteq> le_user ` set (sl_alive sl)" by (intro image_mono set_remove1_subset)
  then show "place_ok pl r (uncount l sl)" by (intro place_ok_same [OF assms]) (simp_all add: uncount_def)
  show "place_ok pl r (arm_idle_timer sl)" using assms
    by (auto simp: arm_idle_timer_def intro!: place_ok_same [OF assms])
qed

lemma place_ok_take:
  assumes "place_ok pl r sl" "\<And>p. w = Retirement p \<Longrightarrow> waits_at pl r p"
    "w = ShuttingDown \<Longrightarrow> \<exists>rs. cp_shutdown pl = Some (r # rs)"
  shows "place_ok pl r (take_held w sl)"
  using assms
  by (auto simp: take_held_def place_ok_def up_to_date_def vacant_def retired_by_def occupies_def
      split: option.split closer.splits)

lemma place_ok_idle:
  assumes "place_ok pl r sl"
  shows "place_ok pl r (release_if_idle t sl)"
proof -
  have "place_ok pl r (sl\<lparr>sl_timers := ts\<rparr>)" for ts by (rule place_ok_same [OF assms]) simp_all
  then show ?thesis by (auto simp: release_if_idle_def Let_def intro!: place_ok_take)
qed

text \<open>Changes of the pool around the slots.\<close>

lemma pool_ok_keep:
  assumes "pool_ok pl" "cp_slots pl' = cp_slots pl" "cp_next pl' = cp_next pl"
    "\<And>r sl. cp_slots pl r = Some sl \<Longrightarrow> place_ok pl r sl \<Longrightarrow> slot_ok (cp_next pl) sl \<Longrightarrow> place_ok pl' r sl"
    "\<And>rt. cp_passes pl' (cp_latest pl') = Some rt \<Longrightarrow> rt_saved rt = cp_file pl'"
    "\<And>p. cp_passes pl' p \<noteq> None \<Longrightarrow> p \<le> cp_latest pl'"
    "cp_shutdown pl' \<noteq> None \<Longrightarrow> cp_closed pl' \<and> cp_in_flight pl' = {}"
  shows "pool_ok pl'"
  using assms unfolding pool_ok_def by simp

lemma pool_ok_pop:
  assumes "pool_ok pl" "cp_passes pl p = Some rt" "rt_todo rt = Some (r # rs)" "cp_slots pl r = Some sl"
    "sl_holder sl = None" "p = cp_latest pl \<Longrightarrow> \<not> is_ad_hoc r \<Longrightarrow> up_to_date (cp_file pl) r sl"
  shows "pool_ok (set_todo p rs pl)"
proof -
  have st: "set_todo p rs pl = pl\<lparr>cp_passes := (cp_passes pl)(p \<mapsto> rt\<lparr>rt_todo := Some rs\<rparr>)\<rparr>"
    using assms(2) by (simp add: set_todo_def)
  have "place_ok (set_todo p rs pl) r' sl'" if at: "cp_slots pl r' = Some sl'" and ok: "place_ok pl r' sl'" for r' sl'
  proof -
    have "\<not> retired_by p sl'"
      using ok at assms(2-5) by (auto simp: place_ok_def waits_at_def retired_by_def)
    then have "retired_by q sl' \<Longrightarrow> waits_at (set_todo p rs pl) r' q" for q
      using ok by (cases "q = p") (auto simp: place_ok_def waits_at_def st)
    moreover have "past (set_todo p rs pl) r' \<Longrightarrow> up_to_date (cp_file pl) r' sl'"
      using ok at assms(2-4,6) by (auto simp: place_ok_def past_def st split: if_splits)
    ultimately show ?thesis using ok by (simp add: place_ok_def shut_past_def st)
  qed
  with assms(1) show ?thesis
    by (intro pool_ok_keep [OF assms(1)]) (use assms(2) pool_okD(3-5) [OF assms(1)] in \<open>auto simp: st split: if_splits\<close>)
qed

lemma pool_ok_listed:
  assumes "pool_ok pl" "cp_passes pl p = Some rt" "rt_todo rt = None" "set todo = dom (cp_slots pl)"
  shows "pool_ok (set_todo p todo pl)"
proof -
  have st: "set_todo p todo pl = pl\<lparr>cp_passes := (cp_passes pl)(p \<mapsto> rt\<lparr>rt_todo := Some todo\<rparr>)\<rparr>"
    using assms(2) by (simp add: set_todo_def)
  have "place_ok (set_todo p todo pl) r' sl'" if at: "cp_slots pl r' = Some sl'" and ok: "place_ok pl r' sl'" for r' sl'
  proof -
    have "\<not> retired_by p sl'" using ok assms(2,3) by (auto simp: place_ok_def waits_at_def)
    then have "retired_by q sl' \<Longrightarrow> waits_at (set_todo p todo pl) r' q" for q
      using ok by (cases "q = p") (auto simp: place_ok_def waits_at_def st)
    moreover have "past (set_todo p todo pl) r' \<Longrightarrow> past pl r'"
      using at assms(2-4) by (auto simp: past_def st split: if_splits)
    ultimately show ?thesis using ok by (simp add: place_ok_def shut_past_def st)
  qed
  with assms(1) show ?thesis
    by (intro pool_ok_keep [OF assms(1)]) (use assms(2) pool_okD(3-5) [OF assms(1)] in \<open>auto simp: st split: if_splits\<close>)
qed

lemma pool_ok_forget:
  assumes "pool_ok pl" "\<And>r sl. cp_slots pl r = Some sl \<Longrightarrow> \<not> retired_by p sl"
  shows "pool_ok (pl\<lparr>cp_passes := (cp_passes pl)(p := None)\<rparr>)"
  using pool_okD(3-5) [OF assms(1)] assms(2)
  by (intro pool_ok_keep [OF assms(1)]) (auto simp: place_ok_def past_def shut_past_def waits_at_def split: if_splits)

lemma pool_ok_saved:
  assumes "pool_ok pl"
  shows "pool_ok (pl\<lparr>cp_file := c, cp_latest := cp_latest pl + 1,
     cp_passes := (cp_passes pl)(cp_latest pl + 1 \<mapsto> \<lparr>rt_saved = c, rt_todo = None\<rparr>)\<rparr>)" (is "pool_ok ?pl")
proof -
  have "place_ok ?pl r sl" if ok: "place_ok pl r sl" for r sl
  proof -
    have "retired_by p sl \<Longrightarrow> waits_at ?pl r p" for p
      using ok pool_okD(4) [OF assms, of p] by (auto simp: place_ok_def waits_at_def)
    moreover have "\<not> past ?pl r" by (simp add: past_def)
    ultimately show ?thesis using ok by (simp add: place_ok_def shut_past_def)
  qed
  then show ?thesis
    by (intro pool_ok_keep [OF assms]) (use pool_okD(4,5) [OF assms] in \<open>auto split: if_splits dest: le_SucI\<close>)
qed

lemma pool_ok_shutdown:
  assumes "pool_ok pl"
    "\<And>r sl todo. cp_slots pl r = Some sl \<Longrightarrow> slot_ok (cp_next pl) sl \<Longrightarrow> next = Some todo \<Longrightarrow> r \<notin> set todo \<Longrightarrow>
       shut_past pl r \<or> vacant sl"
    "\<And>r sl s. cp_slots pl r = Some sl \<Longrightarrow> sl_holder sl \<noteq> Some (Closing s ShuttingDown)"
    "next \<noteq> None \<Longrightarrow> cp_closed pl \<and> cp_in_flight pl = {}"
  shows "pool_ok (pl\<lparr>cp_shutdown := next\<rparr>)"
  using pool_okD(3-5) [OF assms(1)] assms(2-4)
  by (intro pool_ok_keep [OF assms(1)]) (fastforce simp: place_ok_def past_def shut_past_def waits_at_def)+

lemma put_slot_same: "cp_slots pl r = Some sl \<Longrightarrow> put_slot r sl pl = pl"
  by (simp add: put_slot_def map_upd_triv)

lemma closed_session_free:
  "sl_holder sl = Some (Closing s w) \<Longrightarrow> sl_holder (closed_session sl) = None"
  "sl_held (closed_session sl) = sl_held sl"
  by (auto simp: closed_session_def split: option.split holder.split)

lemma pool_ok_closed:
  assumes "pool_ok pl" "cp_slots pl r = Some sl" "sl_holder sl = Some (Closing s w)"
  shows "pool_ok (after_close r w sl pl)"
proof -
  let ?sl = "closed_session sl"
  note place = pool_okD(2) [OF assms(1,2)] and slot = pool_okD(1) [OF assms(1,2)]
  have held: "sl_held ?sl = None" using slot_okD(5) [OF slot] assms(3) by (simp add: closed_session_free)
  have free: "sl_holder ?sl = None" using assms(3) by (rule closed_session_free)
  have ok: "pool_ok (put_slot r ?sl pl)"
    using assms(1) slot_ok_closed [OF slot]
    by (rule pool_ok_put) (rule place_ok_freed [OF place], use assms(3) in \<open>simp_all add: closed_session_def\<close>)
  show ?thesis
  proof (cases w)
    case (Retirement p)
    with place assms(3) obtain rt rs where "cp_passes pl p = Some rt" "rt_todo rt = Some (r # rs)"
      by (auto simp: place_ok_def retired_by_def waits_at_def)
    then show ?thesis using pool_ok_pop [OF ok, of p rt r rs ?sl] free held Retirement
      by (simp add: after_close_def Let_def up_to_date_def)
  next
    case IdleTimer
    with ok show ?thesis by (simp add: after_close_def)
  next
    case ShuttingDown
    with place assms(3) obtain rs where rs: "cp_shutdown pl = Some (r # rs)" by (auto simp: place_ok_def)
    have "pool_ok ((put_slot r ?sl pl)\<lparr>cp_shutdown := Some rs\<rparr>)"
    proof (rule pool_ok_shutdown [OF ok])
      fix r' sl' assume at: "cp_slots (put_slot r ?sl pl) r' = Some sl'"
      show "sl_holder sl' \<noteq> Some (Closing s' ShuttingDown)" for s'
        using at free rs pool_okD(2) [OF assms(1), of r' sl'] by (auto simp: place_ok_def split: if_splits)
      show "shut_past (put_slot r ?sl pl) r' \<or> vacant sl'" if "Some rs = Some todo" "r' \<notin> set todo" for todo
        using at that rs held free by (auto simp: shut_past_def vacant_def split: if_splits)
    qed (use pool_okD(5) [OF ok] rs in auto)
    with ShuttingDown rs show ?thesis by (simp add: after_close_def)
  qed
qed

lemma pool_ok_find: "pool_ok pl \<Longrightarrow> pool_ok (snd (find_slot r loaded pl))"
  using slot_ok_new
  by (auto simp: find_slot_def place_ok_def past_def shut_past_def up_to_date_def vacant_def slot_new_def retired_by_def
      occupies_def intro!: pool_ok_put split: option.split sum.split)

lemma pool_ok_visit:
  assumes "pool_ok pl" "cp_passes pl p = Some rt" "rt_todo rt = Some (r # rs)" "cp_slots pl r = Some sl" "sl_holder sl = None"
  shows "pool_ok (retire_visit p rt r rs sl pl)"
proof (cases "is_ad_hoc r \<or> retire_unchanged (rt_saved rt) r sl")
  case True
  have "p = cp_latest pl \<Longrightarrow> rt_saved rt = cp_file pl" using assms(2) pool_okD(3) [OF assms(1)] by simp
  with True assms show ?thesis
    by (auto simp: retire_visit_def up_to_date_def retire_unchanged_def intro!: pool_ok_pop split: option.splits)
next
  case False
  have "place_ok pl r (sl\<lparr>sl_holder := Some (Retiring p)\<rparr>)"
    using pool_okD(2) [OF assms(1,4)] assms(2,3,5)
    by (auto simp: place_ok_def up_to_date_def vacant_def retired_by_def occupies_def waits_at_def)
  with False pool_okD(1) [OF assms(1,4)] assms(1,5) show ?thesis
    by (auto simp: retire_visit_def intro!: pool_ok_put slot_ok_retiring)
qed

lemma uncounted_iff: "slot_ok n sl \<Longrightarrow> sl_operations sl = 0 \<longleftrightarrow> (\<forall>l \<in> set (sl_alive sl). \<not> counted l)"
  by (auto simp: slot_ok_def filter_empty_conv)

lemma counted_occupies: "l \<in> set (sl_alive sl) \<Longrightarrow> counted l \<Longrightarrow> \<exists>i. occupies i sl"
  by (auto simp: counted_def is_operation_def occupies_def split: user.splits)

lemma pool_ok_shut_visit:
  assumes "pool_ok pl" "cp_shutdown pl = Some (r # rs)" "cp_slots pl r = Some sl" "sl_holder sl = None"
  shows "pool_ok (shutdown_visit r rs sl pl)"
proof (cases "sl_held sl = None")
  case True
  have "pool_ok (pl\<lparr>cp_shutdown := Some rs\<rparr>)"
  proof (rule pool_ok_shutdown [OF assms(1)])
    fix r' sl' assume at: "cp_slots pl r' = Some sl'"
    show "sl_holder sl' \<noteq> Some (Closing s' ShuttingDown)" for s'
      using at assms(2-4) pool_okD(2) [OF assms(1) at] by (auto simp: place_ok_def)
    show "shut_past pl r' \<or> vacant sl'" if "Some rs = Some todo" "r' \<notin> set todo" for todo
      using at that assms(2-4) True by (auto simp: shut_past_def vacant_def)
  qed (use pool_okD(5) [OF assms(1)] assms(2) in auto)
  with True show ?thesis by (simp add: shutdown_visit_def)
next
  case False
  note place = pool_okD(2) [OF assms(1,3)] and slot = pool_okD(1) [OF assms(1,3)]
  have "cp_in_flight pl = {}" using pool_okD(5) [OF assms(1)] assms(2) by simp
  with place counted_occupies have "\<forall>l \<in> set (sl_alive sl). \<not> counted l" by (fastforce simp: place_ok_def)
  with False assms place slot show ?thesis
    by (auto simp: shutdown_visit_def intro!: pool_ok_put slot_ok_take_held place_ok_take)
qed

section \<open>Every reachable pool\<close>

lemma pool_ok_new: "pool_ok (pool_new file)"
  by (simp add: pool_ok_def pool_new_def)

lemma pool_ok_step:
  assumes "pool_ok pl" "pool_step pl pl'"
  shows "pool_ok pl'"
  using assms(2)
proof cases
  case (op_begins i)
  with assms(1) pool_okD(5) [OF assms(1)] show ?thesis
    by (auto simp: pool_ok_def place_ok_def past_def shut_past_def waits_at_def)
next
  case (op_ends i)
  with assms(1) show ?thesis by (auto simp: pool_ok_def place_ok_def past_def shut_past_def waits_at_def)
next
  case (registers r identity)
  have "place_ok pl' = place_ok pl" unfolding registers by (intro ext place_ok_cong) simp_all
  with assms(1) registers show ?thesis by (simp add: pool_ok_def)
next
  case (finds_slot loaded e r)
  with assms(1) show ?thesis by (simp add: pool_ok_find)
next
  case (takes_lease r sl u)
  note ok = pool_okD(1,2) [OF assms(1) takes_lease(2)]
  have "shut_past pl r \<Longrightarrow> cp_closed pl" using pool_okD(5) [OF assms(1)] by (auto simp: shut_past_def)
  with takes_lease ok assms(1) show ?thesis by (auto intro!: pool_ok_put slot_ok_begin place_ok_begin)
next
  case (resolves r sl loaded e)
  note ok = pool_okD(1,2) [OF assms(1) resolves(2)]
  show ?thesis unfolding resolves(1)
    by (rule pool_ok_put [OF assms(1) slot_ok_resolved [OF ok(1)] place_ok_resolved [OF ok(2) resolves(3)]])
next
  case (joins r sl answer)
  note ok = pool_okD(1,2) [OF assms(1) joins(2)]
  let ?pl = "pl\<lparr>cp_next := cp_next pl + 1\<rparr>"
  have "place_ok ?pl = place_ok pl" by (intro ext place_ok_cong) simp_all
  with ok have "pool_ok (put_slot r (snd (joined (cp_next pl) answer sl)) ?pl)"
    using pool_ok_next [OF assms(1)] slot_ok_joined place_ok_joined by (intro pool_ok_put) simp_all
  moreover have "pl' = put_slot r (snd (joined (cp_next pl) answer sl)) ?pl" by (simp add: put_slot_def joins(1))
  ultimately show ?thesis by simp
next
  case (synchronizes r sl answer)
  with pool_okD(1,2) [OF assms(1)] assms(1) show ?thesis
    by (auto intro!: pool_ok_put slot_ok_synchronized place_ok_synchronized)
next
  case (undoes r sl)
  with pool_okD(1,2) [OF assms(1)] assms(1) show ?thesis by (auto intro!: pool_ok_put slot_ok_undone place_ok_undone)
next
  case (drops_attempt r sl)
  with pool_okD(1,2) [OF assms(1)] assms(1) show ?thesis
    by (auto intro!: pool_ok_put slot_ok_drop_attempt place_ok_drop_attempt)
next
  case (gives_back r sl l)
  with pool_okD(1,2) [OF assms(1)] assms(1) show ?thesis by (auto intro!: pool_ok_put slot_ok_give_back place_ok_drops)
next
  case (bumps r sl l)
  with pool_okD(1,2) [OF assms(1)] assms(1) show ?thesis by (auto intro!: pool_ok_put slot_ok_bump place_ok_drops)
next
  case (uncounts r sl l)
  with pool_okD(1,2) [OF assms(1)] assms(1) show ?thesis by (auto intro!: pool_ok_put slot_ok_uncount place_ok_drops)
next
  case (arms r sl)
  with pool_okD(1,2) [OF assms(1)] assms(1) show ?thesis by (auto intro!: pool_ok_put slot_ok_arm place_ok_drops)
next
  case (timer_fires r sl t)
  with pool_okD(1,2) [OF assms(1)] assms(1) show ?thesis by (auto intro!: pool_ok_put slot_ok_idle place_ok_idle)
next
  case (saves c answer)
  with assms(1) pool_ok_saved [OF assms(1)] show ?thesis by (simp add: save_configuration_def split: sum.split)
next
  case (lists_slots p rt todo)
  with assms(1) show ?thesis by (simp add: pool_ok_listed)
next
  case (visits p rt r rs sl)
  with assms(1) show ?thesis by (simp add: pool_ok_visit)
next
  case (retires r sl p)
  note ok = pool_okD(1,2) [OF assms(1) retires(2)]
  have "waits_at pl r p" using ok(2) retires(3) by (auto simp: place_ok_def retired_by_def)
  then have "place_ok pl r (take_held (Retirement p) sl)" by (intro place_ok_take [OF ok(2)]) auto
  moreover have "slot_ok (cp_next pl) (take_held (Retirement p) sl)"
    using uncounted_iff [OF ok(1)] retires(3,4) by (intro slot_ok_take_held [OF ok(1)]) auto
  ultimately show ?thesis using retires(1) assms(1) by (simp add: pool_ok_put)
next
  case (closes r sl s w)
  with assms(1) show ?thesis by (simp add: pool_ok_closed)
next
  case (drops_pass r sl p)
  note ok = pool_okD(1,2) [OF assms(1) drops_pass(2)]
  have free: "sl_holder (drop_closer sl) = None" and "sl_held (drop_closer sl) = sl_held sl"
    "sl_alive (drop_closer sl) = sl_alive sl"
    using drops_pass(3) by (auto simp: drop_closer_def retired_by_def split: option.splits holder.splits)
  then have put: "pool_ok (put_slot r (drop_closer sl) pl)"
    using slot_ok_drop_closer [OF ok(1)] place_ok_freed [OF ok(2)] assms(1) by (intro pool_ok_put) simp_all
  have at: "waits_at pl r p" using ok(2) drops_pass(3) by (simp add: place_ok_def)
  have "\<not> retired_by p sl'" if sl': "cp_slots (put_slot r (drop_closer sl) pl) r' = Some sl'" for r' sl'
  proof (cases "r' = r")
    case True
    with sl' free show ?thesis by (auto simp: retired_by_def)
  next
    case False
    with sl' pool_okD(2) [OF assms(1), of r' sl'] have "retired_by p sl' \<Longrightarrow> waits_at pl r' p" by (simp add: place_ok_def)
    with at False show ?thesis by (auto simp: waits_at_def)
  qed
  with drops_pass(1) pool_ok_forget [OF put, of p] show ?thesis by simp
next
  case (abandons_pass p)
  with pool_ok_forget [OF assms(1)] show ?thesis by simp
next
  case shuts
  with assms(1) show ?thesis by (auto simp: pool_ok_def place_ok_def past_def shut_past_def waits_at_def)
next
  case (lists_all todo)
  have "pool_ok (pl\<lparr>cp_shutdown := Some todo\<rparr>)"
    by (rule pool_ok_shutdown [OF assms(1)])
       (use lists_all pool_okD(2) [OF assms(1)] in \<open>force simp: place_ok_def\<close>)+
  with lists_all(1) show ?thesis by simp
next
  case (shuts_slot r rs sl)
  with assms(1) show ?thesis by (simp add: pool_ok_shut_visit)
next
  case (drops_shutdown r sl s)
  note ok = pool_okD(1,2) [OF assms(1) drops_shutdown(2)]
  have free: "sl_holder (drop_closer sl) = None" and "sl_held (drop_closer sl) = sl_held sl"
    "sl_alive (drop_closer sl) = sl_alive sl" using drops_shutdown(3) by (simp_all add: drop_closer_def)
  then have put: "pool_ok (put_slot r (drop_closer sl) pl)"
    using slot_ok_drop_closer [OF ok(1)] place_ok_freed [OF ok(2)] assms(1) by (intro pool_ok_put) simp_all
  obtain rs where rs: "cp_shutdown pl = Some (r # rs)" using ok(2) drops_shutdown(3) by (auto simp: place_ok_def)
  have "pool_ok ((put_slot r (drop_closer sl) pl)\<lparr>cp_shutdown := None\<rparr>)"
  proof (rule pool_ok_shutdown [OF put])
    fix r' sl' assume "cp_slots (put_slot r (drop_closer sl) pl) r' = Some sl'"
    then show "sl_holder sl' \<noteq> Some (Closing s' ShuttingDown)" for s'
      using free rs pool_okD(2) [OF assms(1), of r' sl'] by (auto simp: place_ok_def split: if_splits)
  qed simp_all
  with drops_shutdown(1) show ?thesis by simp
qed

lemma pool_ok_steps: "pool_steps (pool_new file) pl \<Longrightarrow> pool_ok pl"
  by (induction rule: rtranclp_induct) (simp_all add: pool_ok_new pool_ok_step)

section \<open>An example pool\<close>

abbreviation den :: receiver_id where "den \<equiv> ReceiverId ''den''"

definition example_identity :: "string \<Rightarrow> receiver_identity" where
  "example_identity host = \<lparr>ri_host = host, ri_model = None, ri_friendly_name = None\<rparr>"

definition example_file :: "string \<Rightarrow> configured_receivers" where
  "example_file host = \<lparr>cr_current = None, cr_receivers = [(''den'', example_identity host)], cr_sound_mode_favorites = []\<rparr>"

definition example_lease :: "drop_phase \<Rightarrow> lease" where
  "example_lease ph = \<lparr>le_session = 0, le_user = ByOperation 1, le_phase = ph\<rparr>"

definition example_slot :: "nat \<Rightarrow> u64 \<Rightarrow> nat \<Rightarrow> u64 list \<Rightarrow> lease list \<Rightarrow> slot" where
  "example_slot operations activity arming timers alive =
     \<lparr>sl_held = Some \<lparr>hd_session = 0, hd_identity = example_identity ''h1''\<rparr>, sl_holder = None,
      sl_leases = length alive, sl_operations = operations, sl_activity = activity, sl_status = Connected,
      sl_arming = arming, sl_timers = timers, sl_alive = alive, sl_open = {0}, sl_abandoned = {}\<rparr>"

definition example_attempt :: "holder \<Rightarrow> nat set \<Rightarrow> slot" where
  "example_attempt h ss =
     \<lparr>sl_held = None, sl_holder = Some h, sl_leases = 0, sl_operations = 0, sl_activity = 0, sl_status = Connecting,
      sl_arming = 0, sl_timers = [], sl_alive = [], sl_open = ss, sl_abandoned = {}\<rparr>"

definition example_start :: pool where
  "example_start = (pool_new (example_file ''h1''))\<lparr>cp_in_flight := {1}, cp_next := 1\<rparr>"

lemma put_slot_put [simp]: "put_slot r a (put_slot r b pl) = put_slot r a pl"
  by (simp add: put_slot_def)

lemma den_saved [simp]: "\<not> is_ad_hoc den"
  by (simp add: is_ad_hoc_def is_reserved_name_def AD_HOC_PREFIX_def text_defs)

lemma example_leased:
  "pool_steps (pool_new (example_file ''h1'')) (put_slot den (example_slot 1 1 0 [] [example_lease Using]) example_start)"
proof -
  let ?p1 = "(pool_new (example_file ''h1''))\<lparr>cp_in_flight := {1}\<rparr>"
  let ?u = "ByOperation 1"
  have find: "receiver_identity_of den (Ok (example_file ''h1'')) pl = Ok (example_identity ''h1'')" for pl
    by (simp add: receiver_identity_of_def example_file_def)
  have "pool_steps (pool_new (example_file ''h1'')) (pool_new (example_file ''h1''))" by simp
  also have "pool_step (pool_new (example_file ''h1'')) ?p1"
    using op_begins [of "pool_new (example_file ''h1'')" 1] by (simp add: pool_new_def)
  also have "pool_step ?p1 (put_slot den slot_new ?p1)"
    using finds_slot [of "Ok (cp_file ?p1)" ?p1 _ den] find by (simp add: find_slot_def pool_new_def)
  also have "pool_step (put_slot den slot_new ?p1) (put_slot den (example_attempt (Resolving ?u) {}) ?p1)"
    using takes_lease [of "put_slot den slot_new ?p1" den slot_new ?u]
    by (simp add: begin_lease_def slot_new_def example_attempt_def pool_new_def)
  also have "pool_step (put_slot den (example_attempt (Resolving ?u) {}) ?p1) (put_slot den (example_attempt (Joining ?u (example_identity ''h1'')) {}) ?p1)"
    using resolves [of "put_slot den (example_attempt (Resolving ?u) {}) ?p1" den _ "Ok (cp_file ?p1)"] find
    by (simp add: resolved_def example_attempt_def pool_new_def)
  also have "pool_step (put_slot den (example_attempt (Joining ?u (example_identity ''h1'')) {}) ?p1)
      (put_slot den (example_attempt (Synchronizing ?u (example_identity ''h1'') 0) {0}) example_start)"
    using joins [of "put_slot den (example_attempt (Joining ?u (example_identity ''h1'')) {}) ?p1" den _ "Ok ()"]
    by (simp add: joined_def pool_new_def example_start_def put_slot_def example_attempt_def)
  also have "pool_step (put_slot den (example_attempt (Synchronizing ?u (example_identity ''h1'') 0) {0}) example_start)
      (put_slot den (example_slot 1 1 0 [] [example_lease Using]) example_start)"
    using synchronizes [of "put_slot den (example_attempt (Synchronizing ?u (example_identity ''h1'') 0) {0}) example_start" den _ "Ok ()"]
    by (simp add: session_synchronized_def count_lease_def example_attempt_def example_slot_def example_lease_def is_operation_def)
  finally show ?thesis .
qed

lemma example_dropped:
  "pool_steps (pool_new (example_file ''h1'')) (put_slot den (example_slot 0 2 0 [2] []) example_start)"
proof -
  note example_leased
  also have "pool_step (put_slot den (example_slot 1 1 0 [] [example_lease Using]) example_start)
      (put_slot den (example_slot 0 1 0 [] [example_lease Uncounted]) example_start)"
    using gives_back [of "put_slot den (example_slot 1 1 0 [] [example_lease Using]) example_start" den _ "example_lease Using"]
    by (simp add: give_back_def example_slot_def example_lease_def is_operation_def)
  also have "pool_step (put_slot den (example_slot 0 1 0 [] [example_lease Uncounted]) example_start)
      (put_slot den (example_slot 0 2 0 [] [example_lease Bumped]) example_start)"
    using bumps [of "put_slot den (example_slot 0 1 0 [] [example_lease Uncounted]) example_start" den _ "example_lease Uncounted"]
    by (simp add: bump_def example_slot_def example_lease_def)
  also have "pool_step (put_slot den (example_slot 0 2 0 [] [example_lease Bumped]) example_start)
      (put_slot den (example_slot 0 2 1 [] []) example_start)"
    using uncounts [of "put_slot den (example_slot 0 2 0 [] [example_lease Bumped]) example_start" den _ "example_lease Bumped"]
    by (simp add: uncount_def example_slot_def example_lease_def)
  also have "pool_step (put_slot den (example_slot 0 2 1 [] []) example_start)
      (put_slot den (example_slot 0 2 0 [2] []) example_start)"
    using arms [of "put_slot den (example_slot 0 2 1 [] []) example_start" den]
    by (simp add: arm_idle_timer_def example_slot_def)
  finally show ?thesis .
qed

end
