(* ===== verification/Pool_Properties.thy ===== *)
theory Pool_Properties
  imports Pool_Safety
begin

text \<open>The properties of the connection pool, each applied to the example of \<open>Pool_Safety\<close>.\<close>

lemma reachable_slot:
  assumes "pool_steps (pool_new file) pl" "cp_slots pl r = Some sl"
  shows "slot_ok (cp_next pl) sl" "place_ok pl r sl"
  using pool_okD(1,2) [OF pool_ok_steps [OF assms(1)] assms(2)] .

text \<open>
  Under every interleaving of callers, timers, saves and shutdowns, the pool owns at most one
  open session per receiver, the one it holds when it holds one; the counters of leases and
  of operations count exactly the leases that are out, so that no decrement wraps; and the slot
  reads as connecting exactly while an attempt is running.
\<close>

theorem pool_slot_sound:
  assumes "pool_steps (pool_new file) pl" "cp_slots pl r = Some sl"
  shows "card (sl_open sl) \<le> 1 \<and> (\<forall>h. sl_held sl = Some h \<longrightarrow> sl_open sl = {hd_session h})
    \<and> sl_leases sl = length (sl_alive sl) \<and> sl_operations sl = length (filter counted (sl_alive sl))
    \<and> (sl_status sl = Connecting \<longleftrightarrow> (\<exists>h. sl_holder sl = Some h \<and> is_attempt h))"
proof -
  note ok = slot_okD [OF reachable_slot(1) [OF assms]]
  have "sl_open sl = {hd_session h}" if "sl_held sl = Some h" for h
    using ok(3,5) that by (auto simp: owned_def split: option.splits)
  moreover have "card (sl_open sl) \<le> 1" if "sl_held sl = None"
    using ok(3) that in_hand_disj by (auto simp: owned_def split: option.splits) (metis One_nat_def card.empty card_1_singleton_iff le_numeral_extra(4) zero_le_one)
  ultimately show ?thesis using ok(1,2,9) by (cases "sl_held sl") simp_all
qed

theorem pool_slot_sound_witness:
  "card (sl_open (example_slot 1 1 0 [] [example_lease Using])) \<le> 1"
proof -
  have "cp_slots (put_slot den (example_slot 1 1 0 [] [example_lease Using]) example_start) den
      = Some (example_slot 1 1 0 [] [example_lease Using])" by simp
  from pool_slot_sound [OF example_leased this] show ?thesis by blast
qed

text \<open>
  C13. The session under an operation is never closed: as long as an operation's lease is in use,
  the slot holds the very session it was given, open, whoever retires, times out or shuts down.
\<close>

theorem operation_keeps_session:
  assumes "pool_steps (pool_new file) pl" "cp_slots pl r = Some sl" "l \<in> set (sl_alive sl)"
    and "le_user l = ByOperation i" "le_phase l = Using"
  shows "\<exists>h. sl_held sl = Some h \<and> hd_session h = le_session l \<and> le_session l \<in> sl_open sl
    \<and> (\<forall>w. sl_holder sl \<noteq> Some (Closing (le_session l) w)) \<and> i \<in> cp_in_flight pl"
proof -
  note ok = slot_okD [OF reachable_slot(1) [OF assms(1,2)]]
  have "counted l" using assms(4,5) by (simp add: counted_def is_operation_def)
  with ok(6) assms(3) obtain h where "sl_held sl = Some h" "hd_session h = le_session l" by blast
  moreover from this ok(3) have "le_session l \<in> sl_open sl" by (simp add: owned_def)
  moreover have "i \<in> cp_in_flight pl"
    using reachable_slot(2) [OF assms(1,2)] assms(3,4) by (auto simp: place_ok_def occupies_def)
  ultimately show ?thesis using ok(5) by auto
qed

theorem operation_keeps_session_witness:
  "\<exists>h. sl_held (example_slot 1 1 0 [] [example_lease Using]) = Some h \<and> hd_session h = 0"
proof -
  have at: "cp_slots (put_slot den (example_slot 1 1 0 [] [example_lease Using]) example_start) den
      = Some (example_slot 1 1 0 [] [example_lease Using])" by simp
  have "example_lease Using \<in> set (sl_alive (example_slot 1 1 0 [] [example_lease Using]))"
    by (simp add: example_slot_def)
  from operation_keeps_session [OF example_leased at this, of 1] show ?thesis by (auto simp: example_lease_def)
qed



text \<open>
  A changed address is not served on: once the pass after the latest save has been past every
  slot, every session held for a saved receiver was opened to the host the file now gives it.
\<close>

theorem retirement_complete:
  assumes "pool_steps (pool_new file) pl" "cp_passes pl (cp_latest pl) = Some rt" "rt_todo rt = Some []"
    and "cp_slots pl r = Some sl" "\<not> is_ad_hoc r" "sl_held sl = Some h"
  shows "reaches (cp_file pl) r (hd_identity h)"
proof -
  have "past pl r" using assms(2,3,5) by (simp add: past_def)
  with reachable_slot(2) [OF assms(1,4)] assms(6) show ?thesis by (simp add: place_ok_def up_to_date_def)
qed

theorem retirement_complete_witness: "reaches (example_file ''h1'') den (example_identity ''h1'')"
proof -
  let ?sl = "example_slot 0 2 0 [2] []"
  let ?pl = "put_slot den ?sl example_start"
  let ?saved = "\<lambda>todo. ?pl\<lparr>cp_latest := 1, cp_passes := [1 \<mapsto> \<lparr>rt_saved = example_file ''h1'', rt_todo = todo\<rparr>]\<rparr>"
  have valid: "configured_validate (example_file ''h1'') = Ok ()"
    by (simp add: configured_validate_def example_file_def example_identity_def receiver_entry_error_def
        is_reserved_name_def AD_HOC_PREFIX_def has_line_break_def text_defs)
  note example_dropped
  also have "pool_step ?pl (?saved None)"
    using saves [of ?pl "example_file ''h1''" "Ok ()"] valid
    by (simp add: save_configuration_def example_start_def pool_new_def put_slot_def)
  also have "pool_step (?saved None) (?saved (Some [den]))"
    using lists_slots [of "?saved None" 1 _ "[den]"]
    by (simp add: set_todo_def example_start_def pool_new_def)
  also have "pool_step (?saved (Some [den])) (?saved (Some []))"
    using visits [of "?saved (Some [den])" 1 _ den "[]" ?sl]
    by (simp add: retire_visit_def set_todo_def retire_unchanged_def reaches_def example_slot_def example_file_def)
  finally have run: "pool_steps (pool_new (example_file ''h1'')) (?saved (Some []))" .
  have "reaches (cp_file (?saved (Some []))) den (hd_identity \<lparr>hd_session = 0, hd_identity = example_identity ''h1''\<rparr>)"
    by (rule retirement_complete [OF run, of "\<lparr>rt_saved = example_file ''h1'', rt_todo = Some []\<rparr>" den ?sl]) (simp_all add: example_slot_def)
  then show ?thesis by (simp add: example_start_def pool_new_def)
qed

text \<open>
  A shutdown leaves nothing open: once it has been past every slot, no slot holds or closes a
  session or connects one, no operation is in flight, and no lease can be taken any more.
\<close>

theorem shutdown_complete:
  assumes "pool_steps (pool_new file) pl" "cp_shutdown pl = Some []" "cp_slots pl r = Some sl"
  shows "sl_held sl = None \<and> sl_open sl = {} \<and> cp_in_flight pl = {}
    \<and> (\<forall>h. sl_holder sl = Some h \<longrightarrow> \<not> is_attempt h)
    \<and> begin_lease (cp_closed pl) u sl = (Refused (UnavailableError SHUT_DOWN), sl)"
proof -
  have "shut_past pl r" using assms(2) by (simp add: shut_past_def)
  with reachable_slot(2) [OF assms(1,3)] have vacant: "vacant sl" by (simp add: place_ok_def)
  with slot_okD(3) [OF reachable_slot(1) [OF assms(1,3)]] have "sl_open sl = {}"
    by (auto simp: vacant_def owned_def split: option.splits)
  moreover have "cp_closed pl \<and> cp_in_flight pl = {}" using pool_okD(5) [OF pool_ok_steps [OF assms(1)]] assms(2) by simp
  ultimately show ?thesis using vacant by (simp add: vacant_def begin_lease_def)
qed

theorem shutdown_complete_witness:
  "\<exists>pl sl. pool_steps (pool_new (example_file ''h1'')) pl \<and> cp_slots pl den = Some sl \<and> sl_open sl = {}
     \<and> sl_activity sl = 2"
proof -
  let ?sl = "example_slot 0 2 0 [2] []"
  let ?end_sl = "?sl\<lparr>sl_held := None, sl_status := Released, sl_open := {}\<rparr>"
  let ?closing = "?sl\<lparr>sl_held := None, sl_holder := Some (Closing 0 ShuttingDown)\<rparr>"
  let ?p1 = "example_start\<lparr>cp_in_flight := {}\<rparr>"
  let ?p2 = "?p1\<lparr>cp_closed := True\<rparr>"
  let ?p3 = "\<lambda>todo. ?p2\<lparr>cp_shutdown := Some todo\<rparr>"
  have idle: "\<not> occupies 1 ?sl" by (simp add: occupies_def example_slot_def)
  note example_dropped
  also have "pool_step (put_slot den ?sl example_start) (put_slot den ?sl ?p1)"
  proof -
    have "pool_step (put_slot den ?sl example_start)
        ((put_slot den ?sl example_start)\<lparr>cp_in_flight := cp_in_flight (put_slot den ?sl example_start) - {1}\<rparr>)"
      by (rule op_ends) (use idle in \<open>auto simp: example_start_def pool_new_def split: if_splits\<close>)
    then show ?thesis by (simp add: put_slot_def example_start_def pool_new_def)
  qed
  also have "pool_step (put_slot den ?sl ?p1) (put_slot den ?sl ?p2)"
    using shuts [of "put_slot den ?sl ?p1"] by (simp add: put_slot_def example_start_def pool_new_def)
  also have "pool_step (put_slot den ?sl ?p2) (put_slot den ?sl (?p3 [den]))"
    using lists_all [of "put_slot den ?sl ?p2" "[den]"] by (simp add: put_slot_def example_start_def pool_new_def)
  also have "pool_step (put_slot den ?sl (?p3 [den])) (put_slot den ?closing (?p3 [den]))"
    using shuts_slot [of "put_slot den ?sl (?p3 [den])" den "[]" ?sl]
    by (simp add: shutdown_visit_def take_held_def example_slot_def)
  also have "pool_step (put_slot den ?closing (?p3 [den])) (put_slot den ?end_sl (?p3 []))"
    using closes [of "put_slot den ?closing (?p3 [den])" den ?closing 0 ShuttingDown]
    by (simp add: after_close_def closed_session_def example_slot_def put_slot_def example_start_def pool_new_def)
  finally have run: "pool_steps (pool_new (example_file ''h1'')) (put_slot den ?end_sl (?p3 []))" .
  have "cp_shutdown (put_slot den ?end_sl (?p3 [])) = Some []" "cp_slots (put_slot den ?end_sl (?p3 [])) den = Some ?end_sl"
    by simp_all
  from shutdown_complete [OF run this] have "sl_open ?end_sl = {}" by blast
  moreover have "sl_activity ?end_sl = 2" by (simp add: example_slot_def)
  ultimately show ?thesis using run by (metis put_slot_simps(1) fun_upd_same)
qed

end
