(* ===== verification/Transport_Run.thy ===== *)
theory Transport_Run
  imports Transport
begin

text \<open>
  The task that owns the socket, \<open>run_session\<close> of \<open>crates/infrastructure/src/avr_session.rs\<close>, as a
  machine driven by what its awaits return: bytes, requests, the clock, the ends of writes and
  connection attempts. A stimulus that the current await does not wait for changes nothing. The
  fields from \<open>tp_sent\<close> on are history variables.
\<close>

section \<open>Framing\<close>

datatype arrival = Byte char | Eof | IoFailed string

datatype frame_progress = Partial string | Frame string | FrameFailed avr_session_error

definition not_terminated :: avr_session_error where
  "not_terminated = AvrMalformedFrame ''AVR line was not terminated by CR''"

definition too_long :: "nat \<Rightarrow> avr_session_error" where
  "too_long mx = AvrMalformedFrame (''AVR response exceeded '' @ show_nat mx @ '' bytes'')"

text \<open>One round of \<open>read_frame\<close>: \<open>line\<close> is what it has read so far.\<close>

definition read_byte :: "nat \<Rightarrow> string \<Rightarrow> arrival \<Rightarrow> frame_progress" where
  "read_byte mx line a =
     (case a of
        Eof \<Rightarrow> FrameFailed (if line = [] then AvrDisconnected ''receiver closed the socket'' else not_terminated)
      | IoFailed m \<Rightarrow> FrameFailed (AvrDisconnected m)
      | Byte b \<Rightarrow>
          (let line' = line @ [b] in
           if b = CR then Frame line'
           else if length line' > mx then FrameFailed (too_long mx)
           else Partial line'))"

fun read_frame :: "nat \<Rightarrow> string \<Rightarrow> arrival list \<Rightarrow> frame_progress \<times> arrival list" where
  "read_frame mx line [] = (Partial line, [])"
| "read_frame mx line (a # as) =
     (case read_byte mx line a of
        Partial line' \<Rightarrow> read_frame mx line' as
      | progress \<Rightarrow> (progress, as))"

definition frame_text :: "string \<Rightarrow> nat \<Rightarrow> (string, avr_session_error) result" where
  "frame_text line mx =
     (if line = [] \<or> last line \<noteq> CR then Err not_terminated
      else if length line - 1 > mx then Err (too_long mx)
      else if from_utf8_ok (butlast line) then Ok (butlast line)
      else Err (AvrMalformedFrame ''AVR line is not valid UTF-8''))"

section \<open>The task\<close>

record wire_request =
  wr_id :: nat
  wr_command :: avr_command
  wr_wants_response :: bool

datatype wire_reply =
    Response "(string, avr_session_error) result"
  | Dispatched "(unit, avr_session_error) result"

datatype phase =
    AwaitingRequest string
  | Pacing wire_request instant
  | Sending wire_request instant
  | AwaitingResponse nat string string
  | Reconnecting nat
  | TaskEnded

record transport =
  tp_at :: phase
  tp_generation :: u64
  tp_last :: "instant option"
  tp_quiet :: "instant option"
  tp_sent :: "(nat \<times> instant \<times> instant \<times> string) list"
  tp_replies :: "(nat \<times> wire_reply) list"
  tp_published :: "avr_event list"
  tp_read :: string
  tp_frames :: "string list"
  tp_lost :: bool

text \<open>What the consumer of the events lets through: its queue has room, is full, or is gone.\<close>

datatype consumer = Room | Full | Gone

datatype stimulus =
    Asked wire_request instant
  | RequestsGone
  | Arrived arrival consumer
  | Woken instant
  | Written instant "(unit, string) result option" consumer
  | ResponseLate consumer
  | ConnectAnswered "(unit, avr_session_error) result" consumer

text \<open>\<open>publish_event\<close>: a line is dropped when the queue is full, a lifecycle event waits for room.\<close>

definition publish_event :: "consumer \<Rightarrow> avr_event \<Rightarrow> transport \<Rightarrow> bool \<times> transport" where
  "publish_event c ev tp =
     (if c = Gone then (False, tp)
      else if c = Full \<and> (case ev of EvLine _ \<Rightarrow> True | _ \<Rightarrow> False) then (True, tp)
      else (True, tp\<lparr>tp_published := tp_published tp @ [ev]\<rparr>))"

definition transport_start :: "consumer \<Rightarrow> transport" where
  "transport_start c =
     (let tp = \<lparr>tp_at = AwaitingRequest [], tp_generation = 0, tp_last = None, tp_quiet = None, tp_sent = [],
                tp_replies = [], tp_published = [], tp_read = [], tp_frames = [], tp_lost = False\<rparr>
      in case publish_event c EvConnected tp of
           (True, tp') \<Rightarrow> tp' | (False, tp') \<Rightarrow> tp'\<lparr>tp_at := TaskEnded\<rparr>)"

text \<open>The head of the loop of \<open>reconnect\<close>, and the wait before an attempt.\<close>

definition try_reconnect :: "avr_session_config \<Rightarrow> nat \<Rightarrow> transport \<Rightarrow> transport" where
  "try_reconnect cfg attempt tp =
     (if \<not> ac_reconnect_indefinitely cfg \<and> attempt \<ge> ac_reconnect_attempts cfg
      then tp\<lparr>tp_at := TaskEnded\<rparr> else tp\<lparr>tp_at := Reconnecting attempt\<rparr>)"

definition DURATION_MAX :: duration where "DURATION_MAX = from_secs (2 ^ 64 - 1) + 999999999"

definition reconnect_wait :: "avr_session_config \<Rightarrow> nat \<Rightarrow> duration" where
  "reconnect_wait cfg attempt =
     (if attempt = 0 then 0 else min (ac_reconnect_delay cfg * 2 ^ min (attempt - 1) 7) DURATION_MAX)"

definition lose_connection :: "avr_session_config \<Rightarrow> consumer \<Rightarrow> string \<Rightarrow> transport \<Rightarrow> transport" where
  "lose_connection cfg c message tp =
     (case publish_event c (EvDisconnected (tp_generation tp) message) tp of
        (False, tp') \<Rightarrow> tp'\<lparr>tp_at := TaskEnded\<rparr>
      | (True, tp') \<Rightarrow> try_reconnect cfg 0 tp')"

definition reply :: "nat \<Rightarrow> wire_reply \<Rightarrow> transport \<Rightarrow> transport" where
  "reply i r tp = tp\<lparr>tp_replies := tp_replies tp @ [(i, r)]\<rparr>"

text \<open>Taking a request: whatever \<open>read_frame\<close> had read of a line is dropped with it.\<close>

definition take_request :: "avr_session_config \<Rightarrow> wire_request \<Rightarrow> instant \<Rightarrow> string \<Rightarrow> transport \<Rightarrow> transport" where
  "take_request cfg rq now line tp =
     (let quiet = (case tp_quiet tp of Some q \<Rightarrow> q | None \<Rightarrow> now);
          due = (case tp_last tp of Some l \<Rightarrow> max quiet (l + ac_transmission_interval cfg) | None \<Rightarrow> quiet)
      in tp\<lparr>tp_at := (if due > now then Pacing rq due else Sending rq now),
            tp_lost := (tp_lost tp \<or> line \<noteq> [])\<rparr>)"

definition is_power_on :: "string \<Rightarrow> bool" where
  "is_power_on command = (command = ''PWON'' \<or> command = ''ZMON'')"

text \<open>The end of a write attempt; \<open>None\<close> is the timeout of the write.\<close>

definition write_ended ::
  "avr_session_config \<Rightarrow> wire_request \<Rightarrow> instant \<Rightarrow> instant \<Rightarrow> (unit, string) result option \<Rightarrow> consumer \<Rightarrow> transport \<Rightarrow> transport" where
  "write_ended cfg rq began now answer c tp =
     (let command = avr_command_str (wr_command rq);
          tp1 = tp\<lparr>tp_last := Some now,
                   tp_quiet := (if is_power_on command then Some (now + from_secs 1) else tp_quiet tp),
                   tp_sent := tp_sent tp @ [(wr_id rq, began, now, command)]\<rparr>;
          result = (case answer of
              None \<Rightarrow> Err (AvrTimeout (''writing '' @ command @ '' command''))
            | Some (Err m) \<Rightarrow> Err (AvrDisconnected m)
            | Some (Ok _) \<Rightarrow> Ok ())
      in case result of
           Err e \<Rightarrow>
             lose_connection cfg c (avr_session_error_fmt e)
               (reply (wr_id rq) (if wr_wants_response rq then Response (Err e) else Dispatched (Err e)) tp1)
         | Ok _ \<Rightarrow>
             (if wr_wants_response rq
              then tp1\<lparr>tp_at := AwaitingResponse (wr_id rq) (get_command_family command) []\<rparr>
              else (reply (wr_id rq) (Dispatched (Ok ())) tp1)\<lparr>tp_at := AwaitingRequest []\<rparr>))"

definition deliver :: "consumer \<Rightarrow> string \<Rightarrow> phase \<Rightarrow> phase \<Rightarrow> transport \<Rightarrow> transport" where
  "deliver c text continue stop tp =
     (case publish_event c (EvLine text) tp of
        (True, tp') \<Rightarrow> tp'\<lparr>tp_at := continue\<rparr> | (False, tp') \<Rightarrow> tp'\<lparr>tp_at := stop\<rparr>)"

text \<open>\<open>frame_text\<close> of a completed frame, kept in the history of the connection.\<close>

definition frame_read :: "string \<Rightarrow> transport \<Rightarrow> transport" where
  "frame_read text tp = tp\<lparr>tp_frames := tp_frames tp @ [text]\<rparr>"

definition arrived_idle :: "avr_session_config \<Rightarrow> string \<Rightarrow> arrival \<Rightarrow> consumer \<Rightarrow> transport \<Rightarrow> transport" where
  "arrived_idle cfg line a c tp =
     (case read_byte (ac_max_line_length cfg) line a of
        Partial line' \<Rightarrow> tp\<lparr>tp_at := AwaitingRequest line'\<rparr>
      | FrameFailed e \<Rightarrow> lose_connection cfg c (avr_session_error_fmt e) tp
      | Frame line' \<Rightarrow>
          (case frame_text line' (ac_max_line_length cfg) of
             Err e \<Rightarrow> lose_connection cfg c (avr_session_error_fmt e) tp
           | Ok text \<Rightarrow> deliver c text (AwaitingRequest []) TaskEnded (frame_read text tp)))"

definition response_failed :: "avr_session_config \<Rightarrow> nat \<Rightarrow> avr_session_error \<Rightarrow> consumer \<Rightarrow> transport \<Rightarrow> transport" where
  "response_failed cfg i e c tp =
     (let tp1 = reply i (Response (Err e)) tp in
      case e of
        AvrTimeout _ \<Rightarrow> lose_connection cfg c (avr_session_error_fmt e) tp1
      | AvrDisconnected _ \<Rightarrow> lose_connection cfg c (avr_session_error_fmt e) tp1
      | AvrMalformedFrame _ \<Rightarrow> lose_connection cfg c (avr_session_error_fmt e) tp1
      | _ \<Rightarrow> tp1\<lparr>tp_at := AwaitingRequest []\<rparr>)"

definition arrived_response ::
  "avr_session_config \<Rightarrow> nat \<Rightarrow> string \<Rightarrow> string \<Rightarrow> arrival \<Rightarrow> consumer \<Rightarrow> transport \<Rightarrow> transport" where
  "arrived_response cfg i family line a c tp =
     (case read_byte (ac_max_line_length cfg) line a of
        Partial line' \<Rightarrow> tp\<lparr>tp_at := AwaitingResponse i family line'\<rparr>
      | FrameFailed e \<Rightarrow> response_failed cfg i e c tp
      | Frame line' \<Rightarrow>
          (case frame_text line' (ac_max_line_length cfg) of
             Err e \<Rightarrow> response_failed cfg i e c tp
           | Ok text \<Rightarrow>
               (let tp1 = frame_read text tp in
                if response_matches family text
                then (reply i (Response (Ok text)) tp1)\<lparr>tp_at := AwaitingRequest []\<rparr>
                else case publish_event c (EvLine text) tp1 of
                       (True, tp2) \<Rightarrow> tp2\<lparr>tp_at := AwaitingResponse i family []\<rparr>
                     | (False, tp2) \<Rightarrow> response_failed cfg i AvrSessionStopped c tp2)))"

definition connect_answered ::
  "avr_session_config \<Rightarrow> nat \<Rightarrow> (unit, avr_session_error) result \<Rightarrow> consumer \<Rightarrow> transport \<Rightarrow> transport" where
  "connect_answered cfg attempt answer c tp =
     (case answer of
        Ok _ \<Rightarrow>
          (case publish_event c EvReconnected
             (tp\<lparr>tp_generation := tp_generation tp + 1, tp_read := [], tp_frames := [], tp_lost := False\<rparr>) of
             (True, tp') \<Rightarrow> tp'\<lparr>tp_at := AwaitingRequest []\<rparr>
           | (False, tp') \<Rightarrow> tp'\<lparr>tp_at := TaskEnded\<rparr>)
      | Err e \<Rightarrow>
          (case publish_event c (EvDisconnected (tp_generation tp) (avr_session_error_fmt e)) tp of
             (True, tp') \<Rightarrow> try_reconnect cfg (attempt + 1) tp'
           | (False, tp') \<Rightarrow> tp'\<lparr>tp_at := TaskEnded\<rparr>))"

definition consumed :: "arrival \<Rightarrow> transport \<Rightarrow> transport" where
  "consumed a tp = (case a of Byte b \<Rightarrow> tp\<lparr>tp_read := tp_read tp @ [b]\<rparr> | _ \<Rightarrow> tp)"

fun transport_step :: "avr_session_config \<Rightarrow> phase \<Rightarrow> stimulus \<Rightarrow> transport \<Rightarrow> transport" where
  "transport_step cfg (AwaitingRequest line) (Asked rq now) tp = take_request cfg rq now line tp"
| "transport_step cfg (AwaitingRequest line) RequestsGone tp = tp\<lparr>tp_at := TaskEnded\<rparr>"
| "transport_step cfg (AwaitingRequest line) (Arrived a c) tp = arrived_idle cfg line a c (consumed a tp)"
| "transport_step cfg (Pacing rq due) (Woken now) tp = (if now < due then tp else tp\<lparr>tp_at := Sending rq now\<rparr>)"
| "transport_step cfg (Sending rq began) (Written now answer c) tp =
     (if now < began then tp else write_ended cfg rq began now answer c tp)"
| "transport_step cfg (AwaitingResponse i family line) (Arrived a c) tp =
     arrived_response cfg i family line a c (consumed a tp)"
| "transport_step cfg (AwaitingResponse i family line) (ResponseLate c) tp =
     response_failed cfg i (AvrTimeout (''waiting for '' @ family @ '' response'')) c tp"
| "transport_step cfg (Reconnecting attempt) (ConnectAnswered answer c) tp = connect_answered cfg attempt answer c tp"
| "transport_step cfg _ _ tp = tp"

definition transport_run :: "avr_session_config \<Rightarrow> stimulus list \<Rightarrow> transport \<Rightarrow> transport" where
  "transport_run cfg stimuli tp = fold (\<lambda>s tp. transport_step cfg (tp_at tp) s tp) stimuli tp"

end
