(* ===== verification/Transport_Properties.thy ===== *)
theory Transport_Properties
  imports Transport_Run
begin

text \<open>
  What the owner of the socket promises, whatever its awaits return: how transmissions are paced,
  which reply answers which request, the order of lifecycle events, and how far the framing of
  the byte stream can be trusted.
\<close>

section \<open>Frames of the helpers\<close>

lemma publish_frame:
  assumes "publish_event c ev tp = (ok, tp')"
  shows "tp_at tp' = tp_at tp" "tp_generation tp' = tp_generation tp" "tp_last tp' = tp_last tp"
    "tp_quiet tp' = tp_quiet tp" "tp_sent tp' = tp_sent tp" "tp_replies tp' = tp_replies tp"
    "tp_read tp' = tp_read tp" "tp_frames tp' = tp_frames tp" "tp_lost tp' = tp_lost tp"
    "tp_published tp' = tp_published tp \<or> (ok \<and> tp_published tp' = tp_published tp @ [ev])"
  using assms by (auto simp: publish_event_def split: if_splits)

text \<open>What a connection loses when it ends: nothing but the phase and the events.\<close>

definition wire_same :: "transport \<Rightarrow> transport \<Rightarrow> bool" where
  "wire_same tp tp' = (tp_last tp' = tp_last tp \<and> tp_quiet tp' = tp_quiet tp \<and> tp_sent tp' = tp_sent tp)"

lemma wire_same_refl [simp]: "wire_same tp tp" by (simp add: wire_same_def)

lemma try_reconnect_frame [simp]:
  "tp_generation (try_reconnect cfg n tp) = tp_generation tp" "tp_sent (try_reconnect cfg n tp) = tp_sent tp"
  "tp_replies (try_reconnect cfg n tp) = tp_replies tp" "tp_published (try_reconnect cfg n tp) = tp_published tp"
  "tp_last (try_reconnect cfg n tp) = tp_last tp" "tp_quiet (try_reconnect cfg n tp) = tp_quiet tp"
  by (simp_all add: try_reconnect_def)

lemma try_reconnect_at: "tp_at (try_reconnect cfg n tp) = TaskEnded \<or> tp_at (try_reconnect cfg n tp) = Reconnecting n"
  by (simp add: try_reconnect_def)

lemma lose_frame [simp]:
  "tp_generation (lose_connection cfg c m tp) = tp_generation tp" "tp_sent (lose_connection cfg c m tp) = tp_sent tp"
  "tp_replies (lose_connection cfg c m tp) = tp_replies tp"
  "tp_last (lose_connection cfg c m tp) = tp_last tp" "tp_quiet (lose_connection cfg c m tp) = tp_quiet tp"
  by (auto simp: lose_connection_def publish_event_def)

lemma lose_at: "tp_at (lose_connection cfg c m tp) = TaskEnded \<or> tp_at (lose_connection cfg c m tp) = Reconnecting 0"
  using try_reconnect_at by (auto simp: lose_connection_def publish_event_def)

section \<open>Pacing\<close>

definition allowed :: "avr_session_config \<Rightarrow> transport \<Rightarrow> instant \<Rightarrow> bool" where
  "allowed cfg tp t = (\<forall>(_, _, e, command) \<in> set (tp_sent tp).
     e + ac_transmission_interval cfg \<le> t \<and> (is_power_on command \<longrightarrow> e + from_secs 1 \<le> t))"

definition spaced :: "avr_session_config \<Rightarrow> (nat \<times> instant \<times> instant \<times> string) list \<Rightarrow> bool" where
  "spaced cfg = sorted_wrt (\<lambda>(_, _, e, command) (_, b, _, _).
     e + ac_transmission_interval cfg \<le> b \<and> (is_power_on command \<longrightarrow> e + from_secs 1 \<le> b))"

definition pace_inv :: "avr_session_config \<Rightarrow> transport \<Rightarrow> bool" where
  "pace_inv cfg tp =
     (spaced cfg (tp_sent tp)
      \<and> (\<forall>(_, _, e, command) \<in> set (tp_sent tp). \<exists>l. tp_last tp = Some l \<and> e \<le> l)
      \<and> (\<forall>(_, _, e, command) \<in> set (tp_sent tp). is_power_on command \<longrightarrow> (\<exists>q. tp_quiet tp = Some q \<and> e + from_secs 1 \<le> q))
      \<and> (case tp_at tp of Pacing _ due \<Rightarrow> allowed cfg tp due | Sending _ began \<Rightarrow> allowed cfg tp began | _ \<Rightarrow> True))"

lemma pace_cong:
  assumes "pace_inv cfg tp" "tp_sent tp' = tp_sent tp" "tp_last tp' = tp_last tp" "tp_quiet tp' = tp_quiet tp"
    "\<And>rq t. tp_at tp' \<noteq> Pacing rq t" "\<And>rq t. tp_at tp' \<noteq> Sending rq t"
  shows "pace_inv cfg tp'"
  using assms by (auto simp: pace_inv_def split: phase.splits)

lemma pace_take:
  assumes "pace_inv cfg tp"
  shows "pace_inv cfg (take_request cfg rq now line tp)"
proof -
  let ?due = "case tp_last tp of
      Some l \<Rightarrow> max (case tp_quiet tp of Some q \<Rightarrow> q | None \<Rightarrow> now) (l + ac_transmission_interval cfg)
    | None \<Rightarrow> (case tp_quiet tp of Some q \<Rightarrow> q | None \<Rightarrow> now)"
  have due: "allowed cfg tp t" if "?due \<le> t" for t
  proof -
    have "e + ac_transmission_interval cfg \<le> t \<and> (is_power_on command \<longrightarrow> e + from_secs 1 \<le> t)"
      if sent: "(i, b, e, command) \<in> set (tp_sent tp)" for i b e command
    proof -
      from assms sent obtain l where l: "tp_last tp = Some l" "e \<le> l" by (fastforce simp: pace_inv_def)
      moreover have "is_power_on command \<Longrightarrow> \<exists>q. tp_quiet tp = Some q \<and> e + from_secs 1 \<le> q"
        using assms sent by (fastforce simp: pace_inv_def)
      ultimately show ?thesis using \<open>?due \<le> t\<close> by auto
    qed
    then show ?thesis by (auto simp: allowed_def)
  qed
  from assms due [of ?due] due [of now] show ?thesis
    by (auto simp: take_request_def Let_def pace_inv_def allowed_def)
qed

lemma pace_sent:
  assumes "pace_inv cfg tp" "tp_at tp = Sending rq began" "began \<le> now" "tp_sent tp' = tp_sent tp @ [(i, began, now, command)]"
    "tp_last tp' = Some now" "tp_quiet tp' = (if is_power_on command then Some (now + from_secs 1) else tp_quiet tp)"
    "\<And>rq t. tp_at tp' \<noteq> Pacing rq t" "\<And>rq t. tp_at tp' \<noteq> Sending rq t"
  shows "pace_inv cfg tp'"
proof -
  have ok: "allowed cfg tp began" using assms(1,2) by (simp add: pace_inv_def)
  have earlier: "e \<le> now" if "(j, b, e, d) \<in> set (tp_sent tp)" for j b e d
    using ok that assms(3) by (fastforce simp: allowed_def)
  have "spaced cfg (tp_sent tp')"
    using assms(1,4) ok by (auto simp: spaced_def sorted_wrt_append pace_inv_def allowed_def)
  moreover have "\<exists>q. tp_quiet tp' = Some q \<and> e + from_secs 1 \<le> q"
    if "(j, b, e, d) \<in> set (tp_sent tp')" "is_power_on d" for j b e d
  proof (cases "is_power_on command")
    case True
    with that assms(4,6) earlier show ?thesis by auto
  next
    case False
    with that assms(1,4,6) show ?thesis by (fastforce simp: pace_inv_def)
  qed
  moreover have "case tp_at tp' of Pacing _ due \<Rightarrow> allowed cfg tp' due | Sending _ t \<Rightarrow> allowed cfg tp' t | _ \<Rightarrow> True"
    using assms(7,8) by (auto split: phase.split)
  moreover have "\<forall>(_, _, e, d) \<in> set (tp_sent tp'). \<exists>l. tp_last tp' = Some l \<and> e \<le> l"
    using assms(4,5) earlier by auto
  ultimately show ?thesis unfolding pace_inv_def by blast
qed

lemma not_wire_phases:
  "tp_at (lose_connection cfg c m tp) \<noteq> Pacing rq t" "tp_at (lose_connection cfg c m tp) \<noteq> Sending rq t"
  "tp_at (try_reconnect cfg n tp) \<noteq> Pacing rq t" "tp_at (try_reconnect cfg n tp) \<noteq> Sending rq t"
  using lose_at [of cfg c m tp] try_reconnect_at [of cfg n tp] by auto

lemma response_failed_frame:
  "tp_sent (response_failed cfg i e c tp) = tp_sent tp" "tp_last (response_failed cfg i e c tp) = tp_last tp"
  "tp_quiet (response_failed cfg i e c tp) = tp_quiet tp"
  "tp_at (response_failed cfg i e c tp) \<noteq> Pacing rq t" "tp_at (response_failed cfg i e c tp) \<noteq> Sending rq t"
  by (cases e; simp add: response_failed_def reply_def not_wire_phases)+

lemmas arrival_simps = arrived_idle_def arrived_response_def deliver_def frame_read_def consumed_def Let_def reply_def

lemma arrived_wire:
  fixes cfg line a c tp
  shows "wire_same tp (arrived_idle cfg line a c (consumed a tp))"
    "tp_at (arrived_idle cfg line a c (consumed a tp)) \<noteq> Pacing rq t"
    "tp_at (arrived_idle cfg line a c (consumed a tp)) \<noteq> Sending rq t"
    "wire_same tp (arrived_response cfg i family line a c (consumed a tp))"
    "tp_at (arrived_response cfg i family line a c (consumed a tp)) \<noteq> Pacing rq t"
    "tp_at (arrived_response cfg i family line a c (consumed a tp)) \<noteq> Sending rq t"
  by (auto simp: arrival_simps wire_same_def publish_event_def not_wire_phases response_failed_frame
      split: frame_progress.split sum.split arrival.split)

lemma connect_wire:
  "wire_same tp (connect_answered cfg n answer c tp)"
  "tp_at (connect_answered cfg n answer c tp) \<noteq> Pacing rq t"
  "tp_at (connect_answered cfg n answer c tp) \<noteq> Sending rq t"
  by (auto simp: connect_answered_def wire_same_def publish_event_def not_wire_phases split: sum.split)

lemma written_wire:
  "tp_sent (write_ended cfg rq began now answer c tp) = tp_sent tp @ [(wr_id rq, began, now, avr_command_str (wr_command rq))]"
  "tp_last (write_ended cfg rq began now answer c tp) = Some now"
  "tp_quiet (write_ended cfg rq began now answer c tp)
     = (if is_power_on (avr_command_str (wr_command rq)) then Some (now + from_secs 1) else tp_quiet tp)"
  "tp_at (write_ended cfg rq began now answer c tp) \<noteq> Pacing rq' t"
  "tp_at (write_ended cfg rq began now answer c tp) \<noteq> Sending rq' t"
  by (auto simp: write_ended_def Let_def reply_def not_wire_phases split: option.split sum.split)

lemma pace_step: "pace_inv cfg tp \<Longrightarrow> tp_at tp = ph \<Longrightarrow> pace_inv cfg (transport_step cfg ph s tp)"
proof (induction cfg ph s tp rule: transport_step.induct)
  case (3 cfg line a c tp)
  with arrived_wire [where cfg = cfg and tp = tp] show ?case by (auto intro!: pace_cong [OF 3(1)] simp: wire_same_def)
next
  case (4 cfg rq due now tp)
  then show ?case by (force simp: pace_inv_def allowed_def)
next
  case (5 cfg rq began now answer c tp)
  then show ?case by (auto intro!: pace_sent [of cfg tp rq began now] simp: written_wire)
next
  case (6 cfg i family line a c tp)
  with arrived_wire [where cfg = cfg and tp = tp] show ?case by (auto intro!: pace_cong [OF 6(1)] simp: wire_same_def)
next
  case (7 cfg i family line c tp)
  then show ?case by (auto intro!: pace_cong [OF 7(1)] simp: response_failed_frame)
next
  case (8 cfg n answer c tp)
  with connect_wire [where cfg = cfg and tp = tp] show ?case by (auto intro!: pace_cong [OF 8(1)] simp: wire_same_def)
qed (auto simp: pace_take intro: pace_cong)

lemma pace_start: "pace_inv cfg (transport_start c)"
  by (auto simp: pace_inv_def transport_start_def Let_def publish_event_def spaced_def)

text \<open>An invariant of every step holds after every run.\<close>

lemma run_invariant:
  assumes "P tp" "\<And>s tp. P tp \<Longrightarrow> P (transport_step cfg (tp_at tp) s tp)"
  shows "P (transport_run cfg stimuli tp)"
  using assms by (induction stimuli arbitrary: tp) (simp_all add: transport_run_def)

lemma pace_run: "pace_inv cfg (transport_run cfg stimuli (transport_start c))"
  by (rule run_invariant [where P = "pace_inv cfg"]) (simp_all add: pace_start pace_step)

section \<open>Lifecycle events\<close>

text \<open>
  The order a consumer may rely on: from the generation and whether the connection is up, what
  may come next.
\<close>

fun lifecycle :: "avr_event list \<Rightarrow> u64 \<times> bool \<Rightarrow> (u64 \<times> bool) option" where
  "lifecycle [] st = Some st"
| "lifecycle (EvConnected # evs) st = None"
| "lifecycle (EvLine _ # evs) (g, up) = (if up then lifecycle evs (g, up) else None)"
| "lifecycle (EvDisconnected g' _ # evs) (g, up) = (if g' = g then lifecycle evs (g, False) else None)"
| "lifecycle (EvReconnected # evs) (g, up) = (if up then None else lifecycle evs (g + 1, True))"

lemma lifecycle_append:
  "lifecycle (evs @ [ev]) st = (case lifecycle evs st of None \<Rightarrow> None | Some st' \<Rightarrow> lifecycle [ev] st')"
  by (induction evs st rule: lifecycle.induct) (simp_all split: option.split)

definition life_inv :: "transport \<Rightarrow> bool" where
  "life_inv tp =
     (if tp_published tp = [] then tp_at tp = TaskEnded
      else \<exists>evs g up. tp_published tp = EvConnected # evs \<and> lifecycle evs (0, True) = Some (g, up)
        \<and> (case tp_at tp of TaskEnded \<Rightarrow> True | Reconnecting _ \<Rightarrow> g = tp_generation tp \<and> \<not> up | _ \<Rightarrow> g = tp_generation tp \<and> up))"

text \<open>While the connection is up, the events say so, and the next one may be a line or its loss.\<close>

definition life_up :: "transport \<Rightarrow> bool" where
  "life_up tp = (\<exists>evs. tp_published tp = EvConnected # evs \<and> lifecycle evs (0, True) = Some (tp_generation tp, True))"

definition life_down :: "transport \<Rightarrow> bool" where
  "life_down tp = (\<exists>evs up. tp_published tp = EvConnected # evs \<and> lifecycle evs (0, True) = Some (tp_generation tp, up))"

lemma life_down_up: "life_up tp \<Longrightarrow> life_down tp"
  by (auto simp: life_up_def life_down_def)

lemma life_ended: "life_down tp \<Longrightarrow> life_inv (tp\<lparr>tp_at := TaskEnded\<rparr>)"
  by (auto simp: life_inv_def life_down_def)

lemma life_lose: "life_down tp \<Longrightarrow> life_inv (lose_connection cfg c m tp)"
  by (auto simp: lose_connection_def publish_event_def try_reconnect_def life_inv_def life_down_def lifecycle_append)

lemma life_line:
  "life_up tp \<Longrightarrow> publish_event c (EvLine text) tp = (ok, tp') \<Longrightarrow> life_up tp'"
  by (auto simp: publish_event_def life_up_def lifecycle_append split: if_splits)

lemma life_up_cong:
  "life_up tp \<Longrightarrow> tp_published tp' = tp_published tp \<Longrightarrow> tp_generation tp' = tp_generation tp \<Longrightarrow> life_up tp'"
  by (simp add: life_up_def)

lemma life_inv_up:
  "life_inv tp \<Longrightarrow> tp_at tp \<noteq> TaskEnded \<Longrightarrow> (\<And>n. tp_at tp \<noteq> Reconnecting n) \<Longrightarrow> life_up tp"
  by (cases "tp_at tp") (auto simp: life_inv_def life_up_def split: if_splits)

lemma life_up_inv: "life_up tp \<Longrightarrow> (\<And>n. tp_at tp \<noteq> Reconnecting n) \<Longrightarrow> life_inv tp"
  by (auto simp: life_inv_def life_up_def split: phase.splits)

lemma life_failed:
  assumes "life_up tp"
  shows "life_inv (response_failed cfg i e c tp)"
proof -
  have "life_up (reply i r tp)" for r using assms by (rule life_up_cong) (simp_all add: reply_def)
  then have "life_down (reply i r tp)" "life_up ((reply i r tp)\<lparr>tp_at := ph\<rparr>)" for r ph
    by (simp_all add: life_down_up life_up_def)
  then show ?thesis
    by (cases e) (auto simp: response_failed_def Let_def intro!: life_lose life_up_inv)
qed

lemma life_deliver:
  assumes "life_up tp"
  shows "life_inv (deliver c text (AwaitingRequest []) TaskEnded tp)"
proof -
  obtain ok tp' where pub: "publish_event c (EvLine text) tp = (ok, tp')" by fastforce
  from life_line [OF assms pub] have "life_up (tp'\<lparr>tp_at := ph\<rparr>)" for ph by (simp add: life_up_def)
  with pub show ?thesis by (auto simp: deliver_def split: bool.split intro!: life_up_inv)
qed

lemma life_consumed: "life_up tp \<Longrightarrow> life_up (consumed a tp)" "life_up tp \<Longrightarrow> life_up (frame_read text tp)"
  "life_up tp \<Longrightarrow> life_up (tp\<lparr>tp_at := ph\<rparr>)" "life_up tp \<Longrightarrow> life_up (reply i r tp)"
  by (auto simp: life_up_def consumed_def frame_read_def reply_def split: arrival.split)

lemma life_idle: "life_up tp \<Longrightarrow> life_inv (arrived_idle cfg line a c (consumed a tp))"
  by (auto simp: arrived_idle_def split: frame_progress.split sum.split
      intro!: life_lose life_down_up life_deliver life_up_inv life_consumed)

lemma life_response:
  assumes "life_up tp"
  shows "life_inv (arrived_response cfg i family line a c (consumed a tp))"
proof -
  have "life_inv (case publish_event c (EvLine w) (frame_read w (consumed a tp)) of
      (True, tp2) \<Rightarrow> tp2\<lparr>tp_at := AwaitingResponse i family []\<rparr>
    | (False, tp2) \<Rightarrow> response_failed cfg i AvrSessionStopped c tp2)" for w
  proof -
    obtain ok tp' where pub: "publish_event c (EvLine w) (frame_read w (consumed a tp)) = (ok, tp')" by fastforce
    have "life_up tp'" by (rule life_line [OF _ pub]) (intro life_consumed assms)
    with pub show ?thesis by (auto split: bool.split intro!: life_failed life_up_inv life_consumed)
  qed
  with assms show ?thesis
    by (auto simp: arrived_response_def Let_def split: frame_progress.split sum.split
        intro!: life_failed life_up_inv life_consumed)
qed

lemma life_written:
  assumes "life_up tp"
  shows "life_inv (write_ended cfg rq began now answer c tp)"
proof -
  have "life_up (tp\<lparr>tp_last := l, tp_quiet := q, tp_sent := s\<rparr>)" "life_up (tp\<lparr>tp_last := l, tp_sent := s\<rparr>)" for l q s
    using assms by (simp_all add: life_up_def)
  then show ?thesis
    by (auto simp: write_ended_def Let_def split: option.split sum.split
        intro!: life_lose life_down_up life_up_inv life_consumed)
qed

lemma life_step: "life_inv tp \<Longrightarrow> tp_at tp = ph \<Longrightarrow> life_inv (transport_step cfg ph s tp)"
proof (induction cfg ph s tp rule: transport_step.induct)
  case (1 cfg line rq now tp)
  then have "life_up tp" by (intro life_inv_up) simp_all
  then show ?case by (auto simp: take_request_def Let_def life_up_def intro!: life_up_inv)
next
  case (2 cfg line tp)
  then have "life_up tp" by (intro life_inv_up) simp_all
  then show ?case by (auto intro!: life_up_inv life_consumed)
next
  case (3 cfg line a c tp)
  then have "life_up tp" by (intro life_inv_up) simp_all
  then show ?case by (simp add: life_idle)
next
  case (4 cfg rq due now tp)
  then have "life_up tp" by (intro life_inv_up) simp_all
  with 4 show ?case by (auto intro!: life_up_inv life_consumed)
next
  case (5 cfg rq began now answer c tp)
  then have "life_up tp" by (intro life_inv_up) simp_all
  with 5 show ?case by (simp add: life_written)
next
  case (6 cfg i family line a c tp)
  then have "life_up tp" by (intro life_inv_up) simp_all
  then show ?case by (simp add: life_response)
next
  case (7 cfg i family line c tp)
  then have "life_up tp" by (intro life_inv_up) simp_all
  then show ?case by (simp add: life_failed)
next
  case (8 cfg n answer c tp)
  then show ?case
    by (auto simp: connect_answered_def publish_event_def try_reconnect_def life_inv_def lifecycle_append
        split: sum.split if_splits)
qed auto

lemma life_start: "life_inv (transport_start c)"
  by (auto simp: life_inv_def transport_start_def Let_def publish_event_def)

lemma life_run: "life_inv (transport_run cfg stimuli (transport_start c))"
  by (rule run_invariant [where P = life_inv]) (simp_all add: life_start life_step)

section \<open>Requests and replies\<close>

definition sent_ids :: "transport \<Rightarrow> nat set" where "sent_ids tp = fst ` set (tp_sent tp)"
definition replied_ids :: "transport \<Rightarrow> nat set" where "replied_ids tp = fst ` set (tp_replies tp)"

definition current_ids :: "transport \<Rightarrow> nat set" where
  "current_ids tp = (case tp_at tp of
       Pacing rq _ \<Rightarrow> {wr_id rq} | Sending rq _ \<Rightarrow> {wr_id rq} | AwaitingResponse i _ _ \<Rightarrow> {i} | _ \<Rightarrow> {})"

text \<open>A response is a line of the family of the command that was sent for it.\<close>

definition replies_fit :: "transport \<Rightarrow> bool" where
  "replies_fit tp = (\<forall>i line. (i, Response (Ok line)) \<in> set (tp_replies tp) \<longrightarrow>
     (\<exists>b e command. (i, b, e, command) \<in> set (tp_sent tp) \<and> response_matches (get_command_family command) line))"

definition reply_inv :: "nat set \<Rightarrow> transport \<Rightarrow> bool" where
  "reply_inv used tp =
     (distinct (map fst (tp_sent tp)) \<and> distinct (map fst (tp_replies tp)) \<and> replies_fit tp
      \<and> sent_ids tp \<union> current_ids tp \<subseteq> used \<and> replied_ids tp \<inter> current_ids tp = {}
      \<and> (case tp_at tp of
           Pacing rq _ \<Rightarrow> wr_id rq \<notin> sent_ids tp \<and> replied_ids tp = sent_ids tp
         | Sending rq _ \<Rightarrow> wr_id rq \<notin> sent_ids tp \<and> replied_ids tp = sent_ids tp
         | AwaitingResponse i family _ \<Rightarrow>
             sent_ids tp = insert i (replied_ids tp)
             \<and> (\<exists>b e command. (i, b, e, command) \<in> set (tp_sent tp) \<and> family = get_command_family command)
         | _ \<Rightarrow> replied_ids tp = sent_ids tp))"

text \<open>All that has been sent is answered, and nothing is being answered.\<close>

definition settled :: "nat set \<Rightarrow> transport \<Rightarrow> bool" where
  "settled used tp =
     (distinct (map fst (tp_sent tp)) \<and> distinct (map fst (tp_replies tp)) \<and> replies_fit tp
      \<and> sent_ids tp \<subseteq> used \<and> replied_ids tp = sent_ids tp)"

lemma settled_inv:
  "settled used tp \<Longrightarrow> tp_at tp = AwaitingRequest line \<or> tp_at tp = TaskEnded \<or> tp_at tp = Reconnecting n \<Longrightarrow> reply_inv used tp"
  by (auto simp: settled_def reply_inv_def current_ids_def)

lemma settled_cong:
  "settled used tp \<Longrightarrow> tp_sent tp' = tp_sent tp \<Longrightarrow> tp_replies tp' = tp_replies tp \<Longrightarrow> settled used tp'"
  by (simp add: settled_def sent_ids_def replied_ids_def replies_fit_def)

lemma inv_settled:
  "reply_inv used tp \<Longrightarrow> tp_at tp = AwaitingRequest line \<or> tp_at tp = TaskEnded \<or> tp_at tp = Reconnecting n \<Longrightarrow> settled used tp"
  by (auto simp: settled_def reply_inv_def)

lemma settled_ended:
  assumes "settled used tp" "tp_sent tp' = tp_sent tp" "tp_replies tp' = tp_replies tp"
    "tp_at tp' = AwaitingRequest line \<or> tp_at tp' = TaskEnded \<or> tp_at tp' = Reconnecting n"
  shows "reply_inv used tp'"
  using settled_inv [OF settled_cong [OF assms(1-3)] assms(4)] .

lemma settled_waiting: "settled used tp \<Longrightarrow> reply_inv used (tp\<lparr>tp_at := AwaitingRequest []\<rparr>)"
  by (rule settled_ended [of used tp _ "[]" 0]) simp_all

lemma settled_lose: "settled used tp \<Longrightarrow> reply_inv used (lose_connection cfg c m tp)"
  using lose_at [of cfg c m tp] by (intro settled_ended [of used tp _ "[]" 0]) auto

text \<open>Answering the request that was sent last.\<close>

lemma settled_reply:
  assumes "reply_inv used tp" "tp_at tp = AwaitingResponse i family line"
    "\<And>t. r = Response (Ok t) \<Longrightarrow> response_matches family t"
    "tp_sent tp' = tp_sent tp" "tp_replies tp' = tp_replies tp @ [(i, r)]"
  shows "settled used tp'"
  using assms
  by (auto simp: reply_inv_def settled_def sent_ids_def replied_ids_def current_ids_def replies_fit_def) (force simp: image_subset_iff)

lemma reply_failed:
  assumes "reply_inv used tp" "tp_at tp = AwaitingResponse i family line"
    "tp_sent tp' = tp_sent tp" "tp_replies tp' = tp_replies tp"
  shows "reply_inv used (response_failed cfg i e c tp')"
proof -
  have "settled used (reply i (Response (Err e)) tp')"
    by (rule settled_reply [OF assms(1,2)]) (simp_all add: reply_def assms(3,4))
  then show ?thesis
    by (cases e) (auto simp: response_failed_def Let_def intro: settled_lose settled_ended)
qed

lemma reply_arrived_idle:
  assumes "reply_inv used tp" "tp_at tp = AwaitingRequest line"
  shows "reply_inv used (arrived_idle cfg line a c (consumed a tp))"
proof -
  have s: "settled used tp'" if "tp_sent tp' = tp_sent tp" "tp_replies tp' = tp_replies tp" for tp'
    using settled_cong [OF inv_settled [OF assms(1)] that, of line 0] assms(2) by blast
  then have "settled used (consumed a tp)" by (intro s) (simp_all add: consumed_def split: arrival.split)
  then show ?thesis
    by (auto simp: arrived_idle_def deliver_def publish_event_def frame_read_def
        split: frame_progress.split sum.split intro: settled_lose settled_ended)
qed

lemma reply_arrived_response:
  assumes "reply_inv used tp" "tp_at tp = AwaitingResponse i family line"
  shows "reply_inv used (arrived_response cfg i family line a c (consumed a tp))"
proof -
  have same: "tp_sent (consumed a tp) = tp_sent tp" "tp_replies (consumed a tp) = tp_replies tp"
    by (simp_all add: consumed_def split: arrival.split)
  have wait: "reply_inv used tp'" if "tp_sent tp' = tp_sent tp" "tp_replies tp' = tp_replies tp"
    "tp_at tp' = AwaitingResponse i family line'" for tp' line'
    using assms that by (auto simp: reply_inv_def sent_ids_def replied_ids_def current_ids_def replies_fit_def)
      (force simp: image_subset_iff)
  have done_with: "reply_inv used ((reply i (Response (Ok w)) (frame_read w (consumed a tp)))\<lparr>tp_at := AwaitingRequest []\<rparr>)"
    if "response_matches family w" for w
  proof -
    have "settled used (reply i (Response (Ok w)) (frame_read w (consumed a tp)))"
      by (rule settled_reply [OF assms]) (use that same in \<open>auto simp: reply_def frame_read_def\<close>)
    then show ?thesis by (rule settled_waiting)
  qed
  have fail: "reply_inv used (response_failed cfg i e c' tp')" if "tp_sent tp' = tp_sent tp" "tp_replies tp' = tp_replies tp" for e c' tp'
    using reply_failed [OF assms that] .
  show ?thesis
    by (auto simp: arrived_response_def Let_def publish_event_def same frame_read_def
        split: frame_progress.split sum.split intro!: fail done_with [unfolded frame_read_def])
      (auto intro!: wait simp: same)
qed

lemma reply_written:
  assumes "reply_inv used tp" "tp_at tp = Sending rq began"
  shows "reply_inv used (write_ended cfg rq began now answer c tp)"
proof -
  let ?sent = "tp_sent tp @ [(wr_id rq, began, now, avr_command_str (wr_command rq))]"
  have "settled used tp'" if "tp_sent tp' = ?sent" "tp_replies tp' = tp_replies tp @ [(wr_id rq, r)]"
    "\<And>t. r \<noteq> Response (Ok t)" for tp' r
    using assms that
    by (fastforce simp: reply_inv_def settled_def sent_ids_def replied_ids_def current_ids_def replies_fit_def)
  then have "settled used (reply (wr_id rq) r tp')" if "tp_sent tp' = ?sent" "tp_replies tp' = tp_replies tp"
    "\<And>t. r \<noteq> Response (Ok t)" for tp' r
    using that by (simp add: reply_def)
  moreover have "reply_inv used tp'" if "tp_sent tp' = ?sent" "tp_replies tp' = tp_replies tp"
    "tp_at tp' = AwaitingResponse (wr_id rq) (get_command_family (avr_command_str (wr_command rq))) []" for tp'
    using assms that by (fastforce simp: reply_inv_def sent_ids_def replied_ids_def current_ids_def replies_fit_def)
  ultimately show ?thesis
    by (auto simp: write_ended_def Let_def split: option.split sum.split intro!: settled_lose settled_waiting)
qed

fun asked :: "stimulus \<Rightarrow> nat list" where
  "asked (Asked rq _) = [wr_id rq]"
| "asked _ = []"

lemma reply_mono: "reply_inv used tp \<Longrightarrow> used \<subseteq> used' \<Longrightarrow> reply_inv used' tp"
  by (auto simp: reply_inv_def)

lemma reply_step:
  "reply_inv used tp \<Longrightarrow> tp_at tp = ph \<Longrightarrow> set (asked s) \<inter> used = {} \<Longrightarrow> reply_inv (used \<union> set (asked s)) (transport_step cfg ph s tp)"
proof (induction cfg ph s tp rule: transport_step.induct)
  case (1 cfg line rq now tp)
  then have "settled used tp" by (auto intro: inv_settled)
  with 1(3) show ?case
    by (auto simp: take_request_def Let_def settled_def reply_inv_def sent_ids_def replied_ids_def current_ids_def replies_fit_def)
next
  case (2 cfg line tp)
  then have "settled used tp" by (auto intro: inv_settled)
  then show ?case by (auto intro: settled_ended)
next
  case (3 cfg line a c tp)
  then show ?case by (simp add: reply_arrived_idle)
next
  case (4 cfg rq due now tp)
  then show ?case by (auto simp: reply_inv_def sent_ids_def replied_ids_def current_ids_def replies_fit_def)
next
  case (5 cfg rq began now answer c tp)
  then show ?case by (simp add: reply_written)
next
  case (6 cfg i family line a c tp)
  then show ?case by (simp add: reply_arrived_response)
next
  case (7 cfg i family line c tp)
  then show ?case by (simp add: reply_failed)
next
  case (8 cfg n answer c tp)
  then have "settled used tp" by (auto intro: inv_settled)
  then show ?case
    by (auto simp: connect_answered_def publish_event_def try_reconnect_def split: sum.split intro: settled_ended)
qed (auto intro: reply_mono)

lemma reply_run:
  assumes "reply_inv used tp" "distinct (concat (map asked stimuli))" "set (concat (map asked stimuli)) \<inter> used = {}"
  shows "reply_inv (used \<union> set (concat (map asked stimuli))) (transport_run cfg stimuli tp)"
  using assms
proof (induction stimuli arbitrary: used tp)
  case (Cons s stimuli)
  have "reply_inv (used \<union> set (asked s)) (transport_step cfg (tp_at tp) s tp)"
    using Cons.prems by (intro reply_step) auto
  from Cons.IH [OF this] Cons.prems show ?case by (auto simp: transport_run_def Un_assoc)
qed (simp add: transport_run_def)

lemma reply_start: "reply_inv {} (transport_start c)"
  by (auto simp: reply_inv_def transport_start_def Let_def publish_event_def sent_ids_def replied_ids_def
      current_ids_def replies_fit_def)

section \<open>Frames\<close>

definition frame_ok :: "nat \<Rightarrow> string \<Rightarrow> bool" where
  "frame_ok mx w = (length w \<le> mx \<and> CR \<notin> set w \<and> from_utf8_ok w)"

lemma read_byte_partial:
  "read_byte mx line a = Partial line' \<Longrightarrow> \<exists>b. a = Byte b \<and> line' = line @ [b] \<and> b \<noteq> CR \<and> length line' \<le> mx"
  by (auto simp: read_byte_def Let_def split: arrival.splits if_splits)

lemma read_byte_frame: "read_byte mx line a = Frame line' \<Longrightarrow> a = Byte CR \<and> line' = line @ [CR]"
  by (auto simp: read_byte_def Let_def split: arrival.splits if_splits)

lemma read_byte_failed:
  "read_byte mx line a = FrameFailed e \<Longrightarrow> (\<exists>m. e = AvrDisconnected m) \<or> (\<exists>m. e = AvrMalformedFrame m)"
  by (auto simp: read_byte_def Let_def not_terminated_def too_long_def split: arrival.splits if_splits)

lemma frame_text_Ok: "frame_text (line @ [CR]) mx = Ok w \<longleftrightarrow> w = line \<and> length line \<le> mx \<and> from_utf8_ok line"
  by (auto simp: frame_text_def)

lemma frame_text_Err: "frame_text line mx = Err e \<Longrightarrow> \<exists>m. e = AvrMalformedFrame m"
  by (auto simp: frame_text_def not_terminated_def too_long_def split: if_splits)

text \<open>
  Frames that fit are read back one by one, whatever follows them, and an unfinished line is kept.
\<close>

lemma read_frame_partial:
  "CR \<notin> set w \<Longrightarrow> length line + length w \<le> mx \<Longrightarrow>
   read_frame mx line (map Byte w @ as) = read_frame mx (line @ w) as"
proof (induction w arbitrary: line)
  case (Cons b w)
  then have "read_byte mx line (Byte b) = Partial (line @ [b])" by (auto simp: read_byte_def Let_def)
  with Cons show ?case by simp
qed simp

lemma read_frame_text:
  assumes "frame_ok mx w"
  shows "read_frame mx [] (map Byte (w @ [CR]) @ as) = (Frame (w @ [CR]), as)" "frame_text (w @ [CR]) mx = Ok w"
  using assms read_frame_partial [of w "[]" mx "map Byte [CR] @ as"]
  by (simp_all add: frame_ok_def frame_text_Ok read_byte_def Let_def)

definition unread :: "string list \<Rightarrow> string \<Rightarrow> string" where
  "unread frames line = concat (map (\<lambda>w. w @ [CR]) frames) @ line"

definition frames_inv :: "avr_session_config \<Rightarrow> transport \<Rightarrow> bool" where
  "frames_inv cfg tp =
     ((\<forall>w \<in> set (tp_frames tp). length w \<le> ac_max_line_length cfg \<and> from_utf8_ok w \<and> CR \<notin> set w)
      \<and> (case tp_at tp of
           AwaitingRequest line \<Rightarrow> CR \<notin> set line \<and> (\<not> tp_lost tp \<longrightarrow> tp_read tp = unread (tp_frames tp) line)
         | AwaitingResponse _ _ line \<Rightarrow> CR \<notin> set line \<and> (\<not> tp_lost tp \<longrightarrow> tp_read tp = unread (tp_frames tp) line)
         | Pacing _ _ \<Rightarrow> \<not> tp_lost tp \<longrightarrow> tp_read tp = unread (tp_frames tp) []
         | Sending _ _ \<Rightarrow> \<not> tp_lost tp \<longrightarrow> tp_read tp = unread (tp_frames tp) []
         | _ \<Rightarrow> True))"

definition frames_sound :: "avr_session_config \<Rightarrow> transport \<Rightarrow> bool" where
  "frames_sound cfg tp = (\<forall>w \<in> set (tp_frames tp). length w \<le> ac_max_line_length cfg \<and> from_utf8_ok w \<and> CR \<notin> set w)"

lemma frames_sound_cong: "tp_frames tp' = tp_frames tp \<Longrightarrow> frames_sound cfg tp' = frames_sound cfg tp"
  by (simp add: frames_sound_def)

lemma frames_inv_sound: "frames_inv cfg tp \<Longrightarrow> frames_sound cfg tp"
  by (simp add: frames_inv_def frames_sound_def)

lemma lose_frames: "tp_frames (lose_connection cfg c m tp) = tp_frames tp"
  by (auto simp: lose_connection_def publish_event_def try_reconnect_def)

lemma frames_lose: "frames_sound cfg tp \<Longrightarrow> frames_inv cfg (lose_connection cfg c m tp)"
  using lose_at [of cfg c m tp] by (auto simp: frames_inv_def frames_sound_def lose_frames)

lemma frames_failed:
  assumes "frames_sound cfg tp" "(\<exists>m. e = AvrDisconnected m) \<or> (\<exists>m. e = AvrMalformedFrame m) \<or> (\<exists>m. e = AvrTimeout m)"
  shows "frames_inv cfg (response_failed cfg i e c tp)"
proof -
  have "frames_sound cfg (reply i r tp)" for r using assms(1) by (simp add: frames_sound_def reply_def)
  with assms(2) show ?thesis by (auto simp: response_failed_def Let_def intro!: frames_lose)
qed

text \<open>A byte more: the line grows by it, or a frame is complete.\<close>

lemma frames_grown:
  assumes "frames_inv cfg tp" "tp_at tp = AwaitingRequest line \<or> tp_at tp = AwaitingResponse i family line"
    "read_byte (ac_max_line_length cfg) line a = Partial line'"
  shows "CR \<notin> set line'" "\<not> tp_lost tp \<Longrightarrow> tp_read (consumed a tp) = unread (tp_frames tp) line'"
  using assms read_byte_partial [OF assms(3)] by (auto simp: frames_inv_def consumed_def unread_def)

lemma frames_completed:
  assumes "frames_inv cfg tp" "tp_at tp = AwaitingRequest line \<or> tp_at tp = AwaitingResponse i family line"
    "read_byte (ac_max_line_length cfg) line a = Frame line'" "frame_text line' (ac_max_line_length cfg) = Ok w"
  shows "frames_sound cfg (frame_read w (consumed a tp))"
    "\<not> tp_lost tp \<Longrightarrow> tp_read (consumed a tp) = unread (tp_frames tp @ [w]) []"
proof -
  from read_byte_frame [OF assms(3)] have a: "a = Byte CR" "line' = line @ [CR]" by simp_all
  with assms(4) have w: "w = line" "length line \<le> ac_max_line_length cfg" "from_utf8_ok line"
    by (simp_all add: frame_text_Ok)
  from assms(1,2) w a show "frames_sound cfg (frame_read w (consumed a tp))"
    by (auto simp: frames_inv_def frames_sound_def frame_read_def consumed_def)
  show "\<not> tp_lost tp \<Longrightarrow> tp_read (consumed a tp) = unread (tp_frames tp @ [w]) []"
    using assms(1,2) w a by (auto simp: frames_inv_def consumed_def unread_def)
qed

lemma consumed_frame [simp]:
  "tp_frames (consumed a tp) = tp_frames tp" "tp_lost (consumed a tp) = tp_lost tp"
  by (simp_all add: consumed_def split: arrival.split)

lemma frames_at:
  assumes "frames_sound cfg tp" "tp_at tp = AwaitingRequest line \<or> tp_at tp = AwaitingResponse i family line"
    "CR \<notin> set line" "\<not> tp_lost tp \<Longrightarrow> tp_read tp = unread (tp_frames tp) line"
  shows "frames_inv cfg tp"
  using assms by (auto simp: frames_inv_def frames_sound_def)

lemma frames_idle:
  assumes "frames_inv cfg tp" "tp_at tp = AwaitingRequest line"
  shows "frames_inv cfg (arrived_idle cfg line a c (consumed a tp))"
proof (cases "read_byte (ac_max_line_length cfg) line a")
  case (Partial line')
  have "frames_inv cfg ((consumed a tp)\<lparr>tp_at := AwaitingRequest line'\<rparr>)"
    using frames_grown [OF assms(1) _ Partial] assms frames_inv_sound [OF assms(1)]
    by (intro frames_at) (auto simp: frames_sound_def)
  with Partial show ?thesis by (simp add: arrived_idle_def)
next
  case (FrameFailed e)
  with frames_inv_sound [OF assms(1)] show ?thesis
    by (auto simp: arrived_idle_def frames_sound_def intro!: frames_lose)
next
  case (Frame line')
  show ?thesis
  proof (cases "frame_text line' (ac_max_line_length cfg)")
    case (Inl e)
    with Frame frames_inv_sound [OF assms(1)] show ?thesis
      by (auto simp: arrived_idle_def frames_sound_def intro!: frames_lose)
  next
    case (Inr w)
    note ok = frames_completed [OF assms(1) _ Frame Inr]
    have "frames_sound cfg (frame_read w (consumed a tp))" using ok(1) assms(2) by blast
    moreover have "\<not> tp_lost tp \<Longrightarrow> tp_read (consumed a tp) = unread (tp_frames tp @ [w]) []" using ok(2) assms(2) by blast
    ultimately show ?thesis using Frame Inr
      by (auto simp: arrived_idle_def deliver_def publish_event_def frame_read_def frames_inv_def frames_sound_def)
  qed
qed

lemma frames_response:
  assumes "frames_inv cfg tp" "tp_at tp = AwaitingResponse i family line"
  shows "frames_inv cfg (arrived_response cfg i family line a c (consumed a tp))"
proof (cases "read_byte (ac_max_line_length cfg) line a")
  case (Partial line')
  have "frames_inv cfg ((consumed a tp)\<lparr>tp_at := AwaitingResponse i family line'\<rparr>)"
    using frames_grown [OF assms(1) _ Partial] assms frames_inv_sound [OF assms(1)]
    by (intro frames_at) (auto simp: frames_sound_def)
  with Partial show ?thesis by (simp add: arrived_response_def)
next
  case (FrameFailed e)
  with frames_inv_sound [OF assms(1)] read_byte_failed [OF FrameFailed] show ?thesis
    by (auto simp: arrived_response_def frames_sound_def intro!: frames_failed)
next
  case (Frame line')
  show ?thesis
  proof (cases "frame_text line' (ac_max_line_length cfg)")
    case (Inl e)
    with Frame frames_inv_sound [OF assms(1)] frame_text_Err [OF Inl] show ?thesis
      by (auto simp: arrived_response_def frames_sound_def intro!: frames_failed)
  next
    case (Inr w)
    note ok = frames_completed [OF assms(1) _ Frame Inr]
    have "frames_sound cfg (frame_read w (consumed a tp))" using ok(1) assms(2) by blast
    moreover have "\<not> tp_lost tp \<Longrightarrow> tp_read (consumed a tp) = unread (tp_frames tp @ [w]) []" using ok(2) assms(2) by blast
    ultimately show ?thesis using Frame Inr
      by (auto simp: arrived_response_def Let_def publish_event_def frame_read_def frames_inv_def frames_sound_def
          response_failed_def reply_def)
  qed
qed

lemma frames_step: "frames_inv cfg tp \<Longrightarrow> tp_at tp = ph \<Longrightarrow> frames_inv cfg (transport_step cfg ph s tp)"
proof (induction cfg ph s tp rule: transport_step.induct)
  case (1 cfg line rq now tp)
  then show ?case by (auto simp: take_request_def Let_def frames_inv_def)
next
  case (3 cfg line a c tp)
  then show ?case by (simp add: frames_idle)
next
  case (5 cfg rq began now answer c tp)
  have sound: "frames_sound cfg (reply i r tp')" if "tp_frames tp' = tp_frames tp" for i r tp'
    using frames_inv_sound [OF 5(1)] that by (simp add: frames_sound_def reply_def)
  have wait: "frames_inv cfg tp'" if "tp_frames tp' = tp_frames tp" "tp_lost tp' = tp_lost tp" "tp_read tp' = tp_read tp"
    "tp_at tp' = AwaitingRequest [] \<or> tp_at tp' = AwaitingResponse i family []" for tp' i family
    using 5 that by (auto simp: frames_inv_def)
  show ?case
    by (auto simp: write_ended_def Let_def 5(1) split: option.split sum.split intro!: frames_lose sound wait)
       (auto simp: reply_def)
next
  case (6 cfg i family line a c tp)
  then show ?case by (simp add: frames_response)
next
  case (7 cfg i family line c tp)
  then show ?case using frames_inv_sound by (auto intro!: frames_failed)
next
  case (8 cfg n answer c tp)
  then show ?case
    by (auto simp: connect_answered_def publish_event_def try_reconnect_def frames_inv_def unread_def split: sum.split)
qed (auto simp: frames_inv_def)

lemma frames_start: "frames_inv cfg (transport_start c)"
  by (auto simp: frames_inv_def transport_start_def Let_def publish_event_def unread_def)

lemma frames_run: "frames_inv cfg (transport_run cfg stimuli (transport_start c))"
  by (rule run_invariant [where P = "frames_inv cfg"]) (simp_all add: frames_start frames_step)

end
