(* ===== verification/Wire_Properties.thy ===== *)
theory Wire_Properties
  imports Transport_Properties
begin

text \<open>The properties of the transport, with example runs of its task.\<close>

section \<open>Example runs\<close>

definition example_query :: "nat \<Rightarrow> string \<Rightarrow> wire_request" where
  "example_query i c = \<lparr>wr_id = i, wr_command = AvrCommand c, wr_wants_response = True\<rparr>"

definition example_write :: "nat \<Rightarrow> string \<Rightarrow> wire_request" where
  "example_write i c = \<lparr>wr_id = i, wr_command = AvrCommand c, wr_wants_response = False\<rparr>"

definition bytes :: "string \<Rightarrow> stimulus list" where
  "bytes s = map (\<lambda>b. Arrived (Byte b) Room) s"

abbreviation example_wire :: "stimulus list \<Rightarrow> transport" where
  "example_wire stimuli \<equiv> transport_run avr_session_config_default stimuli (transport_start Room)"

lemmas wire_eval =
  transport_run_def transport_start_def publish_event_def bytes_def example_query_def example_write_def
  take_request_def write_ended_def arrived_idle_def arrived_response_def deliver_def frame_read_def consumed_def
  reply_def read_byte_def frame_text_def lose_connection_def try_reconnect_def connect_answered_def
  response_failed_def is_power_on_def avr_session_config_default_def DEFAULT_MAX_LINE_LENGTH_def
  get_command_family_def response_matches_def from_secs_def from_millis_dur_def CR_def Let_def

definition example_pair :: "stimulus list" where
  "example_pair =
     [Asked (example_write 1 ''ZMON'') 0, Written 5 (Some (Ok ())) Room, Asked (example_query 2 ''MU?'') 6,
      Woken 2000000000, Written 2000000001 (Some (Ok ())) Room] @ bytes (''PWON'' @ [CR] @ ''MUON'' @ [CR])"

lemma example_pair_run:
  "tp_sent (example_wire example_pair) = [(1, 0, 5, ''ZMON''), (2, 2000000000, 2000000001, ''MU?'')]"
  "tp_replies (example_wire example_pair) = [(1, Dispatched (Ok ())), (2, Response (Ok ''MUON''))]"
  "tp_published (example_wire example_pair) = [EvConnected, EvLine ''PWON'']"
  "tp_frames (example_wire example_pair) = [''PWON'', ''MUON'']" "\<not> tp_lost (example_wire example_pair)"
  by (simp_all add: example_pair_def wire_eval text_defs)

section \<open>Properties\<close>

text \<open>
  Transmissions are spaced, whatever the receiver and the callers do: each begins at least the
  transmission interval after the end of every earlier attempt, and at least a second after the
  end of every earlier attempt to power the receiver or its main zone on.
\<close>

theorem transmissions_spaced:
  assumes "tp_sent (transport_run cfg stimuli (transport_start c)) = before @ (i, b, e, command) # between @ (j, b', e', command') # rest"
  shows "e + ac_transmission_interval cfg \<le> b' \<and> (command \<in> {''PWON'', ''ZMON''} \<longrightarrow> e + from_secs 1 \<le> b')"
  using pace_run [of cfg stimuli c] unfolding pace_inv_def assms
  by (auto simp: spaced_def sorted_wrt_append is_power_on_def)

theorem transmissions_spaced_witness: "5 + from_secs 1 \<le> (2000000000 :: nat)"
proof -
  have "tp_sent (example_wire example_pair)
      = [] @ (1, 0, 5, ''ZMON'') # [] @ (2, 2000000000, 2000000001, ''MU?'') # []" by (simp add: example_pair_run)
  from transmissions_spaced [OF this] show ?thesis by simp
qed

text \<open>
  C26. Every request is answered once: with requests told apart, each is written at most once and
  answered at most once, whatever was written has been answered unless its answer is being
  waited for, and a response is a line of the family that was asked for.
\<close>

theorem requests_answered_once:
  assumes "distinct (concat (map asked stimuli))" "transport_run cfg stimuli (transport_start c) = tp"
  shows "distinct (map fst (tp_sent tp)) \<and> distinct (map fst (tp_replies tp))
    \<and> set (map fst (tp_sent tp)) \<subseteq> set (concat (map asked stimuli))
    \<and> set (map fst (tp_sent tp)) = set (map fst (tp_replies tp))
        \<union> (case tp_at tp of AwaitingResponse i _ _ \<Rightarrow> {i} | _ \<Rightarrow> {})
    \<and> (\<forall>i line. (i, Response (Ok line)) \<in> set (tp_replies tp) \<longrightarrow>
         (\<exists>b e command. (i, b, e, command) \<in> set (tp_sent tp) \<and> response_matches (get_command_family command) line))"
proof -
  have inv: "reply_inv (set (concat (map asked stimuli))) tp"
    using reply_run [OF reply_start [of c] assms(1), where cfg = cfg] assms(2) by simp
  then have "set (map fst (tp_sent tp)) = set (map fst (tp_replies tp)) \<union> (case tp_at tp of AwaitingResponse i _ _ \<Rightarrow> {i} | _ \<Rightarrow> {})"
    by (cases "tp_at tp") (simp_all add: reply_inv_def sent_ids_def replied_ids_def)
  with inv show ?thesis by (simp add: reply_inv_def sent_ids_def replies_fit_def)
qed

theorem requests_answered_once_witness:
  "\<exists>b e command. (2, b, e, command) \<in> set (tp_sent (example_wire example_pair))
     \<and> response_matches (get_command_family command) ''MUON''"
proof -
  have "distinct (concat (map asked example_pair))" by (simp add: example_pair_def example_query_def example_write_def bytes_def comp_def)
  from requests_answered_once [OF this refl] have "(2, Response (Ok ''MUON'')) \<in> set (tp_replies (example_wire example_pair)) \<longrightarrow>
     (\<exists>b e command. (2, b, e, command) \<in> set (tp_sent (example_wire example_pair))
       \<and> response_matches (get_command_family command) ''MUON'')" by blast
  then show ?thesis by (simp add: example_pair_run)
qed

text \<open>
  Lifecycle events come in order: the first says that the connection is up, a line is passed
  on only while it is up, every loss names the generation in force, a reconnection follows a loss
  and begins the next generation, and the generation a caller reads is the one the events lead to.
\<close>

theorem lifecycle_ordered:
  assumes "transport_run cfg stimuli (transport_start c) = tp" "tp_at tp \<noteq> TaskEnded"
  shows "\<exists>evs up. tp_published tp = EvConnected # evs \<and> lifecycle evs (0, True) = Some (tp_generation tp, up)
    \<and> (up \<longleftrightarrow> (\<forall>n. tp_at tp \<noteq> Reconnecting n))"
  using life_run [of cfg stimuli c] assms by (cases "tp_at tp") (auto simp: life_inv_def split: if_splits)

theorem lifecycle_ordered_witness:
  "lifecycle [EvDisconnected 0 ''AVR disconnected: receiver closed the socket'', EvReconnected, EvLine ''PWON''] (0, True) = Some (1, True)"
proof -
  let ?stimuli = "[Arrived Eof Room, ConnectAnswered (Ok ()) Room] @ bytes (''PWON'' @ [CR])"
  have run: "tp_published (example_wire ?stimuli)
      = [EvConnected, EvDisconnected 0 ''AVR disconnected: receiver closed the socket'', EvReconnected, EvLine ''PWON'']"
    "tp_at (example_wire ?stimuli) = AwaitingRequest []" "tp_generation (example_wire ?stimuli) = 1"
    by (simp_all add: wire_eval text_defs)
  from lifecycle_ordered [OF refl, of avr_session_config_default ?stimuli Room] run show ?thesis by simp
qed



section \<open>A line that is cut short\<close>

text \<open>
  \<open>next_request\<close> waits for a request and for a frame at once, and the frame's future is dropped
  when the request wins, with the bytes it had read. The rest of the line is then read as a line
  of its own: the receiver reports that zone 2 is muted, and the query of the main zone's mute is
  answered with that.
\<close>

theorem interrupted_line_misread:
  "\<exists>stimuli. tp_read (example_wire stimuli) = ''Z2MUON'' @ [CR]
     \<and> tp_replies (example_wire stimuli) = [(1, Response (Ok ''MUON''))] \<and> parse ''MUON'' = Ok (XMute MuteOn)"
proof -
  let ?stimuli = "bytes ''Z2'' @ [Asked (example_query 1 ''MU?'') 0, Written 1 (Some (Ok ())) Room] @ bytes (''MUON'' @ [CR])"
  have "tp_read (example_wire ?stimuli) = ''Z2MUON'' @ [CR]"
    "tp_replies (example_wire ?stimuli) = [(1, Response (Ok ''MUON''))]"
    by (simp_all add: wire_eval text_defs)
  moreover have "parse ''MUON'' = Ok (XMute MuteOn)" by (simp add: parse_def)
  ultimately show ?thesis by blast
qed

end
