(* ===== verification/Token_Store.thy ===== *)
theory Token_Store
  imports Control
begin

text \<open>
  Agent tokens, \<open>crates/application/src/tokens.rs\<close>, and the store that keeps them in files,
  \<open>crates/infrastructure/src/token_store.rs\<close>. SHA-256 is a parameter; random bytes, the answers
  of the file system and the JSON of the file are arguments, the file being the list of records
  it holds. A byte is a number below 256. Issuing and revoking run one at a time, and each is cut
  at the await of its write, where its caller may be dropped while the write goes on; such a write
  is taken to land, or not, before the next one begins.
\<close>

section \<open>Records and errors\<close>

record token_record =
  tr_id :: token_id
  tr_label :: agent_label
  tr_created :: wall_time
  tr_revoked :: "wall_time option"

definition token_is_active :: "token_record \<Rightarrow> bool" where
  "token_is_active r = (tr_revoked r = None)"

record issued_token =
  it_record :: token_record
  it_secret :: string

datatype credential = AgentCredential agent_label token_id | OperatorToken | UnknownCredential

datatype token_error = InvalidLabel | LabelInUse | TokenNotFound | TokenStorage string

fun token_error_fmt :: "token_error \<Rightarrow> string" where
  "token_error_fmt InvalidLabel = ''that label cannot be a token's label''"
| "token_error_fmt LabelInUse = ''that label already has an active token; revoke it first''"
| "token_error_fmt TokenNotFound = ''no token has that id''"
| "token_error_fmt (TokenStorage why) = ''token store: '' @ why"

section \<open>Secrets and identifiers\<close>

definition AGENT_PREFIX :: string where "AGENT_PREFIX = ''dara_''"
definition OPERATOR_PREFIX :: string where "OPERATOR_PREFIX = ''daro_''"
definition SECRET_BYTES :: nat where "SECRET_BYTES = 32"
definition ENCODED_LEN :: nat where "ENCODED_LEN = 43"
definition FORMAT_VERSION :: nat where "FORMAT_VERSION = 1"

definition base64url_char :: "nat \<Rightarrow> char" where
  "base64url_char n = ''ABCDEFGHIJKLMNOPQRSTUVWXYZabcdefghijklmnopqrstuvwxyz0123456789-_'' ! (n mod 64)"

fun base64url :: "nat list \<Rightarrow> string" where
  "base64url [] = []"
| "base64url [a] =
     (let n = a * 65536 in [base64url_char (n div 262144), base64url_char (n div 4096)])"
| "base64url [a, b] =
     (let n = a * 65536 + b * 256 in
      [base64url_char (n div 262144), base64url_char (n div 4096), base64url_char (n div 64)])"
| "base64url (a # b # c # rest) =
     (let n = a * 65536 + b * 256 + c in
      [base64url_char (n div 262144), base64url_char (n div 4096), base64url_char (n div 64), base64url_char n]
      @ base64url rest)"

definition generate_secret :: "string \<Rightarrow> (nat list, string) result \<Rightarrow> (string, token_error) result" where
  "generate_secret prefix random =
     (case random of Err e \<Rightarrow> Err (TokenStorage e) | Ok bs \<Rightarrow> Ok (prefix @ base64url bs))"

definition is_base64url :: "char \<Rightarrow> bool" where
  "is_base64url c = (is_ascii_lowercase c \<or> is_ascii_uppercase c \<or> is_ascii_digit c \<or> c = CHR ''-'' \<or> c = CHR ''_'')"

definition secret_well_formed :: "string \<Rightarrow> string \<Rightarrow> bool" where
  "secret_well_formed secret prefix =
     (case strip_prefix prefix secret of
        None \<Rightarrow> False
      | Some rest \<Rightarrow> length rest = ENCODED_LEN \<and> list_all is_base64url rest)"

definition to_hex :: "nat list \<Rightarrow> string" where
  "to_hex bs = concat (map (\<lambda>b. [hex_char (b div 16), hex_char b]) bs)"

definition from_hex :: "string \<Rightarrow> nat list option" where
  "from_hex t = (if length t \<noteq> 64 \<or> \<not> list_all (\<lambda>c. hex_digit c \<noteq> None) t then None else hex_bytes t)"

text \<open>A record as the file holds it.\<close>

record stored_token =
  sd_id :: string
  sd_label :: string
  sd_created_ms :: u64
  sd_revoked_ms :: "u64 option"
  sd_digest :: string

text \<open>\<open>fresh_id\<close> draws at most sixteen times; \<open>draws\<close> is what each draw returns.\<close>

fun draw_id :: "stored_token list \<Rightarrow> (nat list, string) result list \<Rightarrow> (string, token_error) result" where
  "draw_id existing [] = Err (TokenStorage ''no unused token id was found'')"
| "draw_id existing (Err e # draws) = Err (TokenStorage e)"
| "draw_id existing (Ok bs # draws) =
     (let i = ''t-'' @ to_hex bs in
      if list_all (\<lambda>s. sd_id s \<noteq> i) existing then Ok i else draw_id existing draws)"

definition fresh_id :: "stored_token list \<Rightarrow> (nat list, string) result list \<Rightarrow> (string, token_error) result" where
  "fresh_id existing draws = draw_id existing (take 16 draws)"

section \<open>The Operator's token\<close>

text \<open>
  What is found at the Operator's path, and what \<open>operator_digest\<close> leaves there: the content of a
  file it created. \<open>created\<close> is the answer of creating and of writing the file.
\<close>

datatype operator_file = NoOperatorFile | UnreadableOperatorFile string | OperatorFile nat "(string, string) result"

fun show_octal :: "nat \<Rightarrow> string" where
  "show_octal n = (if n < 8 then [digit_char n] else show_octal (n div 8) @ [digit_char (n mod 8)])"

declare show_octal.simps [simp del]

text \<open>Bits of the mode for others than the owner, \<open>mode & 0o077\<close> of the low nine bits.\<close>

definition check_file_permissions :: "string \<Rightarrow> nat \<Rightarrow> (unit, string) result" where
  "check_file_permissions path mode =
     (let m = mode mod 512 in
      if m mod 64 \<noteq> 0
      then Err (path @ '' has permissions '' @ show_octal m @ '', wider than owner-only; fix them first'')
      else Ok ())"

definition operator_digest ::
  "(string \<Rightarrow> nat list) \<Rightarrow> string \<Rightarrow> (nat list, string) result \<Rightarrow> (unit, string) result \<Rightarrow> (unit, string) result
     \<Rightarrow> operator_file \<Rightarrow> (nat list \<times> string option, string) result" where
  "operator_digest digest path random created written found =
     (case found of
        OperatorFile mode content \<Rightarrow>
          (case check_file_permissions path mode of Err e \<Rightarrow> Err e
           | Ok _ \<Rightarrow>
               (case content of Err e \<Rightarrow> Err (''cannot read '' @ path @ '': '' @ e)
                | Ok held \<Rightarrow>
                    (let secret = trim held in
                     if \<not> secret_well_formed secret OPERATOR_PREFIX
                     then Err (path @ '' does not hold an Operator token; delete it to have a new one made'')
                     else Ok (digest secret, None))))
      | NoOperatorFile \<Rightarrow>
          (case generate_secret OPERATOR_PREFIX random of
             Err why \<Rightarrow> Err (''cannot make an Operator token: '' @ token_error_fmt why)
           | Ok secret \<Rightarrow>
               (case created of Err e \<Rightarrow> Err (''cannot create '' @ path @ '': '' @ e)
                | Ok _ \<Rightarrow>
                    (case written of Err e \<Rightarrow> Err (''cannot write '' @ path @ '': '' @ e)
                     | Ok _ \<Rightarrow> Ok (digest secret, Some (secret @ [CHR 0x0A])))))
      | UnreadableOperatorFile e \<Rightarrow> Err (''cannot read '' @ path @ '': '' @ e))"

section \<open>The store\<close>

record token_entry =
  te_record :: token_record
  te_digest :: "nat list"

definition stored_of :: "token_entry \<Rightarrow> stored_token" where
  "stored_of e =
     \<lparr>sd_id = token_id_str (tr_id (te_record e)), sd_label = agent_label_str (tr_label (te_record e)),
      sd_created_ms = wt_millis (tr_created (te_record e)), sd_revoked_ms = map_option wt_millis (tr_revoked (te_record e)),
      sd_digest = to_hex (te_digest e)\<rparr>"

text \<open>What is being written: the end of an issue or of a revocation.\<close>

datatype pending_write = PendingIssue token_entry string | PendingRevoke token_id wall_time

record token_store =
  ts_path :: string
  ts_fault :: "string option"
  ts_operator_digest :: "nat list"
  ts_entries :: "token_entry list"
  ts_revocations :: u64
  ts_writing :: "pending_write option"
  ts_file :: "stored_token list"

definition malformed :: "string \<Rightarrow> string \<Rightarrow> string" where
  "malformed path why = path @ '' cannot be used ('' @ why @ ''); it was not replaced''"

text \<open>\<open>read_entries\<close>, once the file is parsed: every record is checked against those before it.\<close>

definition read_entry :: "string \<Rightarrow> stored_token \<Rightarrow> token_entry list \<Rightarrow> (token_entry list, string) result" where
  "read_entry path s entries =
     (if \<not> (is_ok (agent_label_new (sd_label s)) \<and> label_is_well_formed (sd_label s))
      then Err (malformed path ''a token has a label outside the label rule'')
      else case token_id_new (sd_id s) of
        Err why \<Rightarrow> Err (malformed path why)
      | Ok i \<Rightarrow>
          (let r = \<lparr>tr_id = i, tr_label = AgentLabel (sd_label s), tr_created = WallTime (sd_created_ms s),
                    tr_revoked = map_option WallTime (sd_revoked_ms s)\<rparr> in
           case from_hex (sd_digest s) of
             None \<Rightarrow> Err (malformed path ''a digest is not 64 hexadecimal digits'')
           | Some d \<Rightarrow>
               if list_ex (\<lambda>e. tr_id (te_record e) = i) entries then Err (malformed path ''two tokens have one id'')
               else if token_is_active r
                  \<and> list_ex (\<lambda>e. token_is_active (te_record e) \<and> tr_label (te_record e) = tr_label r) entries
               then Err (malformed path ''two active tokens have one label'')
               else Ok (entries @ [\<lparr>te_record = r, te_digest = d\<rparr>])))"

fun read_all :: "string \<Rightarrow> stored_token list \<Rightarrow> token_entry list \<Rightarrow> (token_entry list, string) result" where
  "read_all path [] entries = Ok entries"
| "read_all path (s # ss) entries =
     (case read_entry path s entries of Err e \<Rightarrow> Err e | Ok entries' \<Rightarrow> read_all path ss entries')"

definition read_entries :: "string \<Rightarrow> nat \<Rightarrow> stored_token list \<Rightarrow> (token_entry list, string) result" where
  "read_entries path version tokens =
     (if version \<noteq> FORMAT_VERSION then Err (malformed path (''version '' @ show_nat version @ '' is not known''))
      else read_all path tokens [])"

text \<open>
  \<open>FileTokenStore::open\<close>: no file is no tokens, a file that cannot be used is a fault. \<open>found\<close> is
  the parsed file, or why it could not be read.
\<close>

definition open_store :: "string \<Rightarrow> nat list \<Rightarrow> (nat \<times> stored_token list, string) result option \<Rightarrow> token_store" where
  "open_store path operator_d found =
     (let file = (case found of Some (Ok (_, tokens)) \<Rightarrow> tokens | _ \<Rightarrow> []);
          read = (case found of
              None \<Rightarrow> Ok []
            | Some (Err why) \<Rightarrow> Err why
            | Some (Ok (version, tokens)) \<Rightarrow> read_entries path version tokens)
      in case read of
           Ok entries \<Rightarrow> \<lparr>ts_path = path, ts_fault = None, ts_operator_digest = operator_d, ts_entries = entries,
              ts_revocations = 0, ts_writing = None, ts_file = file\<rparr>
         | Err why \<Rightarrow> \<lparr>ts_path = path, ts_fault = Some why, ts_operator_digest = operator_d, ts_entries = [],
              ts_revocations = 0, ts_writing = None, ts_file = file\<rparr>)"

definition label_in_use :: "agent_label \<Rightarrow> token_entry list \<Rightarrow> bool" where
  "label_in_use label entries =
     list_ex (\<lambda>e. tr_label (te_record e) = label \<and> token_is_active (te_record e)) entries"

definition begin_issue ::
  "(string \<Rightarrow> nat list) \<Rightarrow> agent_label \<Rightarrow> wall_time \<Rightarrow> (nat list, string) result \<Rightarrow> (nat list, string) result list
     \<Rightarrow> token_store \<Rightarrow> (unit, token_error) result \<times> token_store" where
  "begin_issue digest label now random draws ts =
     (if \<not> label_is_well_formed (agent_label_str label) then (Err InvalidLabel, ts)
      else case ts_fault ts of Some fault \<Rightarrow> (Err (TokenStorage fault), ts)
      | None \<Rightarrow>
          if label_in_use label (ts_entries ts) then (Err LabelInUse, ts)
          else case generate_secret AGENT_PREFIX random of Err e \<Rightarrow> (Err e, ts)
          | Ok secret \<Rightarrow>
              (case fresh_id (map stored_of (ts_entries ts)) draws of Err e \<Rightarrow> (Err e, ts)
               | Ok i \<Rightarrow>
                   (case token_id_new i of Err _ \<Rightarrow> (Err (TokenStorage ''an id could not be formed''), ts)
                    | Ok tid \<Rightarrow>
                        (Ok (), ts\<lparr>ts_writing := Some (PendingIssue
                           \<lparr>te_record = \<lparr>tr_id = tid, tr_label = label, tr_created = now, tr_revoked = None\<rparr>,
                            te_digest = digest secret\<rparr> secret)\<rparr>))))"

text \<open>An id already revoked answers at once; the record of another goes to the write.\<close>

definition begin_revoke :: "token_id \<Rightarrow> wall_time \<Rightarrow> token_store \<Rightarrow> (token_record option, token_error) result \<times> token_store" where
  "begin_revoke i now ts =
     (case ts_fault ts of Some fault \<Rightarrow> (Err (TokenStorage fault), ts)
      | None \<Rightarrow>
          (case find (\<lambda>e. tr_id (te_record e) = i) (ts_entries ts) of
             None \<Rightarrow> (Err TokenNotFound, ts)
           | Some e \<Rightarrow>
               if \<not> token_is_active (te_record e) then (Ok (Some (te_record e)), ts)
               else (Ok None, ts\<lparr>ts_writing := Some (PendingRevoke i now)\<rparr>)))"

definition revoke_stored :: "token_id \<Rightarrow> wall_time \<Rightarrow> stored_token \<Rightarrow> stored_token" where
  "revoke_stored i now s = (if sd_id s = token_id_str i then s\<lparr>sd_revoked_ms := Some (wt_millis now)\<rparr> else s)"

definition file_of :: "pending_write \<Rightarrow> token_entry list \<Rightarrow> stored_token list" where
  "file_of w entries =
     (case w of
        PendingIssue e _ \<Rightarrow> map stored_of entries @ [stored_of e]
      | PendingRevoke i now \<Rightarrow> map (revoke_stored i now) (map stored_of entries))"

definition revoke_entry :: "token_id \<Rightarrow> wall_time \<Rightarrow> token_entry \<Rightarrow> token_entry" where
  "revoke_entry i now e =
     (if tr_id (te_record e) = i then e\<lparr>te_record := (te_record e)\<lparr>tr_revoked := Some now\<rparr>\<rparr> else e)"

text \<open>The first entry with the id, as \<open>iter_mut().find\<close> finds it.\<close>

fun revoke_first :: "token_id \<Rightarrow> wall_time \<Rightarrow> token_entry list \<Rightarrow> token_entry list" where
  "revoke_first i now [] = []"
| "revoke_first i now (e # es) =
     (if tr_id (te_record e) = i then revoke_entry i now e # es else e # revoke_first i now es)"

datatype finished = Issued issued_token | Revoked token_record

text \<open>
  The write has answered and the caller is still there: what is in memory changes with the file.
  \<open>write_atomically\<close> replaces the whole file or leaves it.
\<close>

definition end_write :: "(unit, string) result \<Rightarrow> token_store \<Rightarrow> (finished, token_error) result option \<times> token_store" where
  "end_write answer ts =
     (case ts_writing ts of None \<Rightarrow> (None, ts)
      | Some w \<Rightarrow>
          (case answer of
             Err why \<Rightarrow> (Some (Err (TokenStorage why)), ts\<lparr>ts_writing := None\<rparr>)
           | Ok _ \<Rightarrow>
               (let ts1 = ts\<lparr>ts_writing := None, ts_file := file_of w (ts_entries ts)\<rparr> in
                case w of
                  PendingIssue e secret \<Rightarrow>
                    (Some (Ok (Issued \<lparr>it_record = te_record e, it_secret = secret\<rparr>)),
                     ts1\<lparr>ts_entries := ts_entries ts @ [e]\<rparr>)
                | PendingRevoke i now \<Rightarrow>
                    (case find (\<lambda>e. tr_id (te_record e) = i) (ts_entries ts) of
                       None \<Rightarrow> (Some (Err TokenNotFound), ts1)
                     | Some e \<Rightarrow>
                         (Some (Ok (Revoked (te_record (revoke_entry i now e)))),
                          ts1\<lparr>ts_entries := revoke_first i now (ts_entries ts),
                              ts_revocations := ts_revocations ts + 1\<rparr>)))))"

text \<open>The caller is dropped while the write runs: the file may change, what is in memory does not.\<close>

definition drop_write :: "bool \<Rightarrow> token_store \<Rightarrow> token_store" where
  "drop_write lands ts =
     (case ts_writing ts of None \<Rightarrow> ts
      | Some w \<Rightarrow> ts\<lparr>ts_writing := None, ts_file := (if lands then file_of w (ts_entries ts) else ts_file ts)\<rparr>)"

section \<open>Checking a credential\<close>

text \<open>The last active entry whose digest is equal, none skipped on a match.\<close>

definition matching_entry :: "nat list \<Rightarrow> token_entry list \<Rightarrow> token_entry option" where
  "matching_entry d entries =
     fold (\<lambda>e found. if te_digest e = d then Some e else found) (filter (\<lambda>e. token_is_active (te_record e)) entries) None"

definition authenticate :: "(string \<Rightarrow> nat list) \<Rightarrow> string \<Rightarrow> token_store \<Rightarrow> credential" where
  "authenticate digest presented ts =
     (let agent = starts_with presented AGENT_PREFIX; operator = starts_with presented OPERATOR_PREFIX in
      if \<not> agent \<and> \<not> operator then UnknownCredential
      else if operator
      then (if digest presented = ts_operator_digest ts then OperatorToken else UnknownCredential)
      else case matching_entry (digest presented) (ts_entries ts) of
        Some e \<Rightarrow> AgentCredential (tr_label (te_record e)) (tr_id (te_record e))
      | None \<Rightarrow> UnknownCredential)"

definition token_active :: "token_id \<Rightarrow> token_store \<Rightarrow> bool" where
  "token_active i ts = list_ex (\<lambda>e. tr_id (te_record e) = i \<and> token_is_active (te_record e)) (ts_entries ts)"

definition list_tokens :: "token_store \<Rightarrow> token_record list" where
  "list_tokens ts = map te_record (ts_entries ts)"

end
