(* ===== verification/Token_Properties.thy ===== *)
theory Token_Properties
  imports Token_Store
begin

text \<open>
  What the token store promises under every interleaving of issues, revocations and dropped
  callers. The digest is a parameter; what is used of it is that it is 32 bytes long.
\<close>

section \<open>The store as a step relation\<close>

definition fills_secret :: "(nat list, string) result \<Rightarrow> bool" where
  "fills_secret random = (case random of Err _ \<Rightarrow> True | Ok bs \<Rightarrow> length bs = SECRET_BYTES \<and> list_all (\<lambda>b. b < 256) bs)"

inductive token_step :: "(string \<Rightarrow> nat list) \<Rightarrow> token_store \<Rightarrow> token_store \<Rightarrow> bool" for digest where
  issues: "ts_writing ts = None \<Longrightarrow> fills_secret random \<Longrightarrow> token_step digest ts (snd (begin_issue digest label now random draws ts))"
| revokes: "ts_writing ts = None \<Longrightarrow> token_step digest ts (snd (begin_revoke i now ts))"
| writes: "token_step digest ts (snd (end_write answer ts))"
| drops: "token_step digest ts (drop_write lands ts)"

abbreviation token_steps :: "(string \<Rightarrow> nat list) \<Rightarrow> token_store \<Rightarrow> token_store \<Rightarrow> bool" where
  "token_steps digest \<equiv> (token_step digest)\<^sup>*\<^sup>*"

definition sha_like :: "(string \<Rightarrow> nat list) \<Rightarrow> bool" where
  "sha_like digest = (\<forall>s. digest_wf (PolicyDigest (digest s)))"

section \<open>Well-formed entries\<close>

definition entry_wf :: "token_entry \<Rightarrow> bool" where
  "entry_wf e =
     (label_is_well_formed (agent_label_str (tr_label (te_record e)))
      \<and> token_id_new (token_id_str (tr_id (te_record e))) = Ok (tr_id (te_record e))
      \<and> digest_wf (PolicyDigest (te_digest e)))"

definition entries_wf :: "token_entry list \<Rightarrow> bool" where
  "entries_wf es =
     ((\<forall>e \<in> set es. entry_wf e) \<and> distinct (map (\<lambda>e. tr_id (te_record e)) es)
      \<and> distinct (map (\<lambda>e. tr_label (te_record e)) (filter (\<lambda>e. token_is_active (te_record e)) es)))"

lemma entries_wf_Nil [simp]: "entries_wf []" by (simp add: entries_wf_def)

lemma entries_wf_snoc:
  "entries_wf (es @ [e]) \<longleftrightarrow> entries_wf es \<and> entry_wf e \<and> (\<forall>e' \<in> set es. tr_id (te_record e') \<noteq> tr_id (te_record e))
     \<and> (token_is_active (te_record e) \<longrightarrow> \<not> label_in_use (tr_label (te_record e)) es)"
  by (cases "token_is_active (te_record e)") (force simp: entries_wf_def label_in_use_def list_ex_iff image_iff)+

text \<open>A well-formed label is a label: it is not blank, has no control character and fits.\<close>

lemma visible_label:
  assumes "list_all visible s" "s \<noteq> []"
  shows "\<not> is_blank s" "\<not> has_control s"
proof -
  have "trim s = s" by (rule trim_visible [OF assms(1)])
  with assms(2) show "\<not> is_blank s" by (simp add: is_blank_def)
  show "\<not> has_control s"
    using assms(1) by (auto simp: has_control_def utf8_chars_visible list_ex_iff list_all_iff is_control_def visible_def)
qed

lemma label_new_ok:
  assumes "label_is_well_formed l"
  shows "agent_label_new l = Ok (AgentLabel l)"
proof -
  have "label_char c \<Longrightarrow> visible c" for c
    by (auto simp: label_char_def visible_def is_ascii_lowercase_def is_ascii_digit_def byte_def)
  then have "list_all visible l" "l \<noteq> []"
    using assms by (auto simp: label_is_well_formed_def list_all_iff split: if_splits)
  from visible_label [OF this] assms show ?thesis
    by (auto simp: agent_label_new_def validate_text_def label_is_well_formed_def split: if_splits)
qed

lemma hex_of_digest:
  assumes "digest_wf (PolicyDigest d)"
  shows "from_hex (to_hex d) = Some d"
proof -
  have "length (to_hex d) = 64" using assms by (simp add: to_hex_def digest_wf_def length_concat o_def sum_list_triv)
  moreover have "list_all (\<lambda>c. hex_digit c \<noteq> None) (to_hex d)"
    by (auto simp: to_hex_def list_all_iff hex_digit_hex_char)
  moreover have "hex_bytes (to_hex d) = Some d" using assms by (simp add: to_hex_def digest_wf_def hex_bytes_fmt)
  ultimately show ?thesis by (auto simp: from_hex_def)
qed

lemma from_hex_wf:
  assumes "from_hex t = Some d"
  shows "digest_wf (PolicyDigest d)"
proof -
  have len: "length bs = length s div 2" "list_all (\<lambda>b. b < 256) bs" if "hex_bytes s = Some bs" for s bs
    using that
    by (induction s arbitrary: bs rule: hex_bytes.induct)
       (fastforce simp: hex_digit_def is_ascii_digit_def split: option.splits if_splits)+
  from assms len [of t d] show ?thesis by (auto simp: from_hex_def digest_wf_def split: if_splits)
qed

section \<open>The file reads back\<close>

lemma token_id_new_str: "token_id_new s = Ok i \<Longrightarrow> i = TokenId s"
  by (auto simp: token_id_new_def Let_def split: if_splits)

lemma read_stored:
  assumes "entries_wf (es @ [e])"
  shows "read_entry path (stored_of e) es = Ok (es @ [e])"
proof -
  from assms have wf: "entry_wf e" "\<forall>e' \<in> set es. tr_id (te_record e') \<noteq> tr_id (te_record e)"
    "token_is_active (te_record e) \<longrightarrow> \<not> label_in_use (tr_label (te_record e)) es"
    by (simp_all add: entries_wf_snoc)
  have "map_option WallTime (map_option wt_millis (tr_revoked (te_record e))) = tr_revoked (te_record e)"
    by (cases "tr_revoked (te_record e)") simp_all
  then have "\<lparr>tr_id = tr_id (te_record e), tr_label = AgentLabel (agent_label_str (tr_label (te_record e))),
      tr_created = WallTime (wt_millis (tr_created (te_record e))),
      tr_revoked = map_option WallTime (map_option wt_millis (tr_revoked (te_record e)))\<rparr> = te_record e" by simp
  with wf show ?thesis
    by (auto simp: read_entry_def stored_of_def entry_wf_def label_new_ok hex_of_digest label_in_use_def list_ex_iff Let_def)
qed

lemma read_all_stored: "entries_wf (es @ fs) \<Longrightarrow> read_all path (map stored_of fs) es = Ok (es @ fs)"
proof (induction fs arbitrary: es)
  case (Cons f fs)
  have "entries_wf (es @ [f])" using Cons.prems by (auto simp: entries_wf_def)
  with Cons.IH [of "es @ [f]"] Cons.prems show ?case by (simp add: read_stored)
qed simp

lemma read_entry_wf:
  assumes "read_entry path s es = Ok es'" "entries_wf es"
  shows "entries_wf es'"
proof -
  have lab: "label_is_well_formed (sd_label s)" using assms(1) by (auto simp: read_entry_def split: if_splits)
  show ?thesis
  proof (cases "token_id_new (sd_id s)")
    case (Inl e)
    with assms(1) show ?thesis by (simp add: read_entry_def split: if_splits)
  next
    case (Inr i)
    show ?thesis
    proof (cases "from_hex (sd_digest s)")
      case None
      with Inr assms(1) show ?thesis by (simp add: read_entry_def Let_def split: if_splits)
    next
      case (Some d)
      with Inr assms(1) have "\<not> list_ex (\<lambda>e. tr_id (te_record e) = i) es"
        "sd_revoked_ms s = None \<Longrightarrow> \<not> label_in_use (AgentLabel (sd_label s)) es"
        "es' = es @ [\<lparr>te_record = \<lparr>tr_id = i, tr_label = AgentLabel (sd_label s), tr_created = WallTime (sd_created_ms s),
            tr_revoked = map_option WallTime (sd_revoked_ms s)\<rparr>, te_digest = d\<rparr>]"
        by (auto simp: read_entry_def Let_def token_is_active_def label_in_use_def list_ex_iff split: if_splits)
      with lab token_id_new_str [OF Inr] Inr from_hex_wf [OF Some] assms(2) show ?thesis
        by (auto simp: entries_wf_snoc entry_wf_def token_is_active_def list_ex_iff)
    qed
  qed
qed

lemma read_all_wf: "read_all path ss es = Ok es' \<Longrightarrow> entries_wf es \<Longrightarrow> entries_wf es'"
  by (induction ss arbitrary: es) (auto split: sum.splits dest: read_entry_wf)

section \<open>The invariant\<close>

definition store_inv :: "(string \<Rightarrow> nat list) \<Rightarrow> token_store \<Rightarrow> bool" where
  "store_inv digest ts =
     (entries_wf (ts_entries ts) \<and> (ts_fault ts \<noteq> None \<longrightarrow> ts_entries ts = [] \<and> ts_writing ts = None)
      \<and> (ts_fault ts = None \<longrightarrow> is_ok (read_entries (ts_path ts) FORMAT_VERSION (ts_file ts)))
      \<and> (case ts_writing ts of
           None \<Rightarrow> True
         | Some (PendingIssue e secret) \<Rightarrow>
             entries_wf (ts_entries ts @ [e]) \<and> token_is_active (te_record e) \<and> te_digest e = digest secret
             \<and> secret_well_formed secret AGENT_PREFIX
         | Some (PendingRevoke i _) \<Rightarrow> token_active i ts))"

lemma store_inv_open: "store_inv digest (open_store path d found)"
  by (auto simp: open_store_def store_inv_def Let_def read_entries_def is_ok_def split: sum.splits option.splits dest: read_all_wf)

lemma revoke_first_absent: "i \<notin> set (map (\<lambda>e. tr_id (te_record e)) es) \<Longrightarrow> map (revoke_entry i now) es = es"
  by (induction es) (auto simp: revoke_entry_def)

lemma revoke_entry_other: "tr_id (te_record e) \<noteq> i \<Longrightarrow> revoke_entry i now e = e"
  by (simp add: revoke_entry_def)

lemma revoke_first_map:
  "distinct (map (\<lambda>e. tr_id (te_record e)) es) \<Longrightarrow> revoke_first i now es = map (revoke_entry i now) es"
proof (induction es)
  case (Cons e es)
  then show ?case using revoke_first_absent [of i es now]
    by (cases "tr_id (te_record e) = i") (auto simp: revoke_entry_other)
qed simp

lemma revoke_entry_simps [simp]:
  "tr_id (te_record (revoke_entry i now e)) = tr_id (te_record e)"
  "tr_label (te_record (revoke_entry i now e)) = tr_label (te_record e)"
  "te_digest (revoke_entry i now e) = te_digest e"
  "token_is_active (te_record (revoke_entry i now e)) = (token_is_active (te_record e) \<and> tr_id (te_record e) \<noteq> i)"
  by (auto simp: revoke_entry_def token_is_active_def)

lemma distinct_filter_more: "distinct (map f (filter P xs)) \<Longrightarrow> distinct (map f (filter (\<lambda>x. P x \<and> Q x) xs))"
  by (induction xs) (auto split: if_splits)

lemma entries_wf_revoke: "entries_wf es \<Longrightarrow> entries_wf (map (revoke_entry i now) es)"
proof -
  assume wf: "entries_wf es"
  have "map (\<lambda>e. tr_label (te_record e)) (filter (\<lambda>e. token_is_active (te_record e)) (map (revoke_entry i now) es))
      = map (\<lambda>e. tr_label (te_record e)) (filter (\<lambda>e. token_is_active (te_record e) \<and> tr_id (te_record e) \<noteq> i) es)"
    by (induction es) simp_all
  moreover have "distinct (map (\<lambda>e. tr_label (te_record e)) (filter (\<lambda>e. token_is_active (te_record e) \<and> tr_id (te_record e) \<noteq> i) es))"
    using wf by (intro distinct_filter_more) (simp add: entries_wf_def)
  ultimately show ?thesis using wf by (auto simp: entries_wf_def entry_wf_def o_def)
qed

lemma stored_revoke: "stored_of (revoke_entry i now e) = revoke_stored i now (stored_of e)"
  by (cases i; cases "tr_id (te_record e)") (simp add: stored_of_def revoke_entry_def revoke_stored_def)

lemma draw_id_Ok: "draw_id ex draws = Ok i \<Longrightarrow> list_all (\<lambda>s. sd_id s \<noteq> i) ex"
  by (induction ex draws rule: draw_id.induct) (auto simp: Let_def split: if_splits)

lemma fresh_id_Ok: "fresh_id ex draws = Ok i \<Longrightarrow> list_all (\<lambda>s. sd_id s \<noteq> i) ex"
  by (auto simp: fresh_id_def dest: draw_id_Ok)

lemma begin_issue_cases:
  assumes "begin_issue digest label now random draws ts = (res, ts')"
  obtains (refused) "ts' = ts" "res \<noteq> Ok ()"
  | (begun) bs secret tid where "random = Ok bs" "secret = AGENT_PREFIX @ base64url bs" "res = Ok ()" "ts_fault ts = None"
      "label_is_well_formed (agent_label_str label)" "\<not> label_in_use label (ts_entries ts)"
      "token_id_new (token_id_str tid) = Ok tid" "\<forall>e \<in> set (ts_entries ts). tr_id (te_record e) \<noteq> tid"
      "ts' = ts\<lparr>ts_writing := Some (PendingIssue
         \<lparr>te_record = \<lparr>tr_id = tid, tr_label = label, tr_created = now, tr_revoked = None\<rparr>, te_digest = digest secret\<rparr> secret)\<rparr>"
proof (cases "label_is_well_formed (agent_label_str label) \<and> ts_fault ts = None \<and> \<not> label_in_use label (ts_entries ts)")
  case False
  with assms refused show ?thesis by (auto simp: begin_issue_def split: if_splits option.splits)
next
  case True
  note ok = this
  show ?thesis
  proof (cases random)
    case (Inl e)
    with assms ok refused show ?thesis by (auto simp: begin_issue_def generate_secret_def)
  next
    case (Inr bs)
    note bytes = this
    show ?thesis
    proof (cases "fresh_id (map stored_of (ts_entries ts)) draws")
      case (Inl e)
      with assms ok bytes refused show ?thesis by (auto simp: begin_issue_def generate_secret_def)
    next
      case (Inr i)
      note drawn = this
      show ?thesis
      proof (cases "token_id_new i")
        case (Inl e)
        with assms ok bytes drawn refused show ?thesis by (auto simp: begin_issue_def generate_secret_def)
      next
        case (Inr tid)
        have tid: "tid = TokenId i" by (rule token_id_new_str [OF Inr])
        have "\<forall>e \<in> set (ts_entries ts). tr_id (te_record e) \<noteq> tid"
          using fresh_id_Ok [OF drawn] tid by (auto simp: list_all_iff stored_of_def)
        with assms ok bytes drawn Inr tid show ?thesis
          by (intro begun [of bs "AGENT_PREFIX @ base64url bs" tid]) (auto simp: begin_issue_def generate_secret_def)
      qed
    qed
  qed
qed


text \<open>A generated secret is one \<open>well_formed\<close> accepts.\<close>

lemma base64url_length: "length (base64url bs) = (4 * length bs + 2) div 3"
  by (induction bs rule: base64url.induct) (simp_all add: Let_def)

lemma base64url_chars: "list_all is_base64url (base64url bs)"
proof -
  have all: "list_all is_base64url ''ABCDEFGHIJKLMNOPQRSTUVWXYZabcdefghijklmnopqrstuvwxyz0123456789-_''" by code_simp
  have len: "length ''ABCDEFGHIJKLMNOPQRSTUVWXYZabcdefghijklmnopqrstuvwxyz0123456789-_'' = 64" by code_simp
  have ch: "is_base64url (base64url_char n)" for n
    using all len unfolding base64url_char_def list_all_length by (metis mod_less_divisor zero_less_numeral)
  show ?thesis by (induction bs rule: base64url.induct) (simp_all add: Let_def ch)
qed

lemma generated_secret_well_formed:
  assumes "length bs = SECRET_BYTES"
  shows "secret_well_formed (prefix @ base64url bs) prefix"
  using assms base64url_chars [of bs]
  by (simp add: secret_well_formed_def strip_prefix_def base64url_length SECRET_BYTES_def ENCODED_LEN_def)

lemma file_reads:
  "entries_wf es \<Longrightarrow> read_entries path FORMAT_VERSION (map stored_of es) = Ok es"
  using read_all_stored [of "[]" es] by (simp add: read_entries_def)

lemma file_of_issue: "file_of (PendingIssue e secret) es = map stored_of (es @ [e])"
  by (simp add: file_of_def)

lemma file_of_revoke: "file_of (PendingRevoke i now) es = map stored_of (map (revoke_entry i now) es)"
  by (simp add: file_of_def stored_revoke)

lemma store_inv_begin_issue:
  assumes "store_inv digest ts" "ts_writing ts = None" "fills_secret random" "sha_like digest"
  shows "store_inv digest (snd (begin_issue digest label now random draws ts))"
proof -
  obtain res ts' where eq: "begin_issue digest label now random draws ts = (res, ts')" by fastforce
  show ?thesis
  proof (cases rule: begin_issue_cases [OF eq])
    case 1
    with eq assms(1) show ?thesis by simp
  next
    case (2 bs secret tid)
    have "secret_well_formed secret AGENT_PREFIX"
      using 2 assms(3) generated_secret_well_formed by (simp add: fills_secret_def)
    with 2 eq assms show ?thesis
      by (auto simp: store_inv_def entries_wf_snoc entry_wf_def sha_like_def token_is_active_def)
  qed
qed

lemma store_inv_begin_revoke:
  assumes "store_inv digest ts" "ts_writing ts = None"
  shows "store_inv digest (snd (begin_revoke i now ts))"
proof (cases "find (\<lambda>e. tr_id (te_record e) = i) (ts_entries ts)")
  case (Some e)
  then have "e \<in> set (ts_entries ts)" "tr_id (te_record e) = i" by (auto simp: find_Some_iff)
  with Some assms show ?thesis
    by (auto simp: begin_revoke_def store_inv_def token_active_def list_ex_iff split: option.splits)
qed (use assms in \<open>auto simp: begin_revoke_def split: option.splits\<close>)

lemma end_write_entries:
  assumes "store_inv digest ts" "end_write answer ts = (res, ts')"
  obtains (nothing) "ts' = ts" "res = None" "ts_writing ts = None"
  | (failed) why where "ts' = ts\<lparr>ts_writing := None\<rparr>" "res = Some (Err (TokenStorage why))"
  | (issued) e secret where "ts_writing ts = Some (PendingIssue e secret)"
      "res = Some (Ok (Issued \<lparr>it_record = te_record e, it_secret = secret\<rparr>))"
      "ts' = ts\<lparr>ts_writing := None, ts_file := map stored_of (ts_entries ts @ [e]), ts_entries := ts_entries ts @ [e]\<rparr>"
  | (revoked) i now e where "ts_writing ts = Some (PendingRevoke i now)" "e \<in> set (ts_entries ts)" "tr_id (te_record e) = i"
      "res = Some (Ok (Revoked (te_record (revoke_entry i now e))))"
      "ts' = ts\<lparr>ts_writing := None, ts_file := map stored_of (map (revoke_entry i now) (ts_entries ts)),
         ts_entries := map (revoke_entry i now) (ts_entries ts), ts_revocations := ts_revocations ts + 1\<rparr>"
proof (cases "ts_writing ts")
  case None
  with assms show ?thesis by - (rule nothing; simp add: end_write_def)
next
  case (Some w)
  note writing = this
  show ?thesis
  proof (cases answer)
    case (Inl why)
    with assms Some show ?thesis by - (rule failed [of why]; simp add: end_write_def)
  next
    case (Inr u)
    show ?thesis
    proof (cases w)
      case (PendingIssue e secret)
      with assms Some Inr issued [of e secret] show ?thesis by (simp add: end_write_def file_of_issue)
    next
      case (PendingRevoke i now)
      have "token_active i ts" using assms(1) Some PendingRevoke by (simp add: store_inv_def)
      then obtain e where found: "find (\<lambda>e. tr_id (te_record e) = i) (ts_entries ts) = Some e"
        by (cases "find (\<lambda>e. tr_id (te_record e) = i) (ts_entries ts)")
           (auto simp: token_active_def list_ex_iff find_None_iff)
      then have "e \<in> set (ts_entries ts)" "tr_id (te_record e) = i" by (auto simp: find_Some_iff)
      moreover have "revoke_first i now (ts_entries ts) = map (revoke_entry i now) (ts_entries ts)"
        using assms(1) by (simp add: store_inv_def entries_wf_def revoke_first_map)
      ultimately show ?thesis
        using assms Some Inr PendingRevoke found revoked [of i now e] by (simp add: end_write_def file_of_revoke Let_def)
    qed
  qed
qed

lemma store_inv_end_write:
  assumes "store_inv digest ts"
  shows "store_inv digest (snd (end_write answer ts))"
proof -
  obtain res ts' where eq: "end_write answer ts = (res, ts')" by fastforce
  show ?thesis
  proof (cases rule: end_write_entries [OF assms eq])
    case 1
    with eq assms show ?thesis by simp
  next
    case (2 why)
    with eq assms show ?thesis by (auto simp: store_inv_def)
  next
    case (3 e secret)
    with assms have "entries_wf (ts_entries ts @ [e])" by (simp add: store_inv_def)
    with 3 eq assms file_reads [OF this] show ?thesis by (auto simp: store_inv_def is_ok_def)
  next
    case (4 i now e)
    have "entries_wf (map (revoke_entry i now) (ts_entries ts))"
      using assms by (intro entries_wf_revoke) (simp add: store_inv_def)
    with 4 eq assms file_reads [OF this] show ?thesis by (auto simp: store_inv_def is_ok_def)
  qed
qed

lemma store_inv_drop_write:
  assumes "store_inv digest ts"
  shows "store_inv digest (drop_write lands ts)"
proof (cases "ts_writing ts")
  case (Some w)
  have "is_ok (read_entries (ts_path ts) FORMAT_VERSION (file_of w (ts_entries ts)))"
  proof (cases w)
    case (PendingIssue e secret)
    then have "entries_wf (ts_entries ts @ [e])" using assms Some by (simp add: store_inv_def)
    from file_reads [OF this] PendingIssue show ?thesis by (simp add: file_of_issue is_ok_def)
  next
    case (PendingRevoke i now)
    have "entries_wf (map (revoke_entry i now) (ts_entries ts))"
      using assms by (intro entries_wf_revoke) (simp add: store_inv_def)
    from file_reads [OF this] PendingRevoke show ?thesis by (simp add: file_of_revoke is_ok_def)
  qed
  with Some assms show ?thesis by (auto simp: drop_write_def store_inv_def)
qed (use assms in \<open>simp add: drop_write_def\<close>)

lemma store_inv_step: "token_step digest ts ts' \<Longrightarrow> sha_like digest \<Longrightarrow> store_inv digest ts \<Longrightarrow> store_inv digest ts'"
  by (induction rule: token_step.induct)
     (simp_all add: store_inv_begin_issue store_inv_begin_revoke store_inv_end_write store_inv_drop_write)

lemma store_inv_steps: "token_steps digest ts ts' \<Longrightarrow> sha_like digest \<Longrightarrow> store_inv digest ts \<Longrightarrow> store_inv digest ts'"
  by (induction rule: rtranclp_induct) (auto intro: store_inv_step)


section \<open>Checking a credential\<close>

lemma matching_entry_fold:
  "fold (\<lambda>e found. if te_digest e = d then Some e else found) es init
     = (case filter (\<lambda>e. te_digest e = d) es of [] \<Rightarrow> init | _ \<Rightarrow> Some (List.last (filter (\<lambda>e. te_digest e = d) es)))"
  by (induction es arbitrary: init) (auto split: list.splits)

lemma matching_entry_Some:
  assumes "matching_entry d es = Some e"
  shows "e \<in> set es" "token_is_active (te_record e)" "te_digest e = d"
proof -
  let ?m = "filter (\<lambda>e. te_digest e = d) (filter (\<lambda>e. token_is_active (te_record e)) es)"
  have "?m \<noteq> []" "e = List.last ?m"
    using assms by (auto simp: matching_entry_def matching_entry_fold split: list.splits)
  then have "e \<in> set ?m" by (metis last_in_set)
  then show "e \<in> set es" "token_is_active (te_record e)" "te_digest e = d" by auto
qed

lemma matching_entry_snoc:
  "token_is_active (te_record e) \<Longrightarrow> te_digest e = d \<Longrightarrow> matching_entry d (es @ [e]) = Some e"
  by (simp add: matching_entry_def)

lemma matching_entry_None: "matching_entry d es = None \<longleftrightarrow> (\<forall>e \<in> set es. token_is_active (te_record e) \<longrightarrow> te_digest e \<noteq> d)"
  using filter_empty_conv [of "\<lambda>e. te_digest e = d" "filter (\<lambda>e. token_is_active (te_record e)) es"]
  unfolding matching_entry_def matching_entry_fold by (auto simp del: filter_filter split: list.splits)

lemma authenticate_agent:
  assumes "authenticate digest p ts = AgentCredential l i"
  shows "\<exists>e \<in> set (ts_entries ts). tr_id (te_record e) = i \<and> tr_label (te_record e) = l
     \<and> token_is_active (te_record e) \<and> te_digest e = digest p"
  using assms
  by (auto simp: authenticate_def Let_def split: if_splits option.splits dest: matching_entry_Some)

text \<open>A record once revoked stays so: its entry is kept, and every operation leaves it revoked.\<close>

definition has_revoked :: "token_id \<Rightarrow> token_store \<Rightarrow> bool" where
  "has_revoked i ts = (\<exists>e \<in> set (ts_entries ts). tr_id (te_record e) = i \<and> \<not> token_is_active (te_record e))"

lemma has_revoked_step:
  assumes "token_step digest ts ts'" "store_inv digest ts" "has_revoked i ts"
  shows "has_revoked i ts'"
  using assms(1)
proof cases
  case (issues random label now draws)
  obtain res t where eq: "begin_issue digest label now random draws ts = (res, t)" by fastforce
  show ?thesis
    using issues(1) eq assms(3) by (cases rule: begin_issue_cases [OF eq]) (auto simp: has_revoked_def)
next
  case (revokes j now)
  with assms(3) show ?thesis by (auto simp: begin_revoke_def has_revoked_def split: option.splits)
next
  case (writes answer)
  obtain res t where eq: "end_write answer ts = (res, t)" by fastforce
  show ?thesis
    using writes eq assms(3)
    by (cases rule: end_write_entries [OF assms(2) eq]) (auto simp: has_revoked_def)
next
  case (drops lands)
  with assms(3) show ?thesis by (auto simp: drop_write_def has_revoked_def split: option.splits)
qed

lemma has_revoked_steps:
  assumes "token_steps digest ts ts'" "sha_like digest" "store_inv digest ts" "has_revoked i ts"
  shows "has_revoked i ts'"
  using assms by (induction rule: rtranclp_induct) (auto intro: has_revoked_step store_inv_steps)

lemma has_revoked_inactive:
  assumes "store_inv digest ts" "has_revoked i ts"
  shows "\<not> token_active i ts"
proof -
  have "distinct (map (\<lambda>e. tr_id (te_record e)) (ts_entries ts))" using assms(1) by (simp add: store_inv_def entries_wf_def)
  then have "inj_on (\<lambda>e. tr_id (te_record e)) (set (ts_entries ts))" by (simp add: distinct_map)
  with assms(2) show ?thesis by (auto simp: has_revoked_def token_active_def list_ex_iff dest: inj_onD)
qed

section \<open>The Operator's token\<close>

lemma base64url_visible: "is_base64url c \<Longrightarrow> visible c"
  by (auto simp: is_base64url_def visible_def is_ascii_lowercase_def is_ascii_uppercase_def is_ascii_digit_def byte_def)

lemma trim_line:
  assumes "list_all visible s"
  shows "trim (s @ [CHR 0x0A]) = s"
proof (cases "s = []")
  case False
  have keep: "dropWhile is_whitespace (map (\<lambda>c. [c]) t) = map (\<lambda>c. [c]) t" if "list_all visible t" for t
    using that by (cases t) (simp_all add: visible_not_space)
  have plain: "utf8_chars (s @ [CHR 0x0A]) = map (\<lambda>c. [c]) (s @ [CHR 0x0A])"
    using assms
  proof (induction s)
    case (Cons c s)
    then have "takeWhile is_cont (s @ [CHR 0x0A]) = []" "dropWhile is_cont (s @ [CHR 0x0A]) = s @ [CHR 0x0A]"
      by (cases s; simp add: visible_not_cont)+
    with Cons show ?case by simp
  qed simp
  have "is_whitespace [CHR 0x0A]" by code_simp
  with plain False assms keep [of s] keep [of "rev s"] show ?thesis
    by (cases s) (simp_all add: trim_def trim_end_chars_def rev_map [symmetric] visible_not_space concat_map_singleton list_all_iff)
qed (simp add: trim_def trim_end_chars_def is_whitespace_def whitespace_encodings_def)

text \<open>
  The Operator's token made on a first start is accepted on every later one, with the same digest,
  as long as the file keeps its content and stays private to its owner.
\<close>

theorem operator_token_roundtrip:
  assumes "operator_digest digest path random created written NoOperatorFile = Ok (d, Some content)" "fills_secret random"
    and "mode mod 64 = 0"
  shows "operator_digest digest path random' created' written' (OperatorFile mode (Ok content)) = Ok (d, None)"
proof -
  obtain bs where bs: "random = Ok bs" "length bs = SECRET_BYTES"
      "d = digest (OPERATOR_PREFIX @ base64url bs)" "content = (OPERATOR_PREFIX @ base64url bs) @ [CHR 0x0A]"
    using assms(1,2)
    by (auto simp: operator_digest_def generate_secret_def fills_secret_def split: sum.splits)
  have "list_all visible (OPERATOR_PREFIX @ base64url bs)"
    using base64url_chars [of bs] base64url_visible
    by (auto simp: list_all_iff OPERATOR_PREFIX_def visible_def byte_def)
  then have "trim content = OPERATOR_PREFIX @ base64url bs" unfolding bs(4) by (rule trim_line)
  moreover have "secret_well_formed (OPERATOR_PREFIX @ base64url bs) OPERATOR_PREFIX"
    by (rule generated_secret_well_formed [OF bs(2)])
  moreover have "mode mod 512 mod 64 = 0" using assms(3) by (simp add: mod_mod_cancel)
  ultimately show ?thesis using bs(3) by (simp add: operator_digest_def check_file_permissions_def)
qed

section \<open>Properties\<close>

text \<open>
  From any opening, whatever is issued, revoked or dropped: no two tokens have one id, no two
  active ones one label, a store at fault holds no token and never comes to one, what is in memory
  reads back from its written form unchanged, and the file itself can be read again.
\<close>

theorem tokens_consistent:
  assumes "sha_like digest" "token_steps digest (open_store path op found) ts"
  shows "distinct (map (\<lambda>e. tr_id (te_record e)) (ts_entries ts))
    \<and> distinct (map (\<lambda>e. tr_label (te_record e)) (filter (\<lambda>e. token_is_active (te_record e)) (ts_entries ts)))
    \<and> (ts_fault ts \<noteq> None \<longrightarrow> ts_entries ts = [] \<and> ts_writing ts = None)
    \<and> read_entries path FORMAT_VERSION (map stored_of (ts_entries ts)) = Ok (ts_entries ts)
    \<and> (ts_fault ts = None \<longrightarrow> is_ok (read_entries (ts_path ts) FORMAT_VERSION (ts_file ts)))"
  using store_inv_steps [OF assms(2,1) store_inv_open] by (auto simp: store_inv_def entries_wf_def file_reads)


text \<open>
  A token issued works at once: its secret has the shape the API checks for, is taken for its own
  label and id, and is not the operator's.
\<close>

theorem issued_token_works:
  assumes "sha_like digest" "token_steps digest (open_store path op found) ts"
    and "end_write answer ts = (Some (Ok (Issued t)), ts1)"
  shows "secret_well_formed (it_secret t) AGENT_PREFIX \<and> token_active (tr_id (it_record t)) ts1
    \<and> authenticate digest (it_secret t) ts1 = AgentCredential (tr_label (it_record t)) (tr_id (it_record t))"
proof -
  have inv: "store_inv digest ts" by (rule store_inv_steps [OF assms(2,1) store_inv_open])
  show ?thesis
  proof (cases rule: end_write_entries [OF inv assms(3)])
    case (3 e secret)
    with inv have e: "token_is_active (te_record e)" "te_digest e = digest secret" "secret_well_formed secret AGENT_PREFIX"
      by (simp_all add: store_inv_def)
    from e(3) have "starts_with secret AGENT_PREFIX" "\<not> starts_with secret OPERATOR_PREFIX"
      by (auto simp: secret_well_formed_def strip_prefix_Some AGENT_PREFIX_def OPERATOR_PREFIX_def split: option.splits)
    with 3 e show ?thesis
      by (simp add: authenticate_def matching_entry_snoc token_active_def)
  qed simp_all
qed

text \<open>
  A credential is never taken for more than it is: an agent's is a prefixed secret whose digest is
  the digest of an active token with that label and id, the operator's is one with the operator's
  digest, and a store at fault knows no agent.
\<close>

theorem authenticate_sound:
  shows "case authenticate digest presented ts of
      AgentCredential label i \<Rightarrow> starts_with presented AGENT_PREFIX
        \<and> (\<exists>e \<in> set (ts_entries ts). tr_id (te_record e) = i \<and> tr_label (te_record e) = label
             \<and> token_is_active (te_record e) \<and> te_digest e = digest presented)
    | OperatorToken \<Rightarrow> starts_with presented OPERATOR_PREFIX \<and> digest presented = ts_operator_digest ts
    | UnknownCredential \<Rightarrow> (starts_with presented OPERATOR_PREFIX \<and> digest presented \<noteq> ts_operator_digest ts)
        \<or> (\<not> starts_with presented OPERATOR_PREFIX
            \<and> (starts_with presented AGENT_PREFIX
                 \<longrightarrow> (\<forall>e \<in> set (ts_entries ts). token_is_active (te_record e) \<longrightarrow> te_digest e \<noteq> digest presented)))"
proof (cases "starts_with presented OPERATOR_PREFIX")
  case False
  show ?thesis
  proof (cases "matching_entry (digest presented) (ts_entries ts)")
    case None
    with matching_entry_None [THEN iffD1, OF None] False show ?thesis by (auto simp: authenticate_def Let_def)
  next
    case (Some e)
    with False matching_entry_Some [OF Some] show ?thesis by (auto simp: authenticate_def Let_def)
  qed
qed (simp add: authenticate_def)

text \<open>A digest of 32 bytes, to try the theorems on, and a run: one token issued, then revoked.\<close>

definition sample_digest :: "string \<Rightarrow> nat list" where
  "sample_digest s = replicate 32 (length s mod 256)"

lemma sample_digest_ok: "sha_like sample_digest"
  by (simp add: sha_like_def sample_digest_def digest_wf_def list_all_iff)

definition sample_token :: token_entry where
  "sample_token = \<lparr>te_record = \<lparr>tr_id = TokenId ''t-01010101'', tr_label = AgentLabel ''kitchen'',
     tr_created = WallTime 5, tr_revoked = None\<rparr>, te_digest = sample_digest (AGENT_PREFIX @ base64url (replicate 32 7))\<rparr>"

definition sample_issue :: token_store where
  "sample_issue = snd (begin_issue sample_digest (AgentLabel ''kitchen'') (WallTime 5) (Ok (replicate 32 7))
     [Ok [1, 1, 1, 1]] (open_store ''agents.json'' [] None))"

definition sample_issued :: token_store where
  "sample_issued = snd (end_write (Ok ()) sample_issue)"

definition sample_revoke :: token_store where
  "sample_revoke = snd (begin_revoke (TokenId ''t-01010101'') (WallTime 9) sample_issued)"

definition sample_revoked :: token_store where
  "sample_revoked = snd (end_write (Ok ()) sample_revoke)"

lemma sample_id: "token_id_new (''t-'' @ to_hex [1, 1, 1, 1]) = Ok (TokenId ''t-01010101'')"
  by code_simp

lemma sample_hex: "to_hex [1, 1, 1, 1] = ''01010101''" by code_simp

lemma sample_label: "label_is_well_formed ''kitchen''" by code_simp

lemma sample_issue_eq:
  "sample_issue = (open_store ''agents.json'' [] None)\<lparr>ts_writing := Some (PendingIssue sample_token (AGENT_PREFIX @ base64url (replicate 32 7)))\<rparr>"
  using sample_id
  by (simp add: sample_issue_def begin_issue_def sample_label open_store_def label_in_use_def generate_secret_def fresh_id_def
      sample_hex sample_token_def)

lemma sample_issue_ends:
  "end_write (Ok ()) sample_issue
     = (Some (Ok (Issued \<lparr>it_record = te_record sample_token, it_secret = AGENT_PREFIX @ base64url (replicate 32 7)\<rparr>)), sample_issued)"
  by (simp add: sample_issued_def end_write_def sample_issue_eq Let_def open_store_def)

lemma sample_issued_entries: "ts_entries sample_issued = [sample_token]" "ts_writing sample_issued = None" "ts_fault sample_issued = None"
  by (simp_all add: sample_issued_def end_write_def sample_issue_eq Let_def open_store_def)

lemma sample_revoke_eq:
  "sample_revoke = sample_issued\<lparr>ts_writing := Some (PendingRevoke (TokenId ''t-01010101'') (WallTime 9))\<rparr>"
  by (simp add: sample_revoke_def begin_revoke_def sample_issued_entries) (simp add: sample_token_def token_is_active_def)

lemma sample_revoke_ends:
  "end_write (Ok ()) sample_revoke
     = (Some (Ok (Revoked ((te_record sample_token)\<lparr>tr_revoked := Some (WallTime 9)\<rparr>))), sample_revoked)"
  by (simp add: sample_revoked_def end_write_def sample_revoke_eq Let_def sample_issued_entries)
     (simp add: sample_token_def revoke_entry_def)

lemma sample_issue_reached: "token_steps sample_digest (open_store ''agents.json'' [] None) sample_issue"
  unfolding sample_issue_def
  by (intro r_into_rtranclp issues) (simp_all add: open_store_def fills_secret_def SECRET_BYTES_def list_all_iff)

lemma sample_revoke_reached: "token_steps sample_digest (open_store ''agents.json'' [] None) sample_revoke"
proof -
  have "token_step sample_digest sample_issue sample_issued" unfolding sample_issued_def by (rule writes)
  moreover have "token_step sample_digest sample_issued sample_revoke"
    unfolding sample_revoke_def by (rule revokes [OF sample_issued_entries(2)])
  ultimately show ?thesis using sample_issue_reached by (meson rtranclp.rtrancl_into_rtrancl)
qed

text \<open>
  A caller of \<open>revoke\<close> who goes away while the write lands leaves the two apart: the file says
  revoked, and the running store still takes the secret.
\<close>

lemma dropped_revoke_leaves_active:
  assumes "token_active i ts" "ts_writing ts = Some (PendingRevoke i now)"
  shows "token_active i (drop_write True ts) \<and> ts_file (drop_write True ts) = map (revoke_stored i now) (map stored_of (ts_entries ts))"
  using assms by (simp add: drop_write_def token_active_def file_of_def)


section \<open>Witnesses\<close>

theorem tokens_consistent_witness:
  "distinct (map (\<lambda>e. tr_id (te_record e)) (ts_entries sample_revoke))
    \<and> read_entries ''agents.json'' FORMAT_VERSION (map stored_of (ts_entries sample_revoke)) = Ok (ts_entries sample_revoke)"
  using tokens_consistent [OF sample_digest_ok sample_revoke_reached] by simp


theorem issued_token_works_witness:
  "authenticate sample_digest (AGENT_PREFIX @ base64url (replicate 32 7)) sample_issued
     = AgentCredential (AgentLabel ''kitchen'') (TokenId ''t-01010101'')"
  using issued_token_works [OF sample_digest_ok sample_issue_reached sample_issue_ends] by (simp add: sample_token_def)

theorem authenticate_sound_witness:
  "authenticate sample_digest ''darq_'' sample_revoke = UnknownCredential"
proof -
  have no: "\<not> starts_with ''darq_'' AGENT_PREFIX" "\<not> starts_with ''darq_'' OPERATOR_PREFIX"
    by (simp_all add: AGENT_PREFIX_def OPERATOR_PREFIX_def)
  show ?thesis
  proof (cases "authenticate sample_digest ''darq_'' sample_revoke")
    case UnknownCredential
    then show ?thesis .
  qed (use no authenticate_sound [where digest = sample_digest and presented = "''darq_''" and ts = sample_revoke] in simp_all)
qed


theorem operator_token_roundtrip_witness:
  "operator_digest sample_digest ''op'' (Err ''none'') (Ok ()) (Ok ())
     (OperatorFile 384 (Ok (OPERATOR_PREFIX @ base64url (replicate 32 7) @ [CHR 0x0A])))
   = Ok (sample_digest (OPERATOR_PREFIX @ base64url (replicate 32 7)), None)"
  by (rule operator_token_roundtrip [of _ _ "Ok (replicate 32 7)" "Ok ()" "Ok ()"])
     (simp_all add: operator_digest_def generate_secret_def fills_secret_def SECRET_BYTES_def list_all_iff)

end
