(* ===== verification/Event_Stream.thy ===== *)
theory Event_Stream
  imports Operations "HOL-Library.Sublist"
begin

text \<open>
  The event stream of operations: \<open>publish\<close> of \<open>crates/application/src/service/operations.rs\<close>, and
  \<open>operation_events\<close> with \<open>EventStream\<close> of \<open>service/ports.rs\<close>. The channel is tokio's broadcast
  channel as documented: a reader more than the backlog behind is told so once and goes on at the
  oldest event still held, and a closed channel is read to its end. \<open>ec_sent\<close> is everything that
  was ever sent.
\<close>

section \<open>The channel and its readers\<close>

definition EVENT_BACKLOG :: nat where "EVENT_BACKLOG = 256"

datatype operation_event = Update operation_snapshot | Missed

record event_channel =
  ec_sent :: "(principal \<times> operation_event) list"
  ec_open :: bool

record event_stream =
  es_viewer :: principal
  es_next :: nat

definition channel_new :: event_channel where "channel_new = \<lparr>ec_sent = [], ec_open = True\<rparr>"

definition publish :: "principal \<Rightarrow> operation_snapshot \<Rightarrow> event_channel \<Rightarrow> event_channel" where
  "publish owner sn ch = (if ec_open ch then ch\<lparr>ec_sent := ec_sent ch @ [(owner, Update sn)]\<rparr> else ch)"

definition end_streams :: "event_channel \<Rightarrow> event_channel" where
  "end_streams ch = ch\<lparr>ec_open := False\<rparr>"

definition operation_events :: "principal \<Rightarrow> event_channel \<Rightarrow> (event_stream, control_error) result" where
  "operation_events viewer ch =
     (if ec_open ch then Ok \<lparr>es_viewer = viewer, es_next = length (ec_sent ch)\<rparr>
      else Err (UnavailableError SHUT_DOWN))"

datatype received = Received "principal \<times> operation_event" | Lagged nat | ChannelClosed | NothingYet

text \<open>\<open>recv\<close> of the channel, at the position of one reader.\<close>

definition recv :: "event_channel \<Rightarrow> nat \<Rightarrow> received \<times> nat" where
  "recv ch n =
     (if n + EVENT_BACKLOG < length (ec_sent ch)
      then (Lagged (length (ec_sent ch) - EVENT_BACKLOG - n), length (ec_sent ch) - EVENT_BACKLOG)
      else if n < length (ec_sent ch) then (Received (ec_sent ch ! n), n + 1)
      else if ec_open ch then (NothingYet, n) else (ChannelClosed, n))"

definition sees :: "principal \<Rightarrow> principal \<times> operation_event \<Rightarrow> bool" where
  "sees viewer = (\<lambda>(owner, _). viewer = Operator \<or> owner = viewer)"

datatype next_event = Event operation_event | StreamEnd | Pending

text \<open>\<open>next\<close>: its loop goes on only past an event of someone else.\<close>

function next_from :: "event_channel \<Rightarrow> principal \<Rightarrow> nat \<Rightarrow> next_event \<times> nat" where
  "next_from ch viewer n =
     (case recv ch n of
        (Received (owner, event), n') \<Rightarrow>
          if sees viewer (owner, event) then (Event event, n') else next_from ch viewer n'
      | (Lagged _, n') \<Rightarrow> (Event Missed, n')
      | (ChannelClosed, n') \<Rightarrow> (StreamEnd, n')
      | (NothingYet, n') \<Rightarrow> (Pending, n'))"
  by pat_completeness auto
termination
  by (relation "measure (\<lambda>(ch, _, n). length (ec_sent ch) - n)") (auto simp: recv_def split: if_splits)

declare next_from.simps [simp del]

definition stream_next :: "event_channel \<Rightarrow> event_stream \<Rightarrow> next_event \<times> event_stream" where
  "stream_next ch es =
     (case next_from ch (es_viewer es) (es_next es) of (e, n) \<Rightarrow> (e, es\<lparr>es_next := n\<rparr>))"

section \<open>A reader while others publish\<close>

text \<open>\<open>out\<close> is what \<open>next\<close> has returned, oldest first.\<close>

inductive stream_step ::
  "event_channel \<times> event_stream \<times> operation_event list \<Rightarrow> event_channel \<times> event_stream \<times> operation_event list \<Rightarrow> bool" where
  publishes: "stream_step (ch, es, out) (publish owner sn ch, es, out)"
| closes: "stream_step (ch, es, out) (end_streams ch, es, out)"
| reads: "stream_next ch es = (Event e, es') \<Longrightarrow> stream_step (ch, es, out) (ch, es', out @ [e])"

definition visible_between :: "principal \<Rightarrow> nat \<Rightarrow> nat \<Rightarrow> event_channel \<Rightarrow> operation_event list" where
  "visible_between viewer a b ch = map snd (filter (sees viewer) (drop a (take b (ec_sent ch))))"

lemma visible_between_same: "visible_between v a a ch = []"
  by (simp add: visible_between_def)

lemma visible_between_Suc:
  assumes "a \<le> b" "b < length (ec_sent ch)"
  shows "visible_between v a (Suc b) ch
     = visible_between v a b ch @ (if sees v (ec_sent ch ! b) then [snd (ec_sent ch ! b)] else [])"
  using assms by (simp add: visible_between_def take_Suc_conv_app_nth)

lemma visible_between_publish:
  "b \<le> length (ec_sent ch) \<Longrightarrow> visible_between v a b (publish owner sn ch) = visible_between v a b ch"
  by (simp add: visible_between_def publish_def)

lemma visible_between_split:
  assumes "a \<le> b" "b \<le> c"
  shows "visible_between v a c ch = visible_between v a b ch @ visible_between v b c ch"
proof -
  have "take c (ec_sent ch) = take b (ec_sent ch) @ drop b (take c (ec_sent ch))"
    using append_take_drop_id [of b "take c (ec_sent ch)"] assms(2) by (simp add: min_absorb1)
  then have "drop a (take c (ec_sent ch)) = drop a (take b (ec_sent ch) @ drop b (take c (ec_sent ch)))" by simp
  also have "\<dots> = drop a (take b (ec_sent ch)) @ drop b (take c (ec_sent ch))"
    using assms(1) by (cases "b \<le> length (ec_sent ch)") simp_all
  finally show ?thesis by (simp add: visible_between_def)
qed

text \<open>Only updates are ever sent.\<close>

definition channel_ok :: "event_channel \<Rightarrow> bool" where
  "channel_ok ch = list_all (\<lambda>(_, e). e \<noteq> Missed) (ec_sent ch)"

lemma visible_between_updates: "channel_ok ch \<Longrightarrow> Missed \<notin> set (visible_between v a b ch)"
  by (auto simp: channel_ok_def visible_between_def list_all_iff dest!: in_set_dropD in_set_takeD)

text \<open>What one call of \<open>next\<close> returns, and where it leaves the reader.\<close>

lemma next_from_returns:
  assumes "next_from ch v n = (e, n')" "n \<le> length (ec_sent ch)"
  shows "n \<le> n' \<and> n' \<le> length (ec_sent ch)
    \<and> (if n + EVENT_BACKLOG < length (ec_sent ch) then e = Event Missed
       else case e of
         Event ev \<Rightarrow> visible_between v n n' ch = [ev]
       | StreamEnd \<Rightarrow> visible_between v n n' ch = [] \<and> n' = length (ec_sent ch) \<and> \<not> ec_open ch
       | Pending \<Rightarrow> visible_between v n n' ch = [] \<and> n' = length (ec_sent ch) \<and> ec_open ch)"
  using assms
proof (induction ch v n rule: next_from.induct)
  case (1 ch v n)
  consider (lag) "n + EVENT_BACKLOG < length (ec_sent ch)"
    | (event) "n < length (ec_sent ch)" "\<not> n + EVENT_BACKLOG < length (ec_sent ch)"
    | (over) "n = length (ec_sent ch)"
    using "1.prems"(2) by linarith
  then show ?case
  proof cases
    case event
    obtain owner ev where at: "ec_sent ch ! n = (owner, ev)" by fastforce
    then have got: "recv ch n = (Received (owner, ev), Suc n)" using event by (simp add: recv_def)
    show ?thesis
    proof (cases "sees v (owner, ev)")
      case True
      with got "1.prems"(1) have "e = Event ev" "n' = Suc n" by (simp_all add: next_from.simps [of ch v n])
      with event at True show ?thesis by (simp add: visible_between_Suc visible_between_same)
    next
      case False
      with got "1.prems"(1) have "next_from ch v (Suc n) = (e, n')" by (simp add: next_from.simps [of ch v n])
      with "1.IH" [OF got [symmetric] refl refl False] event(1)
      have later: "Suc n \<le> n' \<and> n' \<le> length (ec_sent ch)
          \<and> (case e of
               Event ev \<Rightarrow> visible_between v (Suc n) n' ch = [ev]
             | StreamEnd \<Rightarrow> visible_between v (Suc n) n' ch = [] \<and> n' = length (ec_sent ch) \<and> \<not> ec_open ch
             | Pending \<Rightarrow> visible_between v (Suc n) n' ch = [] \<and> n' = length (ec_sent ch) \<and> ec_open ch)"
        using event(2) by (auto split: if_splits)
      moreover have "visible_between v n n' ch = visible_between v (Suc n) n' ch"
        using visible_between_split [of n "Suc n" n' v ch] later event(1) at False
        by (simp add: visible_between_Suc visible_between_same)
      ultimately show ?thesis using event(2) by (auto split: next_event.splits)
    qed
  next
    case lag
    with "1.prems" show ?thesis by (auto simp: next_from.simps [of ch v n] recv_def)
  next
    case over
    with "1.prems" show ?thesis
      by (auto simp: next_from.simps [of ch v "length (ec_sent ch)"] recv_def visible_between_same split: if_splits)
  qed
qed

section \<open>What a reader has been told\<close>

definition told :: "nat \<Rightarrow> event_channel \<times> event_stream \<times> operation_event list \<Rightarrow> bool" where
  "told start = (\<lambda>(ch, es, out).
     channel_ok ch \<and> start \<le> es_next es \<and> es_next es \<le> length (ec_sent ch)
     \<and> subseq (filter (\<lambda>e. e \<noteq> Missed) out) (visible_between (es_viewer es) start (es_next es) ch)
     \<and> (Missed \<notin> set out \<longrightarrow> out = visible_between (es_viewer es) start (es_next es) ch))"

lemma told_step:
  assumes "stream_step c c'" "told start c"
  shows "told start c'"
  using assms
proof cases
  case (publishes ch es out owner sn)
  have "channel_ok (publish owner sn ch)" if "channel_ok ch" using that by (simp add: channel_ok_def publish_def)
  moreover have "length (ec_sent ch) \<le> length (ec_sent (publish owner sn ch))" by (simp add: publish_def)
  ultimately show ?thesis using publishes assms(2) by (auto simp: told_def visible_between_publish)
next
  case (closes ch es out)
  with assms(2) show ?thesis by (simp add: told_def end_streams_def channel_ok_def visible_between_def)
next
  case (reads ch es e es' out)
  then obtain n' where n': "next_from ch (es_viewer es) (es_next es) = (Event e, n')" "es' = es\<lparr>es_next := n'\<rparr>"
    by (auto simp: stream_next_def split: prod.splits)
  from reads assms(2) have now: "channel_ok ch" "start \<le> es_next es" "es_next es \<le> length (ec_sent ch)"
      "subseq (filter (\<lambda>e. e \<noteq> Missed) out) (visible_between (es_viewer es) start (es_next es) ch)"
      "Missed \<notin> set out \<Longrightarrow> out = visible_between (es_viewer es) start (es_next es) ch"
    by (simp_all add: told_def)
  from next_from_returns [OF n'(1) now(3)] have bounds: "es_next es \<le> n'" "n' \<le> length (ec_sent ch)"
    and what: "e = Missed \<or> visible_between (es_viewer es) (es_next es) n' ch = [e]" by (auto split: if_splits)
  have split: "visible_between (es_viewer es) start n' ch
      = visible_between (es_viewer es) start (es_next es) ch @ visible_between (es_viewer es) (es_next es) n' ch"
    using now(2) bounds(1) by (rule visible_between_split)
  show ?thesis
  proof (cases "e = Missed")
    case True
    with reads n' now bounds split show ?thesis
      by (auto simp: told_def intro: subseq_order.trans [OF _ list_emb_append2] subseq_rev_drop_many)
  next
    case False
    with what have "visible_between (es_viewer es) (es_next es) n' ch = [e]" by simp
    with reads n' now bounds split False show ?thesis by (auto simp: told_def intro!: list_emb_append_mono)
  qed
qed

lemma told_steps: "stream_step\<^sup>*\<^sup>* c c' \<Longrightarrow> told start c \<Longrightarrow> told start c'"
  by (induction rule: rtranclp_induct) (auto intro: told_step)

lemma viewer_kept: "stream_step\<^sup>*\<^sup>* c c' \<Longrightarrow> es_viewer (fst (snd c')) = es_viewer (fst (snd c))"
  by (induction rule: rtranclp_induct) (auto elim!: stream_step.cases simp: stream_next_def split: prod.splits)

section \<open>The property\<close>

text \<open>
  C21. The event stream is faithful: whatever is published and whenever its reader reads, what a reader
  has been told is a subsequence, in order, of the events it may see since it subscribed, all of
  them if it was never told that it missed some; and an agent is only told of its own operations.
\<close>

theorem events_faithful:
  assumes "channel_ok ch" "operation_events viewer ch = Ok es" "stream_step\<^sup>*\<^sup>* (ch, es, []) (ch', es', out)"
  shows "subseq (filter (\<lambda>e. e \<noteq> Missed) out) (visible_between viewer (es_next es) (es_next es') ch')
    \<and> (Missed \<notin> set out \<longrightarrow> out = visible_between viewer (es_next es) (es_next es') ch')
    \<and> (\<forall>sn. Update sn \<in> set out \<longrightarrow>
         (\<exists>owner. (owner, Update sn) \<in> set (ec_sent ch') \<and> (viewer = Operator \<or> owner = viewer)))"
proof -
  have es: "es = \<lparr>es_viewer = viewer, es_next = length (ec_sent ch)\<rparr>"
    using assms(2) by (simp add: operation_events_def split: if_splits)
  have "told (es_next es) (ch, es, [])" using assms(1) es by (simp add: told_def visible_between_same)
  from told_steps [OF assms(3) this] viewer_kept [OF assms(3)] es
  have t: "subseq (filter (\<lambda>e. e \<noteq> Missed) out) (visible_between viewer (es_next es) (es_next es') ch')"
      "Missed \<notin> set out \<longrightarrow> out = visible_between viewer (es_next es) (es_next es') ch'"
    by (simp_all add: told_def)
  have "\<exists>owner. (owner, Update sn) \<in> set (ec_sent ch') \<and> (viewer = Operator \<or> owner = viewer)" if "Update sn \<in> set out" for sn
  proof -
    from that t(1) have "Update sn \<in> set (visible_between viewer (es_next es) (es_next es') ch')"
      by (auto dest: list_emb_set [where P = "(=)"])
    then show ?thesis by (auto simp: visible_between_def sees_def dest!: in_set_dropD in_set_takeD)
  qed
  with t show ?thesis by blast
qed

definition example_event :: "nat \<Rightarrow> operation_snapshot" where
  "example_event n =
     \<lparr>sn_id = of_nat n, sn_receiver = ReceiverId ''den'', sn_intent = ISystemPower SystemOn, sn_status = Submitted,
      sn_dispatch = NotDispatched, sn_confirmed = False, sn_reason = None, sn_observation = None\<rparr>"

definition example_channel :: event_channel where
  "example_channel = publish (Agent (AgentLabel ''kitchen'')) (example_event 2) (publish Operator (example_event 1) channel_new)"

theorem events_faithful_witness:
  "stream_step\<^sup>*\<^sup>* (channel_new, \<lparr>es_viewer = Agent (AgentLabel ''kitchen''), es_next = 0\<rparr>, [])
     (example_channel, \<lparr>es_viewer = Agent (AgentLabel ''kitchen''), es_next = 2\<rparr>, [Update (example_event 2)])
   \<and> visible_between (Agent (AgentLabel ''kitchen'')) 0 2 example_channel = [Update (example_event 2)]"
proof -
  let ?es = "\<lparr>es_viewer = Agent (AgentLabel ''kitchen''), es_next = 0\<rparr>"
  let ?es' = "\<lparr>es_viewer = Agent (AgentLabel ''kitchen''), es_next = 2\<rparr>"
  have "stream_step (channel_new, ?es, []) (publish Operator (example_event 1) channel_new, ?es, [])" by (rule publishes)
  moreover have "stream_step (publish Operator (example_event 1) channel_new, ?es, []) (example_channel, ?es, [])"
    unfolding example_channel_def by (rule publishes)
  moreover have "stream_step (example_channel, ?es, []) (example_channel, ?es', [] @ [Update (example_event 2)])"
    by (rule reads)
       (simp add: stream_next_def example_channel_def channel_new_def publish_def recv_def EVENT_BACKLOG_def sees_def
         next_from.simps [of _ _ 0] next_from.simps [of _ _ "Suc 0"] numeral_2_eq_2)
  ultimately have run: "stream_step\<^sup>*\<^sup>* (channel_new, ?es, []) (example_channel, ?es', [Update (example_event 2)])"
    by (auto intro: rtranclp.rtrancl_into_rtrancl)
  moreover have "visible_between (Agent (AgentLabel ''kitchen'')) 0 2 example_channel = [Update (example_event 2)]"
    using events_faithful [OF _ _ run, of "Agent (AgentLabel ''kitchen'')"]
    by (simp add: operation_events_def channel_new_def channel_ok_def)
  ultimately show ?thesis by blast
qed

end
