(* ===== verification/Service_Ports.thy ===== *)
theory Service_Ports
  imports Service Connections Token_Store Event_Stream Capabilities
begin

text \<open>
  The control port as a handle serves it, \<open>crates/application/src/service/ports.rs\<close> and the
  handles of \<open>service.rs\<close>: what each principal may call, what it is told, and how receivers,
  tokens and dry runs are reached. A call into the repository, the connector or a session is an
  argument holding its answer; a call that writes tokens is cut where the token store is.
\<close>

section \<open>What a handle may do\<close>

text \<open>\<open>ControlService::handle\<close>: an agent is refused by a service with no agent path.\<close>

definition handle :: "principal \<Rightarrow> service \<Rightarrow> (principal, control_error) result" where
  "handle p sv =
     (case p of
        Agent _ \<Rightarrow> if sv_agent sv = None then Err Forbidden else Ok p
      | Operator \<Rightarrow> Ok p)"

definition require_operator :: "principal \<Rightarrow> (unit, control_error) result" where
  "require_operator p = (case p of Operator \<Rightarrow> Ok () | Agent _ \<Rightarrow> Err Forbidden)"

definition sanitized :: "principal \<Rightarrow> control_error \<Rightarrow> control_error" where
  "sanitized p e =
     (if p = Operator then e
      else case e of
        UnavailableError message \<Rightarrow>
          if message \<noteq> SHUT_DOWN then UnavailableError RECEIVER_UNREACHABLE else UnavailableError message
      | ReceiverError err \<Rightarrow>
          ReceiverError \<lparr>oe_kind = oe_kind err, oe_context = oe_context err,
            oe_message = ''the receiver could not complete the request''\<rparr>
      | other \<Rightarrow> other)"

definition visible_receiver :: "principal \<Rightarrow> receiver_id \<Rightarrow> (unit, control_error) result" where
  "visible_receiver p r = (if is_ad_hoc r \<and> p \<noteq> Operator then Err (NotFound ''receiver'') else Ok ())"

definition sanitized_result :: "principal \<Rightarrow> ('a, control_error) result \<Rightarrow> ('a, control_error) result" where
  "sanitized_result p res = (case res of Ok v \<Rightarrow> Ok v | Err e \<Rightarrow> Err (sanitized p e))"

definition no_agent_path :: control_error where
  "no_agent_path = UnavailableError ''this service has no policy, audit log, or agent path''"

definition no_token_store :: control_error where
  "no_token_store = UnavailableError ''this service has no token store''"

fun token_control_error :: "token_error \<Rightarrow> control_error" where
  "token_control_error InvalidLabel = InvalidRequest (token_error_fmt InvalidLabel)"
| "token_control_error LabelInUse = InvalidRequest (token_error_fmt LabelInUse)"
| "token_control_error TokenNotFound = NotFound ''token''"
| "token_control_error (TokenStorage why) = UnavailableError ''the token store could not be read or written''"

section \<open>Reading receivers\<close>

record receiver_capabilities =
  rc_writable :: bool
  rc_zone2_power :: bool
  rc_source_catalog_read :: bool
  rc_inputs :: "string list"
  rc_surround_modes :: "string list"

definition capabilities_of :: "model_capabilities \<Rightarrow> receiver_capabilities" where
  "capabilities_of c =
     \<lparr>rc_writable = cap_writable c, rc_zone2_power = cap_zone2_power c, rc_source_catalog_read = cap_source_catalog_read c,
      rc_inputs = cap_inputs c, rc_surround_modes = cap_surround_modes c\<rparr>"

record receiver_summary =
  su_id :: receiver_id
  su_model :: "string option"
  su_capabilities :: receiver_capabilities
  su_connection :: connection_status

definition connection_of :: "pool \<Rightarrow> receiver_id \<Rightarrow> connection_status" where
  "connection_of pl r = (case cp_slots pl r of Some sl \<Rightarrow> sl_status sl | None \<Rightarrow> Released)"

text \<open>An entry whose name is no receiver id is passed over.\<close>

definition summary_of :: "pool \<Rightarrow> string \<times> receiver_identity \<Rightarrow> receiver_summary option" where
  "summary_of pl = (\<lambda>(name, identity).
     case receiver_id_new name of
       Err _ \<Rightarrow> None
     | Ok i \<Rightarrow> Some
         \<lparr>su_id = i, su_model = ri_model identity,
          su_capabilities = capabilities_of (for_model (model_from_reported (case ri_model identity of Some m \<Rightarrow> m | None \<Rightarrow> []))),
          su_connection = connection_of pl i\<rparr>)"

definition receivers ::
  "principal \<Rightarrow> (configured_receivers, operation_error) result \<Rightarrow> pool \<Rightarrow> (receiver_summary list, control_error) result" where
  "receivers p loaded pl =
     (case loaded of
        Err e \<Rightarrow> Err (sanitized p (ReceiverError e))
      | Ok c \<Rightarrow> Ok (List.map_filter (summary_of pl) (cr_receivers c)))"

text \<open>\<open>state\<close> and \<open>source_catalog\<close>: \<open>leased\<close> is the answer of the lease, a session.\<close>

definition read_state :: "principal \<Rightarrow> receiver_id \<Rightarrow> (nat, control_error) result \<Rightarrow> (nat, control_error) result" where
  "read_state p r leased =
     (case visible_receiver p r of Err e \<Rightarrow> Err e | Ok _ \<Rightarrow> sanitized_result p leased)"

definition read_catalog ::
  "principal \<Rightarrow> receiver_id \<Rightarrow> (nat, control_error) result \<Rightarrow> (nat \<Rightarrow> ('c, operation_error) result) \<Rightarrow> ('c, control_error) result" where
  "read_catalog p r leased ask =
     (case visible_receiver p r of Err e \<Rightarrow> Err e
      | Ok _ \<Rightarrow>
          (case leased of Err e \<Rightarrow> Err (sanitized p e)
           | Ok session \<Rightarrow>
               (case ask session of Err e \<Rightarrow> Err (sanitized p (ReceiverError e)) | Ok catalog \<Rightarrow> Ok catalog)))"

definition service_health_of :: "service \<Rightarrow> service_health" where
  "service_health_of sv =
     (case sv_agent sv of
        Some ag \<Rightarrow> health ag
      | None \<Rightarrow> \<lparr>sh_policy = PolicyNotConfigured, sh_audit = AuditNotConfigured, sh_ledger_ready = False,
                 sh_approval = ApprovalPathUnavailable\<rparr>)"

section \<open>Operations\<close>

text \<open>\<open>identified\<close> is the answer of \<open>identity\<close>. A new operation is published before its task runs.\<close>

definition port_submit ::
  "nat \<Rightarrow> instant \<Rightarrow> principal \<Rightarrow> receiver_id \<Rightarrow> (receiver_identity, control_error) result \<Rightarrow> operation_submission
     \<Rightarrow> service \<times> event_channel \<Rightarrow> admit_result \<times> service \<times> event_channel" where
  "port_submit retained tick p r identified sub = (\<lambda>(sv, ch).
     case visible_receiver p r of Err e \<Rightarrow> (Admit (Err e), sv, ch)
   | Ok _ \<Rightarrow>
       (case identified of Err e \<Rightarrow> (Admit (Err (sanitized p e)), sv, ch)
        | Ok _ \<Rightarrow>
            (case submit retained tick p r sub sv of
               (res, sv') \<Rightarrow>
                 (res, sv', case res of Admit (Ok (New sn)) \<Rightarrow> publish p sn ch | _ \<Rightarrow> ch))))"

text \<open>
  \<open>operation\<close>: a wait is bounded by the service's own limit, and returns what the watched value is
  when it ends.
\<close>

definition operation_wait :: "duration \<Rightarrow> duration option \<Rightarrow> operation_snapshot \<Rightarrow> duration option" where
  "operation_wait longest wait current =
     (case wait of Some w \<Rightarrow> if is_terminal (sn_status current) then None else Some (min w longest) | None \<Rightarrow> None)"

definition read_operation ::
  "principal \<Rightarrow> operation_id \<Rightarrow> duration \<Rightarrow> duration option \<Rightarrow> (duration \<Rightarrow> operation_snapshot) \<Rightarrow> service
     \<Rightarrow> (operation_snapshot, control_error) result" where
  "read_operation p i longest wait later sv =
     (case watch_operation p i (sv_ops sv) of
        Err e \<Rightarrow> Err e
      | Ok current \<Rightarrow>
          (case operation_wait longest wait current of None \<Rightarrow> Ok current | Some w \<Rightarrow> Ok (later w)))"

text \<open>\<open>latest\<close> is the state of the leased session.\<close>

definition port_dry_run ::
  "instant \<Rightarrow> wall_time \<Rightarrow> audit_record list option \<Rightarrow> (receiver_state, control_error) result \<Rightarrow> wall_time
     \<Rightarrow> principal \<Rightarrow> receiver_id \<Rightarrow> (receiver_identity, control_error) result \<Rightarrow> receiver_intent \<Rightarrow> service
     \<Rightarrow> (dry_run, control_error) result \<times> service" where
  "port_dry_run tick now history latest judged_at p r identified intent sv =
     (case visible_receiver p r of Err e \<Rightarrow> (Err e, sv)
      | Ok _ \<Rightarrow>
          (case identified of Err e \<Rightarrow> (Err (sanitized p e), sv)
           | Ok _ \<Rightarrow>
               (case p of
                  Operator \<Rightarrow>
                    (Ok \<lparr>dr_decision = DryAllow, dr_policy = Option.bind (sv_agent sv) policy_digest_of\<rparr>, sv)
                | Agent label \<Rightarrow>
                    (case charge_dry_run tick label sv of
                       (Err e, sv1) \<Rightarrow> (Err e, sv1)
                     | (Ok _, sv1) \<Rightarrow>
                         (case sv_agent sv1 of
                            None \<Rightarrow> (Err Forbidden, sv1)
                          | Some ag \<Rightarrow>
                              (case dry_run_of now history latest judged_at (agent_label_str label) r intent False ag of
                                 (res, ag') \<Rightarrow> (sanitized_result p res, sv1\<lparr>sv_agent := Some ag'\<rparr>)))))))"

section \<open>Administration\<close>

text \<open>The calls that only pass an answer on, for the Operator.\<close>

definition operator_only :: "principal \<Rightarrow> ('a, control_error) result \<Rightarrow> ('a, control_error) result" where
  "operator_only p answer = (case require_operator p of Err e \<Rightarrow> Err e | Ok _ \<Rightarrow> answer)"

definition receiver_answer :: "('a, operation_error) result \<Rightarrow> ('a, control_error) result" where
  "receiver_answer answer = (case answer of Err e \<Rightarrow> Err (ReceiverError e) | Ok v \<Rightarrow> Ok v)"

definition admin_discover ::
  "principal \<Rightarrow> (discovered_receiver list, operation_error) result \<Rightarrow> (discovered_receiver list, control_error) result" where
  "admin_discover p answer = operator_only p (receiver_answer answer)"

definition admin_configuration ::
  "principal \<Rightarrow> (configured_receivers, operation_error) result \<Rightarrow> (configured_receivers, control_error) result" where
  "admin_configuration p answer = operator_only p (receiver_answer answer)"

text \<open>\<open>quick_select_names\<close>, \<open>http_information\<close> and \<open>refresh\<close>: a lease, then one question to its session.\<close>

definition admin_ask ::
  "principal \<Rightarrow> (nat, control_error) result \<Rightarrow> (nat \<Rightarrow> ('a, operation_error) result) \<Rightarrow> ('a, control_error) result" where
  "admin_ask p leased ask =
     operator_only p (case leased of Err e \<Rightarrow> Err e | Ok session \<Rightarrow> receiver_answer (ask session))"

definition receiver_id_of :: "string option \<Rightarrow> receiver_identity \<Rightarrow> (receiver_id, operation_error) result" where
  "receiver_id_of name identity =
     (case (case name of Some n \<Rightarrow> receiver_id_new n | None \<Rightarrow> receiver_id_ad_hoc (ri_host identity)) of
        Err e \<Rightarrow> Err \<lparr>oe_kind = ErrInvalidSelection, oe_context = ''receiver identity'', oe_message = e\<rparr>
      | Ok i \<Rightarrow> Ok i)"

definition register_ad_hoc ::
  "principal \<Rightarrow> receiver_identity \<Rightarrow> pool \<Rightarrow> (receiver_id, control_error) result \<times> pool" where
  "register_ad_hoc p identity pl =
     (case require_operator p of Err e \<Rightarrow> (Err e, pl)
      | Ok _ \<Rightarrow>
          (case receiver_id_of None identity of
             Err e \<Rightarrow> (Err (InvalidRequest (oe_message e)), pl)
           | Ok i \<Rightarrow> (Ok i, pl\<lparr>cp_ad_hoc := (cp_ad_hoc pl)(i \<mapsto> identity)\<rparr>)))"

definition admin_save ::
  "principal \<Rightarrow> configured_receivers \<Rightarrow> (unit, operation_error) result \<Rightarrow> pool \<Rightarrow> (unit, control_error) result \<times> pool" where
  "admin_save p c answer pl =
     (case require_operator p of Err e \<Rightarrow> (Err e, pl) | Ok _ \<Rightarrow> save_configuration c answer pl)"

definition admin_dry_run_as ::
  "wall_time \<Rightarrow> audit_record list option \<Rightarrow> (receiver_state, control_error) result \<Rightarrow> wall_time
     \<Rightarrow> principal \<Rightarrow> agent_label \<Rightarrow> receiver_id \<Rightarrow> (receiver_identity, control_error) result \<Rightarrow> receiver_intent
     \<Rightarrow> service \<Rightarrow> (dry_run, control_error) result \<times> service" where
  "admin_dry_run_as now history latest judged_at p label r identified intent sv =
     (case require_operator p of Err e \<Rightarrow> (Err e, sv)
      | Ok _ \<Rightarrow>
          (case sv_agent sv of None \<Rightarrow> (Err no_agent_path, sv)
           | Some ag \<Rightarrow>
               (case identified of Err e \<Rightarrow> (Err e, sv)
                | Ok _ \<Rightarrow>
                    (case dry_run_of now history latest judged_at (agent_label_str label) r intent True ag of
                       (res, ag') \<Rightarrow> (res, sv\<lparr>sv_agent := Some ag'\<rparr>)))))"

definition admin_policy :: "principal \<Rightarrow> service \<Rightarrow> (policy_view, control_error) result" where
  "admin_policy p sv =
     operator_only p (case sv_agent sv of None \<Rightarrow> Err no_agent_path | Some ag \<Rightarrow> Ok (policy_view_of ag))"

definition admin_reload ::
  "wall_time \<Rightarrow> (loaded_policy, policy_load_error) result \<Rightarrow> wall_time \<Rightarrow> bool \<Rightarrow> principal \<Rightarrow> service
     \<Rightarrow> (policy_view, control_error) result \<times> service" where
  "admin_reload now read recorded_at answered p sv =
     (case require_operator p of Err e \<Rightarrow> (Err e, sv)
      | Ok _ \<Rightarrow>
          (case sv_agent sv of None \<Rightarrow> (Err no_agent_path, sv)
           | Some ag \<Rightarrow>
               (case load_policy now read recorded_at answered ag of
                  (shown, ag') \<Rightarrow> (Ok shown, sv\<lparr>sv_agent := Some ag'\<rparr>))))"

text \<open>\<open>audit\<close>: the answer of the log, or none in time.\<close>

definition admin_audit ::
  "principal \<Rightarrow> ('page, string) result option \<Rightarrow> service \<Rightarrow> ('page, control_error) result" where
  "admin_audit p answer sv =
     operator_only p
       (case sv_agent sv of None \<Rightarrow> Err no_agent_path
        | Some _ \<Rightarrow>
            (case answer of
               Some (Ok page) \<Rightarrow> Ok page
             | Some (Err _) \<Rightarrow> Err (UnavailableError ''the audit log cannot be read'')
             | None \<Rightarrow> Err (UnavailableError ''the audit log did not answer'')))"

section \<open>Administration of tokens\<close>

text \<open>
  A service with tokens: the store of the agent path, if it has one, beside the service. Issuing
  and revoking begin with the store's own first part; \<open>Ok None\<close> is a write under way.
\<close>

record token_port =
  tp_service :: service
  tp_store :: "token_store option"

definition admin_store :: "principal \<Rightarrow> token_port \<Rightarrow> (agent_state \<times> token_store, control_error) result" where
  "admin_store p tp =
     operator_only p
       (case sv_agent (tp_service tp) of None \<Rightarrow> Err no_agent_path
        | Some ag \<Rightarrow> (case tp_store tp of None \<Rightarrow> Err no_token_store | Some ts \<Rightarrow> Ok (ag, ts)))"

definition record_token :: "wall_time \<Rightarrow> bool \<Rightarrow> audit_event \<Rightarrow> token_port \<Rightarrow> token_port" where
  "record_token now answered event tp =
     tp\<lparr>tp_service := (tp_service tp)\<lparr>sv_agent := map_option (record_token_event now answered event) (sv_agent (tp_service tp))\<rparr>\<rparr>"

definition begin_issue_token ::
  "(string \<Rightarrow> nat list) \<Rightarrow> wall_time \<Rightarrow> (nat list, string) result \<Rightarrow> (nat list, string) result list
     \<Rightarrow> principal \<Rightarrow> agent_label \<Rightarrow> token_port \<Rightarrow> (unit, control_error) result \<times> token_port" where
  "begin_issue_token digest now random draws p label tp =
     (case admin_store p tp of Err e \<Rightarrow> (Err e, tp)
      | Ok (_, ts) \<Rightarrow>
          if \<not> label_is_well_formed (agent_label_str label)
          then (Err (InvalidRequest (''a token label is lowercase letters, digits, '' @ [CHR 0x27] @ ''.'' @ [CHR 0x27] @ '', ''
                 @ [CHR 0x27] @ ''_'' @ [CHR 0x27] @ '' and '' @ [CHR 0x27] @ ''-'' @ [CHR 0x27]
                 @ '', starting with a letter or digit'')), tp)
          else case begin_issue digest label now random draws ts of
                 (Err e, ts') \<Rightarrow> (Err (token_control_error e), tp\<lparr>tp_store := Some ts'\<rparr>)
               | (Ok _, ts') \<Rightarrow> (Ok (), tp\<lparr>tp_store := Some ts'\<rparr>))"

text \<open>
  \<open>was_active\<close> is what \<open>is_active\<close> said before the store was asked, and decides whether the end is
  recorded; another revocation may come in between.
\<close>

definition begin_revoke_token ::
  "wall_time \<Rightarrow> wall_time \<Rightarrow> bool \<Rightarrow> bool \<Rightarrow> principal \<Rightarrow> token_id \<Rightarrow> token_port
     \<Rightarrow> (token_record option, control_error) result \<times> token_port" where
  "begin_revoke_token now recorded_at answered was_active p i tp =
     (case admin_store p tp of Err e \<Rightarrow> (Err e, tp)
      | Ok (_, ts) \<Rightarrow>
          (case begin_revoke i now ts of
             (Err e, ts') \<Rightarrow> (Err (token_control_error e), tp\<lparr>tp_store := Some ts'\<rparr>)
           | (Ok None, ts') \<Rightarrow> (Ok None, tp\<lparr>tp_store := Some ts'\<rparr>)
           | (Ok (Some r), ts') \<Rightarrow>
               (Ok (Some r),
                (if was_active then record_token recorded_at answered (TokenRevoked (tr_id r) (tr_label r)) (tp\<lparr>tp_store := Some ts'\<rparr>)
                 else tp\<lparr>tp_store := Some ts'\<rparr>))))"

text \<open>The write has answered: what was done is recorded, and the caller is told.\<close>

definition end_token_write ::
  "(unit, string) result \<Rightarrow> wall_time \<Rightarrow> bool \<Rightarrow> bool \<Rightarrow> token_port \<Rightarrow> (finished, control_error) result option \<times> token_port" where
  "end_token_write answer now answered was_active tp =
     (case tp_store tp of None \<Rightarrow> (None, tp)
      | Some ts \<Rightarrow>
          (case end_write answer ts of
             (None, ts') \<Rightarrow> (None, tp\<lparr>tp_store := Some ts'\<rparr>)
           | (Some (Err e), ts') \<Rightarrow> (Some (Err (token_control_error e)), tp\<lparr>tp_store := Some ts'\<rparr>)
           | (Some (Ok (Issued t)), ts') \<Rightarrow>
               (Some (Ok (Issued t)),
                record_token now answered (TokenIssued (tr_id (it_record t)) (tr_label (it_record t))) (tp\<lparr>tp_store := Some ts'\<rparr>))
           | (Some (Ok (Revoked r)), ts') \<Rightarrow>
               (Some (Ok (Revoked r)),
                (if was_active then record_token now answered (TokenRevoked (tr_id r) (tr_label r)) (tp\<lparr>tp_store := Some ts'\<rparr>)
                 else tp\<lparr>tp_store := Some ts'\<rparr>))))"

definition admin_tokens :: "principal \<Rightarrow> token_port \<Rightarrow> (token_record list, control_error) result" where
  "admin_tokens p tp = (case admin_store p tp of Err e \<Rightarrow> Err e | Ok (_, ts) \<Rightarrow> Ok (list_tokens ts))"

end
