(* ===== verification/Port_Properties.thy ===== *)
theory Port_Properties
  imports Service_Ports
begin

text \<open>
  What the control port promises of a handle: an agent's answers do not depend on where a receiver
  is or on the text of an outside error, receivers chosen by address do not exist for it, a dry
  run changes nothing but its allowance, and every change of a token is on record.
\<close>

section \<open>What an agent cannot tell apart\<close>

text \<open>
  What is kept of an error: its kind, with the text only where it is the service's own. Two
  answers are alike for an agent when they keep the same, and two configurations when they name
  the same receivers with the same models.
\<close>

definition kept_of :: "control_error \<Rightarrow> control_error" where
  "kept_of e =
     (case e of
        UnavailableError m \<Rightarrow> UnavailableError (if m = SHUT_DOWN then m else [])
      | ReceiverError err \<Rightarrow> ReceiverError \<lparr>oe_kind = oe_kind err, oe_context = oe_context err, oe_message = []\<rparr>
      | other \<Rightarrow> other)"

definition alike :: "('a \<Rightarrow> 'b) \<Rightarrow> ('a, control_error) result \<Rightarrow> ('a, control_error) result \<Rightarrow> bool" where
  "alike f a b =
     (case a of
        Ok x \<Rightarrow> (case b of Ok y \<Rightarrow> f x = f y | Err _ \<Rightarrow> False)
      | Err e \<Rightarrow> (case b of Ok _ \<Rightarrow> False | Err e' \<Rightarrow> kept_of e = kept_of e'))"

definition hide_hosts :: "configured_receivers \<Rightarrow> (string \<times> string option) list" where
  "hide_hosts c = map (\<lambda>(name, identity). (name, ri_model identity)) (cr_receivers c)"

definition hide_identity :: "receiver_identity \<Rightarrow> unit" where "hide_identity _ = ()"

lemma sanitized_kept: "p \<noteq> Operator \<Longrightarrow> kept_of e = kept_of e' \<Longrightarrow> sanitized p e = sanitized p e'"
  by (cases e; cases e') (auto simp: sanitized_def kept_of_def RECEIVER_UNREACHABLE_def SHUT_DOWN_def split: if_splits)

lemma sanitized_result_alike: "p \<noteq> Operator \<Longrightarrow> alike id a b \<Longrightarrow> sanitized_result p a = sanitized_result p b"
  by (cases a; cases b) (auto simp: alike_def sanitized_result_def intro: sanitized_kept)

lemma summary_of_hidden:
  "ri_model i = ri_model i' \<Longrightarrow> summary_of pl (name, i) = summary_of pl (name, i')"
  by (simp add: summary_of_def split: sum.split)

lemma summaries_hidden:
  assumes "map (\<lambda>(name, identity). (name, ri_model identity)) xs = map (\<lambda>(name, identity). (name, ri_model identity)) ys"
  shows "List.map_filter (summary_of pl) xs = List.map_filter (summary_of pl) ys"
  using assms
proof (induction xs arbitrary: ys)
  case (Cons x xs)
  then obtain y zs where ys: "ys = y # zs" by (cases ys) auto
  have same: "summary_of pl x = summary_of pl y" using Cons.prems ys by (cases x; cases y) (auto intro: summary_of_hidden)
  have rest: "List.map_filter (summary_of pl) xs = List.map_filter (summary_of pl) zs" using Cons.prems ys by (intro Cons.IH) simp
  show ?case unfolding ys List.map_filter_simps same rest ..
qed (simp add: List.map_filter_simps)

text \<open>A dry run answers with the error of its lease, or without one.\<close>

lemma dry_run_of_lease:
  assumes "alike id latest latest'" "p \<noteq> Operator"
  shows "sanitized_result p (fst (dry_run_of now history latest judged_at label r intent rules ag))
       = sanitized_result p (fst (dry_run_of now history latest' judged_at label r intent rules ag))
    \<and> snd (dry_run_of now history latest judged_at label r intent rules ag)
       = snd (dry_run_of now history latest' judged_at label r intent rules ag)"
proof (cases "precheck now history ag")
  case (Pair res ag1)
  show ?thesis
  proof (cases res)
    case (Inl why)
    with Pair show ?thesis by (simp add: dry_run_of_def)
  next
    case (Inr u)
    show ?thesis
    proof (cases latest)
      case (Inl e)
      then obtain e' where e': "latest' = Err e'" "kept_of e = kept_of e'"
        using assms(1) by (cases latest') (auto simp: alike_def)
      with Inl Inr Pair sanitized_kept [OF assms(2) e'(2)] show ?thesis by (simp add: dry_run_of_def sanitized_result_def)
    next
      case (Inr st)
      with assms(1) have "latest' = latest" by (cases latest') (auto simp: alike_def)
      then show ?thesis by simp
    qed
  qed
qed

section \<open>Properties\<close>

text \<open>
  C19. Two services that differ only in where receivers are and in the text of what the repository, the
  connector and the sessions answer look the same to an agent: the receivers it is shown, every
  read, every submission with all its effects and every dry run give equal answers.
\<close>

theorem agent_learns_no_address:
  assumes "p \<noteq> Operator"
    and "alike hide_hosts (receiver_answer loaded) (receiver_answer loaded')"
    and "alike id leased leased'"
    and "\<forall>session. alike id (receiver_answer (ask session)) (receiver_answer (ask' session))"
    and "alike hide_identity identified identified'"
    and "alike id latest latest'"
  shows "receivers p loaded pl = receivers p loaded' pl
    \<and> read_state p r leased = read_state p r leased'
    \<and> read_catalog p r leased ask = read_catalog p r leased' ask'
    \<and> port_submit retained tick p r identified sub svch = port_submit retained tick p r identified' sub svch
    \<and> port_dry_run tick now history latest judged_at p r identified intent sv
        = port_dry_run tick now history latest' judged_at p r identified' intent sv"
proof (intro conjI)
  show "receivers p loaded pl = receivers p loaded' pl"
    using assms(1,2)
    by (cases loaded; cases loaded')
       (auto simp: receivers_def alike_def receiver_answer_def hide_hosts_def intro: sanitized_kept summaries_hidden)
  show "read_state p r leased = read_state p r leased'"
    using sanitized_result_alike [OF assms(1,3)] by (simp add: read_state_def split: sum.split)
  show "read_catalog p r leased ask = read_catalog p r leased' ask'"
  proof (cases leased)
    case (Inl e)
    with assms(3) obtain e' where e': "leased' = Err e'" "kept_of e = kept_of e'" by (cases leased') (auto simp: alike_def)
    with Inl sanitized_kept [OF assms(1) e'(2)] show ?thesis by (cases "visible_receiver p r") (simp_all add: read_catalog_def)
  next
    case (Inr session)
    with assms(3) have same: "leased' = Ok session" by (cases leased') (auto simp: alike_def)
    have "alike id (receiver_answer (ask session)) (receiver_answer (ask' session))" using assms(4) by blast
    then have "sanitized_result p (receiver_answer (ask session)) = sanitized_result p (receiver_answer (ask' session))"
      by (rule sanitized_result_alike [OF assms(1)])
    with Inr same show ?thesis
      by (cases "visible_receiver p r"; cases "ask session"; cases "ask' session")
         (simp_all add: read_catalog_def sanitized_result_def receiver_answer_def)
  qed
  show "port_submit retained tick p r identified sub svch = port_submit retained tick p r identified' sub svch"
    using assms(1,5)
    by (cases "visible_receiver p r"; cases identified; cases identified'; cases svch) (auto simp: port_submit_def alike_def intro: sanitized_kept)
  show "port_dry_run tick now history latest judged_at p r identified intent sv
      = port_dry_run tick now history latest' judged_at p r identified' intent sv"
  proof (cases "\<exists>e. identified = Err e")
    case True
    with assms(1,5) show ?thesis
      by (cases "visible_receiver p r"; cases identified; cases identified') (auto simp: port_dry_run_def alike_def intro: sanitized_kept)
  next
    case False
    with assms(5) obtain i i' where "identified = Ok i" "identified' = Ok i'"
      by (cases identified; cases identified') (auto simp: alike_def)
    moreover obtain label where p: "p = Agent label" using assms(1) by (cases p) auto
    moreover obtain res sv1 where charged: "charge_dry_run tick label sv = (res, sv1)" by fastforce
    moreover have "(case dry_run_of now history latest judged_at (agent_label_str label) r intent False ag of
          (res, ag') \<Rightarrow> (sanitized_result p res, sv1\<lparr>sv_agent := Some ag'\<rparr>))
        = (case dry_run_of now history latest' judged_at (agent_label_str label) r intent False ag of
          (res, ag') \<Rightarrow> (sanitized_result p res, sv1\<lparr>sv_agent := Some ag'\<rparr>))" for ag
      using dry_run_of_lease [OF assms(6,1), of now history judged_at "agent_label_str label" r intent False ag]
      by (simp add: case_prod_unfold)
    ultimately show ?thesis by (cases "visible_receiver p r"; cases res; cases "sv_agent sv1") (simp_all add: port_dry_run_def)
  qed
qed

lemma summaries_saved:
  "su \<in> set (List.map_filter (summary_of pl) xs) \<Longrightarrow> \<not> is_ad_hoc (su_id su)"
  by (auto simp: List.map_filter_def summary_of_def split: sum.splits) (drule receiver_id_new_not_ad_hoc, simp)

text \<open>
  C20. An agent's handle is confined. Every administrative call is refused and changes nothing. A receiver
  chosen by address answers every call as one that does not exist, before the service does
  anything for it, and is never among the receivers shown.
\<close>

theorem agent_confined:
  assumes "p \<noteq> Operator"
  shows "admin_discover p found = Err Forbidden \<and> admin_configuration p loaded = Err Forbidden
    \<and> admin_ask p leased ask = Err Forbidden \<and> register_ad_hoc p identity pl = (Err Forbidden, pl)
    \<and> admin_save p c answer pl = (Err Forbidden, pl)
    \<and> admin_dry_run_as now history latest judged_at p label r identified intent sv = (Err Forbidden, sv)
    \<and> admin_policy p sv = Err Forbidden \<and> admin_reload now read recorded_at answered p sv = (Err Forbidden, sv)
    \<and> admin_audit p page sv = Err Forbidden
    \<and> begin_issue_token digest now random draws p label tp = (Err Forbidden, tp)
    \<and> begin_revoke_token now recorded_at answered was_active p i tp = (Err Forbidden, tp)
    \<and> admin_tokens p tp = Err Forbidden
    \<and> (is_ad_hoc r \<longrightarrow>
         read_state p r leased = read_state p r' (Err (NotFound ''receiver''))
         \<and> read_catalog p r leased ask = read_catalog p r' (Err (NotFound ''receiver'')) ask
         \<and> port_submit retained tick p r identified sub svch = port_submit retained tick p r' (Err (NotFound ''receiver'')) sub svch
         \<and> snd (port_submit retained tick p r identified sub svch) = svch
         \<and> port_dry_run tick now history latest judged_at p r identified intent sv
             = port_dry_run tick now history latest judged_at p r' (Err (NotFound ''receiver'')) intent sv
         \<and> snd (port_dry_run tick now history latest judged_at p r identified intent sv) = sv)
    \<and> (\<forall>sus. receivers p loaded pl = Ok sus \<longrightarrow> (\<forall>su \<in> set sus. \<not> is_ad_hoc (su_id su)))"
proof -
  obtain l where p: "p = Agent l" using assms by (cases p) auto
  have gone: "sanitized p (NotFound what) = NotFound what" for what by (simp add: sanitized_def)
  have "is_ad_hoc r \<Longrightarrow> visible_receiver p r = Err (NotFound ''receiver'')" using assms by (simp add: visible_receiver_def)
  moreover have "visible_receiver p r' = Err (NotFound ''receiver'') \<or> visible_receiver p r' = Ok ()"
    by (simp add: visible_receiver_def)
  moreover have "\<forall>sus. receivers p loaded pl = Ok sus \<longrightarrow> (\<forall>su \<in> set sus. \<not> is_ad_hoc (su_id su))"
    by (auto simp: receivers_def split: sum.splits dest: summaries_saved)
  ultimately show ?thesis
    by (elim disjE; cases svch;
        simp add: p gone [unfolded p] require_operator_def operator_only_def admin_discover_def admin_configuration_def admin_ask_def
          register_ad_hoc_def admin_save_def admin_dry_run_as_def admin_policy_def admin_reload_def admin_audit_def
          admin_store_def begin_issue_token_def begin_revoke_token_def admin_tokens_def read_state_def
          read_catalog_def port_submit_def port_dry_run_def sanitized_result_def)
qed

lemma dry_run_of_frame:
  assumes "dry_run_of now history latest judged_at label r intent rules ag = (res, ag')"
  shows "ag_log ag' = ag_log ag" "ag_policy ag' = ag_policy ag" "ag_writes ag' = ag_writes ag" "ag_limits ag' = ag_limits ag"
  using assms
  by (auto simp: dry_run_of_def precheck_def ensure_ledger_def Let_def split: prod.splits sum.splits option.splits if_splits bool.splits)

lemma dry_run_of_hides_rules:
  assumes "dry_run_of now history latest judged_at label r intent False ag = (Ok d, ag')"
  shows "case dr_decision d of DryDeny _ rules \<Rightarrow> rules = [] | DryRequireApproval _ rules \<Rightarrow> rules = [] | _ \<Rightarrow> True"
  using assms
  by (auto simp: dry_run_of_def Let_def split: prod.splits sum.splits option.splits effect.splits)

definition no_rules_shown :: "dry_run \<Rightarrow> bool" where
  "no_rules_shown d =
     (case dr_decision d of DryDeny _ rules \<Rightarrow> rules = [] | DryRequireApproval _ rules \<Rightarrow> rules = [] | _ \<Rightarrow> True)"

text \<open>
  A dry run is only a question: it makes no operation, no task, no record and no call of a session,
  changes no policy, and shows an agent no rule id. For the Operator nothing at all changes; an
  agent's counts against its own writes, and is refused without a decision when they are spent.
\<close>

theorem dry_run_harmless:
  assumes "port_dry_run tick now history latest judged_at p r identified intent sv = (res, sv')"
  shows "sv_ops sv' = sv_ops sv \<and> sv_tasks sv' = sv_tasks sv \<and> sv_calls sv' = sv_calls sv
    \<and> sv_in_flight sv' = sv_in_flight sv \<and> sv_outcomes sv' = sv_outcomes sv
    \<and> map_option ag_log (sv_agent sv') = map_option ag_log (sv_agent sv)
    \<and> map_option ag_policy (sv_agent sv') = map_option ag_policy (sv_agent sv)
    \<and> (p = Operator \<longrightarrow> sv' = sv)
    \<and> (\<forall>d. p \<noteq> Operator \<longrightarrow> res = Ok d \<longrightarrow> no_rules_shown d)
    \<and> (\<forall>l ag e. p = Agent l \<longrightarrow> sv_agent sv = Some ag \<longrightarrow> fst (charge_write (ag_limits ag) tick l (ag_writes ag)) = Err e
         \<longrightarrow> (\<exists>e'. res = Err e'))"
proof (cases "visible_receiver p r = Ok () \<and> (\<exists>i. identified = Ok i)")
  case False
  then have "sv' = sv \<and> (\<exists>e. res = Err e)"
    using assms by (cases "visible_receiver p r"; cases identified) (auto simp: port_dry_run_def)
  then show ?thesis by auto
next
  case True
  then obtain i where ok: "visible_receiver p r = Ok ()" "identified = Ok i" by blast
  show ?thesis
  proof (cases p)
    case Operator
    with ok assms show ?thesis by (auto simp: port_dry_run_def)
  next
    case (Agent l)
    show ?thesis
    proof (cases "sv_agent sv")
      case None
      with Agent ok assms show ?thesis by (auto simp: port_dry_run_def charge_dry_run_def)
    next
      case (Some ag)
      obtain charge writes' where ch: "charge_write (ag_limits ag) tick l (ag_writes ag) = (charge, writes')" by fastforce
      show ?thesis
      proof (cases charge)
        case (Inl e)
        with Some Agent ok ch assms show ?thesis by (auto simp: port_dry_run_def charge_dry_run_def)
      next
        case (Inr u)
        obtain dry ag' where dry: "dry_run_of now history latest judged_at (agent_label_str l) r intent False
            (ag\<lparr>ag_writes := writes'\<rparr>) = (dry, ag')" by fastforce
        have "res = sanitized_result p dry" "sv' = sv\<lparr>sv_agent := Some ag'\<rparr>"
          using Inr Some Agent ok ch dry assms by (auto simp: port_dry_run_def charge_dry_run_def)
        moreover have "no_rules_shown d" if "dry = Ok d" for d
          using dry_run_of_hides_rules dry that by (simp add: no_rules_shown_def)
        ultimately show ?thesis
          using Some Agent ch Inr dry_run_of_frame [OF dry] by (cases dry) (auto simp: sanitized_result_def)
      qed
    qed
  qed
qed

text \<open>
  A change of a token is on record before its caller hears of it: issuing and revoking leave a
  record with the token's id and label, durable as soon as the log takes it, and nothing else of
  the service changes. No record is written for a change that failed.
\<close>

theorem token_change_recorded:
  assumes "end_token_write answer now answered was_active tp = (Some res, tp')" "sv_agent (tp_service tp) = Some ag"
  shows "(case res of
        Ok (Issued t) \<Rightarrow> answered \<longrightarrow> map_option ag_log (sv_agent (tp_service tp')) =
           Some (ag_log ag @ [(record_as ag now None (Some Operator) None
                    (TokenIssued (tr_id (it_record t)) (tr_label (it_record t))), Flushed)])
      | Ok (Revoked r) \<Rightarrow> answered \<longrightarrow> map_option ag_log (sv_agent (tp_service tp')) =
           Some (ag_log ag @ (if was_active then [(record_as ag now None (Some Operator) None
                    (TokenRevoked (tr_id r) (tr_label r)), Flushed)] else []))
      | Err e \<Rightarrow> tp_service tp' = tp_service tp)
    \<and> sv_ops (tp_service tp') = sv_ops (tp_service tp) \<and> sv_tasks (tp_service tp') = sv_tasks (tp_service tp)
    \<and> tp_store tp' = map_option (\<lambda>ts. snd (end_write answer ts)) (tp_store tp)"
proof (cases "tp_store tp")
  case None
  with assms show ?thesis by (simp add: end_token_write_def)
next
  case (Some ts)
  obtain ended ts' where ended: "end_write answer ts = (ended, ts')" by fastforce
  show ?thesis
  proof (cases ended)
    case None
    with Some ended assms show ?thesis by (simp add: end_token_write_def)
  next
    case (Some result')
    with \<open>tp_store tp = Some ts\<close> ended assms show ?thesis
      by (cases result'; cases "projr result'")
         (auto simp: end_token_write_def record_token_def record_token_event_def append_within_def split: if_splits)
  qed
qed

section \<open>Witnesses\<close>

abbreviation kitchen :: principal where "kitchen \<equiv> Agent (AgentLabel ''kitchen'')"

definition load_failed :: "string \<Rightarrow> operation_error" where
  "load_failed why = \<lparr>oe_kind = ErrConfiguration, oe_context = ''loading'', oe_message = why\<rparr>"

theorem agent_learns_no_address_witness:
  "receivers kitchen (Err (load_failed ''/home/a/config'')) (pool_new example_config)
     = receivers kitchen (Err (load_failed ''/home/b/config'')) (pool_new example_config)
   \<and> read_state kitchen (ReceiverId ''den'') (Err (UnavailableError ''192.0.2.10 refused''))
     = read_state kitchen (ReceiverId ''den'') (Err (UnavailableError ''192.0.2.99 refused''))"
  using agent_learns_no_address [of kitchen "Err (load_failed ''/home/a/config'')" "Err (load_failed ''/home/b/config'')"
      "Err (UnavailableError ''192.0.2.10 refused'')" "Err (UnavailableError ''192.0.2.99 refused'')"
      "\<lambda>_. Ok ()" "\<lambda>_. Ok ()" "Err Forbidden" "Err Forbidden" "Err Forbidden" "Err Forbidden" "pool_new example_config"
      "ReceiverId ''den''"]
  by (simp add: alike_def receiver_answer_def load_failed_def kept_of_def SHUT_DOWN_def)

theorem agent_confined_witness:
  "snd (port_submit 4 0 kitchen (ReceiverId ''adhoc:192.0.2.10'') (Ok (identity_ad_hoc ''192.0.2.10''))
      \<lparr>os_intent = ISystemPower SystemOn, os_idempotency_key = None\<rparr> (service_new None, channel_new))
     = (service_new None, channel_new)
   \<and> admin_tokens kitchen \<lparr>tp_service = service_new None, tp_store = None\<rparr> = Err Forbidden"
proof -
  have adhoc: "is_ad_hoc (ReceiverId ''adhoc:192.0.2.10'')" by code_simp
  show ?thesis
    using agent_confined [where p = kitchen and r = "ReceiverId ''adhoc:192.0.2.10''" and retained = 4 and tick = 0
        and identified = "Ok (identity_ad_hoc ''192.0.2.10'')"
        and sub = "\<lparr>os_intent = ISystemPower SystemOn, os_idempotency_key = None\<rparr>" and svch = "(service_new None, channel_new)"
        and tp = "\<lparr>tp_service = service_new None, tp_store = None\<rparr>"
        and found = "Ok []" and loaded = "Err (load_failed [])" and leased = "Ok 0" and ask = "\<lambda>_. Ok ()"
        and identity = "identity_ad_hoc []" and pl = "pool_new example_config" and c = example_config and answer = "Ok ()"
        and now = "WallTime 0" and history = None and latest = "Err Forbidden" and judged_at = "WallTime 0"
        and label = "AgentLabel []" and intent = "ISystemPower SystemOn" and sv = "service_new None"
        and read = "Err PolicyMissing" and recorded_at = "WallTime 0" and answered = True and page = "Some (Ok ())"
        and digest = "\<lambda>_. []" and random = "Ok []" and draws = "[]" and was_active = True and i = "TokenId []"
        and r' = "ReceiverId ''den''"] adhoc
    by blast
qed

theorem dry_run_harmless_witness:
  "port_dry_run 0 (WallTime 1) None (Err Forbidden) (WallTime 1) Operator (ReceiverId ''den'')
      (Ok (identity_ad_hoc ''192.0.2.10'')) (ISystemPower SystemOn) (service_new None)
     = (Ok \<lparr>dr_decision = DryAllow, dr_policy = None\<rparr>, service_new None)"
proof -
  have run: "port_dry_run 0 (WallTime 1) None (Err Forbidden) (WallTime 1) Operator (ReceiverId ''den'')
      (Ok (identity_ad_hoc ''192.0.2.10'')) (ISystemPower SystemOn) (service_new None)
     = (Ok \<lparr>dr_decision = DryAllow, dr_policy = None\<rparr>, service_new None)"
    by (simp add: port_dry_run_def visible_receiver_def service_new_def)
  show ?thesis using dry_run_harmless [OF run] run by simp
qed

definition sample_issuing :: "agent_state \<Rightarrow> token_port" where
  "sample_issuing ag =
     \<lparr>tp_service = service_new (Some ag),
      tp_store = Some \<lparr>ts_path = ''agents.json'', ts_fault = None, ts_operator_digest = [], ts_entries = [], ts_revocations = 0,
        ts_writing = Some (PendingIssue \<lparr>te_record = \<lparr>tr_id = TokenId ''t-01010101'', tr_label = AgentLabel ''kitchen'',
          tr_created = WallTime 5, tr_revoked = None\<rparr>, te_digest = []\<rparr> ''dara_''), ts_file = []\<rparr>\<rparr>"

theorem token_change_recorded_witness:
  "map_option ag_log (sv_agent (tp_service (snd (end_token_write (Ok ()) (WallTime 6) True False (sample_issuing example_agent)))))
     = Some [(record_as example_agent (WallTime 6) None (Some Operator) None
               (TokenIssued (TokenId ''t-01010101'') (AgentLabel ''kitchen'')), Flushed)]"
proof -
  obtain tp' where ended: "end_token_write (Ok ()) (WallTime 6) True False (sample_issuing example_agent)
      = (Some (Ok (Issued \<lparr>it_record = \<lparr>tr_id = TokenId ''t-01010101'', tr_label = AgentLabel ''kitchen'',
          tr_created = WallTime 5, tr_revoked = None\<rparr>, it_secret = ''dara_''\<rparr>)), tp')"
    by (simp add: end_token_write_def sample_issuing_def end_write_def Let_def)
  have "sv_agent (tp_service (sample_issuing example_agent)) = Some example_agent"
    by (simp add: sample_issuing_def service_new_def)
  from token_change_recorded [OF ended this] ended show ?thesis by (simp add: example_agent_def)
qed

end
