(* ===== verification/Receiver_Selection.thy ===== *)
theory Receiver_Selection
  imports Service_Ports
begin

text \<open>
  Which receiver a command is for, \<open>crates/application/src/receiver_selection.rs\<close>. What the
  repository and discovery answer is an argument, and so is the probe of the saved receiver.
\<close>

record resolved_receiver =
  rr_name :: "string option"
  rr_identity :: receiver_identity

definition resolved_id :: "resolved_receiver \<Rightarrow> (receiver_id, operation_error) result" where
  "resolved_id r = receiver_id_of (rr_name r) (rr_identity r)"

definition selection_error :: "string \<Rightarrow> operation_error" where
  "selection_error why = \<lparr>oe_kind = ErrInvalidSelection, oe_context = ''selecting receiver'', oe_message = why\<rparr>"

definition selected_host :: "string \<Rightarrow> (resolved_receiver, operation_error) result" where
  "selected_host host =
     (if is_blank host then Err (selection_error ''--host must not be empty'')
      else Ok \<lparr>rr_name = None, rr_identity = identity_ad_hoc host\<rparr>)"

definition select_discovered ::
  "nat option \<Rightarrow> discovered_receiver list \<Rightarrow> (resolved_receiver, operation_error) result" where
  "select_discovered requested found =
     (let chosen =
        (case requested of
           Some i \<Rightarrow> (if i < length found then Ok (found ! i) else Err (selection_error ''receiver selection is out of range''))
         | None \<Rightarrow>
             (case found of
                [only] \<Rightarrow> Ok only
              | [] \<Rightarrow> Err (selection_error ''no receivers discovered'')
              | _ \<Rightarrow> Err (selection_error ''receiver selection is required when multiple receivers are discovered'')))
      in case chosen of Err e \<Rightarrow> Err e | Ok d \<Rightarrow> Ok \<lparr>rr_name = None, rr_identity = discovered_identity d\<rparr>)"

definition resolve_status_receiver_with_probe ::
  "(configured_receivers, operation_error) result \<Rightarrow> (discovered_receiver list, operation_error) result
     \<Rightarrow> nat option \<Rightarrow> string option \<Rightarrow> (receiver_identity \<Rightarrow> bool) \<Rightarrow> (resolved_receiver, operation_error) result" where
  "resolve_status_receiver_with_probe loaded discovered requested manual_host saved_probe =
     (case manual_host of
        Some host \<Rightarrow> selected_host host
      | None \<Rightarrow>
          (case loaded of Err e \<Rightarrow> Err e
           | Ok config \<Rightarrow>
               (let discover = (case discovered of Err e \<Rightarrow> Err e | Ok found \<Rightarrow> select_discovered requested found) in
                case (requested, configured_current config) of
                  (None, Some (name, identity)) \<Rightarrow>
                    if saved_probe identity then Ok \<lparr>rr_name = Some name, rr_identity = identity\<rparr> else discover
                | _ \<Rightarrow> discover)))"

definition resolve_status_receiver ::
  "(configured_receivers, operation_error) result \<Rightarrow> (discovered_receiver list, operation_error) result
     \<Rightarrow> nat option \<Rightarrow> string option \<Rightarrow> (resolved_receiver, operation_error) result" where
  "resolve_status_receiver loaded discovered requested manual_host =
     resolve_status_receiver_with_probe loaded discovered requested manual_host (\<lambda>_. True)"

definition resolve_receiver ::
  "configured_receivers \<Rightarrow> string option \<Rightarrow> string option \<Rightarrow> (resolved_receiver, operation_error) result" where
  "resolve_receiver config requested_name ad_hoc_host =
     (if requested_name \<noteq> None \<and> ad_hoc_host \<noteq> None
      then Err (selection_error ''a configured receiver name and --host cannot be combined'')
      else case ad_hoc_host of
        Some host \<Rightarrow> selected_host host
      | None \<Rightarrow>
          (case (case requested_name of Some n \<Rightarrow> Some n | None \<Rightarrow> cr_current config) of
             None \<Rightarrow> Err (selection_error ''no receiver was requested and no current receiver is configured'')
           | Some name \<Rightarrow>
               (case map_of (cr_receivers config) name of
                  None \<Rightarrow> Err (selection_error (''receiver '' @ name @ '' is not configured''))
                | Some identity \<Rightarrow> Ok \<lparr>rr_name = Some name, rr_identity = identity\<rparr>)))"

text \<open>
  A receiver resolved from a valid configuration has an id, and the id is the one it is known by:
  the saved entry's under its name, an address's reserved one otherwise.
\<close>

theorem resolved_receiver_known:
  assumes "resolve_receiver config requested host = Ok r" "configured_validate config = Ok ()" "resolved_id r = Ok i"
  shows "case rr_name r of
      Some name \<Rightarrow> \<not> is_ad_hoc i \<and> receiver_id_str i = name \<and> map_of (cr_receivers config) name = Some (rr_identity r)
        \<and> receiver_identity_of i (Ok config) pl = Ok (rr_identity r)
    | None \<Rightarrow> is_ad_hoc i \<and> host = Some (ri_host (rr_identity r))
        \<and> register_ad_hoc Operator (rr_identity r) pl = (Ok i, pl\<lparr>cp_ad_hoc := (cp_ad_hoc pl)(i \<mapsto> rr_identity r)\<rparr>)"
proof (cases "rr_name r")
  case None
  with assms(1) obtain h where h: "host = Some h" "rr_identity r = identity_ad_hoc h"
    by (auto simp: resolve_receiver_def selected_host_def split: option.splits if_splits)
  with None assms(3) have "receiver_id_ad_hoc h = Ok i"
    by (auto simp: resolved_id_def receiver_id_of_def identity_ad_hoc_def split: sum.splits)
  with None h receiver_id_ad_hoc_is_ad_hoc show ?thesis
    by (auto simp: register_ad_hoc_def require_operator_def receiver_id_of_def identity_ad_hoc_def)
next
  case (Some name)
  with assms(1) have saved: "map_of (cr_receivers config) name = Some (rr_identity r)"
    by (auto simp: resolve_receiver_def selected_host_def split: option.splits if_splits)
  from Some assms(3) have "receiver_id_new name = Ok i"
    by (auto simp: resolved_id_def receiver_id_of_def split: sum.splits)
  with saved Some receiver_id_new_not_ad_hoc receiver_id_new_str show ?thesis
    by (auto simp: receiver_identity_of_def)
qed

theorem resolved_receiver_known_witness:
  "receiver_identity_of (ReceiverId ''den'') (Ok example_config) (pool_new example_config) = Ok (identity_ad_hoc ''192.0.2.10'')"
proof -
  have "resolve_receiver example_config None None = Ok \<lparr>rr_name = Some ''den'', rr_identity = identity_ad_hoc ''192.0.2.10''\<rparr>"
    by (simp add: resolve_receiver_def example_config_def)
  moreover have "configured_validate example_config = Ok ()" by code_simp
  moreover have "resolved_id \<lparr>rr_name = Some ''den'', rr_identity = identity_ad_hoc ''192.0.2.10''\<rparr> = Ok (ReceiverId ''den'')"
    by code_simp
  ultimately show ?thesis
    using resolved_receiver_known [of example_config None None _ "ReceiverId ''den''" "pool_new example_config"] by fastforce
qed

end
