(* ===== verification/Audit_Json.thy ===== *)
theory Audit_Json
  imports Audit_Records "HOL-Library.Monad_Syntax"
begin

text \<open>
  The line format of the audit log, \<open>crates/infrastructure/src/audit_jsonl.rs\<close>: a record as the
  JSON object the code builds, and the record read back from one. JSON values are those of
  \<open>serde_json\<close>; printing and parsing their text is that crate's. An object is its members, looked
  up by name, and a number is an integer or not one.
\<close>

section \<open>JSON values\<close>

datatype json =
    JNull | JBool bool | JInt int | JFloat | JString string | JArray "json list" | JObject "(string \<times> json) list"

definition as_u64 :: "json \<Rightarrow> u64 option" where
  "as_u64 v = (case v of JInt i \<Rightarrow> if 0 \<le> i \<and> i < 2 ^ 64 then Some (word_of_int i) else None | _ \<Rightarrow> None)"

definition as_i64 :: "json \<Rightarrow> int option" where
  "as_i64 v = (case v of JInt i \<Rightarrow> if - (2 ^ 63) \<le> i \<and> i < 2 ^ 63 then Some i else None | _ \<Rightarrow> None)"

definition as_str :: "json \<Rightarrow> string option" where
  "as_str v = (case v of JString s \<Rightarrow> Some s | _ \<Rightarrow> None)"

definition as_bool :: "json \<Rightarrow> bool option" where
  "as_bool v = (case v of JBool b \<Rightarrow> Some b | _ \<Rightarrow> None)"

definition as_array :: "json \<Rightarrow> json list option" where
  "as_array v = (case v of JArray vs \<Rightarrow> Some vs | _ \<Rightarrow> None)"

definition as_object :: "json \<Rightarrow> (string \<times> json) list option" where
  "as_object v = (case v of JObject ms \<Rightarrow> Some ms | _ \<Rightarrow> None)"

definition u32_of :: "u64 \<Rightarrow> nat option" where
  "u32_of w = (if unat w < 2 ^ 32 then Some (unat w) else None)"

definition json_u64 :: "u64 \<Rightarrow> json" where "json_u64 w = JInt (uint w)"

definition json_option :: "('a \<Rightarrow> json) \<Rightarrow> 'a option \<Rightarrow> json" where
  "json_option f v = (case v of None \<Rightarrow> JNull | Some x \<Rightarrow> f x)"

text \<open>A value that may be null: outside the option the value is not usable, inside it is null.\<close>

definition nullable :: "(json \<Rightarrow> 'a option) \<Rightarrow> json \<Rightarrow> 'a option option" where
  "nullable f v = (case v of JNull \<Rightarrow> Some None | _ \<Rightarrow> map_option Some (f v))"

section \<open>Writing a record\<close>

definition MAX_STATUS_TEXT :: nat where "MAX_STATUS_TEXT = 64"

definition json_texts :: "string list \<Rightarrow> nat \<Rightarrow> json" where
  "json_texts items mx = JArray (map (\<lambda>t. JString (bounded t mx)) items)"

definition json_fields :: "core_field list \<Rightarrow> json" where
  "json_fields fs = JArray (map (\<lambda>f. JString (core_field_name f)) fs)"

fun audit_decision_str :: "audit_decision \<Rightarrow> string" where
  "audit_decision_str AuditAllow = ''allow''"
| "audit_decision_str AuditRequireApproval = ''require_approval''"
| "audit_decision_str AuditDeny = ''deny''"

fun encode_event :: "audit_event \<Rightarrow> (string \<times> json) list" where
  "encode_event (Decided intent dec reasons rules baseline policy) =
     [(''kind'', JString ''decided''), (''intent'', JString (bounded intent MAX_INTENT_TEXT)),
      (''decision'', JString (audit_decision_str dec)), (''reasons'', json_texts reasons MAX_REASON_TEXT),
      (''rules'', json_texts rules MAX_INTENT_TEXT), (''baseline'', json_fields baseline),
      (''policy'', json_option (\<lambda>d. JString (digest_fmt d)) policy)]"
| "encode_event (Dispatching intent before target bound) =
     [(''kind'', JString ''dispatching''), (''intent'', JString (bounded intent MAX_INTENT_TEXT)),
      (''before'', json_option JInt before), (''target'', json_option JInt target),
      (''precondition_fields'', json_fields bound)]"
| "encode_event (Finished status dispatch confirmed reason) =
     [(''kind'', JString ''finished''), (''status'', JString (bounded status MAX_STATUS_TEXT)),
      (''dispatch'', JString (dispatch_certainty_str dispatch)), (''confirmed'', JBool confirmed),
      (''reason'', json_option (\<lambda>r. JString (bounded r MAX_REASON_TEXT)) reason)]"
| "encode_event (PolicyLoaded digest) = [(''kind'', JString ''policy_loaded''), (''digest'', JString (digest_fmt digest))]"
| "encode_event (PolicyLoadFailed err) =
     [(''kind'', JString ''policy_load_failed''), (''error'', JString (bounded err MAX_REASON_TEXT))]"
| "encode_event (AccessRefused endpoint reason peer_uid resource suppressed) =
     [(''kind'', JString ''access_refused''), (''endpoint'', JString (endpoint_str endpoint)),
      (''reason'', JString (refusal_str reason)), (''peer_uid'', json_option (\<lambda>u. JInt (int u)) peer_uid),
      (''resource'', json_option (\<lambda>r. JString (bounded r MAX_INTENT_TEXT)) resource), (''suppressed'', JInt (int suppressed))]"
| "encode_event (TokenIssued i label) =
     [(''kind'', JString ''token_issued''), (''id'', JString (token_id_str i)), (''label'', JString (agent_label_str label))]"
| "encode_event (TokenRevoked i label) =
     [(''kind'', JString ''token_revoked''), (''id'', JString (token_id_str i)), (''label'', JString (agent_label_str label))]"

definition json_principal :: "principal option \<Rightarrow> json" where
  "json_principal p =
     (case p of
        Some Operator \<Rightarrow> JString ''operator''
      | Some (Agent label) \<Rightarrow> JObject [(''agent'', JString (agent_label_str label))]
      | None \<Rightarrow> JNull)"

definition encode_record :: "u64 \<Rightarrow> audit_record \<Rightarrow> json" where
  "encode_record seq r = JObject
     [(''seq'', json_u64 seq), (''schema'', JInt (int (ar_schema r))), (''run'', json_u64 (wt_millis (ar_run r))),
      (''at'', json_u64 (wt_millis (ar_at r))), (''operation'', json_option json_u64 (ar_operation r)),
      (''principal'', json_principal (ar_principal r)),
      (''receiver'', json_option (\<lambda>i. JString (receiver_id_str i)) (ar_receiver r)),
      (''event'', JObject (encode_event (ar_event r)))]"

section \<open>Reading a record\<close>

definition to_option :: "('a, 'e) result \<Rightarrow> 'a option" where
  "to_option r = (case r of Ok v \<Rightarrow> Some v | Err _ \<Rightarrow> None)"

definition get_str :: "(string \<times> json) list \<Rightarrow> string \<Rightarrow> string option" where
  "get_str ms k = do { v \<leftarrow> map_of ms k; as_str v }"

fun all_some :: "'a option list \<Rightarrow> 'a list option" where
  "all_some [] = Some []"
| "all_some (x # xs) = (case x of None \<Rightarrow> None | Some v \<Rightarrow> map_option (\<lambda>vs. v # vs) (all_some xs))"

definition json_strings :: "json option \<Rightarrow> string list option" where
  "json_strings v = do { w \<leftarrow> v; vs \<leftarrow> as_array w; all_some (map as_str vs) }"

definition decode_fields :: "json option \<Rightarrow> core_field list option" where
  "decode_fields v = do { names \<leftarrow> json_strings v; Some (List.map_filter parse_core_field names) }"

definition i16_of :: "int \<Rightarrow> int option" where
  "i16_of i = (if - (2 ^ 15) \<le> i \<and> i < 2 ^ 15 then Some i else None)"

definition optional_i16 :: "json option \<Rightarrow> int option option" where
  "optional_i16 v = do { w \<leftarrow> v; nullable (\<lambda>n. do { i \<leftarrow> as_i64 n; i16_of i }) w }"

definition parse_receiver :: "string \<Rightarrow> receiver_id option" where
  "parse_receiver t =
     (case receiver_id_new t of
        Ok i \<Rightarrow> Some i
      | Err _ \<Rightarrow> do { host \<leftarrow> strip_prefix AD_HOC_PREFIX t; to_option (receiver_id_ad_hoc host) })"

definition audit_decision_parse :: "string \<Rightarrow> audit_decision option" where
  "audit_decision_parse n = find (\<lambda>d. audit_decision_str d = n) [AuditAllow, AuditRequireApproval, AuditDeny]"

definition dispatch_parse :: "string \<Rightarrow> dispatch_certainty option" where
  "dispatch_parse n =
     find (\<lambda>d. dispatch_certainty_str d = n) [NotDispatched, PossiblyDispatched, CompleteWrite, UnknownDispatch]"

definition decode_event :: "(string \<times> json) list \<Rightarrow> audit_event option" where
  "decode_event ms = do {
     kind \<leftarrow> get_str ms ''kind'';
     if kind = ''decided'' then do {
       intent \<leftarrow> get_str ms ''intent'';
       dec \<leftarrow> do { n \<leftarrow> get_str ms ''decision''; audit_decision_parse n };
       reasons \<leftarrow> json_strings (map_of ms ''reasons'');
       rules \<leftarrow> json_strings (map_of ms ''rules'');
       baseline \<leftarrow> decode_fields (map_of ms ''baseline'');
       policy \<leftarrow> do { v \<leftarrow> map_of ms ''policy''; nullable (\<lambda>w. do { t \<leftarrow> as_str w; digest_from_hex t }) v };
       Some (Decided intent dec reasons rules baseline policy) }
     else if kind = ''dispatching'' then do {
       intent \<leftarrow> get_str ms ''intent'';
       before \<leftarrow> optional_i16 (map_of ms ''before'');
       target \<leftarrow> optional_i16 (map_of ms ''target'');
       bound \<leftarrow> decode_fields (map_of ms ''precondition_fields'');
       Some (Dispatching intent before target bound) }
     else if kind = ''finished'' then do {
       status \<leftarrow> get_str ms ''status'';
       dispatch \<leftarrow> do { n \<leftarrow> get_str ms ''dispatch''; dispatch_parse n };
       confirmed \<leftarrow> do { v \<leftarrow> map_of ms ''confirmed''; as_bool v };
       reason \<leftarrow> do { v \<leftarrow> map_of ms ''reason''; nullable as_str v };
       Some (Finished status dispatch confirmed reason) }
     else if kind = ''policy_loaded'' then do {
       t \<leftarrow> get_str ms ''digest''; digest \<leftarrow> digest_from_hex t; Some (PolicyLoaded digest) }
     else if kind = ''policy_load_failed'' then do { err \<leftarrow> get_str ms ''error''; Some (PolicyLoadFailed err) }
     else if kind = ''access_refused'' then do {
       endpoint \<leftarrow> do { n \<leftarrow> get_str ms ''endpoint''; endpoint_parse n };
       reason \<leftarrow> do { n \<leftarrow> get_str ms ''reason''; refusal_parse n };
       peer \<leftarrow> do { v \<leftarrow> map_of ms ''peer_uid''; nullable (\<lambda>w. do { u \<leftarrow> as_u64 w; u32_of u }) v };
       resource \<leftarrow> do { v \<leftarrow> map_of ms ''resource''; nullable as_str v };
       suppressed \<leftarrow> do { v \<leftarrow> map_of ms ''suppressed''; u \<leftarrow> as_u64 v; u32_of u };
       Some (AccessRefused endpoint reason peer resource suppressed) }
     else if kind = ''token_issued'' \<or> kind = ''token_revoked'' then do {
       i \<leftarrow> do { t \<leftarrow> get_str ms ''id''; to_option (token_id_new t) };
       label \<leftarrow> do { t \<leftarrow> get_str ms ''label''; to_option (agent_label_new t) };
       Some (if kind = ''token_issued'' then TokenIssued i label else TokenRevoked i label) }
     else None }"

definition decode_principal :: "json \<Rightarrow> principal option option" where
  "decode_principal v =
     (case v of
        JNull \<Rightarrow> Some None
      | JString name \<Rightarrow> if name = ''operator'' then Some (Some Operator) else None
      | JObject ms \<Rightarrow> do { t \<leftarrow> get_str ms ''agent''; label \<leftarrow> to_option (agent_label_new t); Some (Some (Agent label)) }
      | _ \<Rightarrow> None)"

definition decode_record :: "(string \<times> json) list \<Rightarrow> audit_record option" where
  "decode_record ms = do {
     schema \<leftarrow> do { v \<leftarrow> map_of ms ''schema''; u \<leftarrow> as_u64 v; u32_of u };
     if schema \<noteq> AUDIT_SCHEMA then None else do {
     op \<leftarrow> do { v \<leftarrow> map_of ms ''operation''; nullable as_u64 v };
     who \<leftarrow> do { v \<leftarrow> map_of ms ''principal''; decode_principal v };
     receiver \<leftarrow> do { v \<leftarrow> map_of ms ''receiver''; nullable (\<lambda>w. do { t \<leftarrow> as_str w; parse_receiver t }) v };
     run \<leftarrow> do { v \<leftarrow> map_of ms ''run''; as_u64 v };
     written \<leftarrow> do { v \<leftarrow> map_of ms ''at''; as_u64 v };
     event \<leftarrow> do { v \<leftarrow> map_of ms ''event''; e \<leftarrow> as_object v; decode_event e };
     Some \<lparr>ar_schema = schema, ar_run = WallTime run, ar_at = WallTime written, ar_operation = op, ar_principal = who,
       ar_receiver = receiver, ar_event = event\<rparr> } }"

text \<open>A line: its value, or none when its text is no JSON. A line with a number may hold no usable record.\<close>

definition decode_line :: "json option \<Rightarrow> (u64 \<times> audit_record option) option" where
  "decode_line line = do {
     v \<leftarrow> line; ms \<leftarrow> as_object v; n \<leftarrow> map_of ms ''seq''; seq \<leftarrow> as_u64 n;
     Some (seq, decode_record ms) }"

section \<open>What is written reads back\<close>

text \<open>A record as the service makes them, and what is left of it once its texts are cut.\<close>

definition label_valid :: "agent_label \<Rightarrow> bool" where
  "label_valid l = (agent_label_new (agent_label_str l) = Ok l)"

definition receiver_valid :: "receiver_id \<Rightarrow> bool" where
  "receiver_valid r = (parse_receiver (receiver_id_str r) = Some r)"

fun event_valid :: "audit_event \<Rightarrow> bool" where
  "event_valid (Decided _ _ _ _ _ policy) = pred_option digest_wf policy"
| "event_valid (Dispatching _ before target _) =
     (pred_option (\<lambda>i. i16_of i \<noteq> None) before \<and> pred_option (\<lambda>i. i16_of i \<noteq> None) target)"
| "event_valid (Finished _ _ _ _) = True"
| "event_valid (PolicyLoaded digest) = digest_wf digest"
| "event_valid (PolicyLoadFailed _) = True"
| "event_valid (AccessRefused _ _ peer_uid _ suppressed) = (pred_option (\<lambda>u. u < 2 ^ 32) peer_uid \<and> suppressed < 2 ^ 32)"
| "event_valid (TokenIssued i label) = (token_id_new (token_id_str i) = Ok i \<and> label_valid label)"
| "event_valid (TokenRevoked i label) = (token_id_new (token_id_str i) = Ok i \<and> label_valid label)"

definition record_valid :: "audit_record \<Rightarrow> bool" where
  "record_valid r =
     (ar_schema r = AUDIT_SCHEMA \<and> event_valid (ar_event r) \<and> pred_option receiver_valid (ar_receiver r)
      \<and> (case ar_principal r of Some (Agent l) \<Rightarrow> label_valid l | _ \<Rightarrow> True))"

fun clip_event :: "audit_event \<Rightarrow> audit_event" where
  "clip_event (Decided intent dec reasons rules baseline policy) =
     Decided (bounded intent MAX_INTENT_TEXT) dec (map (\<lambda>t. bounded t MAX_REASON_TEXT) reasons)
       (map (\<lambda>t. bounded t MAX_INTENT_TEXT) rules) baseline policy"
| "clip_event (Dispatching intent before target bound) = Dispatching (bounded intent MAX_INTENT_TEXT) before target bound"
| "clip_event (Finished status dispatch confirmed reason) =
     Finished (bounded status MAX_STATUS_TEXT) dispatch confirmed (map_option (\<lambda>r. bounded r MAX_REASON_TEXT) reason)"
| "clip_event (PolicyLoaded digest) = PolicyLoaded digest"
| "clip_event (PolicyLoadFailed err) = PolicyLoadFailed (bounded err MAX_REASON_TEXT)"
| "clip_event (AccessRefused endpoint reason peer_uid resource suppressed) =
     AccessRefused endpoint reason peer_uid (map_option (\<lambda>r. bounded r MAX_INTENT_TEXT) resource) suppressed"
| "clip_event (TokenIssued i label) = TokenIssued i label"
| "clip_event (TokenRevoked i label) = TokenRevoked i label"

definition clip_record :: "audit_record \<Rightarrow> audit_record" where
  "clip_record r = r\<lparr>ar_event := clip_event (ar_event r)\<rparr>"

lemma as_u64_json [simp]: "as_u64 (json_u64 w) = Some w"
  using uint_bounded [of w] by (simp add: as_u64_def json_u64_def)

lemma as_u64_nat: "n < 2 ^ 32 \<Longrightarrow> Option.bind (as_u64 (JInt (int n))) u32_of = Some n"
  by (simp add: as_u64_def u32_of_def unat_of_nat take_bit_nat_eq_self_iff)

lemma nullable_option:
  "(\<And>x. v = Some x \<Longrightarrow> f (g x) = Some x \<and> g x \<noteq> JNull) \<Longrightarrow> nullable f (json_option g v) = Some v"
  by (cases v) (auto simp: nullable_def json_option_def split: json.split)

lemma all_some_map [simp]: "all_some (map (\<lambda>x. Some (f x)) xs) = Some (map f xs)"
  by (induction xs) simp_all

lemma json_strings_texts [simp]: "json_strings (Some (json_texts items mx)) = Some (map (\<lambda>t. bounded t mx) items)"
  by (simp add: json_strings_def json_texts_def as_array_def as_str_def o_def)

lemma decode_fields_json [simp]: "decode_fields (Some (json_fields fs)) = Some fs"
proof -
  have "parse_core_field (core_field_name f) = Some f" for f by (simp add: parse_core_field_name)
  then have "List.map_filter parse_core_field (map core_field_name fs) = fs"
    by (induction fs) (simp_all add: List.map_filter_simps)
  then show ?thesis by (simp add: decode_fields_def json_strings_def json_fields_def as_array_def as_str_def o_def)
qed

lemma optional_i16_json:
  "pred_option (\<lambda>i. i16_of i \<noteq> None) v \<Longrightarrow> optional_i16 (Some (json_option JInt v)) = Some v"
  by (cases v) (auto simp: optional_i16_def nullable_def json_option_def as_i64_def i16_of_def split: if_splits)

lemma decision_parse_str [simp]: "audit_decision_parse (audit_decision_str d) = Some d"
  by (cases d) (simp_all add: audit_decision_parse_def)

lemma dispatch_parse_str [simp]: "dispatch_parse (dispatch_certainty_str d) = Some d"
  by (cases d) (simp_all add: dispatch_parse_def)

lemma decode_encode_event:
  assumes "event_valid ev"
  shows "decode_event (encode_event ev) = Some (clip_event ev)"
proof (cases ev)
  case (Decided intent dec reasons rules baseline policy)
  have "nullable (\<lambda>w. Option.bind (as_str w) digest_from_hex) (json_option (\<lambda>d. JString (digest_fmt d)) policy) = Some policy"
    using assms Decided by (intro nullable_option) (auto simp: as_str_def digest_roundtrip)
  with Decided show ?thesis by (simp add: decode_event_def get_str_def as_str_def)
next
  case (Dispatching intent before target bound)
  with assms optional_i16_json [of before] optional_i16_json [of target] show ?thesis
    by (simp add: decode_event_def get_str_def as_str_def)
next
  case (Finished status dispatch confirmed reason)
  have "nullable as_str (json_option (\<lambda>r. JString (bounded r MAX_REASON_TEXT)) reason)
      = Some (map_option (\<lambda>r. bounded r MAX_REASON_TEXT) reason)"
    by (cases reason) (simp_all add: nullable_def json_option_def as_str_def)
  with Finished show ?thesis by (simp add: decode_event_def get_str_def as_str_def as_bool_def)
next
  case (AccessRefused endpoint reason peer_uid resource suppressed)
  have "nullable (\<lambda>w. Option.bind (as_u64 w) u32_of) (json_option (\<lambda>u. JInt (int u)) peer_uid) = Some peer_uid"
    using assms AccessRefused as_u64_nat by (intro nullable_option) auto
  moreover have "nullable as_str (json_option (\<lambda>r. JString (bounded r MAX_INTENT_TEXT)) resource)
      = Some (map_option (\<lambda>r. bounded r MAX_INTENT_TEXT) resource)"
    by (cases resource) (simp_all add: nullable_def json_option_def as_str_def)
  ultimately show ?thesis
    using AccessRefused assms as_u64_nat [of suppressed] endpoint_parse_str [THEN iffD2, OF refl]
      refusal_parse_str [THEN iffD2, OF refl]
    by (simp add: decode_event_def get_str_def as_str_def)
qed (use assms in \<open>simp_all add: decode_event_def get_str_def as_str_def digest_roundtrip to_option_def label_valid_def\<close>)

lemma decode_json_principal:
  "(case p of Some (Agent l) \<Rightarrow> label_valid l | _ \<Rightarrow> True) \<Longrightarrow> decode_principal (json_principal p) = Some p"
  by (auto simp: decode_principal_def json_principal_def get_str_def as_str_def to_option_def label_valid_def
      split: option.splits principal.splits)

text \<open>Every id the domain makes is valid, saved or chosen by address.\<close>

lemma receiver_valid_new: "receiver_id_new t = Ok r \<Longrightarrow> receiver_valid r"
  using receiver_id_new_str [of t r] by (simp add: receiver_valid_def parse_receiver_def)

lemma receiver_valid_ad_hoc:
  assumes "receiver_id_ad_hoc h = Ok r"
  shows "receiver_valid r"
proof -
  have str: "receiver_id_str r = AD_HOC_PREFIX @ h" by (rule receiver_id_ad_hoc_str [OF assms])
  have "\<exists>e. receiver_id_new (AD_HOC_PREFIX @ h) = Err e"
    by (cases "receiver_id_validate (AD_HOC_PREFIX @ h)") (auto simp: receiver_id_new_def is_reserved_name_def)
  then show ?thesis
    using assms str by (auto simp: receiver_valid_def parse_receiver_def to_option_def strip_prefix_def)
qed

theorem decode_encode_record:
  assumes "record_valid r"
  shows "decode_line (Some (encode_record seq r)) = Some (seq, Some (clip_record r))"
proof -
  have "nullable (\<lambda>w. Option.bind (as_str w) parse_receiver) (json_option (\<lambda>i. JString (receiver_id_str i)) (ar_receiver r))
      = Some (ar_receiver r)"
    using assms by (intro nullable_option) (auto simp: as_str_def record_valid_def receiver_valid_def)
  moreover have "nullable as_u64 (json_option json_u64 (ar_operation r)) = Some (ar_operation r)"
    by (intro nullable_option conjI) (simp, simp add: json_u64_def)
  moreover have "as_u64 (JInt (int AUDIT_SCHEMA)) = Some 1" "u32_of 1 = Some AUDIT_SCHEMA"
    by (simp_all add: as_u64_def u32_of_def AUDIT_SCHEMA_def)
  moreover have "decode_principal (json_principal (ar_principal r)) = Some (ar_principal r)"
    using assms by (intro decode_json_principal) (simp add: record_valid_def)
  moreover have "decode_event (encode_event (ar_event r)) = Some (clip_event (ar_event r))"
    using assms by (intro decode_encode_event) (simp add: record_valid_def)
  ultimately show ?thesis using assms
    by (simp add: decode_line_def encode_record_def decode_record_def as_object_def clip_record_def record_valid_def)
qed

end
