(* ===== verification/Audit_Log.thy ===== *)
theory Audit_Log
  imports Audit_Json
begin

text \<open>
  The audit log as files, \<open>crates/infrastructure/src/audit_jsonl.rs\<close>: appending with rotation and
  numbering, and reading back. A file is its lines; a line is a JSON value or the part of one that
  reached the file before a crash, which is no JSON. The lengths of printed values and what the file
  system answers are arguments. All operations hold one lock, so each is one step, and a process
  that dies is a restart.
\<close>

section \<open>Files\<close>

definition ACTIVE :: string where "ACTIVE = ''audit.jsonl''"
definition CLOCK_MARGIN_MILLIS :: u64 where "CLOCK_MARGIN_MILLIS = 5 * 60 * 1000"

record audit_limits =
  li_max_file_bytes :: nat
  li_max_files :: nat

definition audit_limits_default :: audit_limits where
  "audit_limits_default = \<lparr>li_max_file_bytes = 20 * 1024 * 1024, li_max_files = 10\<rparr>"

definition with_limits :: "audit_limits \<Rightarrow> audit_limits" where
  "with_limits limits = limits\<lparr>li_max_files := max 1 (li_max_files limits)\<rparr>"

text \<open>\<open>file_index\<close>: 0 for the active file, \<open>n\<close> for \<open>audit.n.jsonl\<close>; an index is a \<open>usize\<close>.\<close>

definition strip_suffix :: "string \<Rightarrow> string \<Rightarrow> string option" where
  "strip_suffix suf t = map_option rev (strip_prefix (rev suf) (rev t))"

definition file_index :: "string \<Rightarrow> nat option" where
  "file_index name =
     (if name = ACTIVE then Some 0
      else case Option.bind (strip_prefix ''audit.'' name) (strip_suffix ''.jsonl'') of
        None \<Rightarrow> None
      | Some digits \<Rightarrow>
          if digits = [] \<or> \<not> list_all is_ascii_digit digits then None
          else let i = digits_value digits in if i < 2 ^ 64 \<and> i > 0 then Some i else None)"

definition rotated_name :: "nat \<Rightarrow> string" where
  "rotated_name i = ''audit.'' @ show_nat i @ ''.jsonl''"

text \<open>A file: its lines, whether the last one is ended, and its length in bytes.\<close>

record log_file =
  lf_lines :: "json option list"
  lf_ended :: bool
  lf_len :: nat

definition empty_file :: log_file where "empty_file = \<lparr>lf_lines = [], lf_ended = True, lf_len = 0\<rparr>"

text \<open>What of a value and its line break reaches the file, when \<open>n\<close> bytes of them do.\<close>

definition put_bytes :: "nat \<Rightarrow> nat \<Rightarrow> json \<Rightarrow> log_file \<Rightarrow> log_file" where
  "put_bytes sz n v f =
     (if n = 0 then f
      else if n < sz then \<lparr>lf_lines = lf_lines f @ [None], lf_ended = False, lf_len = lf_len f + n\<rparr>
      else if n = sz then \<lparr>lf_lines = lf_lines f @ [Some v], lf_ended = False, lf_len = lf_len f + n\<rparr>
      else \<lparr>lf_lines = lf_lines f @ [Some v], lf_ended = True, lf_len = lf_len f + sz + 1\<rparr>)"

definition end_line :: "log_file \<Rightarrow> log_file" where
  "end_line f = (if lf_ended f then f else f\<lparr>lf_ended := True, lf_len := lf_len f + 1\<rparr>)"

section \<open>The log\<close>

text \<open>
  \<open>jl_files\<close> is the directory's files of the log as \<open>list_files\<close> gives them, by index, the active
  file first; \<open>None\<close> is a directory that does not exist. \<open>jl_writer\<close> is the length the open writer
  keeps.
\<close>

record jsonl_log =
  jl_limits :: audit_limits
  jl_files :: "(nat \<times> log_file) list option"
  jl_checked :: bool
  jl_next_seq :: "u64 option"
  jl_writer :: "nat option"

definition jsonl_new :: "audit_limits \<Rightarrow> jsonl_log" where
  "jsonl_new limits =
     \<lparr>jl_limits = with_limits limits, jl_files = None, jl_checked = False, jl_next_seq = None, jl_writer = None\<rparr>"

definition list_files :: "jsonl_log \<Rightarrow> (nat \<times> log_file) list" where
  "list_files jl = (case jl_files jl of Some fs \<Rightarrow> fs | None \<Rightarrow> [])"

definition decoded_lines :: "log_file \<Rightarrow> (u64 \<times> audit_record option) list" where
  "decoded_lines f = List.map_filter decode_line (lf_lines f)"

fun highest_in :: "u64 list \<Rightarrow> u64 option" where
  "highest_in [] = None"
| "highest_in (s # ss) = (case highest_in ss of None \<Rightarrow> Some s | Some h \<Rightarrow> Some (max s h))"

fun highest_seq :: "(nat \<times> log_file) list \<Rightarrow> u64" where
  "highest_seq [] = 0"
| "highest_seq ((_, f) # fs) =
     (case highest_in (map fst (decoded_lines f)) of Some h \<Rightarrow> h | None \<Rightarrow> highest_seq fs)"

text \<open>
  \<open>prepare\<close>: \<open>unfit\<close> is what is wrong with the directory or one of its files, or why it cannot be
  read or created.
\<close>

definition prepare :: "bool \<Rightarrow> string option \<Rightarrow> jsonl_log \<Rightarrow> (bool, string) result \<times> jsonl_log" where
  "prepare create unfit jl =
     (if jl_checked jl then (Ok True, jl)
      else case jl_files jl of
        Some _ \<Rightarrow> (case unfit of Some why \<Rightarrow> (Err why, jl) | None \<Rightarrow> (Ok True, jl\<lparr>jl_checked := True\<rparr>))
      | None \<Rightarrow>
          if \<not> create then (Ok False, jl)
          else (case unfit of Some why \<Rightarrow> (Err why, jl)
                | None \<Rightarrow> (Ok True, jl\<lparr>jl_checked := True, jl_files := Some []\<rparr>)))"

text \<open>Opening makes the active file when there is none, and ends a line that was cut short.\<close>

definition active_file :: "(nat \<times> log_file) list \<Rightarrow> log_file" where
  "active_file fs = (case fs of (0, f) # _ \<Rightarrow> f | _ \<Rightarrow> empty_file)"

definition put_active :: "log_file \<Rightarrow> (nat \<times> log_file) list \<Rightarrow> (nat \<times> log_file) list" where
  "put_active f fs = (case fs of (0, _) # rest \<Rightarrow> (0, f) # rest | _ \<Rightarrow> (0, f) # fs)"

datatype open_answer = Opens | OpenFails bool

definition open_writer :: "open_answer \<Rightarrow> (nat \<times> log_file) list \<Rightarrow> (nat, string) result \<times> (nat \<times> log_file) list" where
  "open_writer answer fs =
     (let f = end_line (active_file fs) in
      case answer of
        Opens \<Rightarrow> (Ok (lf_len f), put_active f fs)
      | OpenFails reached \<Rightarrow> (Err ''opening'', if reached then put_active f fs else fs))"

text \<open>
  \<open>rotate\<close> goes from the oldest file to the newest; \<open>steps\<close> is how many of its renames and removals
  the file system did.
\<close>

definition shift_file :: "nat \<Rightarrow> nat \<times> log_file \<Rightarrow> (nat \<times> log_file) option" where
  "shift_file keep = (\<lambda>(i, f). if i + 1 > keep then None else Some (i + 1, f))"

definition rotate :: "nat \<Rightarrow> nat \<Rightarrow> (nat \<times> log_file) list \<Rightarrow> bool \<times> (nat \<times> log_file) list" where
  "rotate max_files steps fs =
     (let untouched = length fs - steps in
      (steps \<ge> length fs, take untouched fs @ List.map_filter (shift_file (max_files - 1)) (drop untouched fs)))"

record append_answers =
  aa_unfit :: "string option"
  aa_readable :: bool
  aa_open :: open_answer
  aa_rotated :: nat
  aa_reopen :: open_answer
  aa_written :: "nat option"

text \<open>
  \<open>append_locked\<close>. \<open>text_len\<close> is the length of a value's text; \<open>aa_written\<close> is how many bytes of the
  line reached the file when the write, the flush or the sync failed.
\<close>

definition numbered :: "bool \<Rightarrow> jsonl_log \<Rightarrow> (u64, string) result \<times> jsonl_log" where
  "numbered readable jl =
     (case jl_next_seq jl of
        Some seq \<Rightarrow> (Ok seq, jl)
      | None \<Rightarrow>
          if \<not> readable then (Err ''reading'', jl)
          else let seq = highest_seq (list_files jl) + 1 in (Ok seq, jl\<lparr>jl_next_seq := Some seq\<rparr>))"

definition ensure_writer :: "open_answer \<Rightarrow> jsonl_log \<Rightarrow> (nat, string) result \<times> jsonl_log" where
  "ensure_writer answer jl =
     (case jl_writer jl of
        Some len \<Rightarrow> (Ok len, jl)
      | None \<Rightarrow>
          (case open_writer answer (list_files jl) of
             (Ok len, fs) \<Rightarrow> (Ok len, jl\<lparr>jl_writer := Some len, jl_files := Some fs\<rparr>)
           | (Err e, fs) \<Rightarrow> (Err e, jl\<lparr>jl_files := Some fs\<rparr>)))"

definition audit_make_room :: "nat \<Rightarrow> nat \<Rightarrow> open_answer \<Rightarrow> nat \<Rightarrow> jsonl_log \<Rightarrow> (nat, string) result \<times> jsonl_log" where
  "audit_make_room needed rotated reopen len jl =
     (if len > 0 \<and> len + needed > li_max_file_bytes (jl_limits jl)
      then case rotate (li_max_files (jl_limits jl)) rotated (list_files jl) of
             (False, fs) \<Rightarrow> (Err ''renaming'', jl\<lparr>jl_writer := None, jl_files := Some fs\<rparr>)
           | (True, fs) \<Rightarrow> ensure_writer reopen (jl\<lparr>jl_writer := None, jl_files := Some fs\<rparr>)
      else (Ok len, jl))"

definition write_line :: "nat \<Rightarrow> nat option \<Rightarrow> u64 \<Rightarrow> json \<Rightarrow> nat \<Rightarrow> jsonl_log \<Rightarrow> (unit, string) result \<times> jsonl_log" where
  "write_line sz written seq v len jl =
     (let fs = list_files jl in
      case written of
        None \<Rightarrow>
          (Ok (), jl\<lparr>jl_files := Some (put_active (put_bytes sz (sz + 1) v (active_file fs)) fs),
                    jl_writer := Some (len + sz + 1), jl_next_seq := Some (seq + 1)\<rparr>)
      | Some n \<Rightarrow>
          (Err ''writing'', jl\<lparr>jl_files := Some (put_active (put_bytes sz n v (active_file fs)) fs), jl_writer := None\<rparr>))"

definition append_locked ::
  "(json \<Rightarrow> nat) \<Rightarrow> append_answers \<Rightarrow> audit_record \<Rightarrow> jsonl_log \<Rightarrow> (unit, string) result \<times> jsonl_log" where
  "append_locked text_len aa r jl =
     (case prepare True (aa_unfit aa) jl of
        (Err e, jl1) \<Rightarrow> (Err e, jl1)
      | (Ok _, jl1) \<Rightarrow>
          (case numbered (aa_readable aa) jl1 of
             (Err e, jl2) \<Rightarrow> (Err e, jl2)
           | (Ok seq, jl2) \<Rightarrow>
               (let v = encode_record seq r; sz = text_len v in
                case ensure_writer (aa_open aa) jl2 of
                  (Err e, jl3) \<Rightarrow> (Err e, jl3)
                | (Ok len, jl3) \<Rightarrow>
                    (case audit_make_room (sz + 1) (aa_rotated aa) (aa_reopen aa) len jl3 of
                       (Err e, jl4) \<Rightarrow> (Err e, jl4)
                     | (Ok len', jl4) \<Rightarrow> write_line sz (aa_written aa) seq v len' jl4))))"

text \<open>The process ends, by a crash or not; the files stay as they are.\<close>

definition restarted :: "jsonl_log \<Rightarrow> jsonl_log" where
  "restarted jl = jl\<lparr>jl_checked := False, jl_next_seq := None, jl_writer := None\<rparr>"

section \<open>Reading\<close>

definition last_written_before :: "u64 option \<Rightarrow> wall_time \<Rightarrow> bool" where
  "last_written_before written from_time =
     (case written of None \<Rightarrow> False | Some w \<Rightarrow> saturating_add w CLOCK_MARGIN_MILLIS < wt_millis from_time)"

definition usable_records :: "log_file \<Rightarrow> audit_record list" where
  "usable_records f = List.map_filter snd (decoded_lines f)"

text \<open>\<open>written\<close> is the last-written time of each file, when it is known.\<close>

definition since_locked ::
  "string option \<Rightarrow> bool \<Rightarrow> (nat \<Rightarrow> u64 option) \<Rightarrow> wall_time \<Rightarrow> jsonl_log
     \<Rightarrow> (audit_record list, string) result \<times> jsonl_log" where
  "since_locked unfit readable written from_time jl =
     (case prepare False unfit jl of
        (Err e, jl1) \<Rightarrow> (Err e, jl1)
      | (Ok False, jl1) \<Rightarrow> (Ok [], jl1)
      | (Ok True, jl1) \<Rightarrow>
          if \<not> readable then (Err ''reading'', jl1)
          else (Ok (concat (map (\<lambda>(i, f). if last_written_before (written i) from_time then []
                      else filter (\<lambda>r. ar_at r \<ge> from_time) (usable_records f)) (rev (list_files jl1)))), jl1))"

record audit_page =
  pg_entries :: "(u64 \<times> audit_record) list"
  pg_next :: "u64 option"

text \<open>The walk over lines, newest first, that stops once enough are found.\<close>

fun collect :: "nat \<Rightarrow> u64 option \<Rightarrow> (u64 \<times> audit_record option) list \<Rightarrow> (u64 \<times> audit_record) list" where
  "collect wanted before [] = []"
| "collect 0 before (d # ds) = []"
| "collect (Suc wanted) before ((seq, found) # ds) =
     (case found of
        None \<Rightarrow> collect (Suc wanted) before ds
      | Some r \<Rightarrow>
          if (case before of Some b \<Rightarrow> seq \<ge> b | None \<Rightarrow> False) then collect (Suc wanted) before ds
          else (seq, r) # collect wanted before ds)"

definition newest_first :: "(nat \<times> log_file) list \<Rightarrow> (u64 \<times> audit_record option) list" where
  "newest_first fs = concat (map (\<lambda>(_, f). rev (decoded_lines f)) fs)"

definition page_of :: "nat \<Rightarrow> (u64 \<times> audit_record) list \<Rightarrow> audit_page" where
  "page_of limit found =
     (if length found = limit + 1
      then \<lparr>pg_entries = butlast found,
            pg_next = (if butlast found = [] then None else Some (fst (List.last (butlast found))))\<rparr>
      else \<lparr>pg_entries = found, pg_next = None\<rparr>)"

definition query_locked ::
  "string option \<Rightarrow> bool \<Rightarrow> audit_query \<Rightarrow> jsonl_log \<Rightarrow> (audit_page, string) result \<times> jsonl_log" where
  "query_locked unfit readable q jl =
     (case prepare False unfit jl of
        (Err e, jl1) \<Rightarrow> (Err e, jl1)
      | (Ok False, jl1) \<Rightarrow> (Ok \<lparr>pg_entries = [], pg_next = None\<rparr>, jl1)
      | (Ok True, jl1) \<Rightarrow>
          if \<not> readable then (Err ''reading'', jl1)
          else (Ok (page_of (aq_limit q) (collect (aq_limit q + 1) (aq_cursor q) (newest_first (list_files jl1)))), jl1))"

end
