(* ===== verification/Audit_Log_Properties.thy ===== *)
theory Audit_Log_Properties
  imports Audit_Log
begin

text \<open>
  What the log's files keep. \<open>log_entries\<close> is the abstract log: the numbered lines of all files,
  oldest first. Appending adds at its end, rotation drops at its beginning, and every way of
  reading is a function of it.
\<close>

section \<open>The log as a list of numbered lines\<close>

definition file_entries :: "(nat \<times> log_file) list \<Rightarrow> (u64 \<times> audit_record option) list" where
  "file_entries fs = concat (map (\<lambda>(_, f). decoded_lines f) (rev fs))"

definition log_entries :: "jsonl_log \<Rightarrow> (u64 \<times> audit_record option) list" where
  "log_entries jl = file_entries (list_files jl)"

definition files_ok :: "nat \<Rightarrow> (nat \<times> log_file) list \<Rightarrow> bool" where
  "files_ok max_files fs = (sorted_wrt (<) (map fst fs) \<and> list_all (\<lambda>(i, _). i < max_files) fs)"

definition seqs :: "(nat \<times> log_file) list \<Rightarrow> u64 list" where
  "seqs fs = map fst (file_entries fs)"

lemma file_entries_Nil [simp]: "file_entries [] = []" by (simp add: file_entries_def)

lemma file_entries_append: "file_entries (fs @ gs) = file_entries gs @ file_entries fs"
  by (simp add: file_entries_def)

lemma file_entries_Cons: "file_entries ((i, f) # fs) = file_entries fs @ decoded_lines f"
  by (simp add: file_entries_def)

lemma file_entries_shift: "file_entries (map (\<lambda>(i, f). (i + 1, f)) fs) = file_entries fs"
  by (simp add: file_entries_def rev_map [symmetric] o_def case_prod_unfold)

lemma decoded_lines_more:
  "decoded_lines (f\<lparr>lf_ended := e, lf_len := n\<rparr>) = decoded_lines f"
  by (simp add: decoded_lines_def)

lemma decoded_end_line [simp]: "decoded_lines (end_line f) = decoded_lines f"
  by (simp add: end_line_def decoded_lines_def)

lemma decoded_empty [simp]: "decoded_lines empty_file = []"
  by (simp add: decoded_lines_def empty_file_def List.map_filter_simps)

lemma map_filter_append: "List.map_filter g (xs @ ys) = List.map_filter g xs @ List.map_filter g ys"
  by (simp add: List.map_filter_def)

lemma decode_line_torn [simp]: "decode_line None = None" by (simp add: decode_line_def)

lemma decode_line_encode: "\<exists>found. decode_line (Some (encode_record seq r)) = Some (seq, found)"
  by (simp add: decode_line_def encode_record_def as_object_def)

lemma decoded_put_bytes:
  "decoded_lines (put_bytes sz n v f) = decoded_lines f @
     (if n = 0 \<or> n < sz then [] else (case decode_line (Some v) of Some d \<Rightarrow> [d] | None \<Rightarrow> []))"
  by (auto simp: put_bytes_def decoded_lines_def map_filter_append List.map_filter_simps split: option.splits)

text \<open>The active file, when files are in order, is the first or not there.\<close>

lemma put_active_entries:
  assumes "decoded_lines g = decoded_lines (active_file fs) @ new"
  shows "file_entries (put_active g fs) = file_entries fs @ new"
  using assms by (cases fs) (auto simp: put_active_def active_file_def file_entries_Cons split: prod.splits nat.splits)

lemma put_active_ok:
  assumes "files_ok m fs" "1 \<le> m"
  shows "files_ok m (put_active g fs)" "active_file (put_active g fs) = g" "\<exists>rest. put_active g fs = (0, g) # rest"
proof -
  have pos: "0 < i" if "fs = (j, f) # rest" "j \<noteq> 0" "i \<in> set (map fst fs)" for i j f rest
    using assms(1) that by (auto simp: files_ok_def)
  show "files_ok m (put_active g fs)"
  proof (cases fs)
    case (Cons p rest)
    obtain j f where p: "p = (j, f)" by fastforce
    show ?thesis
    proof (cases j)
      case 0
      with Cons p assms show ?thesis by (simp add: put_active_def files_ok_def)
    next
      case (Suc k)
      with Cons p assms pos [of j f rest] show ?thesis by (auto simp: put_active_def files_ok_def)
    qed
  qed (use assms in \<open>simp add: put_active_def files_ok_def\<close>)
  show "active_file (put_active g fs) = g" "\<exists>rest. put_active g fs = (0, g) # rest"
    by (auto simp: put_active_def active_file_def split: list.splits prod.splits nat.splits)
qed

section \<open>Rotation drops from the old end\<close>

lemma shift_files:
  assumes "sorted_wrt (<) (map fst xs)"
  shows "List.map_filter (shift_file keep) xs = map (\<lambda>(i, f). (i + 1, f)) (takeWhile (\<lambda>(i, _). i + 1 \<le> keep) xs)"
  using assms
proof (induction xs)
  case (Cons x xs)
  obtain i f where x: "x = (i, f)" by fastforce
  show ?case
  proof (cases "i + 1 \<le> keep")
    case True
    with Cons x show ?thesis by (simp add: List.map_filter_simps shift_file_def)
  next
    case False
    have "List.map_filter (shift_file keep) xs = []"
      using False Cons.prems x by (auto simp: List.map_filter_def filter_empty_conv shift_file_def)
    with False x show ?thesis by (simp add: List.map_filter_simps shift_file_def)
  qed
qed (simp add: List.map_filter_simps)

lemma rotate_spec:
  assumes "files_ok m fs" "1 \<le> m" "rotate m steps fs = (over, fs')"
  shows "files_ok m fs' \<and> (over \<longrightarrow> (\<forall>(i, _) \<in> set fs'. 0 < i))
    \<and> (\<exists>dropped. file_entries fs = dropped @ file_entries fs' \<and> (dropped \<noteq> [] \<longrightarrow> m - 1 \<in> set (map fst fs)))"
proof -
  define u where "u = length fs - steps"
  define xs where "xs = drop u fs"
  define kept where "kept = takeWhile (\<lambda>(i, _). i + 1 \<le> m - 1) xs"
  define gone where "gone = dropWhile (\<lambda>(i, _). i + 1 \<le> m - 1) xs"
  define pre where "pre = take u fs"
  have fs: "fs = pre @ kept @ gone" by (simp add: pre_def xs_def kept_def gone_def)
  have sorted: "sorted_wrt (<) (map fst fs)" and small: "\<forall>(i, _) \<in> set fs. i < m"
    using assms(1) by (auto simp: files_ok_def list_all_iff)
  have "sorted_wrt (<) (map fst xs)" using sorted sorted_wrt_drop by (simp add: xs_def drop_map [symmetric])
  then have fs': "fs' = pre @ map (\<lambda>(i, f). (i + 1, f)) kept" and over: "over = (steps \<ge> length fs)"
    using assms(3) by (auto simp: rotate_def u_def xs_def kept_def pre_def shift_files Let_def)
  have "sorted_wrt (<) (map fst (pre @ kept @ gone))" using sorted unfolding fs .
  then have parts: "sorted_wrt (<) (map fst pre)" "sorted_wrt (<) (map fst kept)"
      "\<forall>a \<in> set pre. \<forall>b \<in> set kept. fst a < fst b"
    by (auto simp: sorted_wrt_append)
  have small_pre: "\<forall>(i, _) \<in> set pre. i < m" using small by (auto simp: pre_def dest: in_set_takeD)
  have below: "\<forall>(i, _) \<in> set kept. i + 1 < m"
    using assms(2) by (auto simp: kept_def dest: set_takeWhileD)
  have "files_ok m fs'"
    using parts below small_pre by (fastforce simp: fs' files_ok_def list_all_iff sorted_wrt_append sorted_wrt_map case_prod_unfold)
  moreover have "\<forall>(i, _) \<in> set fs'. 0 < i" if over
    using that over by (auto simp: fs' u_def pre_def)
  moreover have "file_entries fs = file_entries gone @ file_entries fs'"
    unfolding fs by (simp add: fs' file_entries_append file_entries_shift [simplified])
  moreover have "m - 1 \<in> set (map fst fs)" if some: "file_entries gone \<noteq> []"
  proof -
    obtain i f rest where g: "gone = (i, f) # rest" using some by (cases gone) auto
    then have "\<not> i + 1 \<le> m - 1" using hd_dropWhile [of "\<lambda>(i, _). i + 1 \<le> m - 1" xs] by (simp add: gone_def)
    moreover have "(i, f) \<in> set fs" unfolding fs g by simp
    moreover from this small have "i < m" by auto
    ultimately have "i = m - 1" by linarith
    with \<open>(i, f) \<in> set fs\<close> show ?thesis by force
  qed
  ultimately show ?thesis by blast
qed

section \<open>The invariant\<close>

definition writer_ok :: "jsonl_log \<Rightarrow> bool" where
  "writer_ok jl = (jl_writer jl \<noteq> None \<longrightarrow> (\<exists>f rest. jl_files jl = Some ((0, f) # rest) \<and> lf_ended f))"

definition log_inv :: "jsonl_log \<Rightarrow> bool" where
  "log_inv jl =
     (1 \<le> li_max_files (jl_limits jl) \<and> files_ok (li_max_files (jl_limits jl)) (list_files jl)
      \<and> sorted (map fst (log_entries jl)) \<and> writer_ok jl
      \<and> (\<forall>n. jl_next_seq jl = Some n \<longrightarrow> (\<forall>s \<in> set (map fst (log_entries jl)). s \<le> n)))"

text \<open>No number has reached the end of its type.\<close>

definition has_room :: "jsonl_log \<Rightarrow> bool" where
  "has_room jl = ((\<forall>s \<in> set (map fst (log_entries jl)). s < - 2) \<and> (\<forall>n. jl_next_seq jl = Some n \<longrightarrow> n < - 1))"

lemma log_inv_new: "log_inv (jsonl_new limits)"
  by (simp add: log_inv_def jsonl_new_def with_limits_def log_entries_def list_files_def files_ok_def writer_ok_def)

lemma log_inv_restarted: "log_inv jl \<Longrightarrow> log_inv (restarted jl)"
  by (simp add: log_inv_def restarted_def log_entries_def list_files_def writer_ok_def)

lemma prepare_frame:
  assumes "prepare create unfit jl = (res, jl')" "log_inv jl"
  shows "log_inv jl' \<and> log_entries jl' = log_entries jl \<and> jl_next_seq jl' = jl_next_seq jl \<and> jl_writer jl' = jl_writer jl
    \<and> list_files jl' = list_files jl \<and> jl_limits jl' = jl_limits jl"
proof -
  have "jl' = jl \<or> jl' = jl\<lparr>jl_checked := True\<rparr> \<or> (jl_files jl = None \<and> jl' = jl\<lparr>jl_checked := True, jl_files := Some []\<rparr>)"
    using assms(1) by (auto simp: prepare_def split: if_splits option.splits)
  then show ?thesis
    using assms(2) by (elim disjE conjE) (simp_all add: log_inv_def log_entries_def list_files_def writer_ok_def)
qed

lemma highest_in_None: "highest_in ss = None \<longleftrightarrow> ss = []"
  by (cases ss) (auto split: option.splits)

lemma highest_in_Some: "highest_in ss = Some h \<Longrightarrow> h \<in> set ss \<and> (\<forall>s \<in> set ss. s \<le> h)"
  by (induction ss arbitrary: h) (auto simp: highest_in_None max_def split: option.splits if_splits)

text \<open>With numbers in order, the highest of the newest file that has one is the highest of all.\<close>

lemma highest_seq_last:
  assumes "sorted (map fst (file_entries fs))"
  shows "(\<forall>s \<in> set (map fst (file_entries fs)). s \<le> highest_seq fs)
    \<and> (file_entries fs \<noteq> [] \<longrightarrow> highest_seq fs \<in> set (map fst (file_entries fs)))"
  using assms
proof (induction fs)
  case (Cons p fs)
  obtain i f where p: "p = (i, f)" by fastforce
  show ?case
  proof (cases "highest_in (map fst (decoded_lines f))")
    case None
    then have "decoded_lines f = []" by (simp add: highest_in_None)
    with Cons p None show ?thesis by (simp add: file_entries_Cons)
  next
    case (Some h)
    then have h: "h \<in> set (map fst (decoded_lines f))" "\<forall>s \<in> set (map fst (decoded_lines f)). s \<le> h"
      using highest_in_Some by blast+
    have "s \<le> h" if "s \<in> set (map fst (file_entries fs))" for s
      using Cons.prems p that h(1) by (auto simp: file_entries_Cons sorted_append)
    with h Some p show ?thesis by (auto simp: file_entries_Cons)
  qed
qed simp

lemma word_inc_greater: "w \<noteq> - 1 \<Longrightarrow> w < w + 1" for w :: "'a::len word"
  using inc_less_eq_self_iff_eq [of w] by (simp add: not_le [symmetric])

lemma room_next:
  assumes "log_inv jl" "has_room jl"
  shows "highest_seq (list_files jl) < - 2 \<and> highest_seq (list_files jl) + 1 < - 1"
proof -
  have none: "highest_seq fs = 0" if "file_entries fs = []" for fs
    using that by (induction fs) (auto simp: file_entries_Cons)
  have "sorted (map fst (file_entries (list_files jl)))" using assms(1) by (simp add: log_inv_def log_entries_def)
  from highest_seq_last [OF this]
  have some: "file_entries (list_files jl) \<noteq> [] \<Longrightarrow> highest_seq (list_files jl) \<in> set (map fst (log_entries jl))"
    by (simp add: log_entries_def)
  have below: "highest_seq (list_files jl) < - 2"
  proof (cases "file_entries (list_files jl) = []")
    case True
    have "(0 :: u64) < - 2" by code_simp
    with True none show ?thesis by simp
  next
    case False
    with some assms(2) show ?thesis unfolding has_room_def by blast
  qed
  then have "unat (highest_seq (list_files jl)) < 2 ^ 64 - 2" by (simp add: word_less_nat_alt)
  then show ?thesis using below by (simp add: word_less_nat_alt unat_word_ariths unat_minus_one_max)
qed

lemma numbered_spec:
  assumes "numbered readable jl = (res, jl')" "log_inv jl" "has_room jl"
  shows "log_inv jl' \<and> log_entries jl' = log_entries jl \<and> list_files jl' = list_files jl \<and> jl_limits jl' = jl_limits jl
    \<and> jl_writer jl' = jl_writer jl
    \<and> (\<forall>seq. res = Ok seq \<longrightarrow> jl_next_seq jl' = Some seq \<and> (\<forall>s \<in> set (map fst (log_entries jl)). s \<le> seq)
         \<and> (jl_next_seq jl = None \<longrightarrow> (\<forall>s \<in> set (map fst (log_entries jl)). s < seq)))
    \<and> (\<forall>e. res = Err e \<longrightarrow> jl' = jl)"
proof (cases "jl_next_seq jl")
  case (Some n)
  with assms show ?thesis by (auto simp: numbered_def log_inv_def)
next
  case None
  have sorted: "sorted (map fst (file_entries (list_files jl)))" using assms(2) by (simp add: log_inv_def log_entries_def)
  let ?h = "highest_seq (list_files jl)"
  have up: "s < ?h + 1" if "s \<in> set (map fst (log_entries jl))" for s
  proof -
    have "s \<le> ?h" "?h \<in> set (map fst (log_entries jl))"
      using highest_seq_last [OF sorted] that by (auto simp: log_entries_def)
    moreover from this assms(3) have "?h < - 2" unfolding has_room_def by blast
    moreover from this have "?h < ?h + 1" by (intro word_inc_greater) auto
    ultimately show ?thesis by (blast intro: le_less_trans)
  qed
  show ?thesis
  proof (cases readable)
    case True
    have eq: "res = Ok (?h + 1)" "jl' = jl\<lparr>jl_next_seq := Some (?h + 1)\<rparr>"
      using assms(1) None True by (simp_all add: numbered_def Let_def)
    have entries: "log_entries jl' = log_entries jl" "list_files jl' = list_files jl"
      using eq by (simp_all add: log_entries_def list_files_def)
    have "log_inv jl'"
      using assms(2) up unfolding log_inv_def entries by (simp add: eq writer_ok_def less_imp_le)
    with eq entries up None show ?thesis by (simp add: less_imp_le)
  next
    case False
    with None assms show ?thesis by (auto simp: numbered_def)
  qed
qed

text \<open>Opening and making room leave the numbered lines alone, but for those of a file dropped.\<close>

definition drops_old :: "jsonl_log \<Rightarrow> jsonl_log \<Rightarrow> bool" where
  "drops_old jl jl' =
     (\<exists>dropped. log_entries jl = dropped @ log_entries jl'
        \<and> (dropped \<noteq> [] \<longrightarrow> li_max_files (jl_limits jl) - 1 \<in> insert 0 (set (map fst (list_files jl)))))"

definition same_log :: "jsonl_log \<Rightarrow> jsonl_log \<Rightarrow> bool" where
  "same_log jl jl' = (log_inv jl' \<and> jl_next_seq jl' = jl_next_seq jl \<and> jl_limits jl' = jl_limits jl)"

lemma log_inv_files:
  assumes "log_inv jl" "files_ok (li_max_files (jl_limits jl)) fs" "file_entries fs = new" "log_entries jl = dropped @ new"
    and "w \<noteq> None \<Longrightarrow> \<exists>f rest. fs = (0, f) # rest \<and> lf_ended f"
  shows "log_inv (jl\<lparr>jl_writer := w, jl_files := Some fs\<rparr>)"
  using assms by (auto simp: log_inv_def log_entries_def list_files_def writer_ok_def sorted_append)

lemma open_writer_spec:
  assumes "open_writer answer fs = (res, fs')" "files_ok m fs" "1 \<le> m"
  shows "files_ok m fs' \<and> file_entries fs' = file_entries fs
    \<and> (\<forall>len. res = Ok len \<longrightarrow> (\<exists>f rest. fs' = (0, f) # rest \<and> lf_ended f))
    \<and> set (map fst fs') \<subseteq> insert 0 (set (map fst fs))"
proof -
  have only: "set (map fst (put_active f fs)) \<subseteq> insert 0 (set (map fst fs))" for f
    by (auto simp: put_active_def split: list.splits prod.splits nat.splits)
  have same: "file_entries (put_active (end_line (active_file fs)) fs) = file_entries fs"
    using put_active_entries [of "end_line (active_file fs)" fs "[]"] by simp
  have ended: "lf_ended (end_line f)" for f by (simp add: end_line_def)
  note put = put_active_ok [OF assms(2,3), of "end_line (active_file fs)"]
  show ?thesis
  proof (cases answer)
    case Opens
    with assms(1) have "fs' = put_active (end_line (active_file fs)) fs" by (simp add: open_writer_def Let_def)
    with same put ended only show ?thesis by auto
  next
    case (OpenFails reached)
    with assms(1) have "fs' = put_active (end_line (active_file fs)) fs \<or> fs' = fs" "\<exists>e. res = Err e"
      by (auto simp: open_writer_def Let_def)
    with same put assms(2) only show ?thesis by blast
  qed
qed

lemma ensure_writer_spec:
  assumes "ensure_writer answer jl = (res, jl')" "log_inv jl"
  shows "same_log jl jl' \<and> log_entries jl' = log_entries jl \<and> (\<forall>len. res = Ok len \<longrightarrow> jl_writer jl' \<noteq> None)
    \<and> set (map fst (list_files jl')) \<subseteq> insert 0 (set (map fst (list_files jl)))"
proof (cases "jl_writer jl")
  case (Some len)
  with assms show ?thesis by (auto simp: ensure_writer_def same_log_def)
next
  case None
  obtain r fs where opened: "open_writer answer (list_files jl) = (r, fs)" by fastforce
  have ok: "files_ok (li_max_files (jl_limits jl)) (list_files jl)" "1 \<le> li_max_files (jl_limits jl)"
    using assms(2) by (simp_all add: log_inv_def)
  note spec = open_writer_spec [OF opened ok]
  have inv: "log_inv (jl\<lparr>jl_writer := w, jl_files := Some fs\<rparr>)" if "w \<noteq> None \<Longrightarrow> \<exists>len. r = Ok len" for w
    using spec that by (intro log_inv_files [OF assms(2), of fs "log_entries jl" "[]"]) (auto simp: log_entries_def)
  show ?thesis
  proof (cases r)
    case (Inl e)
    with None opened assms(1) have "jl' = jl\<lparr>jl_writer := None, jl_files := Some fs\<rparr>" "res = Err e"
      by (auto simp: ensure_writer_def)
    with inv [of None] spec show ?thesis by (simp add: same_log_def log_entries_def list_files_def)
  next
    case (Inr len)
    with None opened assms(1) have "jl' = jl\<lparr>jl_writer := Some len, jl_files := Some fs\<rparr>"
      by (auto simp: ensure_writer_def)
    with inv [of "Some len"] Inr spec show ?thesis by (simp add: same_log_def log_entries_def list_files_def)
  qed
qed

lemma make_room_spec:
  assumes "audit_make_room needed rotated reopen len jl = (res, jl')" "log_inv jl" "jl_writer jl \<noteq> None"
  shows "same_log jl jl' \<and> drops_old jl jl' \<and> (\<forall>len. res = Ok len \<longrightarrow> jl_writer jl' \<noteq> None)"
proof (cases "len > 0 \<and> len + needed > li_max_file_bytes (jl_limits jl)")
  case False
  then have "jl' = jl" using assms(1) by (auto simp: audit_make_room_def)
  with assms show ?thesis by (simp add: same_log_def drops_old_def)
next
  case True
  obtain over fs where rot: "rotate (li_max_files (jl_limits jl)) rotated (list_files jl) = (over, fs)" by fastforce
  have ok: "files_ok (li_max_files (jl_limits jl)) (list_files jl)" "1 \<le> li_max_files (jl_limits jl)"
    using assms(2) by (simp_all add: log_inv_def)
  obtain dropped where fs: "files_ok (li_max_files (jl_limits jl)) fs" "log_entries jl = dropped @ file_entries fs"
      "dropped \<noteq> [] \<Longrightarrow> li_max_files (jl_limits jl) - 1 \<in> set (map fst (list_files jl))"
    using rotate_spec [OF ok rot] by (auto simp: log_entries_def)
  let ?jl = "jl\<lparr>jl_writer := None, jl_files := Some fs\<rparr>"
  have inv: "log_inv ?jl" by (rule log_inv_files [OF assms(2) fs(1) refl fs(2)]) simp
  have entries: "log_entries ?jl = file_entries fs" by (simp add: log_entries_def list_files_def)
  show ?thesis
  proof (cases over)
    case False
    with True rot assms(1) have "jl' = ?jl" "\<exists>e. res = Err e" by (auto simp: audit_make_room_def)
    with inv entries fs show ?thesis by (auto simp: same_log_def drops_old_def)
  next
    case over: True
    with True rot assms(1) have "ensure_writer reopen ?jl = (res, jl')" by (simp add: audit_make_room_def)
    from ensure_writer_spec [OF this inv] entries fs show ?thesis by (auto simp: same_log_def drops_old_def)
  qed
qed

lemma write_line_spec:
  assumes "write_line sz written seq (encode_record seq r) len jl = (res, jl')" "log_inv jl" "jl_writer jl \<noteq> None"
    "jl_next_seq jl = Some seq" "seq < - 1" "decode_line (Some (encode_record seq r)) = Some (seq, found)"
  shows "log_inv jl' \<and> jl_limits jl' = jl_limits jl
    \<and> (res = Ok () \<longrightarrow> log_entries jl' = log_entries jl @ [(seq, found)] \<and> jl_next_seq jl' = Some (seq + 1))
    \<and> (res \<noteq> Ok () \<longrightarrow> jl_next_seq jl' = Some seq
         \<and> (log_entries jl' = log_entries jl \<or> log_entries jl' = log_entries jl @ [(seq, found)]))"
proof -
  obtain f rest where files: "jl_files jl = Some ((0, f) # rest)" "lf_ended f"
    using assms(2,3) by (auto simp: log_inv_def writer_ok_def)
  have below: "\<forall>s \<in> set (map fst (log_entries jl)). s \<le> seq" using assms(2,4) by (simp add: log_inv_def)
  have up: "seq \<le> seq + 1" using word_inc_greater [of seq] assms(5) by (intro less_imp_le) auto
  have entries: "log_entries jl = file_entries rest @ decoded_lines f"
    using files by (simp add: log_entries_def list_files_def file_entries_Cons)
  define after where "after n w nx = jl\<lparr>jl_files := Some ((0, put_bytes sz n (encode_record seq r) f) # rest), jl_writer := w,
      jl_next_seq := Some nx\<rparr>" for n w nx
  have grown: "log_entries (after n w nx) = log_entries jl @ (if n = 0 \<or> n < sz then [] else [(seq, found)])" for n w nx
    using assms(6) unfolding entries
    by (simp add: after_def log_entries_def list_files_def file_entries_Cons decoded_put_bytes)
  have put: "log_inv (after n w nx)" if "w \<noteq> None \<Longrightarrow> sz < n" "seq \<le> nx" for n w nx
  proof -
    have "files_ok (li_max_files (jl_limits (after n w nx))) (list_files (after n w nx))"
      using assms(2) files by (simp add: after_def log_inv_def list_files_def files_ok_def)
    moreover have "sorted (map fst (log_entries (after n w nx)))"
      using assms(2) below unfolding grown by (simp add: log_inv_def sorted_append)
    moreover have "\<forall>s \<in> set (map fst (log_entries (after n w nx))). s \<le> nx"
      using below that(2) unfolding grown by (auto intro: order_trans)
    moreover have "writer_ok (after n w nx)" using that(1) by (cases w) (auto simp: after_def writer_ok_def put_bytes_def)
    moreover have "1 \<le> li_max_files (jl_limits (after n w nx))" using assms(2) by (simp add: after_def log_inv_def)
    moreover have "jl_next_seq (after n w nx) = Some nx" by (simp add: after_def)
    ultimately show ?thesis by (simp add: log_inv_def)
  qed
  show ?thesis
  proof (cases written)
    case None
    with assms(1) files have "jl' = after (sz + 1) (Some (len + sz + 1)) (seq + 1)" "res = Ok ()"
      by (auto simp: after_def write_line_def list_files_def put_active_def active_file_def Let_def)
    with put [of "Some (len + sz + 1)" "sz + 1" "seq + 1"] up grown show ?thesis by (simp add: after_def)
  next
    case (Some n)
    with assms(1,4) files have "jl' = after n None seq" "res \<noteq> Ok ()"
      by (auto simp: after_def write_line_def list_files_def put_active_def active_file_def Let_def)
    with put [of None n seq] grown [of n None seq] show ?thesis by (simp add: after_def)
  qed
qed

section \<open>What an append does to the log\<close>

text \<open>
  A record appended: at most old lines go, and its own line comes last under a number no other
  line is above. A failed append may have left the line all the same.
\<close>

definition appended ::
  "jsonl_log \<Rightarrow> audit_record \<Rightarrow> jsonl_log \<Rightarrow> jsonl_log \<Rightarrow> u64 \<Rightarrow> audit_record option \<Rightarrow> bool" where
  "appended jl r jlm jl' seq found =
     (drops_old jl jlm \<and> decode_line (Some (encode_record seq r)) = Some (seq, found)
      \<and> log_entries jl' = log_entries jlm @ [(seq, found)] \<and> jl_next_seq jl' = Some (seq + 1) \<and> seq < - 1
      \<and> (\<forall>n. jl_next_seq jl = Some n \<longrightarrow> seq = n)
      \<and> (jl_next_seq jl = None \<longrightarrow> (\<forall>s \<in> set (map fst (log_entries jl)). s < seq)))"

definition not_appended :: "jsonl_log \<Rightarrow> jsonl_log \<Rightarrow> jsonl_log \<Rightarrow> bool" where
  "not_appended jl jlm jl' =
     (drops_old jl jlm
      \<and> (log_entries jl' = log_entries jlm
         \<or> (\<exists>seq found. log_entries jl' = log_entries jlm @ [(seq, found)] \<and> jl_next_seq jl' = Some seq))
      \<and> (\<forall>n. jl_next_seq jl = Some n \<longrightarrow> jl_next_seq jl' = Some n)
      \<and> (\<forall>n. jl_next_seq jl = None \<longrightarrow> jl_next_seq jl' = Some n \<longrightarrow> (\<forall>s \<in> set (map fst (log_entries jl)). s < n))
      \<and> (jl_next_seq jl' = None \<longrightarrow> log_entries jl' = log_entries jl))"

lemma append_spec:
  assumes "append_locked text_len aa r jl = (res, jl')" "log_inv jl" "has_room jl"
  shows "log_inv jl' \<and> jl_limits jl' = jl_limits jl
    \<and> (\<exists>jlm. if res = Ok () then \<exists>seq found. appended jl r jlm jl' seq found else not_appended jl jlm jl')"
proof -
  have same: "not_appended jl jl j"
    if "log_entries j = log_entries jl" "\<forall>n. jl_next_seq jl = Some n \<longrightarrow> jl_next_seq j = Some n"
      "\<forall>n. jl_next_seq jl = None \<longrightarrow> jl_next_seq j = Some n \<longrightarrow> (\<forall>s \<in> set (map fst (log_entries jl)). s < n)" for j
    using that by (simp add: not_appended_def drops_old_def)
  obtain r1 jl1 where 1: "prepare True (aa_unfit aa) jl = (r1, jl1)" by fastforce
  note p1 = prepare_frame [OF 1 assms(2)]
  show ?thesis
  proof (cases r1)
    case (Inl e)
    with 1 assms(1) have "jl' = jl1" "res = Err e" by (auto simp: append_locked_def)
    with p1 same [of jl1] show ?thesis by auto
  next
    case (Inr u)
    note ok1 = this
    obtain r2 jl2 where 2: "numbered (aa_readable aa) jl1 = (r2, jl2)" by fastforce
    have room1: "has_room jl1" using assms(3) p1 by (simp add: has_room_def)
    have inv1: "log_inv jl1" using p1 by simp
    note p2 = numbered_spec [OF 2 inv1 room1]
    show ?thesis
    proof (cases r2)
      case (Inl e)
      with 1 2 ok1 assms(1) have "jl' = jl2" "res = Err e" by (auto simp: append_locked_def)
      with p1 p2 Inl same [of jl2] show ?thesis by auto
    next
      case (Inr seq)
      have seq: "jl_next_seq jl2 = Some seq" "\<forall>n. jl_next_seq jl = Some n \<longrightarrow> seq = n"
          "jl_next_seq jl = None \<longrightarrow> (\<forall>s \<in> set (map fst (log_entries jl)). s < seq)"
        using p1 p2 Inr 2 by (auto simp: numbered_def)
      have "seq < - 1"
      proof (cases "jl_next_seq jl")
        case None
        with 2 p1 Inr have "seq = highest_seq (list_files jl) + 1" by (auto simp: numbered_def Let_def split: if_splits)
        with room_next [OF assms(2,3)] show ?thesis by simp
      next
        case (Some n)
        with seq assms(3) show ?thesis by (simp add: has_room_def)
      qed
      note seq = seq this
      have inv2: "log_inv jl2" and same2: "log_entries jl2 = log_entries jl" "jl_limits jl2 = jl_limits jl"
          "list_files jl2 = list_files jl"
        using p1 p2 by simp_all
      obtain r3 jl3 where 3: "ensure_writer (aa_open aa) jl2 = (r3, jl3)" by fastforce
      note p3 = ensure_writer_spec [OF 3 inv2]
      show ?thesis
      proof (cases r3)
        case (Inl e)
        with 1 2 3 ok1 Inr assms(1) have "jl' = jl3" "res = Err e" by (auto simp: append_locked_def Let_def)
        with p3 same2 seq same [of jl3] show ?thesis by (auto simp: same_log_def)
      next
        case (Inr len)
        note ok3 = this
        let ?sz = "text_len (encode_record seq r)"
        obtain r4 jl4 where 4: "audit_make_room (?sz + 1) (aa_rotated aa) (aa_reopen aa) len jl3 = (r4, jl4)" by fastforce
        have inv3: "log_inv jl3" "jl_writer jl3 \<noteq> None" using p3 ok3 by (auto simp: same_log_def)
        note p4 = make_room_spec [OF 4 inv3]
        have at3: "log_entries jl3 = log_entries jl" "jl_limits jl3 = jl_limits jl"
            "set (map fst (list_files jl3)) \<subseteq> insert 0 (set (map fst (list_files jl)))"
          using p3 same2 by (simp_all add: same_log_def)
        obtain dropped where dropped: "log_entries jl3 = dropped @ log_entries jl4"
            "dropped \<noteq> [] \<Longrightarrow> li_max_files (jl_limits jl3) - 1 \<in> insert 0 (set (map fst (list_files jl3)))"
          using p4 unfolding drops_old_def by blast
        have old: "drops_old jl jl4"
          unfolding drops_old_def
          by (rule exI [of _ dropped]) (use dropped at3 in \<open>auto simp del: set_map\<close>)
        show ?thesis
        proof (cases r4)
          case (Inl e)
          with 1 2 3 4 ok1 ok3 \<open>r2 = Ok seq\<close> assms(1) have "jl' = jl4" "res = Err e" by (auto simp: append_locked_def Let_def)
          moreover from this p3 p4 same2 seq old have "not_appended jl jl4 jl'" by (auto simp: not_appended_def same_log_def)
          ultimately show ?thesis using p3 p4 same2 by (auto simp: same_log_def)
        next
          case (Inr len')
          with 1 2 3 4 ok1 ok3 \<open>r2 = Ok seq\<close> assms(1)
          have written: "write_line ?sz (aa_written aa) seq (encode_record seq r) len' jl4 = (res, jl')"
            by (simp add: append_locked_def Let_def)
          obtain found where found: "decode_line (Some (encode_record seq r)) = Some (seq, found)"
            using decode_line_encode by blast
          have at4: "log_inv jl4" "jl_writer jl4 \<noteq> None" "jl_next_seq jl4 = Some seq" "jl_limits jl4 = jl_limits jl"
            using p3 p4 Inr same2 seq(1) by (auto simp: same_log_def)
          note p5 = write_line_spec [OF written at4(1,2,3) seq(4) found]
          show ?thesis
          proof (cases "res = Ok ()")
            case True
            with p5 old found seq have "appended jl r jl4 jl' seq found" by (simp add: appended_def)
            with p5 at4 True show ?thesis by auto
          next
            case False
            with p5 old seq have "not_appended jl jl4 jl'" by (auto simp: not_appended_def)
            with p5 at4 False show ?thesis by auto
          qed
        qed
      qed
    qed
  qed
qed

lemma append_ok:
  assumes "append_locked text_len aa r jl = (Ok (), jl')" "log_inv jl" "has_room jl"
  shows "log_inv jl' \<and> jl_limits jl' = jl_limits jl \<and> (\<exists>jlm seq found. appended jl r jlm jl' seq found)"
  using append_spec [OF assms] by simp

lemma append_err:
  assumes "append_locked text_len aa r jl = (Err e, jl')" "log_inv jl" "has_room jl"
  shows "log_inv jl' \<and> jl_limits jl' = jl_limits jl \<and> (\<exists>jlm. not_appended jl jlm jl')"
  using append_spec [OF assms] by simp

section \<open>Runs of the log\<close>

text \<open>
  The list beside the log is a history variable: what appends that succeeded have written. A
  process starts on a log that still has a numbered line, or on one nothing was written to.
\<close>

inductive log_step ::
  "(json \<Rightarrow> nat) \<Rightarrow> jsonl_log \<times> (u64 \<times> audit_record option) list
     \<Rightarrow> jsonl_log \<times> (u64 \<times> audit_record option) list \<Rightarrow> bool" for text_len where
  appends: "has_room jl \<Longrightarrow> append_locked text_len aa r jl = (Ok (), jl') \<Longrightarrow>
     log_step text_len (jl, acked) (jl', acked @ [List.last (log_entries jl')])"
| fails: "has_room jl \<Longrightarrow> append_locked text_len aa r jl = (Err e, jl') \<Longrightarrow> log_step text_len (jl, acked) (jl', acked)"
| queries: "log_step text_len (jl, acked) (snd (query_locked unfit readable q jl), acked)"
| reads: "log_step text_len (jl, acked) (snd (since_locked unfit readable written from_time jl), acked)"
| restarts: "log_entries jl \<noteq> [] \<or> acked = [] \<Longrightarrow> log_step text_len (jl, acked) (restarted jl, acked)"

abbreviation log_steps where "log_steps text_len \<equiv> (log_step text_len)\<^sup>*\<^sup>*"

definition run_inv :: "jsonl_log \<times> (u64 \<times> audit_record option) list \<Rightarrow> bool" where
  "run_inv = (\<lambda>(jl, acked).
     log_inv jl \<and> sorted_wrt (<) (map fst acked)
     \<and> (\<forall>n. jl_next_seq jl = Some n \<longrightarrow> (\<forall>a \<in> set (map fst acked). a < n))
     \<and> (log_entries jl \<noteq> [] \<longrightarrow> (\<forall>a \<in> set (map fst acked). a \<le> fst (List.last (log_entries jl))))
     \<and> (jl_next_seq jl = None \<longrightarrow> log_entries jl \<noteq> [] \<or> acked = []))"

lemma read_frame_inv:
  assumes "log_inv jl" "snd (prepare False unfit jl) = jl'"
  shows "log_inv jl' \<and> log_entries jl' = log_entries jl \<and> jl_next_seq jl' = jl_next_seq jl"
  using prepare_frame [of False unfit jl "fst (prepare False unfit jl)" jl'] assms by (metis prod.collapse)

lemma query_state: "snd (query_locked unfit readable q jl) = snd (prepare False unfit jl)"
  by (auto simp: query_locked_def split: prod.splits sum.splits bool.splits)

lemma since_state: "snd (since_locked unfit readable written from_time jl) = snd (prepare False unfit jl)"
  by (auto simp: since_locked_def split: prod.splits sum.splits bool.splits)

text \<open>Every number acknowledged before is below the next one.\<close>

lemma acked_below:
  assumes "run_inv (jl, acked)" "\<forall>n. jl_next_seq jl = Some n \<longrightarrow> seq = n"
    and "jl_next_seq jl = None \<longrightarrow> (\<forall>s \<in> set (map fst (log_entries jl)). s < seq)"
  shows "\<forall>a \<in> set (map fst acked). a < seq"
proof (cases "jl_next_seq jl")
  case None
  show ?thesis
  proof (cases "log_entries jl = []")
    case True
    with None assms(1) show ?thesis by (simp add: run_inv_def)
  next
    case False
    then have "fst (List.last (log_entries jl)) \<in> set (map fst (log_entries jl))" by simp
    with None assms(3) have "fst (List.last (log_entries jl)) < seq" by blast
    with assms(1) False show ?thesis unfolding run_inv_def by (auto intro: le_less_trans)
  qed
next
  case (Some n)
  with assms show ?thesis by (simp add: run_inv_def)
qed

lemma run_inv_kept:
  assumes "run_inv (jl, acked)" "log_inv jl'" "drops_old jl jlm"
    and "log_entries jl' = log_entries jlm \<or> (\<exists>seq found. log_entries jl' = log_entries jlm @ [(seq, found)] \<and> jl_next_seq jl' = Some seq)"
    and "\<forall>n. jl_next_seq jl' = Some n \<longrightarrow> (\<forall>a \<in> set (map fst acked). a < n)"
    and "jl_next_seq jl' = None \<longrightarrow> log_entries jl' = log_entries jl \<and> jl_next_seq jl = None"
  shows "run_inv (jl', acked)"
proof -
  obtain dropped where dropped: "log_entries jl = dropped @ log_entries jlm" using assms(3) by (auto simp: drops_old_def)
  have "a \<le> fst (List.last (log_entries jl'))" if "log_entries jl' \<noteq> []" "a \<in> set (map fst acked)" for a
    using assms(4)
  proof (elim disjE exE conjE)
    assume "log_entries jl' = log_entries jlm"
    with that dropped assms(1) show ?thesis by (auto simp: run_inv_def)
  next
    fix seq found assume "log_entries jl' = log_entries jlm @ [(seq, found)]" "jl_next_seq jl' = Some seq"
    with assms(5) that(2) show ?thesis by (auto intro: less_imp_le)
  qed
  with assms show ?thesis by (auto simp: run_inv_def)
qed

lemma run_inv_step:
  assumes "log_step text_len c c'" "run_inv c"
  shows "run_inv c'"
  using assms
proof cases
  case (appends jl aa r jl' acked)
  have inv: "log_inv jl" using appends assms(2) by (simp add: run_inv_def)
  from append_ok [OF appends(4) inv appends(3)] obtain jlm seq found where
    ok: "log_inv jl'" "appended jl r jlm jl' seq found" by blast
  then have spec: "log_inv jl'" "log_entries jl' = log_entries jlm @ [(seq, found)]" "jl_next_seq jl' = Some (seq + 1)" "seq < - 1"
      "\<forall>n. jl_next_seq jl = Some n \<longrightarrow> seq = n"
      "jl_next_seq jl = None \<longrightarrow> (\<forall>s \<in> set (map fst (log_entries jl)). s < seq)"
    by (simp_all add: appended_def)
  have run: "run_inv (jl, acked)" using appends assms(2) by simp
  have below: "\<forall>a \<in> set (map fst acked). a < seq" by (rule acked_below [OF run spec(5,6)])
  have up: "seq < seq + 1" by (rule word_inc_greater) (use spec(4) in auto)
  have "\<forall>a \<in> set (map fst (acked @ [(seq, found)])). a < seq + 1" using below up by (auto intro: less_trans)
  moreover have "\<forall>a \<in> set (map fst (acked @ [(seq, found)])). a \<le> seq" using below by (auto intro: less_imp_le)
  moreover have "sorted_wrt (<) (map fst (acked @ [(seq, found)]))"
    using run below by (auto simp: run_inv_def sorted_wrt_append)
  ultimately have "run_inv (jl', acked @ [(seq, found)])" using spec(1,2,3) by (simp add: run_inv_def)
  with appends spec(2) show ?thesis by simp
next
  case (fails jl aa r e jl' acked)
  have inv: "log_inv jl" using fails assms(2) by (simp add: run_inv_def)
  from append_err [OF fails(4) inv fails(3)] obtain jlm where
    ok: "log_inv jl'" "not_appended jl jlm jl'" by blast
  then have spec: "log_inv jl'" "drops_old jl jlm"
      "log_entries jl' = log_entries jlm \<or> (\<exists>seq found. log_entries jl' = log_entries jlm @ [(seq, found)] \<and> jl_next_seq jl' = Some seq)"
      "\<forall>n. jl_next_seq jl = Some n \<longrightarrow> jl_next_seq jl' = Some n"
      "\<forall>n. jl_next_seq jl = None \<longrightarrow> jl_next_seq jl' = Some n \<longrightarrow> (\<forall>s \<in> set (map fst (log_entries jl)). s < n)"
      "jl_next_seq jl' = None \<longrightarrow> log_entries jl' = log_entries jl"
    by (simp_all add: not_appended_def)
  have "\<forall>a \<in> set (map fst acked). a < n" if "jl_next_seq jl' = Some n" for n
  proof (rule acked_below)
    show "run_inv (jl, acked)" using fails assms(2) by simp
  qed (use spec(4,5) that in \<open>auto\<close>)
  then show ?thesis using run_inv_kept [of jl acked jl' jlm] fails spec assms(2) by (cases "jl_next_seq jl") auto
next
  case (queries jl acked unfit readable q)
  with assms(2) read_frame_inv [of jl unfit, OF _ refl] show ?thesis by (auto simp: run_inv_def query_state)
next
  case (reads jl acked unfit readable written from_time)
  with assms(2) read_frame_inv [of jl unfit, OF _ refl] show ?thesis by (auto simp: run_inv_def since_state)
next
  case (restarts jl acked)
  with assms(2) log_inv_restarted show ?thesis
    by (auto simp: run_inv_def restarted_def log_entries_def list_files_def)
qed

lemma run_inv_steps: "log_steps text_len c c' \<Longrightarrow> run_inv c \<Longrightarrow> run_inv c'"
  by (induction rule: rtranclp_induct) (auto intro: run_inv_step)

lemma run_inv_new: "run_inv (jsonl_new limits, [])"
  using log_inv_new by (simp add: run_inv_def log_entries_def jsonl_new_def list_files_def)

section \<open>Reading is a function of the abstract log\<close>

definition usable_entries :: "(u64 \<times> audit_record option) list \<Rightarrow> (u64 \<times> audit_record) list" where
  "usable_entries es = List.map_filter (\<lambda>(seq, found). map_option (\<lambda>r. (seq, r)) found) es"

definition below :: "u64 option \<Rightarrow> u64 \<times> audit_record \<Rightarrow> bool" where
  "below before = (\<lambda>(seq, _). case before of Some b \<Rightarrow> seq < b | None \<Rightarrow> True)"

lemma newest_first_rev: "newest_first fs = rev (file_entries fs)"
  by (simp add: newest_first_def file_entries_def rev_concat rev_map o_def case_prod_unfold)

lemma usable_rev: "usable_entries (rev es) = rev (usable_entries es)"
  by (simp add: usable_entries_def List.map_filter_def rev_map [symmetric] rev_filter [symmetric])

lemma usable_append: "usable_entries (xs @ ys) = usable_entries xs @ usable_entries ys"
  by (simp add: usable_entries_def map_filter_append)

lemma collect_usable: "collect wanted before ds = take wanted (filter (below before) (usable_entries ds))"
  by (induction wanted before ds rule: collect.induct)
     (auto simp: usable_entries_def below_def List.map_filter_simps not_le split: option.splits)

lemma query_usable:
  assumes "jl_files jl = Some fs"
  shows "fst (query_locked None True q jl)
     = Ok (page_of (aq_limit q) (take (aq_limit q + 1) (filter (below (aq_cursor q)) (rev (usable_entries (log_entries jl))))))"
proof -
  have "fst (prepare False None jl) = Ok True" "list_files (snd (prepare False None jl)) = list_files jl"
    using assms by (auto simp: prepare_def list_files_def)
  then show ?thesis
    by (cases "prepare False None jl")
       (simp add: query_locked_def collect_usable newest_first_rev usable_rev log_entries_def)
qed

lemma since_usable:
  assumes "jl_files jl = Some fs"
    and "\<forall>(i, f) \<in> set fs. last_written_before (written i) from_time \<longrightarrow> (\<forall>r \<in> set (usable_records f). \<not> ar_at r \<ge> from_time)"
  shows "fst (since_locked None True written from_time jl)
     = Ok (filter (\<lambda>r. ar_at r \<ge> from_time) (map snd (usable_entries (log_entries jl))))"
proof -
  have "fst (prepare False None jl) = Ok True" "list_files (snd (prepare False None jl)) = fs"
    using assms(1) by (auto simp: prepare_def list_files_def)
  moreover have one: "map snd (usable_entries (decoded_lines f)) = usable_records f" for f
    by (simp add: usable_entries_def usable_records_def List.map_filter_def o_def case_prod_unfold)
       (induction "decoded_lines f"; auto)
  have "concat (map (\<lambda>(i, f). if last_written_before (written i) from_time then []
          else filter (\<lambda>r. ar_at r \<ge> from_time) (usable_records f)) (rev gs))
      = filter (\<lambda>r. ar_at r \<ge> from_time) (map snd (usable_entries (file_entries gs)))" if "set gs \<subseteq> set fs" for gs
    using that
  proof (induction gs)
    case (Cons p gs)
    obtain i f where p: "p = (i, f)" by fastforce
    have "filter (\<lambda>r. ar_at r \<ge> from_time) (usable_records f) = []" if "last_written_before (written i) from_time"
      using assms(2) Cons.prems p that by (auto simp: filter_empty_conv)
    with Cons p one [of f] show ?case
      by (auto simp: file_entries_Cons usable_append)
  qed (simp add: usable_entries_def List.map_filter_simps)
  from this [of fs] have "concat (map (\<lambda>(i, f). if last_written_before (written i) from_time then []
          else filter (\<lambda>r. ar_at r \<ge> from_time) (usable_records f)) (rev fs))
      = filter (\<lambda>r. ar_at r \<ge> from_time) (map snd (usable_entries (log_entries jl)))"
    using assms(1) by (simp add: log_entries_def list_files_def)
  ultimately show ?thesis by (cases "prepare False None jl") (simp add: since_locked_def)
qed

section \<open>Pages\<close>

text \<open>A caller that follows every page's cursor.\<close>

fun read_pages :: "nat \<Rightarrow> audit_query \<Rightarrow> jsonl_log \<Rightarrow> (u64 \<times> audit_record) list" where
  "read_pages 0 q jl = []"
| "read_pages (Suc fuel) q jl =
     (case fst (query_locked None True q jl) of
        Err _ \<Rightarrow> []
      | Ok page \<Rightarrow>
          pg_entries page @ (case pg_next page of None \<Rightarrow> [] | Some c \<Rightarrow> read_pages fuel (audit_query_after c q) jl))"

lemma below_rest:
  assumes "sorted_wrt (>) (map fst xs)" "k < length xs"
  shows "filter (below (Some (fst (xs ! k)))) xs = drop (Suc k) xs"
  using assms
proof (induction xs arbitrary: k)
  case (Cons x xs)
  obtain s r where x: "x = (s, r)" by fastforce
  show ?case
  proof (cases k)
    case 0
    have "filter (below (Some s)) xs = xs" using Cons.prems x by (auto simp: below_def filter_id_conv case_prod_unfold)
    with 0 x show ?thesis by (simp add: below_def)
  next
    case (Suc j)
    have "xs ! j \<in> set xs" using Cons.prems Suc by simp
    then have "fst (xs ! j) < s" using Cons.prems(1) x by auto
    then have "\<not> below (Some (fst (xs ! j))) x" using x by (simp add: below_def)
    with Suc Cons x show ?thesis by simp
  qed
qed simp

lemma below_below:
  assumes "sorted_wrt (>) (map fst xs)" "k < length (filter (below b) xs)"
  shows "filter (below (Some (fst (filter (below b) xs ! k)))) xs = drop (Suc k) (filter (below b) xs)"
proof -
  let ?ys = "filter (below b) xs"
  have sorted: "sorted_wrt (>) (map fst ?ys)" using assms(1) by (simp add: sorted_wrt_map sorted_wrt_filter)
  have "?ys ! k \<in> set ?ys" using assms(2) by (rule nth_mem)
  then have "below b x" if "below (Some (fst (?ys ! k))) x" for x
    using that by (auto simp: below_def split: option.splits intro: less_trans)
  then have "filter (below (Some (fst (?ys ! k)))) xs = filter (below (Some (fst (?ys ! k)))) ?ys"
    by (auto intro: filter_cong)
  with below_rest [OF sorted assms(2)] show ?thesis by simp
qed

lemma read_pages_all:
  assumes "jl_files jl = Some fs" "sorted_wrt (>) (map fst (rev (usable_entries (log_entries jl))))" "1 \<le> aq_limit q"
    and "length (filter (below (aq_cursor q)) (rev (usable_entries (log_entries jl)))) < fuel"
  shows "read_pages fuel q jl = filter (below (aq_cursor q)) (rev (usable_entries (log_entries jl)))"
  using assms(3,4)
proof (induction fuel arbitrary: q)
  case (Suc fuel)
  define ys where "ys = filter (below (aq_cursor q)) (rev (usable_entries (log_entries jl)))"
  note page = query_usable [OF assms(1), of q, folded ys_def]
  show ?case
  proof (cases "aq_limit q < length ys")
    case False
    with page show ?thesis by (simp add: page_of_def ys_def [symmetric])
  next
    case True
    have split: "butlast (take (aq_limit q + 1) ys) = take (aq_limit q) ys"
      using True by (simp add: butlast_take)
    have some: "take (aq_limit q) ys \<noteq> []" using Suc.prems True by auto
    have last: "List.last (take (aq_limit q) ys) = ys ! (aq_limit q - 1)"
      using True Suc.prems some by (simp add: last_conv_nth min_def)
    let ?q = "audit_query_after (fst (ys ! (aq_limit q - 1))) q"
    have rest: "filter (below (aq_cursor ?q)) (rev (usable_entries (log_entries jl))) = drop (aq_limit q) ys"
      using below_below [OF assms(2), of "aq_limit q - 1" "aq_cursor q"] True Suc.prems
      by (simp add: audit_query_after_def ys_def)
    have "read_pages fuel ?q jl = drop (aq_limit q) ys"
      using Suc.IH [of ?q] Suc.prems rest True by (simp add: audit_query_after_def ys_def)
    with page True split some last show ?thesis
      by (simp add: page_of_def ys_def [symmetric])
  qed
qed simp

section \<open>Properties\<close>

lemma step_limits: "log_step text_len c c' \<Longrightarrow> run_inv c \<Longrightarrow> jl_limits (fst c') = jl_limits (fst c)"
proof (induction rule: log_step.induct)
  case (appends jl aa r jl' acked)
  then show ?case using append_ok [of text_len aa r jl jl'] by (simp add: run_inv_def)
next
  case (fails jl aa r e jl' acked)
  then show ?case using append_err [of text_len aa r jl e jl'] by (simp add: run_inv_def)
qed (auto simp: query_state since_state restarted_def prepare_def split: option.splits)

lemma run_limits: "log_steps text_len c c' \<Longrightarrow> run_inv c \<Longrightarrow> jl_limits (fst c') = jl_limits (fst c)"
  by (induction rule: rtranclp_induct) (auto dest: step_limits run_inv_steps)

lemma files_bounded:
  assumes "files_ok m fs"
  shows "length fs \<le> m"
proof -
  have "distinct (map fst fs)" using assms by (simp add: files_ok_def strict_sorted_iff)
  then have "length fs = card (set (map fst fs))" by (metis distinct_card length_map)
  also have "\<dots> \<le> card {..<m}" using assms by (intro card_mono) (auto simp: files_ok_def list_all_iff)
  finally show ?thesis by simp
qed




section \<open>Witnesses\<close>

definition sample_record :: audit_record where
  "sample_record = \<lparr>ar_schema = 1, ar_run = WallTime 1, ar_at = WallTime 2, ar_operation = None, ar_principal = Some Operator,
     ar_receiver = None, ar_event = PolicyLoadFailed ''missing''\<rparr>"

definition all_well :: append_answers where
  "all_well = \<lparr>aa_unfit = None, aa_readable = True, aa_open = Opens, aa_rotated = 10, aa_reopen = Opens, aa_written = None\<rparr>"

definition sample_log :: jsonl_log where
  "sample_log =
     \<lparr>jl_limits = audit_limits_default,
      jl_files = Some [(0, \<lparr>lf_lines = [Some (encode_record 1 sample_record)], lf_ended = True, lf_len = 101\<rparr>)],
      jl_checked = True, jl_next_seq = Some 2, jl_writer = Some 101\<rparr>"

lemma sample_valid: "record_valid sample_record"
  by (simp add: record_valid_def sample_record_def AUDIT_SCHEMA_def)

lemma sample_room: "has_room (jsonl_new audit_limits_default)"
  by (simp add: has_room_def log_entries_def list_files_def jsonl_new_def)

lemma sample_appended:
  "append_locked (\<lambda>_. 100) all_well sample_record (jsonl_new audit_limits_default) = (Ok (), sample_log)"
  by (simp add: append_locked_def jsonl_new_def all_well_def prepare_def numbered_def list_files_def Let_def ensure_writer_def
      open_writer_def active_file_def empty_file_def end_line_def put_active_def audit_make_room_def write_line_def put_bytes_def
      sample_log_def with_limits_def audit_limits_default_def)

lemma sample_entries: "log_entries sample_log = [(1, Some (clip_record sample_record))]"
  using decode_encode_record [OF sample_valid, of 1]
  by (simp add: log_entries_def list_files_def sample_log_def file_entries_Cons decoded_lines_def List.map_filter_simps)

lemma sample_run:
  "log_steps (\<lambda>_. 100) (jsonl_new audit_limits_default, []) (sample_log, [(1, Some (clip_record sample_record))])"
  using appends [OF sample_room sample_appended, of "[]"] by (simp add: sample_entries r_into_rtranclp)




text \<open>
  An append that failed after its line reached the file gives its number to the next record: the
  second record then has the number of the first.
\<close>

lemma number_used_twice:
  "\<exists>jl1 jl2. append_locked (\<lambda>_. 100) (all_well\<lparr>aa_written := Some 101\<rparr>) sample_record (jsonl_new audit_limits_default) = (Err ''writing'', jl1)
     \<and> append_locked (\<lambda>_. 100) all_well sample_record jl1 = (Ok (), jl2)
     \<and> map fst (log_entries jl2) = [1, 1]"
  using decode_encode_record [OF sample_valid, of 1]
  by (simp add: append_locked_def jsonl_new_def all_well_def prepare_def numbered_def list_files_def Let_def ensure_writer_def
      open_writer_def active_file_def empty_file_def end_line_def put_active_def audit_make_room_def write_line_def put_bytes_def
      with_limits_def audit_limits_default_def log_entries_def file_entries_Cons decoded_lines_def List.map_filter_simps)

end
