(* ===== verification/Audit_Restart.thy ===== *)
theory Audit_Restart
  imports Agent_State Audit_Log_Properties
begin

text \<open>
  The budget after a restart: \<open>ensure_ledger\<close> of \<open>service/agent/budget.rs\<close> reads a day of the log
  through \<open>since\<close> of \<open>audit_jsonl.rs\<close> and rebuilds the ledger from it. What the log still holds is
  counted, however many files were passed over.
\<close>

lemma counted_change_mono:
  assumes "counted_change records rec = Some x" "set records' \<subseteq> set records"
  shows "counted_change records' rec = Some x"
proof -
  have "set (List.map_filter not_dispatched_key records') \<subseteq> set (List.map_filter not_dispatched_key records)"
    using assms(2) by (auto simp: List.map_filter_def)
  with assms(1) show ?thesis
    by (auto simp: counted_change_def Let_def split: audit_event.splits option.splits if_splits)
qed

lemma recent_rebuilt:
  assumes "rec \<in> set records" "counted_change records rec = Some (r, k, c)"
    "ar_at rec > wt_saturating_sub now w" "w \<le> RETENTION"
  shows "c \<in> set (ledger_recent (ledger_merge other (ledger_rebuild records now)) r now w)"
proof -
  have at: "rc_at c = ar_at rec" using assms(2) by (rule counted_change_at)
  have "wt_saturating_sub now RETENTION \<le> wt_saturating_sub now w"
    using assms(4) by (rule wt_saturating_sub_antimono)
  with assms(3) at have "wt_saturating_sub now RETENTION \<le> rc_at c" by simp
  with assms(1,2) have "(k, c) \<in> held (ledger_rebuild records now) r" by (auto simp: held_rebuild)
  then have "(k, c) \<in> held (ledger_merge other (ledger_rebuild records now)) r" using held_merge(1) by blast
  with assms(3) at show ?thesis by (force simp: recent_held)
qed

text \<open>The clock a file was last written by is within the margin of the times in its records.\<close>

definition written_in_time :: "(nat \<Rightarrow> u64 option) \<Rightarrow> jsonl_log \<Rightarrow> bool" where
  "written_in_time written jl \<longleftrightarrow>
     (\<forall>(i, f) \<in> set (list_files jl). \<forall>w. written i = Some w \<longrightarrow>
        (\<forall>r \<in> set (usable_records f). wt_millis (ar_at r) \<le> saturating_add w CLOCK_MARGIN_MILLIS))"

lemma since_reads:
  assumes "written_in_time written jl"
  shows "fst (since_locked None True written from_time (restarted jl))
    = Ok (filter (\<lambda>r. ar_at r \<ge> from_time) (map snd (usable_entries (log_entries jl))))"
proof (cases "jl_files jl")
  case None
  then show ?thesis
    by (simp add: since_locked_def prepare_def restarted_def log_entries_def list_files_def file_entries_def usable_entries_def
        List.map_filter_simps)
next
  case (Some fs)
  then have restarted: "jl_files (restarted jl) = Some fs" "log_entries (restarted jl) = log_entries jl"
    by (simp_all add: restarted_def log_entries_def list_files_def)
  have "\<forall>(i, f) \<in> set fs. last_written_before (written i) from_time \<longrightarrow> (\<forall>r \<in> set (usable_records f). \<not> ar_at r \<ge> from_time)"
    using assms Some
    by (fastforce simp: written_in_time_def list_files_def last_written_before_def less_eq_wall_time_def split: option.splits)
  from since_usable [OF restarted(1) this] show ?thesis by (simp add: restarted(2))
qed

text \<open>
  C14: a restart does not refresh a budget: a service that starts on the files another left, whatever the
  running service counted meanwhile, has in its ledger every volume change of the log that lies in
  the window of a budget, unless the log says that it was not sent.
\<close>

theorem restart_keeps_budget:
  assumes "written_in_time written jl" "\<not> bk_ready (ag_books ag)" "w \<le> RETENTION"
    and "fst (since_locked None True written (wt_saturating_sub now RETENTION) (restarted jl)) = Ok records"
    and "rec \<in> snd ` set (usable_entries (log_entries jl))"
    and "counted_change (map snd (usable_entries (log_entries jl))) rec = Some (r, k, c)" "ar_at rec > wt_saturating_sub now w"
  shows "\<exists>ag'. ensure_ledger now (Some records) ag = (True, ag') \<and> bk_ready (ag_books ag')
    \<and> c \<in> set (ledger_recent (bk_ledger (ag_books ag')) r now w)"
proof -
  have records: "records = filter (\<lambda>r. ar_at r \<ge> wt_saturating_sub now RETENTION) (map snd (usable_entries (log_entries jl)))"
    using assms(4) since_reads [OF assms(1)] by simp
  have "wt_saturating_sub now RETENTION \<le> wt_saturating_sub now w"
    using assms(3) by (rule wt_saturating_sub_antimono)
  with assms(5,7) records have "rec \<in> set records" by auto
  moreover have "counted_change records rec = Some (r, k, c)"
    by (rule counted_change_mono [OF assms(6)]) (auto simp: records)
  ultimately show ?thesis using assms(2,3,7) by (simp add: ensure_ledger_def recent_rebuilt)
qed

definition left_log :: jsonl_log where
  "left_log =
     \<lparr>jl_limits = audit_limits_default,
      jl_files = Some [(0, \<lparr>lf_lines = [Some (encode_record 1 example_dispatch)], lf_ended = True, lf_len = 101\<rparr>)],
      jl_checked = True, jl_next_seq = Some 2, jl_writer = Some 101\<rparr>"

lemma left_lines:
  "decoded_lines \<lparr>lf_lines = [Some (encode_record 1 example_dispatch)], lf_ended = True, lf_len = 101\<rparr>
    = [(1, Some (clip_record example_dispatch))]"
proof -
  have "receiver_id_new ''den'' = Ok (ReceiverId ''den'')" by code_simp
  from receiver_valid_new [OF this] have "record_valid example_dispatch"
    by (simp add: record_valid_def example_dispatch_def AUDIT_SCHEMA_def i16_of_def)
  from decode_encode_record [OF this, of 1] show ?thesis by (simp add: decoded_lines_def List.map_filter_simps)
qed

lemma left_usable: "usable_entries (log_entries left_log) = [(1, clip_record example_dispatch)]"
  by (simp add: log_entries_def list_files_def left_log_def file_entries_Cons left_lines usable_entries_def List.map_filter_simps)

lemma left_in_time: "written_in_time (\<lambda>_. Some 5000) left_log"
  by (simp add: written_in_time_def list_files_def left_log_def usable_records_def left_lines List.map_filter_simps)
     (simp add: clip_record_def example_dispatch_def word_le_nat_alt unat_saturating_add CLOCK_MARGIN_MILLIS_def)

theorem restart_keeps_budget_witness:
  "\<exists>records. fst (since_locked None True (\<lambda>_. Some 5000) (wt_saturating_sub (WallTime 7000) RETENTION) (restarted left_log)) = Ok records
     \<and> (\<forall>ag. \<not> bk_ready (ag_books ag) \<longrightarrow>
          (\<exists>ag'. ensure_ledger (WallTime 7000) (Some records) ag = (True, ag')
             \<and> example_change \<in> set (ledger_recent (bk_ledger (ag_books ag')) (ReceiverId ''den'') (WallTime 7000) (from_secs 600))))"
proof -
  have window: "from_secs 600 \<le> RETENTION" by (simp add: from_secs_def RETENTION_def)
  have counted: "counted_change (map snd (usable_entries (log_entries left_log))) (clip_record example_dispatch)
      = Some (ReceiverId ''den'', op_key_new (WallTime 1) 1, example_change)"
    by (simp add: left_usable counted_change_def example_dispatch_def clip_record_def not_dispatched_key_def List.map_filter_def
          example_change_def level_or_lowest_def level_from_half_steps_def LOWEST_def HIGHEST_def)
  have recent: "ar_at (clip_record example_dispatch) > wt_saturating_sub (WallTime 7000) (from_secs 600)"
    by (simp add: wall_time_less_unat unat_wt_saturating_sub example_dispatch_def clip_record_def)
  have logged: "clip_record example_dispatch \<in> snd ` set (usable_entries (log_entries left_log))" by (simp add: left_usable)
  from since_reads [OF left_in_time] obtain records where records:
      "fst (since_locked None True (\<lambda>_. Some 5000) (wt_saturating_sub (WallTime 7000) RETENTION) (restarted left_log)) = Ok records"
    by blast
  show ?thesis
    using restart_keeps_budget [OF left_in_time _ window records logged counted recent] records by blast
qed

end
