(* ===== verification/Sse_Stream.thy ===== *)
theory Sse_Stream
  imports Event_Stream Avr_Protocol
begin

text \<open>
  Reading an event stream: the parser of \<open>crates/api-contract/src/events.rs\<close> and the readers of
  \<open>crates/api-client/src/sse.rs\<close>. What the body of the response yields is an argument. The data of
  an event is text here; its JSON is decoded by an argument. The writer is the web framework's, so
  it appears in the lemmas only, as the format of server-sent events.
\<close>

section \<open>The vocabulary\<close>

definition MAX_EVENT_BYTES :: nat where "MAX_EVENT_BYTES = 1024 * 1024"

datatype event_name = StateEvent | OperationEvent | MissedEvent | EndEvent

fun event_name_str :: "event_name \<Rightarrow> string" where
  "event_name_str StateEvent = ''state''"
| "event_name_str OperationEvent = ''operation''"
| "event_name_str MissedEvent = ''missed''"
| "event_name_str EndEvent = ''end''"

definition event_name_parse :: "string \<Rightarrow> event_name option" where
  "event_name_parse n = List.find (\<lambda>e. event_name_str e = n) [StateEvent, OperationEvent, MissedEvent, EndEvent]"

datatype end_reason = EndSessionClosed | EndRevoked | EndShutdown | EndMaxAge

record sse_event =
  se_name :: event_name
  se_data :: string

datatype sse_error = EventTooLarge | EventNotText

section \<open>The parser\<close>

record sse_parser =
  sp_line :: string
  sp_after_cr :: bool
  sp_name :: "string option"
  sp_data :: "string list"
  sp_data_bytes :: nat

definition parser_new :: sse_parser where
  "parser_new = \<lparr>sp_line = [], sp_after_cr = False, sp_name = None, sp_data = [], sp_data_bytes = 0\<rparr>"

fun join_lines :: "string list \<Rightarrow> string" where
  "join_lines [] = []"
| "join_lines [l] = l"
| "join_lines (l # ls) = l @ LF # join_lines ls"

definition sse_dispatch :: "sse_parser \<Rightarrow> sse_event option \<times> sse_parser" where
  "sse_dispatch p =
     (let p' = p\<lparr>sp_name := None, sp_data := [], sp_data_bytes := 0\<rparr> in
      if sp_data p = [] then (None, p')
      else (case Option.bind (sp_name p) event_name_parse of
              None \<Rightarrow> None
            | Some n \<Rightarrow> Some \<lparr>se_name = n, se_data = join_lines (sp_data p)\<rparr>, p'))"

text \<open>\<open>line.split_once(':')\<close>, with one space after the colon left out.\<close>

definition line_field :: "string \<Rightarrow> string \<times> string" where
  "line_field line =
     (case dropWhile (\<lambda>c. c \<noteq> CHR '':'') line of
        [] \<Rightarrow> (line, [])
      | _ # value \<Rightarrow>
          (takeWhile (\<lambda>c. c \<noteq> CHR '':'') line, case value of CHR '' '' # rest \<Rightarrow> rest | _ \<Rightarrow> value))"

definition sse_end_line :: "sse_parser \<Rightarrow> (sse_event option, sse_error) result \<times> sse_parser" where
  "sse_end_line p =
     (let line = sp_line p; p1 = p\<lparr>sp_line := []\<rparr> in
      if \<not> from_utf8_ok line then (Err EventNotText, p1)
      else if line = [] then (let (e, p2) = sse_dispatch p1 in (Ok e, p2))
      else if hd line = CHR '':'' then (Ok None, p1)
      else
        (let (field, value) = line_field line in
         if field = ''event'' then (Ok None, p1\<lparr>sp_name := Some value\<rparr>)
         else if field = ''data''
         then (let n = sp_data_bytes p1 + length value + 1; p2 = p1\<lparr>sp_data_bytes := n\<rparr> in
               if n > MAX_EVENT_BYTES then (Err EventTooLarge, p2)
               else (Ok None, p2\<lparr>sp_data := sp_data p2 @ [value]\<rparr>))
         else (Ok None, p1)))"

definition sse_byte :: "char \<Rightarrow> sse_parser \<Rightarrow> (sse_event option, sse_error) result \<times> sse_parser" where
  "sse_byte b p =
     (if b = LF \<and> sp_after_cr p then (Ok None, p\<lparr>sp_after_cr := False\<rparr>)
      else if b = LF \<or> b = CR then sse_end_line (p\<lparr>sp_after_cr := (b = CR)\<rparr>)
      else if length (sp_line p) \<ge> MAX_EVENT_BYTES then (Err EventTooLarge, p\<lparr>sp_after_cr := False\<rparr>)
      else (Ok None, p\<lparr>sp_after_cr := False, sp_line := sp_line p @ [b]\<rparr>))"

fun push_chunk :: "string \<Rightarrow> sse_parser \<Rightarrow> (sse_event list, sse_error) result \<times> sse_parser" where
  "push_chunk [] p = (Ok [], p)"
| "push_chunk (b # bs) p =
     (case sse_byte b p of
        (Err e, p1) \<Rightarrow> (Err e, p1)
      | (Ok found, p1) \<Rightarrow>
          (case push_chunk bs p1 of
             (Err e, p2) \<Rightarrow> (Err e, p2)
           | (Ok events, p2) \<Rightarrow> (Ok (case found of Some v \<Rightarrow> v # events | None \<Rightarrow> events), p2)))"

section \<open>The readers\<close>

text \<open>What the body yields next: bytes, a frame of trailers, a failure or its end.\<close>

datatype body_frame = DataFrame string | TrailersFrame | FailedFrame | BodyEnd

datatype stream_fault = StreamBroken | StreamMalformed

record event_reader =
  er_parser :: sse_parser
  er_queue :: "sse_event list"
  er_finished :: bool

definition reader_new :: event_reader where
  "reader_new = \<lparr>er_parser = parser_new, er_queue = [], er_finished = False\<rparr>"

datatype reader_answer = NextEvent sse_event | StreamEnded | StreamFault stream_fault | StreamWaits

fun reader_next :: "body_frame list \<Rightarrow> event_reader \<Rightarrow> reader_answer \<times> body_frame list \<times> event_reader" where
  "reader_next frames er =
     (case er_queue er of
        v # queue \<Rightarrow> (NextEvent v, frames, er\<lparr>er_queue := queue\<rparr>)
      | [] \<Rightarrow>
          if er_finished er then (StreamEnded, frames, er)
          else case frames of
            [] \<Rightarrow> (StreamWaits, [], er)
          | BodyEnd # rest \<Rightarrow> reader_next rest (er\<lparr>er_finished := True\<rparr>)
          | FailedFrame # rest \<Rightarrow> (StreamFault StreamBroken, rest, er)
          | TrailersFrame # rest \<Rightarrow> reader_next rest er
          | DataFrame bytes # rest \<Rightarrow>
              (case push_chunk bytes (er_parser er) of
                 (Err _, p) \<Rightarrow> (StreamFault StreamMalformed, rest, er\<lparr>er_parser := p\<rparr>)
               | (Ok events, p) \<Rightarrow> reader_next rest (er\<lparr>er_parser := p, er_queue := events\<rparr>)))"

declare reader_next.simps [simp del]

text \<open>\<open>RemoteOperationEvents::next\<close>; the first argument decodes the data of an event.\<close>

datatype remote_next = RemoteEvent operation_event | RemoteEnd | RemoteWaits

function remote_operation_next ::
  "(string \<Rightarrow> operation_snapshot option) \<Rightarrow> body_frame list \<Rightarrow> event_reader \<Rightarrow> remote_next \<times> body_frame list \<times> event_reader" where
  "remote_operation_next decode frames er =
     (case reader_next frames er of
        (NextEvent v, rest, er1) \<Rightarrow>
          (case se_name v of
             OperationEvent \<Rightarrow>
               (case decode (se_data v) of Some sn \<Rightarrow> RemoteEvent (Update sn) | None \<Rightarrow> RemoteEnd, rest, er1)
           | MissedEvent \<Rightarrow> (RemoteEvent Missed, rest, er1)
           | EndEvent \<Rightarrow> (RemoteEnd, rest, er1)
           | StateEvent \<Rightarrow> remote_operation_next decode rest er1)
      | (StreamWaits, rest, er1) \<Rightarrow> (RemoteWaits, rest, er1)
      | (_, rest, er1) \<Rightarrow> (RemoteEnd, rest, er1))"
  by pat_completeness auto

text \<open>The port's reading of a stream that ended; the first argument decodes its data.\<close>

definition UNAVAILABLE_WORDS :: string where "UNAVAILABLE_WORDS = ''receiver service unavailable''"

definition stream_ended :: "(string \<Rightarrow> end_reason option) \<Rightarrow> sse_event \<Rightarrow> control_error" where
  "stream_ended decode v =
     (if decode (se_data v) = Some EndRevoked then Forbidden else UnavailableError UNAVAILABLE_WORDS)"

section \<open>Both loops end\<close>

text \<open>Every event taken was in the queue or comes from bytes of the frames.\<close>

lemma push_chunk_events:
  "push_chunk bs p = (Ok events, p') \<Longrightarrow> length events \<le> length bs"
proof (induction bs arbitrary: p events p')
  case (Cons b bs)
  then show ?case by (fastforce split: prod.splits sum.splits option.splits)
qed simp

definition frame_size :: "body_frame \<Rightarrow> nat" where
  "frame_size f = (case f of DataFrame bytes \<Rightarrow> length bytes | _ \<Rightarrow> 0)"

definition unread :: "body_frame list \<Rightarrow> event_reader \<Rightarrow> nat" where
  "unread frames er = sum_list (map frame_size frames) + length (er_queue er)"

lemma reader_next_unread:
  "reader_next frames er = (ans, rest, er') \<Longrightarrow>
     unread rest er' + (case ans of NextEvent _ \<Rightarrow> 1 | _ \<Rightarrow> 0) \<le> unread frames er"
proof (induction frames arbitrary: er)
  case Nil
  then show ?case by (auto simp: reader_next.simps [of "[]"] unread_def split: list.splits if_splits)
next
  case (Cons f frames)
  note step = reader_next.simps [of "g # gs" for g gs]
  show ?case
  proof (cases "er_queue er = [] \<and> \<not> er_finished er")
    case False
    with Cons.prems show ?thesis by (auto simp: step unread_def split: list.splits)
  next
    case True
    show ?thesis
    proof (cases f)
      case (DataFrame bytes)
      obtain r p where p: "push_chunk bytes (er_parser er) = (r, p)" by fastforce
      show ?thesis
      proof (cases r)
        case (Inl e)
        with Cons.prems True DataFrame p show ?thesis by (auto simp: step unread_def)
      next
        case (Inr events)
        with Cons.prems True DataFrame p
        have "reader_next frames (er\<lparr>er_parser := p, er_queue := events\<rparr>) = (ans, rest, er')" by (simp add: step)
        from Cons.IH [OF this] push_chunk_events [of bytes "er_parser er" events p] p Inr DataFrame True
        show ?thesis by (simp add: unread_def frame_size_def)
      qed
    next
      case BodyEnd
      with Cons.prems True have "reader_next frames (er\<lparr>er_finished := True\<rparr>) = (ans, rest, er')" by (simp add: step)
      from Cons.IH [OF this] BodyEnd show ?thesis by (simp add: unread_def frame_size_def)
    next
      case TrailersFrame
      with Cons.prems True have "reader_next frames er = (ans, rest, er')" by (simp add: step)
      from Cons.IH [OF this] TrailersFrame show ?thesis by (simp add: unread_def frame_size_def)
    next
      case FailedFrame
      with Cons.prems True show ?thesis by (auto simp: step unread_def frame_size_def)
    qed
  qed
qed

termination remote_operation_next
  by (relation "measure (\<lambda>(_, frames, er). unread frames er)") (auto dest!: reader_next_unread [OF sym])

end
