(* ===== verification/Sse_Properties.thy ===== *)
theory Sse_Properties
  imports Sse_Stream
begin

text \<open>
  What a reader makes of a stream: the memory of the parser is bounded whatever is sent, where the
  bytes are cut makes no difference, and a stream written in the format of server-sent events reads
  back as the events that were written, a cut stream as the first of them.
\<close>

section \<open>The memory of the parser\<close>

definition parser_bounded :: "sse_parser \<Rightarrow> bool" where
  "parser_bounded p \<longleftrightarrow>
     length (sp_line p) \<le> MAX_EVENT_BYTES \<and> pred_option (\<lambda>n. length n \<le> MAX_EVENT_BYTES) (sp_name p)
     \<and> sum_list (map (\<lambda>d. length d + 1) (sp_data p)) \<le> MAX_EVENT_BYTES"

definition data_counted :: "sse_parser \<Rightarrow> bool" where
  "data_counted p \<longleftrightarrow> sum_list (map (\<lambda>d. length d + 1) (sp_data p)) \<le> sp_data_bytes p"

lemma line_field_length: "line_field l = (f, v) \<Longrightarrow> length v \<le> length l"
proof -
  assume *: "line_field l = (f, v)"
  have "length (dropWhile (\<lambda>c. c \<noteq> CHR '':'') l) \<le> length l" by (rule length_dropWhile_le)
  with * show ?thesis by (auto simp: line_field_def split: list.splits char.splits bool.splits)
qed

lemma end_line_bounded:
  assumes "parser_bounded p" "data_counted p" "sse_end_line p = (r, p')"
  shows "parser_bounded p' \<and> data_counted p'"
proof -
  obtain f v where f: "line_field (sp_line p) = (f, v)" by fastforce
  show ?thesis
    using assms line_field_length [OF f]
    by (auto simp: sse_end_line_def sse_dispatch_def f parser_bounded_def data_counted_def Let_def split: if_splits)
qed

lemma sse_byte_bounded:
  assumes "parser_bounded p" "data_counted p" "sse_byte b p = (r, p')"
  shows "parser_bounded p' \<and> data_counted p'"
proof (cases "(b = LF \<or> b = CR) \<and> \<not> (b = LF \<and> sp_after_cr p)")
  case True
  then have "sse_end_line (p\<lparr>sp_after_cr := (b = CR)\<rparr>) = (r, p')" using assms(3) by (auto simp: sse_byte_def)
  then show ?thesis using assms(1,2) by (intro end_line_bounded) (simp_all add: parser_bounded_def data_counted_def)
next
  case False
  with assms show ?thesis by (auto simp: sse_byte_def parser_bounded_def data_counted_def split: if_splits)
qed

lemma push_chunk_bounded:
  "parser_bounded p \<Longrightarrow> data_counted p \<Longrightarrow> push_chunk bs p = (r, p') \<Longrightarrow> parser_bounded p' \<and> data_counted p'"
proof (induction bs arbitrary: p r p')
  case (Cons b bs)
  obtain r1 p1 where 1: "sse_byte b p = (r1, p1)" by fastforce
  obtain r2 p2 where 2: "push_chunk bs p1 = (r2, p2)" by fastforce
  have "p' = (case r1 of Err _ \<Rightarrow> p1 | Ok _ \<Rightarrow> p2)"
    using Cons.prems(3) 1 2 by (auto split: sum.splits)
  with sse_byte_bounded [OF Cons.prems(1,2) 1] Cons.IH [OF _ _ 2] Cons.prems show ?case by (auto split: sum.splits)
qed auto

fun push_all :: "string list \<Rightarrow> sse_parser \<Rightarrow> sse_parser" where
  "push_all [] p = p"
| "push_all (c # cs) p = push_all cs (snd (push_chunk c p))"

lemma push_all_bounded: "parser_bounded p \<Longrightarrow> data_counted p \<Longrightarrow> parser_bounded (push_all cs p)"
proof (induction cs arbitrary: p)
  case (Cons c cs)
  from push_chunk_bounded [OF Cons.prems] Cons.IH show ?case by (metis prod.collapse push_all.simps(2))
qed simp

text \<open>
  Whatever a server sends, in whatever pieces, and however often the reader is asked again after
  a fault, the line, the name and the data that the parser holds stay within the limit.
\<close>

theorem sse_memory_bounded: "parser_bounded (push_all chunks parser_new)"
  by (rule push_all_bounded) (simp_all add: parser_bounded_def data_counted_def parser_new_def)

section \<open>Where the bytes are cut\<close>

lemma push_append:
  "push_chunk (a @ b) p =
     (case push_chunk a p of
        (Err e, p1) \<Rightarrow> (Err e, p1)
      | (Ok v1, p1) \<Rightarrow> (case push_chunk b p1 of (Err e, p2) \<Rightarrow> (Err e, p2) | (Ok v2, p2) \<Rightarrow> (Ok (v1 @ v2), p2)))"
  by (induction a arbitrary: p) (auto split: prod.splits sum.splits option.splits)

lemma push_append_Ok:
  assumes "push_chunk a p = (Ok v1, p1)" "push_chunk b p1 = (Ok v2, p2)"
  shows "push_chunk (a @ b) p = (Ok (v1 @ v2), p2)"
  using assms by (simp add: push_append)

lemma push_prefix:
  assumes "push_chunk (a @ b) p = (Ok v, p2)"
  obtains v1 v2 p1 where "push_chunk a p = (Ok v1, p1)" "push_chunk b p1 = (Ok v2, p2)" "v = v1 @ v2"
  using assms by (auto simp: push_append split: prod.splits sum.splits)

section \<open>The format\<close>

text \<open>What a server writes: events of any name, their data as lines, and comments.\<close>

datatype wire_item = WireEvent string "string list" | WireComment string

fun item_lines :: "wire_item \<Rightarrow> string list" where
  "item_lines (WireEvent name ds) = (''event: '' @ name) # map (\<lambda>d. ''data: '' @ d) ds @ [[]]"
| "item_lines (WireComment t) = ['':'' @ t, []]"

fun item_events :: "wire_item \<Rightarrow> sse_event list" where
  "item_events (WireEvent name ds) =
     (case event_name_parse name of
        Some n \<Rightarrow> if ds = [] then [] else [\<lparr>se_name = n, se_data = join_lines ds\<rparr>]
      | None \<Rightarrow> [])"
| "item_events (WireComment _) = []"

definition line_ok :: "string \<Rightarrow> bool" where
  "line_ok l \<longleftrightarrow> LF \<notin> set l \<and> CR \<notin> set l \<and> from_utf8_ok l \<and> length l \<le> MAX_EVENT_BYTES"

definition item_ok :: "wire_item \<Rightarrow> bool" where
  "item_ok item \<longleftrightarrow> list_all line_ok (item_lines item) \<and>
     (case item of WireEvent _ ds \<Rightarrow> sum_list (map (\<lambda>d. length d + 1) ds) \<le> MAX_EVENT_BYTES | WireComment _ \<Rightarrow> True)"

definition line_ends :: "string set" where "line_ends = {[LF], [CR], [CR, LF]}"

definition wire_text :: "string \<Rightarrow> wire_item list \<Rightarrow> string" where
  "wire_text eol items = concat (map (\<lambda>l. l @ eol) (concat (map item_lines items)))"

definition wire_events :: "wire_item list \<Rightarrow> sse_event list" where
  "wire_events items = concat (map item_events items)"

section \<open>One line\<close>

lemma LF_CR [simp]: "LF \<noteq> CR" "CR \<noteq> LF"
  by (simp_all add: LF_def CR_def)

lemma push_plain:
  "LF \<notin> set l \<Longrightarrow> CR \<notin> set l \<Longrightarrow> length (sp_line p) + length l \<le> MAX_EVENT_BYTES \<Longrightarrow>
     push_chunk l p = (Ok [], p\<lparr>sp_after_cr := (l = [] \<and> sp_after_cr p), sp_line := sp_line p @ l\<rparr>)"
proof (induction l arbitrary: p)
  case (Cons c l)
  from Cons.prems have byte: "sse_byte c p = (Ok None, p\<lparr>sp_after_cr := False, sp_line := sp_line p @ [c]\<rparr>)"
    by (auto simp: sse_byte_def)
  from Cons.prems Cons.IH [of "p\<lparr>sp_after_cr := False, sp_line := sp_line p @ [c]\<rparr>"] show ?case by (simp add: byte)
qed simp

lemma end_line_after_cr:
  "sse_end_line (p\<lparr>sp_after_cr := b\<rparr>) = apsnd (\<lambda>p. p\<lparr>sp_after_cr := b\<rparr>) (sse_end_line p)"
  by (auto simp: sse_end_line_def sse_dispatch_def Let_def split: prod.split option.split)

text \<open>At the start of a line, where only a lone CR leaves a mark.\<close>

definition at_start :: "string \<Rightarrow> sse_parser \<Rightarrow> bool" where
  "at_start eol p \<longleftrightarrow> sp_line p = [] \<and> (sp_after_cr p \<longrightarrow> eol = [CR])"

lemma push_eol:
  assumes "eol \<in> line_ends" "sp_after_cr q \<longrightarrow> eol = [CR]" "sse_end_line q = (Ok v, q1)"
  shows "push_chunk eol q = (Ok (case v of Some e \<Rightarrow> [e] | None \<Rightarrow> []), q1\<lparr>sp_after_cr := (eol = [CR])\<rparr>)"
  using assms by (auto simp: line_ends_def sse_byte_def end_line_after_cr split: option.split)

lemma push_line:
  assumes "eol \<in> line_ends" "at_start eol p" "line_ok l" "sse_end_line (p\<lparr>sp_line := l\<rparr>) = (Ok v, p1)"
  shows "push_chunk (l @ eol) p = (Ok (case v of Some e \<Rightarrow> [e] | None \<Rightarrow> []), p1\<lparr>sp_after_cr := (eol = [CR])\<rparr>)"
proof -
  define b where "b = (l = [] \<and> sp_after_cr p)"
  have plain: "push_chunk l p = (Ok [], p\<lparr>sp_after_cr := b, sp_line := l\<rparr>)"
    using push_plain [of l p] assms(2,3) by (simp add: at_start_def line_ok_def b_def)
  have swap: "p\<lparr>sp_after_cr := b, sp_line := l\<rparr> = p\<lparr>sp_line := l, sp_after_cr := b\<rparr>" by (cases p) simp
  have "sse_end_line (p\<lparr>sp_after_cr := b, sp_line := l\<rparr>) = (Ok v, p1\<lparr>sp_after_cr := b\<rparr>)"
    unfolding swap end_line_after_cr assms(4) by simp
  moreover have "b \<longrightarrow> eol = [CR]" using assms(2) by (simp add: at_start_def b_def)
  ultimately have "push_chunk eol (p\<lparr>sp_after_cr := b, sp_line := l\<rparr>)
      = (Ok (case v of Some e \<Rightarrow> [e] | None \<Rightarrow> []), p1\<lparr>sp_after_cr := (eol = [CR])\<rparr>)"
    using push_eol [OF assms(1), of "p\<lparr>sp_after_cr := b, sp_line := l\<rparr>"] by simp
  from push_append_Ok [OF plain this] show ?thesis by simp
qed

lemma end_line_event:
  "from_utf8_ok (''event: '' @ n) \<Longrightarrow>
     sse_end_line (p\<lparr>sp_line := ''event: '' @ n\<rparr>) = (Ok None, p\<lparr>sp_line := [], sp_name := Some n\<rparr>)"
  by (simp add: sse_end_line_def line_field_def Let_def)

lemma end_line_data:
  "from_utf8_ok (''data: '' @ d) \<Longrightarrow> sp_data_bytes p + length d + 1 \<le> MAX_EVENT_BYTES \<Longrightarrow>
     sse_end_line (p\<lparr>sp_line := ''data: '' @ d\<rparr>) =
       (Ok None, p\<lparr>sp_line := [], sp_data_bytes := sp_data_bytes p + length d + 1, sp_data := sp_data p @ [d]\<rparr>)"
  by (simp add: sse_end_line_def line_field_def Let_def)

lemma end_line_comment:
  "from_utf8_ok ('':'' @ t) \<Longrightarrow> sse_end_line (p\<lparr>sp_line := '':'' @ t\<rparr>) = (Ok None, p\<lparr>sp_line := []\<rparr>)"
  by (simp add: sse_end_line_def Let_def)

lemma end_line_blank: "sse_end_line (p\<lparr>sp_line := []\<rparr>) = apfst Inr (sse_dispatch (p\<lparr>sp_line := []\<rparr>))"
  by (simp add: sse_end_line_def Let_def split: prod.split)

section \<open>One item, and a whole stream\<close>

definition fresh_at :: "string \<Rightarrow> sse_parser \<Rightarrow> bool" where
  "fresh_at eol p \<longleftrightarrow> (\<exists>b. (b \<longrightarrow> eol = [CR]) \<and> p = parser_new\<lparr>sp_after_cr := b\<rparr>)"

lemma push_data_lines:
  assumes "eol \<in> line_ends"
  shows "at_start eol p \<Longrightarrow> list_all (\<lambda>d. line_ok (''data: '' @ d)) ds \<Longrightarrow>
     sp_data_bytes p + sum_list (map (\<lambda>d. length d + 1) ds) \<le> MAX_EVENT_BYTES \<Longrightarrow>
     \<exists>b n. (b \<longrightarrow> eol = [CR]) \<and> push_chunk (concat (map (\<lambda>d. ''data: '' @ d @ eol) ds)) p
       = (Ok [], p\<lparr>sp_data := sp_data p @ ds, sp_data_bytes := n, sp_after_cr := b\<rparr>)"
proof (induction ds arbitrary: p)
  case Nil
  then show ?case by (intro exI [of _ "sp_after_cr p"] exI [of _ "sp_data_bytes p"]) (simp add: at_start_def)
next
  case (Cons d ds)
  define p1 where "p1 = p\<lparr>sp_data_bytes := sp_data_bytes p + length d + 1, sp_data := sp_data p @ [d],
    sp_after_cr := (eol = [CR])\<rparr>"
  have line: "sp_line p = []" using Cons.prems(1) by (simp add: at_start_def)
  have "sse_end_line (p\<lparr>sp_line := ''data: '' @ d\<rparr>)
      = (Ok None, p\<lparr>sp_line := [], sp_data_bytes := sp_data_bytes p + length d + 1, sp_data := sp_data p @ [d]\<rparr>)"
    using Cons.prems(2,3) by (intro end_line_data) (auto simp: line_ok_def)
  from push_line [OF assms Cons.prems(1) _ this] Cons.prems(2) line
  have first: "push_chunk ((''data: '' @ d) @ eol) p = (Ok [], p1)" by (simp add: p1_def)
  have "at_start eol p1" using line by (simp add: at_start_def p1_def)
  from Cons.IH [OF this] Cons.prems(2,3) obtain b n where
    "b \<longrightarrow> eol = [CR]" "push_chunk (concat (map (\<lambda>d. ''data: '' @ d @ eol) ds)) p1
      = (Ok [], p1\<lparr>sp_data := sp_data p1 @ ds, sp_data_bytes := n, sp_after_cr := b\<rparr>)"
    by (auto simp: p1_def)
  with push_append_Ok [OF first this(2)] show ?case by (intro exI [of _ b] exI [of _ n]) (simp add: p1_def)
qed

lemma push_item:
  assumes "eol \<in> line_ends" "fresh_at eol p" "item_ok item"
  shows "\<exists>p'. fresh_at eol p' \<and> push_chunk (concat (map (\<lambda>l. l @ eol) (item_lines item))) p = (Ok (item_events item), p')"
proof -
  obtain b where p: "p = parser_new\<lparr>sp_after_cr := b\<rparr>" "b \<longrightarrow> eol = [CR]" using assms(2) by (auto simp: fresh_at_def)
  have start: "at_start eol p" using p by (simp add: at_start_def parser_new_def)
  have blank: "line_ok []" by (simp add: line_ok_def)
  show ?thesis
  proof (cases item)
    case (WireComment t)
    have ok: "line_ok ('':'' @ t)" using assms(3) WireComment by (simp add: item_ok_def)
    then have "sse_end_line (p\<lparr>sp_line := '':'' @ t\<rparr>) = (Ok None, p\<lparr>sp_line := []\<rparr>)"
      by (intro end_line_comment) (simp add: line_ok_def)
    from push_line [OF assms(1) start ok this]
    have first: "push_chunk (('':'' @ t) @ eol) p = (Ok [], parser_new\<lparr>sp_after_cr := (eol = [CR])\<rparr>)"
      by (simp add: p parser_new_def)
    have "at_start eol (parser_new\<lparr>sp_after_cr := (eol = [CR])\<rparr>)" by (simp add: at_start_def parser_new_def)
    from push_line [OF assms(1) this blank, unfolded end_line_blank, of None "parser_new\<lparr>sp_after_cr := (eol = [CR])\<rparr>"]
    have "push_chunk ([] @ eol) (parser_new\<lparr>sp_after_cr := (eol = [CR])\<rparr>) = (Ok [], parser_new\<lparr>sp_after_cr := (eol = [CR])\<rparr>)"
      by (simp add: sse_dispatch_def parser_new_def)
    from push_append_Ok [OF first this] WireComment show ?thesis by (auto simp: fresh_at_def)
  next
    case (WireEvent name ds)
    define p1 where "p1 = parser_new\<lparr>sp_name := Some name, sp_after_cr := (eol = [CR])\<rparr>"
    have ok: "line_ok (''event: '' @ name)" using assms(3) WireEvent by (simp add: item_ok_def)
    then have "sse_end_line (p\<lparr>sp_line := ''event: '' @ name\<rparr>) = (Ok None, p\<lparr>sp_line := [], sp_name := Some name\<rparr>)"
      by (intro end_line_event) (simp add: line_ok_def)
    from push_line [OF assms(1) start ok this]
    have first: "push_chunk ((''event: '' @ name) @ eol) p = (Ok [], p1)" by (simp add: p p1_def parser_new_def)
    have "at_start eol p1" by (simp add: at_start_def p1_def parser_new_def)
    from push_data_lines [OF assms(1) this, of ds] assms(3) WireEvent obtain c n where
      c: "c \<longrightarrow> eol = [CR]" and data: "push_chunk (concat (map (\<lambda>d. ''data: '' @ d @ eol) ds)) p1
        = (Ok [], p1\<lparr>sp_data := ds, sp_data_bytes := n, sp_after_cr := c\<rparr>)"
      by (auto simp: item_ok_def p1_def parser_new_def list_all_iff)
    define p2 where "p2 = p1\<lparr>sp_data := ds, sp_data_bytes := n, sp_after_cr := c\<rparr>"
    have start2: "at_start eol p2" using c by (simp add: at_start_def p2_def p1_def parser_new_def)
    have same: "p2\<lparr>sp_line := []\<rparr> = p2" by (simp add: p2_def p1_def parser_new_def)
    have "sse_dispatch p2 = (if item_events item = [] then None else Some (hd (item_events item)), parser_new\<lparr>sp_after_cr := c\<rparr>)"
      by (auto simp: sse_dispatch_def p2_def p1_def parser_new_def WireEvent split: option.split)
    moreover have "item_events item = [] \<or> (\<exists>e. item_events item = [e])" by (auto simp: WireEvent split: option.split)
    ultimately have "\<exists>v. sse_end_line (p2\<lparr>sp_line := []\<rparr>) = (Ok v, parser_new\<lparr>sp_after_cr := c\<rparr>)
        \<and> item_events item = (case v of Some e \<Rightarrow> [e] | None \<Rightarrow> [])"
      using end_line_blank [of p2] same by auto
    then have "push_chunk ([] @ eol) p2 = (Ok (item_events item), parser_new\<lparr>sp_after_cr := (eol = [CR])\<rparr>)"
      using push_line [OF assms(1) start2 blank] by fastforce
    from push_append_Ok [OF first push_append_Ok [OF data [folded p2_def] this]] show ?thesis
      by (auto simp: fresh_at_def WireEvent o_def)
  qed
qed

lemma push_wire:
  assumes "eol \<in> line_ends"
  shows "fresh_at eol p \<Longrightarrow> \<forall>item \<in> set items. item_ok item \<Longrightarrow>
     \<exists>p'. push_chunk (wire_text eol items) p = (Ok (wire_events items), p')"
proof (induction items arbitrary: p)
  case (Cons item items)
  then obtain p1 where "fresh_at eol p1"
      "push_chunk (concat (map (\<lambda>l. l @ eol) (item_lines item))) p = (Ok (item_events item), p1)"
    using push_item [OF assms] by force
  moreover from Cons.IH [OF this(1)] Cons.prems(2) obtain p2 where
    "push_chunk (wire_text eol items) p1 = (Ok (wire_events items), p2)" by auto
  ultimately show ?case
    using push_append_Ok by (fastforce simp: wire_text_def wire_events_def)
qed (simp add: wire_text_def wire_events_def)

section \<open>The reader\<close>

fun read_events :: "nat \<Rightarrow> body_frame list \<Rightarrow> event_reader \<Rightarrow> sse_event list \<times> reader_answer" where
  "read_events 0 frames er = ([], StreamWaits)"
| "read_events (Suc n) frames er =
     (case reader_next frames er of
        (NextEvent v, rest, er') \<Rightarrow> apfst (Cons v) (read_events n rest er')
      | (ans, _, _) \<Rightarrow> ([], ans))"

lemma read_queue:
  "read_events (length q + n) frames (er\<lparr>er_queue := q\<rparr>) = apfst ((@) q) (read_events n frames (er\<lparr>er_queue := []\<rparr>))"
  by (induction q) (simp_all add: reader_next.simps [of frames] apfst_def map_prod_def split: prod.split)

definition ending :: "body_frame \<Rightarrow> reader_answer" where
  "ending f = (if f = BodyEnd then StreamEnded else StreamFault StreamBroken)"

lemma read_chunks:
  "er_queue er = [] \<Longrightarrow> \<not> er_finished er \<Longrightarrow> f \<in> {BodyEnd, FailedFrame} \<Longrightarrow>
   push_chunk (concat chunks) (er_parser er) = (Ok evs, p') \<Longrightarrow>
   read_events (length evs + 1) (map DataFrame chunks @ [f]) er = (evs, ending f)"
proof (induction chunks arbitrary: er evs)
  case Nil
  then have "evs = []" by simp
  with Nil show ?case by (auto simp: reader_next.simps [of "[g]" for g] reader_next.simps [of "[]"] ending_def)
next
  case (Cons c chunks)
  from Cons.prems(4) obtain v1 v2 p1 where parts: "push_chunk c (er_parser er) = (Ok v1, p1)"
      "push_chunk (concat chunks) p1 = (Ok v2, p')" "evs = v1 @ v2"
    by (auto elim: push_prefix)
  define er1 where "er1 = er\<lparr>er_parser := p1\<rparr>"
  have "reader_next (DataFrame c # rest) er = reader_next rest (er1\<lparr>er_queue := v1\<rparr>)" for rest
    using Cons.prems(1,2) parts(1) by (simp add: reader_next.simps [of "DataFrame c # rest"] er1_def)
  then have "read_events (length evs + 1) (map DataFrame (c # chunks) @ [f]) er
      = read_events (length v1 + (length v2 + 1)) (map DataFrame chunks @ [f]) (er1\<lparr>er_queue := v1\<rparr>)"
    using parts(3) by simp
  also have "\<dots> = apfst ((@) v1) (read_events (length v2 + 1) (map DataFrame chunks @ [f]) (er1\<lparr>er_queue := []\<rparr>))"
    by (rule read_queue)
  also have "read_events (length v2 + 1) (map DataFrame chunks @ [f]) (er1\<lparr>er_queue := []\<rparr>) = (v2, ending f)"
    using Cons.IH [of "er1\<lparr>er_queue := []\<rparr>" v2] Cons.prems(2,3) parts(2) by (simp add: er1_def)
  finally show ?case by (simp add: parts(3))
qed

text \<open>
  C38. A stream reads back: whatever line ending the server uses and however the bytes are cut, the
  reader gives the events that were written, each once and in order, without the comments and the
  events of unknown names, and then says that the stream ended; when the connection breaks, it gives
  the first of them and says so.
\<close>

theorem sse_reads_back:
  assumes "eol \<in> line_ends" "\<forall>item \<in> set items. item_ok item" "concat chunks @ lost = wire_text eol items"
  shows "\<exists>evs rest. wire_events items = evs @ rest \<and> (lost = [] \<longrightarrow> rest = [])
    \<and> read_events (length evs + 1) (map DataFrame chunks @ [BodyEnd]) reader_new = (evs, StreamEnded)
    \<and> read_events (length evs + 1) (map DataFrame chunks @ [FailedFrame]) reader_new = (evs, StreamFault StreamBroken)"
proof -
  have "fresh_at eol parser_new" by (auto simp: fresh_at_def intro!: exI [of _ False]) (simp add: parser_new_def)
  from push_wire [OF assms(1) this assms(2)] obtain p' where
    "push_chunk (concat chunks @ lost) parser_new = (Ok (wire_events items), p')" by (auto simp: assms(3))
  then obtain evs rest p1 where parts: "push_chunk (concat chunks) parser_new = (Ok evs, p1)"
      "push_chunk lost p1 = (Ok rest, p')" "wire_events items = evs @ rest"
    by (rule push_prefix)
  have "read_events (length evs + 1) (map DataFrame chunks @ [f]) reader_new = (evs, ending f)"
    if "f \<in> {BodyEnd, FailedFrame}" for f
    using read_chunks [of reader_new f chunks evs p1] that parts(1) by (simp add: reader_new_def)
  from this [of BodyEnd] this [of FailedFrame] parts(2,3) show ?thesis
    by (intro exI [of _ evs] exI [of _ rest]) (auto simp: ending_def)
qed

definition sample_items :: "wire_item list" where
  "sample_items = [WireComment [], WireEvent ''missed'' [''{}'']]"

lemma sample_items_ok: "\<forall>item \<in> set sample_items. item_ok item"
  by (simp add: sample_items_def item_ok_def line_ok_def LF_def CR_def MAX_EVENT_BYTES_def byte_def in_byte_range_def)

theorem sse_reads_back_witness:
  "fst (read_events 2 (map DataFrame [[CHR '':'', CR], LF # CR # LF # ''event: missed'' @ [CR, LF], ''data: {}'' @ [CR, LF, CR, LF]] @ [BodyEnd])
     reader_new) = [\<lparr>se_name = MissedEvent, se_data = ''{}''\<rparr>]"
proof -
  let ?chunks = "[[CHR '':'', CR], LF # CR # LF # ''event: missed'' @ [CR, LF], ''data: {}'' @ [CR, LF, CR, LF]]"
  have "concat ?chunks @ [] = wire_text [CR, LF] sample_items" by (simp add: wire_text_def sample_items_def)
  from sse_reads_back [OF _ sample_items_ok this] obtain evs where evs: "evs = wire_events sample_items"
    and read: "read_events (length evs + 1) (map DataFrame ?chunks @ [BodyEnd]) reader_new = (evs, StreamEnded)"
    by (auto simp: line_ends_def)
  have "wire_events sample_items = [\<lparr>se_name = MissedEvent, se_data = ''{}''\<rparr>]"
    by (simp add: wire_events_def sample_items_def event_name_parse_def)
  with evs have one: "evs = [\<lparr>se_name = MissedEvent, se_data = ''{}''\<rparr>]" by simp
  then have two: "length evs + 1 = 2" by simp
  from read show ?thesis unfolding two unfolding one by (simp only: fst_conv)
qed

end
