(* ===== verification/Api_Values.thy ===== *)
theory Api_Values
  imports Service_Ports
begin

text \<open>
  The Control API's types for values, intents, operations, requests and receivers, with their
  conversions from and to the values of the port: \<open>values.rs\<close>, \<open>operations.rs\<close>, \<open>requests.rs\<close> and
  \<open>receivers.rs\<close> of \<open>crates/api-contract\<close>. Writing a type as JSON and reading it back is serde's.
\<close>

section \<open>What a conversion promises\<close>

text \<open>A value has a wire form that reads back as the value.\<close>

locale wire_form =
  fixes to_wire :: "'a \<Rightarrow> 'w" and of_wire :: "'w \<Rightarrow> ('a, string) result" and valid :: "'a \<Rightarrow> bool"
  assumes reads_back: "valid a \<Longrightarrow> of_wire (to_wire a) = Ok a"
begin

lemma wire_injective: "valid a \<Longrightarrow> valid b \<Longrightarrow> to_wire a = to_wire b \<Longrightarrow> a = b"
  by (metis reads_back Inr_inject)

lemma optional_reads_back:
  "pred_option valid v \<Longrightarrow>
     (case map_option to_wire v of None \<Rightarrow> Ok None | Some w \<Rightarrow> map_sum id Some (of_wire w)) = Ok v"
  by (cases v) (simp_all add: reads_back)

end

section \<open>Values\<close>

datatype system_power_dto = DSystemOn | DSystemStandby
datatype zone_power_dto = DZoneOn | DZoneOff
datatype mute_dto = DMuteOn | DMuteOff
datatype volume_dto = DMinimum | DHalfSteps int
datatype sound_mode_dto =
    DAuto | DDirect | DPureDirect | DStereo | DRecallMovie | DRecallMusic | DRecallGame | DSelect string

fun dto_system_power :: "system_power \<Rightarrow> system_power_dto" where
  "dto_system_power SystemOn = DSystemOn"
| "dto_system_power SystemStandby = DSystemStandby"

fun system_power_of_dto :: "system_power_dto \<Rightarrow> system_power" where
  "system_power_of_dto DSystemOn = SystemOn"
| "system_power_of_dto DSystemStandby = SystemStandby"

fun dto_zone_power :: "zone_power \<Rightarrow> zone_power_dto" where
  "dto_zone_power ZoneOn = DZoneOn"
| "dto_zone_power ZoneOff = DZoneOff"

fun zone_power_of_dto :: "zone_power_dto \<Rightarrow> zone_power" where
  "zone_power_of_dto DZoneOn = ZoneOn"
| "zone_power_of_dto DZoneOff = ZoneOff"

fun dto_mute :: "mute_state \<Rightarrow> mute_dto" where
  "dto_mute MuteOn = DMuteOn"
| "dto_mute MuteOff = DMuteOff"

fun mute_of_dto :: "mute_dto \<Rightarrow> mute_state" where
  "mute_of_dto DMuteOn = MuteOn"
| "mute_of_dto DMuteOff = MuteOff"

fun dto_volume :: "master_volume \<Rightarrow> volume_dto" where
  "dto_volume Minimum = DMinimum"
| "dto_volume (DbHalfSteps steps) = DHalfSteps steps"

fun volume_of_dto :: "volume_dto \<Rightarrow> (master_volume, string) result" where
  "volume_of_dto DMinimum = Ok Minimum"
| "volume_of_dto (DHalfSteps steps) = db_half_steps steps"

fun dto_sound_mode :: "sound_mode_intent \<Rightarrow> sound_mode_dto" where
  "dto_sound_mode Auto = DAuto"
| "dto_sound_mode Direct = DDirect"
| "dto_sound_mode PureDirect = DPureDirect"
| "dto_sound_mode Stereo = DStereo"
| "dto_sound_mode RecallMovie = DRecallMovie"
| "dto_sound_mode RecallMusic = DRecallMusic"
| "dto_sound_mode RecallGame = DRecallGame"
| "dto_sound_mode (Select name) = DSelect name"

fun sound_mode_of_dto :: "sound_mode_dto \<Rightarrow> sound_mode_intent" where
  "sound_mode_of_dto DAuto = Auto"
| "sound_mode_of_dto DDirect = Direct"
| "sound_mode_of_dto DPureDirect = PureDirect"
| "sound_mode_of_dto DStereo = Stereo"
| "sound_mode_of_dto DRecallMovie = RecallMovie"
| "sound_mode_of_dto DRecallMusic = RecallMusic"
| "sound_mode_of_dto DRecallGame = RecallGame"
| "sound_mode_of_dto (DSelect name) = Select name"

lemma system_power_back [simp]: "system_power_of_dto (dto_system_power p) = p" by (cases p) simp_all
lemma zone_power_back [simp]: "zone_power_of_dto (dto_zone_power z) = z" by (cases z) simp_all
lemma mute_back [simp]: "mute_of_dto (dto_mute m) = m" by (cases m) simp_all
lemma sound_mode_back [simp]: "sound_mode_of_dto (dto_sound_mode s) = s" by (cases s) simp_all

lemma system_power_wire: "w = dto_system_power p \<longleftrightarrow> system_power_of_dto w = p" by (cases w; cases p) simp_all
lemma zone_power_wire: "w = dto_zone_power z \<longleftrightarrow> zone_power_of_dto w = z" by (cases w; cases z) simp_all
lemma mute_wire: "w = dto_mute m \<longleftrightarrow> mute_of_dto w = m" by (cases w; cases m) simp_all
lemma sound_mode_wire: "w = dto_sound_mode s \<longleftrightarrow> sound_mode_of_dto w = s" by (cases w; cases s) auto

lemmas wire_values = system_power_wire zone_power_wire mute_wire sound_mode_wire

text \<open>The wire can carry a level that is off the scale; it is not taken.\<close>

lemma volume_of_dto_Ok: "volume_of_dto w = Ok v \<longleftrightarrow> w = dto_volume v \<and> master_volume_in_range v"
  by (cases w; cases v) (auto simp: db_half_steps_def)

section \<open>Intents\<close>

datatype intent_dto =
    DISystemPower system_power_dto
  | DIMainZonePower zone_power_dto
  | DIZone2Power zone_power_dto
  | DISource string
  | DIVolume volume_dto
  | DIMute mute_dto
  | DISoundMode sound_mode_dto

fun dto_intent :: "receiver_intent \<Rightarrow> intent_dto" where
  "dto_intent (ISystemPower v) = DISystemPower (dto_system_power v)"
| "dto_intent (IMainZonePower v) = DIMainZonePower (dto_zone_power v)"
| "dto_intent (IZone2Power v) = DIZone2Power (dto_zone_power v)"
| "dto_intent (ISource i) = DISource (source_id_str i)"
| "dto_intent (IVolume level) = DIVolume (dto_volume level)"
| "dto_intent (IMute v) = DIMute (dto_mute v)"
| "dto_intent (ISoundMode mode) = DISoundMode (dto_sound_mode mode)"

fun intent_of_dto :: "intent_dto \<Rightarrow> (receiver_intent, string) result" where
  "intent_of_dto (DISystemPower v) = Ok (ISystemPower (system_power_of_dto v))"
| "intent_of_dto (DIMainZonePower v) = Ok (IMainZonePower (zone_power_of_dto v))"
| "intent_of_dto (DIZone2Power v) = Ok (IZone2Power (zone_power_of_dto v))"
| "intent_of_dto (DISource i) = map_sum id ISource (source_id_new i)"
| "intent_of_dto (DIVolume level) = map_sum id IVolume (volume_of_dto level)"
| "intent_of_dto (DIMute v) = Ok (IMute (mute_of_dto v))"
| "intent_of_dto (DISoundMode mode) = Ok (ISoundMode (sound_mode_of_dto mode))"

text \<open>What the constructors of the domain allow.\<close>

definition source_id_valid :: "source_id \<Rightarrow> bool" where
  "source_id_valid i = (source_id_new (source_id_str i) = Ok i)"

fun intent_valid :: "receiver_intent \<Rightarrow> bool" where
  "intent_valid (ISource i) = source_id_valid i"
| "intent_valid (IVolume level) = master_volume_in_range level"
| "intent_valid _ = True"

lemma map_sum_Ok: "map_sum id f r = Ok y \<longleftrightarrow> (\<exists>x. r = Ok x \<and> y = f x)"
  by (cases r) auto

lemma source_id_new_Ok: "source_id_new t = Ok i \<longleftrightarrow> t = source_id_str i \<and> source_id_valid i"
  by (cases i) (auto simp: source_id_new_def source_id_valid_def)

lemma intent_of_dto_Ok: "intent_of_dto w = Ok i \<longleftrightarrow> w = dto_intent i \<and> intent_valid i"
proof (cases w)
  case (DISystemPower v)
  then show ?thesis by (cases i) (auto simp: wire_values)
next
  case (DIMainZonePower v)
  then show ?thesis by (cases i) (auto simp: wire_values)
next
  case (DIZone2Power v)
  then show ?thesis by (cases i) (auto simp: wire_values)
next
  case (DIMute v)
  then show ?thesis by (cases i) (auto simp: wire_values)
next
  case (DISoundMode mode)
  then show ?thesis by (cases i) (auto simp: wire_values)
next
  case (DISource t)
  then show ?thesis by (cases i) (auto simp: map_sum_Ok source_id_new_Ok)
next
  case (DIVolume level)
  then show ?thesis by (cases i) (auto simp: map_sum_Ok volume_of_dto_Ok)
qed

interpretation intent_wire: wire_form dto_intent intent_of_dto intent_valid
  by unfold_locales (simp add: intent_of_dto_Ok)

section \<open>Receivers\<close>

definition parse_receiver_id :: "string \<Rightarrow> (receiver_id, string) result" where
  "parse_receiver_id t =
     (if is_reserved_name t
      then receiver_id_ad_hoc (case dropWhile (\<lambda>c. c \<noteq> CHR '':'') t of [] \<Rightarrow> [] | _ # host \<Rightarrow> host)
      else receiver_id_new t)"

definition receiver_id_valid :: "receiver_id \<Rightarrow> bool" where
  "receiver_id_valid r = (parse_receiver_id (receiver_id_str r) = Ok r)"

lemma parse_receiver_id_Ok: "parse_receiver_id t = Ok r \<longleftrightarrow> t = receiver_id_str r \<and> receiver_id_valid r"
proof -
  have "t = receiver_id_str r" if "parse_receiver_id t = Ok r"
  proof (cases "is_reserved_name t")
    case True
    then obtain host where t: "t = AD_HOC_PREFIX @ host" by (auto simp: is_reserved_name_def starts_with_iff)
    with that True have "receiver_id_ad_hoc host = Ok r" by (simp add: parse_receiver_id_def AD_HOC_PREFIX_def)
    with t show ?thesis by (simp add: receiver_id_ad_hoc_str)
  next
    case False
    with that show ?thesis by (simp add: parse_receiver_id_def receiver_id_new_str)
  qed
  then show ?thesis by (auto simp: receiver_id_valid_def)
qed

lemma receiver_id_new_valid: "receiver_id_new t = Ok r \<Longrightarrow> receiver_id_valid r"
  using receiver_id_new_not_ad_hoc [of t r]
  by (simp add: receiver_id_valid_def parse_receiver_id_def receiver_id_new_str is_ad_hoc_def)

lemma receiver_id_ad_hoc_valid: "receiver_id_ad_hoc host = Ok r \<Longrightarrow> receiver_id_valid r"
  by (simp add: receiver_id_valid_def parse_receiver_id_def receiver_id_ad_hoc_str is_reserved_name_def)
     (simp add: AD_HOC_PREFIX_def)

datatype connection_dto = DReleased | DConnecting | DConnected

fun dto_connection :: "connection_status \<Rightarrow> connection_dto" where
  "dto_connection Released = DReleased"
| "dto_connection Connecting = DConnecting"
| "dto_connection Connected = DConnected"

fun connection_of_dto :: "connection_dto \<Rightarrow> connection_status" where
  "connection_of_dto DReleased = Released"
| "connection_of_dto DConnecting = Connecting"
| "connection_of_dto DConnected = Connected"

lemma connection_of_dto_back [simp]: "connection_of_dto (dto_connection c) = c"
  by (cases c) simp_all

end
