(* ===== verification/Api_Operations.thy ===== *)
theory Api_Operations
  imports Api_Values
begin

text \<open>
  Operations, requests, dry runs, receivers, health and errors on the wire, with both directions of
  their conversion: \<open>operations.rs\<close>, \<open>requests.rs\<close>, \<open>receivers.rs\<close> and \<open>error.rs\<close> of
  \<open>crates/api-contract\<close>.
\<close>

section \<open>Operations\<close>

datatype status_dto =
    DSubmitted | DAllowed | DAwaitingApproval | DApproved | DInSession | DDenied | DApprovalUnavailable
  | DApprovalRejected | DExpired | DCancelled | DCompleted | DAlreadyInState | DRejected | DSuperseded | DIndeterminate

datatype dispatch_dto = DNotDispatched | DPossiblyDispatched | DCompleteWrite | DUnknownDispatch

fun dto_dispatch :: "dispatch_certainty \<Rightarrow> dispatch_dto" where
  "dto_dispatch NotDispatched = DNotDispatched"
| "dto_dispatch PossiblyDispatched = DPossiblyDispatched"
| "dto_dispatch CompleteWrite = DCompleteWrite"
| "dto_dispatch UnknownDispatch = DUnknownDispatch"

fun dispatch_of_dto :: "dispatch_dto \<Rightarrow> dispatch_certainty" where
  "dispatch_of_dto DNotDispatched = NotDispatched"
| "dispatch_of_dto DPossiblyDispatched = PossiblyDispatched"
| "dispatch_of_dto DCompleteWrite = CompleteWrite"
| "dispatch_of_dto DUnknownDispatch = UnknownDispatch"

lemma dispatch_of_dto_back [simp]: "dispatch_of_dto (dto_dispatch d) = d"
  by (cases d) simp_all

record operation_dto =
  od_id :: u64
  od_receiver :: string
  od_intent :: intent_dto
  od_status :: status_dto
  od_superseded_by :: "u64 option"
  od_dispatch :: dispatch_dto
  od_confirmed :: bool
  od_reason :: "string option"
  od_observation :: "string option"

fun dto_status :: "operation_status \<Rightarrow> status_dto \<times> u64 option" where
  "dto_status Submitted = (DSubmitted, None)"
| "dto_status Allowed = (DAllowed, None)"
| "dto_status AwaitingApproval = (DAwaitingApproval, None)"
| "dto_status Approved = (DApproved, None)"
| "dto_status InSession = (DInSession, None)"
| "dto_status Denied = (DDenied, None)"
| "dto_status ApprovalUnavailable = (DApprovalUnavailable, None)"
| "dto_status ApprovalRejected = (DApprovalRejected, None)"
| "dto_status StatusExpired = (DExpired, None)"
| "dto_status Cancelled = (DCancelled, None)"
| "dto_status Completed = (DCompleted, None)"
| "dto_status AlreadyInState = (DAlreadyInState, None)"
| "dto_status Rejected = (DRejected, None)"
| "dto_status (Superseded by_id) = (DSuperseded, Some by_id)"
| "dto_status IndeterminateStatus = (DIndeterminate, None)"

definition dto_operation :: "operation_snapshot \<Rightarrow> operation_dto" where
  "dto_operation sn =
     (let (status, by_id) = dto_status (sn_status sn) in
      \<lparr>od_id = sn_id sn, od_receiver = receiver_id_str (sn_receiver sn), od_intent = dto_intent (sn_intent sn),
       od_status = status, od_superseded_by = by_id, od_dispatch = dto_dispatch (sn_dispatch sn),
       od_confirmed = sn_confirmed sn, od_reason = sn_reason sn, od_observation = sn_observation sn\<rparr>)"

fun status_of_dto :: "status_dto \<Rightarrow> u64 option \<Rightarrow> (operation_status, string) result" where
  "status_of_dto DSubmitted _ = Ok Submitted"
| "status_of_dto DAllowed _ = Ok Allowed"
| "status_of_dto DAwaitingApproval _ = Ok AwaitingApproval"
| "status_of_dto DApproved _ = Ok Approved"
| "status_of_dto DInSession _ = Ok InSession"
| "status_of_dto DDenied _ = Ok Denied"
| "status_of_dto DApprovalUnavailable _ = Ok ApprovalUnavailable"
| "status_of_dto DApprovalRejected _ = Ok ApprovalRejected"
| "status_of_dto DExpired _ = Ok StatusExpired"
| "status_of_dto DCancelled _ = Ok Cancelled"
| "status_of_dto DCompleted _ = Ok Completed"
| "status_of_dto DAlreadyInState _ = Ok AlreadyInState"
| "status_of_dto DRejected _ = Ok Rejected"
| "status_of_dto DSuperseded (Some i) = Ok (Superseded i)"
| "status_of_dto DSuperseded None = Err ''a superseded operation names the one that replaced it''"
| "status_of_dto DIndeterminate _ = Ok IndeterminateStatus"

definition snapshot_of_dto :: "operation_dto \<Rightarrow> (operation_snapshot, string) result" where
  "snapshot_of_dto od =
     (case status_of_dto (od_status od) (od_superseded_by od) of
        Err e \<Rightarrow> Err e
      | Ok status \<Rightarrow>
          (case parse_receiver_id (od_receiver od) of
             Err e \<Rightarrow> Err e
           | Ok receiver \<Rightarrow>
               (case intent_of_dto (od_intent od) of
                  Err e \<Rightarrow> Err e
                | Ok intent \<Rightarrow>
                    Ok \<lparr>sn_id = od_id od, sn_receiver = receiver, sn_intent = intent, sn_status = status,
                        sn_dispatch = dispatch_of_dto (od_dispatch od), sn_confirmed = od_confirmed od,
                        sn_reason = od_reason od, sn_observation = od_observation od\<rparr>)))"

definition snapshot_valid :: "operation_snapshot \<Rightarrow> bool" where
  "snapshot_valid sn = (receiver_id_valid (sn_receiver sn) \<and> intent_valid (sn_intent sn))"

lemma status_of_dto_back [simp]: "case_prod status_of_dto (dto_status s) = Ok s"
  by (cases s) simp_all

interpretation snapshot_wire: wire_form dto_operation snapshot_of_dto snapshot_valid
proof
  fix sn
  assume valid: "snapshot_valid sn"
  obtain status by_id where st: "dto_status (sn_status sn) = (status, by_id)" by fastforce
  then have "status_of_dto status by_id = Ok (sn_status sn)" using status_of_dto_back [of "sn_status sn"] by simp
  with valid st show "snapshot_of_dto (dto_operation sn) = Ok sn"
    by (simp add: dto_operation_def snapshot_of_dto_def snapshot_valid_def receiver_id_valid_def intent_wire.reads_back)
qed

section \<open>Requests\<close>

record submission_dto =
  sq_intent :: intent_dto
  sq_key :: "string option"

fun key_str :: "idempotency_key \<Rightarrow> string" where
  "key_str (IdempotencyKey t) = t"

definition submit_request :: "operation_submission \<Rightarrow> submission_dto" where
  "submit_request sub = \<lparr>sq_intent = dto_intent (os_intent sub), sq_key = map_option key_str (os_idempotency_key sub)\<rparr>"

definition into_submission :: "submission_dto \<Rightarrow> (operation_submission, string) result" where
  "into_submission sq =
     (case intent_of_dto (sq_intent sq) of
        Err e \<Rightarrow> Err e
      | Ok intent \<Rightarrow>
          (case sq_key sq of
             None \<Rightarrow> Ok \<lparr>os_intent = intent, os_idempotency_key = None\<rparr>
           | Some t \<Rightarrow>
               (case idempotency_key_new t of
                  Err e \<Rightarrow> Err e
                | Ok key \<Rightarrow> Ok \<lparr>os_intent = intent, os_idempotency_key = Some key\<rparr>)))"

definition submission_valid :: "operation_submission \<Rightarrow> bool" where
  "submission_valid sub =
     (intent_valid (os_intent sub) \<and> pred_option (\<lambda>k. idempotency_key_new (key_str k) = Ok k) (os_idempotency_key sub))"

interpretation submission_wire: wire_form submit_request into_submission submission_valid
proof
  fix sub
  assume "submission_valid sub"
  then show "into_submission (submit_request sub) = Ok sub"
    by (cases "os_idempotency_key sub")
       (simp_all add: submission_valid_def into_submission_def submit_request_def intent_wire.reads_back)
qed

text \<open>\<open>OperatorDryRunRequest::agent\<close>\<close>

definition dry_run_agent :: "string option \<Rightarrow> (agent_label option, string) result" where
  "dry_run_agent as_agent =
     (case as_agent of None \<Rightarrow> Ok None | Some t \<Rightarrow> map_sum id Some (agent_label_new t))"

section \<open>Dry runs\<close>

datatype decision_dto = DecisionAllow | DecisionRequireApproval | DecisionDeny | DecisionUnavailable

text \<open>What the two views of a dry run add: nothing, or the ids of the rules.\<close>

record 'r rules_detail =
  rd_of :: "string list \<Rightarrow> 'r"
  rd_rules :: "'r \<Rightarrow> string list"

definition no_rules :: "unit rules_detail" where
  "no_rules = \<lparr>rd_of = (\<lambda>_. ()), rd_rules = (\<lambda>_. [])\<rparr>"

definition rule_ids :: "string list rules_detail" where
  "rule_ids = \<lparr>rd_of = (\<lambda>rs. rs), rd_rules = (\<lambda>rs. rs)\<rparr>"

record 'r dry_run_dto =
  dv_decision :: decision_dto
  dv_reasons :: "string list"
  dv_reason :: "string option"
  dv_policy_digest :: "string option"
  dv_rules :: 'r

definition dry_run_view :: "'r rules_detail \<Rightarrow> dry_run \<Rightarrow> 'r dry_run_dto" where
  "dry_run_view rd dr =
     (let (decision, reasons, reason, rules) =
        (case dr_decision dr of
           DryAllow \<Rightarrow> (DecisionAllow, [], None, [])
         | DryRequireApproval reasons rules \<Rightarrow> (DecisionRequireApproval, reasons, None, rules)
         | DryDeny reasons rules \<Rightarrow> (DecisionDeny, reasons, None, rules)
         | DryUnavailable reason \<Rightarrow> (DecisionUnavailable, [], Some reason, []))
      in \<lparr>dv_decision = decision, dv_reasons = reasons, dv_reason = reason,
          dv_policy_digest = map_option digest_fmt (dr_policy dr), dv_rules = rd_of rd rules\<rparr>)"

definition into_dry_run :: "'r rules_detail \<Rightarrow> 'r dry_run_dto \<Rightarrow> (dry_run, string) result" where
  "into_dry_run rd dv =
     (let rules = rd_rules rd (dv_rules dv);
          decision = (case dv_decision dv of
              DecisionAllow \<Rightarrow> DryAllow
            | DecisionRequireApproval \<Rightarrow> DryRequireApproval (dv_reasons dv) rules
            | DecisionDeny \<Rightarrow> DryDeny (dv_reasons dv) rules
            | DecisionUnavailable \<Rightarrow> DryUnavailable (case dv_reason dv of Some r \<Rightarrow> r | None \<Rightarrow> []))
      in case dv_policy_digest dv of
           None \<Rightarrow> Ok \<lparr>dr_decision = decision, dr_policy = None\<rparr>
         | Some hex \<Rightarrow>
             (case digest_from_hex hex of
                None \<Rightarrow> Err ''the policy digest is not 64 hexadecimal digits''
              | Some digest \<Rightarrow> Ok \<lparr>dr_decision = decision, dr_policy = Some digest\<rparr>))"

fun without_rules :: "dry_run_decision \<Rightarrow> dry_run_decision" where
  "without_rules (DryRequireApproval reasons _) = DryRequireApproval reasons []"
| "without_rules (DryDeny reasons _) = DryDeny reasons []"
| "without_rules d = d"

lemma operator_dry_run_back:
  "pred_option digest_wf (dr_policy dr) \<Longrightarrow> into_dry_run rule_ids (dry_run_view rule_ids dr) = Ok dr"
  by (cases dr; cases "dr_policy dr"; cases "dr_decision dr")
     (simp_all add: dry_run_view_def into_dry_run_def rule_ids_def digest_roundtrip)

lemma agent_dry_run_back:
  "pred_option digest_wf (dr_policy dr) \<Longrightarrow>
     into_dry_run no_rules (dry_run_view no_rules dr) = Ok (dr\<lparr>dr_decision := without_rules (dr_decision dr)\<rparr>)"
  by (cases dr; cases "dr_policy dr"; cases "dr_decision dr")
     (simp_all add: dry_run_view_def into_dry_run_def no_rules_def digest_roundtrip)

interpretation operator_dry_run_wire:
  wire_form "dry_run_view rule_ids" "into_dry_run rule_ids" "\<lambda>dr. pred_option digest_wf (dr_policy dr)"
  by unfold_locales (rule operator_dry_run_back)

section \<open>Receivers and health\<close>

record capabilities_dto =
  cd_writable :: bool
  cd_zone2_power :: bool
  cd_source_catalog_read :: bool
  cd_inputs :: "string list"
  cd_surround_modes :: "string list"

definition dto_capabilities :: "receiver_capabilities \<Rightarrow> capabilities_dto" where
  "dto_capabilities c =
     \<lparr>cd_writable = rc_writable c, cd_zone2_power = rc_zone2_power c, cd_source_catalog_read = rc_source_catalog_read c,
      cd_inputs = rc_inputs c, cd_surround_modes = rc_surround_modes c\<rparr>"

definition capabilities_of_dto :: "capabilities_dto \<Rightarrow> receiver_capabilities" where
  "capabilities_of_dto c =
     \<lparr>rc_writable = cd_writable c, rc_zone2_power = cd_zone2_power c, rc_source_catalog_read = cd_source_catalog_read c,
      rc_inputs = cd_inputs c, rc_surround_modes = cd_surround_modes c\<rparr>"

record summary_dto =
  sd_id :: string
  sd_model :: "string option"
  sd_capabilities :: capabilities_dto
  sd_connection :: connection_dto

definition dto_summary :: "receiver_summary \<Rightarrow> summary_dto" where
  "dto_summary su =
     \<lparr>sd_id = receiver_id_str (su_id su), sd_model = su_model su, sd_capabilities = dto_capabilities (su_capabilities su),
      sd_connection = dto_connection (su_connection su)\<rparr>"

definition summary_of_dto :: "summary_dto \<Rightarrow> (receiver_summary, string) result" where
  "summary_of_dto sd =
     map_sum id (\<lambda>r. \<lparr>su_id = r, su_model = sd_model sd, su_capabilities = capabilities_of_dto (sd_capabilities sd),
       su_connection = connection_of_dto (sd_connection sd)\<rparr>) (parse_receiver_id (sd_id sd))"

interpretation summary_wire: wire_form dto_summary summary_of_dto "\<lambda>su. receiver_id_valid (su_id su)"
  by unfold_locales
     (simp add: dto_summary_def summary_of_dto_def receiver_id_valid_def dto_capabilities_def capabilities_of_dto_def)

datatype policy_health_dto = DPolicyNotConfigured | DPolicyActive | DPolicyUnavailable
datatype audit_dto = DAuditNotConfigured | DAuditOk | DAuditFailing
datatype approval_dto = DApprovalPathUnavailable
datatype agent_endpoint_dto = EndpointOn | EndpointOff string
datatype token_store_dto = DTokenStoreOk | DTokenStoreUnavailable

record server_health =
  sv_agent_endpoint :: agent_endpoint_dto
  sv_token_store :: token_store_dto

definition CONTRACT_VERSION :: nat where "CONTRACT_VERSION = 1"

record health_dto =
  hd_contract :: nat
  hd_policy :: policy_health_dto
  hd_audit :: audit_dto
  hd_ledger_ready :: bool
  hd_approval :: approval_dto
  hd_server :: "server_health option"

definition dto_health :: "service_health \<Rightarrow> server_health option \<Rightarrow> health_dto" where
  "dto_health h server =
     \<lparr>hd_contract = CONTRACT_VERSION,
      hd_policy = (case sh_policy h of PolicyNotConfigured \<Rightarrow> DPolicyNotConfigured | PolicyActive \<Rightarrow> DPolicyActive
          | PolicyUnavailable \<Rightarrow> DPolicyUnavailable),
      hd_audit = (case sh_audit h of AuditNotConfigured \<Rightarrow> DAuditNotConfigured | AuditOk \<Rightarrow> DAuditOk | AuditFailing \<Rightarrow> DAuditFailing),
      hd_ledger_ready = sh_ledger_ready h, hd_approval = DApprovalPathUnavailable, hd_server = server\<rparr>"

definition health_of_dto :: "health_dto \<Rightarrow> service_health" where
  "health_of_dto d =
     \<lparr>sh_policy = (case hd_policy d of DPolicyNotConfigured \<Rightarrow> PolicyNotConfigured | DPolicyActive \<Rightarrow> PolicyActive
          | DPolicyUnavailable \<Rightarrow> PolicyUnavailable),
      sh_audit = (case hd_audit d of DAuditNotConfigured \<Rightarrow> AuditNotConfigured | DAuditOk \<Rightarrow> AuditOk | DAuditFailing \<Rightarrow> AuditFailing),
      sh_ledger_ready = hd_ledger_ready d, sh_approval = ApprovalPathUnavailable\<rparr>"

interpretation health_wire: wire_form "\<lambda>h. dto_health h server" "\<lambda>d. Ok (health_of_dto d)" "\<lambda>_. True"
proof
  fix h :: service_health
  show "Ok (health_of_dto (dto_health h server)) = Ok h"
    by (cases h; cases "sh_policy h"; cases "sh_audit h"; cases "sh_approval h")
       (simp_all add: dto_health_def health_of_dto_def)
qed

section \<open>Errors\<close>

record error_detail =
  ed_code :: string
  ed_message :: string
  ed_what :: "string option"
  ed_kind :: "string option"
  ed_retry_after :: "nat option"
  ed_operation :: "operation_dto option"

record api_error =
  ae_status :: nat
  ae_detail :: error_detail

definition error_detail_new :: "string \<Rightarrow> string \<Rightarrow> error_detail" where
  "error_detail_new code message =
     \<lparr>ed_code = code, ed_message = message, ed_what = None, ed_kind = None, ed_retry_after = None, ed_operation = None\<rparr>"

definition server_error :: "nat \<Rightarrow> string \<Rightarrow> string \<Rightarrow> api_error" where
  "server_error status code message = \<lparr>ae_status = status, ae_detail = error_detail_new code message\<rparr>"

definition unauthenticated :: api_error where
  "unauthenticated = server_error 401 ''unauthenticated'' ''a valid credential is required''"

definition whole_seconds_rounded_up :: "duration \<Rightarrow> nat" where
  "whole_seconds_rounded_up d = d div 1000000000 + (if d mod 1000000000 > 0 then 1 else 0)"

fun kind_name :: "operation_error_kind \<Rightarrow> string" where
  "kind_name ErrConfiguration = ''configuration''"
| "kind_name ErrDiscovery = ''discovery''"
| "kind_name ErrInvalidSelection = ''invalid_selection''"
| "kind_name ErrConnection = ''connection''"
| "kind_name ErrTimeout = ''timeout''"
| "kind_name ErrDisconnected = ''disconnected''"
| "kind_name ErrMalformed = ''malformed''"
| "kind_name ErrUnavailable = ''unavailable''"
| "kind_name ErrUnsupported = ''unsupported''"
| "kind_name ErrStopped = ''stopped''"
| "kind_name ErrConflict = ''conflict''"

definition ALL_KINDS :: "operation_error_kind list" where
  "ALL_KINDS = [ErrConfiguration, ErrDiscovery, ErrInvalidSelection, ErrConnection, ErrTimeout, ErrDisconnected,
     ErrMalformed, ErrUnavailable, ErrUnsupported, ErrStopped, ErrConflict]"

definition parse_kind :: "string \<Rightarrow> operation_error_kind option" where
  "parse_kind name = List.find (\<lambda>k. kind_name k = name) ALL_KINDS"

lemma parse_kind_name [simp]: "parse_kind (kind_name k) = Some k"
  by (cases k) (simp_all add: parse_kind_def ALL_KINDS_def)

fun api_error_of :: "control_error \<Rightarrow> api_error" where
  "api_error_of (NotFound what) =
     \<lparr>ae_status = 404, ae_detail = (error_detail_new ''not_found'' (control_error_fmt (NotFound what)))\<lparr>ed_what := Some what\<rparr>\<rparr>"
| "api_error_of Forbidden = \<lparr>ae_status = 403, ae_detail = error_detail_new ''forbidden'' ''not permitted''\<rparr>"
| "api_error_of (InvalidRequest m) = \<lparr>ae_status = 400, ae_detail = error_detail_new ''invalid_request'' m\<rparr>"
| "api_error_of (UnavailableError m) = \<lparr>ae_status = 503, ae_detail = error_detail_new ''unavailable'' m\<rparr>"
| "api_error_of (TooLate sn) =
     \<lparr>ae_status = 409,
      ae_detail = (error_detail_new ''too_late'' (control_error_fmt (TooLate sn)))\<lparr>ed_operation := Some (dto_operation sn)\<rparr>\<rparr>"
| "api_error_of (RateLimited retry_after) =
     \<lparr>ae_status = 429,
      ae_detail = (error_detail_new ''rate_limited'' ''rate limited'')
        \<lparr>ed_retry_after := map_option whole_seconds_rounded_up retry_after\<rparr>\<rparr>"
| "api_error_of (ReceiverError inner) =
     \<lparr>ae_status = 502,
      ae_detail = (error_detail_new ''receiver_error'' (operation_error_fmt inner))\<lparr>ed_kind := Some (kind_name (oe_kind inner))\<rparr>\<rparr>"

definition NOT_FOUND_WORDS :: "string list" where "NOT_FOUND_WORDS = [''receiver'', ''operation'', ''token'']"
definition CLIENT_CONTEXT :: string where "CLIENT_CONTEXT = ''control service''"

definition into_control_error :: "api_error \<Rightarrow> control_error" where
  "into_control_error e =
     (let detail = ae_detail e; code = ed_code detail; status = ae_status e;
          retry = RateLimited (map_option from_secs (ed_retry_after detail)) in
      if code = ''not_found''
      then NotFound (case List.find (\<lambda>w. Some w = ed_what detail) NOT_FOUND_WORDS of Some w \<Rightarrow> w | None \<Rightarrow> ''resource'')
      else if code = ''forbidden'' \<or> code = ''unauthenticated'' then Forbidden
      else if code = ''invalid_request'' then InvalidRequest (ed_message detail)
      else if code = ''unavailable'' \<or> code = ''shutting_down'' then UnavailableError (ed_message detail)
      else if code = ''too_late''
      then (case map_option snapshot_of_dto (ed_operation detail) of
              Some (Ok sn) \<Rightarrow> TooLate sn
            | _ \<Rightarrow> UnavailableError ''the server's answer could not be read'')
      else if code = ''rate_limited'' \<or> code = ''too_many_streams'' then retry
      else if code = ''receiver_error''
      then ReceiverError \<lparr>oe_kind = (case Option.bind (ed_kind detail) parse_kind of Some k \<Rightarrow> k | None \<Rightarrow> ErrUnavailable),
                          oe_context = CLIENT_CONTEXT, oe_message = ed_message detail\<rparr>
      else if status = 401 \<or> status = 403 then Forbidden
      else if status = 404 then NotFound ''resource''
      else if status = 429 then retry
      else if 500 \<le> status \<and> status \<le> 599 then UnavailableError (ed_message detail)
      else InvalidRequest (ed_message detail))"

text \<open>
  \<open>error_response\<close> of \<open>crates/api-client/src/mapping.rs\<close>; the first argument reads the body.
\<close>

definition error_response :: "('j \<Rightarrow> error_detail option) \<Rightarrow> nat \<Rightarrow> 'j \<Rightarrow> control_error" where
  "error_response read status body =
     (case read body of
        Some detail \<Rightarrow> into_control_error \<lparr>ae_status = status, ae_detail = detail\<rparr>
      | None \<Rightarrow> UnavailableError (''the server answered '' @ show_nat status))"

section \<open>What a caller on the far side of the wire sees\<close>

text \<open>What is left of an error: seconds for the time to wait, and the message for where it arose.\<close>

fun remote_error :: "control_error \<Rightarrow> control_error" where
  "remote_error (NotFound what) = NotFound (if what \<in> set NOT_FOUND_WORDS then what else ''resource'')"
| "remote_error (RateLimited retry_after) = RateLimited (map_option (\<lambda>d. from_secs (whole_seconds_rounded_up d)) retry_after)"
| "remote_error (ReceiverError e) =
     ReceiverError \<lparr>oe_kind = oe_kind e, oe_context = CLIENT_CONTEXT, oe_message = operation_error_fmt e\<rparr>"
| "remote_error e = e"

fun control_error_valid :: "control_error \<Rightarrow> bool" where
  "control_error_valid (TooLate sn) = snapshot_valid sn"
| "control_error_valid _ = True"

lemma into_control_error_of:
  "control_error_valid e \<Longrightarrow> into_control_error (api_error_of e) = remote_error e"
  by (cases e) (auto simp: into_control_error_def error_detail_new_def Let_def NOT_FOUND_WORDS_def snapshot_wire.reads_back option.map_comp o_def)

lemma round_up:
  assumes "d = q * n + r" "r < n"
  shows "d \<le> (q + (if r > 0 then 1 else 0)) * n \<and> (q + (if r > 0 then 1 else 0)) * n < d + (n :: nat)"
  using assms by (auto simp: algebra_simps)

lemma rounded_up_waits:
  "d \<le> from_secs (whole_seconds_rounded_up d) \<and> from_secs (whole_seconds_rounded_up d) < d + 1000000000"
  unfolding from_secs_def whole_seconds_rounded_up_def by (rule round_up [OF div_mult_mod_eq [symmetric]]) simp

end
