(* ===== verification/Api_State.thy ===== *)
theory Api_State
  imports Api_Values Precondition
begin

text \<open>
  Receiver state and the source catalog on the wire, \<open>crates/api-contract/src/state.rs\<close>, in two views.
  A trait that says what a view adds is a record of its methods: \<open>no_text\<close> is the agent's, which has
  no place for a string, \<open>field_text_detail\<close> and \<open>diagnostics_detail\<close> the Operator's.
\<close>

section \<open>What a view adds\<close>

record 'f detail =
  dt_about :: "field_validity \<Rightarrow> string option \<Rightarrow> string option \<Rightarrow> 'f"
  dt_issue :: "'f \<Rightarrow> string option"
  dt_evidence :: "'f \<Rightarrow> string option"
  dt_raw :: "'f \<Rightarrow> string option"

definition no_text :: "unit detail" where
  "no_text = \<lparr>dt_about = (\<lambda>_ _ _. ()), dt_issue = (\<lambda>_. None), dt_evidence = (\<lambda>_. None), dt_raw = (\<lambda>_. None)\<rparr>"

record field_text =
  ft_issue :: "string option"
  ft_evidence :: "string option"
  ft_raw :: "string option"

definition field_text_about :: "field_validity \<Rightarrow> string option \<Rightarrow> string option \<Rightarrow> field_text" where
  "field_text_about validity issue raw =
     \<lparr>ft_issue = issue,
      ft_evidence = (case validity of Unavailable (UnavailableStatus t) \<Rightarrow> Some t | _ \<Rightarrow> None),
      ft_raw = raw\<rparr>"

definition field_text_detail :: "field_text detail" where
  "field_text_detail =
     \<lparr>dt_about = field_text_about, dt_issue = ft_issue, dt_evidence = ft_evidence, dt_raw = ft_raw\<rparr>"

record 'e extras =
  ex_of :: "receiver_state \<Rightarrow> 'e"
  ex_diagnostics :: "'e \<Rightarrow> string list"

definition no_extras :: "unit extras" where
  "no_extras = \<lparr>ex_of = (\<lambda>_. ()), ex_diagnostics = (\<lambda>_. [])\<rparr>"

definition diagnostics_detail :: "string list extras" where
  "diagnostics_detail = \<lparr>ex_of = rs_diagnostics, ex_diagnostics = (\<lambda>ds. ds)\<rparr>"

section \<open>The view of a state\<close>

datatype validity_dto = DCurrent | DStale | DUnknown | DUnavailable
datatype reason_dto = DDisconnected | DQueryFailed | DExpiredReason | DReceiverChanged

fun dto_reason :: "stale_reason \<Rightarrow> reason_dto" where
  "dto_reason Disconnected = DDisconnected"
| "dto_reason QueryFailed = DQueryFailed"
| "dto_reason Expired = DExpiredReason"
| "dto_reason ReceiverChanged = DReceiverChanged"

fun reason_of_dto :: "reason_dto \<Rightarrow> stale_reason" where
  "reason_of_dto DDisconnected = Disconnected"
| "reason_of_dto DQueryFailed = QueryFailed"
| "reason_of_dto DExpiredReason = Expired"
| "reason_of_dto DReceiverChanged = ReceiverChanged"

lemma reason_of_dto_back [simp]: "reason_of_dto (dto_reason r) = r"
  by (cases r) simp_all

record ('t, 'f) field_dto =
  fv_value :: "'t option"
  fv_validity :: validity_dto
  fv_reason :: "reason_dto option"
  fv_text :: 'f

fun dto_validity :: "field_validity \<Rightarrow> validity_dto \<times> reason_dto option" where
  "dto_validity (Current _) = (DCurrent, None)"
| "dto_validity (Stale r) = (DStale, Some (dto_reason r))"
| "dto_validity ValidityUnknown = (DUnknown, None)"
| "dto_validity (Unavailable _) = (DUnavailable, None)"

definition field_view :: "'f detail \<Rightarrow> ('a \<Rightarrow> 't) \<Rightarrow> ('a \<Rightarrow> string) option \<Rightarrow> 'a field_state \<Rightarrow> ('t, 'f) field_dto" where
  "field_view dt value raw field =
     (let (validity, reason) = dto_validity (fs_validity field);
          shown = Option.bind (fs_last_good field) (\<lambda>ob. map_option (\<lambda>r. r (ob_value ob)) raw)
      in \<lparr>fv_value = map_option (\<lambda>ob. value (ob_value ob)) (fs_last_good field), fv_validity = validity,
          fv_reason = reason, fv_text = dt_about dt (fs_validity field) (fs_last_issue field) shown\<rparr>)"

record 'f main_zone_view =
  mv_power :: "(zone_power_dto, 'f) field_dto"
  mv_source :: "(string, 'f) field_dto"
  mv_volume :: "(volume_dto, 'f) field_dto"
  mv_mute :: "(mute_dto, 'f) field_dto"
  mv_sound_mode :: "(string, 'f) field_dto"

record ('f, 'e) state_dto =
  vw_receiver :: string
  vw_revision :: u64
  vw_epoch :: "u64 option"
  vw_system_power :: "(system_power_dto, 'f) field_dto"
  vw_main_zone :: "'f main_zone_view"
  vw_zone2_power :: "(zone_power_dto, 'f) field_dto"
  vw_extras :: 'e

definition state_view :: "'f detail \<Rightarrow> 'e extras \<Rightarrow> receiver_state \<Rightarrow> ('f, 'e) state_dto" where
  "state_view dt ex s =
     (let mz = rs_main_zone s in
      \<lparr>vw_receiver = receiver_id_str (rs_receiver s), vw_revision = rs_revision s, vw_epoch = rs_epoch s,
       vw_system_power = field_view dt dto_system_power None (rs_system_power s),
       vw_main_zone =
         \<lparr>mv_power = field_view dt dto_zone_power None (mz_power mz),
          mv_source = field_view dt source_id_str None (mz_source mz),
          mv_volume = field_view dt dto_volume None (mz_volume mz),
          mv_mute = field_view dt dto_mute None (mz_mute mz),
          mv_sound_mode = field_view dt sms_id (Some sms_raw) (mz_sound_mode mz)\<rparr>,
       vw_zone2_power = field_view dt dto_zone_power None (rs_zone2_power s),
       vw_extras = ex_of ex s\<rparr>)"

section \<open>The state of a view\<close>

definition placeholder :: "receiver_id \<Rightarrow> epoch \<Rightarrow> 'a \<Rightarrow> 'a observation" where
  "placeholder receiver e v =
     \<lparr>ob_receiver = receiver, ob_epoch = e, ob_frame_seq = 0, ob_observed_at = 0, ob_origin = ReceiverFrame, ob_value = v\<rparr>"

definition rebuild ::
  "'f detail \<Rightarrow> receiver_id \<Rightarrow> epoch \<Rightarrow> ('t \<Rightarrow> 'f \<Rightarrow> ('a, string) result) \<Rightarrow> ('t, 'f) field_dto \<Rightarrow> ('a field_state, string) result" where
  "rebuild dt receiver e convert vw =
     and_then (case fv_value vw of None \<Rightarrow> Ok None | Some v \<Rightarrow> map_sum id (\<lambda>a. Some (placeholder receiver e a)) (convert v (fv_text vw)))
       (\<lambda>good.
         and_then
           (case fv_validity vw of
              DCurrent \<Rightarrow> Ok (Current (- 1))
            | DStale \<Rightarrow> (case fv_reason vw of Some r \<Rightarrow> Ok (Stale (reason_of_dto r)) | None \<Rightarrow> Err ''a stale field says why it is stale'')
            | DUnknown \<Rightarrow> Ok ValidityUnknown
            | DUnavailable \<Rightarrow> Ok (Unavailable (UnavailableStatus (case dt_evidence dt (fv_text vw) of Some t \<Rightarrow> t | None \<Rightarrow> []))))
           (\<lambda>validity. Ok \<lparr>fs_last_good = good, fs_validity = validity, fs_synchronization = NotStarted,
                           fs_last_issue = dt_issue dt (fv_text vw)\<rparr>))"

definition into_state :: "'f detail \<Rightarrow> 'e extras \<Rightarrow> ('f, 'e) state_dto \<Rightarrow> (receiver_state, string) result" where
  "into_state dt ex vw =
     and_then (parse_receiver_id (vw_receiver vw)) (\<lambda>receiver.
       let e = (case vw_epoch vw of Some e \<Rightarrow> e | None \<Rightarrow> 0); main = vw_main_zone vw in
       and_then (rebuild dt receiver e (\<lambda>v _. Ok (system_power_of_dto v)) (vw_system_power vw)) (\<lambda>system.
       and_then (rebuild dt receiver e (\<lambda>v _. Ok (zone_power_of_dto v)) (vw_zone2_power vw)) (\<lambda>zone2.
       and_then (rebuild dt receiver e (\<lambda>v _. Ok (zone_power_of_dto v)) (mv_power main)) (\<lambda>power.
       and_then (rebuild dt receiver e (\<lambda>v _. source_id_new v) (mv_source main)) (\<lambda>source.
       and_then (rebuild dt receiver e (\<lambda>v _. volume_of_dto v) (mv_volume main)) (\<lambda>volume.
       and_then (rebuild dt receiver e (\<lambda>v _. Ok (mute_of_dto v)) (mv_mute main)) (\<lambda>mute.
       and_then (rebuild dt receiver e
         (\<lambda>v t. Ok \<lparr>sms_id = v, sms_raw = (case dt_raw dt t of Some raw \<Rightarrow> raw | None \<Rightarrow> v)\<rparr>) (mv_sound_mode main)) (\<lambda>mode.
       Ok \<lparr>rs_receiver = receiver, rs_revision = vw_revision vw, rs_epoch = vw_epoch vw, rs_system_power = system,
           rs_main_zone = \<lparr>mz_power = power, mz_source = source, mz_volume = volume, mz_mute = mute, mz_sound_mode = mode\<rparr>,
           rs_zone2_power = zone2, rs_diagnostics = ex_diagnostics ex (vw_extras vw)\<rparr>))))))))"

section \<open>The source catalog\<close>

datatype catalog_response = CatalogComplete | CatalogPartial | CatalogUnsupported | CatalogMalformed | CatalogTimeout | CatalogDisconnected

record catalog_observation =
  co_catalog :: source_catalog
  co_raw_response :: string
  co_response :: catalog_response

datatype visibility_dto = DShown | DHidden | DVisibilityUnknown
datatype freshness_dto = DFreshUnknown | DLive | DPartial | DInvalidated
datatype catalog_evidence_dto = DCatComplete | DCatPartial | DCatUnsupported | DCatMalformed | DCatTimeout | DCatDisconnected

fun dto_visibility :: "source_visibility \<Rightarrow> visibility_dto" where
  "dto_visibility Shown = DShown"
| "dto_visibility Hidden = DHidden"
| "dto_visibility VisibilityUnknown = DVisibilityUnknown"

fun visibility_of_dto :: "visibility_dto \<Rightarrow> source_visibility" where
  "visibility_of_dto DShown = Shown"
| "visibility_of_dto DHidden = Hidden"
| "visibility_of_dto DVisibilityUnknown = VisibilityUnknown"

fun dto_freshness :: "freshness \<Rightarrow> freshness_dto" where
  "dto_freshness FreshUnknown = DFreshUnknown"
| "dto_freshness Live = DLive"
| "dto_freshness Partial = DPartial"
| "dto_freshness Invalidated = DInvalidated"

fun freshness_of_dto :: "freshness_dto \<Rightarrow> freshness" where
  "freshness_of_dto DFreshUnknown = FreshUnknown"
| "freshness_of_dto DLive = Live"
| "freshness_of_dto DPartial = Partial"
| "freshness_of_dto DInvalidated = Invalidated"

fun dto_catalog_response :: "catalog_response \<Rightarrow> catalog_evidence_dto" where
  "dto_catalog_response CatalogComplete = DCatComplete"
| "dto_catalog_response CatalogPartial = DCatPartial"
| "dto_catalog_response CatalogUnsupported = DCatUnsupported"
| "dto_catalog_response CatalogMalformed = DCatMalformed"
| "dto_catalog_response CatalogTimeout = DCatTimeout"
| "dto_catalog_response CatalogDisconnected = DCatDisconnected"

fun catalog_response_of_dto :: "catalog_evidence_dto \<Rightarrow> catalog_response" where
  "catalog_response_of_dto DCatComplete = CatalogComplete"
| "catalog_response_of_dto DCatPartial = CatalogPartial"
| "catalog_response_of_dto DCatUnsupported = CatalogUnsupported"
| "catalog_response_of_dto DCatMalformed = CatalogMalformed"
| "catalog_response_of_dto DCatTimeout = CatalogTimeout"
| "catalog_response_of_dto DCatDisconnected = CatalogDisconnected"

record source_entry_dto =
  sy_id :: string
  sy_display_name :: "string option"
  sy_visibility :: visibility_dto

record 'x sources_detail =
  sx_of :: "catalog_observation \<Rightarrow> 'x"
  sx_raw_response :: "'x \<Rightarrow> string"
  sx_error :: "'x \<Rightarrow> string option"

definition no_sources_text :: "unit sources_detail" where
  "no_sources_text = \<lparr>sx_of = (\<lambda>_. ()), sx_raw_response = (\<lambda>_. []), sx_error = (\<lambda>_. None)\<rparr>"

definition sources_text :: "(string \<times> string option) sources_detail" where
  "sources_text = \<lparr>sx_of = (\<lambda>co. (co_raw_response co, sc_error (co_catalog co))), sx_raw_response = fst, sx_error = snd\<rparr>"

record 'x sources_dto =
  sw_entries :: "source_entry_dto list"
  sw_freshness :: freshness_dto
  sw_generation :: u64
  sw_observed_at :: "u64 option"
  sw_response :: catalog_evidence_dto
  sw_extra :: 'x

text \<open>A time is its nanoseconds since the Unix epoch; one before it, which has no wire form, is left out.\<close>

definition system_time_ms :: "nat option \<Rightarrow> u64 option" where
  "system_time_ms at_time =
     Option.bind at_time (\<lambda>n. if as_millis_dur n < 2 ^ 64 then Some (of_nat (as_millis_dur n)) else None)"

definition system_time_from_ms :: "u64 option \<Rightarrow> nat option" where
  "system_time_from_ms ms = map_option (\<lambda>m. from_millis_dur (unat m)) ms"

definition dto_source_entry :: "source_entry \<Rightarrow> source_entry_dto" where
  "dto_source_entry e =
     \<lparr>sy_id = source_id_str (se_id e), sy_display_name = se_display_name e, sy_visibility = dto_visibility (se_visibility e)\<rparr>"

definition sources_view :: "'x sources_detail \<Rightarrow> catalog_observation \<Rightarrow> 'x sources_dto" where
  "sources_view sx co =
     (let c = co_catalog co in
      \<lparr>sw_entries = map dto_source_entry (sc_entries c), sw_freshness = dto_freshness (sc_freshness c),
       sw_generation = sc_generation c, sw_observed_at = system_time_ms (sc_observed_at c),
       sw_response = dto_catalog_response (co_response co), sw_extra = sx_of sx co\<rparr>)"

fun source_entries_of_dto :: "source_entry_dto list \<Rightarrow> (source_entry list, string) result" where
  "source_entries_of_dto [] = Ok []"
| "source_entries_of_dto (e # es) =
     and_then (source_id_new (sy_id e)) (\<lambda>i.
       map_sum id (\<lambda>rest. \<lparr>se_id = i, se_display_name = sy_display_name e, se_visibility = visibility_of_dto (sy_visibility e)\<rparr> # rest)
         (source_entries_of_dto es))"

definition into_observation :: "'x sources_detail \<Rightarrow> 'x sources_dto \<Rightarrow> (catalog_observation, string) result" where
  "into_observation sx vw =
     map_sum id (\<lambda>entries.
       \<lparr>co_catalog =
          \<lparr>sc_entries = entries, sc_freshness = freshness_of_dto (sw_freshness vw), sc_generation = sw_generation vw,
           sc_observed_at = system_time_from_ms (sw_observed_at vw), sc_error = sx_error sx (sw_extra vw)\<rparr>,
        co_raw_response = sx_raw_response sx (sw_extra vw), co_response = catalog_response_of_dto (sw_response vw)\<rparr>)
      (source_entries_of_dto (sw_entries vw))"

section \<open>Reading back\<close>

lemma visibility_back [simp]: "visibility_of_dto (dto_visibility v) = v" by (cases v) simp_all
lemma freshness_back [simp]: "freshness_of_dto (dto_freshness f) = f" by (cases f) simp_all
lemma catalog_response_back [simp]: "catalog_response_of_dto (dto_catalog_response c) = c" by (cases c) simp_all

lemma source_entries_back:
  "list_all (\<lambda>e. source_id_valid (se_id e)) es \<Longrightarrow> source_entries_of_dto (map dto_source_entry es) = Ok es"
  by (induction es) (auto simp: dto_source_entry_def source_id_valid_def)

text \<open>The time of an observation in whole milliseconds.\<close>

definition whole_millis :: "nat option \<Rightarrow> nat option" where
  "whole_millis at_time = system_time_from_ms (system_time_ms at_time)"

lemma operator_catalog_back:
  assumes "list_all (\<lambda>e. source_id_valid (se_id e)) (sc_entries (co_catalog co))"
  shows "into_observation sources_text (sources_view sources_text co)
    = Ok (co\<lparr>co_catalog := (co_catalog co)\<lparr>sc_observed_at := whole_millis (sc_observed_at (co_catalog co))\<rparr>\<rparr>)"
  using source_entries_back [OF assms]
  by (simp add: into_observation_def sources_view_def sources_text_def Let_def whole_millis_def)

text \<open>What a field is once it has been on the wire.\<close>

definition relayed :: "'f detail \<Rightarrow> receiver_id \<Rightarrow> epoch \<Rightarrow> ('a \<Rightarrow> 'a) \<Rightarrow> ('a \<Rightarrow> string) option \<Rightarrow> 'a field_state \<Rightarrow> 'a field_state" where
  "relayed dt receiver e change raw field =
     (let text = fv_text (field_view dt (\<lambda>a. a) raw field) in
      \<lparr>fs_last_good = map_option (\<lambda>ob. placeholder receiver e (change (ob_value ob))) (fs_last_good field),
       fs_validity = (case fs_validity field of
           Current _ \<Rightarrow> Current (- 1)
         | Unavailable _ \<Rightarrow> Unavailable (UnavailableStatus (case dt_evidence dt text of Some t \<Rightarrow> t | None \<Rightarrow> []))
         | v \<Rightarrow> v),
       fs_synchronization = NotStarted, fs_last_issue = dt_issue dt text\<rparr>)"

lemma rebuild_relayed:
  assumes "\<And>ob. fs_last_good field = Some ob \<Longrightarrow>
      convert (value (ob_value ob)) (fv_text (field_view dt value raw field)) = Ok (change (ob_value ob))"
  shows "rebuild dt receiver e convert (field_view dt value raw field) = Ok (relayed dt receiver e change raw field)"
  using assms
  by (cases "fs_last_good field"; cases "fs_validity field")
     (simp_all add: rebuild_def relayed_def field_view_def Let_def)

text \<open>A value its constructor accepts.\<close>

fun value_ok :: "field_value \<Rightarrow> bool" where
  "value_ok (VSource i) = source_id_valid i"
| "value_ok (VVolume v) = master_volume_in_range v"
| "value_ok _ = True"

definition values_ok :: "receiver_state \<Rightarrow> bool" where
  "values_ok s \<longleftrightarrow> (\<forall>f ob. fs_last_good (view s f) = Some ob \<longrightarrow> value_ok (ob_value ob))"

lemma values_okD: "values_ok s \<Longrightarrow> fs_last_good (view s f) = Some ob \<Longrightarrow> value_ok (ob_value ob)"
  by (simp add: values_ok_def)

definition relayed_mode :: "'f detail \<Rightarrow> sound_mode_status field_state \<Rightarrow> sound_mode_status \<Rightarrow> sound_mode_status" where
  "relayed_mode dt field m =
     \<lparr>sms_id = sms_id m,
      sms_raw = (case dt_raw dt (fv_text (field_view dt sms_id (Some sms_raw) field)) of Some raw \<Rightarrow> raw | None \<Rightarrow> sms_id m)\<rparr>"

definition relayed_state :: "'f detail \<Rightarrow> 'e extras \<Rightarrow> receiver_state \<Rightarrow> receiver_state" where
  "relayed_state dt ex s =
     (let r = rs_receiver s; e = (case rs_epoch s of Some e \<Rightarrow> e | None \<Rightarrow> 0); mz = rs_main_zone s in
      \<lparr>rs_receiver = r, rs_revision = rs_revision s, rs_epoch = rs_epoch s,
       rs_system_power = relayed dt r e id None (rs_system_power s),
       rs_main_zone =
         \<lparr>mz_power = relayed dt r e id None (mz_power mz), mz_source = relayed dt r e id None (mz_source mz),
          mz_volume = relayed dt r e id None (mz_volume mz), mz_mute = relayed dt r e id None (mz_mute mz),
          mz_sound_mode = relayed dt r e (relayed_mode dt (mz_sound_mode mz)) (Some sms_raw) (mz_sound_mode mz)\<rparr>,
       rs_zone2_power = relayed dt r e id None (rs_zone2_power s), rs_diagnostics = ex_diagnostics ex (ex_of ex s)\<rparr>)"

lemma into_state_relayed:
  assumes "receiver_id_valid (rs_receiver s)" "values_ok s"
  shows "into_state dt ex (state_view dt ex s) = Ok (relayed_state dt ex s)"
proof -
  have src: "source_id_new (source_id_str (ob_value ob)) = Ok (ob_value ob)"
    if "fs_last_good (mz_source (rs_main_zone s)) = Some ob" for ob
  proof -
    have "fs_last_good (view s FSource) = Some (erase_obs VSource ob)" using that by (simp add: erase_def)
    from values_okD [OF assms(2) this] show ?thesis by (simp add: erase_obs_def source_id_valid_def)
  qed
  have vol: "volume_of_dto (dto_volume (ob_value ob)) = Ok (ob_value ob)"
    if "fs_last_good (mz_volume (rs_main_zone s)) = Some ob" for ob
  proof -
    have "fs_last_good (view s FVolume) = Some (erase_obs VVolume ob)" using that by (simp add: erase_def)
    from values_okD [OF assms(2) this] show ?thesis by (simp add: erase_obs_def volume_of_dto_Ok)
  qed
  show ?thesis
    using assms(1) src vol
    by (simp add: into_state_def state_view_def relayed_state_def Let_def receiver_id_valid_def rebuild_relayed [where change = id]
        rebuild_relayed [where change = "relayed_mode dt (mz_sound_mode (rs_main_zone s))"] relayed_mode_def)
qed

end
