(* ===== verification/Api_Properties.thy ===== *)
theory Api_Properties
  imports Api_State Api_Operations
begin

text \<open>
  What crosses the wire: a client's rebuilt state supports the same preconditions as the server's, an
  agent's view tells apart exactly the states that differ in what an agent may know, and requests,
  operations, dry runs and errors read back.
\<close>

section \<open>States\<close>

lemma usable_relayed: "usable (relayed dt r e change raw field) g = usable field (g \<circ> change)"
  by (cases "fs_validity field"; cases "fs_last_good field")
     (simp_all add: usable_def relayed_def Let_def placeholder_def)

lemma usable_field_relayed: "usable_field (relayed_state dt ex s) f = usable_field s f"
  by (cases f) (simp_all add: relayed_state_def Let_def usable_relayed relayed_mode_def o_def)

lemma capture_relayed: "baseline_capture (relayed_state dt ex s) f = baseline_capture s f"
  by (simp add: baseline_capture_def usable_field_relayed)

lemma relayed_frame:
  "rs_receiver (relayed_state dt ex s) = rs_receiver s" "rs_revision (relayed_state dt ex s) = rs_revision s"
  "rs_epoch (relayed_state dt ex s) = rs_epoch s"
  by (simp_all add: relayed_state_def Let_def)

lemma mismatch_relayed: "mismatch p (relayed_state dt ex s) = mismatch p s"
proof -
  have "baseline_broken p (relayed_state dt ex s) = baseline_broken p s"
    by (rule ext) (simp add: baseline_broken_def holds_in_def capture_relayed split: option.split)
  then show ?thesis by (simp add: mismatch_def relayed_frame)
qed

lemma precondition_relayed: "precondition_capture (relayed_state dt ex s) fs = precondition_capture s fs"
  by (simp add: precondition_capture_def relayed_frame capture_relayed cong: option.case_cong)


text \<open>What an agent may know of a field: its value, whether it can be acted on and why it is stale.\<close>

fun validity_class :: "field_validity \<Rightarrow> field_validity" where
  "validity_class (Current _) = Current 0"
| "validity_class (Unavailable _) = Unavailable (UnavailableStatus [])"
| "validity_class v = v"

definition public_field :: "'a field_state \<Rightarrow> 'a option \<times> field_validity" where
  "public_field f = (map_option ob_value (fs_last_good f), validity_class (fs_validity f))"

definition same_public :: "receiver_state \<Rightarrow> receiver_state \<Rightarrow> bool" where
  "same_public s t \<longleftrightarrow>
     rs_receiver s = rs_receiver t \<and> rs_revision s = rs_revision t \<and> rs_epoch s = rs_epoch t
     \<and> (\<forall>f. public_field (view s f) = public_field (view t f))"

lemma dto_validity_class: "dto_validity v = dto_validity w \<longleftrightarrow> validity_class v = validity_class w"
proof -
  have "r = q" if "dto_reason r = dto_reason q" for r q using that by (metis reason_of_dto_back)
  then show ?thesis by (cases v; cases w) auto
qed

lemma agent_field_view:
  "field_view no_text value raw f = field_view no_text value raw g \<longleftrightarrow>
     map_option (value \<circ> ob_value) (fs_last_good f) = map_option (value \<circ> ob_value) (fs_last_good g)
     \<and> validity_class (fs_validity f) = validity_class (fs_validity g)"
  using dto_validity_class [of "fs_validity f" "fs_validity g"]
  by (auto simp: field_view_def no_text_def Let_def o_def split: prod.splits)

lemma public_erase:
  "public_field (erase g f) = public_field (erase g h) \<longleftrightarrow>
     map_option (g \<circ> ob_value) (fs_last_good f) = map_option (g \<circ> ob_value) (fs_last_good h)
     \<and> validity_class (fs_validity f) = validity_class (fs_validity h)"
  by (simp add: public_field_def erase_def erase_obs_def option.map_comp o_def)

lemma map_option_inj: "inj k \<Longrightarrow> map_option (k \<circ> h) a = map_option (k \<circ> h) b \<longleftrightarrow> map_option h a = map_option h b"
  by (cases a; cases b) (auto simp: inj_def)

lemma agent_field_public:
  assumes "inj k" "inj l"
  shows "field_view no_text (k \<circ> h) raw f = field_view no_text (k \<circ> h) raw g \<longleftrightarrow>
    public_field (erase (l \<circ> h) f) = public_field (erase (l \<circ> h) g)"
  by (simp add: agent_field_view public_erase comp_assoc map_option_inj [OF assms(1)] map_option_inj [OF assms(2)])

lemma dto_inj: "inj dto_system_power" "inj dto_zone_power" "inj dto_mute" "inj dto_volume" "inj source_id_str"
proof -
  show "inj dto_system_power" by (rule inj_on_inverseI [where g = system_power_of_dto]) simp
  show "inj dto_zone_power" by (rule inj_on_inverseI [where g = zone_power_of_dto]) simp
  show "inj dto_mute" by (rule inj_on_inverseI [where g = mute_of_dto]) simp
  show "inj dto_volume" by (rule injI) (metis dto_volume.elims dto_volume.simps volume_dto.distinct(1) volume_dto.inject)
  show "inj source_id_str" by (rule injI) (rule source_id.expand)
qed

text \<open>
  C36. An agent's view of a receiver tells two states apart exactly when they differ in the receiver, the
  revision, the connection, a value, or whether and why a value can be acted on. No text of an
  issue, of an unavailable status, of a raw frame or of a diagnostic makes a difference to it.
\<close>

theorem agent_view_public:
  "state_view no_text no_extras s = state_view no_text no_extras t \<longleftrightarrow> same_public s t"
proof -
  have "inj VSystemPower" "inj VMainZonePower" "inj VZone2Power" "inj VSource" "inj VVolume" "inj VMute" "inj VSoundMode"
    by (simp_all add: inj_def)
  note pub = agent_field_public [where h = "\<lambda>a. a", unfolded comp_def] agent_field_public [of id VSoundMode sms_id]
  have "(\<forall>f. public_field (view s f) = public_field (view t f)) \<longleftrightarrow>
     (\<forall>f \<in> set core_fields. public_field (view s f) = public_field (view t f))" by simp
  also have "\<dots> \<longleftrightarrow>
     field_view no_text dto_system_power None (rs_system_power s) = field_view no_text dto_system_power None (rs_system_power t)
   \<and> field_view no_text dto_zone_power None (mz_power (rs_main_zone s)) = field_view no_text dto_zone_power None (mz_power (rs_main_zone t))
   \<and> field_view no_text dto_zone_power None (rs_zone2_power s) = field_view no_text dto_zone_power None (rs_zone2_power t)
   \<and> field_view no_text source_id_str None (mz_source (rs_main_zone s)) = field_view no_text source_id_str None (mz_source (rs_main_zone t))
   \<and> field_view no_text dto_volume None (mz_volume (rs_main_zone s)) = field_view no_text dto_volume None (mz_volume (rs_main_zone t))
   \<and> field_view no_text dto_mute None (mz_mute (rs_main_zone s)) = field_view no_text dto_mute None (mz_mute (rs_main_zone t))
   \<and> field_view no_text sms_id (Some sms_raw) (mz_sound_mode (rs_main_zone s))
       = field_view no_text sms_id (Some sms_raw) (mz_sound_mode (rs_main_zone t))"
    using agent_field_public [of dto_system_power VSystemPower "\<lambda>a. a" None "rs_system_power s" "rs_system_power t"]
      agent_field_public [of dto_zone_power VMainZonePower "\<lambda>a. a" None "mz_power (rs_main_zone s)" "mz_power (rs_main_zone t)"]
      agent_field_public [of dto_zone_power VZone2Power "\<lambda>a. a" None "rs_zone2_power s" "rs_zone2_power t"]
      agent_field_public [of source_id_str VSource "\<lambda>a. a" None "mz_source (rs_main_zone s)" "mz_source (rs_main_zone t)"]
      agent_field_public [of dto_volume VVolume "\<lambda>a. a" None "mz_volume (rs_main_zone s)" "mz_volume (rs_main_zone t)"]
      agent_field_public [of dto_mute VMute "\<lambda>a. a" None "mz_mute (rs_main_zone s)" "mz_mute (rs_main_zone t)"]
      agent_field_public [of id VSoundMode sms_id "Some sms_raw" "mz_sound_mode (rs_main_zone s)" "mz_sound_mode (rs_main_zone t)"]
      dto_inj \<open>inj VSystemPower\<close> \<open>inj VMainZonePower\<close> \<open>inj VZone2Power\<close> \<open>inj VSource\<close> \<open>inj VVolume\<close> \<open>inj VMute\<close> \<open>inj VSoundMode\<close>
    by (simp add: core_fields_def comp_def)
  finally show ?thesis
    by (auto simp: same_public_def state_view_def Let_def no_extras_def intro: receiver_id.expand)
qed

section \<open>Requests, operations and errors\<close>

text \<open>
  What a client and the server send each other reads back: a submission, the snapshot of an
  operation and a dry run for the Operator as they were, a dry run for an agent without the ids of
  the rules.
\<close>

theorem wire_reads_back:
  assumes "submission_valid sub" "snapshot_valid sn" "pred_option digest_wf (dr_policy dr)"
  shows "into_submission (submit_request sub) = Ok sub \<and> snapshot_of_dto (dto_operation sn) = Ok sn
    \<and> into_dry_run rule_ids (dry_run_view rule_ids dr) = Ok dr
    \<and> into_dry_run no_rules (dry_run_view no_rules dr) = Ok (dr\<lparr>dr_decision := without_rules (dr_decision dr)\<rparr>)"
  using assms
  by (simp_all add: submission_wire.reads_back snapshot_wire.reads_back operator_dry_run_back agent_dry_run_back)

text \<open>
  An error of the port is the same error to a remote caller: of the same kind, with the operation
  it was too late to cancel as it is, with a wait that is not shorter and less than a second longer,
  and a receiver's error under one name for every place it came from.
\<close>

theorem errors_read_back:
  assumes "control_error_valid e"
  shows "into_control_error (api_error_of e) = remote_error e
    \<and> (\<forall>d. e = RateLimited (Some d) \<longrightarrow> (\<exists>w. into_control_error (api_error_of e) = RateLimited (Some w) \<and> d \<le> w \<and> w < d + from_secs 1))"
  using into_control_error_of [OF assms] rounded_up_waits by (auto simp: from_secs_def)

section \<open>Witnesses\<close>

definition sample_state :: receiver_state where
  "sample_state =
     (receiver_state_new (ReceiverId ''den''))\<lparr>rs_epoch := Some 3,
        rs_zone2_power := \<lparr>fs_last_good = Some (placeholder (ReceiverId ''den'') 3 ZoneOn), fs_validity = Stale QueryFailed,
          fs_synchronization = NotStarted, fs_last_issue = Some ''10.0.0.7 timed out''\<rparr>\<rparr>"

lemma den_valid: "receiver_id_valid (ReceiverId ''den'')"
  by code_simp

lemma sample_values: "values_ok sample_state"
proof -
  have "value_ok (ob_value ob)" if "fs_last_good (view sample_state f) = Some ob" for f ob
    using that by (cases f) (auto simp: sample_state_def receiver_state_new_def main_zone_default_def field_state_default_def
        erase_def erase_obs_def placeholder_def)
  then show ?thesis by (simp add: values_ok_def)
qed


definition sample_snapshot :: operation_snapshot where
  "sample_snapshot =
     \<lparr>sn_id = 4, sn_receiver = ReceiverId ''den'', sn_intent = IVolume (DbHalfSteps (- 60)), sn_status = Superseded 5,
      sn_dispatch = NotDispatched, sn_confirmed = False, sn_reason = None, sn_observation = None\<rparr>"

lemma sample_snapshot_valid: "snapshot_valid sample_snapshot"
  using den_valid by (simp add: snapshot_valid_def sample_snapshot_def LOWEST_HALF_STEP_def HIGHEST_HALF_STEP_def)

theorem wire_reads_back_witness:
  "snapshot_of_dto (dto_operation sample_snapshot) = Ok sample_snapshot"
proof -
  have "submission_valid \<lparr>os_intent = IMute MuteOn, os_idempotency_key = None\<rparr>" by (simp add: submission_valid_def)
  moreover have "pred_option digest_wf (dr_policy \<lparr>dr_decision = DryAllow, dr_policy = None\<rparr>)" by simp
  ultimately show ?thesis using wire_reads_back [OF _ sample_snapshot_valid] by blast
qed

theorem errors_read_back_witness:
  "into_control_error (api_error_of (TooLate sample_snapshot)) = TooLate sample_snapshot"
  using errors_read_back [of "TooLate sample_snapshot"] sample_snapshot_valid by simp

end
