(* ===== verification/Session_Values.thy ===== *)
theory Session_Values
  imports Session_Properties Api_State
begin

text \<open>
  The values a session holds: every one was accepted by the constructor of its type, so a state that a
  session publishes can always be read back from the wire. The frames come from \<open>parse\<close>, which
  builds them through those constructors, and nothing else sets a value.
\<close>

section \<open>What the receiver sends is well typed\<close>

lemma parse_volume_Ok: "parse_volume line = Ok v \<Longrightarrow> master_volume_in_range v"
  by (auto simp: parse_volume_def Let_def db_half_steps_Ok split: if_splits option.splits sum.splits)

lemma frame_value_ok:
  assumes "parse line = Ok parsed" "core_frame_of parsed = Some frame" "frame_value frame = Some v"
  shows "value_ok v"
proof (cases parsed)
  case (XVolume w)
  with assms(1) have "parse_volume line = Ok w" by (auto simp: parse_def split: if_splits sum.splits)
  with XVolume assms(2,3) parse_volume_Ok [OF this] show ?thesis by auto
next
  case (XSource i)
  with assms(1) have "source_id_new (drop 2 line) = Ok i" by (auto simp: parse_def split: if_splits sum.splits)
  with XSource assms(2,3) show ?thesis by (auto simp: source_id_new_Ok)
qed (use assms(2,3) in auto)

section \<open>Every operation on the feed keeps the values\<close>

lemma values_keep:
  assumes "values_ok s" "\<And>f. fs_last_good (view t f) = fs_last_good (view s f)"
  shows "values_ok t"
  using assms by (simp add: values_ok_def)

lemma values_operations [inv_intros]:
  assumes "values_ok s"
  shows "values_ok (record_diagnostic d s)" "values_ok (mark_disconnected s)" "values_ok (snd (establish_epoch e s))"
    "values_ok (rs_mark_converging f c w t s)" "values_ok (rs_mark_settled f c t s)" "values_ok (rs_mark_query_failed f m s)"
    "values_ok (snd (expire_fields now s))"
proof -
  note keep = values_keep [OF assms]
  show "values_ok (record_diagnostic d s)" "values_ok (snd (establish_epoch e s))"
    by (rule keep, simp add: view_establish_epoch)+
  show "values_ok (mark_disconnected s)" by (rule keep) (simp add: view_mark_disconnected stale_if_observed_def fs_stale_def)
  show "values_ok (rs_mark_converging f c w t s)" "values_ok (rs_mark_settled f c t s)"
    by (rule keep, simp add: rs_mark_converging_def rs_mark_settled_def view_sync_field set_synchronization_def)+
  show "values_ok (rs_mark_query_failed f m s)"
    by (rule keep) (simp add: rs_mark_query_failed_def view_fail_field mark_failed_def fs_stale_def)
  show "values_ok (snd (expire_fields now s))"
    by (rule keep) (simp add: view_expire_fields fs_expire_if_due_def fs_stale_def Let_def)
qed

lemma values_reduce:
  assumes "values_ok s" "\<And>v. frame_value frame = Some v \<Longrightarrow> value_ok v"
  shows "values_ok (snd (reduce st frame s))"
proof -
  have "values_ok (bump_revision (apply_frame st frame s))"
    using assms by (auto simp: values_ok_def view_apply_frame abs_apply_def fs_observe_def observed_def split: option.splits if_splits)
  with assms(1) show ?thesis by (simp add: reduce_def)
qed

definition keeps_values :: "feed \<Rightarrow> feed \<Rightarrow> bool" where
  "keeps_values fd fd' \<longleftrightarrow> rs_receiver (fd_state fd') = rs_receiver (fd_state fd)
     \<and> (values_ok (fd_state fd) \<longrightarrow> values_ok (fd_state fd'))"

lemma receiver_operations [simp]:
  "rs_receiver (snd (establish_epoch e s)) = rs_receiver s" "rs_receiver (rs_mark_converging f c w t s) = rs_receiver s"
  "rs_receiver (rs_mark_settled f c t s) = rs_receiver s" "rs_receiver (rs_mark_query_failed f m s) = rs_receiver s"
  "rs_receiver (snd (expire_fields now s)) = rs_receiver s" "rs_receiver (snd (reduce st frame s)) = rs_receiver s"
  by (simp_all add: establish_epoch_def rs_mark_converging_def rs_mark_settled_def rs_mark_query_failed_def
      expire_fields_def reduce_def Let_def split_beta bump_revision_def)

lemma keeps_state: "fd_state fd' = fd_state fd \<Longrightarrow> keeps_values fd fd'"
  by (simp add: keeps_values_def)

lemma keeps_line: "keeps_values fd (snd (reduce_line now line in_query fd))"
proof (cases "parse line")
  case (Inl e)
  then show ?thesis by (simp add: reduce_line_def Let_def keeps_values_def values_operations)
next
  case (Inr parsed)
  show ?thesis
  proof (cases "core_frame_of parsed")
    case None
    with Inr show ?thesis
      by (cases parsed) (simp_all add: reduce_line_def Let_def keeps_values_def values_operations)
  next
    case (Some frame)
    have "values_ok (snd (reduce st frame s))" if "values_ok s" for st s
      using values_reduce [OF that] frame_value_ok [OF Inr Some] by blast
    with Inr Some show ?thesis
      by (cases parsed) (auto simp: reduce_line_def Let_def keeps_values_def intro!: values_operations)
  qed
qed

interpretation kv: feed_relation keeps_values
proof (unfold_locales, goal_cases)
  case (3 fd now line in_query) show ?case by (rule keeps_line)
next
  case (4 fd g)
  show ?case by (simp add: synchronize_generation_def Let_def keeps_values_def values_operations)
next
  case (6 fd now ev)
  show ?case
  proof (cases ev)
    case (EvLine line)
    then show ?thesis by (simp add: keeps_line)
  qed (simp_all add: Let_def keeps_values_def values_operations)
qed (auto simp: keeps_values_def feed_converging_def feed_settled_def feed_failed_def feed_expire_def values_operations
      dest!: arg_cong [where f = snd] split: prod.splits bool.splits)

section \<open>Every published state\<close>

lemma session_values_ok:
  assumes "session_steps (session_connect r) ss"
  shows "values_ok (fd_state (ss_feed ss)) \<and> rs_receiver (fd_state (ss_feed ss)) = r"
proof -
  have "keeps_values (ss_feed (session_connect r)) (ss_feed ss)" using assms by (rule kv.rel_steps)
  moreover have "values_ok (receiver_state_new r)" by (simp add: values_ok_def view_new field_state_default_def)
  ultimately show ?thesis using values_operations(3) [of "receiver_state_new r" 1]
    by (simp add: keeps_values_def session_connect_def receiver_state_new_def)
qed



end
