(* ===== verification/Api_Routes.thy ===== *)
theory Api_Routes
  imports Receiver_State
begin

text \<open>
  The route table of \<open>crates/api-contract/src/routes.rs\<close>, the paths a client builds
  (\<open>paths.rs\<close>), and \<open>fits\<close> of \<open>apps/api-server/src/routes.rs\<close>. Matching a path against the table and
  taking the percent signs out of a segment are the web framework's; \<open>decode_segment\<close> states the
  second as RFC 3986 has it, for the lemmas only.
\<close>

section \<open>The table\<close>

datatype http_method = Get | Post | Put | Delete

fun method_str :: "http_method \<Rightarrow> string" where
  "method_str Get = ''GET''"
| "method_str Post = ''POST''"
| "method_str Put = ''PUT''"
| "method_str Delete = ''DELETE''"

datatype audience = BothEndpoints | OperatorOnly

datatype route_id =
    RHealth | RReceivers | RState | RSources | RStateEvents | ROperationEvents | RSubmit | RDryRun | ROperation | RCancel
  | RDiscover | RAdHoc | RConfigGet | RConfigPut | RQuickSelectNames | RHttpInformation | RRefresh | RPolicyGet
  | RPolicyReload | RAudit | RTokenIssue | RTokenList | RTokenRevoke

record route =
  rt_id :: route_id
  rt_method :: http_method
  rt_pattern :: string
  rt_audience :: audience

definition route_row :: "route_id \<Rightarrow> http_method \<Rightarrow> string \<Rightarrow> audience \<Rightarrow> route" where
  "route_row i m p a = \<lparr>rt_id = i, rt_method = m, rt_pattern = p, rt_audience = a\<rparr>"

definition TABLE :: "route list" where
  "TABLE =
     [route_row RHealth Get ''/v1/health'' BothEndpoints,
      route_row RReceivers Get ''/v1/receivers'' BothEndpoints,
      route_row RState Get ''/v1/receivers/{id}/state'' BothEndpoints,
      route_row RSources Get ''/v1/receivers/{id}/sources'' BothEndpoints,
      route_row RStateEvents Get ''/v1/receivers/{id}/events'' BothEndpoints,
      route_row ROperationEvents Get ''/v1/operations/events'' BothEndpoints,
      route_row RSubmit Post ''/v1/receivers/{id}/operations'' BothEndpoints,
      route_row RDryRun Post ''/v1/receivers/{id}/operations/dry-run'' BothEndpoints,
      route_row ROperation Get ''/v1/operations/{id}'' BothEndpoints,
      route_row RCancel Post ''/v1/operations/{id}/cancel'' BothEndpoints,
      route_row RDiscover Post ''/v1/receivers/discover'' OperatorOnly,
      route_row RAdHoc Post ''/v1/receivers/ad-hoc'' OperatorOnly,
      route_row RConfigGet Get ''/v1/config'' OperatorOnly,
      route_row RConfigPut Put ''/v1/config'' OperatorOnly,
      route_row RQuickSelectNames Get ''/v1/receivers/{id}/quick-select-names'' OperatorOnly,
      route_row RHttpInformation Get ''/v1/receivers/{id}/http-information'' OperatorOnly,
      route_row RRefresh Post ''/v1/receivers/{id}/refresh'' OperatorOnly,
      route_row RPolicyGet Get ''/v1/policy'' OperatorOnly,
      route_row RPolicyReload Post ''/v1/policy/reload'' OperatorOnly,
      route_row RAudit Get ''/v1/audit'' OperatorOnly,
      route_row RTokenIssue Post ''/v1/tokens'' OperatorOnly,
      route_row RTokenList Get ''/v1/tokens'' OperatorOnly,
      route_row RTokenRevoke Delete ''/v1/tokens/{id}'' OperatorOnly]"

definition served_to :: "bool \<Rightarrow> route list" where
  "served_to operator = filter (\<lambda>r. operator \<or> rt_audience r = BothEndpoints) TABLE"

section \<open>Paths\<close>

definition slash :: char where "slash = CHR ''/''"

text \<open>\<open>text.split('/')\<close>: the pieces between the slashes, empty ones kept.\<close>

fun split_path :: "string \<Rightarrow> string list" where
  "split_path [] = [[]]"
| "split_path (c # cs) =
     (if c = slash then [] # split_path cs
      else (case split_path cs of [] \<Rightarrow> [[c]] | p # ps \<Rightarrow> (c # p) # ps))"

definition segment_fits :: "string \<Rightarrow> string \<Rightarrow> bool" where
  "segment_fits p q \<longleftrightarrow> (starts_with p ''{'' \<and> q \<noteq> []) \<or> p = q"

definition fits :: "string \<Rightarrow> string \<Rightarrow> bool" where
  "fits pattern path = list_all2 segment_fits (split_path pattern) (split_path path)"

definition is_unreserved :: "char \<Rightarrow> bool" where
  "is_unreserved c \<longleftrightarrow> is_ascii_digit c \<or> is_ascii_lowercase c \<or> is_ascii_uppercase c \<or> c \<in> set ''-._~''"

definition hex_upper :: "nat \<Rightarrow> char" where
  "hex_upper n = ''0123456789ABCDEF'' ! (n mod 16)"

definition encode_byte :: "char \<Rightarrow> string" where
  "encode_byte c = (if is_unreserved c then [c] else [CHR ''%'', hex_upper (byte c div 16), hex_upper (byte c)])"

definition encode_segment :: "string \<Rightarrow> string" where
  "encode_segment t = concat (map encode_byte t)"

datatype client_call =
    CallHealth | CallReceivers | CallState receiver_id | CallSources receiver_id | CallStateEvents receiver_id
  | CallOperationEvents | CallSubmit receiver_id | CallDryRun receiver_id | CallOperation u64 "u64 option"
  | CallCancel u64 | CallDiscover | CallAdHoc | CallConfigGet | CallConfigPut | CallQuickSelectNames receiver_id
  | CallHttpInformation receiver_id | CallRefresh receiver_id | CallPolicy | CallPolicyReload
  | CallAudit nat "u64 option" | CallTokenIssue | CallTokenList | CallTokenRevoke string

definition under_receiver :: "receiver_id \<Rightarrow> string \<Rightarrow> string" where
  "under_receiver r rest = ''/v1/receivers/'' @ encode_segment (receiver_id_str r) @ rest"

definition show_u64 :: "u64 \<Rightarrow> string" where "show_u64 w = show_nat (unat w)"

text \<open>The functions of \<open>paths::request\<close>: the path, and the query when there is one.\<close>

fun request_path :: "client_call \<Rightarrow> string \<times> string option" where
  "request_path CallHealth = (''/v1/health'', None)"
| "request_path CallReceivers = (''/v1/receivers'', None)"
| "request_path (CallState r) = (under_receiver r ''/state'', None)"
| "request_path (CallSources r) = (under_receiver r ''/sources'', None)"
| "request_path (CallStateEvents r) = (under_receiver r ''/events'', None)"
| "request_path CallOperationEvents = (''/v1/operations/events'', None)"
| "request_path (CallSubmit r) = (under_receiver r ''/operations'', None)"
| "request_path (CallDryRun r) = (under_receiver r ''/operations/dry-run'', None)"
| "request_path (CallOperation i w) = (''/v1/operations/'' @ show_u64 i, map_option (\<lambda>ms. ''wait_ms='' @ show_u64 ms) w)"
| "request_path (CallCancel i) = (''/v1/operations/'' @ show_u64 i @ ''/cancel'', None)"
| "request_path CallDiscover = (''/v1/receivers/discover'', None)"
| "request_path CallAdHoc = (''/v1/receivers/ad-hoc'', None)"
| "request_path CallConfigGet = (''/v1/config'', None)"
| "request_path CallConfigPut = (''/v1/config'', None)"
| "request_path (CallQuickSelectNames r) = (under_receiver r ''/quick-select-names'', None)"
| "request_path (CallHttpInformation r) = (under_receiver r ''/http-information'', None)"
| "request_path (CallRefresh r) = (under_receiver r ''/refresh'', None)"
| "request_path CallPolicy = (''/v1/policy'', None)"
| "request_path CallPolicyReload = (''/v1/policy/reload'', None)"
| "request_path (CallAudit n cursor) =
     (''/v1/audit'', Some (''limit='' @ show_nat n @ (case cursor of Some c \<Rightarrow> ''&cursor='' @ show_u64 c | None \<Rightarrow> [])))"
| "request_path CallTokenIssue = (''/v1/tokens'', None)"
| "request_path CallTokenList = (''/v1/tokens'', None)"
| "request_path (CallTokenRevoke i) = (''/v1/tokens/'' @ encode_segment i, None)"

section \<open>The route of each call\<close>

fun call_route :: "client_call \<Rightarrow> route_id \<times> http_method" where
  "call_route CallHealth = (RHealth, Get)"
| "call_route CallReceivers = (RReceivers, Get)"
| "call_route (CallState _) = (RState, Get)"
| "call_route (CallSources _) = (RSources, Get)"
| "call_route (CallStateEvents _) = (RStateEvents, Get)"
| "call_route CallOperationEvents = (ROperationEvents, Get)"
| "call_route (CallSubmit _) = (RSubmit, Post)"
| "call_route (CallDryRun _) = (RDryRun, Post)"
| "call_route (CallOperation _ _) = (ROperation, Get)"
| "call_route (CallCancel _) = (RCancel, Post)"
| "call_route CallDiscover = (RDiscover, Post)"
| "call_route CallAdHoc = (RAdHoc, Post)"
| "call_route CallConfigGet = (RConfigGet, Get)"
| "call_route CallConfigPut = (RConfigPut, Put)"
| "call_route (CallQuickSelectNames _) = (RQuickSelectNames, Get)"
| "call_route (CallHttpInformation _) = (RHttpInformation, Get)"
| "call_route (CallRefresh _) = (RRefresh, Post)"
| "call_route CallPolicy = (RPolicyGet, Get)"
| "call_route CallPolicyReload = (RPolicyReload, Post)"
| "call_route (CallAudit _ _) = (RAudit, Get)"
| "call_route CallTokenIssue = (RTokenIssue, Post)"
| "call_route CallTokenList = (RTokenList, Get)"
| "call_route (CallTokenRevoke _) = (RTokenRevoke, Delete)"

text \<open>The rows a request fits, those without a placeholder first: a router prefers them.\<close>

definition fitting :: "http_method \<Rightarrow> string \<Rightarrow> route list" where
  "fitting m path = filter (\<lambda>r. rt_method r = m \<and> fits (rt_pattern r) path) TABLE"

definition plain_first :: "route list \<Rightarrow> route list" where
  "plain_first rs = filter (\<lambda>r. CHR ''{'' \<notin> set (rt_pattern r)) rs @ filter (\<lambda>r. CHR ''{'' \<in> set (rt_pattern r)) rs"

section \<open>Segments stay in their place\<close>

lemma split_path_plain: "slash \<notin> set s \<Longrightarrow> split_path s = [s]"
  by (induction s) auto

lemma split_path_append: "slash \<notin> set s \<Longrightarrow> split_path (s @ slash # rest) = s # split_path rest"
  by (induction s) auto

lemma hex_upper_unreserved: "is_unreserved (hex_upper n)"
proof -
  have "list_all (\<lambda>i. is_unreserved (''0123456789ABCDEF'' ! i)) [0..<16]"
    by (simp add: upt_rec is_unreserved_def is_ascii_digit_def is_ascii_uppercase_def byte_def)
  then show ?thesis by (simp add: list_all_iff hex_upper_def)
qed

lemma slash_reserved: "\<not> is_unreserved slash"
  by (simp add: is_unreserved_def slash_def is_ascii_digit_def is_ascii_lowercase_def is_ascii_uppercase_def byte_def)

lemma encode_segment_no_slash [simp]: "slash \<notin> set (encode_segment t)"
  using hex_upper_unreserved slash_reserved
  by (induction t) (auto simp: encode_segment_def encode_byte_def slash_def)

lemma encode_segment_Nil [simp]: "encode_segment t = [] \<longleftrightarrow> t = []"
  by (cases t) (auto simp: encode_segment_def encode_byte_def)

text \<open>What RFC 3986 says a segment stands for.\<close>

definition hex_value :: "char \<Rightarrow> nat" where
  "hex_value c = (if is_ascii_digit c then byte c - 48 else byte c - 55)"

fun decode_segment :: "string \<Rightarrow> string" where
  "decode_segment (c # a # b # rest) =
     (if c = CHR ''%'' then char_of (hex_value a * 16 + hex_value b) # decode_segment rest else c # decode_segment (a # b # rest))"
| "decode_segment t = t"

lemma hex_value_upper: "hex_value (hex_upper n) = n mod 16"
proof -
  have "list_all (\<lambda>i. hex_value (''0123456789ABCDEF'' ! i) = i) [0..<16]"
    by (simp add: upt_rec hex_value_def is_ascii_digit_def byte_def)
  then show ?thesis by (simp add: list_all_iff hex_upper_def)
qed

lemma decode_plain: "c \<noteq> CHR ''%'' \<Longrightarrow> decode_segment (c # rest) = c # decode_segment rest"
  by (cases "c # rest" rule: decode_segment.cases) auto

lemma byte_small: "byte c < 256"
  by (simp add: byte_def)

lemma decode_encoded:
  "decode_segment (CHR ''%'' # hex_upper (byte c div 16) # hex_upper (byte c) # rest) = c # decode_segment rest"
proof -
  have "byte c div 16 mod 16 = byte c div 16" using byte_small [of c] by simp
  then have "byte c div 16 mod 16 * 16 + byte c mod 16 = byte c" by (simp add: mult.commute)
  then have "char_of (byte c div 16 mod 16 * 16 + byte c mod 16) = c" by (simp add: byte_def)
  then show ?thesis by (simp add: hex_value_upper)
qed

lemma decode_encode: "decode_segment (encode_segment t) = t"
proof (induction t)
  case (Cons c t)
  have "c \<noteq> CHR ''%''" if "is_unreserved c"
    using that by (auto simp: is_unreserved_def is_ascii_digit_def is_ascii_lowercase_def is_ascii_uppercase_def byte_def)
  with Cons decode_plain decode_encoded [of c] show ?case
    by (auto simp: encode_segment_def encode_byte_def)
qed (simp add: encode_segment_def)

section \<open>Every call reaches its own route\<close>

lemma split_under_receiver:
  "split_path (under_receiver r (slash # rest)) = [] # ''v1'' # ''receivers'' # encode_segment (receiver_id_str r) # split_path rest"
  using split_path_append [OF encode_segment_no_slash, of "receiver_id_str r" rest]
  by (simp add: under_receiver_def slash_def [symmetric]) (simp add: slash_def)

lemma show_nat_segment: "show_nat n \<noteq> [] \<and> (\<forall>c \<in> set (show_nat n). is_ascii_digit c)"
  using digits_only_show_nat [of n] by (simp add: digits_only_def list_all_iff)

lemma show_u64_segment: "slash \<notin> set (show_u64 w)" "show_u64 w \<noteq> []" "show_u64 w \<noteq> ''events''"
proof -
  note digits = show_nat_segment [of "unat w"]
  show "slash \<notin> set (show_u64 w)" using digits slash_reserved by (auto simp: show_u64_def is_unreserved_def)
  show "show_u64 w \<noteq> []" using digits by (simp add: show_u64_def)
  show "show_u64 w \<noteq> ''events''" using digits by (auto simp: show_u64_def is_ascii_digit_def byte_def)
qed

lemma split_segments:
  "split_path (show_u64 i) = [show_u64 i]" "split_path (show_u64 i @ ''/cancel'') = [show_u64 i, ''cancel'']"
  "split_path (encode_segment t) = [encode_segment t]"
  using split_path_append [OF show_u64_segment(1), of i "''cancel''"]
  by (simp_all add: split_path_plain [OF show_u64_segment(1)] split_path_plain [OF encode_segment_no_slash] slash_def)

text \<open>What a call names: a receiver or a token that is not empty.\<close>

fun call_ok :: "client_call \<Rightarrow> bool" where
  "call_ok (CallTokenRevoke i) = (i \<noteq> [])"
| "call_ok (CallState r) = (receiver_id_str r \<noteq> [])"
| "call_ok (CallSources r) = (receiver_id_str r \<noteq> [])"
| "call_ok (CallStateEvents r) = (receiver_id_str r \<noteq> [])"
| "call_ok (CallSubmit r) = (receiver_id_str r \<noteq> [])"
| "call_ok (CallDryRun r) = (receiver_id_str r \<noteq> [])"
| "call_ok (CallQuickSelectNames r) = (receiver_id_str r \<noteq> [])"
| "call_ok (CallHttpInformation r) = (receiver_id_str r \<noteq> [])"
| "call_ok (CallRefresh r) = (receiver_id_str r \<noteq> [])"
| "call_ok _ = True"

definition routes_to :: "client_call \<Rightarrow> bool" where
  "routes_to c = (case plain_first (fitting (snd (call_route c)) (fst (request_path c))) of
     r # _ \<Rightarrow> rt_id r = fst (call_route c) | [] \<Rightarrow> False)"

lemmas routing = routes_to_def fitting_def plain_first_def TABLE_def route_row_def fits_def segment_fits_def slash_def

fun call_receiver :: "client_call \<Rightarrow> receiver_id option" where
  "call_receiver (CallState r) = Some r"
| "call_receiver (CallSources r) = Some r"
| "call_receiver (CallStateEvents r) = Some r"
| "call_receiver (CallSubmit r) = Some r"
| "call_receiver (CallDryRun r) = Some r"
| "call_receiver (CallQuickSelectNames r) = Some r"
| "call_receiver (CallHttpInformation r) = Some r"
| "call_receiver (CallRefresh r) = Some r"
| "call_receiver _ = None"

lemma split_receiver_calls:
  "split_path (under_receiver r ''/state'') = [[], ''v1'', ''receivers'', encode_segment (receiver_id_str r), ''state'']"
  "split_path (under_receiver r ''/sources'') = [[], ''v1'', ''receivers'', encode_segment (receiver_id_str r), ''sources'']"
  "split_path (under_receiver r ''/events'') = [[], ''v1'', ''receivers'', encode_segment (receiver_id_str r), ''events'']"
  "split_path (under_receiver r ''/operations'') = [[], ''v1'', ''receivers'', encode_segment (receiver_id_str r), ''operations'']"
  "split_path (under_receiver r ''/operations/dry-run'')
     = [[], ''v1'', ''receivers'', encode_segment (receiver_id_str r), ''operations'', ''dry-run'']"
  "split_path (under_receiver r ''/quick-select-names'')
     = [[], ''v1'', ''receivers'', encode_segment (receiver_id_str r), ''quick-select-names'']"
  "split_path (under_receiver r ''/http-information'')
     = [[], ''v1'', ''receivers'', encode_segment (receiver_id_str r), ''http-information'']"
  "split_path (under_receiver r ''/refresh'') = [[], ''v1'', ''receivers'', encode_segment (receiver_id_str r), ''refresh'']"
  using split_under_receiver [of r] by (simp_all add: slash_def)

text \<open>
  Every call of the client reaches its own route: the path it builds and its method fit the row of
  the table it is meant for, and no row that a router would prefer, whatever characters the id of a
  receiver or a token holds, and the server reads the receiver's id back from the path as it was.
\<close>

theorem calls_reach_their_route:
  assumes "call_ok c"
  shows "routes_to c \<and> (\<forall>r. call_receiver c = Some r \<longrightarrow> decode_segment (split_path (fst (request_path c)) ! 3) = receiver_id_str r)"
  using assms
  by (cases c)
     (simp_all add: routing split_receiver_calls split_segments show_u64_segment show_u64_segment(3) [symmetric] decode_encode
       del: receiver_id.collapse)

theorem calls_reach_their_route_witness:
  "routes_to (CallState (ReceiverId ''den/3 %''))
    \<and> decode_segment (split_path (fst (request_path (CallState (ReceiverId ''den/3 %'')))) ! 3) = ''den/3 %''"
  using calls_reach_their_route [of "CallState (ReceiverId ''den/3 %'')"] by simp

text \<open>An agent's endpoint has the shared rows only.\<close>

lemma served_to_agent: "r \<in> set (served_to False) \<Longrightarrow> rt_audience r = BothEndpoints"
  by (auto simp: served_to_def)

end
