(* ===== verification/Api_Pipeline.thy ===== *)
theory Api_Pipeline
  imports Api_Routes Api_Operations Token_Properties Access_Book
begin

text \<open>
  What every request passes through before a handler sees it, \<open>apps/api-server/src/pipeline.rs\<close>, the
  routing and the fallback of \<open>routes.rs\<close>, and the admission of a peer of \<open>endpoint.rs\<close>. The web
  framework's choice of a row and the handlers are arguments.
\<close>

section \<open>Requests and responses\<close>

text \<open>
  The parts of a request the pipeline reads. A header value is none where its bytes are not visible
  ASCII; \<open>hq_length\<close> is the declared length when there is one that is text.
\<close>

record http_request =
  hq_method :: string
  hq_path :: string
  hq_query :: "string option"
  hq_authorization :: "string option list"
  hq_chunked :: bool
  hq_length :: "string option"

text \<open>An error of the contract with the methods it allows, or what a handler or the framework answered.\<close>

datatype 'b response = ErrorAnswer api_error "string option" | Answer nat bool "string option" 'b

abbreviation respond :: "api_error \<Rightarrow> 'b response" where "respond e \<equiv> ErrorAnswer e None"

fun response_status :: "'b response \<Rightarrow> nat" where
  "response_status (ErrorAnswer e _) = ae_status e"
| "response_status (Answer status _ _ _) = status"

record server_limits =
  lm_body_limit :: nat
  lm_config_body_limit :: nat
  lm_streams_per_principal :: nat

record endpoint =
  ep_kind :: endpoint_kind
  ep_admitted :: "nat list"
  ep_limits :: server_limits

record authenticated =
  au_principal :: principal
  au_token :: "token_id option"

section \<open>The connection\<close>

definition admits :: "nat list \<Rightarrow> nat option \<Rightarrow> bool" where
  "admits admitted peer = (case peer of Some uid \<Rightarrow> uid \<in> set admitted | None \<Rightarrow> False)"

text \<open>What the accept loop does with a connection; \<open>free\<close> is how many more the endpoint may hold.\<close>

datatype accepted = TurnedAway access_refusal | AtItsCap | Served

definition accept_connection :: "endpoint \<Rightarrow> nat \<Rightarrow> nat option \<Rightarrow> accepted \<times> nat" where
  "accept_connection ep free peer =
     (if \<not> admits (ep_admitted ep) peer
      then (TurnedAway \<lparr>af_endpoint = ep_kind ep, af_reason = PeerNotAdmitted, af_principal = None, af_peer_uid = peer,
              af_resource = None\<rparr>, free)
      else if free = 0 then (AtItsCap, free) else (Served, free - 1))"

section \<open>The credential\<close>

definition CREDENTIAL_PARAMETERS :: "string list" where
  "CREDENTIAL_PARAMETERS = [''token'', ''access_token'', ''api_key'', ''apikey'', ''authorization'', ''bearer'']"

text \<open>\<open>text.split(separator)\<close>\<close>

fun split_at :: "char \<Rightarrow> string \<Rightarrow> string list" where
  "split_at sep [] = [[]]"
| "split_at sep (c # cs) =
     (if c = sep then [] # split_at sep cs
      else (case split_at sep cs of [] \<Rightarrow> [[c]] | p # ps \<Rightarrow> (c # p) # ps))"

definition parameter_name :: "string \<Rightarrow> string" where
  "parameter_name pair = map to_ascii_lowercase (takeWhile (\<lambda>c. c \<noteq> CHR ''='') pair)"

definition credential_in_query :: "string option \<Rightarrow> bool" where
  "credential_in_query query =
     (case query of
        None \<Rightarrow> False
      | Some q \<Rightarrow> list_ex (\<lambda>pair. List.member CREDENTIAL_PARAMETERS (parameter_name pair)) (split_at (CHR ''&'') q))"

datatype presentation = PresentedNone | PresentedMalformed | PresentedToken string

definition presented :: "string option list \<Rightarrow> presentation" where
  "presented values =
     (case values of
        [] \<Rightarrow> PresentedNone
      | [Some t] \<Rightarrow>
          (case dropWhile (\<lambda>c. c \<noteq> CHR '' '') t of
             [] \<Rightarrow> PresentedMalformed
           | _ # token \<Rightarrow>
               if eq_ignore_ascii_case (takeWhile (\<lambda>c. c \<noteq> CHR '' '') t) ''bearer'' \<and> token \<noteq> []
               then PresentedToken token else PresentedMalformed)
      | _ \<Rightarrow> PresentedMalformed)"

text \<open>Who a token is on an endpoint, or why it is refused there.\<close>

fun credential_for :: "endpoint_kind \<Rightarrow> credential \<Rightarrow> (authenticated, refusal_reason) result" where
  "credential_for OperatorEndpoint OperatorToken = Ok \<lparr>au_principal = Operator, au_token = None\<rparr>"
| "credential_for AgentEndpoint (AgentCredential label i) = Ok \<lparr>au_principal = Agent label, au_token = Some i\<rparr>"
| "credential_for AgentEndpoint OperatorToken = Err OperatorTokenOnAgentEndpoint"
| "credential_for OperatorEndpoint (AgentCredential _ _) = Err AgentTokenOnOperatorEndpoint"
| "credential_for _ credential.UnknownCredential = Err refusal_reason.UnknownCredential"

definition check_credential ::
  "endpoint \<Rightarrow> (string \<Rightarrow> nat list) \<Rightarrow> token_store \<Rightarrow> http_request \<Rightarrow> (authenticated, refusal_reason) result" where
  "check_credential ep digest ts rq =
     (case presented (hq_authorization rq) of
        PresentedNone \<Rightarrow> Err NoCredential
      | PresentedMalformed \<Rightarrow> Err refusal_reason.UnknownCredential
      | PresentedToken token \<Rightarrow> credential_for (ep_kind ep) (Token_Store.authenticate digest token ts))"

section \<open>The body\<close>

definition body_limit_of :: "endpoint \<Rightarrow> http_request \<Rightarrow> nat" where
  "body_limit_of ep rq =
     (if hq_method rq = ''PUT'' \<and> hq_path rq = ''/v1/config'' then lm_config_body_limit (ep_limits ep)
      else lm_body_limit (ep_limits ep))"

definition check_body :: "endpoint \<Rightarrow> http_request \<Rightarrow> api_error option" where
  "check_body ep rq =
     (let length_required = server_error 411 ''length_required'';
          limit = body_limit_of ep rq;
          checked = (\<lambda>n. if n > limit
            then Some (server_error 413 ''payload_too_large'' (''a request body may be at most '' @ show_nat limit @ '' bytes''))
            else None) in
      if hq_chunked rq
      then Some (length_required ''a request body must declare its length; chunked bodies are not accepted'')
      else (case hq_length rq of
              Some t \<Rightarrow>
                (case parse_unsigned USIZE_MAX t of
                   None \<Rightarrow> Some (server_error 400 ''invalid_request'' ''the body length is not a number'')
                 | Some n \<Rightarrow> checked n)
            | None \<Rightarrow>
                if hq_method rq = ''POST'' \<or> hq_method rq = ''PUT''
                then Some (length_required ''a request body must declare its length'')
                else checked 0))"

section \<open>The whole pipeline\<close>

definition tidy :: "'b response \<Rightarrow> 'b response" where
  "tidy r =
     (let allow = (case r of ErrorAnswer _ a \<Rightarrow> a | Answer _ _ a _ \<Rightarrow> a);
          json = (case r of ErrorAnswer _ _ \<Rightarrow> True | Answer _ j _ _ \<Rightarrow> j);
          status = response_status r in
      if status = 405
      then ErrorAnswer (server_error 405 ''method_not_allowed'' ''that method is not allowed on this resource'') allow
      else if 400 \<le> status \<and> status < 500 \<and> \<not> json
      then respond (server_error status ''invalid_request'' ''the request could not be understood'')
      else r)"

text \<open>
  \<open>authenticate\<close>: the refusal it records, and its answer. \<open>inner\<close> is the router behind it, which does
  not answer when it takes longer than the request may.
\<close>

definition pipeline ::
  "endpoint \<Rightarrow> (string \<Rightarrow> nat list) \<Rightarrow> token_store \<Rightarrow> nat option \<Rightarrow> (authenticated \<Rightarrow> http_request \<Rightarrow> 'b response option)
     \<Rightarrow> http_request \<Rightarrow> access_refusal option \<times> 'b response" where
  "pipeline ep digest ts peer inner rq =
     (if credential_in_query (hq_query rq)
      then (None, respond (server_error 400 ''invalid_request''
              ''a credential belongs in the Authorization header and never in the URL''))
      else case check_credential ep digest ts rq of
        Err reason \<Rightarrow>
          (Some \<lparr>af_endpoint = ep_kind ep, af_reason = reason, af_principal = None, af_peer_uid = peer, af_resource = None\<rparr>,
           respond unauthenticated)
      | Ok who \<Rightarrow>
          (None,
           case check_body ep rq of
             Some failure \<Rightarrow> respond failure
           | None \<Rightarrow>
               tidy (case inner who rq of
                       Some r \<Rightarrow> r
                     | None \<Rightarrow> respond (server_error 408 ''request_timeout'' ''the request took too long to answer''))))"

section \<open>The router of an endpoint\<close>

text \<open>What the framework makes of a request: a row, rows of other methods only, or nothing.\<close>

datatype routed = RouteTo route | WrongMethod string | NoRoute

text \<open>\<open>not_found\<close>: the refusal it records on the agents' endpoint, and its answer.\<close>

definition not_found :: "endpoint \<Rightarrow> nat option \<Rightarrow> authenticated \<Rightarrow> http_request \<Rightarrow> access_refusal option \<times> 'b response" where
  "not_found ep peer who rq =
     (if ep_kind ep = AgentEndpoint
      then Some \<lparr>af_endpoint = AgentEndpoint, af_reason = ResourceNotServed, af_principal = Some (au_principal who),
             af_peer_uid = peer,
             af_resource = map_option rt_pattern (List.find (\<lambda>r. fits (rt_pattern r) (hq_path rq)) TABLE)\<rparr>
      else None,
      respond (server_error 404 ''not_found'' ''no such resource''))"

definition endpoint_router ::
  "(route list \<Rightarrow> string \<Rightarrow> string \<Rightarrow> routed) \<Rightarrow> (route_id \<Rightarrow> authenticated \<Rightarrow> http_request \<Rightarrow> 'b response) \<Rightarrow> endpoint \<Rightarrow> nat option
     \<Rightarrow> authenticated \<Rightarrow> http_request \<Rightarrow> access_refusal option \<times> 'b response" where
  "endpoint_router pick handler ep peer who rq =
     (case pick (served_to (ep_kind ep = OperatorEndpoint)) (hq_method rq) (hq_path rq) of
        RouteTo r \<Rightarrow> (None, handler (rt_id r) who rq)
      | WrongMethod allow \<Rightarrow> (None, ErrorAnswer (server_error 405 [] []) (Some allow))
      | NoRoute \<Rightarrow> not_found ep peer who rq)"

text \<open>A request from the head to the response, with every refusal it leaves behind.\<close>

definition serve_request ::
  "(route list \<Rightarrow> string \<Rightarrow> string \<Rightarrow> routed) \<Rightarrow> (route_id \<Rightarrow> authenticated \<Rightarrow> http_request \<Rightarrow> 'b response)
     \<Rightarrow> endpoint \<Rightarrow> (string \<Rightarrow> nat list) \<Rightarrow> token_store \<Rightarrow> nat option \<Rightarrow> http_request \<Rightarrow> access_refusal list \<times> 'b response" where
  "serve_request pick handler ep digest ts peer rq =
     (let (refused, answer) =
        pipeline ep digest ts peer (\<lambda>who rq. Some (snd (endpoint_router pick handler ep peer who rq))) rq;
          missed = (case check_credential ep digest ts rq of
              Ok who \<Rightarrow>
                if credential_in_query (hq_query rq) \<or> check_body ep rq \<noteq> None then None
                else fst (endpoint_router pick handler ep peer who rq)
            | Err _ \<Rightarrow> None)
      in (case refused of Some f \<Rightarrow> [f] | None \<Rightarrow> (case missed of Some f \<Rightarrow> [f] | None \<Rightarrow> []), answer))"

section \<open>What a credential is worth\<close>

lemma credential_for_Ok:
  "credential_for k c = Ok who \<longleftrightarrow>
     (k = OperatorEndpoint \<and> c = OperatorToken \<and> who = \<lparr>au_principal = Operator, au_token = None\<rparr>)
     \<or> (\<exists>l i. k = AgentEndpoint \<and> c = AgentCredential l i \<and> who = \<lparr>au_principal = Agent l, au_token = Some i\<rparr>)"
  by (cases k; cases c) auto

lemma check_credential_Ok:
  "check_credential ep digest ts rq = Ok who \<longleftrightarrow>
     (\<exists>token. presented (hq_authorization rq) = PresentedToken token
        \<and> credential_for (ep_kind ep) (Token_Store.authenticate digest token ts) = Ok who)"
  by (auto simp: check_credential_def split: presentation.splits)

lemma presented_token:
  "presented headers = PresentedToken token \<Longrightarrow>
     token \<noteq> [] \<and> (\<exists>scheme. headers = [Some (scheme @ '' '' @ token)] \<and> eq_ignore_ascii_case scheme ''bearer'')"
proof -
  assume "presented headers = PresentedToken token"
  then obtain t where headers: "headers = [Some t]" and t: "(case dropWhile (\<lambda>c. c \<noteq> CHR '' '') t of
             [] \<Rightarrow> PresentedMalformed
           | _ # token \<Rightarrow>
               if eq_ignore_ascii_case (takeWhile (\<lambda>c. c \<noteq> CHR '' '') t) ''bearer'' \<and> token \<noteq> []
               then PresentedToken token else PresentedMalformed) = PresentedToken token"
    by (auto simp: presented_def split: list.splits option.splits)
  then obtain c where rest: "dropWhile (\<lambda>c. c \<noteq> CHR '' '') t = c # token" "token \<noteq> []"
      "eq_ignore_ascii_case (takeWhile (\<lambda>c. c \<noteq> CHR '' '') t) ''bearer''"
    by (auto split: list.splits if_splits)
  then have "c = CHR '' ''" by (metis (mono_tags) dropWhile_eq_Cons_conv)
  with rest(1) have "t = takeWhile (\<lambda>c. c \<noteq> CHR '' '') t @ '' '' @ token"
    by (metis append_Cons append_Nil takeWhile_dropWhile_id)
  with headers rest(2,3) show ?thesis by blast
qed

section \<open>What the caller without a credential learns\<close>

lemma credential_for_reasons:
  "credential_for k c = Err reason \<Longrightarrow>
     reason \<in> {refusal_reason.UnknownCredential, OperatorTokenOnAgentEndpoint, AgentTokenOnOperatorEndpoint}"
  by (cases k; cases c) auto

text \<open>
  A peer of the agents' endpoint: the credential of its principal is the token of an active entry of the
  store; on the operator's endpoint it is the operator's token.
\<close>

definition entitled :: "endpoint_kind \<Rightarrow> (string \<Rightarrow> nat list) \<Rightarrow> token_store \<Rightarrow> string \<Rightarrow> authenticated \<Rightarrow> bool" where
  "entitled kind digest ts token who =
     (case kind of
        OperatorEndpoint \<Rightarrow> au_principal who = Operator \<and> au_token who = None \<and> starts_with token OPERATOR_PREFIX
          \<and> digest token = ts_operator_digest ts
      | AgentEndpoint \<Rightarrow> starts_with token AGENT_PREFIX \<and>
          list_ex (\<lambda>e. token_is_active (te_record e) \<and> te_digest e = digest token
            \<and> au_principal who = Agent (tr_label (te_record e)) \<and> au_token who = Some (tr_id (te_record e))) (ts_entries ts))"

lemma authenticate_operator:
  "Token_Store.authenticate digest token ts = OperatorToken \<Longrightarrow>
     starts_with token OPERATOR_PREFIX \<and> digest token = ts_operator_digest ts"
  by (auto simp: authenticate_def Let_def split: if_splits option.splits)

lemma authenticate_prefix:
  "Token_Store.authenticate digest token ts = AgentCredential l i \<Longrightarrow> starts_with token AGENT_PREFIX"
  by (auto simp: authenticate_def Let_def split: if_splits option.splits)

lemma check_credential_entitled:
  assumes "check_credential ep digest ts rq = Ok who"
  shows "\<exists>scheme token. hq_authorization rq = [Some (scheme @ '' '' @ token)] \<and> eq_ignore_ascii_case scheme ''bearer''
           \<and> token \<noteq> [] \<and> entitled (ep_kind ep) digest ts token who"
proof -
  obtain token where token: "presented (hq_authorization rq) = PresentedToken token"
      "credential_for (ep_kind ep) (Token_Store.authenticate digest token ts) = Ok who"
    using assms by (auto simp: check_credential_Ok)
  have "entitled (ep_kind ep) digest ts token who"
    using token(2) authenticate_operator [of digest token ts] authenticate_agent [of digest token ts]
      authenticate_prefix [of digest token ts]
    unfolding credential_for_Ok entitled_def list_ex_iff by (elim disjE exE conjE) (auto simp: Bex_def)
  with presented_token [OF token(1)] show ?thesis by blast
qed

definition declared_within :: "endpoint \<Rightarrow> http_request \<Rightarrow> bool" where
  "declared_within ep rq =
     (\<not> hq_chunked rq
      \<and> (case hq_length rq of
           Some t \<Rightarrow> (case parse_unsigned USIZE_MAX t of Some n \<Rightarrow> n \<le> body_limit_of ep rq | None \<Rightarrow> False)
         | None \<Rightarrow> hq_method rq \<noteq> ''POST'' \<and> hq_method rq \<noteq> ''PUT''))"

lemma check_body_None: "check_body ep rq = None \<longleftrightarrow> declared_within ep rq"
  by (auto simp: check_body_def declared_within_def Let_def split: option.splits)

lemma pipeline_inner:
  assumes "pipeline ep digest ts peer inner rq \<noteq> pipeline ep digest ts peer inner' rq"
  obtains who where "\<not> credential_in_query (hq_query rq)" "check_credential ep digest ts rq = Ok who"
    "check_body ep rq = None" "inner who rq \<noteq> inner' who rq"
  using assms by (auto simp: pipeline_def split: if_splits sum.splits option.splits)

lemma pipeline_served:
  assumes "\<not> credential_in_query (hq_query rq)" "check_credential ep digest ts rq = Ok who" "check_body ep rq = None"
  shows "pipeline ep digest ts peer inner rq =
     (None, tidy (case inner who rq of Some r \<Rightarrow> r
        | None \<Rightarrow> respond (server_error 408 ''request_timeout'' ''the request took too long to answer'')))"
  using assms by (simp add: pipeline_def)

text \<open>
  C33. Nothing behind the pipeline is reached without a credential of the endpoint. If what two inner routers
  would do makes any difference to what a request is answered or records, then the request names no credential in
  its URL, has exactly one Authorization header, which holds a bearer token; on the operator's endpoint that
  token's digest is the operator's, and on the agents' it is the digest of an active entry of the token store; the
  request reaches the handlers as the principal and token of that entry and nobody else; and the body it declares
  is within the limit of the endpoint and the resource.
\<close>

theorem handlers_need_credential:
  assumes "pipeline ep digest ts peer inner rq \<noteq> pipeline ep digest ts peer inner' rq"
  shows "\<not> credential_in_query (hq_query rq) \<and> declared_within ep rq
    \<and> (\<exists>scheme token who. hq_authorization rq = [Some (scheme @ '' '' @ token)]
         \<and> eq_ignore_ascii_case scheme ''bearer'' \<and> entitled (ep_kind ep) digest ts token who
         \<and> inner who rq \<noteq> inner' who rq)"
proof -
  obtain who where who: "\<not> credential_in_query (hq_query rq)" "check_credential ep digest ts rq = Ok who"
      "check_body ep rq = None" "inner who rq \<noteq> inner' who rq"
    using pipeline_inner [OF assms] .
  then show ?thesis using check_credential_entitled [OF who(2)] by (auto simp: check_body_None)
qed

text \<open>
  C34. A caller without a credential learns nothing. Whatever the method, path, query and body of its request, the
  resources behind the endpoint, and the reason it fails, a request whose credential the endpoint does not accept
  and that carries none in its URL gets one and the same answer, and leaves exactly one record of the refusal,
  with neither a principal nor a resource in it and with one of the reasons of a failed credential.
\<close>

theorem refused_learn_nothing:
  assumes "\<not> credential_in_query (hq_query rq)" "\<forall>who. check_credential ep digest ts rq \<noteq> Ok who"
  shows "\<exists>reason \<in> {NoCredential, refusal_reason.UnknownCredential, OperatorTokenOnAgentEndpoint, AgentTokenOnOperatorEndpoint}.
     serve_request pick handler ep digest ts peer rq =
      ([\<lparr>af_endpoint = ep_kind ep, af_reason = reason, af_principal = None, af_peer_uid = peer, af_resource = None\<rparr>],
       respond unauthenticated)"
proof -
  obtain reason where reason: "check_credential ep digest ts rq = Err reason"
    using assms(2) by (cases "check_credential ep digest ts rq") auto
  then have "reason \<in> {NoCredential, refusal_reason.UnknownCredential, OperatorTokenOnAgentEndpoint, AgentTokenOnOperatorEndpoint}"
    by (auto simp: check_credential_def split: presentation.splits dest: credential_for_reasons)
  then show ?thesis using reason assms(1) by (simp add: serve_request_def pipeline_def)
qed

section \<open>What an agent can reach\<close>

text \<open>The framework routes a request to a row it was given, and nowhere else.\<close>

definition picks_given :: "(route list \<Rightarrow> string \<Rightarrow> string \<Rightarrow> routed) \<Rightarrow> bool" where
  "picks_given pick = (\<forall>rows m p r. pick rows m p = RouteTo r \<longrightarrow> r \<in> set rows)"

definition shared_ids :: "route_id list" where
  "shared_ids = map rt_id (filter (\<lambda>r. rt_audience r = BothEndpoints) TABLE)"

lemma endpoint_router_shared:
  assumes "picks_given pick" "ep_kind ep = AgentEndpoint" "\<forall>i \<in> set shared_ids. handler i = handler' i"
  shows "endpoint_router pick handler ep peer who rq = endpoint_router pick handler' ep peer who rq"
proof (cases "pick (served_to False) (hq_method rq) (hq_path rq)")
  case (RouteTo r)
  then have "r \<in> set (served_to False)" using assms(1) by (auto simp: picks_given_def)
  then have "rt_id r \<in> set shared_ids" by (auto simp: served_to_def shared_ids_def)
  then show ?thesis using assms(2,3) RouteTo by (simp add: endpoint_router_def)
qed (simp_all add: endpoint_router_def assms(2))

lemma served_for_agent:
  assumes "ep_kind ep = AgentEndpoint" "check_credential ep digest ts rq = Ok who"
  shows "\<exists>l i. who = \<lparr>au_principal = Agent l, au_token = Some i\<rparr>"
  using assms by (auto simp: check_credential_Ok credential_for_Ok)

lemma serve_request_passed:
  assumes "\<not> credential_in_query (hq_query rq)" "check_credential ep digest ts rq = Ok who" "check_body ep rq = None"
  shows "serve_request pick handler ep digest ts peer rq =
     (case endpoint_router pick handler ep peer who rq of (missed, r) \<Rightarrow>
        (case missed of Some f \<Rightarrow> [f] | None \<Rightarrow> [], tidy r))"
  using assms by (simp add: serve_request_def pipeline_served split: prod.splits option.splits)


section \<open>Witnesses\<close>

text \<open>An agents' endpoint with one token, and a request for the receivers that carries it.\<close>

definition sample_door :: endpoint where
  "sample_door = \<lparr>ep_kind = AgentEndpoint, ep_admitted = [1000],
     ep_limits = \<lparr>lm_body_limit = 64, lm_config_body_limit = 256, lm_streams_per_principal = 2\<rparr>\<rparr>"

definition sample_tokens :: token_store where
  "sample_tokens = (open_store ''agents.json'' [] None)\<lparr>ts_entries := [sample_token\<lparr>te_digest := sample_digest ''dara_x''\<rparr>]\<rparr>"

definition sample_call :: "string option list \<Rightarrow> string \<Rightarrow> http_request" where
  "sample_call authorization path = \<lparr>hq_method = ''GET'', hq_path = path, hq_query = None, hq_authorization = authorization,
     hq_chunked = False, hq_length = None\<rparr>"

definition sample_pick :: "route list \<Rightarrow> string \<Rightarrow> string \<Rightarrow> routed" where
  "sample_pick rows m p =
     (case filter (\<lambda>r. fits (rt_pattern r) p) rows of
        [] \<Rightarrow> NoRoute
      | r # _ \<Rightarrow> if method_str (rt_method r) = m then RouteTo r else WrongMethod (method_str (rt_method r)))"

lemma sample_pick_given: "picks_given sample_pick"
  by (auto simp: picks_given_def sample_pick_def split: list.splits if_splits dest: filter_eq_ConsD)

lemma sample_call_known:
  "check_credential sample_door sample_digest sample_tokens (sample_call [Some ''bearer dara_x''] path)
     = Ok \<lparr>au_principal = Agent (AgentLabel ''kitchen''), au_token = Some (TokenId ''t-01010101'')\<rparr>"
proof -
  have "presented [Some ''bearer dara_x''] = PresentedToken ''dara_x''" by code_simp
  moreover have "Token_Store.authenticate sample_digest ''dara_x'' sample_tokens
      = AgentCredential (AgentLabel ''kitchen'') (TokenId ''t-01010101'')"
    by (simp add: authenticate_def AGENT_PREFIX_def OPERATOR_PREFIX_def sample_tokens_def sample_token_def matching_entry_def
        token_is_active_def)
  ultimately show ?thesis by (simp add: check_credential_def sample_call_def sample_door_def)
qed

theorem handlers_need_credential_witness:
  "\<exists>scheme token who. hq_authorization (sample_call [Some ''bearer dara_x''] ''/v1/receivers'') = [Some (scheme @ '' '' @ token)]
     \<and> entitled AgentEndpoint sample_digest sample_tokens token who"
proof -
  have "pipeline sample_door sample_digest sample_tokens (Some 1000) (\<lambda>who rq. None)
         (sample_call [Some ''bearer dara_x''] ''/v1/receivers'')
      \<noteq> pipeline sample_door sample_digest sample_tokens (Some 1000) (\<lambda>who rq. Some (Answer 200 True None ()))
         (sample_call [Some ''bearer dara_x''] ''/v1/receivers'')"
    using sample_call_known [of "''/v1/receivers''"]
    by (simp add: pipeline_def sample_call_def credential_in_query_def check_body_def Let_def tidy_def sample_door_def
        body_limit_of_def server_error_def)
  from handlers_need_credential [OF this] show ?thesis by (auto simp: sample_door_def)
qed

theorem refused_learn_nothing_witness:
  "snd (serve_request sample_pick (\<lambda>_ _ _. Answer 200 True None ()) sample_door sample_digest sample_tokens (Some 1000)
     (sample_call [] ''/v1/config'')) = respond unauthenticated"
proof -
  have "\<exists>reason \<in> {NoCredential, refusal_reason.UnknownCredential, OperatorTokenOnAgentEndpoint, AgentTokenOnOperatorEndpoint}.
     serve_request sample_pick (\<lambda>_ _ _. Answer 200 True None ()) sample_door sample_digest sample_tokens (Some 1000) (sample_call [] ''/v1/config'') =
      ([\<lparr>af_endpoint = ep_kind sample_door, af_reason = reason, af_principal = None, af_peer_uid = Some 1000, af_resource = None\<rparr>],
       respond unauthenticated)"
    by (rule refused_learn_nothing) (simp_all add: sample_call_def credential_in_query_def check_credential_def presented_def)
  then show ?thesis by auto
qed


end
