(* ===== verification/Main_Zone.thy ===== *)
theory Main_Zone
  imports Capabilities
begin

text \<open>
  The display model of \<open>crates/domain\<close>: the main zone and zone 2 snapshots of \<open>main_zone.rs\<close>, the
  information a receiver reports over HTTP (\<open>http_information.rs\<close>) and its Quick Select presets
  (\<open>quick_select.rs\<close>, \<open>quick_select_names.rs\<close>).
\<close>

section \<open>A value, or why there is none\<close>

datatype field_error_kind = KindUnsupported | KindTimeout | KindDisconnected | KindMalformed | KindUnavailable

record field_error =
  fe_kind :: field_error_kind
  fe_message :: string

datatype 'a field_status = StatusValue 'a | StatusUnavailable field_error

fun status_value :: "'a field_status \<Rightarrow> 'a option" where
  "status_value (StatusValue v) = Some v"
| "status_value (StatusUnavailable _) = None"

datatype state_authority = Unconfirmed | EventAuthority | Authoritative

definition not_queried :: field_error where
  "not_queried = \<lparr>fe_kind = KindUnavailable, fe_message = ''not queried''\<rparr>"

section \<open>Information over HTTP\<close>

datatype channel_slot_state = SlotActive | SlotAvailable | SlotAbsent | SlotUnknown

record channel_slot =
  sl_label :: string
  sl_state :: channel_slot_state

record audio_information =
  ai_input_mode :: "string field_status"
  ai_output :: "string field_status"
  ai_signal :: "string field_status"
  ai_sound :: "string field_status"
  ai_sample_rate :: "string field_status"

record video_information =
  vi_monitor :: "string field_status"
  vi_hdmi_input :: "string field_status"
  vi_hdmi_output :: "string field_status"

record audyssey_information =
  ay_multeq :: "string field_status"
  ay_dynamic_eq :: "string field_status"
  ay_dynamic_volume :: "string field_status"

record http_information =
  hi_input_slots :: "channel_slot list field_status"
  hi_output_slots :: "channel_slot list field_status"
  hi_audio :: audio_information
  hi_video :: video_information
  hi_audyssey :: audyssey_information
  hi_freshness :: freshness
  hi_generation :: u64
  hi_observed_at :: "nat option"
  hi_error :: "string option"

definition audio_default :: audio_information where
  "audio_default =
     \<lparr>ai_input_mode = StatusUnavailable not_queried, ai_output = StatusUnavailable not_queried,
      ai_signal = StatusUnavailable not_queried, ai_sound = StatusUnavailable not_queried,
      ai_sample_rate = StatusUnavailable not_queried\<rparr>"

definition video_default :: video_information where
  "video_default =
     \<lparr>vi_monitor = StatusUnavailable not_queried, vi_hdmi_input = StatusUnavailable not_queried,
      vi_hdmi_output = StatusUnavailable not_queried\<rparr>"

definition audyssey_default :: audyssey_information where
  "audyssey_default =
     \<lparr>ay_multeq = StatusUnavailable not_queried, ay_dynamic_eq = StatusUnavailable not_queried,
      ay_dynamic_volume = StatusUnavailable not_queried\<rparr>"

definition http_information_default :: http_information where
  "http_information_default =
     \<lparr>hi_input_slots = StatusUnavailable not_queried, hi_output_slots = StatusUnavailable not_queried,
      hi_audio = audio_default, hi_video = video_default, hi_audyssey = audyssey_default,
      hi_freshness = FreshUnknown, hi_generation = 0, hi_observed_at = None, hi_error = None\<rparr>"

definition http_invalidate :: "u64 \<Rightarrow> http_information \<Rightarrow> http_information" where
  "http_invalidate generation _ = http_information_default\<lparr>hi_freshness := Invalidated, hi_generation := generation\<rparr>"

section \<open>The two zones\<close>

datatype main_zone_field = MZPower | MZInput | MZVolume | MZMute | MZSurroundMode

definition MAIN_ZONE_FIELDS :: "main_zone_field list" where
  "MAIN_ZONE_FIELDS = [MZPower, MZInput, MZVolume, MZMute, MZSurroundMode]"

fun main_zone_field_name :: "main_zone_field \<Rightarrow> string" where
  "main_zone_field_name MZPower = ''power''"
| "main_zone_field_name MZInput = ''input''"
| "main_zone_field_name MZVolume = ''volume''"
| "main_zone_field_name MZMute = ''mute''"
| "main_zone_field_name MZSurroundMode = ''surround''"

datatype main_zone_value =
    ValPower power_state
  | ValInput input
  | ValVolume volume
  | ValMute mute_state
  | ValSurroundMode surround_mode

record zone2_snapshot =
  z2_power :: "power_state field_status"
  z2_freshness :: freshness
  z2_authority :: state_authority

definition zone2_default :: zone2_snapshot where
  "zone2_default = \<lparr>z2_power = StatusUnavailable not_queried, z2_freshness = FreshUnknown, z2_authority = Unconfirmed\<rparr>"

definition zone2_invalidate :: "zone2_snapshot \<Rightarrow> zone2_snapshot" where
  "zone2_invalidate _ = zone2_default\<lparr>z2_freshness := Invalidated\<rparr>"

definition zone2_set_power :: "power_state \<Rightarrow> state_authority \<Rightarrow> zone2_snapshot \<Rightarrow> zone2_snapshot" where
  "zone2_set_power p authority z = z\<lparr>z2_power := StatusValue p, z2_freshness := Live, z2_authority := authority\<rparr>"

definition zone2_set_error :: "field_error \<Rightarrow> zone2_snapshot \<Rightarrow> zone2_snapshot" where
  "zone2_set_error err z = z\<lparr>z2_power := StatusUnavailable err\<rparr>"

record main_zone_snapshot =
  ms_http_information :: http_information
  ms_power :: "power_state field_status"
  ms_input :: "input field_status"
  ms_volume :: "volume field_status"
  ms_mute :: "mute_state field_status"
  ms_surround_mode :: "surround_mode field_status"
  ms_freshness :: freshness
  ms_authority :: state_authority

definition snapshot_default :: main_zone_snapshot where
  "snapshot_default =
     \<lparr>ms_http_information = http_information_default, ms_power = StatusUnavailable not_queried,
      ms_input = StatusUnavailable not_queried, ms_volume = StatusUnavailable not_queried,
      ms_mute = StatusUnavailable not_queried, ms_surround_mode = StatusUnavailable not_queried,
      ms_freshness = FreshUnknown, ms_authority = Unconfirmed\<rparr>"

definition snapshot_invalidate :: "main_zone_snapshot \<Rightarrow> main_zone_snapshot" where
  "snapshot_invalidate _ =
     (let s = snapshot_default\<lparr>ms_freshness := Invalidated\<rparr> in
      s\<lparr>ms_http_information := http_invalidate 0 (ms_http_information s)\<rparr>)"

definition invalidate_http_information :: "u64 \<Rightarrow> main_zone_snapshot \<Rightarrow> main_zone_snapshot" where
  "invalidate_http_information generation s =
     s\<lparr>ms_http_information := http_invalidate generation (ms_http_information s)\<rparr>"

definition set_http_information :: "http_information \<Rightarrow> main_zone_snapshot \<Rightarrow> main_zone_snapshot" where
  "set_http_information information s = s\<lparr>ms_http_information := information\<rparr>"

fun store_value :: "main_zone_value \<Rightarrow> main_zone_snapshot \<Rightarrow> main_zone_snapshot" where
  "store_value (ValPower v) s = s\<lparr>ms_power := StatusValue v\<rparr>"
| "store_value (ValInput v) s = s\<lparr>ms_input := StatusValue v\<rparr>"
| "store_value (ValVolume v) s = s\<lparr>ms_volume := StatusValue v\<rparr>"
| "store_value (ValMute v) s = s\<lparr>ms_mute := StatusValue v\<rparr>"
| "store_value (ValSurroundMode v) s = s\<lparr>ms_surround_mode := StatusValue v\<rparr>"

definition set_value :: "main_zone_value \<Rightarrow> state_authority \<Rightarrow> main_zone_snapshot \<Rightarrow> main_zone_snapshot" where
  "set_value v authority s =
     (let s1 = store_value v s;
          s2 = (if ms_power s1 = StatusValue PowerStandby
                then s1\<lparr>ms_http_information := http_invalidate 0 (ms_http_information s1)\<rparr> else s1)
      in s2\<lparr>ms_freshness := Live, ms_authority := authority\<rparr>)"

fun set_error :: "main_zone_field \<Rightarrow> field_error \<Rightarrow> main_zone_snapshot \<Rightarrow> main_zone_snapshot" where
  "set_error MZPower err s = s\<lparr>ms_power := StatusUnavailable err\<rparr>"
| "set_error MZInput err s = s\<lparr>ms_input := StatusUnavailable err\<rparr>"
| "set_error MZVolume err s = s\<lparr>ms_volume := StatusUnavailable err\<rparr>"
| "set_error MZMute err s = s\<lparr>ms_mute := StatusUnavailable err\<rparr>"
| "set_error MZSurroundMode err s = s\<lparr>ms_surround_mode := StatusUnavailable err\<rparr>"

fun snapshot_value :: "main_zone_snapshot \<Rightarrow> main_zone_field \<Rightarrow> main_zone_value option" where
  "snapshot_value s MZPower = map_option ValPower (status_value (ms_power s))"
| "snapshot_value s MZInput = map_option ValInput (status_value (ms_input s))"
| "snapshot_value s MZVolume = map_option ValVolume (status_value (ms_volume s))"
| "snapshot_value s MZMute = map_option ValMute (status_value (ms_mute s))"
| "snapshot_value s MZSurroundMode = map_option ValSurroundMode (status_value (ms_surround_mode s))"

section \<open>Quick Select\<close>

datatype quick_select_slot = QuickSelectSlot (slot_number: nat)

definition QUICK_SELECT_SLOTS :: "quick_select_slot list" where
  "QUICK_SELECT_SLOTS = [QuickSelectSlot 1, QuickSelectSlot 2, QuickSelectSlot 3, QuickSelectSlot 4]"

definition quick_select_slot_new :: "nat \<Rightarrow> (quick_select_slot, string) result" where
  "quick_select_slot_new n =
     (if 1 \<le> n \<and> n \<le> 4 then Ok (QuickSelectSlot n) else Err ''Quick Select slot must be 1 through 4'')"

datatype quick_select_name = QuickSelectName (quick_select_name_str: string)

definition quick_select_name_new :: "string \<Rightarrow> (quick_select_name, string) result" where
  "quick_select_name_new v =
     (let t = trim v in
      if t = [] then Err ''Quick Select name must not be empty''
      else if char_count t > 16 then Err ''Quick Select name must not exceed 16 characters''
      else if has_control t then Err ''Quick Select name must not contain control characters''
      else Ok (QuickSelectName t))"

datatype 'a registered = Included 'a | Omitted | RegisteredUnknown

record quick_select_summary =
  qs_input :: "input registered"
  qs_volume :: "volume_level registered"
  qs_sound_mode :: "surround_mode registered"
  qs_channel_levels :: "string registered"
  qs_audyssey :: "string registered"
  qs_restorer :: "string registered"
  qs_dialog_enhancer :: "string registered"
  qs_hdmi_video_output :: "string registered"
  qs_speaker_preset :: "string registered"
  qs_dirac_live :: "string registered"
  qs_playback_content :: "string registered"
  qs_all_zone_stereo :: "string registered"
  qs_tv_audio_sharing :: "string registered"
  qs_video_select :: "string registered"

definition summary_default :: quick_select_summary where
  "summary_default =
     \<lparr>qs_input = RegisteredUnknown, qs_volume = RegisteredUnknown, qs_sound_mode = RegisteredUnknown,
      qs_channel_levels = RegisteredUnknown, qs_audyssey = RegisteredUnknown, qs_restorer = RegisteredUnknown,
      qs_dialog_enhancer = RegisteredUnknown, qs_hdmi_video_output = RegisteredUnknown,
      qs_speaker_preset = RegisteredUnknown, qs_dirac_live = RegisteredUnknown,
      qs_playback_content = RegisteredUnknown, qs_all_zone_stereo = RegisteredUnknown,
      qs_tv_audio_sharing = RegisteredUnknown, qs_video_select = RegisteredUnknown\<rparr>"

record quick_select_preset =
  qp_slot :: quick_select_slot
  qp_name :: "quick_select_name option"
  qp_available :: bool
  qp_summary :: quick_select_summary

text \<open>The array of four is a list; an index outside it panics.\<close>

record quick_select_snapshot =
  qk_presets :: "quick_select_preset option list"
  qk_freshness :: freshness
  qk_generation :: u64
  qk_resource_version :: u64

definition quick_select_default :: quick_select_snapshot where
  "quick_select_default =
     \<lparr>qk_presets = replicate 4 None, qk_freshness = FreshUnknown, qk_generation = 0, qk_resource_version = 0\<rparr>"

definition slot_index :: "quick_select_slot \<Rightarrow> nat" where "slot_index s = slot_number s - 1"

definition preset :: "quick_select_snapshot \<Rightarrow> quick_select_slot \<Rightarrow> quick_select_preset option" where
  "preset q s = qk_presets q ! slot_index s"

definition quick_select_invalidate :: "quick_select_snapshot \<Rightarrow> quick_select_snapshot" where
  "quick_select_invalidate q =
     q\<lparr>qk_resource_version := saturating_add (qk_resource_version q) 1, qk_presets := replicate 4 None,
       qk_freshness := Invalidated\<rparr>"

definition set_preset :: "quick_select_preset \<Rightarrow> quick_select_snapshot \<Rightarrow> quick_select_snapshot" where
  "set_preset p q =
     q\<lparr>qk_presets := (qk_presets q)[slot_index (qp_slot p) := Some p],
       qk_resource_version := saturating_add (qk_resource_version q) 1, qk_freshness := Live\<rparr>"

definition set_name :: "quick_select_slot \<Rightarrow> quick_select_name \<Rightarrow> quick_select_snapshot \<Rightarrow> quick_select_snapshot" where
  "set_name s name q =
     (let p = (case preset q s of Some p \<Rightarrow> p
               | None \<Rightarrow> \<lparr>qp_slot = s, qp_name = None, qp_available = True, qp_summary = summary_default\<rparr>) in
      q\<lparr>qk_presets := (qk_presets q)[slot_index s := Some (p\<lparr>qp_name := Some name\<rparr>)],
        qk_resource_version := saturating_add (qk_resource_version q) 1, qk_freshness := Live\<rparr>)"

text \<open>The four names a receiver reports, with the source each preset recalls.\<close>

datatype name_response = NamesComplete | NamesPartial | NamesUnsupported | NamesMalformed | NamesTimeout | NamesDisconnected

record quick_select_names =
  qn_names :: "quick_select_name option list"
  qn_sources :: "string option list"
  qn_freshness :: freshness
  qn_generation :: u64
  qn_observed_at :: "nat option"
  qn_error :: "string option"
  qn_raw_response :: string
  qn_response :: name_response

definition quick_select_names_default :: quick_select_names where
  "quick_select_names_default =
     \<lparr>qn_names = replicate 4 None, qn_sources = replicate 4 None, qn_freshness = FreshUnknown, qn_generation = 0,
      qn_observed_at = None, qn_error = None, qn_raw_response = [], qn_response = NamesUnsupported\<rparr>"

section \<open>The snapshot of a zone\<close>

lemma http_invalidate_freshness [simp]: "hi_freshness (http_invalidate g i) = Invalidated"
  by (simp add: http_invalidate_def)

text \<open>No information of a receiver in standby stays in a snapshot.\<close>

definition standby_silent :: "main_zone_snapshot \<Rightarrow> bool" where
  "standby_silent s = (ms_power s = StatusValue PowerStandby \<longrightarrow> hi_freshness (ms_http_information s) = Invalidated)"

lemma standby_silent_kept:
  "standby_silent snapshot_default" "standby_silent (snapshot_invalidate s)" "standby_silent (set_value v a s)"
  "standby_silent s \<Longrightarrow> standby_silent (set_error f e s)" "standby_silent (invalidate_http_information g s)"
  by (simp_all add: standby_silent_def snapshot_default_def snapshot_invalidate_def set_value_def Let_def
      invalidate_http_information_def) (cases f; simp add: standby_silent_def)

fun shown_field_of :: "main_zone_value \<Rightarrow> main_zone_field" where
  "shown_field_of (ValPower _) = MZPower"
| "shown_field_of (ValInput _) = MZInput"
| "shown_field_of (ValVolume _) = MZVolume"
| "shown_field_of (ValMute _) = MZMute"
| "shown_field_of (ValSurroundMode _) = MZSurroundMode"

lemma snapshot_value_store: "snapshot_value (store_value v s) f = (if f = shown_field_of v then Some v else snapshot_value s f)"
  by (cases v; cases f) simp_all

lemma snapshot_value_more:
  "snapshot_value (s\<lparr>ms_freshness := a\<rparr>) f = snapshot_value s f"
  "snapshot_value (s\<lparr>ms_authority := b\<rparr>) f = snapshot_value s f"
  "snapshot_value (s\<lparr>ms_http_information := h\<rparr>) f = snapshot_value s f"
  by (cases f; simp)+

text \<open>A value is read back, an error takes its field's value away, and neither touches another field.\<close>

theorem snapshot_value_set:
  "snapshot_value (set_value v a s) f = (if f = shown_field_of v then Some v else snapshot_value s f)
   \<and> snapshot_value (set_error g e s) f = (if f = g then None else snapshot_value s f)
   \<and> snapshot_value (snapshot_invalidate s) f = None"
proof (intro conjI)
  show "snapshot_value (set_value v a s) f = (if f = shown_field_of v then Some v else snapshot_value s f)"
    by (simp add: set_value_def Let_def snapshot_value_more snapshot_value_store)
  show "snapshot_value (set_error g e s) f = (if f = g then None else snapshot_value s f)"
    by (cases f; cases g) simp_all
  show "snapshot_value (snapshot_invalidate s) f = None"
    by (cases f) (simp_all add: snapshot_invalidate_def snapshot_default_def Let_def)
qed

section \<open>Presets\<close>

text \<open>Four places, each empty or holding the preset of its own slot.\<close>

definition quick_select_ok :: "quick_select_snapshot \<Rightarrow> bool" where
  "quick_select_ok q = (length (qk_presets q) = 4
     \<and> (\<forall>i < 4. case qk_presets q ! i of None \<Rightarrow> True | Some p \<Rightarrow> slot_number (qp_slot p) = i + 1))"

definition slot_ok :: "quick_select_slot \<Rightarrow> bool" where "slot_ok s = (1 \<le> slot_number s \<and> slot_number s \<le> 4)"

lemma slot_new_ok: "quick_select_slot_new n = Ok s \<Longrightarrow> slot_ok s"
  by (auto simp: quick_select_slot_new_def slot_ok_def split: if_splits)

lemma slot_index_eq: "slot_ok s \<Longrightarrow> slot_ok t \<Longrightarrow> slot_index s = slot_index t \<longleftrightarrow> s = t"
  by (cases s; cases t) (auto simp: slot_ok_def slot_index_def)

lemma slot_index_bound: "slot_ok s \<Longrightarrow> slot_index s < 4" "slot_ok s \<Longrightarrow> slot_number s = slot_index s + 1"
  by (auto simp: slot_ok_def slot_index_def)

lemma quick_select_ok_kept:
  "quick_select_ok quick_select_default" "quick_select_ok (quick_select_invalidate q)"
  by (simp_all add: quick_select_ok_def quick_select_default_def quick_select_invalidate_def)

lemma set_preset_ok: "quick_select_ok q \<Longrightarrow> slot_ok (qp_slot p) \<Longrightarrow> quick_select_ok (set_preset p q)"
  using slot_index_bound [of "qp_slot p"] by (auto simp: quick_select_ok_def set_preset_def nth_list_update)

lemma set_name_ok: "quick_select_ok q \<Longrightarrow> slot_ok s \<Longrightarrow> quick_select_ok (set_name s n q)"
  using slot_index_bound [of s]
  by (auto simp: quick_select_ok_def set_name_def Let_def nth_list_update preset_def split: option.splits)

lemma preset_set:
  assumes "quick_select_ok q" "slot_ok s"
  shows "slot_ok (qp_slot p) \<Longrightarrow> preset (set_preset p q) s = (if s = qp_slot p then Some p else preset q s)"
    and "slot_ok t \<Longrightarrow> s \<noteq> t \<Longrightarrow> preset (set_name t n q) s = preset q s"
    and "map_option qp_name (preset (set_name s n q) s) = Some (Some n)"
  using assms slot_index_bound [of s] slot_index_eq [where t = s]
  by (auto simp: preset_def set_preset_def set_name_def Let_def quick_select_ok_def nth_list_update)

end
