(* ===== verification/Gui_Projection.thy ===== *)
theory Gui_Projection
  imports Main_Zone Session_Values Token_Properties
begin

text \<open>
  How the desktop turns a receiver state into what its views show, and what a user does into an
  intent: \<open>crates/gui-lib/src/projection.rs\<close>.
\<close>

section \<open>From a state to the display model\<close>

record projected =
  pj_snapshot :: main_zone_snapshot
  pj_zone2 :: zone2_snapshot

fun power_state_of :: "zone_power \<Rightarrow> power_state" where
  "power_state_of ZoneOn = PowerOn"
| "power_state_of ZoneOff = PowerStandby"

definition issue_or :: "string option \<Rightarrow> string \<Rightarrow> string" where
  "issue_or issue otherwise = (case issue of Some m \<Rightarrow> m | None \<Rightarrow> otherwise)"

text \<open>\<open>status\<close>: one field as the display model's status.\<close>

definition field_status_of :: "('a \<Rightarrow> 'b option) \<Rightarrow> 'a field_state \<Rightarrow> 'b field_status" where
  "field_status_of convert field =
     (case fs_validity field of
        Current _ \<Rightarrow>
          (case Option.bind (fs_last_good field) (\<lambda>ob. convert (ob_value ob)) of
             Some v \<Rightarrow> StatusValue v
           | None \<Rightarrow> StatusUnavailable \<lparr>fe_kind = KindMalformed, fe_message = ''the receiver value could not be shown''\<rparr>)
      | ValidityUnknown \<Rightarrow> StatusUnavailable not_queried
      | Stale Disconnected \<Rightarrow> StatusUnavailable not_queried
      | Stale ReceiverChanged \<Rightarrow> StatusUnavailable not_queried
      | Stale QueryFailed \<Rightarrow>
          StatusUnavailable \<lparr>fe_kind = KindTimeout, fe_message = issue_or (fs_last_issue field) ''the receiver query failed''\<rparr>
      | Stale Expired \<Rightarrow>
          StatusUnavailable \<lparr>fe_kind = KindTimeout, fe_message = issue_or (fs_last_issue field) ''the receiver observation expired''\<rparr>
      | Unavailable _ \<Rightarrow>
          StatusUnavailable \<lparr>fe_kind = KindUnavailable, fe_message = issue_or (fs_last_issue field) ''the receiver reports no value''\<rparr>)"

fun display_volume :: "master_volume \<Rightarrow> volume" where
  "display_volume Minimum = \<lparr>vol_code = ''MIN'', vol_db_tenths = - 800\<rparr>"
| "display_volume (DbHalfSteps step) =
     (let native = nat (step + 160) in
      \<lparr>vol_code = (if native mod 2 = 0 then show_02 (native div 2) else show_02 (native div 2) @ ''5''),
       vol_db_tenths = step * 5\<rparr>)"

text \<open>\<open>freshness_of\<close>\<close>

definition freshness_of :: "bool \<Rightarrow> receiver_state \<Rightarrow> freshness \<times> state_authority" where
  "freshness_of any_current s =
     (if any_current then (Live, Authoritative)
      else if rs_epoch s = None then (Invalidated, Unconfirmed) else (FreshUnknown, Unconfirmed))"

definition right_option :: "('a, 'e) result \<Rightarrow> 'a option" where
  "right_option r = (case r of Ok v \<Rightarrow> Some v | Err _ \<Rightarrow> None)"

definition project :: "receiver_state \<Rightarrow> projected" where
  "project s =
     (let main = rs_main_zone s;
          p = field_status_of (\<lambda>v. Some (power_state_of v)) (mz_power main);
          i = field_status_of (\<lambda>v. right_option (input_new (source_id_str v))) (mz_source main);
          v = field_status_of (\<lambda>v. Some (display_volume v)) (mz_volume main);
          m = field_status_of Some (mz_mute main);
          sm = field_status_of (\<lambda>v. right_option (surround_mode_new (sms_id v))) (mz_sound_mode main);
          any_current = (status_value p \<noteq> None \<or> status_value i \<noteq> None \<or> status_value v \<noteq> None
             \<or> status_value m \<noteq> None \<or> status_value sm \<noteq> None);
          (fr, au) = freshness_of any_current s;
          z = field_status_of (\<lambda>v. Some (power_state_of v)) (rs_zone2_power s);
          (zfr, zau) = freshness_of (status_value z \<noteq> None) s
      in \<lparr>pj_snapshot = snapshot_default\<lparr>ms_power := p, ms_input := i, ms_volume := v, ms_mute := m, ms_surround_mode := sm,
            ms_freshness := fr, ms_authority := au\<rparr>,
          pj_zone2 = \<lparr>z2_power = z, z2_freshness = zfr, z2_authority = zau\<rparr>\<rparr>)"

section \<open>From what the user does to an intent\<close>

definition volume_for_level :: "volume_level \<Rightarrow> master_volume" where
  "volume_for_level level =
     (let half_steps = min (int (volume_level_to_native_code level div 5) - 160) HIGHEST_HALF_STEP in
      case db_half_steps half_steps of Ok v \<Rightarrow> v | Err _ \<Rightarrow> Minimum)"

fun recall_intent :: "sound_mode_category \<Rightarrow> receiver_intent" where
  "recall_intent Movie = ISoundMode RecallMovie"
| "recall_intent Music = ISoundMode RecallMusic"
| "recall_intent Game = ISoundMode RecallGame"
| "recall_intent Pure = ISoundMode PureDirect"

definition mute_intent :: "mute_state \<Rightarrow> receiver_intent" where "mute_intent m = IMute m"

fun zone_power_for :: "power_state \<Rightarrow> zone_power" where
  "zone_power_for PowerOn = ZoneOn"
| "zone_power_for PowerStandby = ZoneOff"

definition main_zone_power_intent :: "power_state \<Rightarrow> receiver_intent" where
  "main_zone_power_intent p = IMainZonePower (zone_power_for p)"

definition zone2_power_intent :: "power_state \<Rightarrow> receiver_intent" where
  "zone2_power_intent p = IZone2Power (zone_power_for p)"

fun intent_for :: "main_zone_control \<Rightarrow> (receiver_intent, string) result" where
  "intent_for (CtlPower p) = Ok (main_zone_power_intent p)"
| "intent_for (CtlInput i) =
     (case source_id_new (input_str i) of Ok s \<Rightarrow> Ok (ISource s) | Err e \<Rightarrow> Err (''receiver source: '' @ e))"
| "intent_for (CtlVolume level) = Ok (IVolume (volume_for_level level))"
| "intent_for (CtlMute m) = Ok (mute_intent m)"
| "intent_for (CtlSurroundMode mode) = Ok (ISoundMode (Select (surround_mode_str mode)))"
| "intent_for (CtlSelectSoundMode _ mode) = Ok (ISoundMode (Select (surround_mode_str mode)))"
| "intent_for (CtlRecallSoundModeCategory category) = Ok (recall_intent category)"

section \<open>What is shown\<close>

text \<open>The field of the state behind a field of the display, and the value shown for a value of the state.\<close>

fun core_of :: "main_zone_field \<Rightarrow> core_field" where
  "core_of MZPower = FMainZonePower"
| "core_of MZInput = FSource"
| "core_of MZVolume = FVolume"
| "core_of MZMute = FMute"
| "core_of MZSurroundMode = FSoundMode"

fun shown_value :: "field_value \<Rightarrow> main_zone_value option" where
  "shown_value (VMainZonePower p) = Some (ValPower (power_state_of p))"
| "shown_value (VSource i) = map_option ValInput (right_option (input_new (source_id_str i)))"
| "shown_value (VVolume v) = Some (ValVolume (display_volume v))"
| "shown_value (VMute m) = Some (ValMute m)"
| "shown_value (VSoundMode i) = map_option ValSurroundMode (right_option (surround_mode_new i))"
| "shown_value _ = None"

definition shown_of :: "field_value field_state \<Rightarrow> main_zone_value option" where
  "shown_of f = (case fs_validity f of
     Current _ \<Rightarrow> Option.bind (fs_last_good f) (\<lambda>ob. shown_value (ob_value ob)) | _ \<Rightarrow> None)"

lemma status_value_of:
  "status_value (field_status_of convert f) =
     (case fs_validity f of Current _ \<Rightarrow> Option.bind (fs_last_good f) (\<lambda>ob. convert (ob_value ob)) | _ \<Rightarrow> None)"
  by (auto simp: field_status_of_def split: field_validity.splits option.splits stale_reason.splits)

lemma shown_erased:
  assumes "\<And>v. shown_value (k v) = map_option c (convert v)"
  shows "shown_of (erase k f) = map_option c (status_value (field_status_of convert f))"
  using assms
  by (auto simp: shown_of_def status_value_of erase_def erase_obs_def option.map_comp o_def
      split: field_validity.splits option.splits Option.bind_splits)

lemma project_shows: "snapshot_value (pj_snapshot (project s)) f = shown_of (view s (core_of f))"
  by (cases f)
     (simp_all add: project_def Let_def snapshot_value_more shown_erased [where convert = "\<lambda>v. Some (power_state_of v)" and c = ValPower]
       shown_erased [where convert = "\<lambda>v. right_option (input_new (source_id_str v))" and c = ValInput]
       shown_erased [where convert = "\<lambda>v. Some (display_volume v)" and c = ValVolume]
       shown_erased [where convert = Some and c = ValMute]
       shown_erased [where convert = "\<lambda>v. right_option (surround_mode_new (sms_id v))" and c = ValSurroundMode]
       split: prod.split)

section \<open>The volume slider\<close>

definition volume_code :: "nat \<Rightarrow> string" where
  "volume_code native = (if native mod 2 = 0 then show_02 (native div 2) else show_02 (native div 2) @ ''5'')"

lemma volume_native_code_shown:
  assumes "native < 197"
  shows "volume_native_code \<lparr>vol_code = volume_code native, vol_db_tenths = d\<rparr> = native * 5"
proof -
  let ?w = "native div 2" and ?t = "volume_code native"
  have w: "?w < 100" using assms by simp
  then have two: "show_02 ?w = [digit_char (?w div 10), digit_char ?w]" by (rule show_02_two)
  have "10 * (?w div 10 mod 10) + ?w mod 10 = ?w" using w by (simp add: less_mult_imp_div_less)
  then have v: "digits_value (show_02 ?w) = ?w" by (simp add: two digits_value_def)
  have all: "list_all is_ascii_digit ?t" by (simp add: volume_code_def two is_ascii_digit_def [of "CHR ''5''"] byte_def)
  have val: "digits_value ?t = (if native mod 2 = 0 then ?w else 10 * ?w + 5)"
    by (simp add: volume_code_def v digits_value_snoc digit_value_def byte_def)
  have "parse_unsigned 65535 ?t = Some (digits_value ?t)"
    using w all val by (intro parse_unsigned_digits) (auto simp: volume_code_def two)
  moreover have "length ?t = (if native mod 2 = 0 then 2 else 3)" by (simp add: volume_code_def two)
  ultimately have "volume_native_code \<lparr>vol_code = ?t, vol_db_tenths = d\<rparr>
      = (if native mod 2 = 0 then min (?w * 10) 65535 else 10 * ?w + 5)"
    using trim_visible [of ?t] all val by (simp add: volume_native_code_def Let_def list_all_iff digit_visible)
  also have "\<dots> = native * 5"
  proof (cases "native mod 2 = 0")
    case True
    then have "?w * 10 = native * 5" using div_mult_mod_eq [of native 2] by linarith
    moreover have "min (?w * 10) 65535 = ?w * 10" using w by simp
    ultimately show ?thesis by (simp only: True if_True simp_thms)
  next
    case False
    then have "native mod 2 = 1" by (rule not_mod_2_eq_0_eq_1 [THEN iffD1])
    then have "10 * ?w + 5 = native * 5" using div_mult_mod_eq [of native 2] by linarith
    then show ?thesis by (simp only: False if_False)
  qed
  finally show ?thesis .
qed

lemma display_volume_native:
  assumes "master_volume_in_range v"
  shows "volume_native_code (display_volume v) = (case v of Minimum \<Rightarrow> 0 | DbHalfSteps s \<Rightarrow> nat (s + 160) * 5)"
proof (cases v)
  case Minimum
  have "trim ''MIN'' = ''MIN''" by (rule trim_visible) (simp add: visible_def byte_def)
  moreover have "parse_unsigned 65535 ''MIN'' = None"
    by (simp add: parse_unsigned_def digits_only_def is_ascii_digit_def byte_def Let_def)
  ultimately have "volume_native_code \<lparr>vol_code = ''MIN'', vol_db_tenths = - 800\<rparr> = 0"
    by (simp add: volume_native_code_def Let_def)
  with Minimum show ?thesis by simp
next
  case (DbHalfSteps s)
  with assms have "nat (s + 160) < 197" by (auto simp: HIGHEST_HALF_STEP_def LOWEST_HALF_STEP_def nat_less_iff)
  from volume_native_code_shown [OF this, of "s * 5"] DbHalfSteps show ?thesis by (simp add: Let_def volume_code_def)
qed

lemma from_native_code_Ok:
  "c \<le> 985 \<Longrightarrow> c mod 5 = 0 \<Longrightarrow> \<exists>l. volume_level_from_native_code c = Ok l \<and> vl_native_code l = Some c"
  by (simp add: volume_level_from_native_code_def Let_def)

lemma volume_for_level_native:
  "volume_for_level level = (let half_steps = min (int (volume_level_to_native_code level div 5) - 160) 36 in
     if - 159 \<le> half_steps then DbHalfSteps half_steps else Minimum)"
  by (auto simp: volume_for_level_def Let_def db_half_steps_def LOWEST_HALF_STEP_def HIGHEST_HALF_STEP_def)

lemma encode_volume_Ok:
  assumes "master_volume_in_range v"
  shows "\<exists>c. encode (IVolume v) = Ok c"
proof (cases v)
  case Minimum
  have "encode (IVolume Minimum) = Ok (AvrCommand ''MVMIN'')" by code_simp
  with Minimum show ?thesis by blast
next
  case (DbHalfSteps step)
  with assms obtain t where t: "volume_command v = Ok t" by (simp add: Let_def)
  with DbHalfSteps have "t = ''MV'' @ volume_code (nat (step + 160))"
    by (auto simp: Let_def volume_code_def split: if_splits)
  moreover have "nat (step + 160) div 2 < 100"
    using assms DbHalfSteps by (auto simp: LOWEST_HALF_STEP_def HIGHEST_HALF_STEP_def less_mult_imp_div_less nat_less_iff)
  moreover have "digit_char n \<noteq> CR \<and> digit_char n \<noteq> LF" for n
    using is_ascii_digit_digit_char [of n] by (auto simp: is_ascii_digit_def byte_def CR_def LF_def simp del: is_ascii_digit_digit_char)
  ultimately have "list_all (\<lambda>c. c \<noteq> CR \<and> c \<noteq> LF) t" "t \<noteq> []"
    by (simp_all add: volume_code_def show_02_two) (simp_all add: CR_def LF_def)
  with t show ?thesis by (simp add: encode_def avr_command_new_def list_ex_iff list_all_iff)
qed

lemma volume_for_level_range: "master_volume_in_range (volume_for_level level)"
  by (auto simp: volume_for_level_native Let_def LOWEST_HALF_STEP_def HIGHEST_HALF_STEP_def)

lemma shown_volume_level:
  assumes "master_volume_in_range v"
  shows "\<exists>l. volume_level_of (display_volume v) = Ok l \<and> volume_for_level l = v
    \<and> vl_native_code l = Some (case v of Minimum \<Rightarrow> 0 | DbHalfSteps s \<Rightarrow> nat (s + 160) * 5)"
proof -
  define c where "c = (case v of Minimum \<Rightarrow> 0 | DbHalfSteps s \<Rightarrow> nat (s + 160))"
  have c: "c \<le> 196" "v = (if c = 0 then Minimum else DbHalfSteps (int c - 160))"
    using assms by (cases v; auto simp: c_def HIGHEST_HALF_STEP_def LOWEST_HALF_STEP_def)+
  have five: "(case v of Minimum \<Rightarrow> 0 | DbHalfSteps s \<Rightarrow> nat (s + 160) * 5) = c * 5" by (cases v) (simp_all add: c_def)
  obtain l where l: "volume_level_from_native_code (c * 5) = Ok l" "vl_native_code l = Some (c * 5)"
    using from_native_code_Ok [of "c * 5"] c(1) by auto
  then have "volume_level_to_native_code l div 5 = c" by (simp add: volume_level_to_native_code_def)
  then have "volume_for_level l = v" using c by (auto simp: volume_for_level_native Let_def)
  with l show ?thesis using display_volume_native [OF assms] unfolding five by (auto simp: volume_level_of_def)
qed

text \<open>
  The volume slider shows what it asked for. For every position of the slider, the request the desktop makes
  is one the receiver's profile encodes; a receiver that echoes the command is read as having exactly that volume;
  and shown again, that volume stands at the native code of the slider's position, or at +18.0 dB where the
  position is above it, and asks for the same volume once more.
\<close>

theorem slider_reads_back:
  assumes "volume_level_wf level"
  shows "\<exists>v c l. intent_for (CtlVolume level) = Ok (IVolume v) \<and> encode (IVolume v) = Ok c
    \<and> parse (avr_command_str c) = Ok (XVolume v) \<and> volume_level_of (display_volume v) = Ok l
    \<and> volume_level_to_native_code l = min (volume_level_to_native_code level) 980
    \<and> intent_for (CtlVolume l) = Ok (IVolume v)"
proof -
  let ?n = "volume_level_to_native_code level" and ?v = "volume_for_level level"
  have n: "?n \<le> 985" "?n mod 5 = 0" using volume_level_to_native_code_range [OF assms] by auto
  then have five: "?n = (?n div 5) * 5" by presburger
  obtain l where l: "volume_level_of (display_volume ?v) = Ok l" "volume_for_level l = ?v"
      "vl_native_code l = Some (case ?v of Minimum \<Rightarrow> 0 | DbHalfSteps s \<Rightarrow> nat (s + 160) * 5)"
    using shown_volume_level [OF volume_for_level_range] by blast
  have "(case ?v of Minimum \<Rightarrow> 0 | DbHalfSteps s \<Rightarrow> nat (s + 160) * 5) = min ?n 980"
    using n(1) five by (auto simp: volume_for_level_native Let_def min_def)
  with l(3) have native: "volume_level_to_native_code l = min ?n 980" by (simp add: volume_level_to_native_code_def)
  obtain c where c: "encode (IVolume ?v) = Ok c" using encode_volume_Ok [OF volume_for_level_range] by blast
  moreover have "parse (avr_command_str c) = Ok (XVolume ?v)" using encode_parse_roundtrip [OF c] by simp
  ultimately show ?thesis using l(1,2) native by auto
qed

section \<open>The display is evidence\<close>

lemma project_zone2: "z2_power (pj_zone2 (project s)) = field_status_of (\<lambda>v. Some (power_state_of v)) (rs_zone2_power s)"
  by (simp add: project_def Let_def split: prod.split)

lemma some_field: "(\<exists>f. P f) \<longleftrightarrow> P MZPower \<or> P MZInput \<or> P MZVolume \<or> P MZMute \<or> P MZSurroundMode"
  by (metis main_zone_field.exhaust)

lemma project_fresh:
  "ms_freshness (pj_snapshot (project s)) =
     (if \<exists>f. snapshot_value (pj_snapshot (project s)) f \<noteq> None then Live
      else if rs_epoch s = None then Invalidated else FreshUnknown)"
  unfolding some_field by (simp add: project_def Let_def freshness_of_def)

lemma current_shown:
  assumes "values_ok s" "fs_last_good (view s (core_of f)) = Some ob" "f \<noteq> MZSurroundMode"
  shows "shown_value (ob_value ob) \<noteq> None"
proof (cases f)
  case MZInput
  with assms(2) obtain i where i: "ob_value ob = VSource i" by (auto simp: erase_def erase_obs_def)
  with values_okD [OF assms(1,2)] have "\<not> is_blank (source_id_str i)"
    by (cases i) (auto simp: source_id_valid_def source_id_new_def split: if_splits)
  with i show ?thesis by (simp add: input_new_def right_option_def)
qed (use assms in \<open>auto simp: erase_def erase_obs_def\<close>)

text \<open>
  C30. What the desktop shows is evidence in force. On every state a session reaches, a value stands in a field of
  the main zone exactly when that field of the state is current and its value can be shown, and it is the value the
  session observed from its own receiver on the connection in force; a current field other than the sound mode can
  always be shown. The display reads as live exactly when it shows a value, and as invalidated when it shows none
  and there is no connection.
\<close>

theorem display_is_evidence:
  assumes "session_steps (session_connect r) ss" "s = fd_state (ss_feed ss)" "shown = snapshot_value (pj_snapshot (project s))"
  shows "(\<forall>f v. shown f = Some v \<longleftrightarrow>
      (\<exists>t ob. fs_validity (view s (core_of f)) = Current t \<and> fs_last_good (view s (core_of f)) = Some ob
         \<and> ob_receiver ob = r \<and> ob_epoch ob = fd_epoch (ss_feed ss) \<and> shown_value (ob_value ob) = Some v))
    \<and> (\<forall>f t. fs_validity (view s (core_of f)) = Current t \<longrightarrow> f \<noteq> MZSurroundMode \<longrightarrow> shown f \<noteq> None)
    \<and> ms_freshness (pj_snapshot (project s)) =
        (if \<exists>f. shown f \<noteq> None then Live else if rs_epoch s = None then Invalidated else FreshUnknown)"
proof (intro conjI allI impI)
  have current: "\<exists>ob. fs_last_good (view s g) = Some ob \<and> ob_receiver ob = r \<and> ob_epoch ob = fd_epoch (ss_feed ss)"
    if "fs_validity (view s g) = Current t" for g t
    using session_evidence [OF assms(1)] that
    by (auto simp: assms(2) rs_inv_def evidence_inv_iff current_evidence_iff agrees_def)
  show "shown f = Some v \<longleftrightarrow>
      (\<exists>t ob. fs_validity (view s (core_of f)) = Current t \<and> fs_last_good (view s (core_of f)) = Some ob
         \<and> ob_receiver ob = r \<and> ob_epoch ob = fd_epoch (ss_feed ss) \<and> shown_value (ob_value ob) = Some v)" for f v
    using current by (fastforce simp: assms(3) project_shows shown_of_def split: field_validity.splits Option.bind_splits)
  show "shown f \<noteq> None" if now: "fs_validity (view s (core_of f)) = Current t" "f \<noteq> MZSurroundMode" for f t
  proof -
    obtain ob where ob: "fs_last_good (view s (core_of f)) = Some ob" using current [OF now(1)] by blast
    have "values_ok s" using session_values_ok [OF assms(1)] by (simp add: assms(2))
    from current_shown [OF this ob now(2)] ob now(1) show ?thesis by (simp add: assms(3) project_shows shown_of_def)
  qed
  show "ms_freshness (pj_snapshot (project s)) =
      (if \<exists>f. shown f \<noteq> None then Live else if rs_epoch s = None then Invalidated else FreshUnknown)"
    by (simp only: assms(3) project_fresh)
qed

section \<open>Witnesses\<close>

theorem slider_reads_back_witness:
  "\<exists>c l. encode (IVolume (DbHalfSteps 1)) = Ok c \<and> parse (avr_command_str c) = Ok (XVolume (DbHalfSteps 1))
     \<and> volume_level_of (display_volume (DbHalfSteps 1)) = Ok l \<and> volume_level_to_native_code l = 805"
proof -
  have wf: "volume_level_wf \<lparr>vl_tenths = 815, vl_native_code = Some 805\<rparr>" by (simp add: volume_level_wf_def)
  have "volume_for_level \<lparr>vl_tenths = 815, vl_native_code = Some 805\<rparr> = DbHalfSteps 1"
    by (simp add: volume_for_level_native volume_level_to_native_code_def)
  then show ?thesis using slider_reads_back [OF wf] by (auto simp: volume_level_to_native_code_def)
qed

theorem display_is_evidence_witness:
  "\<exists>ss v. session_steps (session_connect (ReceiverId ''den'')) ss
     \<and> snapshot_value (pj_snapshot (project (fd_state (ss_feed ss)))) MZMute = Some v"
proof -
  obtain ss where op: "perform example_script False (\<lambda>_. 0) example_request (session_connect (ReceiverId ''den''))
      = (Some (ObservedRequestedValue 7 CompleteWrite ''post-dispatch receiver observation''), ss)"
    "fs_validity (view (fd_state (ss_feed ss)) FMute) = Current 10005" by (rule example_run)
  have steps: "session_steps (session_connect (ReceiverId ''den'')) ss" using at_operate [OF op(1)] by (rule r_into_rtranclp)
  have "snapshot_value (pj_snapshot (project (fd_state (ss_feed ss)))) MZMute \<noteq> None"
    using display_is_evidence [OF steps refl refl, THEN conjunct2, THEN conjunct1, rule_format, of MZMute] op(2)
    by (simp only: core_of.simps) simp
  with steps show ?thesis by blast
qed

end
