(* ===== verification/Api_Admin.thy ===== *)
theory Api_Admin
  imports Api_Operations Api_State Audit_Log Receiver_Config
begin

text \<open>
  The operator's resources on the wire, \<open>crates/api-contract/src/admin\<close>: the audit log, the
  configuration, discovery, the policy and the agent tokens, with both directions of their conversion.
  The integers of a record keep the widths of its type, which serde enforces when it reads one.
\<close>

section \<open>The audit log\<close>

datatype principal_dto = DOperator | DAgent string

datatype audit_decision_dto = DAuditAllow | DAuditRequireApproval | DAuditDeny

datatype audit_event_dto =
    DDecided string audit_decision_dto "string list" "string list" "string list" "string option"
  | DDispatching string "int option" "int option" "string list"
  | DFinished string dispatch_dto bool "string option"
  | DPolicyLoaded string
  | DPolicyLoadFailed string
  | DAccessRefused string string "nat option" "string option" nat
  | DTokenIssued string string
  | DTokenRevoked string string

record audit_record_dto =
  rd_schema :: nat
  rd_run_ms :: u64
  rd_at_ms :: u64
  rd_operation :: "u64 option"
  rd_principal :: "principal_dto option"
  rd_receiver :: "string option"
  rd_event :: audit_event_dto

record audit_entry_dto =
  ye_seq :: u64
  ye_record :: audit_record_dto

record audit_page_dto =
  yp_entries :: "audit_entry_dto list"
  yp_next :: "u64 option"

definition field_names :: "core_field list \<Rightarrow> string list" where "field_names fs = map core_field_name fs"

definition fields_of :: "string list \<Rightarrow> core_field list" where "fields_of ns = List.map_filter parse_core_field ns"

fun dto_audit_decision :: "audit_decision \<Rightarrow> audit_decision_dto" where
  "dto_audit_decision AuditAllow = DAuditAllow"
| "dto_audit_decision AuditRequireApproval = DAuditRequireApproval"
| "dto_audit_decision AuditDeny = DAuditDeny"

fun audit_decision_of_dto :: "audit_decision_dto \<Rightarrow> audit_decision" where
  "audit_decision_of_dto DAuditAllow = AuditAllow"
| "audit_decision_of_dto DAuditRequireApproval = AuditRequireApproval"
| "audit_decision_of_dto DAuditDeny = AuditDeny"

fun dto_audit_event :: "audit_event \<Rightarrow> audit_event_dto" where
  "dto_audit_event (Decided i d reasons rules bl p) =
     DDecided i (dto_audit_decision d) reasons rules (field_names bl) (map_option digest_fmt p)"
| "dto_audit_event (Dispatching i before target fs) = DDispatching i before target (field_names fs)"
| "dto_audit_event (Finished st d confirmed reason) = DFinished st (dto_dispatch d) confirmed reason"
| "dto_audit_event (PolicyLoaded d) = DPolicyLoaded (digest_fmt d)"
| "dto_audit_event (PolicyLoadFailed e) = DPolicyLoadFailed e"
| "dto_audit_event (AccessRefused k r uid resource n) = DAccessRefused (endpoint_str k) (refusal_str r) uid resource n"
| "dto_audit_event (TokenIssued i l) = DTokenIssued (token_id_str i) (agent_label_str l)"
| "dto_audit_event (TokenRevoked i l) = DTokenRevoked (token_id_str i) (agent_label_str l)"

definition digest_of_dto :: "string \<Rightarrow> (policy_digest, string) result" where
  "digest_of_dto hex = ok_or ''a policy digest is not 64 hexadecimal digits'' (digest_from_hex hex)"

fun audit_event_of_dto :: "audit_event_dto \<Rightarrow> (audit_event, string) result" where
  "audit_event_of_dto (DDecided i d reasons rules bl p) =
     and_then (optional digest_of_dto p) (\<lambda>policy.
       Ok (Decided i (audit_decision_of_dto d) reasons rules (fields_of bl) policy))"
| "audit_event_of_dto (DDispatching i before target fs) = Ok (Dispatching i before target (fields_of fs))"
| "audit_event_of_dto (DFinished st d confirmed reason) = Ok (Finished st (dispatch_of_dto d) confirmed reason)"
| "audit_event_of_dto (DPolicyLoaded hex) = and_then (digest_of_dto hex) (\<lambda>d. Ok (PolicyLoaded d))"
| "audit_event_of_dto (DPolicyLoadFailed e) = Ok (PolicyLoadFailed e)"
| "audit_event_of_dto (DAccessRefused k r uid resource n) =
     and_then (ok_or ''an unknown endpoint'' (endpoint_parse k)) (\<lambda>endpoint.
     and_then (ok_or ''an unknown refusal reason'' (refusal_parse r)) (\<lambda>reason.
       Ok (AccessRefused endpoint reason uid resource n)))"
| "audit_event_of_dto (DTokenIssued i l) =
     and_then (token_id_new i) (\<lambda>token. and_then (agent_label_new l) (\<lambda>label. Ok (TokenIssued token label)))"
| "audit_event_of_dto (DTokenRevoked i l) =
     and_then (token_id_new i) (\<lambda>token. and_then (agent_label_new l) (\<lambda>label. Ok (TokenRevoked token label)))"

fun dto_principal :: "principal \<Rightarrow> principal_dto" where
  "dto_principal Operator = DOperator"
| "dto_principal (Agent l) = DAgent (agent_label_str l)"

fun principal_of_dto :: "principal_dto \<Rightarrow> (principal, string) result" where
  "principal_of_dto DOperator = Ok Operator"
| "principal_of_dto (DAgent l) = and_then (agent_label_new l) (\<lambda>label. Ok (Agent label))"

definition dto_audit_entry :: "u64 \<times> audit_record \<Rightarrow> audit_entry_dto" where
  "dto_audit_entry = (\<lambda>(seq, r).
     \<lparr>ye_seq = seq,
      ye_record =
        \<lparr>rd_schema = ar_schema r, rd_run_ms = wt_millis (ar_run r), rd_at_ms = wt_millis (ar_at r),
         rd_operation = ar_operation r, rd_principal = map_option dto_principal (ar_principal r),
         rd_receiver = map_option receiver_id_str (ar_receiver r), rd_event = dto_audit_event (ar_event r)\<rparr>\<rparr>)"

definition audit_entry_of_dto :: "audit_entry_dto \<Rightarrow> (u64 \<times> audit_record, string) result" where
  "audit_entry_of_dto d =
     (let r = ye_record d in
      and_then (optional principal_of_dto (rd_principal r)) (\<lambda>who.
      and_then (optional parse_receiver_id (rd_receiver r)) (\<lambda>receiver.
      and_then (audit_event_of_dto (rd_event r)) (\<lambda>event.
        Ok (ye_seq d,
          \<lparr>ar_schema = rd_schema r, ar_run = WallTime (rd_run_ms r), ar_at = WallTime (rd_at_ms r),
           ar_operation = rd_operation r, ar_principal = who, ar_receiver = receiver, ar_event = event\<rparr>)))))"

definition dto_audit_page :: "audit_page \<Rightarrow> audit_page_dto" where
  "dto_audit_page p = \<lparr>yp_entries = map dto_audit_entry (pg_entries p), yp_next = pg_next p\<rparr>"

definition audit_page_of_dto :: "audit_page_dto \<Rightarrow> (audit_page, string) result" where
  "audit_page_of_dto d =
     and_then (traverse audit_entry_of_dto (yp_entries d)) (\<lambda>entries. Ok \<lparr>pg_entries = entries, pg_next = yp_next d\<rparr>)"

section \<open>The configuration\<close>

record identity_dto =
  id_host :: string
  id_model :: "string option"
  id_friendly_name :: "string option"

definition dto_identity :: "receiver_identity \<Rightarrow> identity_dto" where
  "dto_identity i = \<lparr>id_host = ri_host i, id_model = ri_model i, id_friendly_name = ri_friendly_name i\<rparr>"

definition identity_of_dto :: "identity_dto \<Rightarrow> receiver_identity" where
  "identity_of_dto d = \<lparr>ri_host = id_host d, ri_model = id_model d, ri_friendly_name = id_friendly_name d\<rparr>"

record config_dto =
  cf_current :: "string option"
  cf_receivers :: "(string \<times> identity_dto) list"
  cf_sound_mode_favorites :: "(string \<times> string list) list"

definition dto_config :: "configured_receivers \<Rightarrow> config_dto" where
  "dto_config c =
     \<lparr>cf_current = cr_current c, cf_receivers = map (\<lambda>(n, i). (n, dto_identity i)) (cr_receivers c),
      cf_sound_mode_favorites = map (\<lambda>(n, favorites). (n, sorted_list_of_set favorites)) (cr_sound_mode_favorites c)\<rparr>"

definition config_of_dto :: "config_dto \<Rightarrow> (configured_receivers, string) result" where
  "config_of_dto d =
     and_then (traverse (\<lambda>(n, modes). and_then (traverse sound_mode_favorite_new modes) (\<lambda>set_of. Ok (n, set set_of)))
       (cf_sound_mode_favorites d)) (\<lambda>favorites.
     Ok \<lparr>cr_current = cf_current d, cr_receivers = map (\<lambda>(n, i). (n, identity_of_dto i)) (cf_receivers d),
         cr_sound_mode_favorites = favorites\<rparr>)"

record identity_request =
  ir_host :: string
  ir_model :: "string option"
  ir_friendly_name :: "string option"

record config_request =
  cq_current :: "string option"
  cq_receivers :: "(string \<times> identity_request) list"
  cq_sound_mode_favorites :: "(string \<times> string list) list"

definition request_of_config :: "configured_receivers \<Rightarrow> config_request" where
  "request_of_config c =
     (let d = dto_config c in
      \<lparr>cq_current = cf_current d,
       cq_receivers = map (\<lambda>(n, i). (n, \<lparr>ir_host = id_host i, ir_model = id_model i, ir_friendly_name = id_friendly_name i\<rparr>))
         (cf_receivers d),
       cq_sound_mode_favorites = cf_sound_mode_favorites d\<rparr>)"

definition config_of_request :: "config_request \<Rightarrow> (configured_receivers, string) result" where
  "config_of_request q =
     config_of_dto
       \<lparr>cf_current = cq_current q,
        cf_receivers = map (\<lambda>(n, i). (n, \<lparr>id_host = ir_host i, id_model = ir_model i, id_friendly_name = ir_friendly_name i\<rparr>))
          (cq_receivers q),
        cf_sound_mode_favorites = cq_sound_mode_favorites q\<rparr>"

section \<open>Discovery and receivers chosen by address\<close>

record discovered_dto =
  dd_host :: string
  dd_port :: nat
  dd_location :: "string option"
  dd_server :: "string option"
  dd_model :: "string option"
  dd_search_target :: "string option"
  dd_unique_service_name :: "string option"

definition dto_discovered :: "discovered_receiver \<Rightarrow> discovered_dto" where
  "dto_discovered f =
     \<lparr>dd_host = re_host (dr_address f), dd_port = re_port (dr_address f), dd_location = dr_location f,
      dd_server = dr_server f, dd_model = dr_model f, dd_search_target = dr_search_target f,
      dd_unique_service_name = dr_unique_service_name f\<rparr>"

definition discovered_of_dto :: "discovered_dto \<Rightarrow> discovered_receiver" where
  "discovered_of_dto d =
     \<lparr>dr_address = \<lparr>re_host = dd_host d, re_port = dd_port d\<rparr>, dr_location = dd_location d, dr_server = dd_server d,
      dr_model = dd_model d, dr_search_target = dd_search_target d, dr_unique_service_name = dd_unique_service_name d\<rparr>"

record ad_hoc_request =
  ah_host :: string
  ah_model :: "string option"
  ah_friendly_name :: "string option"

definition request_of_ad_hoc :: "receiver_identity \<Rightarrow> ad_hoc_request" where
  "request_of_ad_hoc i = \<lparr>ah_host = ri_host i, ah_model = ri_model i, ah_friendly_name = ri_friendly_name i\<rparr>"

definition ad_hoc_of_request :: "ad_hoc_request \<Rightarrow> receiver_identity" where
  "ad_hoc_of_request q = \<lparr>ri_host = ah_host q, ri_model = ah_model q, ri_friendly_name = ah_friendly_name q\<rparr>"

section \<open>The policy\<close>

record policy_dto =
  po_digest :: "string option"
  po_loaded_at_ms :: "u64 option"
  po_text :: "string option"
  po_error :: "string option"

definition dto_policy :: "policy_view \<Rightarrow> policy_dto" where
  "dto_policy v =
     \<lparr>po_digest = map_option digest_fmt (pv_digest v), po_loaded_at_ms = map_option wt_millis (pv_loaded_at v),
      po_text = pv_text v, po_error = pv_error v\<rparr>"

definition policy_of_dto :: "policy_dto \<Rightarrow> (policy_view, string) result" where
  "policy_of_dto d =
     and_then (optional (\<lambda>hex. ok_or ''the policy digest is not 64 hexadecimal digits'' (digest_from_hex hex)) (po_digest d))
       (\<lambda>digest. Ok \<lparr>pv_digest = digest, pv_loaded_at = map_option WallTime (po_loaded_at_ms d), pv_text = po_text d,
          pv_error = po_error d\<rparr>)"

section \<open>Tokens\<close>

record token_dto =
  td_id :: string
  td_label :: string
  td_created_ms :: u64
  td_revoked_ms :: "u64 option"

definition dto_token :: "token_record \<Rightarrow> token_dto" where
  "dto_token r =
     \<lparr>td_id = token_id_str (tr_id r), td_label = agent_label_str (tr_label r), td_created_ms = wt_millis (tr_created r),
      td_revoked_ms = map_option wt_millis (tr_revoked r)\<rparr>"

definition token_of_dto :: "token_dto \<Rightarrow> (token_record, string) result" where
  "token_of_dto d =
     and_then (token_id_new (td_id d)) (\<lambda>i. and_then (agent_label_new (td_label d)) (\<lambda>label.
       Ok \<lparr>tr_id = i, tr_label = label, tr_created = WallTime (td_created_ms d),
           tr_revoked = map_option WallTime (td_revoked_ms d)\<rparr>))"

record issued_token_dto =
  xd_token :: token_dto
  xd_secret :: string

definition dto_issued_token :: "issued_token \<Rightarrow> issued_token_dto" where
  "dto_issued_token t = \<lparr>xd_token = dto_token (it_record t), xd_secret = it_secret t\<rparr>"

definition issued_token_of_dto :: "issued_token_dto \<Rightarrow> (issued_token, string) result" where
  "issued_token_of_dto d = and_then (token_of_dto (xd_token d)) (\<lambda>r. Ok \<lparr>it_record = r, it_secret = xd_secret d\<rparr>)"

section \<open>What is sent reads back\<close>

lemma fields_of_names [simp]: "fields_of (field_names fs) = fs"
proof -
  have "parse_core_field (core_field_name f) = Some f" for f by (simp add: parse_core_field_name)
  then show ?thesis by (induction fs) (simp_all add: fields_of_def field_names_def List.map_filter_simps)
qed

lemma audit_decision_back [simp]: "audit_decision_of_dto (dto_audit_decision d) = d"
  by (cases d) simp_all

lemma digest_back [simp]: "digest_wf d \<Longrightarrow> digest_of_dto (digest_fmt d) = Ok d"
  by (simp add: digest_of_dto_def ok_or_def digest_roundtrip)

fun wire_event_valid :: "audit_event \<Rightarrow> bool" where
  "wire_event_valid (Decided _ _ _ _ _ policy) = pred_option digest_wf policy"
| "wire_event_valid (PolicyLoaded digest) = digest_wf digest"
| "wire_event_valid (TokenIssued i label) = (token_id_new (token_id_str i) = Ok i \<and> label_valid label)"
| "wire_event_valid (TokenRevoked i label) = (token_id_new (token_id_str i) = Ok i \<and> label_valid label)"
| "wire_event_valid _ = True"

lemma event_valid_wire: "event_valid ev \<Longrightarrow> wire_event_valid ev" by (cases ev) simp_all

lemma audit_event_back: "wire_event_valid ev \<Longrightarrow> audit_event_of_dto (dto_audit_event ev) = Ok ev"
proof (cases ev)
  case (Decided i d reasons rules bl p)
  moreover assume "wire_event_valid ev"
  ultimately have "optional digest_of_dto (map_option digest_fmt p) = Ok p"
    by (intro optional_back) (auto simp: option.pred_set)
  with Decided show ?thesis by simp
next
  case (AccessRefused k r uid resource n)
  have "endpoint_parse (endpoint_str k) = Some k" "refusal_parse (refusal_str r) = Some r"
    by (simp_all add: endpoint_parse_str refusal_parse_str)
  with AccessRefused show ?thesis by (simp add: ok_or_def)
qed (simp_all add: label_valid_def)

definition wire_record_valid :: "audit_record \<Rightarrow> bool" where
  "wire_record_valid r =
     (wire_event_valid (ar_event r) \<and> pred_option receiver_id_valid (ar_receiver r)
      \<and> (case ar_principal r of Some (Agent l) \<Rightarrow> label_valid l | _ \<Rightarrow> True))"

lemma principal_back:
  "(case p of Some (Agent l) \<Rightarrow> label_valid l | _ \<Rightarrow> True) \<Longrightarrow> optional principal_of_dto (map_option dto_principal p) = Ok p"
  by (cases p) (auto simp: label_valid_def split: principal.splits)

interpretation audit_entry_wire: wire_form dto_audit_entry audit_entry_of_dto "\<lambda>(seq, r). wire_record_valid r"
proof
  fix e :: "u64 \<times> audit_record"
  obtain seq r where e: "e = (seq, r)" by (cases e)
  assume "case e of (seq, r) \<Rightarrow> wire_record_valid r"
  then have valid: "wire_event_valid (ar_event r)" "pred_option receiver_id_valid (ar_receiver r)"
      "case ar_principal r of Some (Agent l) \<Rightarrow> label_valid l | _ \<Rightarrow> True"
    by (simp_all add: e wire_record_valid_def)
  have "optional parse_receiver_id (map_option receiver_id_str (ar_receiver r)) = Ok (ar_receiver r)"
    using valid(2) by (intro optional_back) (auto simp: receiver_id_valid_def option.pred_set)
  then show "audit_entry_of_dto (dto_audit_entry e) = Ok e"
    using audit_event_back [OF valid(1)] principal_back [OF valid(3)]
    by (simp add: e dto_audit_entry_def audit_entry_of_dto_def)
qed

interpretation audit_page_wire: wire_form dto_audit_page audit_page_of_dto "\<lambda>p. \<forall>(seq, r) \<in> set (pg_entries p). wire_record_valid r"
proof
  fix p :: audit_page
  assume "\<forall>(seq, r) \<in> set (pg_entries p). wire_record_valid r"
  then have "traverse audit_entry_of_dto (map dto_audit_entry (pg_entries p)) = Ok (map (\<lambda>e. e) (pg_entries p))"
    by (intro traverse_all) (auto intro!: audit_entry_wire.reads_back)
  then show "audit_page_of_dto (dto_audit_page p) = Ok p" by (simp add: dto_audit_page_def audit_page_of_dto_def)
qed

lemma identity_back [simp]: "identity_of_dto (dto_identity i) = i"
  by (simp add: identity_of_dto_def dto_identity_def)

definition config_valid :: "configured_receivers \<Rightarrow> bool" where
  "config_valid c = (\<forall>(n, favorites) \<in> set (cr_sound_mode_favorites c). finite favorites \<and> (\<forall>mode \<in> favorites. \<not> is_blank mode))"

lemma favorites_back:
  "finite favorites \<Longrightarrow> \<forall>mode \<in> favorites. \<not> is_blank mode \<Longrightarrow>
     traverse sound_mode_favorite_new (sorted_list_of_set favorites) = Ok (sorted_list_of_set favorites)"
  using traverse_all [where g = "\<lambda>m. m" and h = "\<lambda>m. m" and f = sound_mode_favorite_new and xs = "sorted_list_of_set favorites"]
  by (simp add: sound_mode_favorite_new_def)

interpretation config_wire: wire_form dto_config config_of_dto config_valid
proof
  fix c
  assume "config_valid c"
  then have "traverse (\<lambda>(n, modes). and_then (traverse sound_mode_favorite_new modes) (\<lambda>set_of. Ok (n, set set_of)))
      (map (\<lambda>(n, favorites). (n, sorted_list_of_set favorites)) (cr_sound_mode_favorites c))
      = Ok (map (\<lambda>f. f) (cr_sound_mode_favorites c))"
    by (intro traverse_all) (auto simp: config_valid_def favorites_back)
  then show "config_of_dto (dto_config c) = Ok c"
    by (simp add: config_of_dto_def dto_config_def o_def case_prod_beta')
qed

lemma config_request_dto: "config_of_request (request_of_config c) = config_of_dto (dto_config c)"
  by (simp add: config_of_request_def request_of_config_def Let_def o_def case_prod_beta' dto_config_def dto_identity_def)

interpretation config_request_wire: wire_form request_of_config config_of_request config_valid
  by unfold_locales (simp only: config_request_dto config_wire.reads_back)

lemma discovered_back [simp]: "discovered_of_dto (dto_discovered f) = f"
  by (simp add: discovered_of_dto_def dto_discovered_def)

lemma ad_hoc_back [simp]: "ad_hoc_of_request (request_of_ad_hoc i) = i"
  by (simp add: ad_hoc_of_request_def request_of_ad_hoc_def)

interpretation policy_wire: wire_form dto_policy policy_of_dto "\<lambda>v. pred_option digest_wf (pv_digest v)"
proof
  fix v :: policy_view
  assume "pred_option digest_wf (pv_digest v)"
  then have "optional (\<lambda>hex. ok_or ''the policy digest is not 64 hexadecimal digits'' (digest_from_hex hex))
      (map_option digest_fmt (pv_digest v)) = Ok (pv_digest v)"
    by (intro optional_back) (auto simp: option.pred_set ok_or_def digest_roundtrip)
  then show "policy_of_dto (dto_policy v) = Ok v"
    by (simp add: policy_of_dto_def dto_policy_def option.map_comp o_def option.map_ident)
qed

definition token_valid :: "token_record \<Rightarrow> bool" where
  "token_valid r = (token_id_new (token_id_str (tr_id r)) = Ok (tr_id r) \<and> label_valid (tr_label r))"

interpretation token_wire: wire_form dto_token token_of_dto token_valid
  by unfold_locales (simp add: dto_token_def token_of_dto_def token_valid_def label_valid_def option.map_comp o_def option.map_ident)

interpretation issued_token_wire: wire_form dto_issued_token issued_token_of_dto "\<lambda>t. token_valid (it_record t)"
  by unfold_locales (simp add: dto_issued_token_def issued_token_of_dto_def token_wire.reads_back)

end
