(* ===== verification/Api_Inspection.thy ===== *)
theory Api_Inspection
  imports Api_Admin Main_Zone Session
begin

text \<open>
  The inspection reads on the wire, \<open>crates/api-contract/src/admin/inspection.rs\<close>: readiness, the Quick
  Select names and the information a receiver reports over HTTP. A time is a number of milliseconds.
\<close>

section \<open>Readiness and Quick Select names\<close>

record readiness_dto =
  nd_ready :: bool
  nd_degraded :: bool
  nd_detail :: string

definition dto_readiness :: "readiness \<Rightarrow> readiness_dto" where
  "dto_readiness r = \<lparr>nd_ready = rd_ready r, nd_degraded = rd_degraded r, nd_detail = rd_detail r\<rparr>"

definition readiness_of_dto :: "readiness_dto \<Rightarrow> readiness" where
  "readiness_of_dto d = \<lparr>rd_ready = nd_ready d, rd_degraded = nd_degraded d, rd_detail = nd_detail d\<rparr>"

record quick_select_names_dto =
  qd_names :: "string option list"
  qd_sources :: "string option list"
  qd_freshness :: freshness_dto
  qd_generation :: u64
  qd_observed_at_ms :: "u64 option"
  qd_error :: "string option"
  qd_raw_response :: string
  qd_response :: catalog_evidence_dto

fun dto_name_response :: "name_response \<Rightarrow> catalog_evidence_dto" where
  "dto_name_response NamesComplete = DCatComplete"
| "dto_name_response NamesPartial = DCatPartial"
| "dto_name_response NamesUnsupported = DCatUnsupported"
| "dto_name_response NamesMalformed = DCatMalformed"
| "dto_name_response NamesTimeout = DCatTimeout"
| "dto_name_response NamesDisconnected = DCatDisconnected"

fun name_response_of_dto :: "catalog_evidence_dto \<Rightarrow> name_response" where
  "name_response_of_dto DCatComplete = NamesComplete"
| "name_response_of_dto DCatPartial = NamesPartial"
| "name_response_of_dto DCatUnsupported = NamesUnsupported"
| "name_response_of_dto DCatMalformed = NamesMalformed"
| "name_response_of_dto DCatTimeout = NamesTimeout"
| "name_response_of_dto DCatDisconnected = NamesDisconnected"

definition dto_quick_select_names :: "quick_select_names \<Rightarrow> quick_select_names_dto" where
  "dto_quick_select_names o' =
     \<lparr>qd_names = map (map_option quick_select_name_str) (qn_names o'), qd_sources = qn_sources o',
      qd_freshness = dto_freshness (qn_freshness o'), qd_generation = qn_generation o',
      qd_observed_at_ms = system_time_ms (qn_observed_at o'), qd_error = qn_error o',
      qd_raw_response = qn_raw_response o', qd_response = dto_name_response (qn_response o')\<rparr>"

definition four_slots :: "string \<Rightarrow> nat \<Rightarrow> (unit, string) result" where
  "four_slots what count =
     (if count = 4 then Ok () else Err (what @ '' has '' @ show_nat count @ '' slots, not four''))"

definition quick_select_names_of_dto :: "quick_select_names_dto \<Rightarrow> (quick_select_names, string) result" where
  "quick_select_names_of_dto d =
     and_then (four_slots ''names'' (length (qd_names d))) (\<lambda>_.
     and_then (four_slots ''sources'' (length (qd_sources d))) (\<lambda>_.
     and_then (traverse (optional quick_select_name_new) (qd_names d)) (\<lambda>names.
       Ok \<lparr>qn_names = names, qn_sources = qd_sources d, qn_freshness = freshness_of_dto (qd_freshness d),
           qn_generation = qd_generation d, qn_observed_at = system_time_from_ms (qd_observed_at_ms d),
           qn_error = qd_error d, qn_raw_response = qd_raw_response d,
           qn_response = name_response_of_dto (qd_response d)\<rparr>)))"

section \<open>Information over HTTP\<close>

datatype field_error_kind_dto = DKindUnsupported | DKindTimeout | DKindDisconnected | DKindMalformed | DKindUnavailable

datatype 'a field_status_dto = DStatusValue 'a | DStatusUnavailable field_error_kind_dto string

fun dto_field_error_kind :: "field_error_kind \<Rightarrow> field_error_kind_dto" where
  "dto_field_error_kind KindUnsupported = DKindUnsupported"
| "dto_field_error_kind KindTimeout = DKindTimeout"
| "dto_field_error_kind KindDisconnected = DKindDisconnected"
| "dto_field_error_kind KindMalformed = DKindMalformed"
| "dto_field_error_kind KindUnavailable = DKindUnavailable"

fun field_error_kind_of_dto :: "field_error_kind_dto \<Rightarrow> field_error_kind" where
  "field_error_kind_of_dto DKindUnsupported = KindUnsupported"
| "field_error_kind_of_dto DKindTimeout = KindTimeout"
| "field_error_kind_of_dto DKindDisconnected = KindDisconnected"
| "field_error_kind_of_dto DKindMalformed = KindMalformed"
| "field_error_kind_of_dto DKindUnavailable = KindUnavailable"

fun dto_field_status :: "'a field_status \<Rightarrow> 'a field_status_dto" where
  "dto_field_status (StatusValue v) = DStatusValue v"
| "dto_field_status (StatusUnavailable e) = DStatusUnavailable (dto_field_error_kind (fe_kind e)) (fe_message e)"

fun field_status_of_dto :: "'a field_status_dto \<Rightarrow> 'a field_status" where
  "field_status_of_dto (DStatusValue v) = StatusValue v"
| "field_status_of_dto (DStatusUnavailable k m) = StatusUnavailable \<lparr>fe_kind = field_error_kind_of_dto k, fe_message = m\<rparr>"

datatype slot_state_dto = DSlotActive | DSlotAvailable | DSlotAbsent | DSlotUnknown

record channel_slot_dto =
  cl_label :: string
  cl_state :: slot_state_dto

fun dto_slot_state :: "channel_slot_state \<Rightarrow> slot_state_dto" where
  "dto_slot_state SlotActive = DSlotActive"
| "dto_slot_state SlotAvailable = DSlotAvailable"
| "dto_slot_state SlotAbsent = DSlotAbsent"
| "dto_slot_state SlotUnknown = DSlotUnknown"

fun slot_state_of_dto :: "slot_state_dto \<Rightarrow> channel_slot_state" where
  "slot_state_of_dto DSlotActive = SlotActive"
| "slot_state_of_dto DSlotAvailable = SlotAvailable"
| "slot_state_of_dto DSlotAbsent = SlotAbsent"
| "slot_state_of_dto DSlotUnknown = SlotUnknown"

definition dto_channel_slot :: "channel_slot \<Rightarrow> channel_slot_dto" where
  "dto_channel_slot s = \<lparr>cl_label = sl_label s, cl_state = dto_slot_state (sl_state s)\<rparr>"

definition channel_slot_of_dto :: "channel_slot_dto \<Rightarrow> channel_slot" where
  "channel_slot_of_dto d = \<lparr>sl_label = cl_label d, sl_state = slot_state_of_dto (cl_state d)\<rparr>"

text \<open>\<open>slots\<close>: an unavailable status keeps its kind and text at the other value type.\<close>

fun dto_slots :: "channel_slot list field_status \<Rightarrow> channel_slot_dto list field_status_dto" where
  "dto_slots (StatusValue ss) = DStatusValue (map dto_channel_slot ss)"
| "dto_slots (StatusUnavailable e) = DStatusUnavailable (dto_field_error_kind (fe_kind e)) (fe_message e)"

fun slots_of_dto :: "channel_slot_dto list field_status_dto \<Rightarrow> channel_slot list field_status" where
  "slots_of_dto (DStatusValue ss) = StatusValue (map channel_slot_of_dto ss)"
| "slots_of_dto (DStatusUnavailable k m) = StatusUnavailable \<lparr>fe_kind = field_error_kind_of_dto k, fe_message = m\<rparr>"

record audio_dto =
  ad_input_mode :: "string field_status_dto"
  ad_output :: "string field_status_dto"
  ad_signal :: "string field_status_dto"
  ad_sound :: "string field_status_dto"
  ad_sample_rate :: "string field_status_dto"

record video_dto =
  vd_monitor :: "string field_status_dto"
  vd_hdmi_input :: "string field_status_dto"
  vd_hdmi_output :: "string field_status_dto"

record audyssey_dto =
  yd_multeq :: "string field_status_dto"
  yd_dynamic_eq :: "string field_status_dto"
  yd_dynamic_volume :: "string field_status_dto"

record http_information_dto =
  nf_input_slots :: "channel_slot_dto list field_status_dto"
  nf_output_slots :: "channel_slot_dto list field_status_dto"
  nf_audio :: audio_dto
  nf_video :: video_dto
  nf_audyssey :: audyssey_dto
  nf_freshness :: freshness_dto
  nf_generation :: u64
  nf_observed_at_ms :: "u64 option"
  nf_error :: "string option"

definition dto_http_information :: "http_information \<Rightarrow> http_information_dto" where
  "dto_http_information i =
     (let a = hi_audio i; v = hi_video i; y = hi_audyssey i in
      \<lparr>nf_input_slots = dto_slots (hi_input_slots i), nf_output_slots = dto_slots (hi_output_slots i),
       nf_audio = \<lparr>ad_input_mode = dto_field_status (ai_input_mode a), ad_output = dto_field_status (ai_output a),
         ad_signal = dto_field_status (ai_signal a), ad_sound = dto_field_status (ai_sound a),
         ad_sample_rate = dto_field_status (ai_sample_rate a)\<rparr>,
       nf_video = \<lparr>vd_monitor = dto_field_status (vi_monitor v), vd_hdmi_input = dto_field_status (vi_hdmi_input v),
         vd_hdmi_output = dto_field_status (vi_hdmi_output v)\<rparr>,
       nf_audyssey = \<lparr>yd_multeq = dto_field_status (ay_multeq y), yd_dynamic_eq = dto_field_status (ay_dynamic_eq y),
         yd_dynamic_volume = dto_field_status (ay_dynamic_volume y)\<rparr>,
       nf_freshness = dto_freshness (hi_freshness i), nf_generation = hi_generation i,
       nf_observed_at_ms = system_time_ms (hi_observed_at i), nf_error = hi_error i\<rparr>)"

definition http_information_of_dto :: "http_information_dto \<Rightarrow> http_information" where
  "http_information_of_dto d =
     (let a = nf_audio d; v = nf_video d; y = nf_audyssey d in
      \<lparr>hi_input_slots = slots_of_dto (nf_input_slots d), hi_output_slots = slots_of_dto (nf_output_slots d),
       hi_audio = \<lparr>ai_input_mode = field_status_of_dto (ad_input_mode a), ai_output = field_status_of_dto (ad_output a),
         ai_signal = field_status_of_dto (ad_signal a), ai_sound = field_status_of_dto (ad_sound a),
         ai_sample_rate = field_status_of_dto (ad_sample_rate a)\<rparr>,
       hi_video = \<lparr>vi_monitor = field_status_of_dto (vd_monitor v), vi_hdmi_input = field_status_of_dto (vd_hdmi_input v),
         vi_hdmi_output = field_status_of_dto (vd_hdmi_output v)\<rparr>,
       hi_audyssey = \<lparr>ay_multeq = field_status_of_dto (yd_multeq y), ay_dynamic_eq = field_status_of_dto (yd_dynamic_eq y),
         ay_dynamic_volume = field_status_of_dto (yd_dynamic_volume y)\<rparr>,
       hi_freshness = freshness_of_dto (nf_freshness d), hi_generation = nf_generation d,
       hi_observed_at = system_time_from_ms (nf_observed_at_ms d), hi_error = nf_error d\<rparr>)"

section \<open>What is sent reads back\<close>

lemma readiness_back [simp]: "readiness_of_dto (dto_readiness r) = r"
  by (simp add: readiness_of_dto_def dto_readiness_def)

lemma name_response_back [simp]: "name_response_of_dto (dto_name_response r) = r"
  by (cases r) simp_all

lemma field_status_back [simp]: "field_status_of_dto (dto_field_status s) = s"
proof (cases s)
  case (StatusUnavailable e)
  then show ?thesis by (cases "fe_kind e") simp_all
qed simp

lemma channel_slot_back [simp]: "channel_slot_of_dto (dto_channel_slot s) = s"
  by (cases "sl_state s") (simp_all add: channel_slot_of_dto_def dto_channel_slot_def)

lemma slots_back [simp]: "slots_of_dto (dto_slots s) = s"
proof (cases s)
  case (StatusUnavailable e)
  then show ?thesis by (cases "fe_kind e") simp_all
qed (simp add: o_def)

definition names_valid :: "quick_select_names \<Rightarrow> bool" where
  "names_valid q =
     (length (qn_names q) = 4 \<and> length (qn_sources q) = 4
      \<and> (\<forall>n. Some n \<in> set (qn_names q) \<longrightarrow> quick_select_name_new (quick_select_name_str n) = Ok n))"

lemma names_back:
  assumes "names_valid q"
  shows "quick_select_names_of_dto (dto_quick_select_names q) = Ok (q\<lparr>qn_observed_at := whole_millis (qn_observed_at q)\<rparr>)"
proof -
  have "traverse (optional quick_select_name_new) (map (map_option quick_select_name_str) (qn_names q)) = Ok (map (\<lambda>n. n) (qn_names q))"
    using assms by (intro traverse_all optional_back) (auto simp: names_valid_def option.pred_set)
  with assms show ?thesis
    by (simp add: quick_select_names_of_dto_def dto_quick_select_names_def four_slots_def names_valid_def whole_millis_def)
qed

lemma http_information_back:
  "http_information_of_dto (dto_http_information i) = i\<lparr>hi_observed_at := whole_millis (hi_observed_at i)\<rparr>"
  by (simp add: http_information_of_dto_def dto_http_information_def Let_def whole_millis_def)

end
