(* ===== verification/Http_Exchange.thy ===== *)
theory Http_Exchange
  imports Avr_Protocol Receiver_Config
begin

text \<open>
  The HTTP exchanges with a receiver, \<open>crates/infrastructure/src/app_command_http.rs\<close>: the text of a
  request, how much of a response to read, and what is read of it. The socket is what its calls
  return: a list of chunks or errors. A response is the bytes it is made of.
\<close>

section \<open>Searching bytes and reading text\<close>

text \<open>\<open>windows(n).position(|window| window == pattern)\<close>\<close>

fun position_of :: "string \<Rightarrow> string \<Rightarrow> nat option" where
  "position_of p [] = (if p = [] then Some 0 else None)"
| "position_of p (c # cs) = (if starts_with (c # cs) p then Some 0 else map_option Suc (position_of p cs))"

abbreviation CRLF :: string where "CRLF \<equiv> [CR, LF]"
abbreviation BLANK_LINE :: string where "BLANK_LINE \<equiv> [CR, LF, CR, LF]"

text \<open>\<open>str::lines\<close>: a carriage return counts as the end of a line only before a line feed.\<close>

definition strip_cr :: "string \<Rightarrow> string" where
  "strip_cr l = (if l \<noteq> [] \<and> last l = CR then butlast l else l)"

function str_lines :: "string \<Rightarrow> string list" where
  "str_lines [] = []"
| "str_lines (c # cs) =
     (let l = takeWhile (\<lambda>c. c \<noteq> LF) (c # cs) in
      case dropWhile (\<lambda>c. c \<noteq> LF) (c # cs) of
        [] \<Rightarrow> [l]
      | _ # rest \<Rightarrow> strip_cr l # str_lines rest)"
  by pat_completeness auto
termination
proof (relation "measure length")
  fix c cs l rest and x :: char
  assume d: "l = takeWhile (\<lambda>c. c \<noteq> LF) (c # cs)" "dropWhile (\<lambda>c. c \<noteq> LF) (c # cs) = x # rest"
  have "length (x # rest) \<le> length (c # cs)"
    using length_dropWhile_le [of "\<lambda>c. c \<noteq> LF" "c # cs"] unfolding d(2) .
  then show "(rest, c # cs) \<in> measure length" by simp
qed simp

text \<open>\<open>split_once\<close> at a character, and \<open>split_whitespace\<close>\<close>

definition split_once :: "char \<Rightarrow> string \<Rightarrow> (string \<times> string) option" where
  "split_once d s = (case dropWhile (\<lambda>c. c \<noteq> d) s of [] \<Rightarrow> None | _ # r \<Rightarrow> Some (takeWhile (\<lambda>c. c \<noteq> d) s, r))"

fun words_from :: "string \<Rightarrow> string list \<Rightarrow> string list" where
  "words_from w [] = (if w = [] then [] else [w])"
| "words_from w (seg # segs) =
     (if is_whitespace seg then (if w = [] then words_from [] segs else w # words_from [] segs)
      else words_from (w @ seg) segs)"

definition split_whitespace :: "string \<Rightarrow> string list" where
  "split_whitespace s = words_from [] (utf8_chars s)"

text \<open>\<open>usize::from_str_radix(_, 16)\<close>\<close>

definition hex_digit_value :: "char \<Rightarrow> nat option" where
  "hex_digit_value c =
     (if is_ascii_digit c then Some (byte c - 48)
      else if 97 \<le> byte c \<and> byte c \<le> 102 then Some (byte c - 87)
      else if 65 \<le> byte c \<and> byte c \<le> 70 then Some (byte c - 55) else None)"

fun hex_digits :: "nat \<Rightarrow> string \<Rightarrow> nat option" where
  "hex_digits n [] = Some n"
| "hex_digits n (c # cs) = (case hex_digit_value c of None \<Rightarrow> None | Some d \<Rightarrow> hex_digits (16 * n + d) cs)"

definition parse_hex :: "nat \<Rightarrow> string \<Rightarrow> nat option" where
  "parse_hex hi s =
     (let ds = (case s of [] \<Rightarrow> [] | c # cs \<Rightarrow> if c = CHR ''+'' then cs else s) in
      if ds = [] then None
      else case hex_digits 0 ds of Some n \<Rightarrow> if n \<le> hi then Some n else None | None \<Rightarrow> None)"

section \<open>Errors and requests\<close>

datatype io_kind = InvalidInput | InvalidData | UnexpectedEof | IoNotFound | IoTimedOut | OtherIo

record io_error =
  io_kind :: io_kind
  io_text :: string

definition io_error_of :: "io_kind \<Rightarrow> string \<Rightarrow> io_error" where
  "io_error_of k t = \<lparr>io_kind = k, io_text = t\<rparr>"

abbreviation invalid_data :: "string \<Rightarrow> ('a, io_error) result" where
  "invalid_data t \<equiv> Err (io_error_of InvalidData t)"

definition MAX_RESPONSE_BYTES :: nat where "MAX_RESPONSE_BYTES = 1024 * 1024"

record app_command_client =
  hc_endpoint :: receiver_endpoint
  hc_timeout :: duration

definition client_new :: "receiver_endpoint \<Rightarrow> duration \<Rightarrow> (app_command_client, io_error) result" where
  "client_new endpoint timeout =
     (if has_line_break (re_host endpoint)
      then Err (io_error_of InvalidInput ''receiver host contains a line break'')
      else if is_blank (re_host endpoint) \<or> re_port endpoint = 0 \<or> timeout = 0
      then Err (io_error_of InvalidInput ''receiver endpoint and timeout must be non-empty'')
      else Ok \<lparr>hc_endpoint = endpoint, hc_timeout = timeout\<rparr>)"

definition authority :: "string \<Rightarrow> nat \<Rightarrow> string" where
  "authority host port =
     (if CHR '':'' \<in> set host \<and> \<not> starts_with host ''['' then ''['' @ host @ '']:'' @ show_nat port
      else host @ '':'' @ show_nat port)"

definition build_request :: "string \<Rightarrow> nat \<Rightarrow> string \<Rightarrow> string \<Rightarrow> string" where
  "build_request host port path body =
     ''POST '' @ path @ '' HTTP/1.1'' @ CRLF @ ''Host: '' @ authority host port @ CRLF
     @ ''Accept: */*'' @ CRLF @ ''Content-Type: text/xml; charset=utf-8'' @ CRLF
     @ ''Content-Length: '' @ show_nat (length body) @ CRLF @ ''Connection: close'' @ CRLF
     @ ''User-Agent: curl/8.0'' @ CRLF @ CRLF @ body"

section \<open>How the body is framed\<close>

datatype framing = ContentLength nat | Chunked | CloseDelimited

definition find_header_end :: "string \<Rightarrow> nat option" where
  "find_header_end bytes = position_of BLANK_LINE bytes"

fun framing_headers :: "string list \<Rightarrow> nat option \<Rightarrow> string option \<Rightarrow> (nat option \<times> string option, io_error) result" where
  "framing_headers [] content_length transfer_encoding = Ok (content_length, transfer_encoding)"
| "framing_headers (line # lines) content_length transfer_encoding =
     (case split_once (CHR '':'') line of
        None \<Rightarrow> framing_headers lines content_length transfer_encoding
      | Some (name, value) \<Rightarrow>
          if eq_ignore_ascii_case name ''transfer-encoding'' then
            (if transfer_encoding \<noteq> None
             then invalid_data ''HTTP response contains duplicate Transfer-Encoding headers''
             else framing_headers lines content_length (Some (trim value)))
          else if eq_ignore_ascii_case name ''content-length'' then
            (case parse_unsigned USIZE_MAX (trim value) of
               None \<Rightarrow> invalid_data ''Content-Length is invalid''
             | Some l \<Rightarrow>
                 if content_length \<noteq> None
                 then invalid_data ''HTTP response contains duplicate Content-Length headers''
                 else framing_headers lines (Some l) transfer_encoding)
          else framing_headers lines content_length transfer_encoding)"

definition body_framing :: "string \<Rightarrow> (framing, io_error) result" where
  "body_framing headers =
     (case framing_headers (drop 1 (str_lines headers)) None None of
        Err e \<Rightarrow> Err e
      | Ok (content_length, transfer_encoding) \<Rightarrow>
          if transfer_encoding \<noteq> None \<and> \<not> eq_ignore_ascii_case (the transfer_encoding) ''chunked''
          then invalid_data ''HTTP response uses an unsupported Transfer-Encoding''
          else (case (transfer_encoding, content_length) of
                 (Some _, Some _) \<Rightarrow> invalid_data ''HTTP response has conflicting body framing''
               | (Some _, None) \<Rightarrow> Ok Chunked
               | (None, Some l) \<Rightarrow> Ok (ContentLength l)
               | (None, None) \<Rightarrow> Ok CloseDelimited))"

text \<open>
  \<open>decode_chunked_body\<close>: \<open>rest\<close> is what follows the cursor. None while the body is not all there.
\<close>

definition size_of_line :: "string \<Rightarrow> nat option" where
  "size_of_line line = parse_hex USIZE_MAX (trim (takeWhile (\<lambda>c. c \<noteq> CHR '';'') line))"

function decode_from :: "string \<Rightarrow> string \<Rightarrow> nat \<Rightarrow> ((string \<times> nat) option, io_error) result" where
  "decode_from rest decoded cursor =
     (case position_of CRLF rest of
        None \<Rightarrow> Ok None
      | Some n \<Rightarrow>
          if \<not> from_utf8_ok (take n rest) then invalid_data ''chunk size is not ASCII''
          else (case size_of_line (take n rest) of
                 None \<Rightarrow> invalid_data ''chunk size is invalid''
               | Some sz \<Rightarrow>
                   let cursor1 = cursor + n + 2; rest1 = drop (n + 2) rest in
                   if sz = 0 then
                     (if starts_with rest1 CRLF then Ok (Some (decoded, cursor1 + 2))
                      else (case position_of BLANK_LINE rest1 of
                             None \<Rightarrow> Ok None
                           | Some t \<Rightarrow> Ok (Some (decoded, cursor1 + t + 4))))
                   else if cursor1 + sz > USIZE_MAX \<or> cursor1 + sz + 2 > USIZE_MAX
                   then invalid_data ''chunk size overflows''
                   else if length rest1 < sz + 2 then Ok None
                   else if take 2 (drop sz rest1) \<noteq> CRLF
                   then invalid_data ''chunk data has no CRLF terminator''
                   else if length decoded + sz > MAX_RESPONSE_BYTES
                   then invalid_data ''decoded HTTP body exceeds bounded size''
                   else decode_from (drop (sz + 2) rest1) (decoded @ take sz rest1) (cursor1 + sz + 2)))"
  by pat_completeness auto
termination
proof (relation "measure (\<lambda>(rest, _). length rest)")
  fix rest decoded :: string and cursor n sz x :: nat and xb :: string
  assume "position_of CRLF rest = Some n" "xb = drop (n + 2) rest" "\<not> length xb < sz + 2"
  then show "((drop (sz + 2) xb, decoded @ take sz xb, x + sz + 2), rest, decoded, cursor)
      \<in> measure (\<lambda>(rest, _). length rest)"
    by simp
qed simp

declare decode_from.simps [simp del]

definition decode_chunked_body :: "string \<Rightarrow> ((string \<times> nat) option, io_error) result" where
  "decode_chunked_body encoded = decode_from encoded [] 0"

section \<open>Reading a response\<close>

definition expected_response_length :: "string \<Rightarrow> (nat option, io_error) result" where
  "expected_response_length bytes =
     (case find_header_end bytes of
        None \<Rightarrow> Ok None
      | Some header_end \<Rightarrow>
          let headers = take header_end bytes; body_start = header_end + 4 in
          if \<not> from_utf8_ok headers then invalid_data ''HTTP headers are not UTF-8''
          else if body_start > USIZE_MAX then invalid_data ''HTTP header length overflows''
          else (case body_framing headers of
                 Err e \<Rightarrow> Err e
               | Ok (ContentLength l) \<Rightarrow>
                   if body_start + l > USIZE_MAX then invalid_data ''HTTP body length overflows''
                   else Ok (Some (body_start + l))
               | Ok Chunked \<Rightarrow>
                   (case decode_chunked_body (drop body_start bytes) of
                      Err e \<Rightarrow> Err e
                    | Ok None \<Rightarrow> Ok None
                    | Ok (Some (_, encoded_length)) \<Rightarrow>
                        if body_start + encoded_length > USIZE_MAX
                        then invalid_data ''chunked HTTP body length overflows''
                        else Ok (Some (body_start + encoded_length)))
               | Ok CloseDelimited \<Rightarrow> Ok None))"

record raw_http_response =
  rh_status_line :: string
  rh_status_code :: nat
  rh_body :: string

definition status_code_of :: "string \<Rightarrow> (nat, io_error) result" where
  "status_code_of status_line =
     (let words = split_whitespace status_line; protocol = (case words of [] \<Rightarrow> [] | w # _ \<Rightarrow> w) in
      if protocol \<noteq> ''HTTP/1.0'' \<and> protocol \<noteq> ''HTTP/1.1''
      then invalid_data ''HTTP status line has an invalid protocol''
      else (case (if 1 < length words then parse_unsigned 65535 (words ! 1) else None) of
             None \<Rightarrow> invalid_data ''HTTP status is invalid''
           | Some code \<Rightarrow>
               if 100 \<le> code \<and> code \<le> 599 then Ok code else invalid_data ''HTTP status code is out of range''))"

definition framed_body :: "framing \<Rightarrow> string \<Rightarrow> (string, io_error) result" where
  "framed_body framing encoded =
     (case framing of
        ContentLength l \<Rightarrow>
          if length encoded \<noteq> l
          then Err (io_error_of UnexpectedEof ''HTTP body length does not match Content-Length'')
          else Ok encoded
      | Chunked \<Rightarrow>
          (case decode_chunked_body encoded of
             Err e \<Rightarrow> Err e
           | Ok None \<Rightarrow> Err (io_error_of UnexpectedEof ''chunked HTTP body is incomplete'')
           | Ok (Some (body, _)) \<Rightarrow> Ok body)
      | CloseDelimited \<Rightarrow> Ok encoded)"

definition parse_http_response :: "string \<Rightarrow> (raw_http_response, io_error) result" where
  "parse_http_response bytes =
     (case find_header_end bytes of
        None \<Rightarrow> invalid_data ''HTTP response has no header separator''
      | Some header_end \<Rightarrow>
          let headers = take header_end bytes; encoded = drop (header_end + 4) bytes in
          if \<not> from_utf8_ok headers then invalid_data ''HTTP headers are not UTF-8''
          else
            let status_line = (case str_lines headers of [] \<Rightarrow> [] | l # _ \<Rightarrow> l) in
            if status_line = [] then invalid_data ''HTTP status is empty''
            else (case status_code_of status_line of
                   Err e \<Rightarrow> Err e
                 | Ok code \<Rightarrow>
                     (case body_framing headers of
                        Err e \<Rightarrow> Err e
                      | Ok framing \<Rightarrow>
                          (case framed_body framing encoded of
                             Err e \<Rightarrow> Err e
                           | Ok body \<Rightarrow>
                               if \<not> from_utf8_ok body then invalid_data ''HTTP body is not UTF-8''
                               else Ok \<lparr>rh_status_line = status_line, rh_status_code = code, rh_body = body\<rparr>))))"

text \<open>
  The loop of \<open>post_xml\<close> that reads, driven by what the reads return: an empty chunk is the end of the
  stream, and None says that the list of reads ended first.
\<close>

fun read_response :: "(string, io_error) result list \<Rightarrow> string \<Rightarrow> (string, io_error) result option" where
  "read_response [] bytes = None"
| "read_response (Err e # reads) bytes = Some (Err e)"
| "read_response (Ok chunk # reads) bytes =
     (if chunk = [] then Some (Ok bytes)
      else if length bytes + length chunk > MAX_RESPONSE_BYTES
      then Some (invalid_data ''HTTP response exceeds bounded size'')
      else
        let bytes1 = bytes @ chunk in
        case expected_response_length bytes1 of
          Err e \<Rightarrow> Some (Err e)
        | Ok (Some expected) \<Rightarrow>
            if expected > MAX_RESPONSE_BYTES then Some (invalid_data ''HTTP response exceeds bounded size'')
            else if length bytes1 \<ge> expected then Some (Ok (take expected bytes1))
            else read_response reads bytes1
        | Ok None \<Rightarrow> read_response reads bytes1)"

text \<open>\<open>connect\<close>: each attempt is the time left before it and what it gave.\<close>

fun connect_first :: "(duration \<times> (unit, io_error) result) list \<Rightarrow> io_error option \<Rightarrow> (unit, io_error) result" where
  "connect_first [] e =
     Err (case e of Some e \<Rightarrow> e | None \<Rightarrow> io_error_of IoTimedOut ''receiver connection deadline expired'')"
| "connect_first ((remaining, attempt) # rest) e =
     (if remaining = 0 then connect_first [] e
      else case attempt of Ok _ \<Rightarrow> Ok () | Err e' \<Rightarrow> connect_first rest (Some e'))"

definition connect :: "(duration \<times> (unit, io_error) result) list \<Rightarrow> (unit, io_error) result" where
  "connect attempts =
     (if attempts = [] then Err (io_error_of IoNotFound ''host has no address'') else connect_first attempts None)"

text \<open>\<open>post_xml\<close>: what is written, and what comes of it.\<close>

record http_exchange =
  hx_addresses :: "((duration \<times> (unit, io_error) result) list, io_error) result"
  hx_written :: "(unit, io_error) result"
  hx_reads :: "(string, io_error) result list"

definition post_xml ::
    "app_command_client \<Rightarrow> http_exchange \<Rightarrow> string \<Rightarrow> string \<Rightarrow> string option \<times> (raw_http_response, io_error) result option" where
  "post_xml client x path body =
     (case hx_addresses x of
        Err e \<Rightarrow> (None, Some (Err e))
      | Ok attempts \<Rightarrow>
          (case connect attempts of
             Err e \<Rightarrow> (None, Some (Err e))
           | Ok _ \<Rightarrow>
               (Some (build_request (re_host (hc_endpoint client)) (re_port (hc_endpoint client)) path body),
                case hx_written x of
                  Err e \<Rightarrow> Some (Err e)
                | Ok _ \<Rightarrow>
                    (case read_response (hx_reads x) [] of
                       None \<Rightarrow> None
                     | Some (Err e) \<Rightarrow> Some (Err e)
                     | Some (Ok bytes) \<Rightarrow> Some (parse_http_response bytes)))))"

definition execute_xml_at ::
    "app_command_client \<Rightarrow> http_exchange \<Rightarrow> string \<Rightarrow> string \<Rightarrow> string option \<times> (raw_http_response, io_error) result option" where
  "execute_xml_at client x path body =
     (if \<not> starts_with path ''/'' \<or> has_line_break path
      then (None, Some (Err (io_error_of InvalidInput ''HTTP request path is invalid'')))
      else post_xml client x path body)"

end
