(* ===== verification/Http_Properties.thy ===== *)
theory Http_Properties
  imports Http_Exchange
begin

text \<open>
  What reading a response over any cutting into chunks gives, what a cut short response gives, and what
  a request looks like to who reads it by the same rules.
\<close>

section \<open>Where a pattern is\<close>

lemma starts_with_long: "length p \<le> length s \<Longrightarrow> starts_with (s @ e) p = starts_with s p"
  by (induction s p rule: starts_with.induct) auto

lemma position_of_bound: "position_of p s = Some n \<Longrightarrow> n + length p \<le> length s"
proof (induction s arbitrary: n)
  case (Cons c cs)
  show ?case
  proof (cases "starts_with (c # cs) p")
    case True
    then obtain r where "c # cs = p @ r" unfolding starts_with_iff by blast
    then have "length p \<le> length (c # cs)" by (metis length_append le_add1)
    with Cons.prems True show ?thesis by simp
  next
    case False
    with Cons.prems obtain m where "position_of p cs = Some m" "n = Suc m" by auto
    with Cons.IH [of m] show ?thesis by simp
  qed
qed (auto split: if_splits)

lemma position_of_append: "position_of p s = Some n \<Longrightarrow> position_of p (s @ e) = Some n"
proof (induction s arbitrary: n)
  case Nil
  then show ?case by (cases e) (auto split: if_splits)
next
  case (Cons c cs)
  have "length p \<le> length (c # cs)" using position_of_bound [OF Cons.prems] by linarith
  then have "starts_with (c # cs @ e) p = starts_with (c # cs) p"
    using starts_with_long [of p "c # cs" e] by simp
  with Cons show ?case by (auto split: if_splits)
qed

lemma position_of_take: "position_of p s = Some n \<Longrightarrow> k < n + length p \<Longrightarrow> position_of p (take k s) = None"
proof (rule ccontr)
  assume a: "position_of p s = Some n" "k < n + length p" "position_of p (take k s) \<noteq> None"
  then obtain m where m: "position_of p (take k s) = Some m" by blast
  then have "position_of p (take k s @ drop k s) = Some m" by (rule position_of_append)
  with a(1) have "m = n" by simp
  with position_of_bound [OF m] a(2) show False by simp
qed

lemma position_of_skip:
  "p0 \<notin> set a \<Longrightarrow> position_of (p0 # ps) (a @ r) = map_option ((+) (length a)) (position_of (p0 # ps) r)"
  by (cases "position_of (p0 # ps) r"; induction a) auto

lemma position_of_here: "p \<noteq> [] \<Longrightarrow> position_of p (p @ r) = Some 0"
  by (cases p) (auto simp: starts_with_append [of "_ # _", simplified])

lemma CR_LF [simp]: "CR \<noteq> LF" "LF \<noteq> CR"
  by (simp_all add: CR_def LF_def)

lemma take_past: "length a \<le> k \<Longrightarrow> take k (a @ b) = a @ take (k - length a) b"
  by simp

lemma position_of_line: "CR \<notin> set l \<Longrightarrow> position_of CRLF (l @ CRLF @ r) = Some (length l)"
  using position_of_here [of CRLF r] by (simp add: position_of_skip)

section \<open>A chunked body\<close>

text \<open>
  A chunk is the line that gives its size, extensions and all, and its bytes. The last line says zero and
  is followed by an empty line or by trailers.
\<close>

definition chunk_wire :: "string \<times> string \<Rightarrow> string" where
  "chunk_wire = (\<lambda>(l, d). l @ CRLF @ d @ CRLF)"

definition size_line :: "string \<Rightarrow> nat \<Rightarrow> bool" where
  "size_line l n \<longleftrightarrow> CR \<notin> set l \<and> from_utf8_ok l \<and> size_of_line l = Some n"

definition chunk_ok :: "string \<times> string \<Rightarrow> bool" where
  "chunk_ok = (\<lambda>(l, d). size_line l (length d) \<and> d \<noteq> [])"

definition tail_ok :: "string \<Rightarrow> bool" where
  "tail_ok t \<longleftrightarrow> t = CRLF \<or> \<not> starts_with t CRLF \<and> position_of BLANK_LINE t = Some (length t - 4)"

definition chunked_wire :: "(string \<times> string) list \<Rightarrow> string \<Rightarrow> string \<Rightarrow> string" where
  "chunked_wire cs l0 t = concat (map chunk_wire cs) @ l0 @ CRLF @ t"

lemma chunked_wire_simps:
  "chunked_wire [] l0 t = l0 @ CRLF @ t"
  "chunked_wire ((l, d) # cs) l0 t = l @ CRLF @ d @ CRLF @ chunked_wire cs l0 t"
  by (simp_all add: chunked_wire_def chunk_wire_def)

lemma tail_length: "tail_ok t \<Longrightarrow> 2 \<le> length t"
  by (auto simp: tail_ok_def dest: position_of_bound)

lemma decode_all:
  assumes "list_all chunk_ok cs" "size_line l0 0" "tail_ok t"
    and "cursor + length (chunked_wire cs l0 t) \<le> USIZE_MAX"
    and "length decoded + length (concat (map snd cs)) \<le> MAX_RESPONSE_BYTES"
  shows "decode_from (chunked_wire cs l0 t @ e) decoded cursor
    = Ok (Some (decoded @ concat (map snd cs), cursor + length (chunked_wire cs l0 t)))"
  using assms
proof (induction cs arbitrary: decoded cursor)
  case Nil
  have p: "position_of CRLF (l0 @ CRLF @ t @ e) = Some (length l0)"
    using Nil.prems(2) by (intro position_of_line) (simp add: size_line_def)
  show ?case
  proof (cases "t = CRLF")
    case True
    then show ?thesis
      using p Nil.prems(2) by (subst decode_from.simps) (simp add: chunked_wire_simps size_line_def)
  next
    case False
    then have t: "\<not> starts_with t CRLF" "position_of BLANK_LINE t = Some (length t - 4)"
      using Nil.prems(3) by (auto simp: tail_ok_def)
    then have "4 \<le> length t" using position_of_bound [OF t(2)] by simp
    moreover have "\<not> starts_with (t @ e) CRLF"
      using t(1) starts_with_long [of CRLF t e] tail_length [OF Nil.prems(3)] by simp
    moreover have "position_of BLANK_LINE (t @ e) = Some (length t - 4)"
      by (rule position_of_append [OF t(2)])
    ultimately show ?thesis
      using p Nil.prems(2) by (subst decode_from.simps) (simp add: chunked_wire_simps size_line_def)
  qed
next
  case (Cons c cs)
  obtain l d where c: "c = (l, d)" by (cases c)
  let ?w = "chunked_wire cs l0 t"
  have d: "size_line l (length d)" "d \<noteq> []" using Cons.prems(1) by (simp_all add: c chunk_ok_def)
  have p: "position_of CRLF (l @ CRLF @ d @ CRLF @ ?w @ e) = Some (length l)"
    using d(1) by (intro position_of_line) (simp add: size_line_def)
  have "decode_from (chunked_wire (c # cs) l0 t @ e) decoded cursor
      = decode_from (?w @ e) (decoded @ d) (cursor + length l + 2 + length d + 2)"
    using p d Cons.prems(4,5) by (subst decode_from.simps) (simp add: chunked_wire_simps c size_line_def)
  also have "\<dots> = Ok (Some ((decoded @ d) @ concat (map snd cs), cursor + length l + 2 + length d + 2 + length ?w))"
    using Cons.prems by (intro Cons.IH) (simp_all add: chunked_wire_simps c)
  finally show ?case by (simp add: chunked_wire_simps c)
qed

lemma decode_part:
  assumes "list_all chunk_ok cs" "size_line l0 0" "tail_ok t" "k < length (chunked_wire cs l0 t)"
    and "cursor + length (chunked_wire cs l0 t) \<le> USIZE_MAX"
    and "length decoded + length (concat (map snd cs)) \<le> MAX_RESPONSE_BYTES"
  shows "decode_from (take k (chunked_wire cs l0 t)) decoded cursor = Ok None"
  using assms
proof (induction cs arbitrary: decoded cursor k)
  case Nil
  have p: "position_of CRLF (l0 @ CRLF @ t) = Some (length l0)" for t
    using Nil.prems(2) by (intro position_of_line) (simp add: size_line_def)
  show ?case
  proof (cases "k < length l0 + 2")
    case True
    then have "position_of CRLF (take k (l0 @ CRLF @ t)) = None"
      using position_of_take [OF p, of k t] by simp
    then show ?thesis by (subst decode_from.simps) (simp add: chunked_wire_simps)
  next
    case False
    define j where "j = k - (length l0 + 2)"
    have k: "take k (l0 @ CRLF @ t) = l0 @ CRLF @ take j t" and j: "j < length t"
      using False Nil.prems(4) take_past [of "l0 @ CRLF" k t] by (simp_all add: j_def chunked_wire_simps)
    have "\<not> starts_with (take j t) CRLF \<and> position_of BLANK_LINE (take j t) = None"
    proof (cases "t = CRLF")
      case True
      with j have "j = 0 \<or> j = 1" by auto
      then show ?thesis by (auto simp: True)
    next
      case False
      then have t: "\<not> starts_with t CRLF" "position_of BLANK_LINE t = Some (length t - 4)"
        using Nil.prems(3) by (auto simp: tail_ok_def)
      have "j < length t - 4 + length BLANK_LINE" using j by simp
      then have "position_of BLANK_LINE (take j t) = None" by (rule position_of_take [OF t(2)])
      moreover have "\<not> starts_with (take j t) CRLF"
        using t(1) by (metis append_take_drop_id append.assoc starts_with_iff)
      ultimately show ?thesis by blast
    qed
    then show ?thesis
      using p [of "take j t"] Nil.prems(2) unfolding chunked_wire_simps(1) k
      by (subst decode_from.simps) (simp add: size_line_def)
  qed
next
  case (Cons c cs)
  obtain l d where c: "c = (l, d)" by (cases c)
  let ?w = "chunked_wire cs l0 t"
  have d: "size_line l (length d)" "d \<noteq> []" using Cons.prems(1) by (simp_all add: c chunk_ok_def)
  have p: "position_of CRLF (l @ CRLF @ r) = Some (length l)" for r
    using d(1) by (intro position_of_line) (simp add: size_line_def)
  have w: "chunked_wire (c # cs) l0 t = l @ CRLF @ d @ CRLF @ ?w" by (simp add: chunked_wire_simps c)
  consider (line) "k < length l + 2" | (data) "length l + 2 \<le> k" "k < length l + length d + 4"
    | (more) "length l + length d + 4 \<le> k" by linarith
  then show ?case
  proof cases
    case line
    then have "position_of CRLF (take k (l @ CRLF @ d @ CRLF @ ?w)) = None"
      using position_of_take [OF p, of k "d @ CRLF @ ?w"] by simp
    then show ?thesis by (subst decode_from.simps) (simp add: w)
  next
    case data
    define j where "j = k - (length l + 2)"
    have k: "take k (l @ CRLF @ d @ CRLF @ ?w) = l @ CRLF @ take j (d @ CRLF @ ?w)" and j: "j < length d + 2"
      using data take_past [of "l @ CRLF" k "d @ CRLF @ ?w"] by (simp_all add: j_def)
    show ?thesis
      using p [of "take j (d @ CRLF @ ?w)"] d j Cons.prems(5) unfolding w k
      by (subst decode_from.simps) (auto simp: size_line_def Let_def)
  next
    case more
    define j where "j = k - (length l + length d + 4)"
    have k: "take k (l @ CRLF @ d @ CRLF @ ?w) = l @ CRLF @ d @ CRLF @ take j ?w" and j: "j < length ?w"
      using more Cons.prems(4) take_past [of "l @ CRLF @ d @ CRLF" k ?w] by (simp_all add: w j_def numeral_eq_Suc)
    have "decode_from (take k (chunked_wire (c # cs) l0 t)) decoded cursor
        = decode_from (take j ?w) (decoded @ d) (cursor + length l + 2 + length d + 2)"
      using p [of "d @ CRLF @ take j ?w"] d Cons.prems(5,6) unfolding w k
      by (subst decode_from.simps) (simp add: size_line_def c)
    also have "\<dots> = Ok None"
      using Cons.prems j by (intro Cons.IH) (simp_all add: chunked_wire_simps c)
    finally show ?thesis .
  qed
qed

section \<open>Responses\<close>

text \<open>
  The bytes of a response: a head, an empty line, and a body in one of the two framings that say where
  they end.
\<close>

definition head_ok :: "string \<Rightarrow> bool" where
  "head_ok head \<longleftrightarrow> position_of BLANK_LINE (head @ BLANK_LINE) = Some (length head) \<and> from_utf8_ok head"

inductive framed :: "string \<Rightarrow> string \<Rightarrow> string \<Rightarrow> bool" where
  framed_length: "body_framing head = Ok (ContentLength (length body)) \<Longrightarrow> framed head body body"
| framed_chunks: "body_framing head = Ok Chunked \<Longrightarrow> list_all chunk_ok cs \<Longrightarrow> size_line l0 0 \<Longrightarrow> tail_ok t \<Longrightarrow>
    framed head (chunked_wire cs l0 t) (concat (map snd cs))"

definition response_wire :: "string \<Rightarrow> string \<Rightarrow> string" where
  "response_wire head encoded = head @ BLANK_LINE @ encoded"

lemma max_response_fits: "n \<le> MAX_RESPONSE_BYTES \<Longrightarrow> n + m \<le> MAX_RESPONSE_BYTES + 16 \<Longrightarrow> n + m \<le> USIZE_MAX"
  by (simp add: MAX_RESPONSE_BYTES_def USIZE_MAX_def)

lemma chunked_data_shorter: "length (concat (map snd cs)) \<le> length (chunked_wire cs l0 t)"
  by (induction cs) (auto simp: chunked_wire_def chunk_wire_def)

lemma head_end: "head_ok head \<Longrightarrow> find_header_end (head @ CR # LF # CR # LF # e) = Some (length head)"
  using position_of_append [of BLANK_LINE "head @ BLANK_LINE" "length head" e]
  by (simp add: find_header_end_def head_ok_def)

lemma head_cut: "head_ok head \<Longrightarrow> k < length head + 4 \<Longrightarrow> find_header_end (take k (response_wire head encoded)) = None"
  using position_of_take [OF position_of_append [of BLANK_LINE "head @ BLANK_LINE" "length head" encoded], of k]
  by (simp add: find_header_end_def head_ok_def response_wire_def)

lemma wire_cut:
  "length head + 4 \<le> k \<Longrightarrow> take k (response_wire head encoded) = head @ CR # LF # CR # LF # take (k - (length head + 4)) encoded"
  using take_past [of "head @ BLANK_LINE" k encoded] by (simp add: response_wire_def numeral_eq_Suc)

lemma expected_whole:
  assumes "head_ok head" "framed head encoded body" "length (response_wire head encoded) \<le> MAX_RESPONSE_BYTES"
  shows "expected_response_length (response_wire head encoded @ e) = Ok (Some (length (response_wire head encoded)))"
  using assms(2)
proof cases
  case framed_length
  have "length head + 4 + length encoded \<le> USIZE_MAX" "length head + 4 \<le> USIZE_MAX"
    using assms(3) by (simp_all add: MAX_RESPONSE_BYTES_def USIZE_MAX_def response_wire_def)
  then show ?thesis
    using assms(1) framed_length by (simp add: expected_response_length_def response_wire_def head_end head_ok_def)
next
  case (framed_chunks cs l0 t)
  have fits: "length head + 4 + length encoded \<le> USIZE_MAX"
    and len: "length (concat (map snd cs)) \<le> MAX_RESPONSE_BYTES"
    using assms(3) chunked_data_shorter [of cs l0 t]
    by (simp_all add: MAX_RESPONSE_BYTES_def USIZE_MAX_def response_wire_def framed_chunks(1))
  then have "decode_from (chunked_wire cs l0 t @ e) [] 0 = Ok (Some (concat (map snd cs), length (chunked_wire cs l0 t)))"
    using decode_all [of cs l0 t 0 "[]" e] framed_chunks by simp
  then show ?thesis
    using assms(1) framed_chunks fits
    by (simp add: expected_response_length_def response_wire_def head_end head_ok_def decode_chunked_body_def)
qed

lemma expected_part:
  assumes "head_ok head" "framed head encoded body" "length (response_wire head encoded) \<le> MAX_RESPONSE_BYTES"
    and "k < length (response_wire head encoded)"
  shows "expected_response_length (take k (response_wire head encoded)) \<in> {Ok None, Ok (Some (length (response_wire head encoded)))}"
proof (cases "k < length head + 4")
  case True
  then show ?thesis using head_cut [OF assms(1) True, of encoded] by (simp add: expected_response_length_def)
next
  case False
  define j where "j = k - (length head + 4)"
  have k: "take k (response_wire head encoded) = head @ CR # LF # CR # LF # take j encoded" and j: "j < length encoded"
    using False assms(4) wire_cut [of head k encoded] by (simp_all add: j_def response_wire_def)
  from assms(2) show ?thesis
  proof cases
    case framed_length
    have "length head + 4 + length encoded \<le> USIZE_MAX" "length head + 4 \<le> USIZE_MAX"
      using assms(3) by (simp_all add: MAX_RESPONSE_BYTES_def USIZE_MAX_def response_wire_def)
    then show ?thesis
      using assms(1) framed_length
      by (simp add: expected_response_length_def k head_end head_ok_def) (simp add: response_wire_def)
  next
    case (framed_chunks cs l0 t)
    have fits: "length head + 4 + length encoded \<le> USIZE_MAX"
      and len: "length (concat (map snd cs)) \<le> MAX_RESPONSE_BYTES"
      using assms(3) chunked_data_shorter [of cs l0 t]
      by (simp_all add: MAX_RESPONSE_BYTES_def USIZE_MAX_def response_wire_def framed_chunks(1))
    then have "decode_from (take j (chunked_wire cs l0 t)) [] 0 = Ok None"
      using decode_part [of cs l0 t j 0 "[]"] framed_chunks j by simp
    then show ?thesis
      using assms(1) framed_chunks fits unfolding k
      by (simp add: expected_response_length_def head_end head_ok_def decode_chunked_body_def)
  qed
qed

lemma read_to_end:
  assumes "head_ok head" "framed head encoded body" "w = response_wire head encoded"
    and "bytes @ concat chunks = w @ extra" "length bytes < length w"
    and "length (w @ extra) \<le> MAX_RESPONSE_BYTES" "[] \<notin> set chunks"
  shows "read_response (map Ok chunks @ reads) bytes = Some (Ok w)"
  using assms(4,5,7)
proof (induction chunks arbitrary: bytes)
  case (Cons c chunks)
  have len: "length w \<le> MAX_RESPONSE_BYTES" using assms(6) by simp
  have "length (bytes @ c) + length (concat chunks) = length (w @ extra)"
    using arg_cong [OF Cons.prems(1), of length] by simp
  then have c: "c \<noteq> []" "length bytes + length c \<le> MAX_RESPONSE_BYTES"
    using Cons.prems(3) assms(6) by auto
  have start: "take (length (bytes @ c)) (w @ extra) = bytes @ c"
    using Cons.prems(1) by (metis append.assoc append_eq_conv_conj concat.simps(2))
  show ?case
  proof (cases "length (bytes @ c) < length w")
    case True
    then have "bytes @ c = take (length (bytes @ c)) w" using start by simp
    then have "expected_response_length (bytes @ c) \<in> {Ok None, Ok (Some (length w))}"
      using expected_part [OF assms(1,2) _ , of "length (bytes @ c)"] True len assms(3) by metis
    moreover have "read_response (map Ok chunks @ reads) (bytes @ c) = Some (Ok w)"
      using Cons.prems True by (intro Cons.IH) simp_all
    ultimately show ?thesis using c True len by (auto simp: Let_def)
  next
    case False
    then obtain e where e: "bytes @ c = w @ e"
      using start by (metis append_take_drop_id not_less take_all_iff take_append)
    then have "expected_response_length (bytes @ c) = Ok (Some (length w))"
      using expected_whole [OF assms(1,2), of e] len assms(3) by simp
    then show ?thesis using c False len e by (simp add: Let_def)
  qed
qed simp

lemma read_cut_short:
  assumes "head_ok head" "framed head encoded body" "w = response_wire head encoded"
    and "bytes @ concat chunks = take k w" "k < length w" "length w \<le> MAX_RESPONSE_BYTES" "[] \<notin> set chunks"
  shows "read_response (map Ok chunks @ Ok [] # reads) bytes = Some (Ok (take k w))"
  using assms(4,7)
proof (induction chunks arbitrary: bytes)
  case (Cons c chunks)
  have "length (bytes @ c) + length (concat chunks) = k"
    using arg_cong [OF Cons.prems(1), of length] assms(5) by simp
  then have c: "c \<noteq> []" "length (bytes @ c) < length w" "length (bytes @ c) \<le> k"
    using Cons.prems(2) assms(5) by auto
  have "bytes @ c = take (length (bytes @ c)) (take k w)"
    using Cons.prems(1) by (metis append.assoc append_eq_conv_conj concat.simps(2))
  then have "bytes @ c = take (length (bytes @ c)) w" using c(3) by (simp add: min_def)
  then have "expected_response_length (bytes @ c) \<in> {Ok None, Ok (Some (length w))}"
    using expected_part [OF assms(1,2) _ , of "length (bytes @ c)"] c assms(3,6) by metis
  moreover have "read_response (map Ok chunks @ Ok [] # reads) (bytes @ c) = Some (Ok (take k w))"
    using Cons.prems by (intro Cons.IH) simp_all
  ultimately show ?case using c assms(6) by (auto simp: Let_def)
qed simp

lemma parse_whole:
  assumes "head_ok head" "framed head encoded body" "length (response_wire head encoded) \<le> MAX_RESPONSE_BYTES"
    and "str_lines head = status # headers" "status \<noteq> []" "status_code_of status = Ok code" "from_utf8_ok body"
  shows "parse_http_response (response_wire head encoded)
    = Ok \<lparr>rh_status_line = status, rh_status_code = code, rh_body = body\<rparr>"
  using assms(2)
proof cases
  case framed_length
  then show ?thesis
    using assms by (simp add: parse_http_response_def response_wire_def head_end head_ok_def framed_body_def)
next
  case (framed_chunks cs l0 t)
  have "length encoded \<le> USIZE_MAX" "length (concat (map snd cs)) \<le> MAX_RESPONSE_BYTES"
    using assms(3) chunked_data_shorter [of cs l0 t]
    by (simp_all add: MAX_RESPONSE_BYTES_def USIZE_MAX_def response_wire_def framed_chunks(1))
  then have "decode_from encoded [] 0 = Ok (Some (body, length encoded))"
    using decode_all [of cs l0 t 0 "[]" "[]"] framed_chunks by simp
  then show ?thesis
    using assms framed_chunks
    by (simp add: parse_http_response_def response_wire_def head_end head_ok_def framed_body_def decode_chunked_body_def)
qed

lemma parse_part:
  assumes "head_ok head" "framed head encoded body" "length (response_wire head encoded) \<le> MAX_RESPONSE_BYTES"
    and "k < length (response_wire head encoded)"
  shows "\<exists>e. parse_http_response (take k (response_wire head encoded)) = Err e"
proof (cases "k < length head + 4")
  case True
  then show ?thesis using head_cut [OF assms(1) True, of encoded] by (simp add: parse_http_response_def)
next
  case False
  define j where "j = k - (length head + 4)"
  have k: "take k (response_wire head encoded) = head @ CR # LF # CR # LF # take j encoded" and j: "j < length encoded"
    using False assms(4) wire_cut [of head k encoded] by (simp_all add: j_def response_wire_def)
  have "\<exists>fr e. body_framing head = Ok fr \<and> framed_body fr (take j encoded) = Err e"
    using assms(2)
  proof cases
    case framed_length
    then show ?thesis using j by (simp add: framed_body_def)
  next
    case (framed_chunks cs l0 t)
    have "length encoded \<le> USIZE_MAX" "length (concat (map snd cs)) \<le> MAX_RESPONSE_BYTES"
      using assms(3) chunked_data_shorter [of cs l0 t]
      by (simp_all add: MAX_RESPONSE_BYTES_def USIZE_MAX_def response_wire_def framed_chunks(1))
    then have "decode_from (take j encoded) [] 0 = Ok None"
      using decode_part [of cs l0 t j 0 "[]"] framed_chunks j by simp
    then show ?thesis using framed_chunks by (simp add: framed_body_def decode_chunked_body_def)
  qed
  then show ?thesis
    using assms(1)
    by (auto simp: parse_http_response_def k head_end Let_def split: list.splits sum.splits)
qed

lemma read_bounded: "read_response reads bytes = Some (Ok w) \<Longrightarrow> length bytes \<le> MAX_RESPONSE_BYTES \<Longrightarrow> length w \<le> MAX_RESPONSE_BYTES"
  by (induction reads bytes rule: read_response.induct) (auto simp: Let_def split: if_splits sum.splits option.splits)

section \<open>The text of a request\<close>

fun head_text :: "string list \<Rightarrow> string" where
  "head_text [] = []"
| "head_text [l] = l"
| "head_text (l # ls) = l @ CRLF @ head_text ls"

definition plain_line :: "string \<Rightarrow> bool" where
  "plain_line l \<longleftrightarrow> l \<noteq> [] \<and> CR \<notin> set l \<and> LF \<notin> set l"

lemma head_text_end:
  "ls \<noteq> [] \<Longrightarrow> list_all plain_line ls \<Longrightarrow>
    position_of BLANK_LINE (head_text ls @ CR # LF # CR # LF # body) = Some (length (head_text ls))"
proof (induction ls rule: head_text.induct)
  case (2 l)
  then show ?case by (simp add: plain_line_def position_of_skip)
next
  case (3 l l' ls)
  obtain c r where r: "head_text (l' # ls) @ CR # LF # CR # LF # body = c # r" "c \<noteq> CR"
    using 3(3) by (cases l'; cases ls) (auto simp: plain_line_def)
  have "position_of BLANK_LINE (c # r) = Some (length (head_text (l' # ls)))"
    using 3 unfolding r(1) [symmetric] by simp
  then have "position_of BLANK_LINE (CR # LF # c # r) = Some (Suc (Suc (length (head_text (l' # ls)))))"
    using r(2) by simp
  then show ?case using 3(3) by (simp add: plain_line_def position_of_skip r(1))
qed simp

lemma str_lines_last: "l \<noteq> [] \<Longrightarrow> LF \<notin> set l \<Longrightarrow> str_lines l = [l]"
proof (cases l)
  case (Cons c cs)
  assume "LF \<notin> set l"
  then have "dropWhile (\<lambda>c. c \<noteq> LF) (c # cs) = []" "takeWhile (\<lambda>c. c \<noteq> LF) (c # cs) = c # cs"
    using Cons by (auto simp: dropWhile_eq_Nil_conv takeWhile_eq_all_conv)
  then show ?thesis unfolding Cons str_lines.simps by (simp only: Let_def list.case)
qed simp

lemma str_lines_line: "CR \<notin> set l \<Longrightarrow> LF \<notin> set l \<Longrightarrow> str_lines (l @ CR # LF # rest) = l # str_lines rest"
  by (cases l) (auto simp: takeWhile_append dropWhile_append strip_cr_def Let_def)

lemma str_lines_head: "list_all plain_line ls \<Longrightarrow> str_lines (head_text ls) = ls"
  by (induction ls rule: head_text.induct) (auto simp: plain_line_def str_lines_last str_lines_line)

text \<open>The lines a request is made of, and how they are read by the rules of \<^const>\<open>body_framing\<close>.\<close>

definition request_lines :: "string \<Rightarrow> nat \<Rightarrow> string \<Rightarrow> nat \<Rightarrow> string list" where
  "request_lines host port path n =
     [''POST '' @ path @ '' HTTP/1.1'', ''Host: '' @ authority host port, ''Accept: */*'',
      ''Content-Type: text/xml; charset=utf-8'', ''Content-Length: '' @ show_nat n, ''Connection: close'',
      ''User-Agent: curl/8.0'']"

lemma build_request_lines:
  "build_request host port path body = head_text (request_lines host port path (length body)) @ BLANK_LINE @ body"
  by (simp add: build_request_def request_lines_def)

lemma visible_not_break: "visible c \<Longrightarrow> c \<noteq> CR \<and> c \<noteq> LF"
  by (auto simp: visible_def CR_def LF_def byte_def)

lemma show_nat_visible: "list_all visible (show_nat n)"
  using digits_only_show_nat [of n] by (auto simp: digits_only_def list_all_iff digit_visible)

lemma show_nat_plain: "CR \<notin> set (show_nat n)" "LF \<notin> set (show_nat n)"
  using show_nat_visible [of n] visible_not_break by (auto simp: list_all_iff)

lemma request_lines_plain:
  "\<not> has_line_break host \<Longrightarrow> \<not> has_line_break path \<Longrightarrow> list_all plain_line (request_lines host port path n)"
  using show_nat_plain [of port] show_nat_plain [of n]
  by (auto simp: request_lines_def plain_line_def authority_def has_line_break_def list_ex_iff CR_def LF_def)

lemma trim_space: "list_all visible t \<Longrightarrow> trim (CHR '' '' # t) = t"
proof -
  assume t: "list_all visible t"
  have "takeWhile is_cont t = []" "dropWhile is_cont t = t" using t by (cases t; simp add: visible_not_cont)+
  then have "dropWhile is_whitespace (utf8_chars (CHR '' '' # t)) = dropWhile is_whitespace (utf8_chars t)"
    by (simp add: is_whitespace_def whitespace_encodings_def)
  then show ?thesis using trim_visible [OF t] by (simp add: trim_def)
qed

lemma request_framing:
  assumes "\<not> has_line_break host" "\<not> has_line_break path" "n \<le> USIZE_MAX"
  shows "body_framing (head_text (request_lines host port path n)) = Ok (ContentLength n)"
proof -
  have names: "\<not> eq_ignore_ascii_case ''Host'' ''transfer-encoding''" "\<not> eq_ignore_ascii_case ''Host'' ''content-length''"
    "\<not> eq_ignore_ascii_case ''Accept'' ''transfer-encoding''" "\<not> eq_ignore_ascii_case ''Accept'' ''content-length''"
    "\<not> eq_ignore_ascii_case ''Content-Type'' ''transfer-encoding''" "\<not> eq_ignore_ascii_case ''Content-Type'' ''content-length''"
    "\<not> eq_ignore_ascii_case ''Content-Length'' ''transfer-encoding''" "eq_ignore_ascii_case ''Content-Length'' ''content-length''"
    "\<not> eq_ignore_ascii_case ''Connection'' ''transfer-encoding''" "\<not> eq_ignore_ascii_case ''Connection'' ''content-length''"
    "\<not> eq_ignore_ascii_case ''User-Agent'' ''transfer-encoding''" "\<not> eq_ignore_ascii_case ''User-Agent'' ''content-length''"
    by code_simp+
  have len: "trim (CHR '' '' # show_nat n) = show_nat n" by (rule trim_space [OF show_nat_visible])
  have "parse_unsigned USIZE_MAX (show_nat n) = Some n"
    using digits_only_show_nat [of n] assms(3) by (subst parse_unsigned_digits) (auto simp: digits_only_def)
  with len names show ?thesis
    unfolding body_framing_def str_lines_head [OF request_lines_plain [OF assms(1,2)]]
    by (simp add: request_lines_def split_once_def)
qed

section \<open>What an exchange gives\<close>

text \<open>
  C23. However the receiver's answer is cut into pieces, the exchange hands on exactly its body: in both
  framings that say where a body ends, with any chunk extensions and trailers, and whatever follows the
  answer on the connection is not read as part of it.
\<close>

theorem http_response_read_exactly:
  assumes "head_ok head" "framed head encoded body"
    and "concat chunks = response_wire head encoded @ extra" "length (concat chunks) \<le> MAX_RESPONSE_BYTES" "[] \<notin> set chunks"
    and "str_lines head = status # headers" "status \<noteq> []" "status_code_of status = Ok code" "from_utf8_ok body"
    and "hx_addresses x = Ok attempts" "connect attempts = Ok ()" "hx_written x = Ok ()" "hx_reads x = map Ok chunks @ reads"
  shows "snd (post_xml client x path request)
    = Some (Ok \<lparr>rh_status_line = status, rh_status_code = code, rh_body = body\<rparr>)"
proof -
  have w: "length (response_wire head encoded) \<le> MAX_RESPONSE_BYTES"
    "length (response_wire head encoded @ extra) \<le> MAX_RESPONSE_BYTES"
    using assms(3,4) by (metis length_append le_trans le_add1) (metis assms(3,4))
  have "read_response (map Ok chunks @ reads) [] = Some (Ok (response_wire head encoded))"
    using assms(1-3,5) w(2) by (intro read_to_end [OF assms(1,2) refl]) (auto simp: response_wire_def)
  then show ?thesis
    using parse_whole [OF assms(1,2) w(1) assms(6-9)] assms(10-13) by (simp add: post_xml_def)
qed

text \<open>
  An answer that breaks off before its end is an error, never a shorter answer.
\<close>

theorem truncated_response_rejected:
  assumes "head_ok head" "framed head encoded body" "length (response_wire head encoded) \<le> MAX_RESPONSE_BYTES"
    and "concat chunks = take k (response_wire head encoded)" "k < length (response_wire head encoded)" "[] \<notin> set chunks"
    and "hx_addresses x = Ok attempts" "connect attempts = Ok ()" "hx_written x = Ok ()" "hx_reads x = map Ok chunks @ Ok [] # reads"
  shows "\<exists>e. snd (post_xml client x path request) = Some (Err e)"
proof -
  have "read_response (map Ok chunks @ Ok [] # reads) [] = Some (Ok (take k (response_wire head encoded)))"
    using assms by (intro read_cut_short [OF assms(1,2) refl]) simp_all
  then show ?thesis
    using parse_part [OF assms(1,2,3,5)] assms(7-10) by (auto simp: post_xml_def)
qed

text \<open>
  C18. A request cannot be talked into being another one: whatever the host, the path and the body hold,
  what is written is one request line, the headers the client means, and a body of the announced length.
\<close>

theorem request_not_injectable:
  assumes "client_new endpoint timeout = Ok client" "fst (execute_xml_at client x path body) = Some sent" "length body \<le> USIZE_MAX"
  shows "\<exists>h. find_header_end sent = Some h \<and> drop (h + 4) sent = body
    \<and> str_lines (take h sent) = request_lines (re_host endpoint) (re_port endpoint) path (length body)
    \<and> body_framing (take h sent) = Ok (ContentLength (length body))"
proof -
  have c: "\<not> has_line_break (re_host endpoint)" "hc_endpoint client = endpoint"
    using assms(1) by (auto simp: client_new_def split: if_splits)
  have p: "\<not> has_line_break path" and sent: "sent = build_request (re_host endpoint) (re_port endpoint) path body"
    using assms(2) c(2) by (auto simp: execute_xml_at_def post_xml_def split: if_splits sum.splits)
  let ?ls = "request_lines (re_host endpoint) (re_port endpoint) path (length body)"
  have ls: "list_all plain_line ?ls" "?ls \<noteq> []"
    using request_lines_plain [OF c(1) p] by (simp_all add: request_lines_def)
  have "find_header_end sent = Some (length (head_text ?ls))"
    using head_text_end [OF ls(2,1), of body] by (simp add: sent build_request_lines find_header_end_def)
  then show ?thesis
    using str_lines_head [OF ls(1)] request_framing [OF c(1) p assms(3)]
    by (simp add: sent build_request_lines)
qed

section \<open>Witnesses\<close>

definition example_head :: string where
  "example_head = ''HTTP/1.1 200 OK'' @ CRLF @ ''Transfer-Encoding: chunked''"

definition example_chunks :: "(string \<times> string) list" where
  "example_chunks = [(''4;last=no'', ''<rx>''), (''5'', ''</rx>'')]"

lemma example_framed:
  "head_ok example_head" "framed example_head (chunked_wire example_chunks ''0'' CRLF) ''<rx></rx>''"
  "str_lines example_head = [''HTTP/1.1 200 OK'', ''Transfer-Encoding: chunked'']"
  "status_code_of ''HTTP/1.1 200 OK'' = Ok 200" "from_utf8_ok ''<rx></rx>''"
proof -
  show "head_ok example_head" by code_simp
  have framing: "body_framing example_head = Ok Chunked" by code_simp
  moreover have sizes: "size_of_line ''4;last=no'' = Some 4" "size_of_line ''5'' = Some 5" "size_of_line ''0'' = Some 0"
    by (simp_all add: size_of_line_def parse_hex_def hex_digit_value_def USIZE_MAX_def text_defs)
  moreover have "CR \<notin> set ''4;last=no'' \<and> from_utf8_ok ''4;last=no''" "CR \<notin> set ''5'' \<and> from_utf8_ok ''5''"
    and zero: "CR \<notin> set ''0'' \<and> from_utf8_ok ''0''"
    by code_simp+
  ultimately have "list_all chunk_ok example_chunks" by (simp add: example_chunks_def chunk_ok_def size_line_def)
  moreover have "size_line ''0'' 0" using zero sizes(3) by (simp add: size_line_def)
  moreover have "tail_ok CRLF" by code_simp
  ultimately have "framed example_head (chunked_wire example_chunks ''0'' CRLF) (concat (map snd example_chunks))"
    using framing by (intro framed_chunks)
  then show "framed example_head (chunked_wire example_chunks ''0'' CRLF) ''<rx></rx>''"
    by (simp add: example_chunks_def)
  show "str_lines example_head = [''HTTP/1.1 200 OK'', ''Transfer-Encoding: chunked'']" by code_simp
  show "status_code_of ''HTTP/1.1 200 OK'' = Ok 200"
    by (simp add: status_code_of_def split_whitespace_def parse_unsigned_def text_defs)
  show "from_utf8_ok ''<rx></rx>''" by code_simp
qed

definition example_client :: app_command_client where
  "example_client = \<lparr>hc_endpoint = \<lparr>re_host = ''::1'', re_port = 8080\<rparr>, hc_timeout = 20\<rparr>"

definition example_exchange :: "(string, io_error) result list \<Rightarrow> http_exchange" where
  "example_exchange reads = \<lparr>hx_addresses = Ok [(20, Ok ())], hx_written = Ok (), hx_reads = reads\<rparr>"

lemma example_connect: "connect [(20, Ok ())] = Ok ()"
  by (simp add: connect_def)

theorem http_response_read_exactly_witness:
  "snd (post_xml example_client
      (example_exchange (map Ok [example_head @ BLANK_LINE, chunked_wire example_chunks ''0'' CRLF @ ''HTTP'']))
      ''/'' [])
    = Some (Ok \<lparr>rh_status_line = ''HTTP/1.1 200 OK'', rh_status_code = 200, rh_body = ''<rx></rx>''\<rparr>)"
proof (rule http_response_read_exactly [OF example_framed(1,2) _ _ _ example_framed(3) _ example_framed(4,5), where reads = "[]" and extra = "''HTTP''" and attempts = "[(20, Ok ())]"])
  show "length (concat [example_head @ BLANK_LINE, chunked_wire example_chunks ''0'' CRLF @ ''HTTP'']) \<le> MAX_RESPONSE_BYTES"
    by (simp add: MAX_RESPONSE_BYTES_def example_head_def example_chunks_def chunked_wire_simps)
  show "[] \<notin> set [example_head @ BLANK_LINE, chunked_wire example_chunks ''0'' CRLF @ ''HTTP'']"
    by (simp add: example_head_def)
qed (simp_all add: response_wire_def example_exchange_def example_connect)

theorem truncated_response_rejected_witness:
  "\<exists>e. snd (post_xml example_client (example_exchange [Ok example_head, Ok BLANK_LINE, Ok ''4'', Ok []]) ''/'' []) = Some (Err e)"
proof (rule truncated_response_rejected [OF example_framed(1,2), where chunks = "[example_head, BLANK_LINE, ''4'']" and reads = "[]"
      and k = "length example_head + 5" and attempts = "[(20, Ok ())]"])
  show "length (response_wire example_head (chunked_wire example_chunks ''0'' CRLF)) \<le> MAX_RESPONSE_BYTES"
    by (simp add: MAX_RESPONSE_BYTES_def example_head_def example_chunks_def chunked_wire_simps response_wire_def)
qed (simp_all add: response_wire_def example_exchange_def example_connect example_chunks_def chunked_wire_simps example_head_def)

theorem request_not_injectable_witness:
  "\<exists>h. find_header_end (build_request ''::1'' 8080 ''/goform'' ''<tx/>'') = Some h
    \<and> drop (h + 4) (build_request ''::1'' 8080 ''/goform'' ''<tx/>'') = ''<tx/>''
    \<and> str_lines (take h (build_request ''::1'' 8080 ''/goform'' ''<tx/>''))
        = request_lines ''::1'' 8080 ''/goform'' (length ''<tx/>'')
    \<and> body_framing (take h (build_request ''::1'' 8080 ''/goform'' ''<tx/>'')) = Ok (ContentLength (length ''<tx/>''))"
proof -
  have c: "client_new \<lparr>re_host = ''::1'', re_port = 8080\<rparr> 20 = Ok example_client"
    by (simp add: client_new_def example_client_def has_line_break_def CR_def LF_def text_defs)
  have s: "fst (execute_xml_at example_client (example_exchange []) ''/goform'' ''<tx/>'')
      = Some (build_request ''::1'' 8080 ''/goform'' ''<tx/>'')"
    by (simp add: execute_xml_at_def post_xml_def example_exchange_def example_connect example_client_def has_line_break_def CR_def LF_def)
  have n: "length ''<tx/>'' \<le> USIZE_MAX" by (simp add: USIZE_MAX_def)
  show ?thesis using request_not_injectable [OF c s n] by (simp only: receiver_endpoint.simps)
qed

end
