(* ===== verification/App_Command.thy ===== *)
theory App_Command
  imports Http_Exchange Main_Zone Api_State
begin

text \<open>
  What the program asks a receiver over HTTP and reads of its answers: \<open>app_command.rs\<close>,
  \<open>http_information.rs\<close>, \<open>source_catalog.rs\<close> and \<open>quick_select_name.rs\<close> of the protocol crate, and the
  readers \<open>http_information.rs\<close>, \<open>source_catalog.rs\<close> and \<open>quick_select_names.rs\<close> of the infrastructure crate.

  The XML library is a parameter: an answer is the list of events its reader returns before the end of
  the text, an error among them being where it stops. \<open>read_text\<close> takes an element whole, so the start of an
  element carries what that call would give, and the events behind it are then those behind the element.
  Names of elements are slices of a text cut at ASCII characters, so that decoding them cannot fail.
\<close>

section \<open>Queries\<close>

datatype app_command_error = EmptyRequest | EmptyParameterList | InvalidIdentifier string | StateChangingQuery
  | MissingResponse | MissingResponseRoot | MultipleResponseRoots | CommandOutsideResponseRoot | NestedCommand
  | ParameterOutsideCommand | MissingCommandName | DuplicateCommandName | MalformedParameter | MalformedXml string

datatype app_command_query = AppCommandQuery (aq_name: string) (aq_parameters: "string list")

definition validated_identifier :: "string \<Rightarrow> string \<Rightarrow> (string, app_command_error) result" where
  "validated_identifier v kind = (if is_blank v \<or> has_control v then Err (InvalidIdentifier kind) else Ok v)"

definition query_new :: "string \<Rightarrow> string list \<Rightarrow> (app_command_query, app_command_error) result" where
  "query_new name parameters =
     and_then (validated_identifier name ''command name'') (\<lambda>n.
       if \<not> starts_with n ''Get'' then Err StateChangingQuery
       else and_then (traverse (\<lambda>p. validated_identifier p ''parameter name'') parameters) (\<lambda>ps.
         if ps = [] then Err EmptyParameterList else Ok (AppCommandQuery n ps)))"

datatype app_command_request = AppCommandRequest (ar_queries: "app_command_query list")

definition request_new :: "app_command_query list \<Rightarrow> (app_command_request, app_command_error) result" where
  "request_new queries = (if queries = [] then Err EmptyRequest else Ok (AppCommandRequest queries))"

definition INPUT_QUERY :: app_command_query where "INPUT_QUERY = AppCommandQuery ''GetInputSignal'' [''inputsigall'']"
definition OUTPUT_QUERY :: app_command_query where "OUTPUT_QUERY = AppCommandQuery ''GetActiveSpeaker'' [''activespall'']"
definition VIDEO_QUERY :: app_command_query where
  "VIDEO_QUERY = AppCommandQuery ''GetVideoInfo'' [''videooutput'', ''hdmisigin'', ''hdmisigout'']"
definition AUDIO_QUERY :: app_command_query where
  "AUDIO_QUERY = AppCommandQuery ''GetAudioInfo'' [''inputmode'', ''output'', ''signal'', ''sound'', ''fs'']"
definition AUDYSSEY_QUERY :: app_command_query where
  "AUDYSSEY_QUERY = AppCommandQuery ''GetAudyssyInfo'' [''eqname'', ''eqvalue'', ''dynamiceq'', ''dynamicvol'']"

definition audio_information_request :: app_command_request where
  "audio_information_request = AppCommandRequest [INPUT_QUERY, OUTPUT_QUERY, VIDEO_QUERY, AUDIO_QUERY, AUDYSSEY_QUERY]"

text \<open>\<open>to_xml\<close>: what is handed to the writer, in order; the text of each event is the library's.\<close>

datatype xml_out = OutDecl | OutStart string "(string \<times> string) list" | OutEnd string | OutText string

abbreviation OutBreak :: xml_out where "OutBreak \<equiv> OutText [LF]"

definition write_text_element :: "string \<Rightarrow> string \<Rightarrow> xml_out list" where
  "write_text_element name t = [OutStart name [], OutText t, OutEnd name]"

definition query_events :: "app_command_query \<Rightarrow> xml_out list" where
  "query_events q =
     [OutStart ''cmd'' [(''id'', ''3'')], OutBreak] @ write_text_element ''name'' (aq_name q)
     @ [OutBreak, OutStart ''list'' [], OutBreak]
     @ concat (map (\<lambda>p. [OutStart ''param'' [(''name'', p)], OutEnd ''param'', OutBreak]) (aq_parameters q))
     @ [OutEnd ''list'', OutBreak, OutEnd ''cmd'', OutBreak]"

definition request_events :: "app_command_request \<Rightarrow> xml_out list" where
  "request_events rq =
     [OutDecl, OutBreak, OutStart ''tx'' [], OutBreak] @ concat (map query_events (ar_queries rq)) @ [OutEnd ''tx'']"

definition to_xml :: "(xml_out \<Rightarrow> string) \<Rightarrow> app_command_request \<Rightarrow> string" where
  "to_xml render rq = concat (map render (request_events rq))"

section \<open>Answers\<close>

record app_command_parameter =
  ap_name :: string
  ap_attributes :: "(string \<times> string) list"
  ap_value :: string

definition control_code :: "app_command_parameter \<Rightarrow> nat option" where
  "control_code p = Option.bind (map_of (ap_attributes p) ''control'') (parse_unsigned 255)"

definition trimmed_value :: "app_command_parameter \<Rightarrow> string" where
  "trimmed_value p = trim (ap_value p)"

record app_command_result =
  ax_name :: string
  ax_parameters :: "app_command_parameter list"

definition parameter_named :: "app_command_result \<Rightarrow> string \<Rightarrow> app_command_parameter option" where
  "parameter_named c name = List.find (\<lambda>p. ap_name p = name) (ax_parameters c)"

record app_command_response =
  as_raw_xml :: string
  as_commands :: "app_command_result list"

definition command_named :: "app_command_response \<Rightarrow> string \<Rightarrow> app_command_result option" where
  "command_named r name = List.find (\<lambda>c. ax_name c = name) (as_commands r)"

text \<open>The events of the reader. An attribute is its key and its value, or the error of decoding either.\<close>

type_synonym xml_attributes = "(string \<times> string, string) result list"

datatype xml_event =
    XStart string xml_attributes "(string, string) result"
  | XEmpty string xml_attributes
  | XEnd string
  | XText string
  | XCData string
  | XRef string
  | XOther

fun attribute_map :: "xml_attributes \<Rightarrow> (string \<times> string) list \<Rightarrow> ((string \<times> string) list, app_command_error) result" where
  "attribute_map [] m = Ok m"
| "attribute_map (Err e # attributes) m = Err (MalformedXml e)"
| "attribute_map (Ok (k, v) # attributes) m = attribute_map attributes (bt_insert k v m)"

definition parameter_attributes :: "xml_attributes \<Rightarrow> (string \<times> (string \<times> string) list, app_command_error) result" where
  "parameter_attributes attributes =
     and_then (attribute_map attributes []) (\<lambda>m.
       case map_of m ''name'' of
         None \<Rightarrow> Err MalformedParameter
       | Some name \<Rightarrow> if name = [] then Err MalformedParameter else Ok (name, bt_remove ''name'' m))"

text \<open>The command being read: its name when it has been read, and its parameters so far.\<close>

type_synonym command_builder = "string option \<times> app_command_parameter list"

definition builder_finish :: "command_builder \<Rightarrow> (app_command_result, app_command_error) result" where
  "builder_finish b =
     (case fst b of
        None \<Rightarrow> Err MissingCommandName
      | Some name \<Rightarrow> if name = [] then Err MissingCommandName else Ok \<lparr>ax_name = name, ax_parameters = snd b\<rparr>)"

record app_parser =
  pr_commands :: "app_command_result list"
  pr_current :: "command_builder option"
  pr_saw_root :: bool
  pr_inside_root :: bool
  pr_closed_root :: bool

definition app_parser_new :: app_parser where
  "app_parser_new = \<lparr>pr_commands = [], pr_current = None, pr_saw_root = False, pr_inside_root = False, pr_closed_root = False\<rparr>"

definition root_start :: "app_parser \<Rightarrow> (app_parser, app_command_error) result" where
  "root_start p = (if pr_saw_root p then Err MultipleResponseRoots else Ok (p\<lparr>pr_saw_root := True, pr_inside_root := True\<rparr>))"

definition command_start :: "app_parser \<Rightarrow> (app_parser, app_command_error) result" where
  "command_start p =
     (if \<not> pr_inside_root p then Err CommandOutsideResponseRoot
      else if pr_current p \<noteq> None then Err NestedCommand
      else Ok (p\<lparr>pr_current := Some (None, [])\<rparr>))"

definition command_end :: "app_parser \<Rightarrow> (app_parser, app_command_error) result" where
  "command_end p =
     (case pr_current p of
        None \<Rightarrow> Err MissingCommandName
      | Some b \<Rightarrow> and_then (builder_finish b) (\<lambda>c. Ok (p\<lparr>pr_current := None, pr_commands := pr_commands p @ [c]\<rparr>)))"

definition name_start :: "(string, string) result \<Rightarrow> app_parser \<Rightarrow> (app_parser, app_command_error) result" where
  "name_start inner p =
     (case pr_current p of
        None \<Rightarrow> Err MissingCommandName
      | Some (name, ps) \<Rightarrow>
          (case inner of
             Err e \<Rightarrow> Err (MalformedXml e)
           | Ok t \<Rightarrow> if name \<noteq> None then Err DuplicateCommandName else Ok (p\<lparr>pr_current := Some (Some (trim t), ps)\<rparr>)))"

definition param_start :: "xml_attributes \<Rightarrow> (string, string) result \<Rightarrow> app_parser \<Rightarrow> (app_parser, app_command_error) result" where
  "param_start attributes inner p =
     (case pr_current p of
        None \<Rightarrow> Err ParameterOutsideCommand
      | Some (name, ps) \<Rightarrow>
          and_then (parameter_attributes attributes) (\<lambda>(n, m).
            case inner of
              Err e \<Rightarrow> Err (MalformedXml e)
            | Ok t \<Rightarrow> Ok (p\<lparr>pr_current := Some (name, ps @ [\<lparr>ap_name = n, ap_attributes = m, ap_value = t\<rparr>])\<rparr>)))"

fun app_event :: "xml_event \<Rightarrow> app_parser \<Rightarrow> (app_parser, app_command_error) result" where
  "app_event (XStart tag attributes inner) p =
     (if tag = ''rx'' then root_start p
      else if tag = ''cmd'' then command_start p
      else if tag = ''name'' then name_start inner p
      else if tag = ''param'' then param_start attributes inner p
      else Ok p)"
| "app_event (XEmpty tag attributes) p =
     (if tag = ''rx'' then (if pr_saw_root p then Err MultipleResponseRoots else Ok (p\<lparr>pr_saw_root := True, pr_closed_root := True\<rparr>))
      else if tag = ''param'' then param_start attributes (Ok []) p
      else Ok p)"
| "app_event (XEnd tag) p =
     (if tag = ''rx'' then Ok (p\<lparr>pr_inside_root := False, pr_closed_root := True\<rparr>)
      else if tag = ''cmd'' then command_end p
      else Ok p)"
| "app_event _ p = Ok p"

fun app_events :: "(xml_event, string) result list \<Rightarrow> app_parser \<Rightarrow> (app_parser, app_command_error) result" where
  "app_events [] p = Ok p"
| "app_events (Err e # events) p = Err (MalformedXml e)"
| "app_events (Ok ev # events) p = and_then (app_event ev p) (app_events events)"

definition parse_app_command_response ::
    "(string \<Rightarrow> (xml_event, string) result list) \<Rightarrow> string \<Rightarrow> (app_command_response, app_command_error) result" where
  "parse_app_command_response reader xml =
     (if is_blank xml then Err MissingResponse
      else and_then (app_events (reader xml) app_parser_new) (\<lambda>p.
        if pr_current p \<noteq> None \<or> pr_inside_root p \<or> (pr_saw_root p \<and> \<not> pr_closed_root p)
        then Err (MalformedXml ''AppCommand response contains an unclosed element'')
        else if \<not> pr_saw_root p then Err MissingResponseRoot
        else Ok \<lparr>as_raw_xml = xml, as_commands = pr_commands p\<rparr>))"

section \<open>Information\<close>

definition INFORMATION_COMMANDS :: "string list" where
  "INFORMATION_COMMANDS = [''GetInputSignal'', ''GetActiveSpeaker'', ''GetVideoInfo'', ''GetAudioInfo'', ''GetAudyssyInfo'']"

definition missing_information_commands :: "app_command_response \<Rightarrow> string list" where
  "missing_information_commands r = filter (\<lambda>name. command_named r name = None) INFORMATION_COMMANDS"

definition unavailable_status :: "string \<Rightarrow> 'a field_status" where
  "unavailable_status message = StatusUnavailable \<lparr>fe_kind = KindUnavailable, fe_message = message\<rparr>"

definition text_status :: "app_command_response \<Rightarrow> string \<Rightarrow> string \<Rightarrow> string field_status" where
  "text_status r command parameter =
     (case command_named r command of
        None \<Rightarrow> unavailable_status ''receiver did not return this information''
      | Some c \<Rightarrow>
          (case parameter_named c parameter of
             None \<Rightarrow> unavailable_status ''receiver did not return this value''
           | Some p \<Rightarrow>
               if trimmed_value p = [] then unavailable_status ''receiver returned an empty value''
               else StatusValue (trimmed_value p)))"

definition slot_of :: "app_command_parameter \<Rightarrow> channel_slot option" where
  "slot_of p =
     (if trimmed_value p = [] then None
      else Some \<lparr>sl_label = map to_ascii_uppercase (trimmed_value p),
        sl_state = (if control_code p = Some 2 then SlotActive
          else if control_code p = Some 1 then SlotAvailable
          else if control_code p = Some 0 then SlotAbsent else SlotUnknown)\<rparr>)"

definition slots_status :: "app_command_response \<Rightarrow> string \<Rightarrow> channel_slot list field_status" where
  "slots_status r name =
     (case command_named r name of
        None \<Rightarrow> unavailable_status ''receiver did not return channel layout''
      | Some c \<Rightarrow>
          (let slots = List.map_filter slot_of (ax_parameters c) in
           if slots = [] then unavailable_status ''receiver returned no channel slots'' else StatusValue slots))"

definition parse_http_information :: "app_command_response \<Rightarrow> u64 \<Rightarrow> nat \<Rightarrow> http_information" where
  "parse_http_information r generation now =
     \<lparr>hi_input_slots = slots_status r ''GetInputSignal'', hi_output_slots = slots_status r ''GetActiveSpeaker'',
      hi_audio = \<lparr>ai_input_mode = text_status r ''GetAudioInfo'' ''inputmode'', ai_output = text_status r ''GetAudioInfo'' ''output'',
        ai_signal = text_status r ''GetAudioInfo'' ''signal'', ai_sound = text_status r ''GetAudioInfo'' ''sound'',
        ai_sample_rate = text_status r ''GetAudioInfo'' ''fs''\<rparr>,
      hi_video = \<lparr>vi_monitor = text_status r ''GetVideoInfo'' ''videooutput'', vi_hdmi_input = text_status r ''GetVideoInfo'' ''hdmisigin'',
        vi_hdmi_output = text_status r ''GetVideoInfo'' ''hdmisigout''\<rparr>,
      hi_audyssey = \<lparr>ay_multeq = text_status r ''GetAudyssyInfo'' ''eqvalue'', ay_dynamic_eq = text_status r ''GetAudyssyInfo'' ''dynamiceq'',
        ay_dynamic_volume = text_status r ''GetAudyssyInfo'' ''dynamicvol''\<rparr>,
      hi_freshness = (if missing_information_commands r \<noteq> [] then Partial else Live),
      hi_generation = generation, hi_observed_at = Some now, hi_error = None\<rparr>"

text \<open>
  \<open>read\<close> of the information client: each exchange happens at most once, so its answer is a function of
  the request. The requests are listed as they are sent.
\<close>

record information_answers =
  in_batch :: "(app_command_response, io_error) result"
  in_batch_0301 :: "(app_command_response, io_error) result"
  in_single :: "string \<Rightarrow> (app_command_response, io_error) result"

definition APP_COMMAND_0300_PATH :: string where "APP_COMMAND_0300_PATH = ''/goform/AppCommand0300.xml''"
definition APP_COMMAND_0301_PATH :: string where "APP_COMMAND_0301_PATH = ''/goform/AppCommand0301.xml''"

definition single_request :: "string \<Rightarrow> app_command_request" where
  "single_request command =
     AppCommandRequest
       [if command = ''GetInputSignal'' then INPUT_QUERY
        else if command = ''GetActiveSpeaker'' then OUTPUT_QUERY
        else if command = ''GetVideoInfo'' then VIDEO_QUERY
        else if command = ''GetAudioInfo'' then AUDIO_QUERY
        else if command = ''GetAudyssyInfo'' then AUDYSSEY_QUERY
        else AppCommandQuery command [''unused'']]"

definition add_single :: "(string \<Rightarrow> (app_command_response, io_error) result) \<Rightarrow> app_command_response \<Rightarrow> string \<Rightarrow> app_command_response" where
  "add_single single r command =
     (case single command of
        Ok r' \<Rightarrow> r\<lparr>as_commands := as_commands r @ as_commands r'\<rparr>
      | Err _ \<Rightarrow> r)"

definition read_information ::
    "information_answers \<Rightarrow> u64 \<Rightarrow> nat \<Rightarrow> (string \<times> app_command_request) list \<times> (http_information, io_error) result" where
  "read_information answers generation now =
     (case in_batch answers of
        Err e \<Rightarrow> ([(APP_COMMAND_0300_PATH, audio_information_request)], Err e)
      | Ok first \<Rightarrow>
          (let again = as_commands first = [];
               r = (if again then (case in_batch_0301 answers of Ok second \<Rightarrow> second | Err _ \<Rightarrow> first) else first);
               missing = missing_information_commands r;
               full = foldl (add_single (in_single answers)) r missing in
           ((APP_COMMAND_0300_PATH, audio_information_request)
              # (if again then [(APP_COMMAND_0301_PATH, audio_information_request)] else [])
              @ map (\<lambda>c. (APP_COMMAND_0300_PATH, single_request c)) missing,
            if as_commands full = []
            then Err (io_error_of UnexpectedEof ''receiver returned no HTTP information commands'')
            else Ok (parse_http_information full generation now))))"

text \<open>\<open>parse_app_command_exchange\<close>\<close>

definition app_command_text :: "app_command_error \<Rightarrow> string" where
  "app_command_text e =
     (case e of
        EmptyRequest \<Rightarrow> ''AppCommand request contains no queries''
      | EmptyParameterList \<Rightarrow> ''AppCommand query contains no parameters''
      | InvalidIdentifier kind \<Rightarrow> ''invalid '' @ kind
      | StateChangingQuery \<Rightarrow> ''state-changing AppCommand operation is not a read-only query''
      | MissingResponse \<Rightarrow> ''AppCommand response is empty''
      | MissingResponseRoot \<Rightarrow> ''AppCommand response has no rx root element''
      | MultipleResponseRoots \<Rightarrow> ''AppCommand response has multiple rx root elements''
      | CommandOutsideResponseRoot \<Rightarrow> ''AppCommand response command is outside the rx root element''
      | NestedCommand \<Rightarrow> ''AppCommand response contains nested command elements''
      | ParameterOutsideCommand \<Rightarrow> ''AppCommand response parameter is outside a command''
      | MissingCommandName \<Rightarrow> ''AppCommand response command has no name''
      | DuplicateCommandName \<Rightarrow> ''AppCommand response command has multiple names''
      | MalformedParameter \<Rightarrow> ''AppCommand response contains a malformed parameter''
      | MalformedXml message \<Rightarrow> message)"

definition parse_app_command_exchange ::
    "(string \<Rightarrow> (xml_event, string) result list) \<Rightarrow> raw_http_response \<Rightarrow> (app_command_response, io_error) result" where
  "parse_app_command_exchange reader http =
     (if \<not> (200 \<le> rh_status_code http \<and> rh_status_code http < 300)
      then Err (io_error_of OtherIo (''AppCommand request failed with '' @ rh_status_line http))
      else case parse_app_command_response reader (rh_body http) of
             Err e \<Rightarrow> Err (io_error_of InvalidData (app_command_text e))
           | Ok r \<Rightarrow> Ok r)"

definition execute_and_parse_at ::
    "(xml_out \<Rightarrow> string) \<Rightarrow> (string \<Rightarrow> (xml_event, string) result list) \<Rightarrow> app_command_client \<Rightarrow> http_exchange \<Rightarrow> string
      \<Rightarrow> app_command_request \<Rightarrow> string option \<times> (app_command_response, io_error) result option" where
  "execute_and_parse_at render reader client x path rq =
     (let (sent, outcome) = execute_xml_at client x path (to_xml render rq) in
      (sent, map_option (\<lambda>r. and_then r (parse_app_command_exchange reader)) outcome))"

section \<open>The source catalog\<close>

datatype catalog_error = CatalogXml string | ConflictingEntry string

record catalog_row =
  rw_section :: string
  rw_values :: "(string \<times> string) list"

record row_parser =
  rp_path :: "string list"
  rp_rows :: "catalog_row list"
  rp_row :: "catalog_row option"

text \<open>\<open>append_text\<close>; the path is kept with its last element first.\<close>

definition append_text :: "(string \<Rightarrow> (string, string) result) \<Rightarrow> string \<Rightarrow> row_parser \<Rightarrow> (row_parser, catalog_error) result" where
  "append_text unescape t p =
     (case (rp_row p, rp_path p) of
        (Some row, name # _) \<Rightarrow>
          if name = ''list'' then Ok p
          else (case unescape t of
                  Err e \<Rightarrow> Err (CatalogXml e)
                | Ok decoded \<Rightarrow>
                    let before = (case map_of (rw_values row) name of Some v \<Rightarrow> v | None \<Rightarrow> []) in
                    Ok (p\<lparr>rp_row := Some (row\<lparr>rw_values := bt_insert name (before @ decoded) (rw_values row)\<rparr>)\<rparr>))
      | _ \<Rightarrow> Ok p)"

fun row_event :: "(string \<Rightarrow> (string, string) result) \<Rightarrow> xml_event \<Rightarrow> row_parser \<Rightarrow> (row_parser, catalog_error) result" where
  "row_event unescape (XStart tag attributes inner) p =
     (let name = map to_ascii_lowercase tag; p1 = p\<lparr>rp_path := name # rp_path p\<rparr> in
      Ok (case rp_path p of
            parent # _ \<Rightarrow>
              if name = ''list'' \<and> (parent = ''functionrename'' \<or> parent = ''functiondelete'')
              then p1\<lparr>rp_row := Some \<lparr>rw_section = parent, rw_values = []\<rparr>\<rparr> else p1
          | [] \<Rightarrow> p1))"
| "row_event unescape (XText t) p = append_text unescape t p"
| "row_event unescape (XCData t) p = append_text unescape t p"
| "row_event unescape (XRef entity) p = append_text unescape (''&'' @ entity @ '';'') p"
| "row_event unescape (XEnd tag) p =
     (let p1 = (if map to_ascii_lowercase tag = ''list''
                then (case rp_row p of Some row \<Rightarrow> p\<lparr>rp_rows := rp_rows p @ [row], rp_row := None\<rparr> | None \<Rightarrow> p) else p) in
      Ok (p1\<lparr>rp_path := tl (rp_path p1)\<rparr>))"
| "row_event unescape _ p = Ok p"

fun row_events :: "(string \<Rightarrow> (string, string) result) \<Rightarrow> (xml_event, string) result list \<Rightarrow> row_parser \<Rightarrow> (row_parser, catalog_error) result" where
  "row_events unescape [] p = Ok p"
| "row_events unescape (Err e # events) p = Err (CatalogXml e)"
| "row_events unescape (Ok ev # events) p = and_then (row_event unescape ev p) (row_events unescape events)"

definition xml_rows :: "(string \<Rightarrow> (string, string) result) \<Rightarrow> (xml_event, string) result list \<Rightarrow> (catalog_row list, catalog_error) result" where
  "xml_rows unescape events =
     and_then (row_events unescape events \<lparr>rp_path = [], rp_rows = [], rp_row = None\<rparr>) (\<lambda>p.
       if rp_path p \<noteq> [] then Err (CatalogXml ''unclosed element'') else Ok (rp_rows p))"

type_synonym entry_map = "(string \<times> source_entry) list"

definition row_id :: "catalog_row \<Rightarrow> string \<Rightarrow> string option" where
  "row_id row field =
     (case map_of (rw_values row) field of
        None \<Rightarrow> None
      | Some v \<Rightarrow> if trim v = [] then None else Some (trim v))"

definition entry_or_new :: "string \<Rightarrow> entry_map \<Rightarrow> (source_entry, catalog_error) result" where
  "entry_or_new i m =
     (case source_id_new i of
        Err e \<Rightarrow> Err (CatalogXml e)
      | Ok sid \<Rightarrow>
          Ok (case map_of m i of
                Some e \<Rightarrow> e
              | None \<Rightarrow> \<lparr>se_id = sid, se_display_name = None, se_visibility = VisibilityUnknown\<rparr>))"

definition rename_row :: "catalog_row \<Rightarrow> entry_map \<Rightarrow> (entry_map, catalog_error) result" where
  "rename_row row m =
     (case row_id row ''name'' of
        None \<Rightarrow> Ok m
      | Some i \<Rightarrow>
          and_then (entry_or_new i m) (\<lambda>e.
            case (se_display_name e, row_id row ''rename'') of
              (Some previous, Some label) \<Rightarrow>
                if previous \<noteq> label then Err (ConflictingEntry i) else Ok (bt_insert i e m)
            | (None, Some label) \<Rightarrow> Ok (bt_insert i (e\<lparr>se_display_name := Some label\<rparr>) m)
            | (_, None) \<Rightarrow> Ok (bt_insert i e m)))"

definition row_visibility :: "catalog_row \<Rightarrow> source_visibility" where
  "row_visibility row =
     (case map_of (rw_values row) ''use'' of
        None \<Rightarrow> VisibilityUnknown
      | Some v \<Rightarrow> if trim v = ''0'' then Hidden else if trim v = ''1'' then Shown else VisibilityUnknown)"

definition delete_row :: "catalog_row \<Rightarrow> entry_map \<Rightarrow> (entry_map, catalog_error) result" where
  "delete_row row m =
     (case row_id row ''funcname'' of
        None \<Rightarrow> Ok m
      | Some i \<Rightarrow>
          and_then (entry_or_new i m) (\<lambda>e.
            let visibility = row_visibility row in
            if se_visibility e \<noteq> VisibilityUnknown \<and> visibility \<noteq> VisibilityUnknown \<and> se_visibility e \<noteq> visibility
            then Err (ConflictingEntry i)
            else Ok (bt_insert i (if visibility \<noteq> VisibilityUnknown then e\<lparr>se_visibility := visibility\<rparr> else e) m)))"

fun catalog_rows :: "catalog_row list \<Rightarrow> entry_map \<Rightarrow> (entry_map, catalog_error) result" where
  "catalog_rows [] m = Ok m"
| "catalog_rows (row # rows) m =
     and_then (if rw_section row = ''functionrename'' then rename_row row m
               else if rw_section row = ''functiondelete'' then delete_row row m else Ok m) (catalog_rows rows)"

definition parse_source_catalog ::
    "(string \<Rightarrow> (string, string) result) \<Rightarrow> (xml_event, string) result list \<Rightarrow> (source_entry list \<times> catalog_response, catalog_error) result" where
  "parse_source_catalog unescape events =
     and_then (xml_rows unescape events) (\<lambda>rows.
       and_then (catalog_rows rows []) (\<lambda>m.
         let saw_rename = list_ex (\<lambda>r. rw_section r = ''functionrename'') rows;
             saw_delete = list_ex (\<lambda>r. rw_section r = ''functiondelete'') rows in
         Ok (map snd m, if saw_rename \<and> saw_delete then CatalogComplete
                        else if saw_rename \<or> saw_delete then CatalogPartial else CatalogUnsupported)))"

definition catalog_error_text :: "catalog_error \<Rightarrow> string" where
  "catalog_error_text e =
     (case e of
        CatalogXml message \<Rightarrow> ''malformed source catalog XML: '' @ message
      | ConflictingEntry i \<Rightarrow> ''conflicting source catalog entry for '' @ i)"

definition SOURCE_CATALOG_REQUEST_XML :: string where
  "SOURCE_CATALOG_REQUEST_XML =
     ''<?xml version='' @ [CHR 0x22] @ ''1.0'' @ [CHR 0x22] @ '' encoding='' @ [CHR 0x22] @ ''utf-8'' @ [CHR 0x22] @ ''?>'' @ [LF]
     @ ''<tx>'' @ [LF] @ ''<cmd id='' @ [CHR 0x22] @ ''1'' @ [CHR 0x22] @ ''>GetRenameSource</cmd>'' @ [LF]
     @ ''<cmd id='' @ [CHR 0x22] @ ''1'' @ [CHR 0x22] @ ''>GetDeletedSource</cmd>'' @ [LF] @ ''</tx>''"

definition catalog_from :: "(string \<Rightarrow> (string, string) result) \<Rightarrow> (string \<Rightarrow> (xml_event, string) result list) \<Rightarrow> u64 \<Rightarrow> nat
      \<Rightarrow> raw_http_response \<Rightarrow> (catalog_observation, io_error) result" where
  "catalog_from unescape reader generation now http =
     (case parse_source_catalog unescape (reader (rh_body http)) of
        Err e \<Rightarrow> Err (io_error_of InvalidData (catalog_error_text e))
      | Ok (entries, evidence) \<Rightarrow>
          Ok \<lparr>co_catalog = \<lparr>sc_entries = entries,
                 sc_freshness = (if evidence = CatalogComplete then Live else if evidence = CatalogPartial then Partial else FreshUnknown),
                 sc_generation = generation, sc_observed_at = Some now, sc_error = None\<rparr>,
               co_raw_response = rh_body http, co_response = evidence\<rparr>)"

definition read_source_catalog ::
    "(string \<Rightarrow> (string, string) result) \<Rightarrow> (string \<Rightarrow> (xml_event, string) result list) \<Rightarrow> app_command_client \<Rightarrow> http_exchange \<Rightarrow> u64 \<Rightarrow> nat
      \<Rightarrow> string option \<times> (catalog_observation, io_error) result option" where
  "read_source_catalog unescape reader client x generation now =
     (let (sent, outcome) = execute_xml_at client x ''/goform/AppCommand.xml'' SOURCE_CATALOG_REQUEST_XML in
      (sent, map_option (\<lambda>r. and_then r (catalog_from unescape reader generation now)) outcome))"

section \<open>Quick Select names\<close>

datatype names_error = NamesXml string | NamesMissingResponse

record parsed_names =
  pn_names :: "string option list"
  pn_sources :: "string option list"
  pn_complete :: bool

definition indexed_field :: "string \<Rightarrow> string \<Rightarrow> nat option" where
  "indexed_field tag pre =
     (case strip_prefix pre tag of
        None \<Rightarrow> None
      | Some number \<Rightarrow>
          (case parse_unsigned USIZE_MAX number of
             None \<Rightarrow> None
           | Some n \<Rightarrow> if 1 \<le> n \<and> n \<le> 4 then Some (n - 1) else None))"

record names_parser =
  np_names :: "string option list"
  np_sources :: "string option list"
  np_current :: "(bool \<times> nat) option"
  np_saw_root :: bool
  np_saw_command :: bool

fun names_event :: "xml_event \<Rightarrow> names_parser \<Rightarrow> (names_parser, names_error) result" where
  "names_event (XStart tag attributes inner) p =
     (if tag = ''rx'' then (if np_saw_root p then Err (NamesXml ''duplicate rx root'') else Ok (p\<lparr>np_saw_root := True\<rparr>))
      else if tag = ''cmd'' then
        (if \<not> np_saw_root p \<or> np_saw_command p then Err (NamesXml ''unexpected cmd element'') else Ok (p\<lparr>np_saw_command := True\<rparr>))
      else case indexed_field tag ''Name'' of
             Some i \<Rightarrow> Ok (p\<lparr>np_current := Some (True, i)\<rparr>)
           | None \<Rightarrow> (case indexed_field tag ''Source'' of
               Some i \<Rightarrow> Ok (p\<lparr>np_current := Some (False, i)\<rparr>)
             | None \<Rightarrow> Ok p))"
| "names_event (XText t) p =
     Ok (case np_current p of
           None \<Rightarrow> p
         | Some (True, i) \<Rightarrow> p\<lparr>np_names := (np_names p)[i := Some t]\<rparr>
         | Some (False, i) \<Rightarrow> p\<lparr>np_sources := (np_sources p)[i := Some t]\<rparr>)"
| "names_event (XEnd tag) p =
     Ok (if tag = ''rx'' then p\<lparr>np_saw_root := False\<rparr>
         else if tag = ''cmd'' \<or> indexed_field tag ''Name'' \<noteq> None \<or> indexed_field tag ''Source'' \<noteq> None
         then p\<lparr>np_current := None\<rparr> else p)"
| "names_event _ p = Ok p"

fun names_events :: "(xml_event, string) result list \<Rightarrow> names_parser \<Rightarrow> (names_parser, names_error) result" where
  "names_events [] p = Ok p"
| "names_events (Err e # events) p = Err (NamesXml e)"
| "names_events (Ok ev # events) p = and_then (names_event ev p) (names_events events)"

definition names_parser_new :: names_parser where
  "names_parser_new =
     \<lparr>np_names = replicate 4 None, np_sources = replicate 4 None, np_current = None, np_saw_root = False, np_saw_command = False\<rparr>"

definition parse_quick_select_names ::
    "(string \<Rightarrow> (xml_event, string) result list) \<Rightarrow> string \<Rightarrow> (parsed_names, names_error) result" where
  "parse_quick_select_names reader xml =
     (if is_blank xml then Err NamesMissingResponse
      else and_then (names_events (reader xml) names_parser_new) (\<lambda>p.
        if \<not> np_saw_command p then Err (NamesXml ''response has no cmd'')
        else Ok \<lparr>pn_names = np_names p, pn_sources = np_sources p, pn_complete = list_all (\<lambda>n. n \<noteq> None) (np_names p)\<rparr>))"

definition names_error_text :: "names_error \<Rightarrow> string" where
  "names_error_text e =
     (case e of
        NamesXml message \<Rightarrow> ''malformed Quick Select name XML: '' @ message
      | NamesMissingResponse \<Rightarrow> ''Quick Select name response is empty'')"

definition shown_name :: "string option \<Rightarrow> (quick_select_name option, string) result" where
  "shown_name v =
     (case v of
        None \<Rightarrow> Ok None
      | Some t \<Rightarrow> if trim t = [] then Ok None else and_then (quick_select_name_new (trim t)) (\<lambda>n. Ok (Some n)))"

definition names_from :: "(string \<Rightarrow> (xml_event, string) result list) \<Rightarrow> u64 \<Rightarrow> nat \<Rightarrow> raw_http_response \<Rightarrow> (quick_select_names, io_error) result" where
  "names_from reader generation now http =
     (case parse_quick_select_names reader (rh_body http) of
        Err e \<Rightarrow> Err (io_error_of InvalidData (names_error_text e))
      | Ok parsed \<Rightarrow>
          (case traverse shown_name (pn_names parsed) of
             Err e \<Rightarrow> Err (io_error_of InvalidData e)
           | Ok names \<Rightarrow>
               Ok \<lparr>qn_names = names, qn_sources = map (map_option trim) (pn_sources parsed),
                   qn_freshness = (if pn_complete parsed then Live else Partial), qn_generation = generation,
                   qn_observed_at = Some now, qn_error = None, qn_raw_response = rh_body http,
                   qn_response = (if pn_complete parsed then NamesComplete else NamesPartial)\<rparr>))"

definition NAMES_REQUEST_XML :: string where
  "NAMES_REQUEST_XML =
     ''<?xml version='' @ [CHR 0x22] @ ''1.0'' @ [CHR 0x22] @ '' encoding='' @ [CHR 0x22] @ ''utf-8'' @ [CHR 0x22] @ ''?>'' @ [LF]
     @ ''<tx>'' @ [LF] @ ''<cmd id='' @ [CHR 0x22] @ ''1'' @ [CHR 0x22] @ ''>GetQuickSelectName</cmd>'' @ [LF] @ ''</tx>''"

definition read_quick_select_names ::
    "(string \<Rightarrow> (xml_event, string) result list) \<Rightarrow> app_command_client \<Rightarrow> http_exchange \<Rightarrow> u64 \<Rightarrow> nat
      \<Rightarrow> string option \<times> (quick_select_names, io_error) result option" where
  "read_quick_select_names reader client x generation now =
     (let (sent, outcome) = execute_xml_at client x ''/goform/AppCommand.xml'' NAMES_REQUEST_XML in
      (sent, map_option (\<lambda>r. and_then r (names_from reader generation now)) outcome))"

end
