(* ===== verification/App_Command_Properties.thy ===== *)
theory App_Command_Properties
  imports App_Command
begin

text \<open>What the readers over HTTP ask, what they read back, and what hides a source.\<close>

section \<open>Requests\<close>

definition read_only :: "app_command_query \<Rightarrow> bool" where
  "read_only q \<longleftrightarrow> query_new (aq_name q) (aq_parameters q) = Ok q"

lemma traverse_validated: "traverse (\<lambda>p. validated_identifier p k) ps = Ok qs \<Longrightarrow> qs = ps"
  by (induction ps arbitrary: qs) (auto simp: validated_identifier_def and_then_def split: if_splits sum.splits)

lemma query_new_read_only:
  assumes "query_new name parameters = Ok q"
  shows "read_only q \<and> starts_with (aq_name q) ''Get''"
proof -
  obtain ps where ps: "traverse (\<lambda>p. validated_identifier p ''parameter name'') parameters = Ok ps"
    and q: "q = AppCommandQuery name ps" "starts_with name ''Get''"
    using assms by (auto simp: query_new_def validated_identifier_def and_then_def split: if_splits sum.splits)
  with traverse_validated [OF ps] assms show ?thesis by (simp add: read_only_def)
qed

lemma known_queries:
  "list_all read_only [INPUT_QUERY, OUTPUT_QUERY, VIDEO_QUERY, AUDIO_QUERY, AUDYSSEY_QUERY]"
  by code_simp

lemma single_request_known:
  "c \<in> set INFORMATION_COMMANDS \<Longrightarrow> set (ar_queries (single_request c)) \<subseteq> {INPUT_QUERY, OUTPUT_QUERY, VIDEO_QUERY, AUDIO_QUERY, AUDYSSEY_QUERY}
    \<and> map aq_name (ar_queries (single_request c)) = [c]"
  by (auto simp: INFORMATION_COMMANDS_def single_request_def INPUT_QUERY_def OUTPUT_QUERY_def VIDEO_QUERY_def
      AUDIO_QUERY_def AUDYSSEY_QUERY_def)

text \<open>
  C39. Reading the information of a receiver changes nothing on it and ends: at most seven requests are
  sent, none of them empty, and every query in them is one the read-only constructor accepts, its name
  beginning with Get.
\<close>

theorem information_read_only:
  "length (fst (read_information answers generation now)) \<le> 7
    \<and> (\<forall>(path, rq) \<in> set (fst (read_information answers generation now)).
        ar_queries rq \<noteq> [] \<and> (\<forall>q \<in> set (ar_queries rq). read_only q \<and> starts_with (aq_name q) ''Get''))"
proof -
  have get: "starts_with (aq_name q) ''Get''" if "read_only q" for q
    using that query_new_read_only unfolding read_only_def by blast
  have batch: "ar_queries audio_information_request \<noteq> []" "\<forall>q \<in> set (ar_queries audio_information_request). read_only q"
    using known_queries by (auto simp: audio_information_request_def)
  have single: "ar_queries (single_request c) \<noteq> [] \<and> (\<forall>q \<in> set (ar_queries (single_request c)). read_only q)"
    if "c \<in> set INFORMATION_COMMANDS" for c
    using single_request_known [OF that] known_queries by (auto simp: list_all_iff)
  have missing: "set (missing_information_commands r) \<subseteq> set INFORMATION_COMMANDS"
    "length (missing_information_commands r) \<le> 5" for r
    using length_filter_le [of "\<lambda>name. command_named r name = None" INFORMATION_COMMANDS]
    by (auto simp: missing_information_commands_def INFORMATION_COMMANDS_def)
  show ?thesis
  proof (cases "in_batch answers")
    case (Inr first)
    define r where "r = (if as_commands first = []
      then (case in_batch_0301 answers of Ok second \<Rightarrow> second | Err _ \<Rightarrow> first) else first)"
    have "fst (read_information answers generation now) =
        (APP_COMMAND_0300_PATH, audio_information_request)
        # (if as_commands first = [] then [(APP_COMMAND_0301_PATH, audio_information_request)] else [])
        @ map (\<lambda>c. (APP_COMMAND_0300_PATH, single_request c)) (missing_information_commands r)"
      by (simp add: read_information_def Inr Let_def r_def)
    with batch single missing [of r] get show ?thesis by (auto split: if_splits)
  qed (use batch get in \<open>auto simp: read_information_def\<close>)
qed

section \<open>Answers\<close>

text \<open>Events between the elements that count: text, other elements, declarations.\<close>

fun noise :: "xml_event \<Rightarrow> bool" where
  "noise (XStart tag _ _) = (tag \<notin> {''rx'', ''cmd'', ''name'', ''param''})"
| "noise (XEmpty tag _) = (tag \<notin> {''rx'', ''param''})"
| "noise (XEnd tag) = (tag \<notin> {''rx'', ''cmd''})"
| "noise _ = True"

inductive parameter_events :: "xml_event list \<Rightarrow> app_command_parameter list \<Rightarrow> bool" where
  no_parameter: "parameter_events [] []"
| parameter_noise: "noise ev \<Longrightarrow> parameter_events evs ps \<Longrightarrow> parameter_events (ev # evs) ps"
| parameter_event: "parameter_attributes attributes = Ok (ap_name p, ap_attributes p) \<Longrightarrow> parameter_events evs ps \<Longrightarrow>
    parameter_events (XStart ''param'' attributes (Ok (ap_value p)) # evs) (p # ps)"

inductive command_events :: "xml_event list \<Rightarrow> app_command_result list \<Rightarrow> bool" where
  no_command: "command_events [] []"
| command_noise: "noise ev \<Longrightarrow> command_events evs cs \<Longrightarrow> command_events (ev # evs) cs"
| command_event: "list_all noise before \<Longrightarrow> parameter_events inner (ax_parameters c) \<Longrightarrow> trim padded = ax_name c \<Longrightarrow> ax_name c \<noteq> [] \<Longrightarrow>
    command_events evs cs \<Longrightarrow>
    command_events (XStart ''cmd'' a t # before @ XStart ''name'' a' (Ok padded) # inner @ XEnd ''cmd'' # evs) (c # cs)"

lemma app_event_noise: "noise ev \<Longrightarrow> app_event ev p = Ok p"
  by (cases ev) auto

lemma app_events_noise: "list_all noise before \<Longrightarrow> app_events (map Ok before @ evs) p = app_events evs p"
  by (induction before) (auto simp: app_event_noise)

lemma app_events_parameters:
  "parameter_events inner ps \<Longrightarrow> pr_current p = Some (name, qs) \<Longrightarrow>
    app_events (map Ok inner @ evs) p = app_events evs (p\<lparr>pr_current := Some (name, qs @ ps)\<rparr>)"
proof (induction inner ps arbitrary: p qs rule: parameter_events.induct)
  case no_parameter
  then have "p\<lparr>pr_current := Some (name, qs @ [])\<rparr> = p" by simp
  then show ?case by simp
next
  case (parameter_event attributes q evs' ps)
  let ?p = "p\<lparr>pr_current := Some (name, qs @ [q])\<rparr>"
  have "app_event (XStart ''param'' attributes (Ok (ap_value q))) p = Ok ?p"
    using parameter_event(1,4) by (cases q) (simp add: param_start_def)
  moreover have "app_events (map Ok evs' @ evs) ?p = app_events evs (?p\<lparr>pr_current := Some (name, (qs @ [q]) @ ps)\<rparr>)"
    by (rule parameter_event.IH) simp
  ultimately show ?case by simp
qed (simp add: app_event_noise)

lemma app_events_commands:
  "command_events inner cs \<Longrightarrow> pr_inside_root p \<Longrightarrow> pr_current p = None \<Longrightarrow>
    app_events (map Ok inner @ evs) p = app_events evs (p\<lparr>pr_commands := pr_commands p @ cs\<rparr>)"
proof (induction inner cs arbitrary: p rule: command_events.induct)
  case no_command
  then show ?case by simp
next
  case (command_event before inner c padded evs' cs a t a')
  let ?p = "p\<lparr>pr_current := Some (None, [])\<rparr>"
  let ?q = "p\<lparr>pr_current := Some (Some (ax_name c), [])\<rparr>"
  let ?r = "p\<lparr>pr_current := Some (Some (ax_name c), ax_parameters c)\<rparr>"
  let ?s = "p\<lparr>pr_current := None, pr_commands := pr_commands p @ [c]\<rparr>"
  have s: "?s = p\<lparr>pr_commands := pr_commands p @ [c]\<rparr>" using command_event.prems by (cases p) simp
  have start: "app_event (XStart ''cmd'' a t) p = Ok ?p" using command_event.prems by (simp add: command_start_def)
  have name: "app_event (XStart ''name'' a' (Ok padded)) ?p = Ok ?q" using command_event(3) by (simp add: name_start_def)
  have "app_event (XEnd ''cmd'') ?r = Ok ?s"
    using command_event(4) by (cases c) (simp add: command_end_def builder_finish_def)
  then have "app_events (map Ok (XStart ''cmd'' a t # before @ XStart ''name'' a' (Ok padded) # inner @ XEnd ''cmd'' # evs') @ evs) p
      = app_events (map Ok evs' @ evs) ?s"
    using start name app_events_noise [OF command_event(1)] app_events_parameters [OF command_event(2), of ?q] by simp
  also have "\<dots> = app_events evs (?s\<lparr>pr_commands := pr_commands ?s @ cs\<rparr>)"
    using command_event.prems by (intro command_event.IH) simp_all
  finally show ?case by (simp add: s)
qed (simp add: app_event_noise)

text \<open>
  C24. An answer with any number of commands and parameters, and with text, comments or unknown elements
  anywhere between them, is read back as exactly those commands, in order, each value as it was sent.
\<close>

theorem app_command_reads_back:
  assumes "\<not> is_blank xml" "list_all noise before" "command_events inner cs" "list_all noise after"
    and "reader xml = map Ok (before @ XStart ''rx'' a t # inner @ XEnd ''rx'' # after)"
  shows "parse_app_command_response reader xml = Ok \<lparr>as_raw_xml = xml, as_commands = cs\<rparr>"
proof -
  let ?p = "app_parser_new\<lparr>pr_saw_root := True, pr_inside_root := True\<rparr>"
  have root: "app_event (XStart ''rx'' a t) app_parser_new = Ok ?p" by (simp add: root_start_def app_parser_new_def)
  have "app_events (reader xml) app_parser_new
      = app_events (map Ok (XEnd ''rx'' # after)) (?p\<lparr>pr_commands := pr_commands ?p @ cs\<rparr>)"
    unfolding assms(5)
    using app_events_noise [OF assms(2)] root app_events_commands [OF assms(3), of ?p "map Ok (XEnd ''rx'' # after)"]
    by (simp add: app_parser_new_def)
  then show ?thesis
    using assms(1) app_events_noise [OF assms(4), of "[]"] by (simp add: parse_app_command_response_def app_parser_new_def)
qed

section \<open>The source catalog\<close>

definition says :: "catalog_row list \<Rightarrow> string \<Rightarrow> source_visibility \<Rightarrow> bool" where
  "says rows i v \<longleftrightarrow>
     (\<exists>row \<in> set rows. rw_section row = ''functiondelete'' \<and> row_id row ''funcname'' = Some i \<and> row_visibility row = v)"

definition names_label :: "catalog_row list \<Rightarrow> string \<Rightarrow> string \<Rightarrow> bool" where
  "names_label rows i label \<longleftrightarrow>
     (\<exists>row \<in> set rows. rw_section row = ''functionrename'' \<and> row_id row ''name'' = Some i \<and> row_id row ''rename'' = Some label)"

text \<open>What is known of one source after some rows.\<close>

definition entry_of_rows :: "catalog_row list \<Rightarrow> string \<Rightarrow> source_entry \<Rightarrow> bool" where
  "entry_of_rows rows i e \<longleftrightarrow> source_id_str (se_id e) = i
     \<and> (\<forall>v. v \<noteq> VisibilityUnknown \<longrightarrow> (se_visibility e = v \<longleftrightarrow> says rows i v))
     \<and> (\<forall>label. se_display_name e = Some label \<longleftrightarrow> names_label rows i label)"

definition rows_inv :: "catalog_row list \<Rightarrow> entry_map \<Rightarrow> bool" where
  "rows_inv rows m \<longleftrightarrow> bt_wf m
     \<and> (\<forall>i. map_of m i = None \<longrightarrow> (\<forall>v. v \<noteq> VisibilityUnknown \<longrightarrow> \<not> says rows i v) \<and> (\<forall>label. \<not> names_label rows i label))
     \<and> (\<forall>i e. map_of m i = Some e \<longrightarrow> entry_of_rows rows i e)"

lemma says_snoc: "says (rows @ [row]) i v \<longleftrightarrow> says rows i v
    \<or> rw_section row = ''functiondelete'' \<and> row_id row ''funcname'' = Some i \<and> row_visibility row = v"
  by (auto simp: says_def)

lemma names_label_snoc: "names_label (rows @ [row]) i label \<longleftrightarrow> names_label rows i label
    \<or> rw_section row = ''functionrename'' \<and> row_id row ''name'' = Some i \<and> row_id row ''rename'' = Some label"
  by (auto simp: names_label_def)

lemma entry_or_new_Ok:
  assumes "entry_or_new i m = Ok e" "rows_inv rows m"
  shows "entry_of_rows rows i e"
proof (cases "map_of m i")
  case None
  then show ?thesis
    using assms by (auto simp: entry_or_new_def rows_inv_def entry_of_rows_def source_id_new_def split: if_splits)
next
  case (Some e')
  then show ?thesis using assms by (auto simp: entry_or_new_def rows_inv_def split: sum.splits)
qed

lemma rows_inv_insert:
  assumes "rows_inv rows m" "entry_of_rows (rows @ [row]) i e"
    and "\<And>j v. j \<noteq> i \<Longrightarrow> v \<noteq> VisibilityUnknown \<Longrightarrow> says (rows @ [row]) j v = says rows j v"
    and "\<And>j label. j \<noteq> i \<Longrightarrow> names_label (rows @ [row]) j label = names_label rows j label"
  shows "rows_inv (rows @ [row]) (bt_insert i e m)"
  using assms by (auto simp: rows_inv_def bt_wf_insert entry_of_rows_def)

lemma rows_inv_same:
  assumes "rows_inv rows m"
    and "\<And>j v. v \<noteq> VisibilityUnknown \<Longrightarrow> says (rows @ [row]) j v = says rows j v"
    and "\<And>j label. names_label (rows @ [row]) j label = names_label rows j label"
  shows "rows_inv (rows @ [row]) m"
  using assms by (auto simp: rows_inv_def entry_of_rows_def)

lemma rename_row_inv:
  assumes "rename_row row m = Ok m'" "rows_inv rows m" "rw_section row = ''functionrename''"
  shows "rows_inv (rows @ [row]) m'"
proof (cases "row_id row ''name''")
  case None
  then show ?thesis
    using assms by (intro rows_inv_same) (auto simp: rename_row_def says_snoc names_label_snoc)
next
  case (Some i)
  then obtain e where e: "entry_or_new i m = Ok e"
    using assms(1) by (auto simp: rename_row_def and_then_def split: sum.splits)
  have old: "entry_of_rows rows i e" by (rule entry_or_new_Ok [OF e assms(2)])
  define e' where "e' = (case row_id row ''rename'' of None \<Rightarrow> e | Some label \<Rightarrow> e\<lparr>se_display_name := Some label\<rparr>)"
  have same: "e\<lparr>se_display_name := Some a\<rparr> = e" if "se_display_name e = Some a" for a
    using that by (cases e) simp
  have m': "m' = bt_insert i e' m"
    and agree: "se_display_name e = None \<or> row_id row ''rename'' = None \<or> se_display_name e = row_id row ''rename''"
    using assms(1) Some e by (auto simp: rename_row_def e'_def same split: option.splits if_splits)
  have says: "says (rows @ [row]) i v = says rows i v" for v
    using assms(3) by (simp add: says_snoc)
  have labels: "names_label (rows @ [row]) i label \<longleftrightarrow> names_label rows i label \<or> row_id row ''rename'' = Some label" for label
    using assms(3) Some by (simp add: names_label_snoc)
  have new: "entry_of_rows (rows @ [row]) i e'"
    using old agree unfolding entry_of_rows_def says labels e'_def
    by (cases "row_id row ''rename''"; cases "se_display_name e") (auto, metis)
  show ?thesis
    unfolding m' using assms(2,3) new Some by (intro rows_inv_insert) (auto simp: says_snoc names_label_snoc)
qed

lemma delete_row_inv:
  assumes "delete_row row m = Ok m'" "rows_inv rows m" "rw_section row = ''functiondelete''"
  shows "rows_inv (rows @ [row]) m'"
proof (cases "row_id row ''funcname''")
  case None
  then show ?thesis
    using assms by (intro rows_inv_same) (auto simp: delete_row_def says_snoc names_label_snoc)
next
  case (Some i)
  then obtain e where e: "entry_or_new i m = Ok e"
    using assms(1) by (auto simp: delete_row_def and_then_def split: sum.splits)
  have old: "entry_of_rows rows i e" by (rule entry_or_new_Ok [OF e assms(2)])
  let ?v = "row_visibility row"
  define e' where "e' = (if ?v \<noteq> VisibilityUnknown then e\<lparr>se_visibility := ?v\<rparr> else e)"
  have m': "m' = bt_insert i e' m"
    and agree: "se_visibility e = VisibilityUnknown \<or> ?v = VisibilityUnknown \<or> se_visibility e = ?v"
    using assms(1) Some e by (auto simp: delete_row_def e'_def Let_def split: if_splits)
  have says: "says (rows @ [row]) i v \<longleftrightarrow> says rows i v \<or> ?v = v" for v
    using assms(3) Some by (simp add: says_snoc)
  have labels: "names_label (rows @ [row]) i label = names_label rows i label" for label
    using assms(3) by (simp add: names_label_snoc)
  have new: "entry_of_rows (rows @ [row]) i e'"
    using old agree unfolding entry_of_rows_def says labels e'_def by (cases "?v = VisibilityUnknown") (simp, auto, metis)
  show ?thesis
    unfolding m' using assms(2,3) new Some by (intro rows_inv_insert) (auto simp: says_snoc names_label_snoc)
qed

lemma catalog_rows_inv: "catalog_rows rows m = Ok m' \<Longrightarrow> rows_inv before m \<Longrightarrow> rows_inv (before @ rows) m'"
proof (induction rows arbitrary: before m)
  case (Cons row rows)
  let ?step = "if rw_section row = ''functionrename'' then rename_row row m
    else if rw_section row = ''functiondelete'' then delete_row row m else Ok m"
  obtain m1 where m1: "?step = Ok m1" "catalog_rows rows m1 = Ok m'"
    using Cons.prems(1) by (cases ?step) auto
  have "rows_inv (before @ [row]) m1"
  proof -
    consider "rw_section row = ''functionrename''" | "rw_section row = ''functiondelete''"
      | "rw_section row \<noteq> ''functionrename''" "rw_section row \<noteq> ''functiondelete''" by blast
    then show ?thesis
    proof cases
      case 1
      then show ?thesis using m1(1) Cons.prems(2) by (auto intro: rename_row_inv)
    next
      case 2
      then show ?thesis using m1(1) Cons.prems(2) by (auto intro: delete_row_inv)
    next
      case 3
      then show ?thesis using m1(1) Cons.prems(2) by (intro rows_inv_same) (auto simp: says_snoc names_label_snoc)
    qed
  qed
  from Cons.IH [OF m1(2) this] show ?case by simp
qed simp

text \<open>
  A source is hidden exactly when the receiver said so and shown exactly when it said so: a missing,
  empty or malformed row never hides one. A label is one the receiver gave, and an answer that says two
  things of one source is refused.
\<close>

theorem source_hidden_on_evidence:
  assumes "xml_rows unescape events = Ok rows" "parse_source_catalog unescape events = Ok (entries, evidence)" "e \<in> set entries"
  shows "(se_visibility e = Hidden \<longleftrightarrow> says rows (source_id_str (se_id e)) Hidden)
    \<and> (se_visibility e = Shown \<longleftrightarrow> says rows (source_id_str (se_id e)) Shown)
    \<and> (\<forall>label. se_display_name e = Some label \<longleftrightarrow> names_label rows (source_id_str (se_id e)) label)"
proof -
  obtain m where m: "catalog_rows rows [] = Ok m" "entries = map snd m"
    using assms(1,2) by (auto simp: parse_source_catalog_def and_then_def Let_def split: sum.splits)
  have "rows_inv [] []" by (simp add: rows_inv_def says_def names_label_def)
  from catalog_rows_inv [OF m(1) this] have inv: "rows_inv rows m" by simp
  from assms(3) obtain i where "(i, e) \<in> set m" by (auto simp: m(2))
  moreover have "distinct (map fst m)" using inv by (simp add: rows_inv_def bt_wf_def strict_sorted_iff)
  ultimately have "map_of m i = Some e" by simp
  with inv have "entry_of_rows rows i e" by (simp add: rows_inv_def)
  then show ?thesis by (auto simp: entry_of_rows_def)
qed

section \<open>Quick Select names\<close>

text \<open>
  The reader of names keeps the last text of an element only: a name with a reference in it, which the
  library gives as an event of its own, loses what is before the reference.
\<close>

lemma name_cut_at_reference:
  "parse_quick_select_names (\<lambda>_. map Ok [XStart ''rx'' [] (Ok []), XStart ''cmd'' [] (Ok []), XStart ''Name1'' [] (Ok []),
      XText ''Film '', XRef ''amp'', XText '' TV'', XEnd ''Name1'', XEnd ''cmd'', XEnd ''rx'']) ''<rx/>''
   = Ok \<lparr>pn_names = [Some '' TV'', None, None, None], pn_sources = [None, None, None, None], pn_complete = False\<rparr>"
proof -
  have i: "indexed_field ''Name1'' ''Name'' = Some 0"
    by (simp add: indexed_field_def USIZE_MAX_def text_defs)
  have "\<not> is_blank ''<rx/>''" by (simp add: text_defs)
  then show ?thesis
    by (simp add: parse_quick_select_names_def names_parser_new_def i numeral_eq_Suc)
qed

section \<open>Witnesses\<close>

definition example_parameter :: app_command_parameter where
  "example_parameter = \<lparr>ap_name = ''fs'', ap_attributes = [(''control'', ''1'')], ap_value = ''48 kHz  ''\<rparr>"

definition example_result :: app_command_result where
  "example_result = \<lparr>ax_name = ''GetAudioInfo'', ax_parameters = [example_parameter]\<rparr>"

theorem app_command_reads_back_witness:
  "parse_app_command_response
     (\<lambda>_. map Ok ([XOther] @ XStart ''rx'' [] (Ok []) #
        [XStart ''cmd'' [] (Ok []), XStart ''name'' [] (Ok '' GetAudioInfo''), XStart ''list'' [] (Ok []),
         XStart ''param'' [Ok (''name'', ''fs''), Ok (''control'', ''1'')] (Ok ''48 kHz  ''), XEnd ''list'', XEnd ''cmd'']
        @ XEnd ''rx'' # [])) ''<rx/>''
   = Ok \<lparr>as_raw_xml = ''<rx/>'', as_commands = [example_result]\<rparr>"
proof (rule app_command_reads_back [where before = "[XOther]" and after = "[]" and a = "[]" and t = "Ok []"])
  show "\<not> is_blank ''<rx/>''" by (simp add: text_defs)
  have attributes: "parameter_attributes [Ok (''name'', ''fs''), Ok (''control'', ''1'')] = Ok (ap_name example_parameter, ap_attributes example_parameter)"
    by code_simp
  have inner: "parameter_events [XStart ''list'' [] (Ok []), XStart ''param'' [Ok (''name'', ''fs''), Ok (''control'', ''1'')] (Ok ''48 kHz  ''), XEnd ''list'']
      (ax_parameters example_result)"
    using parameter_event [OF attributes parameter_noise [OF _ no_parameter, of "XEnd ''list''"]]
    by (auto intro: parameter_noise simp: example_result_def example_parameter_def)
  have "trim '' GetAudioInfo'' = ax_name example_result" by code_simp
  from command_event [OF _ inner this _ no_command, of "[]" "[]" "Ok []" "[]"]
  show "command_events [XStart ''cmd'' [] (Ok []), XStart ''name'' [] (Ok '' GetAudioInfo''), XStart ''list'' [] (Ok []),
         XStart ''param'' [Ok (''name'', ''fs''), Ok (''control'', ''1'')] (Ok ''48 kHz  ''), XEnd ''list'', XEnd ''cmd''] [example_result]"
    by (simp add: example_result_def)
qed simp_all

definition example_catalog :: "(xml_event, string) result list" where
  "example_catalog = map Ok
     [XStart ''rx'' [] (Ok []), XStart ''functionrename'' [] (Ok []), XStart ''list'' [] (Ok []),
      XStart ''name'' [] (Ok []), XText ''GAME'', XEnd ''name'', XStart ''rename'' [] (Ok []), XText ''Films '', XEnd ''rename'',
      XEnd ''list'', XEnd ''functionrename'', XStart ''functiondelete'' [] (Ok []), XStart ''list'' [] (Ok []),
      XStart ''FuncName'' [] (Ok []), XText ''GAME'', XEnd ''FuncName'', XStart ''use'' [] (Ok []), XText ''0'', XEnd ''use'',
      XEnd ''list'', XStart ''list'' [] (Ok []), XStart ''FuncName'' [] (Ok []), XText ''CD'', XEnd ''FuncName'',
      XStart ''use'' [] (Ok []), XText ''x'', XEnd ''use'', XEnd ''list'', XEnd ''functiondelete'', XEnd ''rx'']"

definition example_rows :: "catalog_row list" where
  "example_rows =
     [\<lparr>rw_section = ''functionrename'', rw_values = [(''name'', ''GAME''), (''rename'', ''Films '')]\<rparr>,
      \<lparr>rw_section = ''functiondelete'', rw_values = [(''funcname'', ''GAME''), (''use'', ''0'')]\<rparr>,
      \<lparr>rw_section = ''functiondelete'', rw_values = [(''funcname'', ''CD''), (''use'', ''x'')]\<rparr>]"

theorem source_hidden_on_evidence_witness:
  "(Hidden = Hidden \<longleftrightarrow> says example_rows ''GAME'' Hidden) \<and> (Hidden = Shown \<longleftrightarrow> says example_rows ''GAME'' Shown)
    \<and> (\<forall>label. Some ''Films'' = Some label \<longleftrightarrow> names_label example_rows ''GAME'' label)"
proof -
  let ?e = "\<lparr>se_id = SourceId ''GAME'', se_display_name = Some ''Films'', se_visibility = Hidden\<rparr>"
  have rows: "xml_rows Ok example_catalog = Ok example_rows" by code_simp
  have "parse_source_catalog Ok example_catalog
      = Ok ([\<lparr>se_id = SourceId ''CD'', se_display_name = None, se_visibility = VisibilityUnknown\<rparr>, ?e], CatalogComplete)"
    by code_simp
  from source_hidden_on_evidence [OF rows this, of ?e] show ?thesis by simp
qed

text \<open>A receiver that answers the first request with no command and nothing after it is asked seven times.\<close>

definition silent_receiver :: information_answers where
  "silent_receiver = \<lparr>in_batch = Ok \<lparr>as_raw_xml = ''<rx/>'', as_commands = []\<rparr>, in_batch_0301 = Err (io_error_of UnexpectedEof []),
     in_single = (\<lambda>_. Err (io_error_of UnexpectedEof []))\<rparr>"

theorem information_read_only_witness:
  "map fst (fst (read_information silent_receiver 1 0)) = APP_COMMAND_0300_PATH # APP_COMMAND_0301_PATH # replicate 5 APP_COMMAND_0300_PATH
    \<and> list_all (\<lambda>(path, rq). list_all (\<lambda>q. starts_with (aq_name q) ''Get'') (ar_queries rq)) (fst (read_information silent_receiver 1 0))"
proof
  show "map fst (fst (read_information silent_receiver 1 0)) = APP_COMMAND_0300_PATH # APP_COMMAND_0301_PATH # replicate 5 APP_COMMAND_0300_PATH"
    by code_simp
  show "list_all (\<lambda>(path, rq). list_all (\<lambda>q. starts_with (aq_name q) ''Get'') (ar_queries rq)) (fst (read_information silent_receiver 1 0))"
    using information_read_only [of silent_receiver 1 0] by (auto simp: list_all_iff)
qed

end
