(* ===== verification/Discovery.thy ===== *)
theory Discovery
  imports Http_Exchange "HOL-Library.Product_Lexorder" "HOL-Library.Option_ord"
begin

text \<open>
  The search for receivers, \<open>crates/infrastructure/src/discovery_ssdp.rs\<close>, in its asynchronous form, which
  shares every function that reads an answer with the blocking one. Sockets, clocks and tasks are what
  they return; an address is its four octets. Addresses of a socket bound to an IPv4 interface are IPv4.
\<close>

section \<open>Addresses\<close>

type_synonym ipv4 = "u8 \<times> u8 \<times> u8 \<times> u8"

definition ipv4_text :: "ipv4 \<Rightarrow> string" where
  "ipv4_text = (\<lambda>(a, b, c, d). show_nat (unat a) @ ''.'' @ show_nat (unat b) @ ''.'' @ show_nat (unat c) @ ''.'' @ show_nat (unat d))"

text \<open>\<open>str::parse::<Ipv4Addr>\<close>: four octets of at most three digits, without leading zeros.\<close>

fun split_char :: "char \<Rightarrow> string \<Rightarrow> string list" where
  "split_char d [] = [[]]"
| "split_char d (c # cs) = (if c = d then [] # split_char d cs else
     (case split_char d cs of [] \<Rightarrow> [[c]] | w # ws \<Rightarrow> (c # w) # ws))"

definition parse_octet :: "string \<Rightarrow> u8 option" where
  "parse_octet s =
     (if s \<noteq> [] \<and> length s \<le> 3 \<and> list_all is_ascii_digit s \<and> (length s = 1 \<or> hd s \<noteq> CHR ''0'') \<and> digits_value s \<le> 255
      then Some (of_nat (digits_value s)) else None)"

definition parse_ipv4 :: "string \<Rightarrow> ipv4 option" where
  "parse_ipv4 s =
     (case map parse_octet (split_char (CHR ''.'') s) of
        [Some a, Some b, Some c, Some d] \<Rightarrow> Some (a, b, c, d)
      | _ \<Rightarrow> None)"

definition is_private :: "ipv4 \<Rightarrow> bool" where
  "is_private = (\<lambda>(a, b, _, _). a = 10 \<or> a = 172 \<and> 16 \<le> b \<and> b \<le> 31 \<or> a = 192 \<and> b = 168)"

definition is_loopback :: "ipv4 \<Rightarrow> bool" where
  "is_loopback = (\<lambda>(a, _). a = 127)"

text \<open>The addresses of the interfaces, those of other families being None.\<close>

definition local_private_ipv4_addresses :: "(ipv4 option list, string) result \<Rightarrow> (ipv4 list, string) result" where
  "local_private_ipv4_addresses interfaces =
     (case interfaces of
        Err e \<Rightarrow> Err e
      | Ok addresses \<Rightarrow>
          Ok (remdups_adj (sort (filter (\<lambda>ip. is_private ip \<and> \<not> is_loopback ip) (List.map_filter id addresses)))))"

section \<open>Answers\<close>

datatype discovery_error = DiscoveryIo string | InvalidResponse string | DiscoveryTimeout

fun discovery_error_text :: "discovery_error \<Rightarrow> string" where
  "discovery_error_text (DiscoveryIo e) = ''SSDP discovery failed: '' @ e"
| "discovery_error_text (InvalidResponse message) = ''invalid SSDP response: '' @ message"
| "discovery_error_text DiscoveryTimeout = ''SSDP discovery timed out''"

fun header_map :: "string list \<Rightarrow> (string \<times> string) list \<Rightarrow> (string \<times> string) list" where
  "header_map [] m = m"
| "header_map (line # lines) m =
     (case split_once (CHR '':'') line of
        None \<Rightarrow> header_map lines m
      | Some (name, v) \<Rightarrow> header_map lines (bt_insert (map to_ascii_lowercase (trim name)) (trim v) m))"

definition or_else :: "'a option \<Rightarrow> 'a option \<Rightarrow> 'a option" where
  "or_else a b = (case a of Some v \<Rightarrow> Some v | None \<Rightarrow> b)"

definition parse_response :: "string \<Rightarrow> ipv4 \<Rightarrow> nat \<Rightarrow> (discovered_receiver, discovery_error) result" where
  "parse_response packet ip port =
     (if \<not> from_utf8_ok packet then Err (InvalidResponse ''response is not UTF-8'')
      else
        let headers = header_map (drop 1 (str_lines packet)) [] in
        if headers = [] then Err (InvalidResponse ''no headers'')
        else Ok \<lparr>dr_address = \<lparr>re_host = ipv4_text ip, re_port = port\<rparr>,
               dr_location = map_of headers ''location'', dr_server = map_of headers ''server'',
               dr_model = or_else (map_of headers ''model'') (map_of headers ''friendlyname''),
               dr_search_target = map_of headers ''st'', dr_unique_service_name = map_of headers ''usn''\<rparr>)"

definition is_denon_family :: "discovered_receiver \<Rightarrow> bool" where
  "is_denon_family r =
     list_ex (\<lambda>v. list_ex (contains_str (map to_ascii_lowercase v)) [''denon'', ''marantz'', ''heos'', ''aios''])
       (List.map_filter id [dr_location r, dr_server r, dr_model r, dr_search_target r, dr_unique_service_name r])"

type_synonym found_key = "string \<times> string option"

definition receiver_key :: "discovered_receiver \<Rightarrow> found_key" where
  "receiver_key r = (re_host (dr_address r), dr_location r)"

text \<open>\<open>entry(key).or_insert(receiver)\<close>\<close>

definition keep_first :: "discovered_receiver \<Rightarrow> (found_key \<times> discovered_receiver) list \<Rightarrow> (found_key \<times> discovered_receiver) list" where
  "keep_first r m = (if map_of m (receiver_key r) = None then bt_insert (receiver_key r) r m else m)"

section \<open>Descriptions\<close>

definition DESCRIPTION_PORT :: nat where "DESCRIPTION_PORT = 60006"
definition DESCRIPTION_PATH :: string where "DESCRIPTION_PATH = ''/upnp/desc/aios_device/aios_device.xml''"

definition split_after :: "string \<Rightarrow> string \<Rightarrow> string option" where
  "split_after p s = map_option (\<lambda>n. drop (n + length p) s) (position_of p s)"

definition xml_tag :: "string \<Rightarrow> string \<Rightarrow> string option" where
  "xml_tag xml tag =
     (case split_after (''<'' @ tag @ ''>'') xml of
        None \<Rightarrow> None
      | Some rest \<Rightarrow> map_option (\<lambda>n. trim (take n rest)) (position_of (''</'' @ tag @ ''>'') rest))"

definition parse_description :: "string \<Rightarrow> ipv4 \<Rightarrow> discovered_receiver option" where
  "parse_description xml ip =
     (case xml_tag xml ''manufacturer'' of
        None \<Rightarrow> None
      | Some manufacturer \<Rightarrow>
          if map to_ascii_lowercase manufacturer \<noteq> ''denon'' \<and> map to_ascii_lowercase manufacturer \<noteq> ''marantz'' then None
          else Some \<lparr>dr_address = \<lparr>re_host = ipv4_text ip, re_port = DESCRIPTION_PORT\<rparr>,
                 dr_location = Some (''http://'' @ ipv4_text ip @ '':'' @ show_nat DESCRIPTION_PORT @ DESCRIPTION_PATH),
                 dr_server = Some (manufacturer @ '' UPnP''),
                 dr_model = or_else (xml_tag xml ''modelName'') (xml_tag xml ''friendlyName''),
                 dr_search_target = xml_tag xml ''deviceType'', dr_unique_service_name = xml_tag xml ''UDN''\<rparr>)"

datatype description_read = ReadToEnd string | ReadTimedOut string | ReadFailed

record description_answers =
  pa_remaining :: duration
  pa_connected :: bool
  pa_written :: bool
  pa_read :: description_read

definition probe_receiver_description :: "ipv4 \<Rightarrow> description_answers \<Rightarrow> discovered_receiver option" where
  "probe_receiver_description ip a =
     (if pa_remaining a = 0 \<or> \<not> pa_connected a \<or> \<not> pa_written a then None
      else
        let response = (case pa_read a of ReadToEnd r \<Rightarrow> r | ReadTimedOut r \<Rightarrow> r | ReadFailed \<Rightarrow> []) in
        if response = [] \<or> length response > 65536 \<or> \<not> from_utf8_ok response then None
        else Option.bind (or_else (split_after BLANK_LINE response) (split_after [LF, LF] response))
               (\<lambda>body. parse_description body ip))"

definition enrich_discovered_receiver :: "discovered_receiver \<Rightarrow> description_answers \<Rightarrow> discovered_receiver" where
  "enrich_discovered_receiver r a =
     (case parse_ipv4 (re_host (dr_address r)) of
        None \<Rightarrow> r
      | Some ip \<Rightarrow>
          (case probe_receiver_description ip a of
             None \<Rightarrow> r
           | Some description \<Rightarrow>
               r\<lparr>dr_model := or_else (dr_model description) (dr_model r),
                 dr_location := or_else (dr_location description) (dr_location r),
                 dr_search_target := or_else (dr_search_target description) (dr_search_target r),
                 dr_unique_service_name := or_else (dr_unique_service_name description) (dr_unique_service_name r)\<rparr>))"

section \<open>The scan\<close>

definition add_candidate :: "ipv4 \<Rightarrow> ipv4 list \<Rightarrow> nat \<Rightarrow> ipv4 list" where
  "add_candidate local_ip candidates host =
     (let (a, b, c, _) = local_ip; candidate = (a, b, c, of_nat host) in
      if candidate \<noteq> local_ip \<and> candidate \<notin> set candidates then candidates @ [candidate] else candidates)"

definition scan_candidates :: "ipv4 list \<Rightarrow> ipv4 list" where
  "scan_candidates interfaces = foldl (\<lambda>candidates ip. foldl (add_candidate ip) candidates [1..<255]) [] interfaces"

text \<open>The tasks of the scan in the order they end, each with what its probe found or how it failed.\<close>

fun scan_results :: "(discovered_receiver option, string) result list \<Rightarrow> (found_key \<times> discovered_receiver) list
      \<Rightarrow> (discovered_receiver list, discovery_error) result" where
  "scan_results [] m = Ok (map snd m)"
| "scan_results (Err e # results) m = Err (InvalidResponse (''description scan task failed: '' @ e))"
| "scan_results (Ok None # results) m = scan_results results m"
| "scan_results (Ok (Some r) # results) m = scan_results results (keep_first r m)"

text \<open>
  The scan probes every candidate in a task of its own; \<open>order\<close> arranges the candidates in the order their
  tasks end, and a task gives the answers of its address or fails.
\<close>

definition description_scan :: "(ipv4 list \<Rightarrow> ipv4 list) \<Rightarrow> (ipv4 \<Rightarrow> (description_answers, string) result) \<Rightarrow> ipv4 list
      \<Rightarrow> (discovered_receiver list, discovery_error) result" where
  "description_scan order answers interfaces =
     scan_results
       (map (\<lambda>ip. case answers ip of Ok a \<Rightarrow> Ok (probe_receiver_description ip a) | Err e \<Rightarrow> Err e)
         (order (scan_candidates interfaces))) []"

section \<open>The search\<close>

definition discovery_request :: "nat \<Rightarrow> string \<Rightarrow> string" where
  "discovery_request port target =
     ''M-SEARCH * HTTP/1.1'' @ CRLF @ ''HOST: 239.255.255.250:'' @ show_nat port @ CRLF
     @ ''MAN: '' @ [CHR 0x22] @ ''ssdp:discover'' @ [CHR 0x22] @ CRLF @ ''MX: 3'' @ CRLF @ ''ST: '' @ target @ CRLF
     @ ''USER-AGENT: Rust/std UPnP/1.1 denon-avr-remote/0.1'' @ CRLF @ CRLF"

definition searches :: "(nat \<times> string) list" where
  "searches = concat (map (\<lambda>port. map (\<lambda>target. (port, discovery_request port target))
     [''urn:schemas-denon-com:device:ACT-Denon:1'', ''urn:schemas-denon-com:device:AiosDevice:1'', ''ssdp:all'']) [1900, 1800])"

definition reserved_fallback_budget :: "duration \<Rightarrow> duration" where
  "reserved_fallback_budget timeout = (let budget = timeout div 3 in if budget = 0 then timeout else budget)"

text \<open>One socket in one pass: what is left of the search, and what came within the wait.\<close>

datatype ssdp_receive = Packet string ipv4 nat | Silence | ReceiveFailed string

fun receive_all :: "(duration \<times> ssdp_receive) list \<Rightarrow> (found_key \<times> discovered_receiver) list
      \<Rightarrow> ((found_key \<times> discovered_receiver) list, discovery_error) result" where
  "receive_all [] m = Ok m"
| "receive_all ((remaining, got) # sockets) m =
     (if remaining = 0 then Ok m
      else case got of
             Packet packet ip port \<Rightarrow>
               (case parse_response packet ip port of
                  Ok r \<Rightarrow> receive_all sockets (if is_denon_family r then keep_first r m else m)
                | Err _ \<Rightarrow> receive_all sockets m)
           | ReceiveFailed e \<Rightarrow> Err (DiscoveryIo e)
           | Silence \<Rightarrow> receive_all sockets m)"

record ssdp_pass =
  sp_now :: instant
  sp_retry_now :: instant
  sp_resent :: "(unit, string) result"
  sp_sockets :: "(duration \<times> ssdp_receive) list"

text \<open>The loop until \<open>ssdp_deadline\<close>; None while the passes listed end before the search does.\<close>

fun listen :: "instant \<Rightarrow> instant \<Rightarrow> ssdp_pass list \<Rightarrow> bool \<Rightarrow> (found_key \<times> discovered_receiver) list
      \<Rightarrow> ((found_key \<times> discovered_receiver) list, discovery_error) result option" where
  "listen ssdp_deadline retry_at [] retried m = None"
| "listen ssdp_deadline retry_at (p # passes) retried m =
     (if sp_now p \<ge> ssdp_deadline then Some (Ok m)
      else
        let retry = \<not> retried \<and> sp_retry_now p \<ge> retry_at in
        case (if retry then sp_resent p else Ok ()) of
          Err e \<Rightarrow> Some (Err (DiscoveryIo e))
        | Ok _ \<Rightarrow>
            (case receive_all (sp_sockets p) m of
               Err e \<Rightarrow> Some (Err e)
             | Ok m' \<Rightarrow> listen ssdp_deadline retry_at passes (retried \<or> retry) m'))"

record ssdp_search =
  ss_start :: instant
  ss_interfaces :: "(ipv4 option list, string) result"
  ss_bound :: "ipv4 \<Rightarrow> (unit, string) result"
  ss_passes :: "ssdp_pass list"
  ss_order :: "ipv4 list \<Rightarrow> ipv4 list"
  ss_scan :: "ipv4 \<Rightarrow> (description_answers, string) result"
  ss_probe :: "found_key \<Rightarrow> description_answers"

fun bind_all :: "(ipv4 \<Rightarrow> (unit, string) result) \<Rightarrow> ipv4 list \<Rightarrow> (unit, string) result" where
  "bind_all bound [] = Ok ()"
| "bind_all bound (ip # ips) = (case bound ip of Err e \<Rightarrow> Err e | Ok _ \<Rightarrow> bind_all bound ips)"

definition discover_inner :: "ssdp_search \<Rightarrow> duration \<Rightarrow> (discovered_receiver list, discovery_error) result option" where
  "discover_inner s timeout =
     (if timeout = 0 then Some (Err DiscoveryTimeout)
      else
        let fallback = reserved_fallback_budget timeout;
            ssdp_deadline = ss_start s + (timeout - fallback);
            retry_at = ss_start s + (timeout - fallback) div 2 in
        case local_private_ipv4_addresses (ss_interfaces s) of
          Err e \<Rightarrow> Some (Err (DiscoveryIo e))
        | Ok ips \<Rightarrow>
            (case bind_all (ss_bound s) ips of
               Err e \<Rightarrow> Some (Err (DiscoveryIo e))
             | Ok _ \<Rightarrow>
                 if ips = [] then Some (Err (InvalidResponse ''no private IPv4 network interface is available''))
                 else (case listen ssdp_deadline retry_at (ss_passes s) False [] of
                         None \<Rightarrow> None
                       | Some (Err e) \<Rightarrow> Some (Err e)
                       | Some (Ok m) \<Rightarrow>
                           Some (if m = [] then description_scan (ss_order s) (ss_scan s) ips
                                 else Ok (map (\<lambda>(k, r). enrich_discovered_receiver r (ss_probe s k)) m)))))"

text \<open>\<open>discover_receivers_async\<close>: the whole search under one timeout, which may end it first.\<close>

definition discover :: "ssdp_search \<Rightarrow> duration \<Rightarrow> bool \<Rightarrow> (discovered_receiver list, discovery_error) result option" where
  "discover s timeout elapsed = (if elapsed then Some (Err DiscoveryTimeout) else discover_inner s timeout)"

section \<open>What is found\<close>

lemma contains_str_start: "contains_str (p @ b) p"
  using starts_with_append [of p b] by (cases "p @ b") auto

lemma contains_str_inside: "contains_str (a @ p @ b) p"
  by (induction a) (simp_all add: contains_str_start)

lemma or_else_Some [simp]: "or_else (Some v) b = Some v"
  by (simp add: or_else_def)

lemma denon_location: "dr_location r = Some (a @ DESCRIPTION_PATH) \<Longrightarrow> is_denon_family r"
proof -
  assume l: "dr_location r = Some (a @ DESCRIPTION_PATH)"
  have path: "map to_ascii_lowercase DESCRIPTION_PATH = ''/upnp/desc/'' @ ''aios'' @ ''_device/aios_device.xml''"
    by code_simp
  have "contains_str (map to_ascii_lowercase (a @ DESCRIPTION_PATH)) ''aios''"
    using contains_str_inside [of "map to_ascii_lowercase a @ ''/upnp/desc/''" "''aios''" "''_device/aios_device.xml''"]
    by (simp only: map_append path append_assoc)
  then show ?thesis by (simp add: is_denon_family_def map_filter_simps l)
qed

lemma probe_denon: "probe_receiver_description ip a = Some r \<Longrightarrow> \<exists>b. dr_location r = Some (b @ DESCRIPTION_PATH)"
  by (auto simp: probe_receiver_description_def parse_description_def Let_def bind_eq_Some_conv split: if_splits option.splits)

lemma enrich_denon: "is_denon_family r \<Longrightarrow> is_denon_family (enrich_discovered_receiver r a)"
proof -
  assume r: "is_denon_family r"
  show ?thesis
  proof (cases "\<exists>ip d. parse_ipv4 (re_host (dr_address r)) = Some ip \<and> probe_receiver_description ip a = Some d")
    case True
    then obtain ip d where d: "parse_ipv4 (re_host (dr_address r)) = Some ip" "probe_receiver_description ip a = Some d" by blast
    obtain b where "dr_location d = Some (b @ DESCRIPTION_PATH)" using probe_denon [OF d(2)] by blast
    then show ?thesis using d by (intro denon_location [of _ b]) (simp add: enrich_discovered_receiver_def)
  next
    case False
    then show ?thesis using r by (auto simp: enrich_discovered_receiver_def split: option.splits)
  qed
qed

definition found_ok :: "(found_key \<times> discovered_receiver) list \<Rightarrow> bool" where
  "found_ok m \<longleftrightarrow> bt_wf m \<and> (\<forall>(k, r) \<in> set m. k = receiver_key r \<and> is_denon_family r)"

lemma found_ok_Nil [simp]: "found_ok []"
  by (simp add: found_ok_def)

lemma set_bt_insert_pairs: "set (bt_insert k v m) \<subseteq> insert (k, v) (set m)"
  by (induction k v m rule: bt_insert.induct) auto

lemma found_ok_keep: "found_ok m \<Longrightarrow> is_denon_family r \<Longrightarrow> found_ok (keep_first r m)"
  using set_bt_insert_pairs [of "receiver_key r" r m] by (auto simp: found_ok_def keep_first_def bt_wf_insert)

lemma found_ok_receive: "receive_all sockets m = Ok m' \<Longrightarrow> found_ok m \<Longrightarrow> found_ok m'"
  by (induction sockets m rule: receive_all.induct)
    (auto simp: found_ok_keep split: if_splits ssdp_receive.splits sum.splits)

lemma found_ok_listen: "listen d t passes retried m = Some (Ok m') \<Longrightarrow> found_ok m \<Longrightarrow> found_ok m'"
  by (induction d t passes retried m rule: listen.induct)
    (auto simp: Let_def found_ok_receive split: if_splits sum.splits)

lemma found_ok_scan:
  "scan_results results m = Ok rs \<Longrightarrow> found_ok m \<Longrightarrow> \<forall>r. Ok (Some r) \<in> set results \<longrightarrow> is_denon_family r \<Longrightarrow>
    \<forall>r \<in> set rs. is_denon_family r"
proof (induction results m rule: scan_results.induct)
  case (1 m)
  then show ?case by (fastforce simp: found_ok_def)
qed (auto simp: found_ok_keep)

text \<open>
  Whatever answers on the network, every receiver the search reports is of the Denon family: it said
  so in its answer, or its own description was read and names the manufacturer.
\<close>

theorem discovered_are_denon:
  assumes "discover s timeout elapsed = Some (Ok rs)" "r \<in> set rs"
  shows "is_denon_family r"
proof -
  have inner: "discover_inner s timeout = Some (Ok rs)" using assms(1) by (simp add: discover_def split: if_splits)
  obtain d t m ips where m: "listen d t (ss_passes s) False [] = Some (Ok m)"
    and rs: "(if m = [] then description_scan (ss_order s) (ss_scan s) ips
      else Ok (map (\<lambda>(k, r). enrich_discovered_receiver r (ss_probe s k)) m)) = Ok rs"
    using inner by (auto simp: discover_inner_def Let_def split: if_splits sum.splits option.splits)
  have found: "found_ok m" by (rule found_ok_listen [OF m]) simp
  show ?thesis
  proof (cases "m = []")
    case True
    let ?results = "map (\<lambda>ip. case ss_scan s ip of Ok a \<Rightarrow> Ok (probe_receiver_description ip a) | Err e \<Rightarrow> Err e)
      (ss_order s (scan_candidates ips))"
    have "\<forall>r. Ok (Some r) \<in> set ?results \<longrightarrow> is_denon_family r"
      by (auto split: sum.splits dest!: sym [of "Some _"] probe_denon intro: denon_location)
    moreover have "scan_results ?results [] = Ok rs" using rs True by (simp add: description_scan_def)
    ultimately show ?thesis using found_ok_scan [of ?results "[]" rs] assms(2) by simp
  next
    case False
    then have "rs = map (\<lambda>(k, r). enrich_discovered_receiver r (ss_probe s k)) m" using rs by simp
    then show ?thesis using assms(2) found by (auto simp: found_ok_def intro!: enrich_denon)
  qed
qed

section \<open>Where the scan goes\<close>

definition same_network :: "ipv4 \<Rightarrow> ipv4 \<Rightarrow> bool" where
  "same_network = (\<lambda>(a, b, c, _) (a', b', c', _). a = a' \<and> b = b' \<and> c = c')"

lemma add_candidates_network:
  "set (foldl (add_candidate ip) cs hs) \<subseteq> set cs \<union> {c. same_network c ip}
    \<and> length (foldl (add_candidate ip) cs hs) \<le> length cs + length hs
    \<and> (distinct cs \<longrightarrow> distinct (foldl (add_candidate ip) cs hs))"
proof (induction hs arbitrary: cs)
  case (Cons h hs)
  have "set (add_candidate ip cs h) \<subseteq> set cs \<union> {c. same_network c ip}"
    "length (add_candidate ip cs h) \<le> length cs + 1" "distinct cs \<longrightarrow> distinct (add_candidate ip cs h)"
    by (auto simp: add_candidate_def same_network_def Let_def split: prod.splits)
  with Cons.IH [of "add_candidate ip cs h"] show ?case by (simp, blast intro: le_trans)
qed simp

lemma scan_candidates_from:
  "set (foldl (\<lambda>candidates ip. foldl (add_candidate ip) candidates hosts) cs ips)
      \<subseteq> set cs \<union> {c. \<exists>ip \<in> set ips. same_network c ip}
    \<and> length (foldl (\<lambda>candidates ip. foldl (add_candidate ip) candidates hosts) cs ips) \<le> length cs + length hosts * length ips
    \<and> (distinct cs \<longrightarrow> distinct (foldl (\<lambda>candidates ip. foldl (add_candidate ip) candidates hosts) cs ips))"
proof (induction ips arbitrary: cs)
  case (Cons ip ips)
  define cs' where "cs' = foldl (add_candidate ip) cs hosts"
  have one: "set cs' \<subseteq> set cs \<union> {c. same_network c ip}" "length cs' \<le> length cs + length hosts" "distinct cs \<longrightarrow> distinct cs'"
    using add_candidates_network [of ip cs hosts] by (auto simp: cs'_def)
  show ?case
    using Cons.IH [of cs'] one by (auto simp: cs'_def [symmetric])
qed simp


section \<open>Witnesses\<close>

definition example_search :: ssdp_search where
  "example_search =
     \<lparr>ss_start = 0, ss_interfaces = Ok [Some (192, 168, 0, 2), None], ss_bound = (\<lambda>_. Ok ()),
      ss_passes =
        [\<lparr>sp_now = 0, sp_retry_now = 0, sp_resent = Ok (),
          sp_sockets = [(1, Packet (''HTTP/1.1 200 OK'' @ CRLF @ ''SERVER: Denon'') (192, 168, 0, 9) 1900)]\<rparr>,
         \<lparr>sp_now = 9, sp_retry_now = 9, sp_resent = Ok (), sp_sockets = []\<rparr>],
      ss_order = id, ss_scan = (\<lambda>_. Err []),
      ss_probe = (\<lambda>_. \<lparr>pa_remaining = 0, pa_connected = False, pa_written = False, pa_read = ReadFailed\<rparr>)\<rparr>"

definition example_found :: discovered_receiver where
  "example_found =
     \<lparr>dr_address = \<lparr>re_host = ''192.168.0.9'', re_port = 1900\<rparr>, dr_location = None, dr_server = Some ''Denon'', dr_model = None,
      dr_search_target = None, dr_unique_service_name = None\<rparr>"

theorem discovered_are_denon_witness:
  "discover example_search 9 False = Some (Ok [example_found]) \<and> is_denon_family example_found"
proof -
  have "discover example_search 9 False = Some (Ok [example_found])" by code_simp
  then show ?thesis using discovered_are_denon [of example_search 9 False "[example_found]" example_found] by simp
qed


end
