(* ===== verification/Spec2Isabelle.thy ===== *)
theory Spec2Isabelle
  imports Prelude Ordered_Map Domain_Values Receiver_State Precondition State_Properties Timing
    Capabilities Avr_Protocol Receiver_Config Policy_Values Policy Control Audit_Records Ledger
    Operations Gate_Lifecycle Write_Caps Agent_State Judgement Service Service_Safety
    Service_Invariant Service_Tasks Service_Properties Access_Book Transport Session
    Session_Contract Session_Properties Connections Pool_Safety Pool_Properties Transport_Run Transport_Properties Wire_Properties Token_Store Token_Properties
    Event_Stream Service_Ports Port_Properties Receiver_Selection Audit_Json Audit_Log Audit_Log_Properties Audit_Restart Sse_Stream Sse_Properties Api_Values Api_Operations Api_State Api_Properties Session_Values Api_Routes Api_Pipeline Main_Zone Gui_Projection Api_Admin Api_Inspection Http_Exchange Http_Properties App_Command App_Command_Properties Discovery
begin

text \<open>
  A verification library for the Denon AVR remote: a Rust workspace whose core decides what an
  operator or an AI agent may do to an AV receiver, does it at most once, and reports what the
  receiver was seen to do.

  \<^bold>\<open>The program.\<close> A caller is the Operator or an agent with a token. The API server admits a peer,
  checks its credential and its request (\<open>apps/api-server\<close>), and hands it a handle of the control
  service (\<open>crates/application/src/service\<close>). The service keeps a table of operations, decides each
  write under the owner's policy (\<open>crates/policy\<close>) and a budget of volume rises, writes an audit log,
  and runs each operation as a task that takes a lease on a session of the connection pool. A session
  (\<open>crates/infrastructure/src/x3800h_session\<close>) is an actor: it folds what the receiver says into a
  canonical state in which every value carries its evidence (\<open>crates/domain/src/receiver_state.rs\<close>),
  checks the precondition of a decision again before it writes, and confirms a write by what it then
  observes. Below it is the task that owns the socket (\<open>avr_session.rs\<close>): framing, pacing, matching
  answers to requests, reconnecting. Beside it are the exchanges over HTTP, the search for receivers,
  and, towards the callers, the contract of the API, its client and the projection of the desktop.

  \<^bold>\<open>Theories and sources.\<close> Every definition keeps the name of the source where HOL allows it.

  \<^item> \<open>Prelude\<close>, \<open>Ordered_Map\<close>: results, machine integers, durations, text as UTF-8 bytes, \<open>BTreeMap\<close>.
  \<^item> \<open>Domain_Values\<close>, \<open>Receiver_State\<close>, \<open>Precondition\<close>, \<open>State_Properties\<close>, \<open>Timing\<close>, \<open>Capabilities\<close>,
    \<open>Receiver_Config\<close>, \<open>Main_Zone\<close>: \<open>crates/domain\<close>.
  \<^item> \<open>Avr_Protocol\<close>, \<open>App_Command\<close>, \<open>App_Command_Properties\<close>: \<open>crates/protocol\<close>, and the readers over HTTP
    of \<open>crates/infrastructure\<close>.
  \<^item> \<open>Policy_Values\<close>, \<open>Policy\<close>: \<open>crates/policy\<close>.
  \<^item> \<open>Control\<close>, \<open>Audit_Records\<close>, \<open>Ledger\<close>, \<open>Receiver_Selection\<close>: the values and the pure parts of
    \<open>crates/application\<close>.
  \<^item> \<open>Operations\<close>, \<open>Gate_Lifecycle\<close>, \<open>Write_Caps\<close>, \<open>Agent_State\<close>, \<open>Judgement\<close>, \<open>Service\<close>,
    \<open>Service_Safety\<close>, \<open>Service_Invariant\<close>, \<open>Service_Tasks\<close>, \<open>Service_Properties\<close>, \<open>Access_Book\<close>: the control service,
    \<open>service.rs\<close>, \<open>service/operations.rs\<close> and \<open>service/agent\<close>.
  \<^item> \<open>Connections\<close>, \<open>Pool_Safety\<close>, \<open>Pool_Properties\<close>: \<open>service/connections.rs\<close>.
  \<^item> \<open>Event_Stream\<close>, \<open>Service_Ports\<close>, \<open>Port_Properties\<close>: \<open>service/ports.rs\<close>.
  \<^item> \<open>Session\<close>, \<open>Session_Contract\<close>, \<open>Session_Properties\<close>, \<open>Session_Values\<close>: the X3800H session.
  \<^item> \<open>Transport\<close>, \<open>Transport_Run\<close>, \<open>Transport_Properties\<close>, \<open>Wire_Properties\<close>: \<open>avr_session.rs\<close>.
  \<^item> \<open>Token_Store\<close>, \<open>Token_Properties\<close>: \<open>token_store.rs\<close>. \<open>Audit_Json\<close>, \<open>Audit_Log\<close>,
    \<open>Audit_Log_Properties\<close>, \<open>Audit_Restart\<close>: \<open>audit_jsonl.rs\<close>.
  \<^item> \<open>Http_Exchange\<close>, \<open>Http_Properties\<close>: \<open>app_command_http.rs\<close>. \<open>Discovery\<close>: \<open>discovery_ssdp.rs\<close>.
  \<^item> \<open>Api_Values\<close>, \<open>Api_Operations\<close>, \<open>Api_State\<close>, \<open>Api_Admin\<close>, \<open>Api_Inspection\<close>, \<open>Api_Properties\<close>,
    \<open>Api_Routes\<close>: \<open>crates/api-contract\<close>, with \<open>mapping.rs\<close> of the client. \<open>Sse_Stream\<close>, \<open>Sse_Properties\<close>: its
    \<open>events.rs\<close> and \<open>sse.rs\<close> of the client.
  \<^item> \<open>Api_Pipeline\<close>: \<open>pipeline.rs\<close>, \<open>endpoint.rs\<close> and the routing of \<open>routes.rs\<close> in \<open>apps/api-server\<close>.
  \<^item> \<open>Gui_Projection\<close>: \<open>crates/gui-lib/src/projection.rs\<close>.

  \<^bold>\<open>How state and concurrency are modelled.\<close> A struct is a record, an enum a datatype, an error a value
  of \<open>Err\<close>. A method on a mutable receiver returns the new record. What runs under one lock, or between
  two awaits, is one function; a component is the interleaving of these functions as an inductive step
  relation (\<open>sv_step\<close>, \<open>op_step\<close>, \<open>pool_step\<close>, \<open>session_step\<close>, \<open>token_step\<close>, \<open>log_step\<close>)
  or a machine driven by what its awaits return (\<open>transport_step\<close>), and its invariants go over every reachable state. Contracts that several operations or clients share are
  locales, each interpreted on the model's own definitions: the evidence contract of a field, the
  lifecycle of an operation, what a session may do to its feed, the wire form of a value, and others.

  \<^bold>\<open>What the lemmas show.\<close>

  \<^item> Of a write: an agent's reaches the receiver only under an allow of a policy in force, with the
    precondition that allow rests on and a durable record made first; every operation reaches the
    session at most once; a cancel and the session exclude each other; the command is sent only after
    everything was asked for again; a success is an observation on this connection; an outcome says no
    more and no less than what the transport knows; a task ends and reports what the session said.
  \<^item> Of decisions: they are the most restrictive of the matching rules, stable under the captured
    precondition, and keep volume rises within every budget, across callers and across a restart of
    the program on its audit log.
  \<^item> Of the state: current fields come from the connection in force, on every reachable state of a
    session, through the wire and on the desktop, where a readable value is never left out.
  \<^item> Of the pool: a session is not closed under a running operation and is released when unused.
  \<^item> Of the transport: a request is answered at most once, by a line of its family; framing hands on
    exactly the byte stream unless a request cut a line.
  \<^item> Of files: acknowledged audit records are kept, numbered and paged completely; a revoked token is
    dead for good.
  \<^item> Of the API: nothing is served without the endpoint's credential, agents reach and learn only what
    is theirs, values and streams read back as they were sent.
  \<^item> Of HTTP and discovery: a request is one request, an answer is read exactly however it is cut,
    reading information asks only queries, and the search stays in the local networks.

  \<^bold>\<open>Bounds and fuel.\<close> No loop of the program is cut short. The only fuel is that of \<open>read_pages\<close>, a
  caller who follows the cursors of the audit log: one more than the number of lines is enough, as is
  shown there. The rounds of a confirmation are a list of outcomes, which in the program
  the clock ends. A task of an operation has a rank of at most
  fifteen, which every step of its own lowers. Recursions over what the outside returns (bytes, frames,
  answers, passes of a search) are structural in the list of those outcomes; a list that ends stands
  for an outside that has not answered yet, and the function then says that it waits, or is \<open>None\<close>.
  The constants of the source are kept: retained operations, the backlog of events, pages of at most
  500, responses and events of at most their limits, at most seven requests for the information of a
  receiver, 254 addresses for each interface.

  \<^bold>\<open>Parameters.\<close> SHA-256, random bytes, JSON, YAML and XML texts, the web framework's choice of a route,
  sockets, clocks and the file system are arguments or what their calls return. What is used of them is
  a named hypothesis of the theorem that uses it, such as \<open>picks_given\<close>, and has a concrete instance in
  the witness of that theorem.

  \<^bold>\<open>Not modelled.\<close> The handlers of the server and the calls of the client, which pass the values
  modelled here between the pipeline and a handle; starting the server, its settings and the agents'
  directory (file system calls); decoding YAML files, whose checks after decoding are in \<open>Policy\<close> and
  \<open>Receiver_Config\<close>; the blocking search, which the program does not use; the command line, the views
  of the desktop, logging and the diagnostic probes, which print or draw; tests and archived
  experiments.
\<close>

end
